(* ===== verification/Go_Prelude.thy ===== *)
theory Go_Prelude
  imports Main "HOL-Library.Char_ord" "HOL-Library.List_Lexorder" "HOL-Library.Sublist"
begin

text \<open>
  The parts of the Go language and its standard library that the modelled packages share:
  byte strings and the functions of package \<open>strings\<close> on them, decimal formatting as
  \<open>fmt.Sprintf\<close> does it, \<open>sort.Strings\<close>, and maps whose missing keys read as the zero
  value.  A Go string is a sequence of bytes, so it is a list of (8-bit) characters here,
  ordered bytewise by the library's lexicographic order.

  The collections: \<open>go_simps\<close> holds the string and formatting facts every component uses.
\<close>

named_theorems go_simps

section \<open>Package strings\<close>

definition has_prefix :: "string \<Rightarrow> string \<Rightarrow> bool" where
  "has_prefix s p \<longleftrightarrow> take (length p) s = p"

definition trim_prefix :: "string \<Rightarrow> string \<Rightarrow> string" where
  "trim_prefix s p = (if has_prefix s p then drop (length p) s else s)"

definition has_suffix :: "string \<Rightarrow> string \<Rightarrow> bool" where
  "has_suffix s p \<longleftrightarrow> has_prefix (rev s) (rev p)"

definition trim_chars :: "string \<Rightarrow> string \<Rightarrow> string" where
  "trim_chars s cs =
     rev (dropWhile (\<lambda>c. c \<in> set cs) (rev (dropWhile (\<lambda>c. c \<in> set cs) s)))"

fun join_strings :: "string list \<Rightarrow> string \<Rightarrow> string" where
  "join_strings [] sep = ''''"
| "join_strings [x] sep = x"
| "join_strings (x # y # zs) sep = x @ sep @ join_strings (y # zs) sep"

definition sort_strings :: "string list \<Rightarrow> string list" where
  "sort_strings xs = sort xs"

lemma has_prefix_append [go_simps]: "has_prefix (p @ s) p"
  by (simp add: has_prefix_def)

lemma has_prefix_iff: "has_prefix s p \<longleftrightarrow> (\<exists>t. s = p @ t)"
  by (metis append_eq_conv_conj append_take_drop_id has_prefix_def)

lemma trim_prefix_append [go_simps]: "trim_prefix (p @ s) p = s"
  by (simp add: trim_prefix_def has_prefix_append)

lemma trim_prefix_no_prefix: "\<not> has_prefix s p \<Longrightarrow> trim_prefix s p = s"
  by (simp add: trim_prefix_def)

lemma sort_strings_set [simp]: "set (sort_strings xs) = set xs"
  by (simp add: sort_strings_def)

lemma sort_strings_eq_Nil [simp]: "sort_strings xs = [] \<longleftrightarrow> xs = []"
  by (metis set_empty sort_strings_set)

lemma sort_strings_distinct [simp]: "distinct (sort_strings xs) = distinct xs"
  by (simp add: sort_strings_def)

lemma sorted_sort_strings [simp]: "sorted (sort_strings xs)"
  by (simp add: sort_strings_def)

lemma length_sort_strings [simp]: "length (sort_strings xs) = length xs"
  by (simp add: sort_strings_def)

section \<open>Iterating a string by runes\<close>

text \<open>
  \<open>for _, character := range value\<close> decodes UTF-8: a valid sequence of two, three or four
  bytes is one rune, and every byte that starts no valid sequence is one (replacement) rune.
  \<open>rune_width\<close> is the width of the first rune, by the byte ranges of \<open>unicode/utf8\<close>.
\<close>

definition byte_in :: "nat \<Rightarrow> nat \<Rightarrow> char \<Rightarrow> bool" where
  "byte_in lo hi c \<longleftrightarrow> lo \<le> of_char c \<and> of_char c \<le> hi"

definition cont_byte :: "char \<Rightarrow> bool" where
  "cont_byte c = byte_in 128 191 c"

fun rune_width :: "string \<Rightarrow> nat" where
  "rune_width (a # b # c # d # _) =
     (if byte_in 240 244 a \<and> byte_in (if of_char a = (240::nat) then 144 else 128)
                                    (if of_char a = (244::nat) then 143 else 191) b
         \<and> cont_byte c \<and> cont_byte d then 4
      else if byte_in 224 239 a \<and> byte_in (if of_char a = (224::nat) then 160 else 128)
                                    (if of_char a = (237::nat) then 159 else 191) b
         \<and> cont_byte c then 3
      else if byte_in 194 223 a \<and> cont_byte b then 2
      else 1)"
| "rune_width [a, b, c] =
     (if byte_in 224 239 a \<and> byte_in (if of_char a = (224::nat) then 160 else 128)
                                    (if of_char a = (237::nat) then 159 else 191) b
         \<and> cont_byte c then 3
      else if byte_in 194 223 a \<and> cont_byte b then 2
      else 1)"
| "rune_width [a, b] = (if byte_in 194 223 a \<and> cont_byte b then 2 else 1)"
| "rune_width _ = 1"

lemma rune_width_pos [simp]: "0 < rune_width s"
  by (induction s rule: rune_width.induct) auto

function runes :: "string \<Rightarrow> string list" where
  "runes s = (if s = [] then [] else take (rune_width s) s # runes (drop (rune_width s) s))"
  by pat_completeness auto
termination
  by (relation "measure length") (auto simp: rune_width_pos)

declare runes.simps [simp del]

lemma concat_runes: "concat (runes s) = s"
proof (induction s rule: runes.induct)
  case (1 s)
  then show ?case
    by (cases "s = []") (simp_all add: runes.simps [of s] runes.simps [of "[]"])
qed

section \<open>Decimal formatting\<close>

definition digit_char :: "nat \<Rightarrow> char" where
  "digit_char d = ''0123456789'' ! (d mod 10)"

fun nat_string :: "nat \<Rightarrow> string" where
  "nat_string n =
     (if n < 10 then [digit_char n] else nat_string (n div 10) @ [digit_char (n mod 10)])"

declare nat_string.simps [simp del]

definition int_string :: "int \<Rightarrow> string" where
  "int_string i = (if i < 0 then ''-'' @ nat_string (nat (- i)) else nat_string (nat i))"

text \<open>\<open>%0wd\<close> on a natural number: at least \<open>w\<close> digits, padded with zeros.\<close>

definition pad_nat :: "nat \<Rightarrow> nat \<Rightarrow> string" where
  "pad_nat w n = (let s = nat_string n in replicate (w - length s) (CHR ''0'') @ s)"

text \<open>\<open>%0wd\<close> on a signed integer: the sign counts towards the width.\<close>

definition pad_int :: "nat \<Rightarrow> int \<Rightarrow> string" where
  "pad_int w i = (if i < 0 then ''-'' @ pad_nat (w - 1) (nat (- i)) else pad_nat w (nat i))"

definition is_digit :: "char \<Rightarrow> bool" where
  "is_digit c \<longleftrightarrow> c \<in> set ''0123456789''"

definition digit_val :: "char \<Rightarrow> nat" where
  "digit_val c = length (takeWhile (\<lambda>x. x \<noteq> c) ''0123456789'')"

definition read_nat :: "string \<Rightarrow> nat" where
  "read_nat s = foldl (\<lambda>acc c. 10 * acc + digit_val c) 0 s"

lemma lt10_cases:
  "(d::nat) < 10 \<Longrightarrow> d \<in> {0,1,2,3,4,5,6,7,8,9}"
  by auto

lemma digit_val_char [simp]: "d < 10 \<Longrightarrow> digit_val (digit_char d) = d"
  by (drule lt10_cases) (auto simp: digit_val_def digit_char_def)

lemma is_digit_char [simp]: "is_digit (digit_char d)"
proof -
  have "digit_char d = digit_char (d mod 10)" by (simp add: digit_char_def)
  moreover have "is_digit (digit_char (d mod 10))"
    unfolding is_digit_def digit_char_def
    by (rule nth_mem) simp
  ultimately show ?thesis by simp
qed

lemma nat_string_digits: "c \<in> set (nat_string n) \<Longrightarrow> is_digit c"
proof (induction n rule: nat_string.induct)
  case (1 n)
  then show ?case by (cases "n < 10") (auto simp: nat_string.simps [of n])
qed

lemma foldl_digits_zero:
  "foldl (\<lambda>acc c. 10 * acc + digit_val c) 0 (replicate k (CHR ''0'')) = 0"
  by (induction k) (auto simp: digit_val_def)

lemma read_nat_string: "read_nat (nat_string n) = n"
proof (induction n rule: nat_string.induct)
  case (1 n)
  show ?case
  proof (cases "n < 10")
    case True
    then show ?thesis by (simp add: nat_string.simps [of n] read_nat_def)
  next
    case False
    then have "read_nat (nat_string (n div 10)) = n div 10" using 1 by simp
    then show ?thesis using False
      by (simp add: nat_string.simps [of n] read_nat_def)
  qed
qed

lemma read_pad_nat: "read_nat (pad_nat w n) = n"
  using read_nat_string [of n]
  by (simp add: pad_nat_def Let_def read_nat_def foldl_digits_zero)

lemma pad_nat_digits: "c \<in> set (pad_nat w n) \<Longrightarrow> is_digit c"
  by (auto simp: pad_nat_def Let_def dest: nat_string_digits) (simp add: is_digit_def)

lemma pad_nat_inj [simp]: "pad_nat w m = pad_nat w n \<longleftrightarrow> m = n"
  using read_pad_nat by metis

text \<open>
  Two identities that start with a padded counter and a separator that is no digit agree
  only when the counters do.
\<close>

lemma takeWhile_digits: "takeWhile is_digit (pad_nat w n @ CHR ''-'' # t) = pad_nat w n"
proof -
  have "\<And>c. c \<in> set (pad_nat w n) \<Longrightarrow> is_digit c" by (rule pad_nat_digits)
  then have "takeWhile is_digit (pad_nat w n @ CHR ''-'' # t) =
      pad_nat w n @ takeWhile is_digit (CHR ''-'' # t)"
    by (rule takeWhile_append2)
  then show ?thesis by (simp add: is_digit_def)
qed

lemma pad_nat_sep_inj:
  "pad_nat w m @ CHR ''-'' # s = pad_nat w n @ CHR ''-'' # t \<Longrightarrow> m = n"
  by (metis pad_nat_inj takeWhile_digits)

section \<open>Updating a slice element in place\<close>

text \<open>
  A pointer to the first element that satisfies \<open>p\<close>, written through once: what
  \<open>builder.node(identity).Field = value\<close> does.
\<close>

fun update_first :: "('a \<Rightarrow> bool) \<Rightarrow> ('a \<Rightarrow> 'a) \<Rightarrow> 'a list \<Rightarrow> 'a list" where
  "update_first p f [] = []"
| "update_first p f (x # xs) = (if p x then f x # xs else x # update_first p f xs)"

lemma map_update_first:
  "(\<And>x. p x \<Longrightarrow> g (f x) = g x) \<Longrightarrow> map g (update_first p f xs) = map g xs"
  by (induction xs) auto

lemma set_update_first:
  "y \<in> set (update_first p f xs) \<Longrightarrow> y \<in> set xs \<or> (\<exists>x \<in> set xs. p x \<and> y = f x)"
  by (induction xs) (auto split: if_splits)

lemma length_update_first [simp]: "length (update_first p f xs) = length xs"
  by (induction xs) auto

section \<open>Maps with zero values\<close>

text \<open>\<open>m[k]\<close> on a Go map: the value, or the zero value of the element type.\<close>

definition zget :: "'v \<Rightarrow> ('k \<rightharpoonup> 'v) \<Rightarrow> 'k \<Rightarrow> 'v" where
  "zget z m k = (case m k of None \<Rightarrow> z | Some v \<Rightarrow> v)"

lemma zget_update [simp]: "zget z (m(k \<mapsto> v)) k' = (if k' = k then v else zget z m k')"
  by (simp add: zget_def)

lemma zget_Some: "m k = Some v \<Longrightarrow> zget z m k = v"
  by (simp add: zget_def)

lemma zget_None: "m k = None \<Longrightarrow> zget z m k = z"
  by (simp add: zget_def)

lemma zget_nonzero: "zget z m k \<noteq> z \<Longrightarrow> \<exists>v. m k = Some v \<and> zget z m k = v"
  by (auto simp: zget_def split: option.splits)

lemma find_map_distinct:
  "distinct (map f xs) \<Longrightarrow> x \<in> set xs \<Longrightarrow> find (\<lambda>y. f y = f x) xs = Some x"
  by (induction xs) (auto simp: rev_image_eqI)

lemma find_SomeD: "find p xs = Some x \<Longrightarrow> x \<in> set xs \<and> p x"
  by (auto simp: find_Some_iff)

end
