(* ===== verification/Manifest_IR.thy ===== *)
theory Manifest_IR
  imports Complex_Main Go_Prelude
begin

text \<open>
  The inert workflow authoring IR of \<open>internal/manifest/ir.go\<close>: what the TypeScript frontend
  hands to the compiler in \<open>internal/workflow\<close> and what \<open>workflow_validation.go\<close> checks.
  Structs are records, or datatypes with one constructor where they are recursive; a pointer
  that may be nil is an option; a \<open>float64\<close> that comes from JSON is a finite number, so it is
  a rational (every finite double is one); a Go map of authored data is an association list
  with distinct keys in an arbitrary order.
\<close>

type_synonym float64 = rat

datatype json_value =
    JNull
  | JBool bool
  | JNumber float64
  | JString string
  | JArray "json_value list"
  | JObject "(string \<times> json_value) list"

record workflow_value_ref =
  wvrIdentity :: string
  wvrSource :: string
  wvrResultType :: string
  wvrFieldPath :: "string list"
  wvrCategory :: string
  wvrAggregate :: string
  wvrIndex :: "int option"

record workflow_value =
  wvKind :: string
  wvValue :: string
  wvName :: string

record workflow_environment =
  weName :: string
  weValue :: workflow_value

record workflow_step =
  wsResultIdentity :: string
  wsInputs :: "workflow_value_ref list"
  wsName :: string
  wsOperation :: string
  wsPackages :: "string list"
  wsTargets :: "string list"
  wsTarget :: string
  wsFilter :: string
  wsAuditLevel :: string
  wsRequireCoverage :: bool
  wsCommand :: "string list"
  wsScript :: string
  wsShell :: string
  wsCwd :: string
  wsCapabilities :: "string list"
  wsEnv :: "workflow_environment list"
  wsTimeoutSeconds :: int
  wsTransferTarget :: string

record workflow_aggregate_ref =
  warIdentity :: string
  warResultType :: string
  warElements :: "string list"

datatype workflow_predicate = WorkflowPredicate
  (wpKind: string)
  (wpInput: "workflow_value_ref option")
  (wpNumber: "float64 option")
  (wpBoolean: "bool option")
  (wpString: string)
  (wpChildren: "workflow_predicate list")

record workflow_iteration_value =
  wivKind :: string
  wivString :: string
  wivNumber :: "float64 option"
  wivBoolean :: "bool option"
  wivSource :: "workflow_value_ref option"

datatype workflow_flow_node = WorkflowFlowNode
  (wfKind: string)
  (wfIdentity: string)
  (wfChildren: "workflow_flow_node list")
  (wfEffect: "workflow_step option")
  (wfSource: "workflow_value_ref option")
  (wfArms: "workflow_match_arm list")
  (wfBody: "workflow_flow_node option")
  (wfCleanup: "workflow_flow_node option")
  (wfItems: "workflow_for_each_item list")
  (wfMode: string)
  (wfConcurrency: int)
  (wfFailurePolicy: string)
  (wfAggregate: "workflow_aggregate_ref option")
  (wfPredicate: "workflow_predicate option")
  (wfThen: "workflow_flow_node option")
  (wfElse: "workflow_flow_node option")
  (wfRunsOn: string)
  (wfEnv: "workflow_environment list")
and workflow_match_arm = WorkflowMatchArm
  (armKind: string)
  (armFlow: workflow_flow_node)
and workflow_for_each_item = WorkflowForEachItem
  (itemIndex: int)
  (itemValue: workflow_iteration_value)
  (itemFlow: workflow_flow_node)

record workflow_trigger =
  wtKind :: string
  wtBranches :: "string list"
  wtPaths :: "string list"

record workflow_job =
  wjIdentity :: string
  wjNeeds :: "string list"
  wjRunsOn :: string
  wjMatrix :: "(string \<times> json_value list) list"
  wjEnv :: "workflow_environment list"
  wjSteps :: "workflow_step list"

record workflow =
  wlIdentity :: string
  wlTriggers :: "workflow_trigger list"
  wlJobs :: "workflow_job list"
  wlFlow :: "workflow_flow_node option"

section \<open>Blank values\<close>

text \<open>
  The zero values the code starts from (\<open>WorkflowStep{}\<close> and the like), used to write
  concrete declarations.
\<close>

definition empty_step :: workflow_step where
  "empty_step = \<lparr>wsResultIdentity = '''', wsInputs = [], wsName = '''', wsOperation = '''',
     wsPackages = [], wsTargets = [], wsTarget = '''', wsFilter = '''', wsAuditLevel = '''',
     wsRequireCoverage = False, wsCommand = [], wsScript = '''', wsShell = '''', wsCwd = '''',
     wsCapabilities = [], wsEnv = [], wsTimeoutSeconds = 0, wsTransferTarget = ''''\<rparr>"

definition blank_node :: "string \<Rightarrow> workflow_flow_node" where
  "blank_node kind = WorkflowFlowNode kind '''' [] None None [] None None [] '''' 0 '''' None
     None None None '''' []"

definition effect_node :: "string \<Rightarrow> string \<Rightarrow> workflow_flow_node" where
  "effect_node operation result =
     WorkflowFlowNode ''effect'' '''' []
       (Some (empty_step\<lparr>wsOperation := operation, wsResultIdentity := result\<rparr>))
       None [] None None [] '''' 0 '''' None None None None '''' []"

definition group_node :: "string \<Rightarrow> string \<Rightarrow> workflow_flow_node list \<Rightarrow> workflow_flow_node" where
  "group_node kind identity children =
     WorkflowFlowNode kind identity children None None [] None None [] '''' 0 '''' None
       None None None '''' []"

section \<open>Sizes of nested declarations\<close>

text \<open>Every nested declaration is smaller, which is why the recursive passes terminate.\<close>

lemma size_child [simp, intro]: "c \<in> set (wfChildren n) \<Longrightarrow> size c < size n"
  by (cases n) (auto dest!: size_list_estimation' [of _ _ "size c" size])

lemma size_arm [simp, intro]: "a \<in> set (wfArms n) \<Longrightarrow> size (armFlow a) < size n"
proof (cases n)
  case (WorkflowFlowNode x1 x2 x3 x4 x5 arms x7 x8 x9 x10 x11 x12 x13 x14 x15 x16 x17 x18)
  assume "a \<in> set (wfArms n)"
  with WorkflowFlowNode have "size a \<le> size_list size arms"
    by (auto intro: size_list_estimation')
  moreover have "size (armFlow a) < size a" by (cases a) simp
  ultimately show ?thesis using WorkflowFlowNode by simp
qed

lemma size_item [simp, intro]: "i \<in> set (wfItems n) \<Longrightarrow> size (itemFlow i) < size n"
proof (cases n)
  case (WorkflowFlowNode x1 x2 x3 x4 x5 x6 x7 x8 items x10 x11 x12 x13 x14 x15 x16 x17 x18)
  assume "i \<in> set (wfItems n)"
  with WorkflowFlowNode have "size i \<le> size_list size items"
    by (auto intro: size_list_estimation')
  moreover have "size (itemFlow i) < size i" by (cases i) simp
  ultimately show ?thesis using WorkflowFlowNode by simp
qed

lemma size_body [simp, intro]: "wfBody n = Some x \<Longrightarrow> size x < size n"
  by (cases n) simp

lemma size_cleanup [simp, intro]: "wfCleanup n = Some x \<Longrightarrow> size x < size n"
  by (cases n) simp

lemma size_then [simp, intro]: "wfThen n = Some x \<Longrightarrow> size x < size n"
  by (cases n) simp

lemma size_else [simp, intro]: "wfElse n = Some x \<Longrightarrow> size x < size n"
  by (cases n) simp

lemmas nested_sizes = size_child size_arm size_item size_body size_cleanup size_then size_else

lemma size_predicate_child [simp, intro]: "c \<in> set (wpChildren p) \<Longrightarrow> size c < size p"
  by (cases p) (auto intro: le_imp_less_Suc size_list_estimation')

end
