(* ===== verification/Flow_IR.thy ===== *)
theory Flow_IR
  imports Manifest_IR
begin

text \<open>
  The compiled workflow program and the machine that runs it, as data: the types of
  \<open>internal/workflow/flow.go\<close>, the plan types of \<open>plan.go\<close> and the result types of
  \<open>executor.go\<close> with the operation results they point to.  A Go string type with constants
  is a datatype with one constructor per constant and one for its zero value where the code
  can see it; the category of a value is kept as a string because it is copied from the manifest.
\<close>

section \<open>Constants\<close>

definition FlowSchemaVersion :: int where "FlowSchemaVersion = 4"
definition DefaultStepLimit :: int where "DefaultStepLimit = 10000"
definition DefaultTraceLimit :: int where "DefaultTraceLimit = 256"
definition DefaultForEachLimit :: nat where "DefaultForEachLimit = 256"
definition DefaultForEachConcurrency :: int where "DefaultForEachConcurrency = 4"
definition MaxForEachConcurrency :: int where "MaxForEachConcurrency = 32"
definition DefaultExpansionBudget :: int where "DefaultExpansionBudget = 4096"
definition DefaultPredicateDepthLimit :: nat where "DefaultPredicateDepthLimit = 8"
definition DefaultFinallyNestingLimit :: nat where "DefaultFinallyNestingLimit = 8"

lemmas limit_defs = FlowSchemaVersion_def DefaultStepLimit_def DefaultTraceLimit_def
  DefaultForEachLimit_def DefaultForEachConcurrency_def MaxForEachConcurrency_def
  DefaultExpansionBudget_def DefaultPredicateDepthLimit_def DefaultFinallyNestingLimit_def

section \<open>Operation results\<close>

datatype severity = SeverityError | SeverityWarning | SeverityInfo

record diagnostic =
  dgCode :: string
  dgSeverity :: severity
  dgMessage :: string
  dgFile :: string
  dgDetails :: "string list"
  dgFixes :: "string list"

record build_artifact =
  baPackage :: string
  baTarget :: string
  baKind :: string
  baRole :: string
  baPath :: string
  baIdentity :: string
  baContentHash :: string
  baOriginRegion :: string

record build_target_result =
  btrPackage :: string
  btrTarget :: string
  btrCompiler :: string
  btrSucceeded :: bool
  btrArtifacts :: "build_artifact list"
  btrDiagnostics :: "diagnostic list"

record build_operation_result =
  borDiagnostics :: "diagnostic list"
  borTargets :: "build_target_result list"
  borArtifacts :: "build_artifact list"

record test_evidence =
  teID :: string
  teName :: string
  teStatus :: string
  teDurationMs :: float64
  teFailure :: json_value

record built_fixture_result =
  bfrName :: string
  bfrConsumerTarget :: string
  bfrProducerTarget :: string
  bfrArtifact :: string
  bfrArtifactIdentity :: string
  bfrArtifacts :: "string list"
  bfrArtifactIdentities :: "string list"
  bfrBinding :: string
  bfrRealizedPath :: string
  bfrContentHashes :: "string list"
  bfrReused :: bool

record test_operation_result =
  torDiagnostics :: "diagnostic list"
  torExitCode :: int
  torPassed :: int
  torFailed :: int
  torSkipped :: int
  torDurationMs :: float64
  torTests :: "test_evidence list"
  torPrerequisites :: "build_target_result list"
  torBuiltFixtures :: "built_fixture_result list"

record audit_finding =
  afID :: string
  afAliases :: "string list"
  afSummary :: string
  afSeverity :: string
  afPackage :: string
  afVersion :: string
  afFixed :: "string list"
  afReferences :: "(string \<times> string) list"
  afPaths :: "string list list"

record audit_coverage =
  acSource :: string
  acPackages :: int
  acStatus :: string
  acReason :: string

record audit_report =
  arPackages :: int
  arLockedPackages :: int
  arCoverageComplete :: bool
  arFindings :: "audit_finding list"
  arCoverage :: "audit_coverage list"

record audit_operation_result =
  aorDiagnostics :: "diagnostic list"
  aorSource :: string
  aorAuditLevel :: string
  aorFailing :: int
  aorReport :: audit_report

record native_result =
  nrBuild :: "build_operation_result option"
  nrTest :: "test_operation_result option"
  nrAudit :: "audit_operation_result option"

section \<open>Plans\<close>

record trigger =
  trigKind :: string
  trigBranches :: "string list"
  trigPaths :: "string list"

record environment =
  envName :: string
  envKind :: string
  envValue :: string
  envSecret :: string

record value_ref =
  vrIdentity :: string
  vrSource :: string
  vrResultType :: string
  vrFieldPath :: "string list"
  vrCategory :: string
  vrAggregate :: string
  vrIndex :: "int option"

record resolved_value =
  rvReference :: value_ref
  rvResult :: native_result

record plan_step =
  psIdentity :: string
  psResultIdentity :: string
  psInputs :: "value_ref list"
  psResolvedInputs :: "resolved_value list"
  psName :: string
  psOperation :: string
  psPackages :: "string list"
  psTargets :: "string list"
  psTarget :: string
  psFilter :: string
  psAuditLevel :: string
  psRequireCoverage :: bool
  psCommand :: "string list"
  psScript :: string
  psShell :: string
  psCwd :: string
  psCapabilities :: "string list"
  psEnvironment :: "environment list"
  psTimeoutSeconds :: int
  psTransferTarget :: string
  psTransferSourceRegion :: string

record plan_job =
  pjIdentity :: string
  pjJobIdentity :: string
  pjNeeds :: "string list"
  pjPlatform :: string
  pjMatrix :: "(string \<times> json_value) list"
  pjEnvironment :: "environment list"
  pjSteps :: "plan_step list"
  pjDeclarationOrd :: nat

record plan =
  plWorkflow :: string
  plTriggers :: "trigger list"
  plJobs :: "plan_job list"

section \<open>Flows\<close>

datatype node_kind =
    NodeEntry | NodeEffect | NodeFork | NodeJoin | NodeBranchExit
  | NodeMatch | NodeIterator | NodePredicate | NodeTerminal

datatype machine_event_kind =
    MachineStart | MachineContinue | MachineEffectStarted | MachineEffectSucceeded
  | MachineEffectFailed | MachineCancelRequested | MachineTimeout

datatype terminal_kind =
    TerminalNone | TerminalSucceeded | TerminalFailed | TerminalCancelled | TerminalTimedOut

fun event_string :: "machine_event_kind \<Rightarrow> string" where
  "event_string MachineStart = ''start''"
| "event_string MachineContinue = ''continue''"
| "event_string MachineEffectStarted = ''effectStarted''"
| "event_string MachineEffectSucceeded = ''effectSucceeded''"
| "event_string MachineEffectFailed = ''effectFailed''"
| "event_string MachineCancelRequested = ''cancelRequested''"
| "event_string MachineTimeout = ''timeout''"

fun terminal_string :: "terminal_kind \<Rightarrow> string" where
  "terminal_string TerminalNone = ''''"
| "terminal_string TerminalSucceeded = ''succeeded''"
| "terminal_string TerminalFailed = ''failed''"
| "terminal_string TerminalCancelled = ''cancelled''"
| "terminal_string TerminalTimedOut = ''timedOut''"

lemma event_string_inj [simp]: "event_string a = event_string b \<longleftrightarrow> a = b"
  by (cases a; cases b) simp_all

lemma terminal_string_inj [simp]: "terminal_string a = terminal_string b \<longleftrightarrow> a = b"
  by (cases a; cases b) simp_all

record value_definition = value_ref +
  vdProducer :: string
  vdRegion :: string
  vdTransported :: bool

definition ValueControl :: string where "ValueControl = ''control''"
definition ValueSmallSerialized :: string where "ValueSmallSerialized = ''smallSerialized''"
definition ValueArtifactReference :: string where "ValueArtifactReference = ''artifactReference''"
definition ValueRegionLocal :: string where "ValueRegionLocal = ''regionLocal''"
definition ValuePlacement :: string where "ValuePlacement = ''placement''"

record expansion_metadata =
  emPlannedIterations :: int
  emLimit :: int
  emMaxConcurrency :: int

record aggregate_definition =
  adIdentity :: string
  adResultType :: string
  adElements :: "string list"
  adMode :: string
  adConcurrency :: int
  adFailurePolicy :: string
  adComplete :: bool

record aggregate_element =
  aeIndex :: nat
  aeValue :: string
  aeOutcome :: terminal_kind

record aggregate_value =
  avIdentity :: string
  avElements :: "aggregate_element list"

datatype predicate = Predicate
  (pKind: string)
  (pInput: "value_ref option")
  (pNumber: "float64 option")
  (pBoolean: "bool option")
  (pString: string)
  (pChildren: "predicate list")

lemma size_predicate [simp, intro]: "c \<in> set (pChildren p) \<Longrightarrow> size c < size p"
  by (cases p) (auto intro: le_imp_less_Suc size_list_estimation')

record iteration_value =
  ivKind :: string
  ivString :: string
  ivNumber :: "float64 option"
  ivBoolean :: "bool option"
  ivSource :: "value_ref option"

record iterator_cursor =
  icSourceIdentity :: string
  icIndex :: int
  icCount :: nat
  icBinding :: string
  icValue :: iteration_value
  icMode :: string
  icFailurePolicy :: string
  icConcurrency :: int
  icAggregate :: string
  icSourceAggregate :: string
  icElementIdentity :: string
  icPath :: string

record flow_terminals =
  ftSucceeded :: string
  ftFailed :: string
  ftCancelled :: string
  ftTimedOut :: string

record execution_region =
  erIdentity :: string
  erPlatform :: string
  erEnvironment :: "environment list"

record aggregate_element_projection =
  apAggregate :: string
  apIndex :: int
  apValue :: string

record flow_node =
  nodeIdentity :: string
  nodeKind :: node_kind
  nodeRegion :: string
  nodeBranch :: string
  nodeEffect :: "plan_step option"
  nodeValue :: string
  nodeSource :: string
  nodeProjection :: "aggregate_element_projection option"
  nodeIterator :: "iterator_cursor option"
  nodePredicate :: "predicate option"
  nodeCleanup :: bool
  nodeCleanupCause :: terminal_kind
  nodeTargets :: "string list"
  nodeWaitFor :: "string list"
  nodeTerminal :: terminal_kind
  nodeLegacyJob :: string
  nodeLegacyRank :: nat
  nodeEffectRank :: nat

record transition =
  tIdentity :: string
  tFrom :: string
  tEvent :: machine_event_kind
  tGuard :: string
  tTo :: string

record flow =
  flowSchemaVersion :: int
  flowIdentity :: string
  flowTriggers :: "trigger list"
  flowEntry :: string
  flowTerminals :: flow_terminals
  flowRegions :: "execution_region list"
  flowValues :: "value_definition list"
  flowAggregates :: "aggregate_definition list"
  flowExpansion :: expansion_metadata
  flowNodes :: "flow_node list"
  flowTransitions :: "transition list"

text \<open>\<open>FlowNode{Identity: identity, Kind: kind}\<close>.\<close>

definition new_node :: "string \<Rightarrow> node_kind \<Rightarrow> flow_node" where
  "new_node identity kind = \<lparr>nodeIdentity = identity, nodeKind = kind, nodeRegion = '''',
     nodeBranch = '''', nodeEffect = None, nodeValue = '''', nodeSource = '''',
     nodeProjection = None, nodeIterator = None, nodePredicate = None, nodeCleanup = False,
     nodeCleanupCause = TerminalNone, nodeTargets = [], nodeWaitFor = [],
     nodeTerminal = TerminalNone, nodeLegacyJob = '''', nodeLegacyRank = 0,
     nodeEffectRank = 0\<rparr>"

lemma new_node_simps [simp]:
  "nodeIdentity (new_node i k) = i" "nodeKind (new_node i k) = k"
  "nodeTargets (new_node i k) = []" "nodeWaitFor (new_node i k) = []"
  "nodeEffect (new_node i k) = None" "nodePredicate (new_node i k) = None"
  "nodeRegion (new_node i k) = ''''" "nodeCleanup (new_node i k) = False"
  by (simp_all add: new_node_def)

abbreviation node_ids :: "flow \<Rightarrow> string list" where
  "node_ids f \<equiv> map nodeIdentity (flowNodes f)"

section \<open>Machine state\<close>

datatype run_state =
    StateZero | StatePending | StateWaiting | StateRunning | StateSucceeded | StateFailed
  | StateTimedOut | StateSkipped | StateBlocked | StateCancelled

record machine_event =
  evKind :: machine_event_kind
  evNode :: string
  evResult :: "native_result option"
  evError :: string

record node_snapshot =
  nsState :: run_state
  nsResult :: "native_result option"
  nsError :: string

record cleanup_failure =
  cfCause :: terminal_kind
  cfNode :: string
  cfError :: string

record step_trace =
  trStep :: int
  trStateBefore :: "string list"
  trEvent :: machine_event
  trEligible :: "string list"
  trSelected :: string
  trEffect :: string
  trResultKind :: terminal_kind
  trValueIdentity :: string
  trStateAfter :: "string list"

record snapshot =
  snStatus :: run_state
  snNodes :: "string \<rightharpoonup> node_snapshot"
  snActive :: "string list"
  snValues :: "string \<rightharpoonup> native_result"
  snOutcomes :: "string \<rightharpoonup> terminal_kind"
  snIterators :: "string \<rightharpoonup> iterator_cursor"
  snAggregates :: "string \<rightharpoonup> aggregate_value"
  snCleanupFailures :: "cleanup_failure list"
  snStepCount :: int
  snStepLimit :: int
  snTrace :: "step_trace list"
  snTraceLimit :: int
  snDroppedTrace :: int

definition zero_node :: node_snapshot where
  "zero_node = \<lparr>nsState = StateZero, nsResult = None, nsError = ''''\<rparr>"

text \<open>\<open>snapshot.Nodes[identity]\<close>, the zero node where there is none, and its state.\<close>

definition node_of :: "snapshot \<Rightarrow> string \<Rightarrow> node_snapshot" where
  "node_of s i = zget zero_node (snNodes s) i"

definition state_of :: "snapshot \<Rightarrow> string \<Rightarrow> run_state" where
  "state_of s i = nsState (node_of s i)"

lemma nsState_zero_node [simp]: "nsState zero_node = StateZero"
  by (simp add: zero_node_def)

end
