(* ===== verification/Workflow_Plan.thy ===== *)
theory Workflow_Plan
  imports Flow_IR "HOL-Library.Multiset"
begin

text \<open>
  \<open>plan.go\<close>: the job-based form of a workflow.  A declaration with jobs becomes a plan, one
  planned job for each combination of its matrix, with deterministic identities; needs are
  resolved to the identities of all instances of the jobs they name.
\<close>

section \<open>json.Marshal on matrix values\<close>

text \<open>
  Matrix values are decoded JSON, and their identity is their compact JSON text.  Strings are
  escaped as \<open>encoding/json\<close> does it (HTML characters and the two line separators included, a
  byte that is no UTF-8 as \<open>\ufffd\<close>), object keys are sorted.  The text of a finite
  \<open>float64\<close> is the shortest decimal that reads back to it; it is the parameter \<open>num\<close>.
\<close>

definition hex_digit :: "nat \<Rightarrow> char" where
  "hex_digit d = ''0123456789abcdef'' ! (d mod 16)"

definition json_escape_rune :: "string \<Rightarrow> string" where
  "json_escape_rune r =
     (if r = [CHR 0x22] then [CHR 0x5C, CHR 0x22]
      else if r = [CHR 0x5C] then [CHR 0x5C, CHR 0x5C]
      else if r = [CHR 0x08] then [CHR 0x5C] @ ''b''
      else if r = [CHR 0x0C] then [CHR 0x5C] @ ''f''
      else if r = [CHR 0x0A] then [CHR 0x5C] @ ''n''
      else if r = [CHR 0x0D] then [CHR 0x5C] @ ''r''
      else if r = [CHR 0x09] then [CHR 0x5C] @ ''t''
      else if r = [CHR 0xE2, CHR 0x80, CHR 0xA8] then [CHR 0x5C] @ ''u2028''
      else if r = [CHR 0xE2, CHR 0x80, CHR 0xA9] then [CHR 0x5C] @ ''u2029''
      else (case r of
              [c] \<Rightarrow>
                (let k = of_char c :: nat in
                 if k \<ge> 128 then [CHR 0x5C] @ ''ufffd''
                 else if k < 32 \<or> c \<in> {CHR ''<'', CHR ''>'', CHR ''&''}
                   then [CHR 0x5C] @ ''u00'' @ [hex_digit (k div 16), hex_digit k]
                 else r)
            | _ \<Rightarrow> r))"

definition json_string :: "string \<Rightarrow> string" where
  "json_string s = [CHR 0x22] @ concat (map json_escape_rune (runes s)) @ [CHR 0x22]"

fun json_marshal :: "(float64 \<Rightarrow> string) \<Rightarrow> json_value \<Rightarrow> string" where
  "json_marshal num JNull = ''null''"
| "json_marshal num (JBool b) = (if b then ''true'' else ''false'')"
| "json_marshal num (JNumber x) = num x"
| "json_marshal num (JString s) = json_string s"
| "json_marshal num (JArray vs) = ''['' @ join_strings (map (json_marshal num) vs) '','' @ '']''"
| "json_marshal num (JObject kvs) =
     ''{'' @ join_strings
       (map (\<lambda>(k, v). json_string k @ '':'' @ v)
         (sort_key fst (map (\<lambda>(k, v). (k, json_marshal num v)) kvs))) '','' @ ''}''"

section \<open>Helpers of the planner\<close>

definition sortedCopy :: "string list \<Rightarrow> string list" where
  "sortedCopy values = sort_strings values"

definition nativeCapabilities :: "string \<Rightarrow> string list" where
  "nativeCapabilities operation =
     (if operation = ''sync'' then [''network'', ''workspaceWrite'']
      else if operation = ''check'' then [''workspaceRead'']
      else if operation = ''test'' then [''process'', ''workspaceRead'']
      else if operation = ''build'' then [''process'', ''workspaceRead'', ''workspaceWrite'']
      else if operation = ''pack'' then [''workspaceRead'', ''workspaceWrite'']
      else if operation = ''transfer'' then [''workspaceRead'', ''workspaceWrite'']
      else if operation = ''audit'' then [''network'', ''workspaceRead'']
      else [])"

text \<open>\<open>strings.ToUpper\<close> on one byte: a byte above ASCII alone is no rune and becomes U+FFFD.\<close>

definition upper_byte :: "char \<Rightarrow> string" where
  "upper_byte c =
     (let k = of_char c :: nat in
      if k \<ge> 128 then [CHR 0xEF, CHR 0xBF, CHR 0xBD]
      else if 97 \<le> k \<and> k \<le> 122 then [char_of (k - 32)]
      else [c])"

fun operationDisplayName :: "string \<Rightarrow> string" where
  "operationDisplayName [] = ''Step''"
| "operationDisplayName (c # cs) =
     (if c # cs = ''shellScript'' then ''Shell script'' else upper_byte c @ cs)"

text \<open>
  \<open>sort.Slice\<close> by name; with equal names (which the manifest validation rejects) the sort is
  taken to be stable, as Go's is up to twelve elements.
\<close>

definition normalize_variable :: "workflow_environment \<Rightarrow> environment" where
  "normalize_variable v = \<lparr>envName = weName v, envKind = wvKind (weValue v),
     envValue = wvValue (weValue v), envSecret = wvName (weValue v)\<rparr>"

definition normalizeEnvironment :: "workflow_environment list \<Rightarrow> environment list" where
  "normalizeEnvironment values = sort_key envName (map normalize_variable values)"

section \<open>The matrix\<close>

text \<open>
  A combination is a Go map; it is kept as the association list in the order of its sorted
  axes, which is the order \<open>matrixIdentity\<close> reads it in.  Each axis in turn multiplies the
  combinations by its values.
\<close>

definition extend_axis ::
  "(string \<times> json_value) list list \<Rightarrow> string \<times> json_value list \<Rightarrow> (string \<times> json_value) list list" where
  "extend_axis combinations axis =
     concat (map (\<lambda>c. map (\<lambda>v. c @ [(fst axis, v)]) (snd axis)) combinations)"

definition expandMatrix :: "(string \<times> json_value list) list \<Rightarrow> (string \<times> json_value) list list" where
  "expandMatrix matrix = foldl extend_axis [[]] (sort_key fst matrix)"

definition matrix_part :: "(float64 \<Rightarrow> string) \<Rightarrow> string \<times> json_value \<Rightarrow> string" where
  "matrix_part num kv =
     (let encoded = json_marshal num (snd kv)
      in fst kv @ ''='' @ nat_string (length encoded) @ '':'' @ encoded)"

definition matrixIdentity :: "(float64 \<Rightarrow> string) \<Rightarrow> string \<Rightarrow> (string \<times> json_value) list \<Rightarrow> string" where
  "matrixIdentity num job values =
     (if values = [] then job
      else job @ ''['' @ join_strings (map (matrix_part num) (sort_key fst values)) '','' @ '']'')"

section \<open>Plans\<close>

definition Find :: "workflow list \<Rightarrow> string \<Rightarrow> workflow option" where
  "Find workflows identity = find (\<lambda>w. wlIdentity w = identity) workflows"

definition plan_trigger :: "workflow_trigger \<Rightarrow> trigger" where
  "plan_trigger t = \<lparr>trigKind = wtKind t, trigBranches = sortedCopy (wtBranches t),
     trigPaths = sortedCopy (wtPaths t)\<rparr>"

definition step_name :: "workflow_step \<Rightarrow> string" where
  "step_name s = (if wsName s = '''' then operationDisplayName (wsOperation s) else wsName s)"

definition step_capabilities :: "workflow_step \<Rightarrow> string list" where
  "step_capabilities s =
     (if wsCapabilities s = [] then nativeCapabilities (wsOperation s)
      else sortedCopy (wsCapabilities s))"

definition plan_step_of :: "string \<Rightarrow> nat \<Rightarrow> workflow_step \<Rightarrow> plan_step" where
  "plan_step_of identity stepIndex s = \<lparr>
     psIdentity = identity @ ''/step-'' @ pad_nat 2 (stepIndex + 1) @ ''-'' @ wsOperation s,
     psResultIdentity = '''', psInputs = [], psResolvedInputs = [],
     psName = step_name s, psOperation = wsOperation s,
     psPackages = sortedCopy (wsPackages s), psTargets = sortedCopy (wsTargets s),
     psTarget = wsTarget s, psFilter = wsFilter s, psAuditLevel = wsAuditLevel s,
     psRequireCoverage = wsRequireCoverage s, psCommand = wsCommand s, psScript = wsScript s,
     psShell = wsShell s, psCwd = wsCwd s, psCapabilities = step_capabilities s,
     psEnvironment = normalizeEnvironment (wsEnv s), psTimeoutSeconds = wsTimeoutSeconds s,
     psTransferTarget = '''', psTransferSourceRegion = ''''\<rparr>"

definition plan_job_of ::
  "(float64 \<Rightarrow> string) \<Rightarrow> nat \<Rightarrow> workflow_job \<Rightarrow> (string \<times> json_value) list \<Rightarrow> plan_job" where
  "plan_job_of num jobIndex job combination =
     (let identity = matrixIdentity num (wjIdentity job) combination in
      \<lparr>pjIdentity = identity, pjJobIdentity = wjIdentity job, pjNeeds = [],
       pjPlatform = wjRunsOn job, pjMatrix = combination,
       pjEnvironment = normalizeEnvironment (wjEnv job),
       pjSteps = map (\<lambda>(k, s). plan_step_of identity k s) (enumerate 0 (wjSteps job)),
       pjDeclarationOrd = jobIndex\<rparr>)"

definition planned_jobs :: "(float64 \<Rightarrow> string) \<Rightarrow> workflow \<Rightarrow> plan_job list" where
  "planned_jobs num d =
     concat (map (\<lambda>(k, job). map (plan_job_of num k job) (expandMatrix (wjMatrix job)))
       (enumerate 0 (wlJobs d)))"

text \<open>\<open>instancesByJob\<close>: the identities of the instances of a job, over all jobs of that name.\<close>

definition instances_by_job :: "plan_job list \<Rightarrow> string \<Rightarrow> string list" where
  "instances_by_job jobs job = map pjIdentity (filter (\<lambda>j. pjJobIdentity j = job) jobs)"

definition BuildPlan :: "(float64 \<Rightarrow> string) \<Rightarrow> workflow \<Rightarrow> plan" where
  "BuildPlan num d =
     (let jobs = planned_jobs num d in
      \<lparr>plWorkflow = wlIdentity d, plTriggers = map plan_trigger (wlTriggers d),
       plJobs = map (\<lambda>j. j\<lparr>pjNeeds := sort_strings
            (concat (map (instances_by_job jobs) (wjNeeds (wlJobs d ! pjDeclarationOrd j))))\<rparr>) jobs\<rparr>)"

section \<open>What the matrix expands to\<close>

text \<open>A combination takes one value of each axis, axes in order.\<close>

definition takes_one :: "(string \<times> json_value) list \<Rightarrow> (string \<times> json_value list) list \<Rightarrow> bool" where
  "takes_one c axes \<longleftrightarrow> list_all2 (\<lambda>kv axis. fst kv = fst axis \<and> snd kv \<in> set (snd axis)) c axes"

lemma takes_one_Nil [simp]: "takes_one c [] \<longleftrightarrow> c = []"
  by (simp add: takes_one_def)

lemma takes_one_Cons: "takes_one c (axis # axes) \<longleftrightarrow>
    (\<exists>v d. c = (fst axis, v) # d \<and> v \<in> set (snd axis) \<and> takes_one d axes)"
  by (auto simp: takes_one_def list_all2_Cons2)

lemma takes_one_keys: "takes_one c axes \<Longrightarrow> map fst c = map fst axes"
  by (induction axes arbitrary: c) (auto simp: takes_one_Cons)

lemma foldl_extend_set:
  "set (foldl extend_axis cs axes) = {c @ d |c d. c \<in> set cs \<and> takes_one d axes}"
proof (induction axes arbitrary: cs)
  case (Cons axis axes)
  have "set (foldl extend_axis (extend_axis cs axis) axes) =
      {c @ d |c d. c \<in> set (extend_axis cs axis) \<and> takes_one d axes}"
    by (rule Cons.IH)
  also have "\<dots> = {c @ d |c d. c \<in> set cs \<and> takes_one d (axis # axes)}" (is "?l = ?r")
  proof (intro set_eqI iffI)
    fix x assume "x \<in> ?l"
    then obtain c v d where "x = (c @ [(fst axis, v)]) @ d" "c \<in> set cs" "v \<in> set (snd axis)"
      "takes_one d axes"
      by (auto simp: extend_axis_def)
    then have "x = c @ ((fst axis, v) # d)" "takes_one ((fst axis, v) # d) (axis # axes)"
      by (simp_all add: takes_one_Cons)
    with \<open>c \<in> set cs\<close> show "x \<in> ?r" by blast
  next
    fix x assume "x \<in> ?r"
    then obtain c v d where "x = c @ ((fst axis, v) # d)" and c: "c \<in> set cs" "v \<in> set (snd axis)"
      and "takes_one d axes"
      by (auto simp: takes_one_Cons)
    moreover from c have "c @ [(fst axis, v)] \<in> set (extend_axis cs axis)"
      by (auto simp: extend_axis_def)
    ultimately show "x \<in> ?l" by (intro CollectI exI [of _ "c @ [(fst axis, v)]"] exI [of _ d]) simp
  qed
  finally show ?case by simp
qed simp

lemma expandMatrix_set: "set (expandMatrix m) = {c. takes_one c (sort_key fst m)}"
  by (simp add: expandMatrix_def foldl_extend_set)

lemma length_extend: "length (extend_axis cs axis) = length cs * length (snd axis)"
  by (induction cs) (simp_all add: extend_axis_def)

lemma length_foldl_extend:
  "length (foldl extend_axis cs axes) = length cs * prod_list (map (length \<circ> snd) axes)"
  by (induction axes arbitrary: cs) (simp_all add: length_extend ac_simps)

lemma prod_list_mset: "prod_list xs = prod_mset (mset (xs :: nat list))"
  by (induction xs) simp_all

lemma length_expandMatrix: "length (expandMatrix m) = prod_list (map (length \<circ> snd) m)"
proof -
  have "prod_list (map (length \<circ> snd) (sort_key fst m)) = prod_list (map (length \<circ> snd) m)"
    by (simp add: prod_list_mset)
  then show ?thesis by (simp add: expandMatrix_def length_foldl_extend)
qed

lemma distinct_extend:
  "distinct cs \<Longrightarrow> (\<And>c d. c \<in> set cs \<Longrightarrow> d \<in> set cs \<Longrightarrow> length c = length d) \<Longrightarrow>
    distinct (snd axis) \<Longrightarrow> distinct (extend_axis cs axis)"
proof (induction cs)
  case (Cons c cs)
  have "extend_axis (c # cs) axis = map (\<lambda>v. c @ [(fst axis, v)]) (snd axis) @ extend_axis cs axis"
    by (simp add: extend_axis_def)
  moreover have "distinct (map (\<lambda>v. c @ [(fst axis, v)]) (snd axis))"
    using Cons.prems(3) by (simp add: distinct_map inj_on_def)
  moreover have "distinct (extend_axis cs axis)"
    using Cons by simp
  moreover have "set (map (\<lambda>v. c @ [(fst axis, v)]) (snd axis)) \<inter> set (extend_axis cs axis) = {}"
    using Cons.prems(1) by (auto simp: extend_axis_def)
  ultimately show ?case by simp
qed (simp add: extend_axis_def)

lemma distinct_foldl_extend:
  "distinct cs \<Longrightarrow> (\<And>c. c \<in> set cs \<Longrightarrow> length c = n) \<Longrightarrow>
    (\<And>axis. axis \<in> set axes \<Longrightarrow> distinct (snd axis)) \<Longrightarrow> distinct (foldl extend_axis cs axes)"
proof (induction axes arbitrary: cs n)
  case (Cons axis axes)
  have "distinct (extend_axis cs axis)"
    using Cons.prems by (intro distinct_extend) auto
  moreover have "length c = Suc n" if "c \<in> set (extend_axis cs axis)" for c
    using that Cons.prems(2) by (auto simp: extend_axis_def)
  ultimately show ?case using Cons.IH [of "extend_axis cs axis" "Suc n"] Cons.prems(3) by simp
qed simp

lemma distinct_expandMatrix:
  "(\<And>axis. axis \<in> set m \<Longrightarrow> distinct (snd axis)) \<Longrightarrow> distinct (expandMatrix m)"
  unfolding expandMatrix_def by (rule distinct_foldl_extend [where n = 0]) auto

section \<open>Matrix identities\<close>

lemma length_prefix_cancel:
  assumes "nat_string (length a) @ '':'' @ a @ s = nat_string (length b) @ '':'' @ b @ t"
  shows "a = b \<and> s = t"
proof -
  have tw: "takeWhile is_digit (nat_string k @ '':'' @ r) = nat_string k" for k r
  proof -
    have "takeWhile is_digit (nat_string k @ '':'' @ r) = nat_string k @ takeWhile is_digit ('':'' @ r)"
      by (rule takeWhile_append2) (rule nat_string_digits)
    then show ?thesis by (simp add: is_digit_def)
  qed
  from assms have "nat_string (length a) = nat_string (length b)"
    using tw by metis
  then have "length a = length b" using read_nat_string by metis
  with assms show ?thesis by simp
qed

lemma matrix_parts_inj:
  assumes "takes_one c axes" and "takes_one d axes"
    and "join_strings (map (matrix_part num) c) '','' @ '']'' = join_strings (map (matrix_part num) d) '','' @ '']''"
  shows "map (json_marshal num \<circ> snd) c = map (json_marshal num \<circ> snd) d"
  using assms
proof (induction axes arbitrary: c d)
  case (Cons axis axes)
  from Cons.prems obtain v c' w d' where c: "c = (fst axis, v) # c'" "takes_one c' axes"
    and d: "d = (fst axis, w) # d'" "takes_one d' axes"
    by (auto simp: takes_one_Cons)
  have len: "length c' = length d'" using c(2) d(2) by (metis takes_one_keys length_map)
  let ?rest = "\<lambda>c'. (if c' = [] then '']'' else '','' @ join_strings (map (matrix_part num) c') '','' @ '']'')"
  have split: "join_strings (map (matrix_part num) ((k, u) # r)) '','' @ '']'' =
      k @ ''='' @ nat_string (length (json_marshal num u)) @ '':'' @ json_marshal num u @ ?rest r" for k u r
    by (cases r) (simp_all add: matrix_part_def Let_def)
  have "nat_string (length (json_marshal num v)) @ '':'' @ json_marshal num v @ ?rest c' =
      nat_string (length (json_marshal num w)) @ '':'' @ json_marshal num w @ ?rest d'"
    using Cons.prems(3) unfolding c(1) d(1) split by simp
  then have vw: "json_marshal num v = json_marshal num w" and "?rest c' = ?rest d'"
    using length_prefix_cancel by blast+
  then have "join_strings (map (matrix_part num) c') '','' @ '']'' = join_strings (map (matrix_part num) d') '','' @ '']''"
    using len by (auto split: if_splits)
  with Cons.IH [OF c(2) d(2)] vw show ?case by (simp add: c(1) d(1))
qed simp

lemma takes_one_encoded_inj:
  "takes_one c axes \<Longrightarrow> takes_one d axes \<Longrightarrow>
    (\<And>axis. axis \<in> set axes \<Longrightarrow> inj_on (json_marshal num) (set (snd axis))) \<Longrightarrow>
    map (json_marshal num \<circ> snd) c = map (json_marshal num \<circ> snd) d \<Longrightarrow> c = d"
proof (induction axes arbitrary: c d)
  case (Cons axis axes)
  from Cons.prems(1,2) obtain v c' w d' where
      c: "c = (fst axis, v) # c'" "takes_one c' axes" "v \<in> set (snd axis)"
    and d: "d = (fst axis, w) # d'" "takes_one d' axes" "w \<in> set (snd axis)"
    by (auto simp: takes_one_Cons)
  have "v = w"
    using Cons.prems(3) [of axis] Cons.prems(4) c d by (auto dest: inj_onD)
  moreover have "c' = d'"
    using Cons.prems(3,4) c d by (intro Cons.IH) auto
  ultimately show ?case by (simp add: c d)
qed simp

text \<open>The combinations of a matrix come out with their axes sorted, so the identity keeps them.\<close>

lemma expandMatrix_sorted: "c \<in> set (expandMatrix m) \<Longrightarrow> sort_key fst c = c"
  by (auto simp: expandMatrix_set intro!: sort_key_id_if_sorted dest!: takes_one_keys)

lemma expandMatrix_empty: "c \<in> set (expandMatrix m) \<Longrightarrow> c = [] \<longleftrightarrow> m = []"
  by (auto simp: expandMatrix_set dest!: takes_one_keys arg_cong [of _ _ length])

lemma matrixIdentity_inj:
  assumes enc: "\<And>axis. axis \<in> set m \<Longrightarrow> inj_on (json_marshal num) (set (snd axis))"
  shows "inj_on (matrixIdentity num job) (set (expandMatrix m))"
proof (rule inj_onI)
  fix c d
  assume cd: "c \<in> set (expandMatrix m)" "d \<in> set (expandMatrix m)"
    and eq: "matrixIdentity num job c = matrixIdentity num job d"
  show "c = d"
  proof (cases "m = []")
    case True
    with cd show ?thesis using expandMatrix_empty [of _ m] by metis
  next
    case False
    with cd have "c \<noteq> []" "d \<noteq> []" by (simp_all add: expandMatrix_empty)
    with eq cd have "join_strings (map (matrix_part num) c) '','' @ '']''
        = join_strings (map (matrix_part num) d) '','' @ '']''"
      by (simp add: matrixIdentity_def expandMatrix_sorted)
    moreover from cd have "takes_one c (sort_key fst m)" "takes_one d (sort_key fst m)"
      by (simp_all add: expandMatrix_set)
    ultimately show ?thesis
      using matrix_parts_inj takes_one_encoded_inj enc by (metis set_sort)
  qed
qed

lemma matrix_identities_distinct:
  assumes "\<And>axis. axis \<in> set m \<Longrightarrow> distinct (map (json_marshal num) (snd axis))"
  shows "distinct (map (matrixIdentity num job) (expandMatrix m))"
  using assms matrixIdentity_inj [of m num job] distinct_expandMatrix [of m]
  by (simp add: distinct_map)

section \<open>Needs\<close>

lemma planned_jobs_ord:
  "j \<in> set (planned_jobs num d) \<Longrightarrow>
    pjDeclarationOrd j < length (wlJobs d) \<and>
    (\<exists>c \<in> set (expandMatrix (wjMatrix (wlJobs d ! pjDeclarationOrd j))).
       j = plan_job_of num (pjDeclarationOrd j) (wlJobs d ! pjDeclarationOrd j) c)"
  by (auto simp: planned_jobs_def in_set_enumerate_eq plan_job_of_def Let_def)

lemma pjIdentity_needs [simp]: "pjIdentity (j\<lparr>pjNeeds := ns\<rparr>) = pjIdentity j"
  "pjJobIdentity (j\<lparr>pjNeeds := ns\<rparr>) = pjJobIdentity j"
  "pjDeclarationOrd (j\<lparr>pjNeeds := ns\<rparr>) = pjDeclarationOrd j"
  by simp_all

lemma plan_needs:
  assumes "j \<in> set (plJobs (BuildPlan num d))"
  shows "sorted (pjNeeds j)"
    and "set (pjNeeds j) = {pjIdentity k |k. k \<in> set (plJobs (BuildPlan num d)) \<and>
           pjJobIdentity k \<in> set (wjNeeds (wlJobs d ! pjDeclarationOrd j))}"
proof -
  from assms obtain i where i: "i \<in> set (planned_jobs num d)"
    and j: "j = i\<lparr>pjNeeds := sort_strings (concat (map (instances_by_job (planned_jobs num d))
          (wjNeeds (wlJobs d ! pjDeclarationOrd i))))\<rparr>"
    by (auto simp: BuildPlan_def Let_def)
  then show "sorted (pjNeeds j)" by simp
  have "set (pjNeeds j) = {pjIdentity k |k. k \<in> set (planned_jobs num d) \<and>
      pjJobIdentity k \<in> set (wjNeeds (wlJobs d ! pjDeclarationOrd i))}"
    by (auto simp: j instances_by_job_def)
  also have "\<dots> = {pjIdentity k |k. k \<in> set (plJobs (BuildPlan num d)) \<and>
      pjJobIdentity k \<in> set (wjNeeds (wlJobs d ! pjDeclarationOrd i))}"
    by (simp add: BuildPlan_def Let_def image_iff Bex_def) (intro Collect_cong, metis pjIdentity_needs(1,2))
  finally show "set (pjNeeds j) = {pjIdentity k |k. k \<in> set (plJobs (BuildPlan num d)) \<and>
           pjJobIdentity k \<in> set (wjNeeds (wlJobs d ! pjDeclarationOrd j))}"
    by (simp add: j)
qed

end
