(* ===== verification/Graph_Search.thy ===== *)
theory Graph_Search
  imports Go_Prelude
begin

text \<open>
  The three searches the compiler runs on adjacency lists: depth-first marking of what an entry
  reaches, the depth-first test for a cycle with a three-valued visit state, and the
  breadth-first test whether one node reaches another.  Go recurses over maps; here the
  recursion depth (for the queue: the number of nodes it can still mark) is bounded by fuel,
  running out of it is None, and the locale \<open>finite_graph\<close> shows that fuel above the number of
  nodes always gives an answer, and that the answer is the right one.
\<close>

section \<open>The searches\<close>

fun mark_reachable :: "('a \<Rightarrow> 'a list) \<Rightarrow> nat \<Rightarrow> 'a list \<Rightarrow> 'a set \<Rightarrow> 'a set option" where
  "mark_reachable adj fuel [] seen = Some seen"
| "mark_reachable adj 0 (i # is) seen = None"
| "mark_reachable adj (Suc fuel) (i # is) seen =
     (if i \<in> seen then mark_reachable adj (Suc fuel) is seen
      else (case mark_reachable adj fuel (adj i) (insert i seen) of
              None \<Rightarrow> None
            | Some seen' \<Rightarrow> mark_reachable adj (Suc fuel) is seen'))"

text \<open>
  The visit states: 1 for the nodes of \<open>path\<close>, those the recursion is inside of, and 2 for the
  nodes in \<open>closed\<close>.  The result is None when the fuel ran out, \<open>Some None\<close> for a cycle and
  \<open>Some (Some closed)\<close> for none.
\<close>

fun visit_cycle :: "('a \<Rightarrow> 'a list) \<Rightarrow> nat \<Rightarrow> 'a list \<Rightarrow> 'a set \<Rightarrow> 'a set \<Rightarrow> 'a set option option" where
  "visit_cycle adj fuel [] path closed = Some (Some closed)"
| "visit_cycle adj 0 (i # is) path closed = None"
| "visit_cycle adj (Suc fuel) (i # is) path closed =
     (if i \<in> path then Some None
      else if i \<in> closed then visit_cycle adj (Suc fuel) is path closed
      else (case visit_cycle adj fuel (adj i) (insert i path) closed of
              None \<Rightarrow> None
            | Some None \<Rightarrow> Some None
            | Some (Some closed') \<Rightarrow> visit_cycle adj (Suc fuel) is path (insert i closed')))"

fun queue_reaches :: "('a \<Rightarrow> 'a list) \<Rightarrow> nat \<Rightarrow> 'a list \<Rightarrow> 'a set \<Rightarrow> 'a \<Rightarrow> bool option" where
  "queue_reaches adj fuel [] seen target = Some False"
| "queue_reaches adj 0 (i # is) seen target =
     (if i = target then Some True
      else if i \<in> seen then queue_reaches adj 0 is seen target else None)"
| "queue_reaches adj (Suc fuel) (i # is) seen target =
     (if i = target then Some True
      else if i \<in> seen then queue_reaches adj (Suc fuel) is seen target
      else queue_reaches adj fuel (is @ adj i) (insert i seen) target)"

section \<open>Correctness on a finite graph\<close>

definition edges :: "('a \<Rightarrow> 'a list) \<Rightarrow> ('a \<times> 'a) set" where
  "edges adj = {(i, j). j \<in> set (adj i)}"

lemma edges_iff [simp]: "(i, j) \<in> edges adj \<longleftrightarrow> j \<in> set (adj i)"
  by (simp add: edges_def)

text \<open>What a marking returns: everything the list reaches, and what was marked before.\<close>

lemma mark_sound:
  "mark_reachable adj fuel is seen = Some seen' \<Longrightarrow>
    seen \<subseteq> seen' \<and> set is \<subseteq> seen' \<and> (\<forall>x \<in> seen' - seen. set (adj x) \<subseteq> seen') \<and>
    seen' \<subseteq> seen \<union> {y. \<exists>i \<in> set is. (i, y) \<in> (edges adj)\<^sup>*}"
proof (induction adj fuel "is" seen arbitrary: seen' rule: mark_reachable.induct)
  case (3 adj fuel i "is" seen)
  show ?case
  proof (cases "i \<in> seen")
    case True
    with 3 show ?thesis by fastforce
  next
    case False
    with "3.prems" obtain s1 where m1: "mark_reachable adj fuel (adj i) (insert i seen) = Some s1"
      and m2: "mark_reachable adj (Suc fuel) is s1 = Some seen'"
      by (auto split: option.splits)
    note a = "3.IH"(2) [OF False m1] and b = "3.IH"(3) [OF False m1 m2]
    have "\<exists>k \<in> set (i # is). (k, y) \<in> (edges adj)\<^sup>*" if "y \<in> s1" "y \<notin> seen" for y
    proof (cases "y = i")
      case False
      with a that obtain c where "c \<in> set (adj i)" "(c, y) \<in> (edges adj)\<^sup>*" by auto
      then show ?thesis by (auto intro: converse_rtrancl_into_rtrancl)
    qed auto
    then have "\<exists>k \<in> set (i # is). (k, y) \<in> (edges adj)\<^sup>*" if "y \<in> seen'" "y \<notin> seen" for y
      using b that by (cases "y \<in> s1") auto
    then have "seen' \<subseteq> seen \<union> {y. \<exists>k \<in> set (i # is). (k, y) \<in> (edges adj)\<^sup>*}" by blast
    moreover have "\<forall>x \<in> seen' - seen. set (adj x) \<subseteq> seen'"
      using a b by blast
    moreover have "seen \<subseteq> seen' \<and> set (i # is) \<subseteq> seen'"
      using a b by auto
    ultimately show ?thesis by blast
  qed
qed auto

lemma mark_exact:
  assumes "mark_reachable adj fuel [entry] {} = Some seen"
  shows "seen = {y. (entry, y) \<in> (edges adj)\<^sup>*}"
proof -
  note m = mark_sound [OF assms]
  have "y \<in> seen" if "(entry, y) \<in> (edges adj)\<^sup>*" for y
    using that m by (induction rule: rtrancl_induct) auto
  with m show ?thesis by auto
qed

text \<open>A set of finished nodes: closed under the edges, and no node of it lies on a cycle.\<close>

definition finished_nodes :: "('a \<Rightarrow> 'a list) \<Rightarrow> 'a set \<Rightarrow> bool" where
  "finished_nodes adj closed \<longleftrightarrow>
     (\<forall>x \<in> closed. set (adj x) \<subseteq> closed \<and> (x, x) \<notin> (edges adj)\<^sup>+)"

lemma finished_stays:
  "(x, y) \<in> (edges adj)\<^sup>* \<Longrightarrow> finished_nodes adj closed \<Longrightarrow> x \<in> closed \<Longrightarrow> y \<in> closed"
  unfolding finished_nodes_def by (induction rule: rtrancl_induct) (auto simp only: edges_iff subset_iff)

lemma visit_no_cycle:
  "visit_cycle adj fuel is path closed = Some (Some closed') \<Longrightarrow> finished_nodes adj closed \<Longrightarrow>
    path \<inter> closed = {} \<Longrightarrow>
    closed \<subseteq> closed' \<and> set is \<subseteq> closed' \<and> finished_nodes adj closed' \<and> path \<inter> closed' = {}"
proof (induction adj fuel "is" path closed arbitrary: closed' rule: visit_cycle.induct)
  case (3 adj fuel i "is" path closed)
  from "3.prems"(1) have np: "i \<notin> path" by (auto split: if_splits)
  show ?case
  proof (cases "i \<in> closed")
    case True
    with 3 np show ?thesis by auto
  next
    case False
    with "3.prems" np obtain c1 where v1: "visit_cycle adj fuel (adj i) (insert i path) closed = Some (Some c1)"
      and v2: "visit_cycle adj (Suc fuel) is path (insert i c1) = Some (Some closed')"
      by (auto split: option.splits)
    have c1: "closed \<subseteq> c1 \<and> set (adj i) \<subseteq> c1 \<and> finished_nodes adj c1 \<and> insert i path \<inter> c1 = {}"
      using "3.IH"(2) [OF np False v1 "3.prems"(2)] "3.prems"(3) False by blast
    have "(i, i) \<notin> (edges adj)\<^sup>+"
    proof
      assume "(i, i) \<in> (edges adj)\<^sup>+"
      then obtain j where "(i, j) \<in> edges adj" "(j, i) \<in> (edges adj)\<^sup>*" by (meson tranclD)
      with c1 have "i \<in> c1" by (auto intro: finished_stays)
      with c1 show False by blast
    qed
    with c1 have "finished_nodes adj (insert i c1)" unfolding finished_nodes_def by blast
    moreover have "path \<inter> insert i c1 = {}" using c1 np by blast
    ultimately have "insert i c1 \<subseteq> closed' \<and> set is \<subseteq> closed' \<and> finished_nodes adj closed' \<and> path \<inter> closed' = {}"
      using "3.IH"(3) [OF np False v1 refl v2] by blast
    with c1 show ?thesis by (simp, blast)
  qed
qed auto

lemma visit_finds_cycle:
  "visit_cycle adj fuel is path closed = Some None \<Longrightarrow>
    (\<And>p i. p \<in> path \<Longrightarrow> i \<in> set is \<Longrightarrow> (p, i) \<in> (edges adj)\<^sup>+) \<Longrightarrow>
    \<exists>i \<in> set is. \<exists>x. (i, x) \<in> (edges adj)\<^sup>* \<and> (x, x) \<in> (edges adj)\<^sup>+"
proof (induction adj fuel "is" path closed rule: visit_cycle.induct)
  case (3 adj fuel i "is" path closed)
  show ?case
  proof (cases "i \<in> path")
    case True
    with "3.prems"(2) [of i i] show ?thesis by auto
  next
    case np: False
    show ?thesis
    proof (cases "i \<in> closed")
      case True
      with 3 np show ?thesis by auto
    next
      case False
      from "3.prems" np False consider
          (inner) "visit_cycle adj fuel (adj i) (insert i path) closed = Some None"
        | (later) c1 where "visit_cycle adj fuel (adj i) (insert i path) closed = Some (Some c1)"
            "visit_cycle adj (Suc fuel) is path (insert i c1) = Some None"
        by (auto split: option.splits)
      then show ?thesis
      proof cases
        case inner
        have "(p, c) \<in> (edges adj)\<^sup>+" if "p \<in> insert i path" "c \<in> set (adj i)" for p c
          using that "3.prems"(2) [of p i] by (auto intro: trancl_into_trancl)
        from "3.IH"(2) [OF np False inner this] obtain c x where
            "c \<in> set (adj i)" "(c, x) \<in> (edges adj)\<^sup>*" "(x, x) \<in> (edges adj)\<^sup>+" by blast
        then have "(i, x) \<in> (edges adj)\<^sup>*" by (auto intro: converse_rtrancl_into_rtrancl)
        with \<open>(x, x) \<in> _\<close> show ?thesis by auto
      next
        case later
        from "3.IH"(3) [OF np False later(1) refl later(2)] "3.prems"(2) show ?thesis by auto
      qed
    qed
  qed
qed auto

lemma visit_exact:
  assumes "visit_cycle adj fuel [entry] {} {} = Some r"
  shows "r = None \<longleftrightarrow> (\<exists>x. (entry, x) \<in> (edges adj)\<^sup>* \<and> (x, x) \<in> (edges adj)\<^sup>+)"
proof (cases r)
  case None
  with visit_finds_cycle [of adj fuel "[entry]" "{}" "{}"] assms show ?thesis by auto
next
  case (Some closed)
  then have "entry \<in> closed" "finished_nodes adj closed"
    using visit_no_cycle [of adj fuel "[entry]" "{}" "{}" closed] assms
    by (auto simp: finished_nodes_def)
  then have "\<not> (\<exists>x. (entry, x) \<in> (edges adj)\<^sup>* \<and> (x, x) \<in> (edges adj)\<^sup>+)"
    by (meson finished_nodes_def finished_stays)
  with Some show ?thesis by simp
qed

lemma queue_sound:
  "queue_reaches adj fuel pending seen target = Some True \<Longrightarrow>
    \<exists>i \<in> set pending. (i, target) \<in> (edges adj)\<^sup>*"
proof (induction adj fuel pending seen target rule: queue_reaches.induct)
  case (3 adj fuel i "is" seen target)
  then show ?case
    by (fastforce split: if_splits intro: converse_rtrancl_into_rtrancl)
qed (auto split: if_splits)

lemma queue_complete:
  "queue_reaches adj fuel pending seen target = Some False \<Longrightarrow> target \<notin> seen \<Longrightarrow>
    (\<forall>x \<in> seen. set (adj x) \<subseteq> seen \<union> set pending) \<Longrightarrow>
    \<forall>x \<in> seen \<union> set pending. (x, target) \<notin> (edges adj)\<^sup>*"
proof (induction adj fuel pending seen target rule: queue_reaches.induct)
  case (1 adj fuel seen target)
  have "y \<in> seen" if "(x, y) \<in> (edges adj)\<^sup>*" "x \<in> seen" for x y
    using that 1 by (induction rule: rtrancl_induct) auto
  with 1 show ?case by auto
next
  case (2 adj i "is" seen target)
  then have "i \<noteq> target" "i \<in> seen" by (auto split: if_splits)
  with 2 have "\<forall>x \<in> seen \<union> set is. (x, target) \<notin> (edges adj)\<^sup>*" by auto
  with \<open>i \<in> seen\<close> show ?case by auto
next
  case (3 adj fuel i "is" seen target)
  from "3.prems"(1) have ni: "i \<noteq> target" by (auto split: if_splits)
  show ?case
  proof (cases "i \<in> seen")
    case True
    with 3 ni have "\<forall>x \<in> seen \<union> set is. (x, target) \<notin> (edges adj)\<^sup>*" by auto
    with True show ?thesis by auto
  next
    case False
    have "\<forall>x \<in> insert i seen. set (adj x) \<subseteq> insert i seen \<union> set (is @ adj i)"
      using "3.prems"(3) by auto
    with 3 ni False have "\<forall>x \<in> insert i seen \<union> set (is @ adj i). (x, target) \<notin> (edges adj)\<^sup>*"
      by auto
    then show ?thesis by auto
  qed
qed

lemma queue_exact:
  assumes "queue_reaches adj fuel [from] {} target = Some b"
  shows "b \<longleftrightarrow> (from, target) \<in> (edges adj)\<^sup>*"
  using assms queue_sound [of adj fuel "[from]" "{}" target]
    queue_complete [of adj fuel "[from]" "{}" target]
  by (cases b) auto

section \<open>Enough fuel\<close>

text \<open>The contract of a graph the searches run on: a finite set of nodes the edges stay in.\<close>

locale finite_graph =
  fixes adj :: "'a \<Rightarrow> 'a list" and U :: "'a set"
  assumes finite_nodes: "finite U"
    and adj_nodes: "set (adj i) \<subseteq> U"
begin

lemma card_insert_less: "i \<in> U \<Longrightarrow> i \<notin> seen \<Longrightarrow> card (U - insert i seen) < card (U - seen)"
  using finite_nodes by (intro psubset_card_mono) auto

lemma mark_enough:
  "g = adj \<Longrightarrow> set is \<subseteq> U \<Longrightarrow> card (U - seen) < fuel \<Longrightarrow>
    \<exists>seen'. mark_reachable g fuel is seen = Some seen' \<and> seen \<subseteq> seen'"
proof (induction g fuel "is" seen rule: mark_reachable.induct)
  case (3 g fuel i "is" seen)
  show ?case
  proof (cases "i \<in> seen")
    case True
    with 3 show ?thesis by simp
  next
    case False
    with "3.prems" card_insert_less [of i seen] have "card (U - insert i seen) < fuel" by simp
    with "3.IH"(2) [OF False "3.prems"(1)] adj_nodes "3.prems"(1) obtain s1 where
        s1: "mark_reachable g fuel (g i) (insert i seen) = Some s1" "insert i seen \<subseteq> s1" by blast
    then have "card (U - s1) \<le> card (U - seen)"
      using finite_nodes by (intro card_mono) auto
    with "3.IH"(3) [OF False s1(1) "3.prems"(1)] "3.prems" s1 False show ?thesis by auto
  qed
qed auto

lemma visit_enough:
  "g = adj \<Longrightarrow> set is \<subseteq> U \<Longrightarrow> card (U - path) < fuel \<Longrightarrow>
    \<exists>r. visit_cycle g fuel is path closed = Some r"
proof (induction g fuel "is" path closed rule: visit_cycle.induct)
  case (3 g fuel i "is" path closed)
  show ?case
  proof (cases "i \<in> path \<or> i \<in> closed")
    case True
    with 3 show ?thesis by auto
  next
    case False
    then have np: "i \<notin> path" "i \<notin> closed" by auto
    with "3.prems" card_insert_less [of i path] have "card (U - insert i path) < fuel" by simp
    with "3.IH"(2) [OF np "3.prems"(1)] adj_nodes "3.prems"(1) obtain r where
        "visit_cycle g fuel (g i) (insert i path) closed = Some r" by blast
    with "3.IH"(3) [OF np] "3.prems" np show ?thesis by (cases r) auto
  qed
qed auto

lemma queue_enough:
  "g = adj \<Longrightarrow> set pending \<subseteq> U \<Longrightarrow> card (U - seen) \<le> fuel \<Longrightarrow>
    \<exists>b. queue_reaches g fuel pending seen target = Some b"
proof (induction g fuel pending seen target rule: queue_reaches.induct)
  case (2 g i "is" seen target)
  have "i \<in> seen" using 2 finite_nodes by (auto simp: card_eq_0_iff)
  with 2 show ?case by auto
next
  case (3 g fuel i "is" seen target)
  show ?case
  proof (cases "i = target \<or> i \<in> seen")
    case True
    with 3 show ?thesis by auto
  next
    case False
    with "3.prems" card_insert_less [of i seen] have "card (U - insert i seen) \<le> fuel" by simp
    with 3 False adj_nodes show ?thesis by auto
  qed
qed auto

text \<open>The three searches from one node of the graph answer, and answer rightly.\<close>

lemma mark_reaches:
  assumes "entry \<in> U" and "card U < fuel"
  shows "mark_reachable adj fuel [entry] {} = Some {y. (entry, y) \<in> (edges adj)\<^sup>*}"
proof -
  from mark_enough [of adj "[entry]" "{}" fuel] assms obtain seen where
    "mark_reachable adj fuel [entry] {} = Some seen" by auto
  with mark_exact [OF this] show ?thesis by simp
qed

lemma visit_decides:
  assumes "entry \<in> U" and "card U < fuel"
  shows "\<exists>r. visit_cycle adj fuel [entry] {} {} = Some r \<and>
    (r = None \<longleftrightarrow> (\<exists>x. (entry, x) \<in> (edges adj)\<^sup>* \<and> (x, x) \<in> (edges adj)\<^sup>+))"
  using visit_enough [of adj "[entry]" "{}" fuel "{}"] assms visit_exact [of adj fuel entry] by auto

lemma queue_decides:
  assumes "from \<in> U" and "card U \<le> fuel"
  shows "queue_reaches adj fuel [from] {} target = Some ((from, target) \<in> (edges adj)\<^sup>*)"
proof -
  from queue_enough [of adj "[from]" "{}" fuel target] assms obtain b where
    "queue_reaches adj fuel [from] {} target = Some b" by auto
  with queue_exact [OF this] show ?thesis by simp
qed

end

end
