(* ===== verification/Workflow_Validate.thy ===== *)
theory Workflow_Validate
  imports Flow_IR Graph_Search
begin

text \<open>
  \<open>ValidateFlow\<close> of \<open>flow.go\<close>: every diagnostic the compiled program can be rejected with, as
  the sorted list of texts the function returns.  The passes are in the order of the code; each
  is a function from the flow to its diagnostics.
\<close>

section \<open>Nodes, regions and transitions\<close>

definition diag_text :: "string \<Rightarrow> string \<Rightarrow> string" where
  "diag_text code message = code @ '': '' @ message"

definition nodes_map :: "flow \<Rightarrow> (string \<rightharpoonup> flow_node)" where
  "nodes_map f = foldl (\<lambda>m n. m(nodeIdentity n \<mapsto> n)) Map.empty (flowNodes f)"

definition header_diags :: "flow \<Rightarrow> string list" where
  "header_diags f =
     (if flowSchemaVersion f \<noteq> FlowSchemaVersion
      then [diag_text ''TSPACK_WORKFLOW_SCHEMA_UNSUPPORTED''
              (''schemaVersion must be '' @ int_string FlowSchemaVersion)] else []) @
     (if emLimit (flowExpansion f) \<noteq> DefaultExpansionBudget
         \<or> emPlannedIterations (flowExpansion f) < 0
         \<or> emPlannedIterations (flowExpansion f) > emLimit (flowExpansion f)
      then [diag_text ''TSPACK_WORKFLOW_EXPANSION_INVALID''
              ''expansion metadata must use the bounded workflow limit''] else []) @
     (if emMaxConcurrency (flowExpansion f) \<noteq> MaxForEachConcurrency
      then [diag_text ''TSPACK_WORKFLOW_CONCURRENCY_CEILING_INVALID''
              ''expansion metadata must expose the workflow concurrency ceiling''] else [])"

definition node_diags :: "flow_node \<Rightarrow> string list" where
  "node_diags n =
     (if nodeKind n = NodeEffect \<and> nodeEffect n = None
      then [diag_text ''TSPACK_WORKFLOW_EFFECT_REQUIRED'' (nodeIdentity n @ '' has no effect'')] else []) @
     (if nodeKind n = NodeJoin \<and> nodeWaitFor n = []
      then [diag_text ''TSPACK_WORKFLOW_JOIN_INVALID''
              (nodeIdentity n @ '' has no branches to join'')] else []) @
     (if nodeKind n = NodePredicate \<and> nodePredicate n = None
      then [diag_text ''TSPACK_WORKFLOW_PREDICATE_INVALID''
              (nodeIdentity n @ '' has no predicate'')] else [])"

fun nodes_diags :: "string set \<Rightarrow> flow_node list \<Rightarrow> string list" where
  "nodes_diags seen [] = []"
| "nodes_diags seen (n # ns) =
     (if nodeIdentity n = ''''
      then [diag_text ''TSPACK_WORKFLOW_NODE_IDENTITY_INVALID'' ''node identity must not be empty'']
      else []) @
     (if nodeIdentity n \<in> seen
      then [diag_text ''TSPACK_WORKFLOW_NODE_IDENTITY_DUPLICATE'' (''duplicate node '' @ nodeIdentity n)]
      else []) @
     node_diags n @ nodes_diags (insert (nodeIdentity n) seen) ns"

definition entry_diags :: "flow \<Rightarrow> string list" where
  "entry_diags f =
     (if flowEntry f \<notin> set (node_ids f)
      then [diag_text ''TSPACK_WORKFLOW_ENTRY_UNKNOWN'' ''entry node does not exist''] else [])"

fun regions_diags :: "string set \<Rightarrow> execution_region list \<Rightarrow> string list" where
  "regions_diags seen [] = []"
| "regions_diags seen (r # rs) =
     (if erIdentity r \<in> seen
      then [diag_text ''TSPACK_WORKFLOW_REGION_DUPLICATE'' (''duplicate region '' @ erIdentity r)]
      else []) @ regions_diags (insert (erIdentity r) seen) rs"

text \<open>
  The key under which a transition's case is recorded: source and event, and for a match or
  predicate node the guard, separated by a zero byte.
\<close>

definition plain_key :: "string \<Rightarrow> machine_event_kind \<Rightarrow> string" where
  "plain_key from event = from @ [CHR 0x00] @ event_string event"

definition guarded_key :: "string \<Rightarrow> machine_event_kind \<Rightarrow> string \<Rightarrow> string" where
  "guarded_key from event guard = plain_key from event @ [CHR 0x00] @ guard"

definition guards :: "flow \<Rightarrow> string \<Rightarrow> bool" where
  "guards f from \<longleftrightarrow> (case nodes_map f from of None \<Rightarrow> False
     | Some n \<Rightarrow> nodeKind n = NodeMatch \<or> nodeKind n = NodePredicate)"

definition case_key :: "flow \<Rightarrow> transition \<Rightarrow> string" where
  "case_key f t = (if guards f (tFrom t) then guarded_key (tFrom t) (tEvent t) (tGuard t)
                   else plain_key (tFrom t) (tEvent t))"

definition transition_cases :: "flow \<Rightarrow> string set" where
  "transition_cases f = set (map (case_key f) (flowTransitions f))"

fun transitions_diags :: "flow \<Rightarrow> string set \<Rightarrow> string set \<Rightarrow> transition list \<Rightarrow> string list" where
  "transitions_diags f keys cases [] = []"
| "transitions_diags f keys cases (t # ts) =
     (if tIdentity t \<in> keys
      then [diag_text ''TSPACK_WORKFLOW_TRANSITION_DUPLICATE'' (''duplicate transition '' @ tIdentity t)]
      else []) @
     (if tFrom t \<notin> set (node_ids f)
      then [diag_text ''TSPACK_WORKFLOW_TRANSITION_SOURCE_UNKNOWN''
              (tIdentity t @ '' has unknown source '' @ tFrom t)] else []) @
     (if tTo t \<notin> set (node_ids f)
      then [diag_text ''TSPACK_WORKFLOW_TRANSITION_TARGET_UNKNOWN''
              (tIdentity t @ '' has unknown target '' @ tTo t)] else []) @
     (if case_key f t \<in> cases
      then [diag_text ''TSPACK_WORKFLOW_TRANSITION_AMBIGUOUS''
              (tFrom t @ '' handles '' @ event_string (tEvent t) @ '' more than once'')] else []) @
     transitions_diags f (insert (tIdentity t) keys) (insert (case_key f t) cases) ts"

definition outcome_names :: "string list" where
  "outcome_names = [''succeeded'', ''failed'', ''cancelled'', ''timedOut'']"

definition references_diags :: "flow \<Rightarrow> flow_node \<Rightarrow> string list" where
  "references_diags f n =
     (if nodeRegion n \<noteq> '''' \<and> nodeRegion n \<notin> set (map erIdentity (flowRegions f))
      then [diag_text ''TSPACK_WORKFLOW_REGION_UNKNOWN''
              (nodeIdentity n @ '' selects unknown region '' @ nodeRegion n)] else []) @
     map (\<lambda>r. diag_text ''TSPACK_WORKFLOW_NODE_REFERENCE_UNKNOWN''
              (nodeIdentity n @ '' references unknown node '' @ r))
       (filter (\<lambda>r. r \<notin> set (node_ids f)) (nodeTargets n @ nodeWaitFor n)) @
     (if nodeKind n = NodeEffect
      then map (\<lambda>e. diag_text ''TSPACK_WORKFLOW_RESULT_UNHANDLED''
                (nodeIdentity n @ '' does not handle '' @ event_string e))
             (filter (\<lambda>e. plain_key (nodeIdentity n) e \<notin> transition_cases f)
               [MachineEffectSucceeded, MachineEffectFailed, MachineCancelRequested, MachineTimeout])
      else []) @
     (if nodeKind n = NodeMatch
      then map (\<lambda>oc. diag_text ''TSPACK_WORKFLOW_MATCH_NON_EXHAUSTIVE''
                (nodeIdentity n @ '' does not handle '' @ oc))
             (filter (\<lambda>oc. guarded_key (nodeIdentity n) MachineContinue oc \<notin> transition_cases f)
               outcome_names)
      else []) @
     (if nodeKind n = NodePredicate
      then map (\<lambda>oc. diag_text ''TSPACK_WORKFLOW_PREDICATE_NON_EXHAUSTIVE''
                (nodeIdentity n @ '' does not handle '' @ oc))
             (filter (\<lambda>oc. guarded_key (nodeIdentity n) MachineContinue oc \<notin> transition_cases f)
               [''true'', ''false''])
      else [])"

section \<open>The graph of a flow\<close>

definition join_edges :: "string \<Rightarrow> flow_node \<Rightarrow> string list" where
  "join_edges i n =
     (if nodeKind n = NodeJoin then map (\<lambda>_. nodeIdentity n) (filter (\<lambda>d. d = i) (nodeWaitFor n))
      else [])"

definition adjacency :: "flow \<Rightarrow> string \<Rightarrow> string list" where
  "adjacency f i =
     concat (map (\<lambda>n. (if nodeIdentity n = i then nodeTargets n else []) @ join_edges i n) (flowNodes f))
     @ map tTo (filter (\<lambda>t. tFrom t = i) (flowTransitions f))"

text \<open>Every identity an edge can lead to; one more than their number is fuel enough.\<close>

definition edge_targets :: "flow \<Rightarrow> string list" where
  "edge_targets f = node_ids f @ concat (map nodeTargets (flowNodes f)) @ map tTo (flowTransitions f)"

definition graph_fuel :: "flow \<Rightarrow> nat" where
  "graph_fuel f = length (edge_targets f) + 2"

definition reachable :: "flow \<Rightarrow> string set option" where
  "reachable f = mark_reachable (adjacency f) (graph_fuel f) [flowEntry f] {}"

definition has_cycle :: "flow \<Rightarrow> bool" where
  "has_cycle f \<longleftrightarrow> visit_cycle (adjacency f) (graph_fuel f) [flowEntry f] {} {} = Some None"

definition flowNodeReaches :: "flow \<Rightarrow> string \<Rightarrow> string \<Rightarrow> bool" where
  "flowNodeReaches f from target \<longleftrightarrow>
     queue_reaches (adjacency f) (graph_fuel f) [from] {} target = Some True"

definition unreachable_diags :: "flow \<Rightarrow> string list" where
  "unreachable_diags f =
     (case reachable f of None \<Rightarrow> []
      | Some seen \<Rightarrow> map (\<lambda>n. diag_text ''TSPACK_WORKFLOW_NODE_UNREACHABLE''
                            (nodeIdentity n @ '' cannot be reached from entry''))
          (filter (\<lambda>n. nodeIdentity n \<notin> seen \<and> nodeKind n \<noteq> NodeTerminal \<and> \<not> nodeCleanup n)
            (flowNodes f)))"

definition cycle_diags :: "flow \<Rightarrow> string list" where
  "cycle_diags f =
     (if has_cycle f
      then [diag_text ''TSPACK_WORKFLOW_CYCLE_UNBOUNDED''
        ''runtime cycles are not supported until an explicit bounded loop construct exists'']
      else [])"

section \<open>Values\<close>

definition projection_fields :: "string \<Rightarrow> string list" where
  "projection_fields resultType =
     (if resultType = ''build'' \<or> resultType = ''transfer'' then [''artifacts'', ''targets'', ''diagnostics'']
      else if resultType = ''test''
        then [''passed'', ''failed'', ''skipped'', ''durationMs'', ''tests'', ''diagnostics'']
      else if resultType = ''audit''
        then [''source'', ''auditLevel'', ''failing'', ''report'', ''diagnostics'']
      else [])"

fun validProjection :: "string \<Rightarrow> string list \<Rightarrow> bool" where
  "validProjection resultType [field] \<longleftrightarrow> field \<in> set (projection_fields resultType)"
| "validProjection resultType _ \<longleftrightarrow> False"

definition zero_value :: value_definition where
  "zero_value = \<lparr>vrIdentity = '''', vrSource = '''', vrResultType = '''', vrFieldPath = [],
     vrCategory = '''', vrAggregate = '''', vrIndex = None, vdProducer = '''', vdRegion = '''',
     vdTransported = False\<rparr>"

text \<open>The first definition of a value counts; a repeated one is only reported.\<close>

definition definitions_map :: "flow \<Rightarrow> (string \<rightharpoonup> value_definition)" where
  "definitions_map f =
     foldl (\<lambda>m v. if vrIdentity v \<in> dom m then m else m(vrIdentity v \<mapsto> v)) Map.empty (flowValues f)"

fun values_diags :: "string set \<Rightarrow> value_definition list \<Rightarrow> string list" where
  "values_diags seen [] = []"
| "values_diags seen (v # vs) =
     (if vrIdentity v \<in> seen
      then [diag_text ''TSPACK_WORKFLOW_VALUE_DUPLICATE''
              (''value '' @ vrIdentity v @ '' is defined more than once'')]
      else if vrSource v \<noteq> vrIdentity v \<and> \<not> validProjection (vrResultType v) (vrFieldPath v)
        then [diag_text ''TSPACK_WORKFLOW_PROJECTION_INVALID''
                (vrIdentity v @ '' is not a field of '' @ vrResultType v)]
      else []) @ values_diags (insert (vrIdentity v) seen) vs"

definition match_value_diags :: "flow \<Rightarrow> flow_node \<Rightarrow> string list" where
  "match_value_diags f n =
     (if nodeKind n = NodeMatch
      then (case definitions_map f (nodeSource n) of
              None \<Rightarrow> [diag_text ''TSPACK_WORKFLOW_VALUE_UNKNOWN''
                        (nodeIdentity n @ '' matches unknown value '' @ nodeSource n)]
            | Some d \<Rightarrow>
                if vdProducer d \<noteq> '''' \<and> \<not> flowNodeReaches f (vdProducer d) (nodeIdentity n)
                then [diag_text ''TSPACK_WORKFLOW_VALUE_SCOPE_ILLEGAL''
                        (nodeSource n @ '' is not produced on a path reaching '' @ nodeIdentity n)]
                else [])
      else [])"

definition region_platform :: "flow \<Rightarrow> string \<Rightarrow> string" where
  "region_platform f i =
     foldl (\<lambda>p r. if erIdentity r = i then erPlatform r else p) '''' (flowRegions f)"

definition regionsSharePlatform :: "flow \<Rightarrow> string \<Rightarrow> string \<Rightarrow> bool" where
  "regionsSharePlatform f left right \<longleftrightarrow>
     region_platform f left \<noteq> '''' \<and> region_platform f left = region_platform f right"

definition source_of :: "flow \<Rightarrow> value_definition \<Rightarrow> value_definition" where
  "source_of f d = zget zero_value (definitions_map f) (vrSource d)"

function validatePredicateValues :: "flow \<Rightarrow> string \<Rightarrow> predicate \<Rightarrow> nat \<Rightarrow> string list" where
  "validatePredicateValues f consumer p depth =
     (if depth > DefaultPredicateDepthLimit
      then [diag_text ''TSPACK_WORKFLOW_PREDICATE_LIMIT_EXCEEDED''
              (consumer @ '' predicate exceeds depth limit'')]
      else
        (case pInput p of None \<Rightarrow> []
         | Some input \<Rightarrow>
             (case definitions_map f (vrIdentity input) of
                None \<Rightarrow> [diag_text ''TSPACK_WORKFLOW_VALUE_UNKNOWN''
                          (consumer @ '' predicate consumes unknown value '' @ vrIdentity input)]
              | Some d \<Rightarrow>
                  if vdProducer (source_of f d) \<noteq> ''''
                     \<and> \<not> flowNodeReaches f (vdProducer (source_of f d)) consumer
                  then [diag_text ''TSPACK_WORKFLOW_VALUE_SCOPE_ILLEGAL''
                          (vrIdentity input @ '' is not produced on a path reaching '' @ consumer)]
                  else [])) @
        concat (map (\<lambda>c. validatePredicateValues f consumer c (depth + 1)) (pChildren p)))"
  by pat_completeness auto
termination
  by (relation "measure (\<lambda>(f, consumer, p, depth). size p)") auto

declare validatePredicateValues.simps [simp del]

definition input_diags :: "flow \<Rightarrow> flow_node \<Rightarrow> plan_step \<Rightarrow> value_ref \<Rightarrow> string list" where
  "input_diags f n effect input =
     (case definitions_map f (vrIdentity input) of
        None \<Rightarrow> [diag_text ''TSPACK_WORKFLOW_VALUE_UNKNOWN''
                  (nodeIdentity n @ '' consumes unknown value '' @ vrIdentity input)]
      | Some d \<Rightarrow>
          (let source = source_of f d;
               transport = vdTransported source \<and> vrCategory input = ValueArtifactReference
                 \<and> regionsSharePlatform f (vdRegion source) (nodeRegion n) in
           (if vdProducer source \<noteq> '''' \<and> \<not> flowNodeReaches f (vdProducer source) (nodeIdentity n)
            then [diag_text ''TSPACK_WORKFLOW_VALUE_SCOPE_ILLEGAL''
                    (vrIdentity input @ '' is not produced on a path reaching '' @ nodeIdentity n)]
            else []) @
           (if vdRegion source \<noteq> '''' \<and> nodeRegion n \<noteq> '''' \<and> vdRegion source \<noteq> nodeRegion n
               \<and> (vrCategory input = ValueArtifactReference \<or> vrCategory input = ValueRegionLocal)
               \<and> (psOperation effect \<noteq> ''transfer'' \<or> vrCategory input \<noteq> ValueArtifactReference)
               \<and> \<not> transport
            then [diag_text ''TSPACK_WORKFLOW_VALUE_REGION_ILLEGAL''
                    (vrIdentity input @ '' cannot cross from '' @ vdRegion source @ '' to ''
                     @ nodeRegion n @ '' without semantic transport'')]
            else [])))"

definition consumer_diags :: "flow \<Rightarrow> flow_node \<Rightarrow> string list" where
  "consumer_diags f n =
     match_value_diags f n @
     (if nodeKind n = NodePredicate
      then (case nodePredicate n of None \<Rightarrow> []
            | Some p \<Rightarrow> validatePredicateValues f (nodeIdentity n) p 1) else []) @
     (case nodeEffect n of None \<Rightarrow> []
      | Some effect \<Rightarrow> concat (map (input_diags f n effect) (psInputs effect)))"

definition aggregate_diags :: "flow \<Rightarrow> aggregate_definition \<Rightarrow> string list" where
  "aggregate_diags f a =
     (if adIdentity a = '''' \<or> adElements a = [] \<or> length (adElements a) > DefaultForEachLimit
      then [diag_text ''TSPACK_WORKFLOW_AGGREGATE_INVALID''
              ''aggregate requires deterministic identity and bounded elements''] else []) @
     (if adMode a \<noteq> ''sequential'' \<and> adMode a \<noteq> ''parallel''
      then [diag_text ''TSPACK_WORKFLOW_FOREACH_MODE_INVALID''
              (adIdentity a @ '' has invalid mode '' @ adMode a)] else []) @
     (if adConcurrency a < 1 \<or> adConcurrency a > MaxForEachConcurrency
         \<or> (adMode a = ''sequential'' \<and> adConcurrency a \<noteq> 1)
      then [diag_text ''TSPACK_WORKFLOW_FOREACH_CONCURRENCY_INVALID''
              (adIdentity a @ '' has invalid concurrency'')] else []) @
     (if adFailurePolicy a \<noteq> ''failFast'' \<and> adFailurePolicy a \<noteq> ''collectAll''
      then [diag_text ''TSPACK_WORKFLOW_FOREACH_FAILURE_POLICY_INVALID''
              (adIdentity a @ '' has invalid failure policy'')] else []) @
     (if adComplete a \<noteq> (adFailurePolicy a = ''collectAll'')
      then [diag_text ''TSPACK_WORKFLOW_AGGREGATE_COMPLETENESS_INVALID''
              (adIdentity a @ '' completeness does not match its failure policy'')] else []) @
     map (\<lambda>e. diag_text ''TSPACK_WORKFLOW_AGGREGATE_ELEMENT_UNKNOWN''
              (adIdentity a @ '' references unknown element '' @ e))
       (filter (\<lambda>e. case definitions_map f e of None \<Rightarrow> True | Some d \<Rightarrow> vdProducer d = '''')
         (adElements a))"

fun aggregates_diags :: "flow \<Rightarrow> string set \<Rightarrow> aggregate_definition list \<Rightarrow> string list" where
  "aggregates_diags f seen [] = []"
| "aggregates_diags f seen (a # as) =
     (if adIdentity a \<in> seen
      then [diag_text ''TSPACK_WORKFLOW_AGGREGATE_DUPLICATE''
              (''aggregate '' @ adIdentity a @ '' is defined more than once'')] else []) @
     aggregate_diags f a @ aggregates_diags f (insert (adIdentity a) seen) as"

definition aggregates_map :: "flow \<Rightarrow> (string \<rightharpoonup> aggregate_definition)" where
  "aggregates_map f = foldl (\<lambda>m a. m(adIdentity a \<mapsto> a)) Map.empty (flowAggregates f)"

text \<open>\<open>aggregate.Elements[index]\<close> of a complete aggregate, where it exists.\<close>

definition complete_element :: "flow \<Rightarrow> string \<Rightarrow> int \<Rightarrow> string option" where
  "complete_element f aggregate index =
     (case aggregates_map f aggregate of None \<Rightarrow> None
      | Some a \<Rightarrow>
          if adComplete a \<and> 0 \<le> index \<and> index < int (length (adElements a))
          then Some (adElements a ! nat index) else None)"

definition projection_diags :: "flow \<Rightarrow> flow_node \<Rightarrow> string list" where
  "projection_diags f n =
     (case nodeProjection n of None \<Rightarrow> []
      | Some p \<Rightarrow>
          (case complete_element f (apAggregate p) (apIndex p) of
             None \<Rightarrow> [diag_text ''TSPACK_WORKFLOW_AGGREGATE_PROJECTION_INVALID''
               (nodeIdentity n @ '' has an unknown, incomplete, or out-of-range aggregate projection'')]
           | Some e \<Rightarrow>
               if e \<noteq> apValue p \<or> apValue p \<noteq> nodeSource n
               then [diag_text ''TSPACK_WORKFLOW_AGGREGATE_PROJECTION_IDENTITY_INVALID''
                 (nodeIdentity n @ '' projection does not preserve the aggregate element identity'')]
               else []))"

definition cursor_index :: "iterator_cursor \<Rightarrow> int" where
  "cursor_index c =
     (case ivSource (icValue c) of None \<Rightarrow> icIndex c
      | Some r \<Rightarrow> (case vrIndex r of None \<Rightarrow> icIndex c | Some k \<Rightarrow> k))"

definition iterator_diags :: "flow \<Rightarrow> flow_node \<Rightarrow> string list" where
  "iterator_diags f n =
     (case nodeIterator n of None \<Rightarrow> []
      | Some c \<Rightarrow>
          if icSourceAggregate c \<noteq> ''''
             \<and> complete_element f (icSourceAggregate c) (cursor_index c) \<noteq> Some (icElementIdentity c)
          then [diag_text ''TSPACK_WORKFLOW_AGGREGATE_ITERATION_SOURCE_INVALID''
            (nodeIdentity n @ '' does not consume a bounded complete aggregate element'')]
          else [])"

definition validateFlowValues :: "flow \<Rightarrow> string list" where
  "validateFlowValues f =
     values_diags {} (flowValues f) @
     concat (map (consumer_diags f) (flowNodes f)) @
     aggregates_diags f {} (flowAggregates f) @
     concat (map (\<lambda>n. projection_diags f n @ iterator_diags f n) (flowNodes f))"

section \<open>ValidateFlow\<close>

definition flow_diagnostics :: "flow \<Rightarrow> string list" where
  "flow_diagnostics f =
     header_diags f @ nodes_diags {} (flowNodes f) @ entry_diags f @
     regions_diags {} (flowRegions f) @
     transitions_diags f {} {} (flowTransitions f) @
     concat (map (references_diags f) (flowNodes f)) @
     validateFlowValues f @ unreachable_diags f @ cycle_diags f"

definition ValidateFlow :: "flow \<Rightarrow> string list" where
  "ValidateFlow f = sort_strings (flow_diagnostics f)"

end
