(* ===== verification/Workflow_Build.thy ===== *)
theory Workflow_Build
  imports Workflow_Plan Workflow_Validate "HOL-Library.Word"
begin

text \<open>
  The compiler of \<open>flow.go\<close>: an authored flow, or the plan of a job-based workflow, becomes a
  program of nodes and transitions.  The builder's fields are a record that every method takes
  and returns; a pointer into the node list is an update of the first node with that identity.
  The authoring nodes are compiled by recursion; each case that loops over nested nodes is a
  definition of its own that takes the compiler as a function \<open>rec\<close>, with a congruence rule
  that lets the recursion be seen to terminate.
\<close>

section \<open>The builder\<close>

record builder =
  bFlow :: flow
  bNext :: nat
  bRegion :: string
  bBranch :: string
  bFailure :: string
  bCancel :: string
  bTimeout :: string
  bCause :: terminal_kind
  bFinally :: nat
  bForEach :: nat
  bPath :: "string list"
  bEffects :: "string \<rightharpoonup> string"
  bAuthored :: "string \<rightharpoonup> nat"
  bMatch :: "string \<rightharpoonup> string"

text \<open>\<open>sanitizeFlowIdentity\<close>: lower case letters, digits and dashes, one for each other rune.\<close>

definition sanitize_rune :: "string \<Rightarrow> char" where
  "sanitize_rune r = (case r of
      [c] \<Rightarrow>
        (let k = of_char c :: nat; k' = (if 65 \<le> k \<and> k \<le> 90 then k + 32 else k) in
         if (97 \<le> k' \<and> k' \<le> 122) \<or> (48 \<le> k' \<and> k' \<le> 57) \<or> k' = 45 then char_of k' else CHR ''-'')
    | _ \<Rightarrow> CHR ''-'')"

definition sanitizeFlowIdentity :: "string \<Rightarrow> string" where
  "sanitizeFlowIdentity value = trim_chars (map sanitize_rune (runes value)) ''-''"

definition valueIdentity :: "builder \<Rightarrow> string \<Rightarrow> string" where
  "valueIdentity b source =
     (if has_prefix source ''value/'' then source
      else ''value/'' @ sanitizeFlowIdentity (flowIdentity (bFlow b)) @ ''/'' @ trim_prefix source ''/'')"

definition node_identity :: "nat \<Rightarrow> string \<Rightarrow> string" where
  "node_identity k label = ''node/'' @ pad_nat 3 k @ ''-'' @ sanitizeFlowIdentity label"

definition addNode :: "string \<Rightarrow> node_kind \<Rightarrow> builder \<Rightarrow> string \<times> builder" where
  "addNode label kind b =
     (let identity = node_identity (bNext b + 1) label in
      (identity, b\<lparr>bNext := bNext b + 1,
         bFlow := (bFlow b)\<lparr>flowNodes := flowNodes (bFlow b) @ [new_node identity kind]\<rparr>\<rparr>))"

definition on_node :: "string \<Rightarrow> (flow_node \<Rightarrow> flow_node) \<Rightarrow> builder \<Rightarrow> builder" where
  "on_node identity g b =
     b\<lparr>bFlow := (bFlow b)\<lparr>flowNodes :=
        update_first (\<lambda>n. nodeIdentity n = identity) g (flowNodes (bFlow b))\<rparr>\<rparr>"

definition addTransitionGuard ::
  "string \<Rightarrow> machine_event_kind \<Rightarrow> string \<Rightarrow> string \<Rightarrow> builder \<Rightarrow> builder" where
  "addTransitionGuard from event guard to b =
     (let identity = ''transition/'' @ pad_nat 3 (length (flowTransitions (bFlow b)) + 1) in
      b\<lparr>bFlow := (bFlow b)\<lparr>flowTransitions := flowTransitions (bFlow b) @
         [\<lparr>tIdentity = identity, tFrom = from, tEvent = event, tGuard = guard, tTo = to\<rparr>]\<rparr>\<rparr>)"

definition addTransition :: "string \<Rightarrow> machine_event_kind \<Rightarrow> string \<Rightarrow> builder \<Rightarrow> builder" where
  "addTransition from event to b = addTransitionGuard from event (event_string event) to b"

definition addRegion :: "string \<Rightarrow> string \<Rightarrow> environment list \<Rightarrow> builder \<Rightarrow> builder" where
  "addRegion identity platform env b =
     (if identity \<in> set (map erIdentity (flowRegions (bFlow b))) then b
      else b\<lparr>bFlow := (bFlow b)\<lparr>flowRegions := flowRegions (bFlow b) @
         [\<lparr>erIdentity = identity,
           erPlatform = (if platform = '''' then ''currentHost'' else platform),
           erEnvironment = env\<rparr>]\<rparr>\<rparr>)"

definition append_value :: "value_definition \<Rightarrow> builder \<Rightarrow> builder" where
  "append_value v b = b\<lparr>bFlow := (bFlow b)\<lparr>flowValues := flowValues (bFlow b) @ [v]\<rparr>\<rparr>"

definition value_of_ref :: "value_ref \<Rightarrow> string \<Rightarrow> string \<Rightarrow> bool \<Rightarrow> value_definition" where
  "value_of_ref r producer region transported =
     value_ref.extend r (value_definition.fields producer region transported)"

definition addProjection :: "value_ref \<Rightarrow> builder \<Rightarrow> builder" where
  "addProjection reference b =
     (if vrIdentity reference \<in> set (map vrIdentity (flowValues (bFlow b))) then b
      else append_value (value_of_ref reference '''' '''' False) b)"

definition valueRegion :: "builder \<Rightarrow> string \<Rightarrow> string" where
  "valueRegion b identity =
     (case find (\<lambda>v. vrIdentity v = identity) (flowValues (bFlow b)) of
        None \<Rightarrow> '''' | Some v \<Rightarrow> vdRegion v)"

definition normalize_input :: "builder \<Rightarrow> value_ref \<Rightarrow> value_ref" where
  "normalize_input b r = r\<lparr>vrIdentity := valueIdentity b (vrIdentity r),
     vrSource := valueIdentity b (vrSource r),
     vrAggregate := (if vrAggregate r = '''' then '''' else valueIdentity b (vrAggregate r))\<rparr>"

definition normalizeInputs :: "builder \<Rightarrow> value_ref list \<Rightarrow> value_ref list" where
  "normalizeInputs b inputs = map (normalize_input b) inputs"

section \<open>From the manifest\<close>

definition value_ref_of :: "workflow_value_ref \<Rightarrow> value_ref" where
  "value_ref_of r = \<lparr>vrIdentity = wvrIdentity r, vrSource = wvrSource r,
     vrResultType = wvrResultType r, vrFieldPath = wvrFieldPath r, vrCategory = wvrCategory r,
     vrAggregate = wvrAggregate r, vrIndex = wvrIndex r\<rparr>"

definition valueRefsFromManifest :: "workflow_value_ref list \<Rightarrow> value_ref list" where
  "valueRefsFromManifest values = map value_ref_of values"

definition planStepFromManifest :: "workflow_step \<Rightarrow> nat \<Rightarrow> string \<Rightarrow> plan_step" where
  "planStepFromManifest s ordinal pre = \<lparr>
     psIdentity = pre @ ''/step-'' @ pad_nat 2 ordinal @ ''-'' @ wsOperation s,
     psResultIdentity = wsResultIdentity s, psInputs = valueRefsFromManifest (wsInputs s),
     psResolvedInputs = [],
     psName = step_name s, psOperation = wsOperation s,
     psPackages = sortedCopy (wsPackages s), psTargets = sortedCopy (wsTargets s),
     psTarget = wsTarget s, psFilter = wsFilter s, psAuditLevel = wsAuditLevel s,
     psRequireCoverage = wsRequireCoverage s, psCommand = wsCommand s, psScript = wsScript s,
     psShell = wsShell s, psCwd = wsCwd s, psCapabilities = step_capabilities s,
     psEnvironment = normalizeEnvironment (wsEnv s), psTimeoutSeconds = wsTimeoutSeconds s,
     psTransferTarget = wsTransferTarget s, psTransferSourceRegion = ''''\<rparr>"

function predicateFromManifest :: "workflow_predicate \<Rightarrow> predicate" where
  "predicateFromManifest p =
     Predicate (wpKind p) (map_option value_ref_of (wpInput p)) (wpNumber p) (wpBoolean p)
       (wpString p) (map predicateFromManifest (wpChildren p))"
  by pat_completeness auto
termination by (relation "measure size") auto

declare predicateFromManifest.simps [simp del]

fun normalize_each :: "(predicate \<Rightarrow> builder \<Rightarrow> predicate \<times> builder) \<Rightarrow> predicate list \<Rightarrow> builder \<Rightarrow>
  predicate list \<times> builder" where
  "normalize_each rec [] b = ([], b)"
| "normalize_each rec (p # ps) b =
     (let (p', b1) = rec p b; (ps', b2) = normalize_each rec ps b1 in (p' # ps', b2))"

lemma normalize_each_cong [fundef_cong]:
  "ps = ps' \<Longrightarrow> b = b' \<Longrightarrow> (\<And>p c. p \<in> set ps' \<Longrightarrow> rec p c = rec' p c) \<Longrightarrow>
    normalize_each rec ps b = normalize_each rec' ps' b'"
  by (induction ps' arbitrary: ps b b') (auto simp: Let_def)

definition normalize_predicate_input :: "value_ref option \<Rightarrow> builder \<Rightarrow> value_ref option \<times> builder" where
  "normalize_predicate_input input b =
     (case input of None \<Rightarrow> (None, b)
      | Some r \<Rightarrow>
          (let r' = r\<lparr>vrIdentity := valueIdentity b (vrIdentity r), vrSource := valueIdentity b (vrSource r)\<rparr>
           in (Some r', addProjection r' b)))"

function normalizePredicate :: "predicate \<Rightarrow> builder \<Rightarrow> predicate \<times> builder" where
  "normalizePredicate p b =
     (let (input, b1) = normalize_predicate_input (pInput p) b;
          (children, b2) = normalize_each normalizePredicate (pChildren p) b1
      in (Predicate (pKind p) input (pNumber p) (pBoolean p) (pString p) children, b2))"
  by pat_completeness auto
termination by (relation "measure (size \<circ> fst)") auto

declare normalizePredicate.simps [simp del]

section \<open>Walks over the authored flow\<close>

definition option_list :: "'a option \<Rightarrow> 'a list" where
  "option_list x = (case x of None \<Rightarrow> [] | Some y \<Rightarrow> [y])"

definition nested_nodes :: "workflow_flow_node \<Rightarrow> workflow_flow_node list" where
  "nested_nodes n = wfChildren n @ map itemFlow (wfItems n) @ map armFlow (wfArms n) @
     option_list (wfBody n) @ option_list (wfCleanup n) @ option_list (wfThen n) @ option_list (wfElse n)"

lemma size_nested [simp]: "c \<in> set (nested_nodes n) \<Longrightarrow> size c < size n"
  by (auto simp: nested_nodes_def option_list_def split: option.splits)

text \<open>The total is a \<open>uint64\<close>; the last \<open>forEach\<close> visited names the workflow in the error.\<close>

type_synonym iteration_count = "64 word \<times> string"

fun visit_each :: "(workflow_flow_node \<Rightarrow> iteration_count \<Rightarrow> string + iteration_count) \<Rightarrow>
  workflow_flow_node list \<Rightarrow> iteration_count \<Rightarrow> string + iteration_count" where
  "visit_each rec [] acc = Inr acc"
| "visit_each rec (n # ns) acc =
     (case rec n acc of Inl e \<Rightarrow> Inl e | Inr acc' \<Rightarrow> visit_each rec ns acc')"

lemma visit_each_cong [fundef_cong]:
  "ns = ns' \<Longrightarrow> acc = acc' \<Longrightarrow> (\<And>n a. n \<in> set ns' \<Longrightarrow> rec n a = rec' n a) \<Longrightarrow>
    visit_each rec ns acc = visit_each rec' ns' acc'"
  by (induction ns' arbitrary: ns acc acc') (auto split: sum.splits)

definition count_items :: "workflow_flow_node \<Rightarrow> iteration_count \<Rightarrow> string + iteration_count" where
  "count_items n acc =
     (if wfKind n = ''forEach'' then
        (let count = word_of_nat (length (wfItems n)) in
         if - 1 - fst acc < count
         then Inl (''TSPACK_WORKFLOW_EXPANSION_OVERFLOW: nested ForEach '' @ wfIdentity n
                   @ '' expansion count overflows uint64'')
         else Inr (fst acc + count, wfIdentity n))
      else Inr acc)"

function visit_count :: "workflow_flow_node \<Rightarrow> iteration_count \<Rightarrow> string + iteration_count" where
  "visit_count n acc =
     (case count_items n acc of Inl e \<Rightarrow> Inl e
      | Inr acc' \<Rightarrow> visit_each visit_count (nested_nodes n) acc')"
  by pat_completeness auto
termination by (relation "measure (\<lambda>(n, acc). size n)") simp_all

declare visit_count.simps [simp del]

definition plannedIterationCount :: "workflow_flow_node \<Rightarrow> int \<Rightarrow> string + int" where
  "plannedIterationCount node budget =
     (case visit_count node (0, ''workflow'') of
        Inl e \<Rightarrow> Inl e
      | Inr (expanded, lastIdentity) \<Rightarrow>
          if expanded > word_of_int budget
          then Inl (''TSPACK_WORKFLOW_EXPANSION_LIMIT_EXCEEDED: nested ForEach '' @ lastIdentity
            @ '' expands to '' @ nat_string (unat expanded) @ '' total iterations; workflow limit is ''
            @ int_string budget)
          else Inr (uint expanded))"

text \<open>\<open>collectAuthoredEffects\<close> does not visit the branches of a \<open>when\<close>.\<close>

definition authored_nested :: "workflow_flow_node \<Rightarrow> workflow_flow_node list" where
  "authored_nested n = wfChildren n @ option_list (wfBody n) @ option_list (wfCleanup n) @
     map armFlow (wfArms n) @ map itemFlow (wfItems n)"

lemma size_authored [simp]: "c \<in> set (authored_nested n) \<Longrightarrow> size c < size n"
  by (auto simp: authored_nested_def option_list_def split: option.splits)

function authored_results :: "workflow_flow_node \<Rightarrow> string list" where
  "authored_results n =
     (case wfEffect n of
        Some e \<Rightarrow> if wfKind n = ''effect'' \<and> wsResultIdentity e \<noteq> '''' then [wsResultIdentity e] else []
      | None \<Rightarrow> []) @ concat (map authored_results (authored_nested n))"
  by pat_completeness auto
termination by (relation "measure size") auto

declare authored_results.simps [simp del]

definition collectAuthoredEffects :: "workflow_flow_node \<Rightarrow> (string \<rightharpoonup> nat)" where
  "collectAuthoredEffects n =
     foldl (\<lambda>m i. m(i \<mapsto> zget 0 m i + 1)) Map.empty (authored_results n)"

end
