(* ===== verification/Workflow_Compile.thy ===== *)
theory Workflow_Compile
  imports Workflow_Build
begin

text \<open>
  The compilation itself: effects, the authoring nodes case by case, the recursion that ties
  them together, and \<open>BuildFlow\<close> and \<open>BuildFlowFromPlan\<close>.  A compile function returns the error
  text or the identity to continue at and the builder.
\<close>

type_synonym compiled = "string + (string \<times> builder)"

type_synonym compiler = "workflow_flow_node \<Rightarrow> string \<Rightarrow> builder \<Rightarrow> compiled"

definition errorsForFlowNode :: "string \<Rightarrow> string \<Rightarrow> string" where
  "errorsForFlowNode kind message =
     ''TSPACK_WORKFLOW_FLOW_NODE_INVALID: '' @ kind @ '': '' @ message"

section \<open>Effects\<close>

definition cleanup_result :: "plan_step \<Rightarrow> builder \<Rightarrow> plan_step" where
  "cleanup_result s b =
     (if bCause b \<noteq> TerminalNone \<and> psResultIdentity s \<noteq> ''''
      then s\<lparr>psResultIdentity := psResultIdentity s @ ''/cleanup/'' @ terminal_string (bCause b)
             @ ''/'' @ pad_nat 3 (bNext b + 1)\<rparr>
      else s)"

text \<open>The step as the placed node holds it.\<close>

definition placed_step :: "plan_step \<Rightarrow> string \<Rightarrow> builder \<Rightarrow> plan_step" where
  "placed_step s identity b =
     (let inputs = normalizeInputs b (psInputs s) in
      s\<lparr>psIdentity := identity,
        psResultIdentity := (if psResultIdentity s = '''' then trim_prefix identity ''node/''
                             else psResultIdentity s),
        psInputs := inputs,
        psTransferSourceRegion :=
          (if psOperation s = ''transfer'' \<and> length inputs = 1
           then valueRegion b (vrSource (hd inputs)) else psTransferSourceRegion s)\<rparr>)"

definition effect_transitions :: "string \<Rightarrow> string \<Rightarrow> bool \<Rightarrow> builder \<Rightarrow> builder" where
  "effect_transitions identity continuation matched b =
     addTransition identity MachineTimeout (if matched then continuation else bTimeout b)
     (addTransition identity MachineCancelRequested (if matched then continuation else bCancel b)
     (addTransition identity MachineEffectFailed (if matched then continuation else bFailure b)
     (addTransition identity MachineEffectSucceeded continuation b)))"

definition add_projections :: "value_ref list \<Rightarrow> builder \<Rightarrow> builder" where
  "add_projections inputs b =
     foldl (\<lambda>b r. if vrIdentity r = vrSource r then b else addProjection r b) b inputs"

text \<open>The value the effect produces, and the projections its inputs read.\<close>

definition register_effect :: "plan_step \<Rightarrow> string \<Rightarrow> string \<Rightarrow> string \<Rightarrow> builder \<Rightarrow> builder" where
  "register_effect step identity region value b =
     (let original = trim_prefix (psResultIdentity step) ''value/'';
          b1 = (if original \<noteq> '''' then b\<lparr>bEffects := (bEffects b)(original \<mapsto> identity)\<rparr> else b);
          b2 = append_value (value_of_ref
                 \<lparr>vrIdentity = value, vrSource = value, vrResultType = psOperation step, vrFieldPath = [],
                  vrCategory = ValueRegionLocal, vrAggregate = '''', vrIndex = None\<rparr>
                 identity region (psOperation step = ''transfer'')) b1
      in add_projections (psInputs step) b2)"

definition place_effect :: "plan_step \<Rightarrow> string \<Rightarrow> builder \<Rightarrow> string \<times> builder" where
  "place_effect s continuation b =
     (let (identity, b1) = addNode (psOperation s) NodeEffect b;
          region = (if psOperation s = ''transfer'' then ''region/'' @ psTransferTarget s else bRegion b);
          b2 = (if psOperation s = ''transfer'' then addRegion region (psTransferTarget s) [] b1 else b1);
          step = placed_step s identity b2;
          value = valueIdentity b2 (psResultIdentity step);
          b3 = on_node identity (\<lambda>n. n\<lparr>nodeRegion := region, nodeBranch := bBranch b,
                 nodeEffect := Some step, nodeCleanup := bCause b \<noteq> TerminalNone,
                 nodeCleanupCause := bCause b, nodeValue := value\<rparr>) b2;
          b4 = register_effect step identity region value b3
      in (identity, effect_transitions identity continuation
            (zget '''' (bMatch b4) (psResultIdentity step) \<noteq> '''') b4))"

definition compileEffect :: "plan_step \<Rightarrow> string \<Rightarrow> builder \<Rightarrow> string \<times> builder" where
  "compileEffect step continuation b =
     (let s = cleanup_result step b in
      if psResultIdentity s \<noteq> '''' \<and> psResultIdentity s \<in> dom (bEffects b) then (continuation, b)
      else place_effect s continuation b)"

section \<open>Lists of authoring nodes\<close>

text \<open>Children from the last to the first, each continuing at the one after it.\<close>

fun compile_back :: "compiler \<Rightarrow> workflow_flow_node list \<Rightarrow> string \<Rightarrow> builder \<Rightarrow> compiled" where
  "compile_back rec [] next b = Inr (next, b)"
| "compile_back rec (c # cs) next b =
     (case rec c next b of Inl e \<Rightarrow> Inl e | Inr (entry, b') \<Rightarrow> compile_back rec cs entry b')"

lemma compile_back_cong [fundef_cong]:
  "cs = cs' \<Longrightarrow> k = k' \<Longrightarrow> b = b' \<Longrightarrow> (\<And>c x y. c \<in> set cs' \<Longrightarrow> rec c x y = rec' c x y) \<Longrightarrow>
    compile_back rec cs k b = compile_back rec' cs' k' b'"
  by (induction cs' arbitrary: cs k k' b b') (auto split: sum.splits)

definition compile_sequence :: "compiler \<Rightarrow> workflow_flow_node \<Rightarrow> string \<Rightarrow> builder \<Rightarrow> compiled" where
  "compile_sequence rec node continuation b =
     (let b1 = (if wfKind node = ''branch'' then b\<lparr>bBranch := wfIdentity node\<rparr> else b) in
      case compile_back rec (rev (wfChildren node)) continuation b1 of
        Inl e \<Rightarrow> Inl e
      | Inr (next, b2) \<Rightarrow> Inr (next, b2\<lparr>bBranch := bBranch b\<rparr>))"

fun compile_branches ::
  "compiler \<Rightarrow> string \<Rightarrow> string \<Rightarrow> workflow_flow_node list \<Rightarrow> builder \<Rightarrow> string + builder" where
  "compile_branches rec fork join [] b = Inr b"
| "compile_branches rec fork join (c # cs) b =
     (let (exit, b1) = addNode (''branch-'' @ wfIdentity c @ ''-exit'') NodeBranchExit b;
          b2 = on_node exit (\<lambda>n. n\<lparr>nodeBranch := wfIdentity c\<rparr>) b1 in
      case rec c exit b2 of
        Inl e \<Rightarrow> Inl e
      | Inr (entry, b3) \<Rightarrow>
          compile_branches rec fork join cs
            (on_node join (\<lambda>n. n\<lparr>nodeWaitFor := nodeWaitFor n @ [exit]\<rparr>)
              (on_node fork (\<lambda>n. n\<lparr>nodeTargets := nodeTargets n @ [entry]\<rparr>) b3)))"

lemma compile_branches_cong [fundef_cong]:
  "fk = fk' \<Longrightarrow> jn = jn' \<Longrightarrow> cs = cs' \<Longrightarrow> b = b' \<Longrightarrow>
    (\<And>c x y. c \<in> set cs' \<Longrightarrow> rec c x y = rec' c x y) \<Longrightarrow>
    compile_branches rec fk jn cs b = compile_branches rec' fk' jn' cs' b'"
  by (induction cs' arbitrary: cs b b') (auto simp: Let_def split: sum.splits prod.splits)

definition compile_parallel :: "compiler \<Rightarrow> workflow_flow_node \<Rightarrow> string \<Rightarrow> builder \<Rightarrow> compiled" where
  "compile_parallel rec node continuation b =
     (let (join, b1) = addNode ''join'' NodeJoin b;
          b2 = addTransition join MachineContinue continuation b1;
          (fork, b3) = addNode ''fork'' NodeFork b2 in
      case compile_branches rec fork join (wfChildren node) b3 of
        Inl e \<Rightarrow> Inl e
      | Inr b4 \<Rightarrow> Inr (fork, on_node fork (\<lambda>n. n\<lparr>nodeTargets := nodeTargets n @ [join]\<rparr>) b4))"

definition compile_region :: "compiler \<Rightarrow> workflow_flow_node \<Rightarrow> string \<Rightarrow> builder \<Rightarrow> compiled" where
  "compile_region rec node continuation b =
     (let (region, b1) = addNode ''region'' NodeEntry b;
          identity = (if wfEnv node \<noteq> [] then ''region/'' @ trim_prefix region ''node/''
                      else ''region/'' @ wfRunsOn node);
          b2 = addRegion identity (wfRunsOn node) (normalizeEnvironment (wfEnv node)) b1 in
      case compile_back rec (rev (wfChildren node)) continuation (b2\<lparr>bRegion := identity\<rparr>) of
        Inl e \<Rightarrow> Inl e
      | Inr (next, b3) \<Rightarrow>
          Inr (region, addTransition region MachineContinue next (b3\<lparr>bRegion := bRegion b\<rparr>)))"

section \<open>MatchResult\<close>

fun compile_arms ::
  "compiler \<Rightarrow> string \<Rightarrow> string \<Rightarrow> workflow_match_arm list \<Rightarrow> string list \<Rightarrow> builder \<Rightarrow>
   string + (string list \<times> builder)" where
  "compile_arms rec match continuation [] seen b = Inr (seen, b)"
| "compile_arms rec match continuation (a # as) seen b =
     (if armKind a \<in> set seen
      then Inl (''TSPACK_WORKFLOW_MATCH_KIND_DUPLICATE: MatchResult repeats '' @ armKind a)
      else (case rec (armFlow a) continuation b of
              Inl e \<Rightarrow> Inl e
            | Inr (entry, b') \<Rightarrow>
                compile_arms rec match continuation as (armKind a # seen)
                  (addTransitionGuard match MachineContinue (armKind a) entry b')))"

lemma compile_arms_cong [fundef_cong]:
  "m = m' \<Longrightarrow> k = k' \<Longrightarrow> as = as' \<Longrightarrow> seen = seen' \<Longrightarrow> b = b' \<Longrightarrow>
    (\<And>a x y. a \<in> set as' \<Longrightarrow> rec (armFlow a) x y = rec' (armFlow a) x y) \<Longrightarrow>
    compile_arms rec m k as seen b = compile_arms rec' m' k' as' seen' b'"
  by (induction as' arbitrary: as seen seen' b b') (auto split: sum.splits)

definition match_projection :: "builder \<Rightarrow> workflow_value_ref \<Rightarrow> aggregate_element_projection option" where
  "match_projection b src =
     (case wvrIndex src of
        Some k \<Rightarrow>
          if wvrAggregate src \<noteq> ''''
          then Some \<lparr>apAggregate = valueIdentity b (wvrAggregate src), apIndex = k,
                     apValue = valueIdentity b (wvrSource src)\<rparr>
          else None
      | None \<Rightarrow> None)"

definition compile_match :: "compiler \<Rightarrow> workflow_flow_node \<Rightarrow> string \<Rightarrow> builder \<Rightarrow> compiled" where
  "compile_match rec node continuation b =
     (case (wfSource node, wfEffect node) of
        (Some src, Some effect) \<Rightarrow>
          (let (match, b1) = addNode (''match-'' @ wvrResultType src) NodeMatch b;
               b2 = on_node match (\<lambda>n. n\<lparr>nodeSource := valueIdentity b1 (wvrSource src),
                      nodeProjection := match_projection b1 src\<rparr>) b1 in
           case compile_arms rec match continuation (wfArms node) [] b2 of
             Inl e \<Rightarrow> Inl e
           | Inr (seen, b3) \<Rightarrow>
               (case find (\<lambda>k. k \<notin> set seen) outcome_names of
                  Some k \<Rightarrow> Inl (''TSPACK_WORKFLOW_MATCH_NON_EXHAUSTIVE: MatchResult is missing '' @ k)
                | None \<Rightarrow>
                    (let b4 = b3\<lparr>bMatch := (bMatch b3)(wsResultIdentity effect \<mapsto> match)\<rparr> in
                     if zget 0 (bAuthored b4) (wsResultIdentity effect) > 0 then Inr (match, b4)
                     else Inr (compileEffect (planStepFromManifest effect (bNext b4 + 1) ''flow'') match b4))))
      | _ \<Rightarrow> Inl (errorsForFlowNode (wfKind node) ''source effect and result reference are required''))"

section \<open>Finally\<close>

definition compileCleanup ::
  "compiler \<Rightarrow> workflow_flow_node \<Rightarrow> string \<Rightarrow> terminal_kind \<Rightarrow> builder \<Rightarrow> compiled" where
  "compileCleanup rec node continuation cause b =
     (let ts = flowTerminals (bFlow b);
          b1 = b\<lparr>bFailure := ftFailed ts, bCancel := ftCancelled ts,
                 bTimeout := (if cause \<noteq> TerminalSucceeded then ftFailed ts else ftTimedOut ts),
                 bCause := cause\<rparr> in
      case rec node continuation b1 of
        Inl e \<Rightarrow> Inl e
      | Inr (entry, b2) \<Rightarrow>
          Inr (entry, b2\<lparr>bFailure := bFailure b, bCancel := bCancel b, bTimeout := bTimeout b,
                        bCause := bCause b\<rparr>))"

definition compile_finally :: "compiler \<Rightarrow> workflow_flow_node \<Rightarrow> string \<Rightarrow> builder \<Rightarrow> compiled" where
  "compile_finally rec node continuation b =
     (case (wfBody node, wfCleanup node) of
        (Some body, Some cleanup) \<Rightarrow>
          if bFinally b \<ge> DefaultFinallyNestingLimit
          then Inl (''TSPACK_WORKFLOW_FINALLY_LIMIT_EXCEEDED: Finally nesting exceeds ''
                    @ nat_string DefaultFinallyNestingLimit)
          else
            (case compileCleanup rec cleanup continuation TerminalSucceeded (b\<lparr>bFinally := bFinally b + 1\<rparr>) of
               Inl e \<Rightarrow> Inl e
             | Inr (onSuccess, b1) \<Rightarrow>
            (case compileCleanup rec cleanup (bFailure b) TerminalFailed b1 of
               Inl e \<Rightarrow> Inl e
             | Inr (onFailure, b2) \<Rightarrow>
            (case compileCleanup rec cleanup (bCancel b) TerminalCancelled b2 of
               Inl e \<Rightarrow> Inl e
             | Inr (onCancel, b3) \<Rightarrow>
            (case compileCleanup rec cleanup (bTimeout b) TerminalTimedOut b3 of
               Inl e \<Rightarrow> Inl e
             | Inr (onTimeout, b4) \<Rightarrow>
            (case rec body onSuccess (b4\<lparr>bFailure := onFailure, bCancel := onCancel,
                                         bTimeout := onTimeout\<rparr>) of
               Inl e \<Rightarrow> Inl e
             | Inr (entry, b5) \<Rightarrow>
                 Inr (entry, b5\<lparr>bFailure := bFailure b4, bCancel := bCancel b4,
                               bTimeout := bTimeout b4, bFinally := bFinally b5 - 1\<rparr>))))))
      | _ \<Rightarrow> Inl (errorsForFlowNode (wfKind node) ''body and cleanup are required''))"

section \<open>When\<close>

definition compile_when :: "compiler \<Rightarrow> workflow_flow_node \<Rightarrow> string \<Rightarrow> builder \<Rightarrow> compiled" where
  "compile_when rec node continuation b =
     (case (wfPredicate node, wfThen node) of
        (Some p, Some thenNode) \<Rightarrow>
          (let (predicate, b1) = normalizePredicate (predicateFromManifest p) b in
           case (case wfElse node of None \<Rightarrow> Inr (continuation, b1)
                 | Some elseNode \<Rightarrow> rec elseNode continuation b1) of
             Inl e \<Rightarrow> Inl e
           | Inr (falseEntry, b2) \<Rightarrow>
               (case rec thenNode continuation b2 of
                  Inl e \<Rightarrow> Inl e
                | Inr (trueEntry, b3) \<Rightarrow>
                    (let (condition, b4) = addNode ''when'' NodePredicate b3;
                         b5 = on_node condition (\<lambda>n. n\<lparr>nodePredicate := Some predicate\<rparr>) b4 in
                     Inr (condition,
                       addTransitionGuard condition MachineContinue ''false'' falseEntry
                         (addTransitionGuard condition MachineContinue ''true'' trueEntry b5)))))
      | _ \<Rightarrow> Inl (errorsForFlowNode (wfKind node) ''predicate and true branch are required''))"

section \<open>ForEach\<close>

lemma size_only_child: "wfChildren n = [c] \<Longrightarrow> size c < size n"
  using size_child [of c n] by simp

function singleTypedEffect :: "workflow_flow_node \<Rightarrow> (string \<times> string) option" where
  "singleTypedEffect node =
     (case wfEffect node of
        Some e \<Rightarrow>
          if wfKind node = ''effect'' \<and> wsResultIdentity e \<noteq> ''''
             \<and> wsOperation e \<in> {''build'', ''test'', ''audit''}
          then Some (wsResultIdentity e, wsOperation e)
          else (case wfChildren node of
                  [c] \<Rightarrow> if wfKind node = ''region'' then singleTypedEffect c else None
                | _ \<Rightarrow> None)
      | None \<Rightarrow>
          (case wfChildren node of
             [c] \<Rightarrow> if wfKind node = ''region'' then singleTypedEffect c else None
           | _ \<Rightarrow> None))"
  by pat_completeness auto
termination by (relation "measure size") (auto simp: size_only_child)

declare singleTypedEffect.simps [simp del]

text \<open>
  The elements of an aggregate without an authored reference: None where an item is no single
  typed effect (the code then returns the aggregate as far as it got, not recorded), \<open>Inl\<close> where
  the result types differ.  The type and the elements so far are returned.
\<close>

fun infer_elements ::
  "builder \<Rightarrow> workflow_for_each_item list \<Rightarrow> string \<times> string list \<Rightarrow>
   string + (string \<times> string list) option" where
  "infer_elements b [] acc = Inr (Some acc)"
| "infer_elements b (i # is) acc =
     (case singleTypedEffect (itemFlow i) of
        None \<Rightarrow> Inr None
      | Some (identity, resultType) \<Rightarrow>
          (let ty = (if fst acc = '''' then resultType else fst acc) in
           if ty \<noteq> resultType
           then Inl (errorsForFlowNode ''forEach'' ''aggregate elements must have one result type'')
           else infer_elements b is (ty, snd acc @ [valueIdentity b identity])))"

definition append_aggregate :: "aggregate_definition \<Rightarrow> builder \<Rightarrow> builder" where
  "append_aggregate a b = b\<lparr>bFlow := (bFlow b)\<lparr>flowAggregates := flowAggregates (bFlow b) @ [a]\<rparr>\<rparr>"

definition record_aggregate ::
  "workflow_flow_node \<Rightarrow> aggregate_definition \<Rightarrow> builder \<Rightarrow> builder" where
  "record_aggregate node a b =
     (if length (adElements a) = length (wfItems node)
      then append_aggregate
             (if adFailurePolicy a = ''collectAll''
              then a\<lparr>adResultType := ''iterationOutcome<'' @ adResultType a @ ''>''\<rparr> else a) b
      else b)"

text \<open>The result is the identity of the aggregate, all that \<open>compileForEach\<close> uses of it.\<close>

definition addForEachAggregate ::
  "workflow_flow_node \<Rightarrow> string \<Rightarrow> int \<Rightarrow> string \<Rightarrow> builder \<Rightarrow> compiled" where
  "addForEachAggregate node mode concurrency policy b =
     (let a = \<lparr>adIdentity = valueIdentity b (''aggregate/'' @ wfIdentity node), adResultType = '''',
               adElements = [], adMode = mode, adConcurrency = concurrency, adFailurePolicy = policy,
               adComplete = (policy = ''collectAll'')\<rparr> in
      case wfAggregate node of
        Some r \<Rightarrow>
          (let a' = a\<lparr>adIdentity := valueIdentity b (warIdentity r), adResultType := warResultType r,
                     adElements := map (valueIdentity b) (warElements r)\<rparr>
           in Inr (adIdentity a', record_aggregate node a' b))
      | None \<Rightarrow>
          (case infer_elements b (wfItems node) ('''', []) of
             Inl e \<Rightarrow> Inl e
           | Inr None \<Rightarrow> Inr (adIdentity a, b)
           | Inr (Some (ty, es)) \<Rightarrow>
               Inr (adIdentity a, record_aggregate node (a\<lparr>adResultType := ty, adElements := es\<rparr>) b)))"

record for_each_plan =
  fepMode :: string
  fepConcurrency :: int
  fepPolicy :: string
  fepAggregate :: string

definition item_source :: "builder \<Rightarrow> workflow_iteration_value \<Rightarrow> value_ref option" where
  "item_source b v = map_option (\<lambda>r. normalize_input b (value_ref_of r)) (wivSource v)"

definition item_cursor ::
  "workflow_flow_node \<Rightarrow> workflow_for_each_item \<Rightarrow> for_each_plan \<Rightarrow> string \<Rightarrow> builder \<Rightarrow> iterator_cursor" where
  "item_cursor node item fp path b =
     (let source = item_source b (itemValue item) in
      \<lparr>icSourceIdentity = wfIdentity node, icIndex = itemIndex item, icCount = length (wfItems node),
       icBinding = valueIdentity b (''foreach/'' @ path),
       icValue = \<lparr>ivKind = wivKind (itemValue item), ivString = wivString (itemValue item),
                  ivNumber = wivNumber (itemValue item), ivBoolean = wivBoolean (itemValue item),
                  ivSource = source\<rparr>,
       icMode = fepMode fp, icFailurePolicy = fepPolicy fp, icConcurrency = fepConcurrency fp,
       icAggregate = fepAggregate fp,
       icSourceAggregate = (case source of None \<Rightarrow> '''' | Some r \<Rightarrow> vrAggregate r),
       icElementIdentity = (case source of None \<Rightarrow> '''' | Some r \<Rightarrow> vrSource r),
       icPath = path\<rparr>)"

definition item_segment :: "workflow_flow_node \<Rightarrow> workflow_for_each_item \<Rightarrow> string" where
  "item_segment node item = wfIdentity node @ ''['' @ int_string (itemIndex item) @ '']''"

definition place_cursor ::
  "workflow_flow_node \<Rightarrow> workflow_for_each_item \<Rightarrow> for_each_plan \<Rightarrow> string \<Rightarrow> builder \<Rightarrow> string \<times> builder" where
  "place_cursor node item fp entry b =
     (let (cursor, b1) = addNode (''foreach-'' @ wfIdentity node @ ''-'' @ pad_int 3 (itemIndex item)) NodeIterator b;
          path = join_strings (bPath b1 @ [item_segment node item]) ''/'';
          c = item_cursor node item fp path b1;
          b2 = on_node cursor (\<lambda>n. n\<lparr>nodeIterator := Some c\<rparr>) b1;
          category = (if wivKind (itemValue item) = ''platform'' then ValuePlacement else ValueControl);
          b3 = append_value (value_of_ref
                 \<lparr>vrIdentity = icBinding c, vrSource = icBinding c, vrResultType = ''iterationBinding'',
                  vrFieldPath = [], vrCategory = category, vrAggregate = '''', vrIndex = None\<rparr>
                 cursor (bRegion b2) False) b2
      in (cursor, addTransition cursor MachineContinue entry b3))"

definition compileForEachItem ::
  "compiler \<Rightarrow> workflow_flow_node \<Rightarrow> for_each_plan \<Rightarrow> workflow_for_each_item \<Rightarrow> string \<Rightarrow> builder \<Rightarrow> compiled" where
  "compileForEachItem rec node fp item continuation b =
     (let b1 = (if fepPolicy fp = ''collectAll''
                then b\<lparr>bFailure := continuation, bCancel := continuation, bTimeout := continuation\<rparr>
                else b);
          b2 = b1\<lparr>bPath := bPath b1 @ [item_segment node item]\<rparr> in
      case rec (itemFlow item) continuation b2 of
        Inl e \<Rightarrow> Inl e
      | Inr (entry, b3) \<Rightarrow>
          Inr (place_cursor node item fp entry
            (b3\<lparr>bPath := butlast (bPath b3), bFailure := bFailure b, bCancel := bCancel b,
               bTimeout := bTimeout b\<rparr>)))"

fun for_each_back ::
  "compiler \<Rightarrow> workflow_flow_node \<Rightarrow> for_each_plan \<Rightarrow> workflow_for_each_item list \<Rightarrow> string \<Rightarrow> builder \<Rightarrow> compiled" where
  "for_each_back rec node fp [] next b = Inr (next, b)"
| "for_each_back rec node fp (i # is) next b =
     (case compileForEachItem rec node fp i next b of
        Inl e \<Rightarrow> Inl e
      | Inr (entry, b') \<Rightarrow> for_each_back rec node fp is entry b')"

fun for_each_exits ::
  "string \<Rightarrow> workflow_flow_node \<Rightarrow> workflow_for_each_item list \<Rightarrow> builder \<Rightarrow> string list \<times> builder" where
  "for_each_exits join node [] b = ([], b)"
| "for_each_exits join node (i # is) b =
     (let (exit, b1) = addNode (''foreach-'' @ wfIdentity node @ ''-'' @ pad_int 3 (itemIndex i) @ ''-exit'')
                         NodeBranchExit b;
          b2 = on_node join (\<lambda>n. n\<lparr>nodeWaitFor := nodeWaitFor n @ [exit]\<rparr>) b1;
          (exits, b3) = for_each_exits join node is b2
      in (exit # exits, b3))"

fun for_each_entries ::
  "compiler \<Rightarrow> workflow_flow_node \<Rightarrow> for_each_plan \<Rightarrow> (workflow_for_each_item \<times> string) list \<Rightarrow> builder \<Rightarrow>
   string + (string list \<times> builder)" where
  "for_each_entries rec node fp [] b = Inr ([], b)"
| "for_each_entries rec node fp ((i, exit) # is) b =
     (case compileForEachItem rec node fp i exit b of
        Inl e \<Rightarrow> Inl e
      | Inr (entry, b') \<Rightarrow>
          (case for_each_entries rec node fp is b' of
             Inl e \<Rightarrow> Inl e
           | Inr (entries, b'') \<Rightarrow> Inr (entry # entries, b'')))"

text \<open>The concurrency window: the exit of item \<open>k\<close> continues at item \<open>k + concurrency\<close>.\<close>

definition window_transitions :: "string list \<Rightarrow> string list \<Rightarrow> nat \<Rightarrow> builder \<Rightarrow> builder" where
  "window_transitions exits entries width b =
     foldl (\<lambda>b (exit, next). addTransition exit MachineContinue next b) b
       (zip exits (drop width entries))"

lemma compileForEachItem_cong [fundef_cong]:
  "node = node' \<Longrightarrow> fp = fp' \<Longrightarrow> i = i' \<Longrightarrow> k = k' \<Longrightarrow> b = b' \<Longrightarrow>
    (\<And>x y. rec (itemFlow i') x y = rec' (itemFlow i') x y) \<Longrightarrow>
    compileForEachItem rec node fp i k b = compileForEachItem rec' node' fp' i' k' b'"
  by (simp add: compileForEachItem_def Let_def)

lemma for_each_back_cong [fundef_cong]:
  "node = node' \<Longrightarrow> fp = fp' \<Longrightarrow> is = is' \<Longrightarrow> k = k' \<Longrightarrow> b = b' \<Longrightarrow>
    (\<And>i x y. i \<in> set is' \<Longrightarrow> rec (itemFlow i) x y = rec' (itemFlow i) x y) \<Longrightarrow>
    for_each_back rec node fp is k b = for_each_back rec' node' fp' is' k' b'"
proof (induction is' arbitrary: "is" k k' b b')
  case (Cons i is')
  have "compileForEachItem rec node' fp' i k' b' = compileForEachItem rec' node' fp' i k' b'"
    using Cons.prems by (intro compileForEachItem_cong) auto
  with Cons show ?case by (auto split: sum.splits)
qed simp

lemma for_each_entries_cong [fundef_cong]:
  "node = node' \<Longrightarrow> fp = fp' \<Longrightarrow> is = is' \<Longrightarrow> b = b' \<Longrightarrow>
    (\<And>i e x y. (i, e) \<in> set is' \<Longrightarrow> rec (itemFlow i) x y = rec' (itemFlow i) x y) \<Longrightarrow>
    for_each_entries rec node fp is b = for_each_entries rec' node' fp' is' b'"
proof (induction is' arbitrary: "is" b b')
  case (Cons i is')
  obtain j e where i: "i = (j, e)" by (cases i)
  have "compileForEachItem rec node' fp' j e b' = compileForEachItem rec' node' fp' j e b'"
    using Cons.prems i by (intro compileForEachItem_cong) auto
  moreover have "for_each_entries rec node fp is' x = for_each_entries rec' node' fp' is' x" for x
    by (rule Cons.IH) (use Cons.prems in auto)
  ultimately show ?case using Cons.prems(1-4) i by (auto split: sum.splits)
qed simp

definition for_each_mode :: "workflow_flow_node \<Rightarrow> string" where
  "for_each_mode node = (if wfMode node = '''' then ''sequential'' else wfMode node)"

definition for_each_policy :: "workflow_flow_node \<Rightarrow> string" where
  "for_each_policy node = (if wfFailurePolicy node = '''' then ''failFast'' else wfFailurePolicy node)"

definition for_each_concurrency :: "workflow_flow_node \<Rightarrow> int" where
  "for_each_concurrency node =
     (if for_each_mode node \<noteq> ''parallel'' then 1
      else if wfConcurrency node = 0 then DefaultForEachConcurrency else wfConcurrency node)"

text \<open>The guards of \<open>compileForEach\<close>, the first that fails.\<close>

definition for_each_error :: "workflow_flow_node \<Rightarrow> builder \<Rightarrow> string option" where
  "for_each_error node b =
     (if wfItems node = [] \<or> length (wfItems node) > DefaultForEachLimit
      then Some (''TSPACK_WORKFLOW_FOREACH_LIMIT_INVALID: ForEach '' @ wfIdentity node
        @ '' requires 1..'' @ nat_string DefaultForEachLimit @ '' finite items'')
      else if for_each_mode node \<noteq> ''sequential'' \<and> for_each_mode node \<noteq> ''parallel''
      then Some (''TSPACK_WORKFLOW_FOREACH_MODE_INVALID: ForEach '' @ wfIdentity node
        @ '' mode must be sequential or parallel'')
      else if bForEach b > 0 \<and> for_each_mode node = ''parallel''
      then Some (''TSPACK_WORKFLOW_NESTED_PARALLEL_UNSUPPORTED: nested ParallelForEach requires an ''
        @ ''explicit non-multiplicative concurrency law'')
      else if for_each_policy node \<noteq> ''failFast'' \<and> for_each_policy node \<noteq> ''collectAll''
      then Some (''TSPACK_WORKFLOW_FOREACH_FAILURE_POLICY_INVALID: ForEach '' @ wfIdentity node
        @ '' failure policy must be failFast or collectAll'')
      else if for_each_mode node = ''parallel''
         \<and> (for_each_concurrency node < 1 \<or> for_each_concurrency node > MaxForEachConcurrency)
      then Some (''TSPACK_WORKFLOW_FOREACH_CONCURRENCY_INVALID: ForEach '' @ wfIdentity node
        @ '' concurrency must be 1..'' @ int_string MaxForEachConcurrency)
      else None)"

definition for_each_parallel ::
  "compiler \<Rightarrow> workflow_flow_node \<Rightarrow> for_each_plan \<Rightarrow> string \<Rightarrow> builder \<Rightarrow> compiled" where
  "for_each_parallel rec node fp continuation b =
     (let (join, b1) = addNode (''foreach-'' @ wfIdentity node @ ''-join'') NodeJoin b;
          b2 = addTransition join MachineContinue continuation b1;
          (fork, b3) = addNode (''foreach-'' @ wfIdentity node @ ''-fork'') NodeFork b2;
          (exits, b4) = for_each_exits join node (wfItems node) b3 in
      case for_each_entries rec node fp (zip (wfItems node) exits) b4 of
        Inl e \<Rightarrow> Inl e
      | Inr (entries, b5) \<Rightarrow>
          (let width = nat (fepConcurrency fp);
               b6 = window_transitions exits entries width b5 in
           Inr (fork, on_node fork (\<lambda>n. n\<lparr>nodeTargets := nodeTargets n @ take width entries @ [join]\<rparr>) b6)))"

definition compileForEach :: "compiler \<Rightarrow> workflow_flow_node \<Rightarrow> string \<Rightarrow> builder \<Rightarrow> compiled" where
  "compileForEach rec node continuation b =
     (case for_each_error node b of
        Some e \<Rightarrow> Inl e
      | None \<Rightarrow>
          (case addForEachAggregate node (for_each_mode node) (for_each_concurrency node)
                  (for_each_policy node) b of
             Inl e \<Rightarrow> Inl e
           | Inr (aggregate, b1) \<Rightarrow>
               (let fp = \<lparr>fepMode = for_each_mode node, fepConcurrency = for_each_concurrency node,
                          fepPolicy = for_each_policy node, fepAggregate = aggregate\<rparr>;
                    b2 = b1\<lparr>bForEach := bForEach b1 + 1\<rparr> in
                case (if for_each_mode node = ''sequential''
                      then for_each_back rec node fp (rev (wfItems node)) continuation b2
                      else for_each_parallel rec node fp continuation b2) of
                  Inl e \<Rightarrow> Inl e
                | Inr (entry, b3) \<Rightarrow> Inr (entry, b3\<lparr>bForEach := bForEach b3 - 1\<rparr>))))"

section \<open>The recursion\<close>

lemma compile_node_congs:
  assumes "\<And>c x y. size c < size node \<Longrightarrow> rec c x y = rec' c x y"
  shows "compile_sequence rec node k b = compile_sequence rec' node k b"
    and "compile_parallel rec node k b = compile_parallel rec' node k b"
    and "compile_region rec node k b = compile_region rec' node k b"
    and "compile_match rec node k b = compile_match rec' node k b"
    and "compile_finally rec node k b = compile_finally rec' node k b"
    and "compile_when rec node k b = compile_when rec' node k b"
    and "compileForEach rec node k b = compileForEach rec' node k b"
proof -
  have children: "compile_back rec (rev (wfChildren node)) k b = compile_back rec' (rev (wfChildren node)) k b"
    for k b by (intro compile_back_cong refl assms) auto
  have branches: "compile_branches rec fk jn (wfChildren node) b = compile_branches rec' fk jn (wfChildren node) b"
    for fk jn b by (intro compile_branches_cong refl assms) auto
  have arms: "compile_arms rec m k (wfArms node) s b = compile_arms rec' m k (wfArms node) s b"
    for m k s b by (intro compile_arms_cong refl assms) auto
  have items: "for_each_back rec node fp (rev (wfItems node)) k b
      = for_each_back rec' node fp (rev (wfItems node)) k b" for fp k b
    by (intro for_each_back_cong refl assms) auto
  have entries: "for_each_entries rec node fp (zip (wfItems node) exits) b
      = for_each_entries rec' node fp (zip (wfItems node) exits) b" for fp exits b
    by (intro for_each_entries_cong refl assms) (auto dest: set_zip_leftD)
  have cleanup: "compileCleanup rec c k cause b = compileCleanup rec' c k cause b"
    if "size c < size node" for c k cause b
    using assms [OF that] by (simp add: compileCleanup_def Let_def)
  show "compile_sequence rec node k b = compile_sequence rec' node k b"
    by (simp add: compile_sequence_def children)
  show "compile_parallel rec node k b = compile_parallel rec' node k b"
    by (simp add: compile_parallel_def branches)
  show "compile_region rec node k b = compile_region rec' node k b"
    by (simp add: compile_region_def children)
  show "compile_match rec node k b = compile_match rec' node k b"
    by (cases "wfSource node"; cases "wfEffect node") (simp_all add: compile_match_def arms)
  show "compile_finally rec node k b = compile_finally rec' node k b"
    by (cases "wfBody node"; cases "wfCleanup node")
      (simp_all add: compile_finally_def cleanup assms cong: sum.case_cong prod.case_cong if_cong)
  show "compile_when rec node k b = compile_when rec' node k b"
    by (cases "wfPredicate node"; cases "wfThen node"; cases "wfElse node")
      (simp_all add: compile_when_def assms cong: sum.case_cong prod.case_cong if_cong)
  show "compileForEach rec node k b = compileForEach rec' node k b"
    by (cases "for_each_error node b")
      (simp_all add: compileForEach_def for_each_parallel_def items entries Let_def
        cong: if_cong sum.case_cong prod.case_cong)
qed

lemma compile_sequence_cong [fundef_cong]:
  "node = node' \<Longrightarrow> k = k' \<Longrightarrow> b = b' \<Longrightarrow> (\<And>c x y. size c < size node' \<Longrightarrow> rec c x y = rec' c x y) \<Longrightarrow>
    compile_sequence rec node k b = compile_sequence rec' node' k' b'"
  using compile_node_congs(1) [of node'] by blast

lemma compile_parallel_cong [fundef_cong]:
  "node = node' \<Longrightarrow> k = k' \<Longrightarrow> b = b' \<Longrightarrow> (\<And>c x y. size c < size node' \<Longrightarrow> rec c x y = rec' c x y) \<Longrightarrow>
    compile_parallel rec node k b = compile_parallel rec' node' k' b'"
  using compile_node_congs(2) [of node'] by blast

lemma compile_region_cong [fundef_cong]:
  "node = node' \<Longrightarrow> k = k' \<Longrightarrow> b = b' \<Longrightarrow> (\<And>c x y. size c < size node' \<Longrightarrow> rec c x y = rec' c x y) \<Longrightarrow>
    compile_region rec node k b = compile_region rec' node' k' b'"
  using compile_node_congs(3) [of node'] by blast

lemma compile_match_cong [fundef_cong]:
  "node = node' \<Longrightarrow> k = k' \<Longrightarrow> b = b' \<Longrightarrow> (\<And>c x y. size c < size node' \<Longrightarrow> rec c x y = rec' c x y) \<Longrightarrow>
    compile_match rec node k b = compile_match rec' node' k' b'"
  using compile_node_congs(4) [of node'] by blast

lemma compile_finally_cong [fundef_cong]:
  "node = node' \<Longrightarrow> k = k' \<Longrightarrow> b = b' \<Longrightarrow> (\<And>c x y. size c < size node' \<Longrightarrow> rec c x y = rec' c x y) \<Longrightarrow>
    compile_finally rec node k b = compile_finally rec' node' k' b'"
  using compile_node_congs(5) [of node'] by blast

lemma compile_when_cong [fundef_cong]:
  "node = node' \<Longrightarrow> k = k' \<Longrightarrow> b = b' \<Longrightarrow> (\<And>c x y. size c < size node' \<Longrightarrow> rec c x y = rec' c x y) \<Longrightarrow>
    compile_when rec node k b = compile_when rec' node' k' b'"
  using compile_node_congs(6) [of node'] by blast

lemma compileForEach_cong [fundef_cong]:
  "node = node' \<Longrightarrow> k = k' \<Longrightarrow> b = b' \<Longrightarrow> (\<And>c x y. size c < size node' \<Longrightarrow> rec c x y = rec' c x y) \<Longrightarrow>
    compileForEach rec node k b = compileForEach rec' node' k' b'"
  using compile_node_congs(7) [of node'] by blast

function compileAuthoringNode :: "workflow_flow_node \<Rightarrow> string \<Rightarrow> builder \<Rightarrow> compiled" where
  "compileAuthoringNode node continuation b =
     (if wfKind node = ''effect'' then
        (case wfEffect node of
           None \<Rightarrow> Inl (errorsForFlowNode (wfKind node) ''effect is missing'')
         | Some e \<Rightarrow>
             Inr (compileEffect (planStepFromManifest e (bNext b + 1) ''flow'') continuation b))
      else if wfKind node = ''sequence'' \<or> wfKind node = ''branch''
        then compile_sequence compileAuthoringNode node continuation b
      else if wfKind node = ''parallel'' then compile_parallel compileAuthoringNode node continuation b
      else if wfKind node = ''region'' then compile_region compileAuthoringNode node continuation b
      else if wfKind node = ''match'' then compile_match compileAuthoringNode node continuation b
      else if wfKind node = ''finally'' then compile_finally compileAuthoringNode node continuation b
      else if wfKind node = ''forEach'' then compileForEach compileAuthoringNode node continuation b
      else if wfKind node = ''when'' then compile_when compileAuthoringNode node continuation b
      else Inl (errorsForFlowNode (wfKind node) ''unsupported authoring node''))"
  by pat_completeness auto
termination by (relation "measure (\<lambda>(node, k, b). size node)") simp_all

declare compileAuthoringNode.simps [simp del]

section \<open>BuildFlow\<close>

definition base_flow :: "string \<Rightarrow> trigger list \<Rightarrow> flow" where
  "base_flow identity triggers = \<lparr>
     flowSchemaVersion = FlowSchemaVersion, flowIdentity = identity, flowTriggers = triggers,
     flowEntry = ''entry'',
     flowTerminals = \<lparr>ftSucceeded = ''terminal/succeeded'', ftFailed = ''terminal/failed'',
       ftCancelled = ''terminal/cancelled'', ftTimedOut = ''terminal/timedOut''\<rparr>,
     flowRegions = [\<lparr>erIdentity = ''region/default'', erPlatform = ''currentHost'', erEnvironment = []\<rparr>],
     flowValues = [], flowAggregates = [],
     flowExpansion = \<lparr>emPlannedIterations = 0, emLimit = DefaultExpansionBudget,
       emMaxConcurrency = MaxForEachConcurrency\<rparr>,
     flowNodes = [new_node ''entry'' NodeEntry,
       (new_node ''terminal/succeeded'' NodeTerminal)\<lparr>nodeTerminal := TerminalSucceeded\<rparr>,
       (new_node ''terminal/failed'' NodeTerminal)\<lparr>nodeTerminal := TerminalFailed\<rparr>,
       (new_node ''terminal/cancelled'' NodeTerminal)\<lparr>nodeTerminal := TerminalCancelled\<rparr>,
       (new_node ''terminal/timedOut'' NodeTerminal)\<lparr>nodeTerminal := TerminalTimedOut\<rparr>],
     flowTransitions = []\<rparr>"

definition newFlowBuilder :: "string \<Rightarrow> workflow_trigger list \<Rightarrow> builder" where
  "newFlowBuilder identity triggers =
     (let f = base_flow identity (map plan_trigger triggers) in
      \<lparr>bFlow = f, bNext = 0, bRegion = ''region/default'', bBranch = '''',
       bFailure = ftFailed (flowTerminals f), bCancel = ftCancelled (flowTerminals f),
       bTimeout = ftTimedOut (flowTerminals f), bCause = TerminalNone, bFinally = 0, bForEach = 0,
       bPath = [], bEffects = Map.empty, bAuthored = Map.empty, bMatch = Map.empty\<rparr>)"

definition validated :: "flow \<Rightarrow> string + flow" where
  "validated f =
     (let diagnostics = ValidateFlow f in
      if diagnostics \<noteq> [] then Inl (join_strings diagnostics ''; '') else Inr f)"

definition compile_flow :: "workflow \<Rightarrow> workflow_flow_node \<Rightarrow> string + builder" where
  "compile_flow d root_node =
     (case plannedIterationCount root_node DefaultExpansionBudget of
        Inl e \<Rightarrow> Inl e
      | Inr iterations \<Rightarrow>
          (let b0 = newFlowBuilder (wlIdentity d) (wlTriggers d);
               b1 = b0\<lparr>bFlow := (bFlow b0)\<lparr>flowExpansion :=
                      (flowExpansion (bFlow b0))\<lparr>emPlannedIterations := iterations\<rparr>\<rparr>,
                      bAuthored := collectAuthoredEffects root_node\<rparr> in
           case compileAuthoringNode root_node (ftSucceeded (flowTerminals (bFlow b1))) b1 of
             Inl e \<Rightarrow> Inl e
           | Inr (entry, b2) \<Rightarrow> Inr (addTransition (flowEntry (bFlow b2)) MachineContinue entry b2)))"

text \<open>The steps of a planned job, from the last to the first.\<close>

fun plan_steps_back ::
  "string \<Rightarrow> nat \<Rightarrow> (nat \<times> plan_step) list \<Rightarrow> string \<Rightarrow> builder \<Rightarrow> string \<times> builder" where
  "plan_steps_back job rank [] next b = (next, b)"
| "plan_steps_back job rank ((k, s) # ss) next b =
     (let (entry, b1) = compileEffect s next b
      in plan_steps_back job rank ss entry
           (on_node entry (\<lambda>n. n\<lparr>nodeLegacyJob := job, nodeLegacyRank := rank, nodeEffectRank := k\<rparr>) b1))"

definition plan_job_flow ::
  "(string \<rightharpoonup> string) \<Rightarrow> string \<Rightarrow> string \<Rightarrow> nat \<times> plan_job \<Rightarrow> builder \<Rightarrow> builder" where
  "plan_job_flow exits fork join kj b =
     (let (k, job) = kj;
          region = ''region/'' @ pjIdentity job;
          b1 = (addRegion region (pjPlatform job) (pjEnvironment job) b)
                 \<lparr>bRegion := region, bBranch := pjIdentity job\<rparr>;
          exit = zget '''' exits (pjIdentity job);
          (entry, b2) = plan_steps_back (pjIdentity job) k (rev (enumerate 0 (pjSteps job))) exit b1;
          waitFor = sort_strings (map (zget '''' exits) (pjNeeds job));
          b3 = on_node entry (\<lambda>n. n\<lparr>nodeWaitFor := waitFor\<rparr>) b2;
          b4 = on_node exit (\<lambda>n. n\<lparr>nodeLegacyJob := pjIdentity job, nodeLegacyRank := k\<rparr>) b3;
          b5 = on_node fork (\<lambda>n. n\<lparr>nodeTargets := nodeTargets n @ [entry]\<rparr>) b4;
          b6 = on_node join (\<lambda>n. n\<lparr>nodeWaitFor := nodeWaitFor n @ [exit]\<rparr>) b5
      in b6\<lparr>bRegion := bRegion b, bBranch := bBranch b\<rparr>)"

fun plan_exits :: "plan_job list \<Rightarrow> (string \<rightharpoonup> string) \<Rightarrow> builder \<Rightarrow> (string \<rightharpoonup> string) \<times> builder" where
  "plan_exits [] exits b = (exits, b)"
| "plan_exits (j # js) exits b =
     (let (exit, b') = addNode (''job-'' @ pjIdentity j @ ''-exit'') NodeBranchExit b
      in plan_exits js (exits(pjIdentity j \<mapsto> exit)) b')"

definition compile_plan :: "plan \<Rightarrow> builder" where
  "compile_plan p =
     (let b0 = newFlowBuilder (plWorkflow p) [];
          b1 = b0\<lparr>bFlow := (bFlow b0)\<lparr>flowTriggers := plTriggers p\<rparr>\<rparr>;
          (exits, b2) = plan_exits (plJobs p) Map.empty b1;
          (join, b3) = addNode ''legacy-join'' NodeJoin b2;
          (fork, b4) = addNode ''legacy-fork'' NodeFork b3;
          b5 = addTransition (flowEntry (bFlow b4)) MachineContinue fork b4;
          b6 = addTransition join MachineContinue (ftSucceeded (flowTerminals (bFlow b5))) b5;
          b7 = foldl (\<lambda>b kj. plan_job_flow exits fork join kj b) b6 (enumerate 0 (plJobs p));
          b8 = on_node fork (\<lambda>n. n\<lparr>nodeTargets := sort_strings (nodeTargets n @ [join])\<rparr>) b7
      in on_node join (\<lambda>n. n\<lparr>nodeWaitFor := sort_strings (nodeWaitFor n)\<rparr>) b8)"

definition BuildFlowFromPlan :: "plan \<Rightarrow> string + flow" where
  "BuildFlowFromPlan p = validated (bFlow (compile_plan p))"

definition BuildFlow :: "(float64 \<Rightarrow> string) \<Rightarrow> workflow \<Rightarrow> string + flow" where
  "BuildFlow num d =
     (case wlFlow d of
        None \<Rightarrow> BuildFlowFromPlan (BuildPlan num d)
      | Some root_node \<Rightarrow>
          (case compile_flow d root_node of
             Inl e \<Rightarrow> Inl e
           | Inr b \<Rightarrow> validated (bFlow b)))"

end
