(* ===== verification/Machine_Settle.thy ===== *)
theory Machine_Settle
  imports Workflow_Machine
begin

text \<open>
  The control loop of the machine, \<open>settleControl\<close>: one pass visits every node of the flow,
  wakes the waiting nodes whose dependencies have succeeded and completes the active control
  nodes (entry, join, fork, match, predicate, iterator, branch exit, terminal); the loop repeats
  until a pass makes no progress.  Here are the node life cycle every operation respects, the
  termination of the loop on every flow, and what holds when it returns.
\<close>

section \<open>The life cycle of a node\<close>

inductive lifecycle :: "run_state \<Rightarrow> run_state \<Rightarrow> bool" where
  waits: "lifecycle StatePending StateWaiting"
| wakes: "lifecycle StateWaiting StatePending"
| starts: "lifecycle StatePending StateRunning"
| completes: "lifecycle StatePending StateSucceeded"
| finishes: "b \<in> {StateSucceeded, StateFailed, StateTimedOut, StateCancelled} \<Longrightarrow>
    lifecycle StateRunning b"
| stops: "a \<in> {StatePending, StateWaiting} \<Longrightarrow> b \<in> {StateBlocked, StateCancelled} \<Longrightarrow>
    lifecycle a b"

inductive_cases lifecycleE: "lifecycle a b"

text \<open>Its reflexive and transitive closure, as a table.\<close>

fun evolves :: "run_state \<Rightarrow> run_state \<Rightarrow> bool" where
  "evolves StatePending b = (b \<noteq> StateZero \<and> b \<noteq> StateSkipped)"
| "evolves StateWaiting b = (b \<noteq> StateZero \<and> b \<noteq> StateSkipped)"
| "evolves StateRunning b =
     (b \<in> {StateRunning, StateSucceeded, StateFailed, StateTimedOut, StateCancelled})"
| "evolves a b = (a = b)"

lemma evolves_refl [simp, intro]: "evolves a a"
  by (cases a) auto

lemma evolves_trans [trans]: "evolves a b \<Longrightarrow> evolves b c \<Longrightarrow> evolves a c"
  by (cases a; cases b) auto

lemma evolves_lifecycle: "evolves a b \<longleftrightarrow> lifecycle\<^sup>*\<^sup>* a b"
proof
  assume "lifecycle\<^sup>*\<^sup>* a b"
  then show "evolves a b"
  proof (induction rule: rtranclp_induct)
    case (step y z)
    from step.hyps(2) have "evolves y z" by (cases rule: lifecycle.cases) auto
    with step.IH show ?case by (rule evolves_trans)
  qed simp
next
  have pr: "lifecycle\<^sup>*\<^sup>* StatePending StateRunning" by (blast intro: lifecycle.intros)
  have p: "lifecycle\<^sup>*\<^sup>* StatePending b" if "b \<noteq> StateZero" "b \<noteq> StateSkipped" for b
    using that pr by (cases b) (auto intro: lifecycle.intros rtranclp.rtrancl_into_rtrancl)
  have w: "lifecycle\<^sup>*\<^sup>* StateWaiting b" if "b \<noteq> StateZero" "b \<noteq> StateSkipped" for b
    by (rule converse_rtranclp_into_rtranclp [of lifecycle, OF lifecycle.wakes p [OF that]])
  assume "evolves a b"
  then show "lifecycle\<^sup>*\<^sup>* a b"
    by (cases a) (auto intro: p w lifecycle.intros)
qed

definition evolved :: "snapshot \<Rightarrow> snapshot \<Rightarrow> bool" where
  "evolved s s' \<longleftrightarrow> (\<forall>i. evolves (state_of s i) (state_of s' i))"

lemma evolved_refl [simp, intro]: "evolved s s"
  by (simp add: evolved_def)

lemma evolved_trans [trans]: "evolved s t \<Longrightarrow> evolved t u \<Longrightarrow> evolved s u"
  unfolding evolved_def by (blast intro: evolves_trans)

lemma evolved_final:
  "evolved s s' \<Longrightarrow> state_of s i \<in> {StateSucceeded, StateFailed, StateTimedOut, StateBlocked, StateCancelled}
    \<Longrightarrow> state_of s' i = state_of s i"
  by (drule evolved_def [THEN iffD1, rule_format, of s s' i]) auto

section \<open>How the operations move node states\<close>

named_theorems state_simps

lemma state_of_set_state [state_simps]:
  "state_of (set_state s i st) j = (if j = i then st else state_of s j)"
  by (simp add: set_state_def set_node_def state_of_def node_of_def)

lemma state_of_set_node [state_simps]:
  "state_of (set_node s i ns) j = (if j = i then nsState ns else state_of s j)"
  by (simp add: set_node_def state_of_def node_of_def)

lemma state_of_upd [state_simps]:
  "state_of (s\<lparr>snActive := a\<rparr>) i = state_of s i"
  "state_of (s\<lparr>snStatus := st\<rparr>) i = state_of s i"
  "state_of (s\<lparr>snIterators := it\<rparr>) i = state_of s i"
  "state_of (s\<lparr>snValues := v\<rparr>) i = state_of s i"
  "state_of (s\<lparr>snOutcomes := oc\<rparr>) i = state_of s i"
  "state_of (s\<lparr>snAggregates := ag\<rparr>) i = state_of s i"
  "state_of (s\<lparr>snCleanupFailures := cf\<rparr>) i = state_of s i"
  "state_of (s\<lparr>snStepCount := c\<rparr>) i = state_of s i"
  "state_of (s\<lparr>snStepLimit := c\<rparr>) i = state_of s i"
  "state_of (s\<lparr>snTraceLimit := c\<rparr>) i = state_of s i"
  "state_of (s\<lparr>snTrace := tr\<rparr>) i = state_of s i"
  "state_of (s\<lparr>snDroppedTrace := c\<rparr>) i = state_of s i"
  by (simp_all add: state_of_def node_of_def)

lemma state_of_addActive [state_simps]: "state_of (addActive s i) j = state_of s j"
  by (simp add: addActive_def state_simps)

lemma state_of_removeActive [state_simps]: "state_of (removeActive s i) j = state_of s j"
  by (simp add: removeActive_def state_simps)

lemma state_of_activateNode:
  "state_of (activateNode f s i) j =
     (if j = i \<and> state_of s i = StatePending \<and>
         (\<exists>n. flowNode f i = Some n \<and> nodeWaitFor n \<noteq> [] \<and> \<not> dependenciesComplete s (nodeWaitFor n))
      then StateWaiting else state_of s j)"
  by (auto simp: activateNode_def state_simps split: option.splits)

lemma evolved_activateNode [intro]: "evolved s (activateNode f s i)"
  by (auto simp: evolved_def state_of_activateNode)

lemma evolved_activate_all [intro]: "evolved s (activate_all f s is)"
proof (induction "is" arbitrary: s)
  case (Cons i "is")
  have "evolved s (activateNode f s i)" ..
  also have "evolved \<dots> (activate_all f (activateNode f s i) is)" by (rule Cons.IH)
  finally show ?case by simp
qed simp

lemma evolved_cancel_node [intro]: "evolved s (cancel_nonterminal_node s n)"
  by (auto simp: evolved_def cancel_nonterminal_node_def state_simps)

lemma evolved_cancelNonterminal [intro]: "evolved s (cancelNonterminalNodes f s)"
proof -
  have "evolved s (foldl cancel_nonterminal_node s ns)" for ns
  proof (induction ns arbitrary: s)
    case (Cons n ns)
    have "evolved s (cancel_nonterminal_node s n)" ..
    also have "evolved \<dots> (foldl cancel_nonterminal_node (cancel_nonterminal_node s n) ns)"
      by (rule Cons.IH)
    finally show ?case by simp
  qed simp
  then show ?thesis by (simp add: cancelNonterminalNodes_def)
qed

section \<open>One node of a pass\<close>

definition continue_from :: "flow \<Rightarrow> snapshot \<Rightarrow> flow_node \<Rightarrow> machine_error + snapshot" where
  "continue_from f s node =
     (case selectTransition f (nodeIdentity node) MachineContinue of
        Inl e \<Rightarrow> Inl e
      | Inr (t, _) \<Rightarrow> Inr (activateNode f s (tTo t)))"

definition continue_guarded ::
  "flow \<Rightarrow> snapshot \<Rightarrow> flow_node \<Rightarrow> string \<Rightarrow> machine_error + snapshot" where
  "continue_guarded f s node guard =
     (case selectGuardedTransition f (nodeIdentity node) MachineContinue guard of
        Inl e \<Rightarrow> Inl e
      | Inr (t, _) \<Rightarrow> Inr (activateNode f s (tTo t)))"

fun terminal_status :: "run_state \<Rightarrow> terminal_kind \<Rightarrow> run_state" where
  "terminal_status st TerminalSucceeded = StateSucceeded"
| "terminal_status st TerminalFailed = StateFailed"
| "terminal_status st TerminalCancelled = StateCancelled"
| "terminal_status st TerminalTimedOut = StateTimedOut"
| "terminal_status st TerminalNone = st"

definition settle_complete :: "flow \<Rightarrow> snapshot \<Rightarrow> flow_node \<Rightarrow> machine_error + snapshot" where
  "settle_complete f s node =
     (case nodeKind node of
        NodeEntry \<Rightarrow> continue_from f s node
      | NodeJoin \<Rightarrow> continue_from f s node
      | NodeIterator \<Rightarrow>
          continue_from f
            (case nodeIterator node of None \<Rightarrow> s
             | Some c \<Rightarrow> s\<lparr>snIterators := (snIterators s)(nodeIdentity node \<mapsto> c)\<rparr>) node
      | NodeMatch \<Rightarrow>
          (case snOutcomes s (nodeSource node) of
             None \<Rightarrow> Inl (MatchSourceUnavailable (nodeSource node))
           | Some outcome \<Rightarrow> continue_guarded f s node (terminal_string outcome))
      | NodePredicate \<Rightarrow>
          (case evaluatePredicatePtr s (nodePredicate node) of
             Inl e \<Rightarrow> Inl e
           | Inr matched \<Rightarrow> continue_guarded f s node (if matched then ''true'' else ''false''))
      | NodeFork \<Rightarrow> Inr (activate_all f s (nodeTargets node))
      | NodeBranchExit \<Rightarrow>
          Inr (case optionalTransition f (nodeIdentity node) MachineContinue of
                 None \<Rightarrow> s | Some t \<Rightarrow> activateNode f s (tTo t))
      | NodeTerminal \<Rightarrow>
          Inr (cancelNonterminalNodes f
                (s\<lparr>snActive := [], snStatus := terminal_status (snStatus s) (nodeTerminal node)\<rparr>))
      | NodeEffect \<Rightarrow> Inr s)"

definition wake_node :: "snapshot \<Rightarrow> flow_node \<Rightarrow> snapshot \<times> bool" where
  "wake_node s node =
     (if state_of s (nodeIdentity node) = StateWaiting \<and> dependenciesComplete s (nodeWaitFor node)
      then (addActive (set_state s (nodeIdentity node) StatePending) (nodeIdentity node), True)
      else (s, False))"

definition settle_node :: "flow \<Rightarrow> flow_node \<Rightarrow> snapshot \<times> bool \<Rightarrow> machine_error + (snapshot \<times> bool)" where
  "settle_node f node sp =
     (let i = nodeIdentity node;
          (s, woken) = wake_node (fst sp) node;
          progress = (snd sp \<or> woken)
      in if state_of s i \<noteq> StatePending \<or> \<not> containsIdentity (snActive s) i \<or> nodeKind node = NodeEffect
         then Inr (s, progress)
         else (case settle_complete f (set_state (removeActive s i) i StateSucceeded) node of
                 Inl e \<Rightarrow> Inl e
               | Inr s' \<Rightarrow> Inr (s', True)))"

fun settle_pass :: "flow \<Rightarrow> flow_node list \<Rightarrow> snapshot \<times> bool \<Rightarrow> machine_error + (snapshot \<times> bool)" where
  "settle_pass f [] sp = Inr sp"
| "settle_pass f (n # ns) sp =
     (case settle_node f n sp of Inl e \<Rightarrow> Inl e | Inr sp' \<Rightarrow> settle_pass f ns sp')"

lemma evolved_settle_complete: "settle_complete f s node = Inr s' \<Longrightarrow> evolved s s'"
proof -
  have act: "evolved s (activateNode f (s\<lparr>snIterators := it\<rparr>) i)" for it i
    using evolved_activateNode [of "s\<lparr>snIterators := it\<rparr>"]
    by (simp add: evolved_def state_simps)
  have fin: "evolved s (cancelNonterminalNodes f (s\<lparr>snActive := [], snStatus := st\<rparr>))" for st
    using evolved_cancelNonterminal [of "s\<lparr>snActive := [], snStatus := st\<rparr>"]
    by (simp add: evolved_def state_simps)
  assume "settle_complete f s node = Inr s'"
  then show ?thesis
    by (cases "nodeKind node")
      (auto simp: settle_complete_def continue_from_def continue_guarded_def act fin
            split: sum.splits option.splits if_splits prod.splits)
qed

section \<open>Termination of the loop\<close>

text \<open>
  Completing a control node takes one identity out of the pending and waiting ones for good;
  waking a node keeps that number and takes one out of the waiting ones.  The pair of the two
  numbers decreases lexicographically with every pass that makes progress.  Nothing is assumed
  of the flow: it may have cycles and repeated identities.
\<close>

definition unsettled :: "flow \<Rightarrow> snapshot \<Rightarrow> string set" where
  "unsettled f s = {i \<in> set (node_ids f). state_of s i \<in> {StatePending, StateWaiting}}"

definition sleeping :: "flow \<Rightarrow> snapshot \<Rightarrow> string set" where
  "sleeping f s = {i \<in> set (node_ids f). state_of s i = StateWaiting}"

definition settle_order :: "flow \<Rightarrow> (snapshot \<times> snapshot) set" where
  "settle_order f = measures [\<lambda>s. card (unsettled f s), \<lambda>s. card (sleeping f s)]"

lemma finite_unsettled [simp]: "finite (unsettled f s)"
  by (simp add: unsettled_def)

lemma finite_sleeping [simp]: "finite (sleeping f s)"
  by (simp add: sleeping_def)

lemma unsettled_evolved: "evolved s s' \<Longrightarrow> unsettled f s' \<subseteq> unsettled f s"
proof
  fix i assume e: "evolved s s'" and i: "i \<in> unsettled f s'"
  from e have "evolves (state_of s i) (state_of s' i)" by (simp add: evolved_def)
  with i show "i \<in> unsettled f s"
    by (cases "state_of s i") (auto simp: unsettled_def)
qed

lemma trans_settle_order: "trans (settle_order f)"
  by (auto simp: settle_order_def trans_def)

lemma wake_node_order:
  assumes "wake_node s node = (s', woken)" and "node \<in> set (flowNodes f)"
  shows "unsettled f s' = unsettled f s" and "woken \<Longrightarrow> (s', s) \<in> settle_order f"
    and "\<not> woken \<Longrightarrow> s' = s" and "evolved s s'"
proof -
  let ?i = "nodeIdentity node"
  have i: "?i \<in> set (node_ids f)" using assms(2) by simp
  show un: "unsettled f s' = unsettled f s"
    using assms(1) by (auto simp: wake_node_def unsettled_def state_simps split: if_splits)
  show "\<not> woken \<Longrightarrow> s' = s"
    using assms(1) by (auto simp: wake_node_def split: if_splits)
  show "evolved s s'"
    using assms(1) by (auto simp: wake_node_def evolved_def state_simps split: if_splits)
  show "(s', s) \<in> settle_order f" if woken
  proof -
    have "sleeping f s' = sleeping f s - {?i}" and "?i \<in> sleeping f s"
      using assms(1) that i
      by (auto simp: wake_node_def sleeping_def state_simps split: if_splits)
    then have "card (sleeping f s') < card (sleeping f s)"
      by (metis card_Diff1_less finite_sleeping)
    with un show ?thesis by (simp add: settle_order_def)
  qed
qed

lemma complete_node_order:
  assumes "settle_complete f (set_state (removeActive s i) i StateSucceeded) node = Inr s'"
    and "i \<in> unsettled f s"
  shows "(s', s) \<in> settle_order f"
proof -
  let ?t = "set_state (removeActive s i) i StateSucceeded"
  have "unsettled f s' \<subseteq> unsettled f ?t"
    by (rule unsettled_evolved [OF evolved_settle_complete [OF assms(1)]])
  also have "unsettled f ?t = unsettled f s - {i}"
    by (auto simp: unsettled_def state_simps)
  finally have "card (unsettled f s') \<le> card (unsettled f s - {i})"
    by (simp add: card_mono)
  also have "\<dots> < card (unsettled f s)"
    using assms(2) by (metis card_Diff1_less finite_unsettled)
  finally show ?thesis by (simp add: settle_order_def)
qed

lemma settle_node_order:
  assumes "settle_node f node (s, p) = Inr (s', p')" and "node \<in> set (flowNodes f)"
  shows "(s' = s \<and> p' = p) \<or> (p' \<and> (s', s) \<in> settle_order f)"
proof -
  obtain t woken where w: "wake_node s node = (t, woken)" by fastforce
  note wk = wake_node_order [OF w assms(2)]
  show ?thesis
  proof (cases "state_of t (nodeIdentity node) \<noteq> StatePending
      \<or> \<not> containsIdentity (snActive t) (nodeIdentity node) \<or> nodeKind node = NodeEffect")
    case True
    with assms(1) w wk show ?thesis by (auto simp: settle_node_def Let_def)
  next
    case False
    with assms(1) w have c: "settle_complete f
        (set_state (removeActive t (nodeIdentity node)) (nodeIdentity node) StateSucceeded) node = Inr s'"
      and p': p'
      by (auto simp: settle_node_def Let_def split: sum.splits)
    from False assms(2) have "nodeIdentity node \<in> unsettled f t"
      by (auto simp: unsettled_def)
    with c have "(s', t) \<in> settle_order f" by (rule complete_node_order)
    with wk p' show ?thesis
      by (cases woken) (auto intro: transD [OF trans_settle_order])
  qed
qed

lemma settle_pass_order:
  "settle_pass f ns (s, p) = Inr (s', p') \<Longrightarrow> set ns \<subseteq> set (flowNodes f) \<Longrightarrow>
    (s' = s \<and> p' = p) \<or> (p' \<and> (s', s) \<in> settle_order f)"
proof (induction ns arbitrary: s p)
  case (Cons n ns)
  from Cons.prems(1) obtain t q where n: "settle_node f n (s, p) = Inr (t, q)"
    and ns: "settle_pass f ns (t, q) = Inr (s', p')"
    by (auto split: sum.splits)
  from settle_node_order [OF n] Cons.prems(2) Cons.IH [OF ns] show ?case
    by (auto intro: transD [OF trans_settle_order])
qed simp

function settle_loop :: "flow \<Rightarrow> snapshot \<Rightarrow> machine_error + snapshot" where
  "settle_loop f s =
     (case settle_pass f (flowNodes f) (s, False) of
        Inl e \<Rightarrow> Inl e
      | Inr (s', progress) \<Rightarrow> if progress then settle_loop f s' else Inr s')"
  by pat_completeness auto
termination
proof (relation "{((f', s'), (f, s)). f' = f \<and> (s', s) \<in> settle_order f}", goal_cases)
  case 1
  have "wf (settle_order f)" for f by (simp add: settle_order_def)
  then have "wf (same_fst (\<lambda>_. True) settle_order)" by (intro wf_same_fst)
  then show ?case by (rule wf_subset) (auto simp: same_fst_def)
next
  case (2 f s r s' progress)
  then show ?case using settle_pass_order [of f "flowNodes f" s False s' progress] by auto
qed

declare settle_loop.simps [simp del]

definition settleControl :: "flow \<Rightarrow> snapshot \<Rightarrow> machine_error + snapshot" where
  "settleControl f s =
     (case settle_loop f s of
        Inl e \<Rightarrow> Inl e
      | Inr s' \<Rightarrow> Inr (s'\<lparr>snActive := sort_strings (snActive s')\<rparr>))"

section \<open>Invariants of the loop\<close>

text \<open>
  The contract between the loop and a property of snapshots: the property survives waking one
  node, completing one control node and sorting the active list.  Then it survives the loop.
\<close>

locale settle_invariant =
  fixes f :: flow and P :: "snapshot \<Rightarrow> bool"
  assumes inv_wake: "P s \<Longrightarrow> node \<in> set (flowNodes f) \<Longrightarrow>
      state_of s (nodeIdentity node) = StateWaiting \<Longrightarrow> dependenciesComplete s (nodeWaitFor node) \<Longrightarrow>
      P (addActive (set_state s (nodeIdentity node) StatePending) (nodeIdentity node))"
    and inv_complete: "P s \<Longrightarrow> node \<in> set (flowNodes f) \<Longrightarrow>
      state_of s (nodeIdentity node) = StatePending \<Longrightarrow> nodeIdentity node \<in> set (snActive s) \<Longrightarrow>
      nodeKind node \<noteq> NodeEffect \<Longrightarrow>
      settle_complete f
        (set_state (removeActive s (nodeIdentity node)) (nodeIdentity node) StateSucceeded) node = Inr s' \<Longrightarrow>
      P s'"
    and inv_sort: "P s \<Longrightarrow> P (s\<lparr>snActive := sort_strings (snActive s)\<rparr>)"
begin

lemma settle_node_keeps:
  assumes "P s" and "node \<in> set (flowNodes f)" and "settle_node f node (s, p) = Inr (s', p')"
  shows "P s'"
proof -
  obtain t woken where w: "wake_node s node = (t, woken)" by fastforce
  have t: "P t"
    using w assms inv_wake by (auto simp: wake_node_def split: if_splits)
  from assms(3) w show ?thesis
    using t inv_complete [OF t assms(2)]
    by (auto simp: settle_node_def Let_def containsIdentity_def split: if_splits sum.splits)
qed

lemma settle_pass_keeps:
  "settle_pass f ns (s, p) = Inr (s', p') \<Longrightarrow> set ns \<subseteq> set (flowNodes f) \<Longrightarrow> P s \<Longrightarrow> P s'"
  by (induction ns arbitrary: s p) (auto split: sum.splits dest: settle_node_keeps)

lemma settle_loop_keeps_gen: "settle_loop g s = Inr s' \<Longrightarrow> g = f \<Longrightarrow> P s \<Longrightarrow> P s'"
proof (induction g s rule: settle_loop.induct)
  case (1 g s)
  then obtain t p where pass: "settle_pass f (flowNodes f) (s, False) = Inr (t, p)"
    by (auto simp: settle_loop.simps [of f s] split: sum.splits)
  have "P t" by (rule settle_pass_keeps [OF pass subset_refl "1.prems"(3)])
  with 1 pass show ?case
    by (cases p) (simp_all add: settle_loop.simps [of f s])
qed

lemmas settle_loop_keeps = settle_loop_keeps_gen [OF _ refl]

lemma settleControl_keeps: "settleControl f s = Inr s' \<Longrightarrow> P s \<Longrightarrow> P s'"
  by (auto simp: settleControl_def split: sum.splits intro: inv_sort settle_loop_keeps)

end

section \<open>What holds when the loop returns\<close>

definition quiescent :: "flow \<Rightarrow> snapshot \<Rightarrow> bool" where
  "quiescent f s \<longleftrightarrow> (\<forall>n \<in> set (flowNodes f).
     \<not> (state_of s (nodeIdentity n) = StateWaiting \<and> dependenciesComplete s (nodeWaitFor n)) \<and>
     \<not> (state_of s (nodeIdentity n) = StatePending \<and> nodeIdentity n \<in> set (snActive s)
        \<and> nodeKind n \<noteq> NodeEffect))"

lemma settle_node_idle:
  "settle_node f n (s, False) = Inr (s', False) \<Longrightarrow> n \<in> set (flowNodes f) \<Longrightarrow>
    s' = s \<and> \<not> (state_of s (nodeIdentity n) = StateWaiting \<and> dependenciesComplete s (nodeWaitFor n)) \<and>
     \<not> (state_of s (nodeIdentity n) = StatePending \<and> nodeIdentity n \<in> set (snActive s)
        \<and> nodeKind n \<noteq> NodeEffect)"
  by (auto simp: settle_node_def wake_node_def Let_def containsIdentity_def split: if_splits sum.splits)

lemma settle_node_progress:
  "settle_node f n (s, True) = Inr (s', p') \<Longrightarrow> p'"
  by (auto simp: settle_node_def Let_def split: if_splits sum.splits prod.splits)

lemma settle_pass_progress: "settle_pass f ns (s, True) = Inr (s', p') \<Longrightarrow> p'"
proof (induction ns arbitrary: s)
  case (Cons n ns)
  then obtain t q where n: "settle_node f n (s, True) = Inr (t, q)"
    and ns: "settle_pass f ns (t, q) = Inr (s', p')"
    by (auto split: sum.splits)
  from n have q by (rule settle_node_progress)
  with ns Cons.IH [of t] show ?case by simp
qed simp

lemma settle_pass_idle:
  "settle_pass f ns (s, False) = Inr (s', False) \<Longrightarrow> set ns \<subseteq> set (flowNodes f) \<Longrightarrow>
    s' = s \<and> (\<forall>n \<in> set ns. settle_node f n (s, False) = Inr (s, False))"
proof (induction ns arbitrary: s)
  case (Cons n ns)
  from Cons.prems(1) obtain t q where n: "settle_node f n (s, False) = Inr (t, q)"
    and ns: "settle_pass f ns (t, q) = Inr (s', False)"
    by (auto split: sum.splits)
  have "\<not> q" using settle_pass_progress [of f ns t s' False] ns by auto
  with n settle_node_idle [of f n s t] Cons.prems(2) have "t = s" by auto
  with n ns \<open>\<not> q\<close> Cons.IH [of s] Cons.prems(2) show ?case by auto
qed simp

lemma settle_loop_quiescent: "settle_loop f s = Inr s' \<Longrightarrow> quiescent f s'"
proof (induction f s rule: settle_loop.induct)
  case (1 f s)
  then obtain t p where pass: "settle_pass f (flowNodes f) (s, False) = Inr (t, p)"
    by (auto simp: settle_loop.simps [of f s] split: sum.splits)
  show ?case
  proof (cases p)
    case True
    with 1 pass show ?thesis by (simp add: settle_loop.simps [of f s])
  next
    case False
    with pass "1.prems" have "s' = t" by (simp add: settle_loop.simps [of f s])
    moreover from pass False have "\<forall>n \<in> set (flowNodes f). settle_node f n (s, False) = Inr (s, False)"
      and "t = s"
      using settle_pass_idle [of f "flowNodes f" s t] by auto
    ultimately show ?thesis
      using settle_node_idle by (fastforce simp: quiescent_def)
  qed
qed

lemma quiescent_sort: "quiescent f (s\<lparr>snActive := sort_strings (snActive s)\<rparr>) = quiescent f s"
  by (simp add: quiescent_def dependenciesComplete_def state_simps)

lemma settleControl_quiescent: "settleControl f s = Inr s' \<Longrightarrow> quiescent f s'"
  by (auto simp: settleControl_def quiescent_sort split: sum.splits dest: settle_loop_quiescent)

lemma settleControl_sorted: "settleControl f s = Inr s' \<Longrightarrow> sorted (snActive s')"
  by (auto simp: settleControl_def split: sum.splits)

end
