(* ===== verification/Machine_Step.thy ===== *)
theory Machine_Step
  imports Machine_Settle
begin

text \<open>
  \<open>NewSnapshot\<close> and \<open>Step\<close>: one event moves the machine.  A rejected event gives back the
  error and the snapshot it was applied to, with its limits made positive, exactly what the
  Go function returns; an accepted one gives the next snapshot and the trace record it appends.
\<close>

section \<open>New snapshots\<close>

definition initial_aggregate :: "aggregate_definition \<Rightarrow> aggregate_value" where
  "initial_aggregate d = \<lparr>avIdentity = adIdentity d,
     avElements = map (\<lambda>(i, e). \<lparr>aeIndex = i, aeValue = e, aeOutcome = TerminalNone\<rparr>)
                      (enumerate 0 (adElements d))\<rparr>"

definition initialAggregates :: "flow \<Rightarrow> (string \<rightharpoonup> aggregate_value)" where
  "initialAggregates f =
     foldl (\<lambda>m d. m(adIdentity d \<mapsto> initial_aggregate d)) Map.empty (flowAggregates f)"

definition NewSnapshot :: "flow \<Rightarrow> int \<Rightarrow> int \<Rightarrow> snapshot" where
  "NewSnapshot f stepLimit traceLimit = \<lparr>
     snStatus = StatePending,
     snNodes = foldl (\<lambda>m n. m(nodeIdentity n \<mapsto> \<lparr>nsState = StatePending, nsResult = None, nsError = ''''\<rparr>))
                     Map.empty (flowNodes f),
     snActive = [],
     snValues = Map.empty,
     snOutcomes = Map.empty,
     snIterators = Map.empty,
     snAggregates = initialAggregates f,
     snCleanupFailures = [],
     snStepCount = 0,
     snStepLimit = (if stepLimit \<le> 0 then DefaultStepLimit else stepLimit),
     snTrace = [],
     snTraceLimit = (if traceLimit \<le> 0 then DefaultTraceLimit else traceLimit),
     snDroppedTrace = 0\<rparr>"

section \<open>Recording one event\<close>

definition with_limits :: "snapshot \<Rightarrow> snapshot" where
  "with_limits s = s\<lparr>
     snStepLimit := (if snStepLimit s \<le> 0 then DefaultStepLimit else snStepLimit s),
     snTraceLimit := (if snTraceLimit s \<le> 0 then DefaultTraceLimit else snTraceLimit s)\<rparr>"

definition appendTrace :: "snapshot \<Rightarrow> step_trace \<Rightarrow> snapshot" where
  "appendTrace s tr =
     (if int (length (snTrace s)) = snTraceLimit s
      then s\<lparr>snTrace := tl (snTrace s) @ [tr], snDroppedTrace := snDroppedTrace s + 1\<rparr>
      else s\<lparr>snTrace := snTrace s @ [tr]\<rparr>)"

definition requireEffectState ::
  "flow \<Rightarrow> snapshot \<Rightarrow> string \<Rightarrow> run_state list \<Rightarrow> machine_error + (flow_node \<times> node_snapshot)" where
  "requireEffectState f s i allowed =
     (case flowNode f i of
        None \<Rightarrow> Inl (EffectUnknown i)
      | Some node \<Rightarrow>
          if nodeKind node \<noteq> NodeEffect then Inl (EffectUnknown i)
          else (case snNodes s i of
                  None \<Rightarrow> Inl (NodeStateUnknown i)
                | Some ns \<Rightarrow>
                    if nsState ns \<in> set allowed then Inr (node, ns)
                    else Inl (EventInvalid i (nsState ns))))"

fun set_element_outcome :: "string \<Rightarrow> terminal_kind \<Rightarrow> aggregate_element list \<Rightarrow> aggregate_element list option" where
  "set_element_outcome v oc [] = None"
| "set_element_outcome v oc (e # es) =
     (if aeValue e = v then Some (e\<lparr>aeOutcome := oc\<rparr> # es)
      else map_option ((#) e) (set_element_outcome v oc es))"

fun record_aggregate_outcome ::
  "aggregate_definition list \<Rightarrow> snapshot \<Rightarrow> string \<Rightarrow> terminal_kind \<Rightarrow> snapshot" where
  "record_aggregate_outcome [] s v oc = s"
| "record_aggregate_outcome (d # ds) s v oc =
     (let a = zget \<lparr>avIdentity = '''', avElements = []\<rparr> (snAggregates s) (adIdentity d)
      in case set_element_outcome v oc (avElements a) of
           Some es \<Rightarrow> s\<lparr>snAggregates := (snAggregates s)(adIdentity d \<mapsto> a\<lparr>avElements := es\<rparr>)\<rparr>
         | None \<Rightarrow> record_aggregate_outcome ds s v oc)"

definition recordAggregateOutcome :: "flow \<Rightarrow> snapshot \<Rightarrow> string \<Rightarrow> terminal_kind \<Rightarrow> snapshot" where
  "recordAggregateOutcome f s v oc = record_aggregate_outcome (flowAggregates f) s v oc"

fun result_kind :: "machine_event_kind \<Rightarrow> terminal_kind" where
  "result_kind MachineEffectSucceeded = TerminalSucceeded"
| "result_kind MachineEffectFailed = TerminalFailed"
| "result_kind MachineTimeout = TerminalTimedOut"
| "result_kind MachineCancelRequested = TerminalCancelled"
| "result_kind _ = TerminalNone"

fun result_state :: "machine_event_kind \<Rightarrow> run_state \<Rightarrow> run_state" where
  "result_state MachineEffectSucceeded st = StateSucceeded"
| "result_state MachineEffectFailed st = StateFailed"
| "result_state MachineTimeout st = StateTimedOut"
| "result_state MachineCancelRequested st = StateCancelled"
| "result_state _ st = st"

definition result_events :: "machine_event_kind list" where
  "result_events = [MachineEffectSucceeded, MachineEffectFailed, MachineCancelRequested, MachineTimeout]"

definition step_start :: "flow \<Rightarrow> snapshot \<Rightarrow> step_trace \<Rightarrow> machine_error + (snapshot \<times> step_trace)" where
  "step_start f next trace =
     (if snStatus next \<noteq> StatePending then Inl StartRequiresPending
      else Inr (activateNode f (next\<lparr>snStatus := StateRunning\<rparr>) (flowEntry f), trace))"

definition step_effect_started ::
  "flow \<Rightarrow> snapshot \<Rightarrow> step_trace \<Rightarrow> machine_event \<Rightarrow> machine_error + (snapshot \<times> step_trace)" where
  "step_effect_started f next trace event =
     (case requireEffectState f next (evNode event) [StateRunning, StatePending] of
        Inl e \<Rightarrow> Inl e
      | Inr (node, ns) \<Rightarrow>
          if nsState ns \<noteq> StatePending then Inl (NotReadyToStart (evNode event))
          else (case nodeEffect node of
                  None \<Rightarrow> Inl (NilEffect (evNode event))
                | Some effect \<Rightarrow>
                    Inr (set_node next (evNode event) (ns\<lparr>nsState := StateRunning\<rparr>),
                         trace\<lparr>trEffect := psOperation effect\<rparr>)))"

text \<open>
  A cancellation of the whole run: every node that is not terminal and has not finished is
  cancelled, whatever order the map is visited in, and the cancelled terminal takes over.
\<close>

definition cancel_all_nodes :: "flow \<Rightarrow> (string \<rightharpoonup> node_snapshot) \<Rightarrow> (string \<rightharpoonup> node_snapshot)" where
  "cancel_all_nodes f m = (\<lambda>i. case m i of
      None \<Rightarrow> None
    | Some ns \<Rightarrow>
        (case flowNode f i of
           None \<Rightarrow> Some ns
         | Some node \<Rightarrow>
             if nodeKind node \<noteq> NodeTerminal \<and> nsState ns \<in> {StateRunning, StatePending, StateWaiting}
             then Some (ns\<lparr>nsState := StateCancelled\<rparr>) else Some ns))"

definition step_cancel_all :: "flow \<Rightarrow> snapshot \<Rightarrow> snapshot" where
  "step_cancel_all f next =
     activateNode f (next\<lparr>snNodes := cancel_all_nodes f (snNodes next), snActive := []\<rparr>)
       (ftCancelled (flowTerminals f))"

definition finished_node :: "node_snapshot \<Rightarrow> machine_event \<Rightarrow> node_snapshot" where
  "finished_node ns event = ns\<lparr>
     nsState := result_state (evKind event) (nsState ns),
     nsError := (if evKind event = MachineEffectSucceeded then nsError ns else evError event),
     nsResult := (case evResult event of None \<Rightarrow> nsResult ns | Some r \<Rightarrow> Some r)\<rparr>"

definition record_value :: "snapshot \<Rightarrow> flow_node \<Rightarrow> machine_event \<Rightarrow> snapshot" where
  "record_value s node event =
     (case evResult event of
        None \<Rightarrow> s
      | Some r \<Rightarrow>
          if nodeValue node \<noteq> '''' then s\<lparr>snValues := (snValues s)(nodeValue node \<mapsto> r)\<rparr> else s)"

definition record_outcome :: "flow \<Rightarrow> snapshot \<Rightarrow> flow_node \<Rightarrow> machine_event \<Rightarrow> snapshot" where
  "record_outcome f s node event =
     (if nodeValue node \<noteq> ''''
      then recordAggregateOutcome f
             (s\<lparr>snOutcomes := (snOutcomes s)(nodeValue node \<mapsto> result_kind (evKind event))\<rparr>)
             (nodeValue node) (result_kind (evKind event))
      else s)"

definition record_cleanup_failure :: "snapshot \<Rightarrow> flow_node \<Rightarrow> machine_event \<Rightarrow> snapshot" where
  "record_cleanup_failure s node event =
     (if nodeCleanup node \<and> evKind event \<noteq> MachineEffectSucceeded
      then s\<lparr>snCleanupFailures := snCleanupFailures s @
               [\<lparr>cfCause = nodeCleanupCause node, cfNode = nodeIdentity node, cfError = evError event\<rparr>]\<rparr>
      else s)"

definition step_effect_result ::
  "flow \<Rightarrow> snapshot \<Rightarrow> step_trace \<Rightarrow> machine_event \<Rightarrow> machine_error + (snapshot \<times> step_trace)" where
  "step_effect_result f next trace event =
     (case requireEffectState f next (evNode event) [StateRunning] of
        Inl e \<Rightarrow> Inl e
      | Inr (node, ns) \<Rightarrow>
          (case nodeEffect node of
             None \<Rightarrow> Inl (NilEffect (evNode event))
           | Some effect \<Rightarrow>
               (let recorded = record_cleanup_failure
                      (record_outcome f (record_value next node event) node event) node event;
                    removed = removeActive
                      (set_node recorded (evNode event) (finished_node ns event)) (evNode event)
                in case selectTransition f (evNode event) (evKind event) of
                     Inl e \<Rightarrow> Inl e
                   | Inr (t, eligible) \<Rightarrow>
                       Inr (activateNode f removed (tTo t),
                            trace\<lparr>trEffect := psOperation effect,
                              trResultKind := result_kind (evKind event),
                              trValueIdentity := nodeValue node,
                              trEligible := eligible,
                              trSelected := tIdentity t\<rparr>))))"

section \<open>Step\<close>

definition step_dispatch ::
  "flow \<Rightarrow> snapshot \<Rightarrow> step_trace \<Rightarrow> machine_event \<Rightarrow> machine_error + (snapshot \<times> step_trace)" where
  "step_dispatch f next trace event =
     (case evKind event of
        MachineStart \<Rightarrow> step_start f next trace
      | MachineEffectStarted \<Rightarrow> step_effect_started f next trace event
      | MachineContinue \<Rightarrow> Inl (UnsupportedEvent MachineContinue)
      | kind \<Rightarrow>
          if kind = MachineCancelRequested \<and> evNode event = ''''
          then Inr (step_cancel_all f next, trace)
          else step_effect_result f next trace event)"

definition new_trace :: "snapshot \<Rightarrow> machine_event \<Rightarrow> step_trace" where
  "new_trace s event = \<lparr>trStep = snStepCount s + 1, trStateBefore = snActive s, trEvent = event,
     trEligible = [], trSelected = '''', trEffect = '''', trResultKind = TerminalNone,
     trValueIdentity = '''', trStateAfter = []\<rparr>"

definition Step ::
  "flow \<Rightarrow> snapshot \<Rightarrow> machine_event \<Rightarrow> (machine_error \<times> snapshot) + (snapshot \<times> step_trace)" where
  "Step f s event =
     (let current = with_limits s in
      if snStepCount current \<ge> snStepLimit current
      then Inl (StepLimitExceeded (snStepLimit current), current)
      else
        (case step_dispatch f (current\<lparr>snStepCount := snStepCount current + 1\<rparr>)
                (new_trace current event) event of
           Inl e \<Rightarrow> Inl (e, current)
         | Inr (moved, trace) \<Rightarrow>
             (case settleControl f moved of
                Inl e \<Rightarrow> Inl (e, current)
              | Inr settled \<Rightarrow>
                  (let trace' = trace\<lparr>trStateAfter := snActive settled\<rparr>
                   in Inr (appendTrace settled trace', trace')))))"

text \<open>Applying a list of events, keeping the trace records of the accepted ones.\<close>

fun replay :: "flow \<Rightarrow> snapshot \<Rightarrow> machine_event list \<Rightarrow> snapshot \<times> step_trace list" where
  "replay f s [] = (s, [])"
| "replay f s (e # es) =
     (case Step f s e of
        Inl (_, s') \<Rightarrow> replay f s' es
      | Inr (s', tr) \<Rightarrow> (let (s'', trs) = replay f s' es in (s'', tr # trs)))"

end
