(* ===== verification/Validate_Props.thy ===== *)
theory Validate_Props
  imports Workflow_Validate Machine_Step
begin

text \<open>
  What a flow without diagnostics guarantees the machine: identities that do not clash, exactly
  one transition for every result of an effect and every outcome of a match or a predicate,
  transitions that lead to existing nodes, and no cycle.
\<close>

section \<open>The passes without diagnostics\<close>

lemma ValidateFlow_empty: "ValidateFlow f = [] \<longleftrightarrow> flow_diagnostics f = []"
  by (simp add: ValidateFlow_def)

lemma valid_parts:
  assumes "ValidateFlow f = []"
  shows "header_diags f = []" "nodes_diags {} (flowNodes f) = []" "entry_diags f = []"
    "regions_diags {} (flowRegions f) = []" "transitions_diags f {} {} (flowTransitions f) = []"
    "\<And>n. n \<in> set (flowNodes f) \<Longrightarrow> references_diags f n = []"
    "validateFlowValues f = []" "unreachable_diags f = []" "cycle_diags f = []"
  using assms by (simp_all add: ValidateFlow_empty flow_diagnostics_def)

lemma nodes_diags_empty:
  "nodes_diags seen ns = [] \<Longrightarrow>
    distinct (map nodeIdentity ns) \<and> set (map nodeIdentity ns) \<inter> seen = {} \<and>
    (\<forall>n \<in> set ns. nodeIdentity n \<noteq> '''' \<and> node_diags n = [])"
  by (induction ns arbitrary: seen) (auto split: if_splits)

lemma transitions_diags_empty:
  "transitions_diags f keys cases ts = [] \<Longrightarrow>
    distinct (map tIdentity ts) \<and> set (map tIdentity ts) \<inter> keys = {} \<and>
    distinct (map (case_key f) ts) \<and> set (map (case_key f) ts) \<inter> cases = {} \<and>
    (\<forall>t \<in> set ts. tFrom t \<in> set (node_ids f) \<and> tTo t \<in> set (node_ids f))"
proof (induction ts arbitrary: keys cases)
  case (Cons t ts)
  then have "transitions_diags f (insert (tIdentity t) keys) (insert (case_key f t) cases) ts = []"
    by simp
  from Cons.IH [OF this] Cons.prems show ?case by (auto split: if_splits)
qed simp

lemma valid_nodes:
  assumes "ValidateFlow f = []"
  shows "distinct (node_ids f)"
    and "n \<in> set (flowNodes f) \<Longrightarrow> nodeIdentity n \<noteq> ''''"
    and "n \<in> set (flowNodes f) \<Longrightarrow> nodeKind n = NodeEffect \<Longrightarrow> nodeEffect n \<noteq> None"
    and "n \<in> set (flowNodes f) \<Longrightarrow> nodeKind n = NodePredicate \<Longrightarrow> nodePredicate n \<noteq> None"
    and "n \<in> set (flowNodes f) \<Longrightarrow> nodeKind n = NodeJoin \<Longrightarrow> nodeWaitFor n \<noteq> []"
proof -
  have d: "distinct (node_ids f)"
    and all: "\<And>n. n \<in> set (flowNodes f) \<Longrightarrow> nodeIdentity n \<noteq> '''' \<and> node_diags n = []"
    using nodes_diags_empty [OF valid_parts(2) [OF assms]] by simp_all
  show "distinct (node_ids f)" by (rule d)
  assume n: "n \<in> set (flowNodes f)"
  from all [OF n] show "nodeIdentity n \<noteq> ''''" by simp
  from all [OF n] show "nodeKind n = NodeEffect \<Longrightarrow> nodeEffect n \<noteq> None"
    and "nodeKind n = NodePredicate \<Longrightarrow> nodePredicate n \<noteq> None"
    and "nodeKind n = NodeJoin \<Longrightarrow> nodeWaitFor n \<noteq> []"
    by (auto simp: node_diags_def split: if_splits)
qed

lemma valid_transitions:
  assumes "ValidateFlow f = []"
  shows "distinct (map tIdentity (flowTransitions f))"
    and "distinct (map (case_key f) (flowTransitions f))"
    and "t \<in> set (flowTransitions f) \<Longrightarrow> tFrom t \<in> set (node_ids f) \<and> tTo t \<in> set (node_ids f)"
  using transitions_diags_empty [OF valid_parts(5) [OF assms]] by auto

text \<open>With distinct identities the map of nodes and the linear search find the same node.\<close>

lemma foldl_map_upd:
  "foldl (\<lambda>m n. m(k n \<mapsto> n)) m ns i =
     (case find (\<lambda>n. k n = i) (rev ns) of None \<Rightarrow> m i | Some n \<Rightarrow> Some n)"
  by (induction ns arbitrary: m rule: rev_induct) auto

lemma nodes_map_distinct:
  assumes "distinct (node_ids f)" and "n \<in> set (flowNodes f)"
  shows "nodes_map f (nodeIdentity n) = Some n"
proof -
  have "find (\<lambda>m. nodeIdentity m = nodeIdentity n) (rev (flowNodes f)) = Some n"
    using assms by (intro find_map_distinct) (simp_all add: rev_map [symmetric])
  then show ?thesis by (simp add: nodes_map_def foldl_map_upd)
qed

lemma flowNode_Some: "flowNode f i = Some n \<Longrightarrow> n \<in> set (flowNodes f) \<and> nodeIdentity n = i"
  unfolding flowNode_def by (rule find_SomeD)

section \<open>Routing\<close>

text \<open>The recorded cases are unambiguous when no identity holds the separating zero byte.\<close>

definition nul_free :: "flow \<Rightarrow> bool" where
  "nul_free f \<longleftrightarrow> (\<forall>i \<in> set (node_ids f). CHR 0x00 \<notin> set i)"

lemma event_string_nul [simp]: "CHR 0x00 \<notin> set (event_string e)"
  by (cases e) simp_all

lemma nul_split:
  assumes "a @ [CHR 0x00] @ x = b @ [CHR 0x00] @ y" and "CHR 0x00 \<notin> set a" and "CHR 0x00 \<notin> set b"
  shows "a = b \<and> x = y"
proof -
  have tw: "takeWhile (\<lambda>c. c \<noteq> CHR 0x00) (c @ [CHR 0x00] @ z) = c" if "CHR 0x00 \<notin> set c" for c z
    using that by (subst takeWhile_append2) auto
  from assms have "a = b" using tw [of a x] tw [of b y] by metis
  with assms(1) show ?thesis by simp
qed

lemma plain_key_eq:
  assumes "CHR 0x00 \<notin> set a" and "CHR 0x00 \<notin> set b"
  shows "plain_key a e = plain_key b e' \<longleftrightarrow> a = b \<and> e = e'"
  using assms nul_split [of a "event_string e" b "event_string e'"] by (auto simp: plain_key_def)

lemma guarded_key_eq:
  assumes "CHR 0x00 \<notin> set a" and "CHR 0x00 \<notin> set b"
  shows "guarded_key a e g = guarded_key b e' g' \<longleftrightarrow> a = b \<and> e = e' \<and> g = g'"
proof
  assume "guarded_key a e g = guarded_key b e' g'"
  then have "a = b" and "event_string e @ [CHR 0x00] @ g = event_string e' @ [CHR 0x00] @ g'"
    using assms nul_split [of a "event_string e @ [CHR 0x00] @ g" b] by (auto simp: guarded_key_def plain_key_def)
  with nul_split [OF this(2)] show "a = b \<and> e = e' \<and> g = g'" by simp
qed auto

lemma plain_not_guarded:
  assumes "CHR 0x00 \<notin> set a" and "CHR 0x00 \<notin> set b"
  shows "plain_key a e \<noteq> guarded_key b e' g"
proof
  assume "plain_key a e = guarded_key b e' g"
  then have "event_string e = event_string e' @ [CHR 0x00] @ g"
    using assms nul_split [of a "event_string e" b] by (auto simp: guarded_key_def plain_key_def)
  then have "CHR 0x00 \<in> set (event_string e)" by simp
  then show False by simp
qed

lemma unique_filter:
  assumes "distinct (map k ts)" and "t \<in> set ts" and "p t" and "\<And>u. u \<in> set ts \<Longrightarrow> p u \<Longrightarrow> k u = k t"
  shows "filter p ts = [t]"
proof -
  have inj: "inj_on k (set ts)" and d: "distinct ts" using assms(1) by (simp_all add: distinct_map)
  have "filter p ts = filter (\<lambda>u. u = t) ts"
    using assms(2-4) inj by (intro filter_cong refl) (auto dest: inj_onD)
  also have "\<dots> = [t]"
    using d assms(2) by (induction ts) (auto simp: filter_empty_conv)
  finally show ?thesis .
qed

lemma guards_kind:
  assumes "ValidateFlow f = []" and "n \<in> set (flowNodes f)"
  shows "guards f (nodeIdentity n) \<longleftrightarrow> nodeKind n = NodeMatch \<or> nodeKind n = NodePredicate"
  using nodes_map_distinct [OF valid_nodes(1) [OF assms(1)] assms(2)] by (simp add: guards_def)

lemma from_nul_free:
  "ValidateFlow f = [] \<Longrightarrow> nul_free f \<Longrightarrow> t \<in> set (flowTransitions f) \<Longrightarrow> CHR 0x00 \<notin> set (tFrom t)"
  using valid_transitions(3) [of f t] by (auto simp: nul_free_def)

lemma select_recorded:
  assumes v: "ValidateFlow f = []" and z: "nul_free f" and n: "n \<in> set (flowNodes f)"
    and k: "nodeKind n \<notin> {NodeMatch, NodePredicate}"
    and key: "plain_key (nodeIdentity n) e \<in> transition_cases f"
  shows "\<exists>t. selectTransition f (nodeIdentity n) e = Inr (t, [tIdentity t]) \<and> tTo t \<in> set (node_ids f)"
proof -
  have ng: "\<not> guards f (nodeIdentity n)" using guards_kind [OF v n] k by auto
  have zn: "CHR 0x00 \<notin> set (nodeIdentity n)" using z n by (auto simp: nul_free_def)
  from key obtain t where t: "t \<in> set (flowTransitions f)" and kt: "case_key f t = plain_key (nodeIdentity n) e"
    by (auto simp: transition_cases_def)
  have zt: "CHR 0x00 \<notin> set (tFrom t)" by (rule from_nul_free [OF v z t])
  from kt plain_not_guarded [OF zn zt] have "plain_key (tFrom t) (tEvent t) = plain_key (nodeIdentity n) e"
    by (auto simp: case_key_def split: if_splits) metis
  with plain_key_eq [OF zt zn] have ft: "tFrom t = nodeIdentity n" "tEvent t = e" by auto
  have "filter (\<lambda>u. tFrom u = nodeIdentity n \<and> tEvent u = e) (flowTransitions f) = [t]"
    using valid_transitions(2) [OF v] t ft ng by (intro unique_filter [where k = "case_key f"]) (auto simp: case_key_def)
  then show ?thesis using valid_transitions(3) [OF v t] by (simp add: selectTransition_def)
qed

lemma select_guarded_recorded:
  assumes v: "ValidateFlow f = []" and z: "nul_free f" and n: "n \<in> set (flowNodes f)"
    and k: "nodeKind n \<in> {NodeMatch, NodePredicate}"
    and key: "guarded_key (nodeIdentity n) e g \<in> transition_cases f"
  shows "\<exists>t. selectGuardedTransition f (nodeIdentity n) e g = Inr (t, [tIdentity t]) \<and>
    tTo t \<in> set (node_ids f)"
proof -
  have ng: "guards f (nodeIdentity n)" using guards_kind [OF v n] k by auto
  have zn: "CHR 0x00 \<notin> set (nodeIdentity n)" using z n by (auto simp: nul_free_def)
  from key obtain t where t: "t \<in> set (flowTransitions f)"
    and kt: "case_key f t = guarded_key (nodeIdentity n) e g"
    by (auto simp: transition_cases_def)
  have zt: "CHR 0x00 \<notin> set (tFrom t)" by (rule from_nul_free [OF v z t])
  from kt plain_not_guarded [OF zt zn]
  have "guarded_key (tFrom t) (tEvent t) (tGuard t) = guarded_key (nodeIdentity n) e g"
    by (auto simp: case_key_def split: if_splits)
  with guarded_key_eq [OF zt zn] have ft: "tFrom t = nodeIdentity n" "tEvent t = e" "tGuard t = g" by auto
  have "filter (\<lambda>u. tFrom u = nodeIdentity n \<and> tEvent u = e \<and> tGuard u = g) (flowTransitions f) = [t]"
    using valid_transitions(2) [OF v] t ft ng by (intro unique_filter [where k = "case_key f"]) (auto simp: case_key_def)
  then show ?thesis using valid_transitions(3) [OF v t] by (simp add: selectGuardedTransition_def)
qed

lemma valid_effect_routes:
  assumes "ValidateFlow f = []" and "nul_free f" and "n \<in> set (flowNodes f)"
    and "nodeKind n = NodeEffect" and "e \<in> set result_events"
  shows "\<exists>t. selectTransition f (nodeIdentity n) e = Inr (t, [tIdentity t]) \<and> tTo t \<in> set (node_ids f)"
proof -
  have "plain_key (nodeIdentity n) e \<in> transition_cases f"
    using valid_parts(6) [OF assms(1,3)] assms(4,5)
    by (auto simp: references_diags_def result_events_def filter_empty_conv split: if_splits)
  with select_recorded [OF assms(1-3)] assms(4) show ?thesis by auto
qed

lemma valid_match_routes:
  assumes "ValidateFlow f = []" and "nul_free f" and "n \<in> set (flowNodes f)"
    and "nodeKind n = NodeMatch" and "oc \<noteq> TerminalNone"
  shows "\<exists>t. selectGuardedTransition f (nodeIdentity n) MachineContinue (terminal_string oc)
    = Inr (t, [tIdentity t]) \<and> tTo t \<in> set (node_ids f)"
proof -
  have "guarded_key (nodeIdentity n) MachineContinue (terminal_string oc) \<in> transition_cases f"
    using valid_parts(6) [OF assms(1,3)] assms(4,5)
    by (cases oc) (auto simp: references_diags_def outcome_names_def filter_empty_conv split: if_splits)
  with select_guarded_recorded [OF assms(1-3)] assms(4) show ?thesis by auto
qed

lemma valid_predicate_routes:
  assumes "ValidateFlow f = []" and "nul_free f" and "n \<in> set (flowNodes f)"
    and "nodeKind n = NodePredicate"
  shows "\<exists>t. selectGuardedTransition f (nodeIdentity n) MachineContinue (if b then ''true'' else ''false'')
    = Inr (t, [tIdentity t]) \<and> tTo t \<in> set (node_ids f)"
proof -
  have "guarded_key (nodeIdentity n) MachineContinue (if b then ''true'' else ''false'') \<in> transition_cases f"
    using valid_parts(6) [OF assms(1,3)] assms(4)
    by (cases b) (auto simp: references_diags_def filter_empty_conv split: if_splits)
  with select_guarded_recorded [OF assms(1-3)] assms(4) show ?thesis by auto
qed

section \<open>Reachability and cycles\<close>

interpretation flow_graph: finite_graph "adjacency f" "insert x (set (edge_targets f))" for f x
  by unfold_locales
    (auto simp: adjacency_def edge_targets_def join_edges_def split: if_splits)

lemma graph_fuel_enough: "card (insert x (set (edge_targets f))) < graph_fuel f"
  using card_length [of "x # edge_targets f"] by (simp add: graph_fuel_def)

lemma reachable_exact:
  "reachable f = Some {i. (flowEntry f, i) \<in> (edges (adjacency f))\<^sup>*}"
  unfolding reachable_def by (rule flow_graph.mark_reaches) (auto simp: graph_fuel_enough)

lemma has_cycle_exact:
  "has_cycle f \<longleftrightarrow>
    (\<exists>i. (flowEntry f, i) \<in> (edges (adjacency f))\<^sup>* \<and> (i, i) \<in> (edges (adjacency f))\<^sup>+)"
  using flow_graph.visit_decides [of "flowEntry f" "flowEntry f" f "graph_fuel f"] graph_fuel_enough [of "flowEntry f" f]
  by (auto simp: has_cycle_def)

lemma flowNodeReaches_exact:
  "flowNodeReaches f a b \<longleftrightarrow> (a, b) \<in> (edges (adjacency f))\<^sup>*"
  using flow_graph.queue_decides [of a a f "graph_fuel f" b] graph_fuel_enough [of a f]
  by (simp add: flowNodeReaches_def)

lemma adjacency_edge:
  "(i, j) \<in> edges (adjacency f) \<longleftrightarrow>
     (\<exists>n \<in> set (flowNodes f). nodeIdentity n = i \<and> j \<in> set (nodeTargets n)) \<or>
     (\<exists>n \<in> set (flowNodes f). nodeKind n = NodeJoin \<and> i \<in> set (nodeWaitFor n) \<and> j = nodeIdentity n) \<or>
     (\<exists>t \<in> set (flowTransitions f). tFrom t = i \<and> tTo t = j)"
  by (auto simp: adjacency_def join_edges_def split: if_splits)

lemma valid_graph:
  assumes "ValidateFlow f = []"
  shows "\<not> (\<exists>i. (flowEntry f, i) \<in> (edges (adjacency f))\<^sup>* \<and> (i, i) \<in> (edges (adjacency f))\<^sup>+)"
    and "n \<in> set (flowNodes f) \<Longrightarrow> nodeKind n \<noteq> NodeTerminal \<Longrightarrow> \<not> nodeCleanup n \<Longrightarrow>
      (flowEntry f, nodeIdentity n) \<in> (edges (adjacency f))\<^sup>*"
proof -
  show "\<not> (\<exists>i. (flowEntry f, i) \<in> (edges (adjacency f))\<^sup>* \<and> (i, i) \<in> (edges (adjacency f))\<^sup>+)"
    using valid_parts(9) [OF assms] has_cycle_exact [of f] by (auto simp: cycle_diags_def split: if_splits)
  show "n \<in> set (flowNodes f) \<Longrightarrow> nodeKind n \<noteq> NodeTerminal \<Longrightarrow> \<not> nodeCleanup n \<Longrightarrow>
      (flowEntry f, nodeIdentity n) \<in> (edges (adjacency f))\<^sup>*"
    using valid_parts(8) [OF assms]
    by (auto simp: unreachable_diags_def reachable_exact filter_empty_conv)
qed

end
