(* ===== verification/Build_Props.thy ===== *)
theory Build_Props
  imports Workflow_Compile Validate_Props
begin

text \<open>
  What the compiler guarantees of every program it emits, before \<open>ValidateFlow\<close> sees it:
  identities are distinct, every reference resolves, and every node has exactly the transitions
  its kind needs.  The invariant \<open>built W b\<close> holds of a builder at work: \<open>W\<close> gives the nodes
  whose transitions are still being added, with the cases they have so far; a node is opened
  when it is added and closed when it has what its kind requires.
\<close>

section \<open>The invariant\<close>

type_synonym transition_case = "machine_event_kind \<times> string"

abbreviation bNodes :: "builder \<Rightarrow> flow_node list" where
  "bNodes b \<equiv> flowNodes (bFlow b)"

abbreviation bTransitions :: "builder \<Rightarrow> transition list" where
  "bTransitions b \<equiv> flowTransitions (bFlow b)"

abbreviation bRegions :: "builder \<Rightarrow> string list" where
  "bRegions b \<equiv> map erIdentity (flowRegions (bFlow b))"

abbreviation ids :: "builder \<Rightarrow> string set" where
  "ids b \<equiv> set (node_ids (bFlow b))"

definition base_ids :: "string set" where
  "base_ids = {''entry'', ''terminal/succeeded'', ''terminal/failed'', ''terminal/cancelled'',
     ''terminal/timedOut''}"

definition outs :: "builder \<Rightarrow> string \<Rightarrow> transition_case set" where
  "outs b i = set (map (\<lambda>t. (tEvent t, tGuard t)) (filter (\<lambda>t. tFrom t = i) (bTransitions b)))"

definition continue_case :: transition_case where
  "continue_case = (MachineContinue, event_string MachineContinue)"

definition result_cases :: "transition_case set" where
  "result_cases = (\<lambda>e. (e, event_string e)) ` set result_events"

fun required_cases :: "node_kind \<Rightarrow> transition_case set" where
  "required_cases NodeEntry = {continue_case}"
| "required_cases NodeJoin = {continue_case}"
| "required_cases NodeIterator = {continue_case}"
| "required_cases NodeEffect = result_cases"
| "required_cases NodeMatch = (\<lambda>k. (MachineContinue, k)) ` set outcome_names"
| "required_cases NodePredicate = {(MachineContinue, ''true''), (MachineContinue, ''false'')}"
| "required_cases _ = {}"

definition guarded_kind :: "node_kind \<Rightarrow> bool" where
  "guarded_kind k \<longleftrightarrow> k = NodeMatch \<or> k = NodePredicate"

definition filled :: "flow_node \<Rightarrow> bool" where
  "filled n \<longleftrightarrow> (nodeKind n = NodeEffect \<longrightarrow> nodeEffect n \<noteq> None) \<and>
     (nodeKind n = NodePredicate \<longrightarrow> nodePredicate n \<noteq> None)"

definition transition_id :: "nat \<Rightarrow> string" where
  "transition_id k = ''transition/'' @ pad_nat 3 k"

definition named :: "builder \<Rightarrow> bool" where
  "named b \<longleftrightarrow> distinct (node_ids (bFlow b)) \<and>
     (\<forall>i \<in> ids b. i \<in> base_ids \<or> (\<exists>k l. k \<le> bNext b \<and> i = node_identity k l))"

definition linked :: "builder \<Rightarrow> bool" where
  "linked b \<longleftrightarrow>
     (\<forall>t \<in> set (bTransitions b). tFrom t \<in> ids b \<and> tTo t \<in> ids b) \<and>
     (\<forall>n \<in> set (bNodes b). set (nodeTargets n) \<subseteq> ids b \<and> set (nodeWaitFor n) \<subseteq> ids b) \<and>
     {bFailure b, bCancel b, bTimeout b} \<subseteq> ids b \<and>
     {ftSucceeded (flowTerminals (bFlow b)), ftFailed (flowTerminals (bFlow b)),
      ftCancelled (flowTerminals (bFlow b)), ftTimedOut (flowTerminals (bFlow b))} \<subseteq> ids b \<and>
     map tIdentity (bTransitions b) = map transition_id [1..<Suc (length (bTransitions b))]"

definition routed :: "(string \<rightharpoonup> transition_case set) \<Rightarrow> builder \<Rightarrow> bool" where
  "routed W b \<longleftrightarrow>
     distinct (map (\<lambda>t. (tFrom t, tEvent t, tGuard t)) (bTransitions b)) \<and>
     dom W \<subseteq> ids b \<and> (\<forall>i s. W i = Some s \<longrightarrow> outs b i = s) \<and>
     (\<forall>n \<in> set (bNodes b). nodeIdentity n \<notin> dom W \<longrightarrow>
        required_cases (nodeKind n) \<subseteq> outs b (nodeIdentity n) \<and> filled n) \<and>
     (\<forall>n \<in> set (bNodes b). \<not> guarded_kind (nodeKind n) \<longrightarrow>
        (\<forall>c \<in> outs b (nodeIdentity n). snd c = event_string (fst c)))"

definition located :: "builder \<Rightarrow> bool" where
  "located b \<longleftrightarrow> distinct (bRegions b) \<and> bRegion b \<in> set (bRegions b) \<and>
     (\<forall>n \<in> set (bNodes b). nodeRegion n \<noteq> '''' \<longrightarrow> nodeRegion n \<in> set (bRegions b))"

definition built :: "(string \<rightharpoonup> transition_case set) \<Rightarrow> builder \<Rightarrow> bool" where
  "built W b \<longleftrightarrow> named b \<and> linked b \<and> routed W b \<and> located b"

text \<open>What every compile function leaves of the scope it was called in.\<close>

definition same_scope :: "builder \<Rightarrow> builder \<Rightarrow> bool" where
  "same_scope b b' \<longleftrightarrow> bFailure b' = bFailure b \<and> bCancel b' = bCancel b \<and>
     bTimeout b' = bTimeout b \<and> bRegion b' = bRegion b \<and>
     flowTerminals (bFlow b') = flowTerminals (bFlow b) \<and> flowEntry (bFlow b') = flowEntry (bFlow b) \<and>
     flowExpansion (bFlow b') = flowExpansion (bFlow b) \<and>
     flowSchemaVersion (bFlow b') = flowSchemaVersion (bFlow b)"

definition node_kinds :: "builder \<Rightarrow> (string \<times> node_kind) set" where
  "node_kinds b = set (map (\<lambda>n. (nodeIdentity n, nodeKind n)) (bNodes b))"

definition grew :: "builder \<Rightarrow> builder \<Rightarrow> bool" where
  "grew b b' \<longleftrightarrow> same_scope b b' \<and> node_kinds b \<subseteq> node_kinds b' \<and>
     set (bRegions b) \<subseteq> set (bRegions b')"

lemma node_kinds_ids: "fst ` node_kinds b = ids b"
  by (force simp: node_kinds_def)

lemma grew_ids: "grew b b' \<Longrightarrow> i \<in> ids b \<Longrightarrow> i \<in> ids b'"
  by (metis grew_def image_mono node_kinds_ids subsetD)

lemma grew_refl [simp, intro]: "grew b b"
  by (simp add: grew_def same_scope_def node_kinds_def)

lemma grew_trans [trans]: "grew a b \<Longrightarrow> grew b c \<Longrightarrow> grew a c"
  unfolding grew_def same_scope_def by (elim conjE, intro conjI) (simp, simp, simp, simp, simp, simp, simp, simp, (rule subset_trans, assumption+)+)

section \<open>Fields the invariant does not read\<close>

named_theorems builder_simps

lemma built_fields [builder_simps]:
  "built W (b\<lparr>bBranch := x\<rparr>) = built W b"
  "built W (b\<lparr>bCause := c\<rparr>) = built W b"
  "built W (b\<lparr>bFinally := k\<rparr>) = built W b"
  "built W (b\<lparr>bForEach := k\<rparr>) = built W b"
  "built W (b\<lparr>bPath := p\<rparr>) = built W b"
  "built W (b\<lparr>bEffects := m\<rparr>) = built W b"
  "built W (b\<lparr>bAuthored := a\<rparr>) = built W b"
  "built W (b\<lparr>bMatch := m\<rparr>) = built W b"
  by (simp_all add: built_def named_def linked_def routed_def located_def outs_def)

lemma grew_fields [builder_simps]:
  "grew a (b\<lparr>bBranch := x\<rparr>) = grew a b" "grew (b\<lparr>bBranch := x\<rparr>) c = grew b c"
  "grew a (b\<lparr>bFinally := k\<rparr>) = grew a b" "grew (b\<lparr>bFinally := k\<rparr>) c = grew b c"
  "grew a (b\<lparr>bForEach := k\<rparr>) = grew a b" "grew (b\<lparr>bForEach := k\<rparr>) c = grew b c"
  "grew a (b\<lparr>bPath := p\<rparr>) = grew a b" "grew (b\<lparr>bPath := p\<rparr>) c = grew b c"
  "grew a (b\<lparr>bEffects := m\<rparr>) = grew a b" "grew (b\<lparr>bEffects := m\<rparr>) c = grew b c"
  "grew a (b\<lparr>bMatch := m\<rparr>) = grew a b" "grew (b\<lparr>bMatch := m\<rparr>) c = grew b c"
  by (simp_all add: grew_def same_scope_def node_kinds_def)

lemma built_targets:
  "built W b \<Longrightarrow> {x, y, z} \<subseteq> ids b \<Longrightarrow>
    built W (b\<lparr>bFailure := x, bCancel := y, bTimeout := z\<rparr>)"
  by (simp add: built_def named_def linked_def routed_def located_def outs_def)

lemma built_append_value [builder_simps]:
  "built W (append_value v b) = built W b" "grew b (append_value v b)"
  by (simp_all add: append_value_def built_def named_def linked_def routed_def located_def outs_def
      grew_def same_scope_def node_kinds_def)

lemma built_append_aggregate [builder_simps]:
  "built W (append_aggregate a b) = built W b" "grew b (append_aggregate a b)"
  by (simp_all add: append_aggregate_def built_def named_def linked_def routed_def located_def outs_def
      grew_def same_scope_def node_kinds_def)

lemma built_addProjection [builder_simps]:
  "built W (addProjection r b) = built W b" "grew b (addProjection r b)"
  by (simp_all add: addProjection_def builder_simps)

lemma built_add_projections [builder_simps]:
  "built W (add_projections rs b) = built W b" "grew b (add_projections rs b)"
proof -
  have "built W (add_projections rs b) = built W b \<and> grew b (add_projections rs b)"
    unfolding add_projections_def
  proof (induction rs arbitrary: b)
    case (Cons r rs)
    let ?b = "if vrIdentity r = vrSource r then b else addProjection r b"
    have "built W ?b = built W b" "grew b ?b" by (simp_all add: builder_simps)
    with Cons.IH [of ?b] show ?case by (auto intro: grew_trans)
  qed simp
  then show "built W (add_projections rs b) = built W b" "grew b (add_projections rs b)" by simp_all
qed

section \<open>Adding nodes, regions and transitions\<close>

lemma node_identity_inj: "node_identity k l = node_identity k' l' \<Longrightarrow> k = k'"
  by (auto simp: node_identity_def dest: pad_nat_sep_inj)

lemma node_identity_not_base [simp]: "node_identity k l \<notin> base_ids"
  by (simp add: node_identity_def base_ids_def)

lemma addNode_fresh: "named b \<Longrightarrow> node_identity (Suc (bNext b)) l \<notin> ids b"
  by (auto simp: named_def dest: node_identity_inj) (metis Suc_n_not_le_n node_identity_inj image_eqI node_identity_not_base)+

lemma outs_node [simp]:
  "outs (b\<lparr>bNext := k, bFlow := (bFlow b)\<lparr>flowNodes := ns\<rparr>\<rparr>) i = outs b i"
  by (simp add: outs_def)

lemma outs_empty: "linked b \<Longrightarrow> i \<notin> ids b \<Longrightarrow> outs b i = {}"
  by (auto simp: outs_def linked_def)

text \<open>A new node is open, with no cases.\<close>

lemma built_addNode:
  assumes "built W b" and "addNode l k b = (i, b')"
  shows "built (W(i \<mapsto> {})) b'" and "grew b b'" and "i \<in> ids b'" and "i \<notin> ids b" and "i \<notin> dom W"
    and "bNodes b' = bNodes b @ [new_node i k]"
proof -
  from assms(2) have i: "i = node_identity (Suc (bNext b)) l"
    and b': "b' = b\<lparr>bNext := bNext b + 1, bFlow := (bFlow b)\<lparr>flowNodes := bNodes b @ [new_node i k]\<rparr>\<rparr>"
    by (auto simp: addNode_def Let_def)
  have n: "named b" "linked b" "routed W b" "located b" using assms(1) by (simp_all add: built_def)
  show fresh: "i \<notin> ids b" using addNode_fresh [OF n(1)] i by simp
  show "bNodes b' = bNodes b @ [new_node i k]" by (simp add: b')
  show "i \<in> ids b'" by (simp add: b')
  show "i \<notin> dom W" using fresh n(3) by (auto simp: routed_def)
  show "grew b b'" by (auto simp: b' grew_def same_scope_def node_kinds_def)
  have "named b'"
    using n(1) fresh i by (force simp: named_def b' le_Suc_eq)
  moreover have "linked b'" using n(2) by (auto simp: linked_def b')
  moreover have "routed (W(i \<mapsto> {})) b'"
    using n(3) fresh outs_empty [OF n(2) fresh] by (auto simp: routed_def b')
  moreover have "located b'" using n(4) by (auto simp: located_def b')
  ultimately show "built (W(i \<mapsto> {})) b'" by (simp add: built_def)
qed

text \<open>A closed node has the cases its kind requires, and its content.\<close>

lemma built_close:
  assumes "built (W(i \<mapsto> s)) b" and "i \<notin> dom W"
    and "\<And>n. n \<in> set (bNodes b) \<Longrightarrow> nodeIdentity n = i \<Longrightarrow> required_cases (nodeKind n) \<subseteq> s \<and> filled n"
  shows "built W b"
proof -
  have r: "routed (W(i \<mapsto> s)) b" using assms(1) by (simp add: built_def)
  then have s: "outs b i = s" by (simp add: routed_def)
  have "outs b j = u" if "W j = Some u" for j u
    using r that assms(2) by (cases "j = i") (auto simp: routed_def)
  moreover have "required_cases (nodeKind n) \<subseteq> outs b (nodeIdentity n) \<and> filled n"
    if "n \<in> set (bNodes b)" "nodeIdentity n \<notin> dom W" for n
    using r that assms(3) [OF that(1)] s by (cases "nodeIdentity n = i") (auto simp: routed_def)
  ultimately have "routed W b"
    using r by (simp add: routed_def)
  with assms(1) show ?thesis by (simp add: built_def)
qed

lemma addTransitionGuard_fields:
  "bNodes (addTransitionGuard from event guard to b) = bNodes b"
  "bTransitions (addTransitionGuard from event guard to b) = bTransitions b @
     [\<lparr>tIdentity = transition_id (Suc (length (bTransitions b))), tFrom = from, tEvent = event,
       tGuard = guard, tTo = to\<rparr>]"
  "bRegions (addTransitionGuard from event guard to b) = bRegions b"
  "bRegion (addTransitionGuard from event guard to b) = bRegion b"
  "bNext (addTransitionGuard from event guard to b) = bNext b"
  "grew b (addTransitionGuard from event guard to b)"
  by (simp_all add: addTransitionGuard_def Let_def transition_id_def grew_def same_scope_def node_kinds_def)

lemma outs_addTransition:
  "outs (addTransitionGuard from event guard to b) i =
     (if i = from then insert (event, guard) (outs b i) else outs b i)"
  by (auto simp: outs_def addTransitionGuard_fields)

text \<open>A transition goes out of an open node and adds one case to it.\<close>

lemma built_addTransitionGuard:
  assumes "built (W(i \<mapsto> s)) b" and "to \<in> ids b" and "(event, guard) \<notin> s"
    and "\<And>n. n \<in> set (bNodes b) \<Longrightarrow> nodeIdentity n = i \<Longrightarrow> \<not> guarded_kind (nodeKind n) \<Longrightarrow>
      guard = event_string event"
  shows "built (W(i \<mapsto> insert (event, guard) s)) (addTransitionGuard i event guard to b)"
proof -
  let ?b = "addTransitionGuard i event guard to b"
  have n: "named b" "linked b" "routed (W(i \<mapsto> s)) b" "located b"
    using assms(1) by (simp_all add: built_def)
  have s: "outs b i = s" and i: "i \<in> ids b" using n(3) by (auto simp: routed_def)
  have "named ?b" using n(1) by (simp add: named_def addTransitionGuard_fields)
  moreover have "linked ?b"
  proof -
    have "map tIdentity (bTransitions ?b) = map transition_id [1..<Suc (length (bTransitions ?b))]"
      using n(2) by (simp add: linked_def addTransitionGuard_fields)
    moreover have "\<forall>t \<in> set (bTransitions ?b). tFrom t \<in> ids ?b \<and> tTo t \<in> ids ?b"
      using n(2) i assms(2) by (auto simp: linked_def addTransitionGuard_fields)
    moreover have "same_scope b ?b" using addTransitionGuard_fields(6) by (simp add: grew_def)
    ultimately show ?thesis
      using n(2) by (simp add: linked_def addTransitionGuard_fields(1) same_scope_def)
  qed
  moreover have "routed (W(i \<mapsto> insert (event, guard) s)) ?b"
  proof -
    have "(i, event, guard) \<notin> set (map (\<lambda>t. (tFrom t, tEvent t, tGuard t)) (bTransitions b))"
      using assms(3) s by (auto simp: outs_def)
    with n(3) s assms(4) show ?thesis
      by (auto simp: routed_def addTransitionGuard_fields outs_addTransition)
  qed
  moreover have "located ?b" using n(4) by (simp add: located_def addTransitionGuard_fields)
  ultimately show ?thesis by (simp add: built_def)
qed

lemma kind_of_node:
  assumes "named b" and "(i, k) \<in> node_kinds b" and "n \<in> set (bNodes b)" and "nodeIdentity n = i"
  shows "nodeKind n = k"
proof -
  from assms(2) obtain m where "m \<in> set (bNodes b)" "nodeIdentity m = i" "nodeKind m = k"
    by (auto simp: node_kinds_def)
  moreover have "m = n" if "m \<in> set (bNodes b)" "nodeIdentity m = i" for m
    using assms(1,3,4) that by (auto simp: named_def distinct_map dest: inj_onD)
  ultimately show ?thesis by simp
qed

lemma built_kind:
  "built W b \<Longrightarrow> (i, k) \<in> node_kinds b \<Longrightarrow> n \<in> set (bNodes b) \<Longrightarrow> nodeIdentity n = i \<Longrightarrow> nodeKind n = k"
  using kind_of_node by (auto simp: built_def)

lemma addNode_kind: "addNode l k b = (i, b') \<Longrightarrow> (i, k) \<in> node_kinds b'"
  by (auto simp: addNode_def Let_def node_kinds_def)

lemma grew_kind: "grew b b' \<Longrightarrow> x \<in> node_kinds b \<Longrightarrow> x \<in> node_kinds b'"
  by (auto simp: grew_def)

section \<open>Updating a node\<close>

lemma on_node_members:
  "n \<in> set (bNodes (on_node i g b)) \<Longrightarrow>
    n \<in> set (bNodes b) \<or> (\<exists>m \<in> set (bNodes b). nodeIdentity m = i \<and> n = g m)"
  using set_update_first [of n "\<lambda>n. nodeIdentity n = i" g] by (simp add: on_node_def)

lemma update_first_here:
  "distinct (map k xs) \<Longrightarrow> (\<And>x. k (g x) = k x) \<Longrightarrow> y \<in> set (update_first (\<lambda>x. k x = i) g xs) \<Longrightarrow>
    k y = i \<Longrightarrow> \<exists>x \<in> set xs. k x = i \<and> y = g x"
proof (induction xs)
  case (Cons x xs)
  show ?case
  proof (cases "k x = i")
    case True
    with Cons.prems(1,4) have "y \<notin> set xs" by auto
    with True Cons.prems(3) show ?thesis by simp
  next
    case False
    with Cons.prems(3,4) have "y \<in> set (update_first (\<lambda>x. k x = i) g xs)" by auto
    with Cons show ?thesis by auto
  qed
qed simp

lemma on_node_here:
  assumes "named b" and "\<And>n. nodeIdentity (g n) = nodeIdentity n"
    and "n \<in> set (bNodes (on_node i g b))" and "nodeIdentity n = i"
  shows "\<exists>m \<in> set (bNodes b). nodeIdentity m = i \<and> n = g m"
  using assms update_first_here [of nodeIdentity "bNodes b" g n i] by (simp add: on_node_def named_def)

lemma on_node_fields:
  "bTransitions (on_node i g b) = bTransitions b" "bRegions (on_node i g b) = bRegions b"
  "bRegion (on_node i g b) = bRegion b" "bNext (on_node i g b) = bNext b"
  "outs (on_node i g b) = outs b" "same_scope b (on_node i g b)"
  by (simp_all add: on_node_def outs_def same_scope_def fun_eq_iff)

lemma on_node_ids:
  assumes "\<And>n. nodeIdentity (g n) = nodeIdentity n \<and> nodeKind (g n) = nodeKind n"
  shows "node_ids (bFlow (on_node i g b)) = node_ids (bFlow b)"
    and "node_kinds (on_node i g b) = node_kinds b"
  using assms by (simp_all add: on_node_def node_kinds_def map_update_first)

lemma built_node:
  assumes "built W b" and "n \<in> set (bNodes b)"
  shows "set (nodeTargets n) \<subseteq> ids b" and "set (nodeWaitFor n) \<subseteq> ids b"
    and "nodeRegion n \<noteq> [] \<Longrightarrow> nodeRegion n \<in> set (bRegions b)"
    and "nodeIdentity n \<notin> dom W \<Longrightarrow> required_cases (nodeKind n) \<subseteq> outs b (nodeIdentity n)"
    and "nodeIdentity n \<notin> dom W \<Longrightarrow> filled n"
    and "\<not> guarded_kind (nodeKind n) \<Longrightarrow> c \<in> outs b (nodeIdentity n) \<Longrightarrow> snd c = event_string (fst c)"
proof -
  have p: "linked b" "routed W b" "located b" using assms(1) by (simp_all only: built_def)
  from p(1) assms(2) show "set (nodeTargets n) \<subseteq> ids b" "set (nodeWaitFor n) \<subseteq> ids b"
    by (simp_all only: linked_def)
  from p(3) assms(2) show "nodeRegion n \<noteq> [] \<Longrightarrow> nodeRegion n \<in> set (bRegions b)"
    by (simp add: located_def)
  from p(2) have "\<forall>n \<in> set (bNodes b). nodeIdentity n \<notin> dom W \<longrightarrow>
      required_cases (nodeKind n) \<subseteq> outs b (nodeIdentity n) \<and> filled n"
    and "\<forall>n \<in> set (bNodes b). \<not> guarded_kind (nodeKind n) \<longrightarrow>
      (\<forall>c \<in> outs b (nodeIdentity n). snd c = event_string (fst c))"
    unfolding routed_def by satx+
  with assms(2) show "nodeIdentity n \<notin> dom W \<Longrightarrow> required_cases (nodeKind n) \<subseteq> outs b (nodeIdentity n)"
    and "nodeIdentity n \<notin> dom W \<Longrightarrow> filled n"
    and "\<not> guarded_kind (nodeKind n) \<Longrightarrow> c \<in> outs b (nodeIdentity n) \<Longrightarrow> snd c = event_string (fst c)"
    by blast+
qed

lemma built_on_node:
  assumes b: "built W b"
    and g: "\<And>n. nodeIdentity (g n) = nodeIdentity n \<and> nodeKind (g n) = nodeKind n"
    and n: "\<And>n. n \<in> set (bNodes b) \<Longrightarrow> nodeIdentity n = i \<Longrightarrow>
      set (nodeTargets (g n)) \<subseteq> ids b \<and> set (nodeWaitFor (g n)) \<subseteq> ids b \<and>
      (nodeRegion (g n) \<noteq> [] \<longrightarrow> nodeRegion (g n) \<in> set (bRegions b)) \<and> (i \<notin> dom W \<longrightarrow> filled (g n))"
  shows "built W (on_node i g b)" and "grew b (on_node i g b)"
proof -
  let ?b = "on_node i g b"
  have p: "named b" "linked b" "routed W b" "located b" using assms(1) by (simp_all only: built_def)
  note f = on_node_fields [where i = i and g = g and b = b]
    and same = on_node_ids [where g = g and i = i and b = b, OF g]
  show "grew b ?b" using f same by (simp add: grew_def)
  have mem: "P m" if "m \<in> set (bNodes ?b)" "\<And>m. m \<in> set (bNodes b) \<Longrightarrow> P m"
    "\<And>m. m \<in> set (bNodes b) \<Longrightarrow> nodeIdentity m = i \<Longrightarrow> P (g m)" for P m
    using on_node_members [OF that(1)] that(2,3) by blast
  have "named ?b" using p(1) same(1) f by (simp add: named_def)
  moreover have "linked ?b"
  proof -
    have "set (nodeTargets m) \<subseteq> ids b \<and> set (nodeWaitFor m) \<subseteq> ids b" if "m \<in> set (bNodes ?b)" for m
      using that by (rule mem) (use built_node(1,2) [OF b] n in blast)+
    with p(2) same(1) f show ?thesis by (simp add: linked_def same_scope_def)
  qed
  moreover have "routed W ?b"
  proof -
    have "nodeIdentity m \<notin> dom W \<longrightarrow> required_cases (nodeKind m) \<subseteq> outs b (nodeIdentity m) \<and> filled m"
      if "m \<in> set (bNodes ?b)" for m
      using that
    proof (rule mem)
      fix m assume "m \<in> set (bNodes b)"
      then show "nodeIdentity m \<notin> dom W \<longrightarrow>
          required_cases (nodeKind m) \<subseteq> outs b (nodeIdentity m) \<and> filled m"
        using built_node(4,5) [OF b] by blast
    next
      fix m assume m: "m \<in> set (bNodes b)" "nodeIdentity m = i"
      show "nodeIdentity (g m) \<notin> dom W \<longrightarrow>
          required_cases (nodeKind (g m)) \<subseteq> outs b (nodeIdentity (g m)) \<and> filled (g m)"
        using built_node(4) [OF b m(1)] n [OF m] g [of m] m(2) by auto
    qed
    moreover have "\<not> guarded_kind (nodeKind m) \<longrightarrow> (\<forall>c \<in> outs b (nodeIdentity m). snd c = event_string (fst c))"
      if "m \<in> set (bNodes ?b)" for m
      using that by (rule mem) (use built_node(6) [OF b] g in auto)
    ultimately show ?thesis using p(3) same f by (simp add: routed_def)
  qed
  moreover have "located ?b"
  proof -
    have "nodeRegion m \<noteq> [] \<longrightarrow> nodeRegion m \<in> set (bRegions b)" if "m \<in> set (bNodes ?b)" for m
      using that by (rule mem) (use built_node(3) [OF b] n in blast)+
    with p(4) f show ?thesis by (simp add: located_def)
  qed
  ultimately show "built W ?b" by (simp add: built_def)
qed

lemma built_node_lists:
  assumes b: "built W b" and "set xs \<subseteq> ids b"
  shows "built W (on_node i (\<lambda>n. n\<lparr>nodeTargets := nodeTargets n @ xs\<rparr>) b)"
    and "built W (on_node i (\<lambda>n. n\<lparr>nodeWaitFor := nodeWaitFor n @ xs\<rparr>) b)"
  using built_node(1,2,3,5) [OF b] assms(2)
  by (intro built_on_node(1) [OF b]; simp add: filled_def)+

end
