(* ===== verification/Machine_Props.thy ===== *)
theory Machine_Props
  imports Machine_Step
begin

text \<open>
  What every accepted step guarantees, on any flow: the node life cycle, quiescence of the
  control nodes, the step budget and the bounded trace; and what follows for a whole replay of
  events: no effect starts twice, none finishes twice, finished nodes stay as they are.
\<close>

section \<open>The bookkeeping fields\<close>

text \<open>Counters, limits and the trace: nothing but \<open>Step\<close> itself writes them.\<close>

definition frame :: "snapshot \<Rightarrow> int \<times> int \<times> step_trace list \<times> int \<times> int" where
  "frame s = (snStepCount s, snStepLimit s, snTrace s, snTraceLimit s, snDroppedTrace s)"

named_theorems frame_simps

lemma frame_upd [frame_simps]:
  "frame (s\<lparr>snActive := a\<rparr>) = frame s"
  "frame (s\<lparr>snStatus := st\<rparr>) = frame s"
  "frame (s\<lparr>snNodes := ns\<rparr>) = frame s"
  "frame (s\<lparr>snIterators := it\<rparr>) = frame s"
  "frame (s\<lparr>snValues := v\<rparr>) = frame s"
  "frame (s\<lparr>snOutcomes := oc\<rparr>) = frame s"
  "frame (s\<lparr>snAggregates := ag\<rparr>) = frame s"
  "frame (s\<lparr>snCleanupFailures := cf\<rparr>) = frame s"
  by (simp_all add: frame_def)

lemma frame_ops [frame_simps]:
  "frame (addActive s i) = frame s"
  "frame (removeActive s i) = frame s"
  "frame (set_node s i ns) = frame s"
  "frame (set_state s i st) = frame s"
  by (simp_all add: addActive_def removeActive_def set_node_def set_state_def frame_simps)

lemma frame_activateNode [frame_simps]: "frame (activateNode f s i) = frame s"
  by (simp add: activateNode_def frame_simps split: option.splits)

lemma frame_activate_all [frame_simps]: "frame (activate_all f s is) = frame s"
  by (induction "is" arbitrary: s) (simp_all add: frame_simps)

lemma frame_foldl:
  "(\<And>s n. frame (g s n) = frame s) \<Longrightarrow> frame (foldl g s ns) = frame s"
  by (induction ns arbitrary: s) simp_all

lemma frame_cancelNonterminal [frame_simps]: "frame (cancelNonterminalNodes f s) = frame s"
  by (simp add: cancelNonterminalNodes_def frame_foldl cancel_nonterminal_node_def frame_simps)

lemma frame_settle_complete: "settle_complete f s node = Inr s' \<Longrightarrow> frame s' = frame s"
  by (cases "nodeKind node")
    (auto simp: settle_complete_def continue_from_def continue_guarded_def frame_simps
          split: sum.splits option.splits if_splits prod.splits)

interpretation frame_kept: settle_invariant f "\<lambda>s. frame s = c" for f c
  by unfold_locales (auto simp: frame_simps dest: frame_settle_complete)

lemma frame_settleControl: "settleControl f s = Inr s' \<Longrightarrow> frame s' = frame s"
  using frame_kept.settleControl_keeps [of f s s' "frame s"] by simp

lemma frame_aggregate [frame_simps]: "frame (recordAggregateOutcome f s v oc) = frame s"
proof -
  have "frame (record_aggregate_outcome ds s v oc) = frame s" for ds
    by (induction ds) (simp_all add: Let_def frame_simps split: option.splits)
  then show ?thesis by (simp add: recordAggregateOutcome_def)
qed

lemma frame_record [frame_simps]:
  "frame (record_value s node event) = frame s"
  "frame (record_outcome f s node event) = frame s"
  "frame (record_cleanup_failure s node event) = frame s"
  by (simp_all add: record_value_def record_outcome_def record_cleanup_failure_def frame_simps
      split: option.splits)

lemma frame_dispatch: "step_dispatch f s trace event = Inr (s', tr) \<Longrightarrow> frame s' = frame s"
  by (auto simp: step_dispatch_def step_start_def step_effect_started_def step_cancel_all_def
        step_effect_result_def Let_def frame_simps
      split: machine_event_kind.splits if_splits sum.splits option.splits prod.splits)

section \<open>Node states\<close>

lemma state_of_aggregate [state_simps]:
  "state_of (recordAggregateOutcome f s v oc) i = state_of s i"
proof -
  have "state_of (record_aggregate_outcome ds s v oc) i = state_of s i" for ds
    by (induction ds) (simp_all add: Let_def state_simps split: option.splits)
  then show ?thesis by (simp add: recordAggregateOutcome_def)
qed

lemma state_of_record [state_simps]:
  "state_of (record_value s node event) i = state_of s i"
  "state_of (record_outcome f s node event) i = state_of s i"
  "state_of (record_cleanup_failure s node event) i = state_of s i"
  by (simp_all add: record_value_def record_outcome_def record_cleanup_failure_def state_simps
      split: option.splits)

interpretation evolved_kept: settle_invariant f "\<lambda>s. evolved s0 s" for f s0
proof unfold_locales
  fix s node
  assume "evolved s0 s" and "state_of s (nodeIdentity node) = StateWaiting"
  then show "evolved s0 (addActive (set_state s (nodeIdentity node) StatePending) (nodeIdentity node))"
    by (elim evolved_trans) (auto simp: evolved_def state_simps)
next
  fix s node s'
  assume "evolved s0 s" and p: "state_of s (nodeIdentity node) = StatePending"
    and c: "settle_complete f (set_state (removeActive s (nodeIdentity node)) (nodeIdentity node)
          StateSucceeded) node = Inr s'"
  have "evolved s (set_state (removeActive s (nodeIdentity node)) (nodeIdentity node) StateSucceeded)"
    using p by (auto simp: evolved_def state_simps)
  with \<open>evolved s0 s\<close> show "evolved s0 s'"
    using evolved_settle_complete [OF c] by (blast intro: evolved_trans)
qed (simp add: evolved_def state_simps)

lemma evolved_settleControl: "settleControl f s = Inr s' \<Longrightarrow> evolved s s'"
  using evolved_kept.settleControl_keeps [of f s s' s] by simp

lemma requireEffectState_state:
  "requireEffectState f s i allowed = Inr (node, ns) \<Longrightarrow>
    snNodes s i = Some ns \<and> nsState ns = state_of s i \<and> state_of s i \<in> set allowed \<and>
    flowNode f i = Some node \<and> nodeKind node = NodeEffect"
  by (auto simp: requireEffectState_def state_of_def node_of_def zget_def
      split: option.splits if_splits)

lemma evolved_cancel_all: "evolved s (step_cancel_all f s)"
proof -
  have "evolved s (s\<lparr>snNodes := cancel_all_nodes f (snNodes s), snActive := []\<rparr>)"
    by (auto simp: evolved_def state_of_def node_of_def zget_def cancel_all_nodes_def
        split: option.splits)
  then show ?thesis
    unfolding step_cancel_all_def by (rule evolved_trans) (rule evolved_activateNode)
qed

lemma step_started_state:
  assumes "step_effect_started f s trace event = Inr (s', tr)"
  shows "state_of s (evNode event) = StatePending"
    and "s' = set_node s (evNode event) ((node_of s (evNode event))\<lparr>nsState := StateRunning\<rparr>)"
    and "trEvent tr = trEvent trace"
  using assms
  by (auto simp: step_effect_started_def node_of_def zget_def dest!: requireEffectState_state
      split: sum.splits prod.splits option.splits if_splits)

lemma step_result_state:
  assumes "step_effect_result f s trace event = Inr (s', tr)"
  shows "state_of s (evNode event) = StateRunning"
    and "evKind event \<in> set result_events \<Longrightarrow>
      state_of s' (evNode event) = result_state (evKind event) StateRunning"
    and "evKind event \<in> set result_events \<Longrightarrow> evolved s s'"
    and "trEvent tr = trEvent trace"
proof -
  let ?i = "evNode event"
  from assms obtain node ns where req: "requireEffectState f s ?i [StateRunning] = Inr (node, ns)"
    by (auto simp: step_effect_result_def split: sum.splits)
  with assms obtain effect where "nodeEffect node = Some effect"
    by (auto simp: step_effect_result_def split: option.splits)
  with assms req obtain t eligible where "selectTransition f ?i (evKind event) = Inr (t, eligible)"
    by (auto simp: step_effect_result_def Let_def split: sum.splits)
  with assms req \<open>nodeEffect node = Some effect\<close> have
    s': "s' = activateNode f (removeActive (set_node (record_cleanup_failure
          (record_outcome f (record_value s node event) node event) node event) ?i
          (finished_node ns event)) ?i) (tTo t)"
    and "trEvent tr = trEvent trace"
    by (auto simp: step_effect_result_def Let_def)
  then show "trEvent tr = trEvent trace" by simp
  note r = requireEffectState_state [OF req]
  then show run: "state_of s ?i = StateRunning" by simp
  let ?m = "removeActive (set_node (record_cleanup_failure
          (record_outcome f (record_value s node event) node event) node event) ?i
          (finished_node ns event)) ?i"
  have m: "state_of ?m j = (if j = ?i then result_state (evKind event) StateRunning else state_of s j)" for j
    using r by (simp add: state_simps finished_node_def)
  assume k: "evKind event \<in> set result_events"
  then have fin: "result_state (evKind event) StateRunning
      \<in> {StateSucceeded, StateFailed, StateTimedOut, StateCancelled}"
    by (auto simp: result_events_def)
  have "evolved ?m s'" unfolding s' by (rule evolved_activateNode)
  then show "state_of s' ?i = result_state (evKind event) StateRunning"
    using evolved_final [of ?m s' ?i] m [of ?i] fin by auto
  have "evolved s ?m" using m run fin by (auto simp: evolved_def)
  also note \<open>evolved ?m s'\<close>
  finally show "evolved s s'" .
qed

lemma evolved_dispatch:
  assumes "step_dispatch f s trace event = Inr (s', tr)"
  shows "evolved s s'" and "trEvent tr = trEvent trace"
proof -
  have st: "evolved s (activateNode f (s\<lparr>snStatus := StateRunning\<rparr>) i)" for i
    using evolved_activateNode [of "s\<lparr>snStatus := StateRunning\<rparr>" f i]
    by (simp add: evolved_def state_simps)
  have started: "evolved s s'" if "step_effect_started f s trace event = Inr (s', tr)"
    using step_started_state [OF that] by (auto simp: evolved_def state_simps)
  have result: "evolved s s'"
    if "step_effect_result f s trace event = Inr (s', tr)" and "evKind event \<in> set result_events"
    using step_result_state(3) [OF that] .
  show "evolved s s'"
    using assms st started result
    by (auto simp: step_dispatch_def step_start_def evolved_cancel_all result_events_def
        split: machine_event_kind.splits if_splits)
  show "trEvent tr = trEvent trace"
    using assms
    by (auto simp: step_dispatch_def step_start_def dest: step_started_state(3) step_result_state(4)
        split: machine_event_kind.splits if_splits)
qed

section \<open>One step\<close>

lemma Step_accepted:
  assumes "Step f s event = Inr (s', tr)"
  obtains moved trace settled where
    "snStepCount s < snStepLimit (with_limits s)"
    "step_dispatch f ((with_limits s)\<lparr>snStepCount := snStepCount s + 1\<rparr>)
        (new_trace (with_limits s) event) event = Inr (moved, trace)"
    "settleControl f moved = Inr settled"
    "tr = trace\<lparr>trStateAfter := snActive settled\<rparr>"
    "s' = appendTrace settled tr"
proof -
  have c: "snStepCount (with_limits s) = snStepCount s" by (simp add: with_limits_def)
  from assms have lt: "snStepCount s < snStepLimit (with_limits s)"
    by (simp add: Step_def Let_def c split: if_splits)
  with assms obtain moved trace where d: "step_dispatch f ((with_limits s)\<lparr>snStepCount := snStepCount s + 1\<rparr>)
        (new_trace (with_limits s) event) event = Inr (moved, trace)"
    by (auto simp: Step_def Let_def c split: sum.splits)
  with assms lt obtain settled where e: "settleControl f moved = Inr settled"
    by (auto simp: Step_def Let_def c split: sum.splits)
  from assms lt d e have tr: "tr = trace\<lparr>trStateAfter := snActive settled\<rparr>"
    and "s' = appendTrace settled tr"
    by (auto simp: Step_def Let_def c)
  with lt d e show thesis by (rule that)
qed

lemma Step_rejected: "Step f s event = Inl (e, s') \<Longrightarrow> s' = with_limits s"
  by (auto simp: Step_def Let_def split: if_splits sum.splits prod.splits)

lemma state_of_with_limits [state_simps]: "state_of (with_limits s) i = state_of s i"
  by (simp add: with_limits_def state_simps)

lemma state_of_appendTrace [state_simps]: "state_of (appendTrace s tr) i = state_of s i"
  by (simp add: appendTrace_def state_simps)

lemma appendTrace_fields [simp]:
  "snActive (appendTrace s tr) = snActive s" "snStatus (appendTrace s tr) = snStatus s"
  "snStepCount (appendTrace s tr) = snStepCount s" "snStepLimit (appendTrace s tr) = snStepLimit s"
  "snTraceLimit (appendTrace s tr) = snTraceLimit s"
  by (simp_all add: appendTrace_def)

lemma quiescent_appendTrace: "quiescent f (appendTrace s tr) = quiescent f s"
  by (simp add: quiescent_def dependenciesComplete_def state_simps)

lemma Step_evolved:
  assumes "Step f s event = Inr (s', tr)"
  shows "evolved s s'"
proof -
  from assms obtain moved trace settled where
      d: "step_dispatch f ((with_limits s)\<lparr>snStepCount := snStepCount s + 1\<rparr>)
        (new_trace (with_limits s) event) event = Inr (moved, trace)"
    and c: "settleControl f moved = Inr settled" and s': "s' = appendTrace settled tr"
    by (rule Step_accepted)
  have "evolved s ((with_limits s)\<lparr>snStepCount := snStepCount s + 1\<rparr>)"
    by (simp add: evolved_def state_simps)
  also note evolved_dispatch(1) [OF d]
  also note evolved_settleControl [OF c]
  also have "evolved settled s'" by (simp add: s' evolved_def state_simps)
  finally show ?thesis .
qed

lemma Step_frame:
  assumes "Step f s event = Inr (s', tr)"
  shows "snStepCount s' = snStepCount s + 1" and "snStepLimit s' = snStepLimit (with_limits s)"
    and "snTraceLimit s' = snTraceLimit (with_limits s)"
    and "snStepCount s < snStepLimit (with_limits s)"
    and "snTrace s' = (if int (length (snTrace s)) = snTraceLimit (with_limits s)
           then tl (snTrace s) @ [tr] else snTrace s @ [tr])"
    and "snDroppedTrace s' = (if int (length (snTrace s)) = snTraceLimit (with_limits s)
           then snDroppedTrace s + 1 else snDroppedTrace s)"
proof -
  let ?c = "(with_limits s)\<lparr>snStepCount := snStepCount s + 1\<rparr>"
  from assms obtain moved trace settled where
      lt: "snStepCount s < snStepLimit (with_limits s)"
    and d: "step_dispatch f ?c (new_trace (with_limits s) event) event = Inr (moved, trace)"
    and c: "settleControl f moved = Inr settled" and s': "s' = appendTrace settled tr"
    by (rule Step_accepted)
  have "frame settled = frame ?c"
    using frame_settleControl [OF c] frame_dispatch [OF d] by simp
  then have "snStepCount settled = snStepCount s + 1"
    and "snStepLimit settled = snStepLimit (with_limits s)"
    and "snTraceLimit settled = snTraceLimit (with_limits s)"
    and "snTrace settled = snTrace s" and "snDroppedTrace settled = snDroppedTrace s"
    by (simp_all add: frame_def with_limits_def)
  then show "snStepCount s' = snStepCount s + 1" and "snStepLimit s' = snStepLimit (with_limits s)"
    and "snTraceLimit s' = snTraceLimit (with_limits s)"
    and "snStepCount s < snStepLimit (with_limits s)"
    and "snTrace s' = (if int (length (snTrace s)) = snTraceLimit (with_limits s)
           then tl (snTrace s) @ [tr] else snTrace s @ [tr])"
    and "snDroppedTrace s' = (if int (length (snTrace s)) = snTraceLimit (with_limits s)
           then snDroppedTrace s + 1 else snDroppedTrace s)"
    using lt by (simp_all add: s' appendTrace_def)
qed

lemma Step_trace_event:
  assumes "Step f s event = Inr (s', tr)"
  shows "trEvent tr = event"
proof -
  from assms obtain moved trace settled where
      d: "step_dispatch f ((with_limits s)\<lparr>snStepCount := snStepCount s + 1\<rparr>)
        (new_trace (with_limits s) event) event = Inr (moved, trace)"
    and "settleControl f moved = Inr settled"
    and tr: "tr = trace\<lparr>trStateAfter := snActive settled\<rparr>"
    by (rule Step_accepted)
  from evolved_dispatch(2) [OF d] tr show ?thesis by (simp add: new_trace_def)
qed

definition started :: "string \<Rightarrow> machine_event \<Rightarrow> bool" where
  "started i e \<longleftrightarrow> evKind e = MachineEffectStarted \<and> evNode e = i"

definition finished :: "string \<Rightarrow> machine_event \<Rightarrow> bool" where
  "finished i e \<longleftrightarrow> evKind e \<in> set result_events \<and> evNode e = i
     \<and> \<not> (evKind e = MachineCancelRequested \<and> i = '''')"

lemma Step_started:
  assumes "Step f s event = Inr (s', tr)" and "started i event"
  shows "state_of s i = StatePending"
    and "evolves StateRunning (state_of s' i)"
proof -
  from assms(1) obtain moved trace settled where
      d: "step_dispatch f ((with_limits s)\<lparr>snStepCount := snStepCount s + 1\<rparr>)
        (new_trace (with_limits s) event) event = Inr (moved, trace)"
    and c: "settleControl f moved = Inr settled" and s': "s' = appendTrace settled tr"
    by (rule Step_accepted)
  with assms(2) have st: "step_effect_started f ((with_limits s)\<lparr>snStepCount := snStepCount s + 1\<rparr>)
        (new_trace (with_limits s) event) event = Inr (moved, trace)" and i: "evNode event = i"
    by (auto simp: step_dispatch_def started_def)
  from step_started_state(1) [OF st] i show "state_of s i = StatePending"
    by (simp add: state_simps)
  from step_started_state(2) [OF st] i have "state_of moved i = StateRunning"
    by (simp add: state_simps)
  moreover have "evolves (state_of moved i) (state_of settled i)"
    using evolved_settleControl [OF c] by (simp add: evolved_def)
  ultimately show "evolves StateRunning (state_of s' i)"
    by (simp add: s' state_simps)
qed

lemma Step_finished:
  assumes "Step f s event = Inr (s', tr)" and "finished i event"
  shows "state_of s i = StateRunning"
    and "state_of s' i = result_state (evKind event) StateRunning"
proof -
  from assms(1) obtain moved trace settled where
      d: "step_dispatch f ((with_limits s)\<lparr>snStepCount := snStepCount s + 1\<rparr>)
        (new_trace (with_limits s) event) event = Inr (moved, trace)"
    and c: "settleControl f moved = Inr settled" and s': "s' = appendTrace settled tr"
    by (rule Step_accepted)
  with assms(2) have st: "step_effect_result f ((with_limits s)\<lparr>snStepCount := snStepCount s + 1\<rparr>)
        (new_trace (with_limits s) event) event = Inr (moved, trace)" and i: "evNode event = i"
    and k: "evKind event \<in> set result_events"
    by (auto simp: step_dispatch_def finished_def result_events_def split: if_splits)
  from step_result_state(1) [OF st] i show "state_of s i = StateRunning"
    by (simp add: state_simps)
  from step_result_state(2) [OF st k] i
  have "state_of moved i = result_state (evKind event) StateRunning" by simp
  then have "state_of settled i = result_state (evKind event) StateRunning"
    using evolved_final [OF evolved_settleControl [OF c], of i] k by (auto simp: result_events_def)
  then show "state_of s' i = result_state (evKind event) StateRunning"
    by (simp add: s' state_simps)
qed

end
