(* ===== verification/Machine_Runs.thy ===== *)
theory Machine_Runs
  imports Machine_Props
begin

text \<open>
  Whole runs of the machine: the accepted history of a list of events, its step budget and its
  bounded trace, the life of each effect in it, and the order that joins and \<open>WaitFor\<close> impose
  on a run whose driver starts only effects the machine has activated.
\<close>

section \<open>Histories\<close>

lemma replay_append:
  "replay f s (es @ es') =
     (fst (replay f (fst (replay f s es)) es'),
      snd (replay f s es) @ snd (replay f (fst (replay f s es)) es'))"
  by (induction es arbitrary: s) (auto simp: Let_def case_prod_beta split: sum.splits)

text \<open>
  The contract of a property of snapshots and accepted histories: it survives one accepted
  step, which appends its record, and the limits a rejected event makes positive.
\<close>

locale history_invariant =
  fixes f :: flow and H :: "snapshot \<Rightarrow> step_trace list \<Rightarrow> bool"
  assumes hist_step: "H s trs \<Longrightarrow> Step f s e = Inr (s', tr) \<Longrightarrow> H s' (trs @ [tr])"
    and hist_limits: "H s trs \<Longrightarrow> H (with_limits s) trs"
begin

lemma replay_keeps: "H s trs \<Longrightarrow> H (fst (replay f s es)) (trs @ snd (replay f s es))"
proof (induction es arbitrary: s trs)
  case (Cons e es)
  show ?case
  proof (cases "Step f s e")
    case (Inl r)
    then obtain err s' where r: "Step f s e = Inl (err, s')" by (cases r) auto
    from Step_rejected [OF this] Cons.IH [OF hist_limits [OF Cons.prems]] r show ?thesis by simp
  next
    case (Inr r)
    then obtain s' tr where r: "Step f s e = Inr (s', tr)" by (cases r) auto
    from Cons.IH [OF hist_step [OF Cons.prems r]] r show ?thesis
      by (simp add: Let_def case_prod_beta)
  qed
qed simp

lemma replay_holds: "H s [] \<Longrightarrow> H (fst (replay f s es)) (snd (replay f s es))"
  using replay_keeps [of s "[]" es] by simp

end

section \<open>Budget and trace\<close>

definition positive_or :: "int \<Rightarrow> int \<Rightarrow> int" where
  "positive_or d x = (if x \<le> 0 then d else x)"

text \<open>
  What the bookkeeping promises of the accepted history \<open>trs\<close> of a run: it never grows beyond
  the step limit, and the snapshot holds its last records, as many as the trace limit allows,
  and counts the others.
\<close>

definition within_budget :: "int \<Rightarrow> int \<Rightarrow> snapshot \<Rightarrow> step_trace list \<Rightarrow> bool" where
  "within_budget L T s trs \<longleftrightarrow>
     0 < L \<and> 0 < T \<and> snStepLimit s = L \<and> snTraceLimit s = T \<and>
     snStepCount s = int (length trs) \<and> int (length trs) \<le> L \<and>
     snTrace s = drop (length trs - nat T) trs \<and>
     snDroppedTrace s = int (length trs - nat T)"

lemma drop_snoc_window:
  assumes "0 < k"
  shows "drop (Suc (length xs) - k) (xs @ [x]) =
     (if length (drop (length xs - k) xs) = k then tl (drop (length xs - k) xs) @ [x]
      else drop (length xs - k) xs @ [x])"
proof (cases "k \<le> length xs")
  case True
  then have "Suc (length xs) - k = Suc (length xs - k)" by (simp add: Suc_diff_le)
  with True assms show ?thesis by (simp add: drop_Suc tl_drop)
qed (use assms in auto)

lemma within_budget_limits: "within_budget L T s trs \<Longrightarrow> with_limits s = s"
  by (simp add: within_budget_def with_limits_def)

interpretation budget: history_invariant f "within_budget L T" for f L T
proof
  fix s trs e s' tr
  assume b: "within_budget L T s trs" and st: "Step f s e = Inr (s', tr)"
  note fr = Step_frame [OF st] and lim = within_budget_limits [OF b]
  have "snTrace s' = drop (length (trs @ [tr]) - nat T) (trs @ [tr])"
    using fr b lim drop_snoc_window [of "nat T" trs tr] by (auto simp: within_budget_def)
  then show "within_budget L T s' (trs @ [tr])"
    using fr b lim by (auto simp: within_budget_def)
qed (simp add: within_budget_limits)

lemma within_budget_new:
  "within_budget (positive_or DefaultStepLimit l) (positive_or DefaultTraceLimit t)
     (NewSnapshot f l t) []"
  by (simp add: within_budget_def NewSnapshot_def positive_or_def limit_defs)

lemma replay_budget:
  "within_budget (positive_or DefaultStepLimit l) (positive_or DefaultTraceLimit t)
     (fst (replay f (NewSnapshot f l t) es)) (snd (replay f (NewSnapshot f l t) es))"
  by (rule budget.replay_holds [OF within_budget_new])

section \<open>The history replays\<close>

text \<open>A record is linked to the snapshots on its two sides.\<close>

definition coherent :: "string list \<Rightarrow> snapshot \<Rightarrow> step_trace list \<Rightarrow> bool" where
  "coherent active s trs \<longleftrightarrow>
     map trStateBefore trs @ [snActive s] = active # map trStateAfter trs"

lemma dispatch_trace_fields:
  assumes "step_dispatch f s trace event = Inr (s', tr)"
  shows "trStep tr = trStep trace" and "trStateBefore tr = trStateBefore trace"
  using assms
  by (auto simp: step_dispatch_def step_start_def step_effect_started_def step_effect_result_def
        Let_def split: machine_event_kind.splits if_splits sum.splits prod.splits option.splits)

lemma Step_trace_fields:
  assumes "Step f s event = Inr (s', tr)"
  shows "trStep tr = snStepCount s + 1" and "trStateBefore tr = snActive s"
    and "trStateAfter tr = snActive s'"
proof -
  from assms obtain moved trace settled where
      "snStepCount s < snStepLimit (with_limits s)"
    and d: "step_dispatch f ((with_limits s)\<lparr>snStepCount := snStepCount s + 1\<rparr>)
        (new_trace (with_limits s) event) event = Inr (moved, trace)"
    and "settleControl f moved = Inr settled"
    and tr: "tr = trace\<lparr>trStateAfter := snActive settled\<rparr>"
    and s': "s' = appendTrace settled tr"
    by (rule Step_accepted)
  from dispatch_trace_fields [OF d] show "trStep tr = snStepCount s + 1" and "trStateBefore tr = snActive s"
    by (simp_all add: tr new_trace_def with_limits_def)
  from s' tr show "trStateAfter tr = snActive s'" by simp
qed

interpretation coherent_kept: history_invariant f "coherent active" for f active
proof
  fix s trs e s' tr
  assume "coherent active s trs" and "Step f s e = Inr (s', tr)"
  then show "coherent active s' (trs @ [tr])"
    using Step_trace_fields by (fastforce simp: coherent_def)
qed (simp add: coherent_def with_limits_def)

definition numbered :: "snapshot \<Rightarrow> step_trace list \<Rightarrow> bool" where
  "numbered s trs \<longleftrightarrow> snStepCount s = int (length trs) \<and> map trStep trs = [1 .. int (length trs)]"

lemma upto_snoc_int: "[1 .. 1 + int n] = [1 .. int n] @ [1 + int n]"
  using upto_rec2 [of 1 "1 + int n"] by simp

interpretation numbered_kept: history_invariant f numbered for f
proof
  fix s trs e s' tr
  assume "numbered s trs" and st: "Step f s e = Inr (s', tr)"
  then show "numbered s' (trs @ [tr])"
    using Step_trace_fields(1) [OF st] Step_frame(1) [OF st]
    by (simp add: numbered_def upto_snoc_int add.commute)
qed (simp add: numbered_def with_limits_def)

lemma replay_trace_linked:
  "map trStep (snd (replay f (NewSnapshot f l t) es))
     = [1 .. int (length (snd (replay f (NewSnapshot f l t) es)))] \<and>
   map trStateBefore (snd (replay f (NewSnapshot f l t) es))
     @ [snActive (fst (replay f (NewSnapshot f l t) es))]
     = [] # map trStateAfter (snd (replay f (NewSnapshot f l t) es))"
proof -
  have "numbered (NewSnapshot f l t) []" and "coherent [] (NewSnapshot f l t) []"
    by (simp_all add: numbered_def coherent_def NewSnapshot_def)
  from numbered_kept.replay_holds [OF this(1)] coherent_kept.replay_holds [OF this(2)]
  show ?thesis by (simp add: numbered_def coherent_def)
qed

text \<open>
  The recorded events alone lead to the same snapshot and the same records: rejected events
  leave nothing behind, and a history can be replayed.
\<close>

definition replays_from :: "flow \<Rightarrow> snapshot \<Rightarrow> snapshot \<Rightarrow> step_trace list \<Rightarrow> bool" where
  "replays_from f s0 s trs \<longleftrightarrow>
     with_limits s = s \<and> replay f s0 (map trEvent trs) = (s, trs)"

interpretation replays: history_invariant f "replays_from f s0" for f s0
proof
  fix s trs e s' tr
  assume r: "replays_from f s0 s trs" and st: "Step f s e = Inr (s', tr)"
  have "with_limits s' = s'"
    using Step_frame(2,3) [OF st] by (auto simp: with_limits_def limit_defs)
  moreover have "replay f s [trEvent tr] = (s', [tr])"
    using st Step_trace_event [OF st] by simp
  ultimately show "replays_from f s0 s' (trs @ [tr])"
    using r by (simp add: replays_from_def replay_append)
qed (simp add: replays_from_def)

lemma replay_history_replays:
  "replay f (NewSnapshot f l t) (map trEvent (snd (replay f (NewSnapshot f l t) es)))
     = replay f (NewSnapshot f l t) es"
proof -
  have "replays_from f (NewSnapshot f l t) (NewSnapshot f l t) []"
    by (simp add: replays_from_def with_limits_def NewSnapshot_def limit_defs)
  from replays.replay_holds [OF this, of es] show ?thesis
    by (simp add: replays_from_def)
qed

section \<open>The life of an effect\<close>

definition concerns :: "string \<Rightarrow> machine_event \<Rightarrow> bool" where
  "concerns i e \<longleftrightarrow> started i e \<or> finished i e"

lemma started_not_finished: "started i e \<Longrightarrow> \<not> finished i e"
  by (auto simp: started_def finished_def result_events_def)

text \<open>
  The events of the history that start or finish node \<open>i\<close> are, in order, none, a start, or a
  start and one result, and the state of the node follows them: before the start it has not
  run, between the two it is running (or a cancellation of the whole run has stopped it), and
  after the result it is in the state of that result for good.
\<close>

definition effect_life :: "string \<Rightarrow> snapshot \<Rightarrow> step_trace list \<Rightarrow> bool" where
  "effect_life i s trs \<longleftrightarrow>
     (case filter (concerns i) (map trEvent trs) of
        [] \<Rightarrow> state_of s i \<noteq> StateRunning
      | [a] \<Rightarrow> started i a \<and> state_of s i
          \<in> {StateRunning, StateSucceeded, StateFailed, StateTimedOut, StateCancelled}
      | [a, b] \<Rightarrow> started i a \<and> finished i b \<and> state_of s i = result_state (evKind b) StateRunning
      | _ \<Rightarrow> False)"

lemma settle_complete_not_running:
  assumes "settle_complete f s node = Inr s'" and "state_of s i \<noteq> StateRunning"
  shows "state_of s' i \<noteq> StateRunning"
proof -
  have act: "state_of (activateNode f t j) i \<noteq> StateRunning" if "state_of t i \<noteq> StateRunning" for t j
    using that by (simp add: state_of_activateNode)
  have all: "state_of (activate_all f t js) i \<noteq> StateRunning" if "state_of t i \<noteq> StateRunning" for t js
    using that by (induction js arbitrary: t) (simp_all add: act)
  have cancel: "state_of (foldl cancel_nonterminal_node t ns) i \<noteq> StateRunning"
    if "state_of t i \<noteq> StateRunning" for t ns
    using that
    by (induction ns arbitrary: t) (simp_all add: cancel_nonterminal_node_def state_simps)
  show ?thesis
    using assms
    by (cases "nodeKind node")
      (auto simp: settle_complete_def continue_from_def continue_guarded_def act all cancel
          cancelNonterminalNodes_def state_simps
        split: sum.splits option.splits if_splits prod.splits)
qed

interpretation not_running: settle_invariant f "\<lambda>s. state_of s i \<noteq> StateRunning" for f i
proof
  fix s node s'
  assume "state_of s i \<noteq> StateRunning" and c: "settle_complete f
      (set_state (removeActive s (nodeIdentity node)) (nodeIdentity node) StateSucceeded) node = Inr s'"
  then have "state_of (set_state (removeActive s (nodeIdentity node)) (nodeIdentity node)
      StateSucceeded) i \<noteq> StateRunning"
    by (simp add: state_simps)
  with c show "state_of s' i \<noteq> StateRunning" by (rule settle_complete_not_running)
qed (simp_all add: state_simps)

lemma dispatch_not_running:
  assumes "step_dispatch f s trace event = Inr (s', tr)" and "state_of s i \<noteq> StateRunning"
    and "\<not> concerns i event"
  shows "state_of s' i \<noteq> StateRunning"
proof -
  have act: "state_of (activateNode f t j) i \<noteq> StateRunning" if "state_of t i \<noteq> StateRunning" for t j
    using that by (simp add: state_of_activateNode)
  have all: "state_of (step_cancel_all f s) i \<noteq> StateRunning"
    using assms(2) unfolding step_cancel_all_def
    by (intro act) (auto simp: state_of_def node_of_def zget_def cancel_all_nodes_def
        split: option.splits)
  have st: "state_of s' i \<noteq> StateRunning" if "step_effect_started f s trace event = Inr (s', tr)"
      and "evKind event = MachineEffectStarted"
    using step_started_state(2) [OF that(1)] assms(2,3) that(2)
    by (auto simp: state_simps concerns_def started_def)
  have res: "state_of s' i \<noteq> StateRunning" if r: "step_effect_result f s trace event = Inr (s', tr)"
      and k: "evKind event \<in> set result_events"
  proof (cases "i = evNode event")
    case True
    with step_result_state(2) [OF r k] k show ?thesis by (auto simp: result_events_def)
  next
    case False
    with r assms(2) show ?thesis
      by (auto simp: step_effect_result_def Let_def state_simps intro!: act
          split: sum.splits option.splits prod.splits)
  qed
  show ?thesis
    using assms(1,2) all st res
    by (auto simp: step_dispatch_def step_start_def result_events_def intro!: act
        simp: state_simps split: machine_event_kind.splits if_splits)
qed

lemma Step_not_running:
  assumes "Step f s event = Inr (s', tr)" and "state_of s i \<noteq> StateRunning" and "\<not> concerns i event"
  shows "state_of s' i \<noteq> StateRunning"
proof -
  from assms(1) obtain moved trace settled where
      d: "step_dispatch f ((with_limits s)\<lparr>snStepCount := snStepCount s + 1\<rparr>)
        (new_trace (with_limits s) event) event = Inr (moved, trace)"
    and c: "settleControl f moved = Inr settled" and s': "s' = appendTrace settled tr"
    by (rule Step_accepted)
  have "state_of moved i \<noteq> StateRunning"
    by (rule dispatch_not_running [OF d _ assms(3)]) (simp add: state_simps assms(2))
  from not_running.settleControl_keeps [OF c this] show ?thesis
    by (simp add: s' state_simps)
qed

interpretation life: history_invariant f "effect_life i" for f i
proof
  fix s trs e s' tr
  assume h: "effect_life i s trs" and st: "Step f s e = Inr (s', tr)"
  have ev: "trEvent tr = e" by (rule Step_trace_event [OF st])
  have evol: "evolves (state_of s i) (state_of s' i)"
    using Step_evolved [OF st] by (simp add: evolved_def)
  consider (start) "started i e" | (finish) "finished i e" | (other) "\<not> concerns i e"
    by (auto simp: concerns_def)
  then show "effect_life i s' (trs @ [tr])"
  proof cases
    case start
    note s = Step_started [OF st start]
    have "filter (concerns i) (map trEvent trs) = []"
      using h s(1) by (auto simp: effect_life_def result_events_def finished_def split: list.splits)
    with start s(2) show ?thesis by (simp add: effect_life_def ev concerns_def)
  next
    case finish
    note s = Step_finished [OF st finish]
    have "\<exists>a. filter (concerns i) (map trEvent trs) = [a] \<and> started i a"
      using h s(1) by (auto simp: effect_life_def result_events_def finished_def split: list.splits)
    with finish s(2) show ?thesis by (auto simp: effect_life_def ev concerns_def)
  next
    case other
    show ?thesis
    proof (cases "filter (concerns i) (map trEvent trs)")
      case Nil
      with h other Step_not_running [OF st _ other] show ?thesis
        by (simp add: effect_life_def ev)
    next
      case (Cons a rest)
      with h have "state_of s i
          \<in> {StateRunning, StateSucceeded, StateFailed, StateTimedOut, StateCancelled}"
        by (auto simp: effect_life_def result_events_def finished_def split: list.splits)
      with evol have "state_of s' i \<in> {StateRunning, StateSucceeded, StateFailed, StateTimedOut, StateCancelled}"
        and "state_of s i \<noteq> StateRunning \<Longrightarrow> state_of s' i = state_of s i"
        by auto
      with h other Cons show ?thesis
        by (auto simp: effect_life_def ev result_events_def finished_def split: list.splits)
    qed
  qed
qed (simp add: effect_life_def state_simps split: list.splits)

lemma state_of_new: "state_of (NewSnapshot f l t) i \<in> {StateZero, StatePending}"
proof -
  have "(\<forall>i. state_of s i \<in> {StateZero, StatePending}) \<Longrightarrow>
    state_of (s\<lparr>snNodes := foldl (\<lambda>m n. m(nodeIdentity n \<mapsto>
      \<lparr>nsState = StatePending, nsResult = None, nsError = ''''\<rparr>)) (snNodes s) ns\<rparr>) i
    \<in> {StateZero, StatePending}" for s ns
  proof (induction ns arbitrary: s)
    case (Cons n ns)
    from Cons.IH [of "s\<lparr>snNodes := (snNodes s)(nodeIdentity n \<mapsto>
      \<lparr>nsState = StatePending, nsResult = None, nsError = ''''\<rparr>)\<rparr>"] Cons.prems
    show ?case by (auto simp: state_of_def node_of_def zget_def)
  qed auto
  from this [of "(NewSnapshot f l t)\<lparr>snNodes := Map.empty\<rparr>" "flowNodes f"] show ?thesis
    by (simp add: NewSnapshot_def state_of_def node_of_def zget_def zero_node_def)
qed

lemma replay_effect_life:
  "effect_life i (fst (replay f (NewSnapshot f l t) es)) (snd (replay f (NewSnapshot f l t) es))"
proof (rule life.replay_holds)
  show "effect_life i (NewSnapshot f l t) []"
    using state_of_new [of f l t i] by (auto simp: effect_life_def)
qed

section \<open>The life cycle along a run\<close>

definition evolved_history :: "snapshot \<Rightarrow> snapshot \<Rightarrow> step_trace list \<Rightarrow> bool" where
  "evolved_history s0 s trs \<longleftrightarrow> evolved s0 s"

interpretation life_cycle: history_invariant f "evolved_history s0" for f s0
  by unfold_locales
    (auto simp: evolved_history_def evolved_def state_simps
      dest!: Step_evolved intro: evolves_trans)

lemma replay_lifecycle:
  "lifecycle\<^sup>*\<^sup>* (state_of s i) (state_of (fst (replay f s es)) i)"
  using life_cycle.replay_holds [of s s f es]
  by (simp add: evolved_history_def evolved_def evolves_lifecycle)

lemma Step_quiescent:
  assumes "Step f s event = Inr (s', tr)"
  shows "quiescent f s' \<and> sorted (snActive s')"
proof -
  from assms obtain moved settled where
      c: "settleControl f moved = Inr settled" and s': "s' = appendTrace settled tr"
    by (elim Step_accepted) blast
  from settleControl_quiescent [OF c] settleControl_sorted [OF c] show ?thesis
    by (simp add: s' quiescent_appendTrace)
qed

section \<open>Dependencies come first\<close>

text \<open>
  \<open>Step\<close> itself lets any pending effect start.  The executor starts only the effects
  \<open>activeEffectNodes\<close> finds, which are in the active list; these are the runs it drives.
\<close>

inductive driven :: "flow \<Rightarrow> snapshot \<Rightarrow> bool" for f where
  driven_new: "driven f (NewSnapshot f l t)"
| driven_reject: "driven f s \<Longrightarrow> Step f s e = Inl (err, s') \<Longrightarrow> driven f s'"
| driven_step: "driven f s \<Longrightarrow> (evKind e = MachineEffectStarted \<Longrightarrow> evNode e \<in> set (snActive s)) \<Longrightarrow>
    Step f s e = Inr (s', tr) \<Longrightarrow> driven f s'"
| driven_fail: "driven f s \<Longrightarrow> driven f (s\<lparr>snStatus := StateFailed\<rparr>)"

definition has_begun :: "run_state \<Rightarrow> bool" where
  "has_begun st \<longleftrightarrow> st \<in> {StateRunning, StateSucceeded, StateFailed, StateTimedOut}"

definition deps_first :: "flow \<Rightarrow> snapshot \<Rightarrow> bool" where
  "deps_first f s \<longleftrightarrow> (\<forall>n \<in> set (flowNodes f).
     nodeIdentity n \<in> set (snActive s) \<or> has_begun (state_of s (nodeIdentity n)) \<longrightarrow>
     dependenciesComplete s (nodeWaitFor n))"

lemma deps_mono: "evolved s s' \<Longrightarrow> dependenciesComplete s ds \<Longrightarrow> dependenciesComplete s' ds"
  by (auto simp: dependenciesComplete_def dest: evolved_final)

text \<open>Anything that evolves the nodes and makes no node active or begun keeps the order.\<close>

lemma deps_first_mono:
  assumes "deps_first f s" and "evolved s s'"
    and "\<And>n. n \<in> set (flowNodes f) \<Longrightarrow>
      nodeIdentity n \<in> set (snActive s') \<or> has_begun (state_of s' (nodeIdentity n)) \<Longrightarrow>
      nodeIdentity n \<in> set (snActive s) \<or> has_begun (state_of s (nodeIdentity n))
      \<or> dependenciesComplete s' (nodeWaitFor n)"
  shows "deps_first f s'"
  using assms unfolding deps_first_def by (blast intro: deps_mono)

lemma flowNode_distinct:
  "distinct (node_ids f) \<Longrightarrow> n \<in> set (flowNodes f) \<Longrightarrow> flowNode f (nodeIdentity n) = Some n"
  by (simp add: flowNode_def find_map_distinct)

lemma addActive_set: "set (snActive (addActive s i)) = insert i (set (snActive s))"
  by (auto simp: addActive_def containsIdentity_def)

lemma removeActive_subset: "set (snActive (removeActive s i)) \<subseteq> set (snActive s)"
  by (simp add: removeActive_def set_remove1_subset)

lemma set_state_active [simp]:
  "snActive (set_state s i st) = snActive s" "snActive (set_node s i ns) = snActive s"
  by (simp_all add: set_state_def set_node_def)

lemma deps_activate:
  assumes "distinct (node_ids f)" and "deps_first f s"
  shows "deps_first f (activateNode f s j)"
proof (rule deps_first_mono [OF assms(2) evolved_activateNode])
  fix n
  assume n: "n \<in> set (flowNodes f)"
    and b: "nodeIdentity n \<in> set (snActive (activateNode f s j))
      \<or> has_begun (state_of (activateNode f s j) (nodeIdentity n))"
  have "dependenciesComplete (addActive s j) = dependenciesComplete s"
    by (simp add: dependenciesComplete_def fun_eq_iff state_simps)
  with n b flowNode_distinct [OF assms(1) n]
  show "nodeIdentity n \<in> set (snActive s) \<or> has_begun (state_of s (nodeIdentity n))
      \<or> dependenciesComplete (activateNode f s j) (nodeWaitFor n)"
    by (auto simp: activateNode_def addActive_set state_simps has_begun_def dependenciesComplete_def
        split: option.splits if_splits)
qed

lemma deps_activate_all:
  "distinct (node_ids f) \<Longrightarrow> deps_first f s \<Longrightarrow> deps_first f (activate_all f s js)"
  by (induction js arbitrary: s) (simp_all add: deps_activate)

lemma deps_upd:
  "deps_first f (s\<lparr>snIterators := it\<rparr>) = deps_first f s"
  "deps_first f (s\<lparr>snStatus := st\<rparr>) = deps_first f s"
  "deps_first f (s\<lparr>snStepCount := k\<rparr>) = deps_first f s"
  "deps_first f (with_limits s) = deps_first f s"
  "deps_first f (appendTrace s tr) = deps_first f s"
  by (simp_all add: deps_first_def dependenciesComplete_def state_simps with_limits_def)

lemma deps_cancel_node: "deps_first f s \<Longrightarrow> deps_first f (cancel_nonterminal_node s n)"
  by (erule deps_first_mono [OF _ evolved_cancel_node])
    (auto simp: cancel_nonterminal_node_def state_simps has_begun_def split: if_splits)

lemma deps_cancelNonterminal: "deps_first f s \<Longrightarrow> deps_first f (cancelNonterminalNodes f s)"
proof -
  have "deps_first f s \<Longrightarrow> deps_first f (foldl cancel_nonterminal_node s ns)" for ns
    by (induction ns arbitrary: s) (simp_all add: deps_cancel_node)
  then show "deps_first f s \<Longrightarrow> ?thesis" by (simp add: cancelNonterminalNodes_def)
qed

lemma deps_settle_complete:
  assumes "distinct (node_ids f)" and "deps_first f s" and "settle_complete f s node = Inr s'"
  shows "deps_first f s'"
proof -
  have "deps_first f (s\<lparr>snActive := [], snStatus := st\<rparr>)" for st
    using assms(2) by (auto simp: deps_first_def dependenciesComplete_def state_simps)
  then have "deps_first f (cancelNonterminalNodes f (s\<lparr>snActive := [], snStatus := st\<rparr>))" for st
    by (rule deps_cancelNonterminal)
  then show ?thesis
    using assms
    by (cases "nodeKind node")
      (auto simp: settle_complete_def continue_from_def continue_guarded_def deps_upd
        intro!: deps_activate deps_activate_all
        split: sum.splits option.splits if_splits prod.splits)
qed

interpretation deps_kept: settle_invariant f "\<lambda>s. distinct (node_ids f) \<longrightarrow> deps_first f s" for f
proof (unfold_locales, goal_cases)
  case (1 s node)
  let ?i = "nodeIdentity node"
  have e: "evolved s (addActive (set_state s ?i StatePending) ?i)"
    using 1 by (auto simp: evolved_def state_simps)
  show ?case
  proof
    assume d: "distinct (node_ids f)"
    with 1 have "deps_first f s" by simp
    then show "deps_first f (addActive (set_state s ?i StatePending) ?i)"
    proof (rule deps_first_mono [OF _ e])
      fix n assume n: "n \<in> set (flowNodes f)"
        and b: "nodeIdentity n \<in> set (snActive (addActive (set_state s ?i StatePending) ?i)) \<or>
          has_begun (state_of (addActive (set_state s ?i StatePending) ?i) (nodeIdentity n))"
      show "nodeIdentity n \<in> set (snActive s) \<or> has_begun (state_of s (nodeIdentity n)) \<or>
          dependenciesComplete (addActive (set_state s ?i StatePending) ?i) (nodeWaitFor n)"
      proof (cases "nodeIdentity n = ?i")
        case True
        then have "n = node"
          using flowNode_distinct [OF d n] flowNode_distinct [OF d 1(2)] by (metis option.inject)
        with 1(4) deps_mono [OF e] show ?thesis by simp
      next
        case False
        with b have "nodeIdentity n \<in> set (snActive s) \<or> has_begun (state_of s (nodeIdentity n))"
          by (simp add: addActive_set state_simps)
        then show ?thesis by blast
      qed
    qed
  qed
next
  case (2 s node s')
  let ?i = "nodeIdentity node" and ?t = "set_state (removeActive s (nodeIdentity node)) (nodeIdentity node) StateSucceeded"
  show ?case
  proof
    assume d: "distinct (node_ids f)"
    with 2 have "deps_first f s" by simp
    moreover have "evolved s ?t" using 2(3) by (auto simp: evolved_def state_simps)
    ultimately have "deps_first f ?t"
      using 2(4) removeActive_subset [of s ?i]
      by (rule_tac deps_first_mono) (auto simp: state_simps split: if_splits)
    with d show "deps_first f s'" using 2(6) by (rule deps_settle_complete)
  qed
next
  case (3 s)
  then show ?case by (simp add: deps_first_def dependenciesComplete_def state_simps)
qed

lemma deps_record:
  "deps_first f (record_value s node event) = deps_first f s"
  "deps_first f (record_outcome f s node event) = deps_first f s"
  "deps_first f (record_cleanup_failure s node event) = deps_first f s"
proof -
  have ag: "snActive (record_aggregate_outcome ds s v oc) = snActive s" for ds s v oc
    by (induction ds) (simp_all add: Let_def split: option.splits)
  have act: "snActive (record_value s node event) = snActive s"
    "snActive (record_outcome f s node event) = snActive s"
    "snActive (record_cleanup_failure s node event) = snActive s"
    by (simp_all add: record_value_def record_outcome_def record_cleanup_failure_def
        recordAggregateOutcome_def ag split: option.splits)
  show "deps_first f (record_value s node event) = deps_first f s"
    "deps_first f (record_outcome f s node event) = deps_first f s"
    "deps_first f (record_cleanup_failure s node event) = deps_first f s"
    by (simp_all add: deps_first_def dependenciesComplete_def act state_simps)
qed

lemma deps_result:
  assumes d: "distinct (node_ids f)" and h: "deps_first f s"
    and r: "step_effect_result f s trace event = Inr (s', tr)"
  shows "deps_first f s'"
proof -
  let ?i = "evNode event"
  from r obtain node ns effect t eligible where
      req: "requireEffectState f s ?i [StateRunning] = Inr (node, ns)"
    and "nodeEffect node = Some effect"
    and sel: "selectTransition f ?i (evKind event) = Inr (t, eligible)"
    by (auto simp: step_effect_result_def Let_def split: sum.splits option.splits)
  let ?r = "record_cleanup_failure (record_outcome f (record_value s node event) node event) node event"
  let ?m = "removeActive (set_node ?r ?i (finished_node ns event)) ?i"
  have run: "state_of s ?i = StateRunning" "nsState ns = StateRunning"
    using requireEffectState_state [OF req] by simp_all
  have "evolved ?r ?m"
    using run by (cases "evKind event") (auto simp: evolved_def state_simps finished_node_def)
  then have "deps_first f ?m"
  proof (rule deps_first_mono [rotated])
    show "deps_first f ?r" using h by (simp add: deps_record)
  qed (use run removeActive_subset [of "set_node ?r ?i (finished_node ns event)" ?i]
      in \<open>auto simp: state_simps has_begun_def split: if_splits\<close>)
  from deps_activate [OF d this, of "tTo t"] show ?thesis
    using r req \<open>nodeEffect node = _\<close> sel by (simp add: step_effect_result_def Let_def)
qed

lemma deps_dispatch:
  assumes d: "distinct (node_ids f)" and h: "deps_first f s"
    and st: "evKind event = MachineEffectStarted \<Longrightarrow> evNode event \<in> set (snActive s)"
    and r: "step_dispatch f s trace event = Inr (s', tr)"
  shows "deps_first f s'"
proof -
  have cancel: "deps_first f (step_cancel_all f s)"
  proof -
    let ?m = "s\<lparr>snNodes := cancel_all_nodes f (snNodes s), snActive := []\<rparr>"
    have st: "state_of ?m i = state_of s i \<or> state_of ?m i = StateCancelled
        \<and> state_of s i \<in> {StateRunning, StatePending, StateWaiting}" for i
      by (auto simp: state_of_def node_of_def zget_def cancel_all_nodes_def split: option.splits)
    have "evolves (state_of s i) (state_of ?m i)" for i using st [of i] by auto
    then have "evolved s ?m" by (simp add: evolved_def)
    with h have "deps_first f ?m"
    proof (rule deps_first_mono)
      fix n assume "nodeIdentity n \<in> set (snActive ?m) \<or> has_begun (state_of ?m (nodeIdentity n))"
      with st [of "nodeIdentity n"] have "has_begun (state_of s (nodeIdentity n))"
        by (auto simp: has_begun_def)
      then show "nodeIdentity n \<in> set (snActive s) \<or> has_begun (state_of s (nodeIdentity n))
          \<or> dependenciesComplete ?m (nodeWaitFor n)" by blast
    qed
    then show ?thesis unfolding step_cancel_all_def by (rule deps_activate [OF d])
  qed
  have start: "deps_first f s'" if "step_effect_started f s trace event = Inr (s', tr)"
    and k: "evKind event = MachineEffectStarted"
  proof -
    note s' = step_started_state [OF that(1)]
    have "evolved s s'" using s' by (auto simp: evolved_def state_simps)
    with h show ?thesis
      using st [OF k] s'(2) by (rule_tac deps_first_mono) (auto simp: state_simps split: if_splits)
  qed
  show ?thesis
    using r cancel start deps_result [OF d h, of trace event s' tr] h
    by (auto simp: step_dispatch_def step_start_def deps_upd intro!: deps_activate [OF d]
        split: machine_event_kind.splits if_splits)
qed

lemma with_limits_active [simp]: "snActive (with_limits s) = snActive s"
  by (simp add: with_limits_def)

lemma driven_deps:
  assumes "driven f s" and "distinct (node_ids f)"
  shows "deps_first f s"
  using assms
proof (induction rule: driven.induct)
  case (driven_new l t)
  have "\<not> has_begun (state_of (NewSnapshot f l t) i)" for i
    using state_of_new [of f l t i] by (auto simp: has_begun_def)
  moreover have "snActive (NewSnapshot f l t) = []" by (simp add: NewSnapshot_def)
  ultimately show ?case by (simp add: deps_first_def)
next
  case (driven_reject s e err s')
  then show ?case using Step_rejected [of f s e err s'] by (simp add: deps_upd)
next
  case (driven_step s e s' tr)
  from driven_step(3) obtain moved trace settled where
      d: "step_dispatch f ((with_limits s)\<lparr>snStepCount := snStepCount s + 1\<rparr>)
        (new_trace (with_limits s) e) e = Inr (moved, trace)"
    and c: "settleControl f moved = Inr settled" and s': "s' = appendTrace settled tr"
    by (rule Step_accepted)
  have "deps_first f moved"
    by (rule deps_dispatch [OF driven_step(5) _ _ d])
      (use driven_step in \<open>simp_all add: deps_upd\<close>)
  with deps_kept.settleControl_keeps [OF c] driven_step(5) show ?case
    by (simp add: s' deps_upd)
next
  case (driven_fail s)
  then show ?case by (simp add: deps_upd)
qed

section \<open>The ledger of results\<close>

text \<open>
  Outcomes, values and cleanup failures are a fold of the accepted history: only a result event
  of an effect node posts to them, and the control loop never touches them.
\<close>

type_synonym result_ledger =
  "(string \<rightharpoonup> terminal_kind) \<times> (string \<rightharpoonup> native_result) \<times> cleanup_failure list"

definition ledger :: "snapshot \<Rightarrow> result_ledger" where
  "ledger s = (snOutcomes s, snValues s, snCleanupFailures s)"

definition post_result :: "flow \<Rightarrow> result_ledger \<Rightarrow> machine_event \<Rightarrow> result_ledger" where
  "post_result f led e =
     (case (led, flowNode f (evNode e)) of
        ((oc, vs, cf), Some node) \<Rightarrow>
          if finished (evNode e) e
          then (if nodeValue node = '''' then oc else oc(nodeValue node \<mapsto> result_kind (evKind e)),
                (case evResult e of None \<Rightarrow> vs
                 | Some r \<Rightarrow> if nodeValue node = '''' then vs else vs(nodeValue node \<mapsto> r)),
                if nodeCleanup node \<and> evKind e \<noteq> MachineEffectSucceeded
                then cf @ [\<lparr>cfCause = nodeCleanupCause node, cfNode = nodeIdentity node, cfError = evError e\<rparr>]
                else cf)
          else led
      | _ \<Rightarrow> led)"

named_theorems ledger_simps

lemma ledger_upd [ledger_simps]:
  "ledger (s\<lparr>snActive := a\<rparr>) = ledger s"
  "ledger (s\<lparr>snStatus := st\<rparr>) = ledger s"
  "ledger (s\<lparr>snNodes := ns\<rparr>) = ledger s"
  "ledger (s\<lparr>snIterators := it\<rparr>) = ledger s"
  "ledger (s\<lparr>snAggregates := ag\<rparr>) = ledger s"
  "ledger (s\<lparr>snStepCount := k\<rparr>) = ledger s"
  "ledger (with_limits s) = ledger s"
  "ledger (appendTrace s tr) = ledger s"
  by (simp_all add: ledger_def with_limits_def appendTrace_def)

lemma ledger_ops [ledger_simps]:
  "ledger (addActive s i) = ledger s"
  "ledger (removeActive s i) = ledger s"
  "ledger (set_node s i ns) = ledger s"
  "ledger (set_state s i st) = ledger s"
  by (simp_all add: addActive_def removeActive_def set_node_def set_state_def ledger_simps)

lemma ledger_activateNode [ledger_simps]: "ledger (activateNode f s i) = ledger s"
  by (simp add: activateNode_def ledger_simps split: option.splits)

lemma ledger_activate_all [ledger_simps]: "ledger (activate_all f s is) = ledger s"
  by (induction "is" arbitrary: s) (simp_all add: ledger_simps)

lemma ledger_cancelNonterminal [ledger_simps]: "ledger (cancelNonterminalNodes f s) = ledger s"
proof -
  have "ledger (foldl cancel_nonterminal_node s ns) = ledger s" for ns
    by (induction ns arbitrary: s) (simp_all add: cancel_nonterminal_node_def ledger_simps)
  then show ?thesis by (simp add: cancelNonterminalNodes_def)
qed

lemma ledger_settle_complete: "settle_complete f s node = Inr s' \<Longrightarrow> ledger s' = ledger s"
  by (cases "nodeKind node")
    (auto simp: settle_complete_def continue_from_def continue_guarded_def ledger_simps
      split: sum.splits option.splits if_splits prod.splits)

interpretation ledger_kept: settle_invariant f "\<lambda>s. ledger s = c" for f c
  by unfold_locales (auto simp: ledger_simps dest: ledger_settle_complete)

lemma ledger_aggregate [ledger_simps]: "ledger (recordAggregateOutcome f s v oc) = ledger s"
proof -
  have "ledger (record_aggregate_outcome ds s v oc) = ledger s" for ds
    by (induction ds) (simp_all add: Let_def ledger_simps split: option.splits)
  then show ?thesis by (simp add: recordAggregateOutcome_def)
qed

lemma ledger_outcomes:
  "ledger (s\<lparr>snOutcomes := oc\<rparr>) = (oc, snd (ledger s))"
  "ledger (record_value s node event) =
     (fst (ledger s), (case evResult event of None \<Rightarrow> fst (snd (ledger s))
        | Some r \<Rightarrow> if nodeValue node = '''' then fst (snd (ledger s))
                    else (fst (snd (ledger s)))(nodeValue node \<mapsto> r)), snd (snd (ledger s)))"
  "ledger (record_cleanup_failure s node event) =
     (fst (ledger s), fst (snd (ledger s)),
      if nodeCleanup node \<and> evKind event \<noteq> MachineEffectSucceeded
      then snd (snd (ledger s)) @
        [\<lparr>cfCause = nodeCleanupCause node, cfNode = nodeIdentity node, cfError = evError event\<rparr>]
      else snd (snd (ledger s)))"
  by (simp_all add: ledger_def record_value_def record_cleanup_failure_def split: option.splits)

lemma ledger_record_outcome:
  "ledger (record_outcome f s node event) =
     (if nodeValue node = '''' then fst (ledger s)
      else (fst (ledger s))(nodeValue node \<mapsto> result_kind (evKind event)), snd (ledger s))"
  by (simp add: record_outcome_def ledger_simps ledger_outcomes) (simp add: ledger_def)

lemma ledger_result:
  assumes r: "step_effect_result f s trace event = Inr (s', tr)" and "finished (evNode event) event"
  shows "ledger s' = post_result f (ledger s) event"
proof -
  from r obtain node ns effect t eligible where
      req: "requireEffectState f s (evNode event) [StateRunning] = Inr (node, ns)"
    and "nodeEffect node = Some effect"
    and "selectTransition f (evNode event) (evKind event) = Inr (t, eligible)"
    by (auto simp: step_effect_result_def Let_def split: sum.splits option.splits)
  then have "ledger s' = ledger (record_cleanup_failure
      (record_outcome f (record_value s node event) node event) node event)"
    using r by (auto simp: step_effect_result_def Let_def ledger_simps)
  moreover have "flowNode f (evNode event) = Some node"
    using requireEffectState_state [OF req] by simp
  moreover obtain oc vs cf where "ledger s = (oc, vs, cf)" by (cases "ledger s") auto
  ultimately show ?thesis
    using assms(2)
    by (simp add: ledger_outcomes ledger_record_outcome post_result_def split: option.splits)
qed

lemma ledger_dispatch:
  assumes "step_dispatch f s trace event = Inr (s', tr)"
  shows "ledger s' = post_result f (ledger s) event"
proof (cases "finished (evNode event) event")
  case True
  then have "step_dispatch f s trace event = step_effect_result f s trace event"
    by (cases "evKind event") (auto simp: step_dispatch_def finished_def result_events_def)
  with assms True ledger_result show ?thesis by auto
next
  case False
  then have "post_result f (ledger s) event = ledger s"
    by (simp add: post_result_def case_prod_beta split: option.splits)
  moreover have "ledger s' = ledger s"
    using assms False step_started_state(2) [of f s trace event s' tr]
    by (auto simp: step_dispatch_def step_start_def step_cancel_all_def ledger_simps
        finished_def result_events_def split: machine_event_kind.splits if_splits)
  ultimately show ?thesis by simp
qed

definition posted :: "flow \<Rightarrow> result_ledger \<Rightarrow> snapshot \<Rightarrow> step_trace list \<Rightarrow> bool" where
  "posted f led s trs \<longleftrightarrow> ledger s = foldl (post_result f) led (map trEvent trs)"

interpretation posted_kept: history_invariant f "posted f led" for f led
proof
  fix s trs e s' tr
  assume h: "posted f led s trs" and st: "Step f s e = Inr (s', tr)"
  from st obtain moved trace settled where
      d: "step_dispatch f ((with_limits s)\<lparr>snStepCount := snStepCount s + 1\<rparr>)
        (new_trace (with_limits s) e) e = Inr (moved, trace)"
    and c: "settleControl f moved = Inr settled" and s': "s' = appendTrace settled tr"
    by (rule Step_accepted)
  have "ledger s' = post_result f (ledger s) e"
    using ledger_kept.settleControl_keeps [OF c refl] ledger_dispatch [OF d]
    by (simp add: s' ledger_simps)
  with h Step_trace_event [OF st] show "posted f led s' (trs @ [tr])"
    by (simp add: posted_def)
qed (simp add: posted_def ledger_simps)

lemma replay_ledger:
  "ledger (fst (replay f (NewSnapshot f l t) es)) =
     foldl (post_result f) (Map.empty, Map.empty, [])
       (map trEvent (snd (replay f (NewSnapshot f l t) es)))"
proof -
  have "posted f (Map.empty, Map.empty, []) (NewSnapshot f l t) []"
    by (simp add: posted_def ledger_def NewSnapshot_def)
  from posted_kept.replay_holds [OF this] show ?thesis by (simp add: posted_def)
qed

end
