(* ===== verification/Compile_Props.thy ===== *)
theory Compile_Props
  imports Build_Props Machine_Runs
begin

text \<open>
  The invariant of the builder through every compile function, by induction on the authored
  node, and what it gives for the finished program: \<open>BuildFlow\<close> never emits a dangling
  reference, a missing or an ambiguous transition, and the machine never stops for one.
\<close>

section \<open>Regions, continue transitions, closing\<close>

lemma built_addRegion:
  assumes "built W b"
  shows "built W (addRegion i p e b)" and "grew b (addRegion i p e b)"
    and "i \<in> set (bRegions (addRegion i p e b))"
    and "bNodes (addRegion i p e b) = bNodes b"
  using assms
  by (auto simp: addRegion_def built_def named_def linked_def routed_def located_def outs_def
      grew_def same_scope_def node_kinds_def)

lemma built_region: "built W b \<Longrightarrow> r \<in> set (bRegions b) \<Longrightarrow> built W (b\<lparr>bRegion := r\<rparr>)"
  by (simp add: built_def named_def linked_def routed_def located_def outs_def)

lemma built_bRegion: "built W b \<Longrightarrow> bRegion b \<in> set (bRegions b)"
  by (simp add: built_def located_def)

lemma built_scope:
  assumes "built W b"
  shows "bFailure b \<in> ids b" "bCancel b \<in> ids b" "bTimeout b \<in> ids b"
    "ftSucceeded (flowTerminals (bFlow b)) \<in> ids b" "ftFailed (flowTerminals (bFlow b)) \<in> ids b"
    "ftCancelled (flowTerminals (bFlow b)) \<in> ids b" "ftTimedOut (flowTerminals (bFlow b)) \<in> ids b"
  using assms by (simp_all add: built_def linked_def)

lemma addTransition_kinds [simp]:
  "node_kinds (addTransition i e t b) = node_kinds b" "bNodes (addTransition i e t b) = bNodes b"
  "grew b (addTransition i e t b)"
  by (simp_all add: addTransition_def node_kinds_def addTransitionGuard_fields)

lemma addTransitionGuard_kinds [simp]:
  "node_kinds (addTransitionGuard i e g t b) = node_kinds b"
  by (simp add: node_kinds_def addTransitionGuard_fields)

lemma built_addTransition:
  assumes "built (W(i \<mapsto> s)) b" and "to \<in> ids b" and "(event, event_string event) \<notin> s"
  shows "built (W(i \<mapsto> insert (event, event_string event) s)) (addTransition i event to b)"
  using built_addTransitionGuard [OF assms] by (simp add: addTransition_def)

lemma built_leave:
  assumes "built (W(i \<mapsto> {})) b" and "i \<notin> dom W" and "(i, k) \<in> node_kinds b"
    and "k \<in> {NodeFork, NodeBranchExit, NodeTerminal}"
  shows "built W b"
  using assms built_kind [OF assms(1,3)] by (intro built_close [OF assms(1,2)]) (auto simp: filled_def)

lemma built_continue:
  assumes "built (W(i \<mapsto> {})) b" and "i \<notin> dom W" and "(i, k) \<in> node_kinds b" and "to \<in> ids b"
    and "k \<in> {NodeEntry, NodeJoin, NodeIterator, NodeBranchExit}"
  shows "built W (addTransition i MachineContinue to b)"
proof -
  have "built (W(i \<mapsto> {continue_case})) (addTransition i MachineContinue to b)"
    using built_addTransition [OF assms(1,4), of MachineContinue] by (simp add: continue_case_def)
  then show ?thesis
  proof (rule built_close [OF _ assms(2)])
    fix n assume "n \<in> set (bNodes (addTransition i MachineContinue to b))" "nodeIdentity n = i"
    then have "nodeKind n = k" using built_kind [OF assms(1,3)] by simp
    with assms(5) show "required_cases (nodeKind n) \<subseteq> {continue_case} \<and> filled n"
      by (auto simp: filled_def)
  qed
qed

section \<open>Effects\<close>

lemma on_value_nodes [simp]:
  "bNodes (append_value v b) = bNodes b" "bNodes (b\<lparr>bEffects := m\<rparr>) = bNodes b"
  by (simp_all add: append_value_def)

lemma addProjection_nodes [simp]: "bNodes (addProjection r b) = bNodes b"
  by (simp add: addProjection_def)

lemma add_projections_nodes [simp]: "bNodes (add_projections rs b) = bNodes b"
proof -
  have "bNodes (foldl (\<lambda>b r. if vrIdentity r = vrSource r then b else addProjection r b) b rs) = bNodes b"
    by (induction rs arbitrary: b) simp_all
  then show ?thesis by (simp add: add_projections_def)
qed

lemma built_effect_transitions:
  assumes b: "built (W(i \<mapsto> {})) b" and "i \<notin> dom W" and k: "k \<in> ids b"
    and n: "\<And>n. n \<in> set (bNodes b) \<Longrightarrow> nodeIdentity n = i \<Longrightarrow> nodeKind n = NodeEffect \<and> nodeEffect n \<noteq> None"
  shows "built W (effect_transitions i k m b)" and "grew b (effect_transitions i k m b)"
proof -
  let ?b1 = "addTransition i MachineEffectSucceeded k b"
  let ?b2 = "addTransition i MachineEffectFailed (if m then k else bFailure b) ?b1"
  let ?b3 = "addTransition i MachineCancelRequested (if m then k else bCancel b) ?b2"
  let ?b4 = "addTransition i MachineTimeout (if m then k else bTimeout b) ?b3"
  have e: "effect_transitions i k m b = ?b4" by (simp add: effect_transitions_def)
  note t = built_scope [OF b]
  have "built (W(i \<mapsto> {(MachineEffectSucceeded, event_string MachineEffectSucceeded)})) ?b1"
    using built_addTransition [OF b k, of MachineEffectSucceeded] by simp
  then have "built (W(i \<mapsto> {(MachineEffectFailed, event_string MachineEffectFailed),
      (MachineEffectSucceeded, event_string MachineEffectSucceeded)})) ?b2"
    by (rule built_addTransition) (use k t in auto)
  then have "built (W(i \<mapsto> {(MachineCancelRequested, event_string MachineCancelRequested),
      (MachineEffectFailed, event_string MachineEffectFailed),
      (MachineEffectSucceeded, event_string MachineEffectSucceeded)})) ?b3"
    by (rule built_addTransition) (use k t in auto)
  then have "built (W(i \<mapsto> {(MachineTimeout, event_string MachineTimeout),
      (MachineCancelRequested, event_string MachineCancelRequested),
      (MachineEffectFailed, event_string MachineEffectFailed),
      (MachineEffectSucceeded, event_string MachineEffectSucceeded)})) ?b4"
    by (rule built_addTransition) (use k t in auto)
  then have "built W ?b4"
    by (rule built_close [OF _ assms(2)])
      (use n in \<open>auto simp: result_cases_def result_events_def filled_def\<close>)
  with e show "built W (effect_transitions i k m b)" by simp
  have "grew b ?b1" and "grew ?b1 ?b2" and "grew ?b2 ?b3" and "grew ?b3 ?b4"
    by (rule addTransition_kinds(3))+
  then show "grew b (effect_transitions i k m b)" unfolding e by (blast intro: grew_trans)
qed

definition kept :: "(string \<rightharpoonup> transition_case set) \<Rightarrow> builder \<Rightarrow> string \<Rightarrow> builder \<Rightarrow> bool" where
  "kept W b e b' \<longleftrightarrow> built W b' \<and> grew b b' \<and> e \<in> ids b'"

lemma register_kept:
  "built W (register_effect step i region value b) = built W b"
  "grew b (register_effect step i region value b)"
  "bNodes (register_effect step i region value b) = bNodes b"
proof -
  let ?b1 = "if trim_prefix (psResultIdentity step) ''value/'' \<noteq> []
    then b\<lparr>bEffects := (bEffects b)(trim_prefix (psResultIdentity step) ''value/'' \<mapsto> i)\<rparr> else b"
  have 1: "built W ?b1 = built W b" "grew b ?b1" "bNodes ?b1 = bNodes b"
    by (simp_all add: builder_simps)
  then show "built W (register_effect step i region value b) = built W b"
    and "bNodes (register_effect step i region value b) = bNodes b"
    by (simp_all add: register_effect_def Let_def builder_simps)
  have "grew b (append_value v ?b1)" for v
    by (rule grew_trans [OF 1(2)]) (simp add: builder_simps)
  then have "grew b (add_projections ps (append_value v ?b1))" for ps v
    by (rule grew_trans) (rule built_add_projections(2))
  then show "grew b (register_effect step i region value b)"
    unfolding register_effect_def Let_def .
qed

lemma place_effect_kept:
  assumes "built W b" and k: "k \<in> ids b" and "place_effect s k b = (e, b')"
  shows "kept W b e b'"
proof -
  obtain i b1 where a: "addNode (psOperation s) NodeEffect b = (i, b1)" by fastforce
  note new = built_addNode [OF assms(1) a]
  define region where "region = (if psOperation s = ''transfer'' then ''region/'' @ psTransferTarget s else bRegion b)"
  define b2 where "b2 = (if psOperation s = ''transfer'' then addRegion region (psTransferTarget s) [] b1 else b1)"
  define step where "step = placed_step s i b2"
  define v where "v = valueIdentity b2 (psResultIdentity step)"
  define g where "g = (\<lambda>n :: flow_node. n\<lparr>nodeRegion := region, nodeBranch := bBranch b,
                 nodeEffect := Some step, nodeCleanup := bCause b \<noteq> TerminalNone,
                 nodeCleanupCause := bCause b, nodeValue := v\<rparr>)"
  define b4 where "b4 = register_effect step i region v (on_node i g b2)"
  have "(e, b') = (i, effect_transitions i k (zget [] (bMatch b4) (psResultIdentity step) \<noteq> []) b4)"
    unfolding assms(3) [symmetric] place_effect_def a b4_def g_def v_def step_def b2_def region_def
      Let_def prod.case ..
  then have p: "e = i" "b' = effect_transitions i k (zget [] (bMatch b4) (psResultIdentity step) \<noteq> []) b4"
    by simp_all
  have b2: "built (W(i \<mapsto> {})) b2" "grew b1 b2"
    using built_addRegion [OF new(1)] new(1) by (simp_all add: b2_def)
  have r: "region \<in> set (bRegions b2)"
  proof (cases "psOperation s = ''transfer''")
    case True
    then show ?thesis using built_addRegion(3) [OF new(1)] by (simp add: b2_def)
  next
    case False
    then show ?thesis using built_bRegion [OF b2(1)] new(2) by (simp add: b2_def region_def grew_def same_scope_def)
  qed
  have b3: "built (W(i \<mapsto> {})) (on_node i g b2)" "grew b2 (on_node i g b2)"
    using built_node(1,2) [OF b2(1)] r
    by (intro built_on_node [OF b2(1)]; simp add: g_def)+
  have b4: "built (W(i \<mapsto> {})) b4" "grew (on_node i g b2) b4" "bNodes b4 = bNodes (on_node i g b2)"
    using b3(1) by (simp_all add: b4_def register_kept)
  have here: "nodeKind n = NodeEffect \<and> nodeEffect n \<noteq> None"
    if "n \<in> set (bNodes (on_node i g b2))" "nodeIdentity n = i" for n
  proof -
    have "(i, NodeEffect) \<in> node_kinds (on_node i g b2)"
      using addNode_kind [OF a] b2(2) b3(2) by (blast intro: grew_kind)
    then have "nodeKind n = NodeEffect" using built_kind [OF b3(1)] that by simp
    moreover have "named b2" using b2(1) by (simp add: built_def)
    from on_node_here [OF this _ that] obtain m where "n = g m" by (auto simp: g_def)
    ultimately show ?thesis by (simp add: g_def)
  qed
  have up: "grew b b4" using new(2) b2(2) b3(2) b4(2) by (blast intro: grew_trans)
  have t: "built W b'" "grew b4 b'"
    using built_effect_transitions [OF b4(1) new(5) grew_ids [OF up k]] here
    by (simp_all add: p b4(3))
  moreover have "i \<in> ids b'"
    using new(3) b2(2) b3(2) b4(2) t(2) by (blast intro: grew_ids)
  ultimately show ?thesis using up p(1) by (auto simp: kept_def intro: grew_trans)
qed

lemma compileEffect_kept:
  assumes "built W b" and "k \<in> ids b" and "compileEffect s k b = (e, b')"
  shows "kept W b e b'"
  using assms place_effect_kept [of W b k "cleanup_result s b" e b']
  by (auto simp: compileEffect_def Let_def kept_def split: if_splits)

section \<open>Sequences, branches, parallel, regions\<close>

definition compiles :: "compiler \<Rightarrow> workflow_flow_node \<Rightarrow> bool" where
  "compiles rec node \<longleftrightarrow> (\<forall>W k b e b'. built W b \<longrightarrow> k \<in> ids b \<longrightarrow>
     rec node k b = Inr (e, b') \<longrightarrow> kept W b e b')"

lemma compilesD:
  "compiles rec node \<Longrightarrow> rec node k b = Inr (e, b') \<Longrightarrow> built W b \<Longrightarrow> k \<in> ids b \<Longrightarrow> kept W b e b'"
  by (auto simp: compiles_def)

lemma kept_fields [builder_simps]:
  "kept W (b\<lparr>bBranch := x\<rparr>) e b' = kept W b e b'" "kept W b e (b'\<lparr>bBranch := x\<rparr>) = kept W b e b'"
  "kept W (b\<lparr>bFinally := n\<rparr>) e b' = kept W b e b'" "kept W b e (b'\<lparr>bFinally := n\<rparr>) = kept W b e b'"
  "kept W (b\<lparr>bForEach := n\<rparr>) e b' = kept W b e b'" "kept W b e (b'\<lparr>bForEach := n\<rparr>) = kept W b e b'"
  "kept W (b\<lparr>bMatch := m\<rparr>) e b' = kept W b e b'" "kept W b e (b'\<lparr>bMatch := m\<rparr>) = kept W b e b'"
  by (simp_all add: kept_def builder_simps)

lemma keptD: "kept W b e b' \<Longrightarrow> built W b'" "kept W b e b' \<Longrightarrow> grew b b'" "kept W b e b' \<Longrightarrow> e \<in> ids b'"
  by (simp_all add: kept_def)

lemma kept_trans: "grew a b \<Longrightarrow> kept W b e c \<Longrightarrow> kept W a e c"
  by (auto simp: kept_def intro: grew_trans)

lemma compile_back_kept:
  "\<forall>c \<in> set cs. compiles rec c \<Longrightarrow> built W b \<Longrightarrow> k \<in> ids b \<Longrightarrow>
    compile_back rec cs k b = Inr (e, b') \<Longrightarrow> kept W b e b'"
proof (induction cs arbitrary: k b)
  case Nil
  then show ?case by (simp add: kept_def)
next
  case (Cons c cs)
  from Cons.prems(4) obtain x b1 where x: "rec c k b = Inr (x, b1)"
    and b1: "compile_back rec cs x b1 = Inr (e, b')"
    by (auto split: sum.splits)
  have k1: "kept W b x b1" using Cons.prems(1-3) x by (auto intro: compilesD)
  from Cons.IH [OF _ keptD(1) [OF k1] keptD(3) [OF k1] b1] Cons.prems(1)
  show ?case by (intro kept_trans [OF keptD(2) [OF k1]]) simp
qed

lemma compile_sequence_kept:
  assumes "\<forall>c \<in> set (wfChildren node). compiles rec c" and "built W b" and "k \<in> ids b"
    and "compile_sequence rec node k b = Inr (e, b')"
  shows "kept W b e b'"
proof -
  let ?b1 = "if wfKind node = ''branch'' then b\<lparr>bBranch := wfIdentity node\<rparr> else b"
  from assms(4) obtain b2 where "compile_back rec (rev (wfChildren node)) k ?b1 = Inr (e, b2)"
    and b': "b' = b2\<lparr>bBranch := bBranch b\<rparr>"
    by (auto simp: compile_sequence_def Let_def split: sum.splits)
  then have "kept W ?b1 e b2"
    using assms(1-3) by (intro compile_back_kept [where cs = "rev (wfChildren node)"]) (auto simp: builder_simps)
  then show ?thesis by (simp add: b' builder_simps split: if_splits)
qed

text \<open>Updates of a node that touch none of the fields the invariant reads.\<close>

lemma built_on_node_other:
  assumes b: "built W b"
    and "\<And>n. nodeIdentity (g n) = nodeIdentity n \<and> nodeKind (g n) = nodeKind n \<and> nodeTargets (g n) = nodeTargets n
      \<and> nodeWaitFor (g n) = nodeWaitFor n \<and> nodeRegion (g n) = nodeRegion n
      \<and> nodeEffect (g n) = nodeEffect n \<and> nodePredicate (g n) = nodePredicate n"
  shows "built W (on_node i g b)" and "grew b (on_node i g b)"
  using built_node(1,2,3,5) [OF b] assms(2)
  by (intro built_on_node [OF b]; simp add: filled_def)+

lemma grew_node_lists:
  "grew b (on_node i (\<lambda>n. n\<lparr>nodeTargets := nodeTargets n @ xs\<rparr>) b)"
  "grew b (on_node i (\<lambda>n. n\<lparr>nodeWaitFor := nodeWaitFor n @ xs\<rparr>) b)"
  using on_node_fields on_node_ids(2) by (simp_all add: grew_def)

lemma compile_branches_kept:
  "\<forall>c \<in> set cs. compiles rec c \<Longrightarrow> built W b \<Longrightarrow> fk \<in> ids b \<Longrightarrow> jn \<in> ids b \<Longrightarrow>
    compile_branches rec fk jn cs b = Inr b' \<Longrightarrow> built W b' \<and> grew b b'"
proof (induction cs arbitrary: b)
  case (Cons c cs)
  obtain x b1 where x: "addNode (''branch-'' @ wfIdentity c @ ''-exit'') NodeBranchExit b = (x, b1)" by fastforce
  let ?b2 = "on_node x (\<lambda>n. n\<lparr>nodeBranch := wfIdentity c\<rparr>) b1"
  note new = built_addNode [OF Cons.prems(2) x]
  have b2: "built (W(x \<mapsto> {})) ?b2" "grew b1 ?b2"
    by (rule built_on_node_other [OF new(1)], simp)+
  have b2': "built W ?b2"
    by (rule built_leave [OF b2(1) new(5) grew_kind [OF b2(2) addNode_kind [OF x]]]) simp
  from Cons.prems(5) x obtain e b3 where e: "rec c x ?b2 = Inr (e, b3)"
    and rest: "compile_branches rec fk jn cs (on_node jn (\<lambda>n. n\<lparr>nodeWaitFor := nodeWaitFor n @ [x]\<rparr>)
      (on_node fk (\<lambda>n. n\<lparr>nodeTargets := nodeTargets n @ [e]\<rparr>) b3)) = Inr b'"
    by (auto simp: Let_def split: sum.splits)
  have "x \<in> ids ?b2" using b2(2) new(3) by (rule grew_ids)
  with e b2' Cons.prems(1) have k3: "kept W ?b2 e b3" by (auto intro: compilesD)
  let ?b4 = "on_node fk (\<lambda>n. n\<lparr>nodeTargets := nodeTargets n @ [e]\<rparr>) b3"
  let ?b5 = "on_node jn (\<lambda>n. n\<lparr>nodeWaitFor := nodeWaitFor n @ [x]\<rparr>) ?b4"
  have b4: "built W ?b4" using keptD [OF k3] by (intro built_node_lists) auto
  have g4: "grew ?b2 ?b4" using keptD(2) [OF k3] grew_node_lists(1) by (rule grew_trans)
  have "x \<in> ids ?b4" using g4 \<open>x \<in> ids ?b2\<close> by (rule grew_ids)
  then have b5: "built W ?b5" by (intro built_node_lists [OF b4]) auto
  have up: "grew b ?b5"
    using new(2) b2(2) g4 grew_node_lists(2) by (blast intro: grew_trans)
  from Cons.IH [OF _ b5 grew_ids [OF up] grew_ids [OF up] rest] Cons.prems(1,3,4)
  show ?case using up by (auto intro: grew_trans)
qed simp

lemma compile_parallel_kept:
  assumes "\<forall>c \<in> set (wfChildren node). compiles rec c" and "built W b" and k: "k \<in> ids b"
    and "compile_parallel rec node k b = Inr (e, b')"
  shows "kept W b e b'"
proof -
  obtain j b1 where j: "addNode ''join'' NodeJoin b = (j, b1)" by fastforce
  let ?b2 = "addTransition j MachineContinue k b1"
  obtain x b3 where x: "addNode ''fork'' NodeFork ?b2 = (x, b3)" by fastforce
  note nj = built_addNode [OF assms(2) j]
  have b2: "built W ?b2"
    using grew_ids [OF nj(2) k] addNode_kind [OF j] by (intro built_continue [OF nj(1,5)]) auto
  note nx = built_addNode [OF b2 x]
  from assms(4) j x obtain b4 where b4: "compile_branches rec x j (wfChildren node) b3 = Inr b4"
    and e: "e = x" and b': "b' = on_node x (\<lambda>n. n\<lparr>nodeTargets := nodeTargets n @ [j]\<rparr>) b4"
    by (auto simp: compile_parallel_def Let_def split: sum.splits)
  have j3: "j \<in> ids b3" by (rule grew_ids [OF nx(2)]) (use nj(3) in simp)
  have r: "built (W(x \<mapsto> {})) b4" "grew b3 b4"
    using compile_branches_kept [OF assms(1) nx(1,3) j3 b4] by simp_all
  have open': "built (W(x \<mapsto> {})) b'"
    unfolding b' using grew_ids [OF r(2) j3] by (intro built_node_lists [OF r(1)]) simp
  have g: "grew b4 b'" unfolding b' by (rule grew_node_lists)
  have "(x, NodeFork) \<in> node_kinds b'"
    using addNode_kind [OF x] r(2) g by (blast intro: grew_kind)
  from built_leave [OF open' nx(5) this] have "built W b'" by simp
  moreover have "grew b b'"
    using grew_trans [OF nj(2) grew_trans [OF addTransition_kinds(3) grew_trans [OF nx(2) grew_trans [OF r(2) g]]]] .
  moreover have "x \<in> ids b'" using nx(3) r(2) g by (blast intro: grew_ids)
  ultimately show ?thesis by (simp add: kept_def e)
qed

lemma node_kinds_scope [simp]:
  "node_kinds (b\<lparr>bRegion := r\<rparr>) = node_kinds b"
  "node_kinds (b\<lparr>bFailure := x, bCancel := y, bTimeout := z\<rparr>) = node_kinds b"
  "node_kinds (b\<lparr>bPath := p\<rparr>) = node_kinds b"
  "node_kinds (b\<lparr>bCause := c\<rparr>) = node_kinds b"
  by (simp_all add: node_kinds_def)

lemma grew_regions: "grew b b' \<Longrightarrow> set (bRegions b) \<subseteq> set (bRegions b')"
  unfolding grew_def by blast

lemma grewI: "same_scope b b' \<Longrightarrow> grew a a' \<Longrightarrow> node_kinds b \<subseteq> node_kinds a \<Longrightarrow>
    set (bRegions b) \<subseteq> set (bRegions a) \<Longrightarrow> node_kinds b' = node_kinds a' \<Longrightarrow>
    set (bRegions b') = set (bRegions a') \<Longrightarrow> grew b b'"
  unfolding grew_def by (metis subset_trans)

lemma grew_restore_region:
  assumes "grew b b1" and "grew (b1\<lparr>bRegion := r\<rparr>) b3"
  shows "grew b (b3\<lparr>bRegion := bRegion b\<rparr>)"
proof (rule grewI [OF _ assms(2)])
  show "same_scope b (b3\<lparr>bRegion := bRegion b\<rparr>)"
    using assms by (simp add: grew_def same_scope_def)
  show "set (bRegions b) \<subseteq> set (bRegions (b1\<lparr>bRegion := r\<rparr>))"
    using grew_regions [OF assms(1)] by simp
  show "node_kinds b \<subseteq> node_kinds (b1\<lparr>bRegion := r\<rparr>)"
    using assms(1) by (simp add: grew_def)
qed simp_all

lemma compile_region_kept:
  assumes "\<forall>c \<in> set (wfChildren node). compiles rec c" and "built W b" and k: "k \<in> ids b"
    and "compile_region rec node k b = Inr (e, b')"
  shows "kept W b e b'"
proof -
  obtain x b1 where x: "addNode ''region'' NodeEntry b = (x, b1)" by fastforce
  note nx = built_addNode [OF assms(2) x]
  define r where "r = (if wfEnv node \<noteq> [] then ''region/'' @ trim_prefix x ''node/'' else ''region/'' @ wfRunsOn node)"
  let ?b2 = "addRegion r (wfRunsOn node) (normalizeEnvironment (wfEnv node)) b1"
  let ?b2r = "?b2\<lparr>bRegion := r\<rparr>"
  from assms(4) x obtain next' b3 where
      c: "compile_back rec (rev (wfChildren node)) k ?b2r = Inr (next', b3)"
    and e: "e = x" and b': "b' = addTransition x MachineContinue next' (b3\<lparr>bRegion := bRegion b\<rparr>)"
    by (auto simp: compile_region_def Let_def r_def split: sum.splits)
  note b2 = built_addRegion [OF nx(1), of r "wfRunsOn node" "normalizeEnvironment (wfEnv node)"]
  have b2r: "built (W(x \<mapsto> {})) ?b2r" by (rule built_region [OF b2(1,3)])
  have up: "grew b ?b2" using nx(2) b2(2) by (rule grew_trans)
  have "k \<in> ids ?b2r" using grew_ids [OF up k] by simp
  with c b2r assms(1) have k3: "kept (W(x \<mapsto> {})) ?b2r next' b3"
    by (intro compile_back_kept [where cs = "rev (wfChildren node)"]) auto
  let ?b3 = "b3\<lparr>bRegion := bRegion b\<rparr>"
  have g3: "grew b ?b3" using up keptD(2) [OF k3] by (rule grew_restore_region)
  have "bRegion b \<in> set (bRegions b3)"
    using built_bRegion [OF assms(2)] grew_regions [OF g3] by auto
  then have b3: "built (W(x \<mapsto> {})) ?b3" by (rule built_region [OF keptD(1) [OF k3]])
  have "(x, NodeEntry) \<in> node_kinds ?b2r"
    using addNode_kind [OF x] b2(4) by (simp add: node_kinds_def)
  then have kind: "(x, NodeEntry) \<in> node_kinds ?b3"
    using grew_kind [OF keptD(2) [OF k3]] by (simp add: node_kinds_def)
  have "built W b'"
    unfolding b' using keptD(3) [OF k3] by (intro built_continue [OF b3 nx(5) kind]) auto
  moreover have "grew b b'" unfolding b' by (rule grew_trans [OF g3]) simp
  moreover have "x \<in> ids b'" using kind by (auto simp: b' node_kinds_def)
  ultimately show ?thesis by (simp add: kept_def e)
qed

section \<open>MatchResult, Finally, When\<close>

definition arm_cases :: "string list \<Rightarrow> transition_case set" where
  "arm_cases seen = (\<lambda>k. (MachineContinue, k)) ` set seen"

lemma compile_arms_kept:
  "\<forall>a \<in> set as. compiles rec (armFlow a) \<Longrightarrow> built (W(m \<mapsto> arm_cases seen)) b \<Longrightarrow> k \<in> ids b \<Longrightarrow>
    (m, NodeMatch) \<in> node_kinds b \<Longrightarrow> compile_arms rec m k as seen b = Inr (seen', b') \<Longrightarrow>
    built (W(m \<mapsto> arm_cases seen')) b' \<and> grew b b'"
proof (induction as arbitrary: seen b)
  case (Cons a as)
  from Cons.prems(5) obtain e b1 where "armKind a \<notin> set seen" and e: "rec (armFlow a) k b = Inr (e, b1)"
    and rest: "compile_arms rec m k as (armKind a # seen)
      (addTransitionGuard m MachineContinue (armKind a) e b1) = Inr (seen', b')"
    by (auto split: if_splits sum.splits)
  have k1: "kept (W(m \<mapsto> arm_cases seen)) b e b1"
    using Cons.prems(1) by (intro compilesD [where rec = rec and node = "armFlow a", OF _ e Cons.prems(2,3)]) simp
  let ?b2 = "addTransitionGuard m MachineContinue (armKind a) e b1"
  have kind: "(m, NodeMatch) \<in> node_kinds b1" by (rule grew_kind [OF keptD(2) [OF k1] Cons.prems(4)])
  have "built (W(m \<mapsto> insert (MachineContinue, armKind a) (arm_cases seen))) ?b2"
  proof (rule built_addTransitionGuard [OF keptD(1,3) [OF k1]])
    show "(MachineContinue, armKind a) \<notin> arm_cases seen"
      using \<open>armKind a \<notin> set seen\<close> by (auto simp: arm_cases_def)
    fix n assume "n \<in> set (bNodes b1)" "nodeIdentity n = m" "\<not> guarded_kind (nodeKind n)"
    with built_kind [OF keptD(1) [OF k1] kind] show "armKind a = event_string MachineContinue"
      by (auto simp: guarded_kind_def)
  qed
  then have b2: "built (W(m \<mapsto> arm_cases (armKind a # seen))) ?b2" by (simp add: arm_cases_def)
  have g: "grew b ?b2" by (rule grew_trans [OF keptD(2) [OF k1] addTransitionGuard_fields(6)])
  have "\<forall>a \<in> set as. compiles rec (armFlow a)" using Cons.prems(1) by simp
  from Cons.IH [OF this b2 grew_ids [OF g Cons.prems(3)] grew_kind [OF g Cons.prems(4)] rest] g
  show ?case by (auto intro: grew_trans)
qed simp

lemma compile_match_kept:
  assumes "\<forall>a \<in> set (wfArms node). compiles rec (armFlow a)" and "built W b" and k: "k \<in> ids b"
    and "compile_match rec node k b = Inr (e, b')"
  shows "kept W b e b'"
proof -
  from assms(4) obtain src effect where s: "wfSource node = Some src" and ef: "wfEffect node = Some effect"
    by (auto simp: compile_match_def split: option.splits)
  obtain m b1 where m: "addNode (''match-'' @ wvrResultType src) NodeMatch b = (m, b1)" by fastforce
  note nm = built_addNode [OF assms(2) m]
  let ?b2 = "on_node m (\<lambda>n. n\<lparr>nodeSource := valueIdentity b1 (wvrSource src),
      nodeProjection := match_projection b1 src\<rparr>) b1"
  have b2: "built (W(m \<mapsto> {})) ?b2" "grew b1 ?b2" by (rule built_on_node_other [OF nm(1)], simp)+
  from assms(4) s ef m obtain seen b3 where
      arms: "compile_arms rec m k (wfArms node) [] ?b2 = Inr (seen, b3)"
    by (auto simp: compile_match_def Let_def split: sum.splits)
  with assms(4) s ef m have all: "find (\<lambda>x. x \<notin> set seen) outcome_names = None"
    by (auto simp: compile_match_def Let_def split: option.splits)
  let ?b4 = "b3\<lparr>bMatch := (bMatch b3)(wsResultIdentity effect \<mapsto> m)\<rparr>"
  from assms(4) s ef m arms all have r: "(e = m \<and> b' = ?b4)
      \<or> compileEffect (planStepFromManifest effect (bNext ?b4 + 1) ''flow'') m ?b4 = (e, b')"
    by (auto simp: compile_match_def Let_def split: if_splits)
  have up: "grew b ?b2" using nm(2) b2(2) by (rule grew_trans)
  have kind: "(m, NodeMatch) \<in> node_kinds ?b2" by (rule grew_kind [OF b2(2) addNode_kind [OF m]])
  have "built (W(m \<mapsto> arm_cases [])) ?b2" using b2(1) by (simp add: arm_cases_def)
  from compile_arms_kept [OF assms(1) this grew_ids [OF up k] kind arms]
  have b3: "built (W(m \<mapsto> arm_cases seen)) b3" "grew ?b2 b3" by simp_all
  have "built W b3"
  proof (rule built_close [OF b3(1) nm(5)])
    fix n assume "n \<in> set (bNodes b3)" "nodeIdentity n = m"
    then have "nodeKind n = NodeMatch" using built_kind [OF b3(1) grew_kind [OF b3(2) kind]] by simp
    moreover have "set outcome_names \<subseteq> set seen" using all by (auto simp: find_None_iff)
    ultimately show "required_cases (nodeKind n) \<subseteq> arm_cases seen \<and> filled n"
      by (auto simp: arm_cases_def filled_def)
  qed
  moreover have "grew b b3" by (rule grew_trans [OF up b3(2)])
  moreover have "m \<in> ids b3"
    by (rule grew_ids [OF b3(2)], rule grew_ids [OF b2(2)], rule nm(3))
  ultimately have b4: "kept W b m ?b4" by (simp add: kept_def builder_simps)
  from r show ?thesis
  proof
    assume "compileEffect (planStepFromManifest effect (bNext ?b4 + 1) ''flow'') m ?b4 = (e, b')"
    from compileEffect_kept [OF keptD(1,3) [OF b4] this] keptD(2) [OF b4]
    show ?thesis by (auto intro: kept_trans)
  qed (use b4 in simp)
qed

lemma grew_restore_targets:
  assumes "grew (b\<lparr>bFailure := x, bCancel := y, bTimeout := z\<rparr>) b1"
  shows "grew b (b1\<lparr>bFailure := bFailure b, bCancel := bCancel b, bTimeout := bTimeout b\<rparr>)"
  by (rule grewI [OF _ assms]) (use assms in \<open>simp_all add: grew_def same_scope_def\<close>)

text \<open>Compiling under other targets, which are restored afterwards.\<close>

lemma kept_under_targets:
  assumes "built W b" and "k \<in> ids b" and "{x, y, z} \<subseteq> ids b" and "compiles rec node"
    and "rec node k (b\<lparr>bFailure := x, bCancel := y, bTimeout := z\<rparr>) = Inr (e, b1)"
  shows "kept W b e (b1\<lparr>bFailure := bFailure b, bCancel := bCancel b, bTimeout := bTimeout b\<rparr>)"
proof -
  let ?b = "b\<lparr>bFailure := x, bCancel := y, bTimeout := z\<rparr>"
  have k: "kept W ?b e b1"
    using assms(2) by (intro compilesD [OF assms(4,5) built_targets [OF assms(1,3)]]) simp
  let ?b1 = "b1\<lparr>bFailure := bFailure b, bCancel := bCancel b, bTimeout := bTimeout b\<rparr>"
  have g: "grew b ?b1" by (rule grew_restore_targets [OF keptD(2) [OF k]])
  have "{bFailure b, bCancel b, bTimeout b} \<subseteq> ids b1"
    using built_scope(1-3) [OF assms(1)] grew_ids [OF g] by simp
  then have "built W ?b1" by (rule built_targets [OF keptD(1) [OF k]])
  with g keptD(3) [OF k] show ?thesis by (simp add: kept_def)
qed

lemma compileCleanup_kept:
  assumes "compiles rec node" and b: "built W b" and "k \<in> ids b"
    and "compileCleanup rec node k cause b = Inr (e, b')"
  shows "kept W b e b'"
proof -
  let ?ts = "flowTerminals (bFlow b)"
  let ?z = "if cause \<noteq> TerminalSucceeded then ftFailed ?ts else ftTimedOut ?ts"
  let ?c = "b\<lparr>bCause := cause\<rparr>"
  let ?b = "?c\<lparr>bFailure := ftFailed ?ts, bCancel := ftCancelled ?ts, bTimeout := ?z\<rparr>"
  have "?b = b\<lparr>bFailure := ftFailed ?ts, bCancel := ftCancelled ?ts, bTimeout := ?z, bCause := cause\<rparr>"
    by simp
  with assms(4) obtain b2 where r: "rec node k ?b = Inr (e, b2)"
    and b': "b' = b2\<lparr>bFailure := bFailure b, bCancel := bCancel b, bTimeout := bTimeout b, bCause := bCause b\<rparr>"
    by (simp add: compileCleanup_def Let_def split: sum.splits prod.splits)
  have c: "built W ?c" using b by (simp add: builder_simps)
  have "kept W ?c e (b2\<lparr>bFailure := bFailure ?c, bCancel := bCancel ?c, bTimeout := bTimeout ?c\<rparr>)"
    using assms(3) built_scope(4-7) [OF b] by (intro kept_under_targets [OF c _ _ assms(1) r]) auto
  then have k: "kept W ?c e (b2\<lparr>bFailure := bFailure b, bCancel := bCancel b, bTimeout := bTimeout b\<rparr>)"
    by simp
  have "grew b b'"
    by (rule grewI [OF _ keptD(2) [OF k]])
      (use keptD(2) [OF k] in \<open>simp_all add: b' grew_def same_scope_def\<close>)
  moreover have "built W b'"
    using keptD(1) [OF k] built_fields(2) [where c = "bCause b" and W = W and
      b = "b2\<lparr>bFailure := bFailure b, bCancel := bCancel b, bTimeout := bTimeout b\<rparr>"] by (simp add: b')
  ultimately show ?thesis using keptD(3) [OF k] by (simp add: kept_def b')
qed

lemma compile_finally_kept:
  assumes "\<And>x. wfBody node = Some x \<Longrightarrow> compiles rec x" and "\<And>x. wfCleanup node = Some x \<Longrightarrow> compiles rec x"
    and b: "built W b" and k: "k \<in> ids b" and "compile_finally rec node k b = Inr (e, b')"
  shows "kept W b e b'"
proof -
  from assms(5) obtain body cl where bc: "wfBody node = Some body" "wfCleanup node = Some cl"
    by (auto simp: compile_finally_def split: option.splits)
  let ?b0 = "b\<lparr>bFinally := bFinally b + 1\<rparr>"
  from assms(5) bc obtain x1 b1 where c1: "compileCleanup rec cl k TerminalSucceeded ?b0 = Inr (x1, b1)"
    by (auto simp: compile_finally_def split: if_splits sum.splits)
  from assms(5) bc c1 obtain x2 b2 where c2: "compileCleanup rec cl (bFailure b) TerminalFailed b1 = Inr (x2, b2)"
    by (auto simp: compile_finally_def split: if_splits sum.splits)
  from assms(5) bc c1 c2 obtain x3 b3 where c3: "compileCleanup rec cl (bCancel b) TerminalCancelled b2 = Inr (x3, b3)"
    by (auto simp: compile_finally_def split: if_splits sum.splits)
  from assms(5) bc c1 c2 c3 obtain x4 b4 where c4: "compileCleanup rec cl (bTimeout b) TerminalTimedOut b3 = Inr (x4, b4)"
    by (auto simp: compile_finally_def split: if_splits sum.splits)
  from assms(5) bc c1 c2 c3 c4 obtain b5 where
      r: "rec body x1 (b4\<lparr>bFailure := x2, bCancel := x3, bTimeout := x4\<rparr>) = Inr (e, b5)"
    and b': "b' = b5\<lparr>bFailure := bFailure b4, bCancel := bCancel b4, bTimeout := bTimeout b4,
        bFinally := bFinally b5 - 1\<rparr>"
    by (auto simp: compile_finally_def split: if_splits sum.splits)
  note cc = compileCleanup_kept [OF assms(2) [OF bc(2)]]
  have k1: "kept W b x1 b1" using cc [OF _ _ c1, of W] b k by (simp add: builder_simps)
  note t = built_scope(1-3) [OF b]
  have k2: "kept W b1 x2 b2" by (rule cc [OF keptD(1) [OF k1] grew_ids [OF keptD(2) [OF k1] t(1)] c2])
  have g2: "grew b b2" by (rule grew_trans [OF keptD(2) [OF k1] keptD(2) [OF k2]])
  have k3: "kept W b2 x3 b3" by (rule cc [OF keptD(1) [OF k2] grew_ids [OF g2 t(2)] c3])
  have g3: "grew b b3" by (rule grew_trans [OF g2 keptD(2) [OF k3]])
  have k4: "kept W b3 x4 b4" by (rule cc [OF keptD(1) [OF k3] grew_ids [OF g3 t(3)] c4])
  have g4: "grew b b4" by (rule grew_trans [OF g3 keptD(2) [OF k4]])
  have "x1 \<in> ids b4"
    by (rule grew_ids [OF keptD(2) [OF k4]], rule grew_ids [OF keptD(2) [OF k3]],
        rule grew_ids [OF keptD(2) [OF k2]], rule keptD(3) [OF k1])
  moreover have "x2 \<in> ids b4"
    by (rule grew_ids [OF keptD(2) [OF k4]], rule grew_ids [OF keptD(2) [OF k3]], rule keptD(3) [OF k2])
  moreover have "x3 \<in> ids b4" by (rule grew_ids [OF keptD(2) [OF k4] keptD(3) [OF k3]])
  ultimately have "kept W b4 e (b5\<lparr>bFailure := bFailure b4, bCancel := bCancel b4, bTimeout := bTimeout b4\<rparr>)"
    using keptD(3) [OF k4] by (intro kept_under_targets [OF keptD(1) [OF k4] _ _ assms(1) [OF bc(1)] r]) auto
  then have "kept W b4 e b'"
    unfolding b' by (simp only: builder_simps)
  then show ?thesis by (rule kept_trans [OF g4])
qed

lemma normalize_each_kept:
  "(\<And>p c p' c'. p \<in> set ps \<Longrightarrow> rec p c = (p', c') \<Longrightarrow> built W c \<Longrightarrow> built W c' \<and> grew c c') \<Longrightarrow>
    normalize_each rec ps b = (ps', b') \<Longrightarrow> built W b \<Longrightarrow> built W b' \<and> grew b b'"
proof (induction ps arbitrary: b b' ps')
  case (Cons p ps)
  obtain q b1 where q: "rec p b = (q, b1)" by fastforce
  obtain qs b2 where qs: "normalize_each rec ps b1 = (qs, b2)" by fastforce
  have b1: "built W b1 \<and> grew b b1" using Cons.prems(1) [OF _ q Cons.prems(3)] by simp
  have "built W b2 \<and> grew b1 b2"
    by (rule Cons.IH [OF _ qs]) (use Cons.prems(1) b1 in auto)
  with b1 Cons.prems(2) q qs show ?case by (auto intro: grew_trans)
qed simp

lemma normalizePredicate_kept:
  "normalizePredicate p b = (p', b') \<Longrightarrow> built W b \<Longrightarrow> built W b' \<and> grew b b'"
proof (induction "size p" arbitrary: p b p' b' rule: less_induct)
  case less
  obtain i b1 where i: "normalize_predicate_input (pInput p) b = (i, b1)" by fastforce
  obtain cs b2 where cs: "normalize_each normalizePredicate (pChildren p) b1 = (cs, b2)" by fastforce
  have b1: "built W b1 \<and> grew b b1"
    using i less.prems(2) by (auto simp: normalize_predicate_input_def Let_def builder_simps split: option.splits)
  have "built W b2 \<and> grew b1 b2"
  proof (rule normalize_each_kept [OF _ cs])
    fix q c q' c' assume "q \<in> set (pChildren p)" "normalizePredicate q c = (q', c')" "built W c"
    then show "built W c' \<and> grew c c'" using less.hyps [of q] by blast
  qed (use b1 in simp)
  moreover have "b' = b2"
    using less.prems(1) i cs by (simp add: normalizePredicate.simps [of p])
  ultimately show ?case using b1 by (auto intro: grew_trans)
qed

lemma compile_when_kept:
  assumes "\<And>x. wfThen node = Some x \<Longrightarrow> compiles rec x" and "\<And>x. wfElse node = Some x \<Longrightarrow> compiles rec x"
    and b: "built W b" and k: "k \<in> ids b" and "compile_when rec node k b = Inr (e, b')"
  shows "kept W b e b'"
proof -
  from assms(5) obtain pr th where pt: "wfPredicate node = Some pr" "wfThen node = Some th"
    by (auto simp: compile_when_def split: option.splits)
  obtain p b1 where p: "normalizePredicate (predicateFromManifest pr) b = (p, b1)" by fastforce
  from normalizePredicate_kept [OF p b] have b1: "built W b1" "grew b b1" by simp_all
  define otherwise where "otherwise = (case wfElse node of None \<Rightarrow> Inr (k, b1) | Some x \<Rightarrow> rec x k b1)"
  have def': "compile_when rec node k b = (case otherwise of
             Inl e \<Rightarrow> Inl e
           | Inr (falseEntry, b2) \<Rightarrow>
               (case rec th k b2 of
                  Inl e \<Rightarrow> Inl e
                | Inr (trueEntry, b3) \<Rightarrow>
                    (let (condition, b4) = addNode ''when'' NodePredicate b3;
                         b5 = on_node condition (\<lambda>n. n\<lparr>nodePredicate := Some p\<rparr>) b4 in
                     Inr (condition,
                       addTransitionGuard condition MachineContinue ''false'' falseEntry
                         (addTransitionGuard condition MachineContinue ''true'' trueEntry b5)))))"
    by (simp add: compile_when_def pt p otherwise_def)
  from assms(5) obtain x2 b2 where ot: "otherwise = Inr (x2, b2)"
    unfolding def' by (auto split: sum.splits)
  from assms(5) ot obtain x3 b3 where th: "rec th k b2 = Inr (x3, b3)"
    unfolding def' by (auto split: sum.splits)
  have k2: "kept W b1 x2 b2"
  proof (cases "wfElse node")
    case None
    with ot b1(1) grew_ids [OF b1(2) k] show ?thesis by (auto simp: otherwise_def kept_def)
  next
    case (Some el)
    with ot have "rec el k b1 = Inr (x2, b2)" by (simp add: otherwise_def)
    then show ?thesis
      by (rule compilesD [where rec = rec and node = el, OF assms(2) [OF Some] _ b1(1) grew_ids [OF b1(2) k]])
  qed
  have g2: "grew b b2" by (rule grew_trans [OF b1(2) keptD(2) [OF k2]])
  have k3: "kept W b2 x3 b3"
    by (rule compilesD [where rec = rec and node = th, OF assms(1) [OF pt(2)] th keptD(1) [OF k2] grew_ids [OF g2 k]])
  obtain c b4 where c: "addNode ''when'' NodePredicate b3 = (c, b4)" by fastforce
  note nc = built_addNode [OF keptD(1) [OF k3] c]
  let ?b5 = "on_node c (\<lambda>n. n\<lparr>nodePredicate := Some p\<rparr>) b4"
  let ?b6 = "addTransitionGuard c MachineContinue ''true'' x3 ?b5"
  let ?b7 = "addTransitionGuard c MachineContinue ''false'' x2 ?b6"
  from assms(5) ot th c have r: "e = c" "b' = ?b7" unfolding def' by (auto simp: Let_def)
  have b5: "built (W(c \<mapsto> {})) ?b5" "grew b4 ?b5"
    using built_node(1,2,3) [OF nc(1)] by (intro built_on_node [OF nc(1)]; simp)+
  have kind: "(c, NodePredicate) \<in> node_kinds ?b5" by (rule grew_kind [OF b5(2) addNode_kind [OF c]])
  have isp: "nodeKind n = NodePredicate" if "n \<in> set (bNodes ?b5)" "nodeIdentity n = c" for n
    using built_kind [OF b5(1) kind that] .
  have g5: "grew b3 ?b5" by (rule grew_trans [OF nc(2) b5(2)])
  have "built (W(c \<mapsto> {(MachineContinue, ''true'')})) ?b6"
    using built_addTransitionGuard [OF b5(1) grew_ids [OF g5 keptD(3) [OF k3]], of MachineContinue "''true''"] isp
    by (auto simp: guarded_kind_def)
  then have "built (W(c \<mapsto> {(MachineContinue, ''false''), (MachineContinue, ''true'')})) ?b7"
  proof (rule built_addTransitionGuard)
    show "x2 \<in> ids ?b6"
      using grew_ids [OF g5 grew_ids [OF keptD(2) [OF k3] keptD(3) [OF k2]]]
      by (simp add: addTransitionGuard_fields)
    fix n assume "n \<in> set (bNodes ?b6)" "nodeIdentity n = c" "\<not> guarded_kind (nodeKind n)"
    then show "''false'' = event_string MachineContinue"
      using isp by (simp add: addTransitionGuard_fields guarded_kind_def)
  qed simp
  then have "built W ?b7"
  proof (rule built_close [OF _ nc(5)])
    fix n assume "n \<in> set (bNodes ?b7)" "nodeIdentity n = c"
    then have n: "n \<in> set (bNodes ?b5)" "nodeIdentity n = c" by (simp_all add: addTransitionGuard_fields)
    have "named b4" using nc(1) by (simp add: built_def)
    from on_node_here [OF this _ n] obtain m where "n = m\<lparr>nodePredicate := Some p\<rparr>" by auto
    with isp [OF n] show "required_cases (nodeKind n) \<subseteq> {(MachineContinue, ''false''), (MachineContinue, ''true'')}
        \<and> filled n"
      by (auto simp: filled_def)
  qed
  moreover have "grew ?b5 ?b7"
    by (rule grew_trans [OF addTransitionGuard_fields(6) addTransitionGuard_fields(6)])
  then have "grew b ?b7" "c \<in> ids ?b7"
    using g2 keptD(2) [OF k3] g5 grew_ids [OF b5(2) nc(3)] by (blast intro: grew_trans grew_ids)+
  ultimately show ?thesis by (simp add: kept_def r)
qed

section \<open>ForEach\<close>

lemma place_cursor_kept:
  assumes "built W b" and "x \<in> ids b" and "place_cursor node item fp x b = (e, b')"
  shows "kept W b e b'"
proof -
  obtain c b1 where c: "addNode (''foreach-'' @ wfIdentity node @ ''-'' @ pad_int 3 (itemIndex item)) NodeIterator b
      = (c, b1)" by fastforce
  note nc = built_addNode [OF assms(1) c]
  define cur where "cur = item_cursor node item fp (join_strings (bPath b1 @ [item_segment node item]) ''/'') b1"
  let ?b2 = "on_node c (\<lambda>n. n\<lparr>nodeIterator := Some cur\<rparr>) b1"
  from assms(3) c obtain v where e: "e = c" and b': "b' = addTransition c MachineContinue x (append_value v ?b2)"
    by (auto simp: place_cursor_def Let_def cur_def)
  let ?b3 = "append_value v ?b2"
  have b2: "built (W(c \<mapsto> {})) ?b2" "grew b1 ?b2" by (rule built_on_node_other [OF nc(1)], simp)+
  have b3: "built (W(c \<mapsto> {})) ?b3" using b2(1) by (simp add: builder_simps)
  have g: "grew b1 ?b3" by (rule grew_trans [OF b2(2) built_append_value(2)])
  have up: "grew b ?b3" by (rule grew_trans [OF nc(2) g])
  have "built W b'"
    unfolding b' by (rule built_continue [OF b3 nc(5) grew_kind [OF g addNode_kind [OF c]] grew_ids [OF up assms(2)]]) simp
  moreover have "grew b b'" unfolding b' by (rule grew_trans [OF up addTransition_kinds(3)])
  moreover have "c \<in> ids b'" using grew_ids [OF g nc(3)] by (simp add: b')
  ultimately show ?thesis by (simp add: kept_def e)
qed

lemma kept_path [builder_simps]:
  "built W (b\<lparr>bPath := p\<rparr>) = built W b"
  "kept W (b\<lparr>bPath := p\<rparr>) e b' = kept W b e b'" "kept W b e (b'\<lparr>bPath := p\<rparr>) = kept W b e b'"
  by (simp_all add: kept_def builder_simps)

lemma compileForEachItem_kept:
  assumes "compiles rec (itemFlow item)" and b: "built W b" and k: "k \<in> ids b"
    and "compileForEachItem rec node fp item k b = Inr (e, b')"
  shows "kept W b e b'"
proof -
  define x y z where "x = (if fepPolicy fp = ''collectAll'' then k else bFailure b)"
    and "y = (if fepPolicy fp = ''collectAll'' then k else bCancel b)"
    and "z = (if fepPolicy fp = ''collectAll'' then k else bTimeout b)"
  let ?p = "b\<lparr>bPath := bPath b @ [item_segment node item]\<rparr>"
  let ?b2 = "?p\<lparr>bFailure := x, bCancel := y, bTimeout := z\<rparr>"
  have "(if fepPolicy fp = ''collectAll'' then b\<lparr>bFailure := k, bCancel := k, bTimeout := k\<rparr> else b)
      \<lparr>bPath := bPath (if fepPolicy fp = ''collectAll'' then b\<lparr>bFailure := k, bCancel := k, bTimeout := k\<rparr> else b)
        @ [item_segment node item]\<rparr> = ?b2"
    by (simp add: x_def y_def z_def)
  with assms(4) obtain en b3 where r: "rec (itemFlow item) k ?b2 = Inr (en, b3)"
    and pc: "place_cursor node item fp en (b3\<lparr>bPath := butlast (bPath b3), bFailure := bFailure b,
      bCancel := bCancel b, bTimeout := bTimeout b\<rparr>) = (e, b')"
    by (auto simp: compileForEachItem_def Let_def split: sum.splits)
  have p: "built W ?p" using b by (simp add: builder_simps)
  have "kept W ?p en (b3\<lparr>bFailure := bFailure ?p, bCancel := bCancel ?p, bTimeout := bTimeout ?p\<rparr>)"
    using k built_scope(1-3) [OF b]
    by (intro kept_under_targets [OF p _ _ assms(1) r]) (auto simp: x_def y_def z_def)
  then have "kept W b en ((b3\<lparr>bFailure := bFailure b, bCancel := bCancel b, bTimeout := bTimeout b\<rparr>)
      \<lparr>bPath := butlast (bPath b3)\<rparr>)"
    by (simp add: builder_simps)
  moreover have "(b3\<lparr>bFailure := bFailure b, bCancel := bCancel b, bTimeout := bTimeout b\<rparr>)
      \<lparr>bPath := butlast (bPath b3)\<rparr> = b3\<lparr>bPath := butlast (bPath b3), bFailure := bFailure b,
      bCancel := bCancel b, bTimeout := bTimeout b\<rparr>" by simp
  ultimately have k3: "kept W b en (b3\<lparr>bPath := butlast (bPath b3), bFailure := bFailure b,
      bCancel := bCancel b, bTimeout := bTimeout b\<rparr>)" by (simp only:)
  from place_cursor_kept [OF keptD(1,3) [OF k3] pc] show ?thesis
    by (rule kept_trans [OF keptD(2) [OF k3]])
qed

lemma for_each_back_kept:
  "\<forall>i \<in> set is. compiles rec (itemFlow i) \<Longrightarrow> built W b \<Longrightarrow> k \<in> ids b \<Longrightarrow>
    for_each_back rec node fp is k b = Inr (e, b') \<Longrightarrow> kept W b e b'"
proof (induction "is" arbitrary: k b)
  case Nil
  then show ?case by (simp add: kept_def)
next
  case (Cons i "is")
  from Cons.prems(4) obtain x b1 where x: "compileForEachItem rec node fp i k b = Inr (x, b1)"
    and r: "for_each_back rec node fp is x b1 = Inr (e, b')"
    by (auto split: sum.splits)
  have "compiles rec (itemFlow i)" using Cons.prems(1) by simp
  note k1 = compileForEachItem_kept [OF this Cons.prems(2,3) x]
  from Cons.IH [OF _ keptD(1) [OF k1] keptD(3) [OF k1] r] Cons.prems(1)
  show ?case by (intro kept_trans [OF keptD(2) [OF k1]]) simp
qed

text \<open>The exits of the items stay open until the window has linked them.\<close>

definition opens :: "string list \<Rightarrow> (string \<rightharpoonup> transition_case set) \<Rightarrow> string \<rightharpoonup> transition_case set" where
  "opens xs W = (\<lambda>i. if i \<in> set xs then Some {} else W i)"

lemma opens_Nil [simp]: "opens [] W = W"
  by (simp add: opens_def)

lemma opens_Cons: "opens (x # xs) W = (opens xs W)(x \<mapsto> {})"
  by (auto simp: opens_def)

lemma opens_upd: "opens xs (W(x \<mapsto> {})) = opens (x # xs) W"
  by (auto simp: opens_def)

lemma opens_append: "opens (xs @ ys) W = opens xs (opens ys W)"
  by (auto simp: opens_def)

lemma opens_swap: "opens xs (opens ys W) = opens ys (opens xs W)"
  by (auto simp: opens_def)

lemma dom_opens: "dom (opens xs W) = set xs \<union> dom W"
  by (auto simp: opens_def)

lemma for_each_exits_kept:
  "for_each_exits jn node is b = (xs, b') \<Longrightarrow> built W b \<Longrightarrow>
    built (opens xs W) b' \<and> grew b b' \<and> distinct xs \<and> set xs \<inter> ids b = {} \<and> set xs \<inter> dom W = {} \<and>
    length xs = length is \<and> (\<forall>x \<in> set xs. (x, NodeBranchExit) \<in> node_kinds b')"
proof (induction "is" arbitrary: b b' xs W)
  case (Cons i "is")
  obtain x b1 where x: "addNode (''foreach-'' @ wfIdentity node @ ''-'' @ pad_int 3 (itemIndex i) @ ''-exit'')
      NodeBranchExit b = (x, b1)" by fastforce
  let ?b2 = "on_node jn (\<lambda>n. n\<lparr>nodeWaitFor := nodeWaitFor n @ [x]\<rparr>) b1"
  obtain ys b3 where ys: "for_each_exits jn node is ?b2 = (ys, b3)" by fastforce
  with Cons.prems(1) x have r: "xs = x # ys" "b' = b3" by (auto simp: Let_def)
  note nx = built_addNode [OF Cons.prems(2) x]
  have b2: "built (W(x \<mapsto> {})) ?b2" by (rule built_node_lists(2) [OF nx(1)]) (use nx(3) in simp)
  have g2: "grew b1 ?b2" by (rule grew_node_lists(2))
  note i = Cons.IH [OF ys b2]
  have "x \<in> ids ?b2" by (rule grew_ids [OF g2 nx(3)])
  have g: "grew b ?b2" by (rule grew_trans [OF nx(2) g2])
  have "set ys \<inter> ids b = {}" using i grew_ids [OF g] by blast
  moreover have "(x, NodeBranchExit) \<in> node_kinds b3"
    using i grew_kind [OF g2 addNode_kind [OF x]] by (auto intro: grew_kind)
  moreover have "grew b b3" using i g by (blast intro: grew_trans)
  moreover have "built (opens xs W) b'" using i unfolding r opens_upd by simp
  moreover have "x \<notin> set ys" "set ys \<inter> dom W = {}" using i \<open>x \<in> ids ?b2\<close> by (auto split: if_splits)
  ultimately show ?case
    using i nx(4,5) by (simp add: r)
qed simp

lemma for_each_entries_kept:
  "\<forall>i \<in> set ps. compiles rec (itemFlow (fst i)) \<and> snd i \<in> ids b \<Longrightarrow> built W b \<Longrightarrow>
    for_each_entries rec node fp ps b = Inr (es, b') \<Longrightarrow>
    built W b' \<and> grew b b' \<and> set es \<subseteq> ids b'"
proof (induction ps arbitrary: b es)
  case (Cons p ps)
  obtain i x where p: "p = (i, x)" by (cases p)
  from Cons.prems(3) p obtain e b1 where e: "compileForEachItem rec node fp i x b = Inr (e, b1)"
    by (auto split: sum.splits)
  with Cons.prems(3) p obtain es' where es: "for_each_entries rec node fp ps b1 = Inr (es', b')" "es = e # es'"
    by (auto split: sum.splits)
  have k1: "kept W b e b1"
    using Cons.prems(1,2) p by (intro compileForEachItem_kept [OF _ _ _ e]) auto
  have "\<forall>i \<in> set ps. compiles rec (itemFlow (fst i)) \<and> snd i \<in> ids b1"
    using Cons.prems(1) grew_ids [OF keptD(2) [OF k1]] by auto
  note r = Cons.IH [OF this keptD(1) [OF k1] es(1)]
  have "e \<in> ids b'" using r keptD(3) [OF k1] by (blast intro: grew_ids)
  then show ?case using r es(2) keptD(2) [OF k1] by (auto intro: grew_trans)
qed simp

lemma window_pairs_kept:
  "built (opens (map fst ps) W) b \<Longrightarrow> distinct (map fst ps) \<Longrightarrow>
    \<forall>p \<in> set ps. fst p \<notin> dom W \<and> (fst p, NodeBranchExit) \<in> node_kinds b \<and> snd p \<in> ids b \<Longrightarrow>
    built W (foldl (\<lambda>b (exit, next). addTransition exit MachineContinue next b) b ps) \<and>
    grew b (foldl (\<lambda>b (exit, next). addTransition exit MachineContinue next b) b ps)"
proof (induction ps arbitrary: b)
  case (Cons p ps)
  obtain x y where p: "p = (x, y)" by (cases p)
  let ?b = "addTransition x MachineContinue y b"
  have o: "built ((opens (map fst ps) W)(x \<mapsto> {})) b"
    using Cons.prems(1) unfolding p list.map fst_conv opens_Cons .
  have "x \<notin> dom (opens (map fst ps) W)" using Cons.prems(2,3) p by (auto simp: dom_opens)
  then have "built (opens (map fst ps) W) ?b"
    using Cons.prems(3) p by (intro built_continue [OF o]) auto
  let ?r = "foldl (\<lambda>b (exit, next). addTransition exit MachineContinue next b) ?b ps"
  from Cons.IH [OF \<open>built (opens (map fst ps) W) ?b\<close>] Cons.prems(2,3) p
  have r: "built W ?r" "grew ?b ?r" by simp_all
  have "grew b ?r" by (rule grew_trans [OF addTransition_kinds(3) r(2)])
  with r(1) p show ?case by simp
qed simp

lemma close_exits:
  "built (opens xs W) b \<Longrightarrow> distinct xs \<Longrightarrow> \<forall>x \<in> set xs. x \<notin> dom W \<and> (x, NodeBranchExit) \<in> node_kinds b \<Longrightarrow>
    built W b"
proof (induction xs)
  case (Cons x xs)
  have "built ((opens xs W)(x \<mapsto> {})) b" using Cons.prems(1) unfolding opens_Cons .
  then have "built (opens xs W) b"
    by (rule built_leave [where k = NodeBranchExit]) (use Cons.prems in \<open>auto simp: dom_opens\<close>)
  then show ?case using Cons by simp
qed simp

lemma window_kept:
  assumes "built (opens xs W) b" and "distinct xs"
    and "\<forall>x \<in> set xs. x \<notin> dom W \<and> (x, NodeBranchExit) \<in> node_kinds b" and "set es \<subseteq> ids b"
  shows "built W (window_transitions xs es w b) \<and> grew b (window_transitions xs es w b)"
proof -
  let ?ps = "zip xs (drop w es)"
  let ?n = "length ?ps"
  have fst: "map fst ?ps = take ?n xs" by (simp add: map_fst_zip_take)
  have xs: "xs = map fst ?ps @ drop ?n xs" by (simp only: fst append_take_drop_id)
  have "distinct (map fst ?ps @ drop ?n xs)" using assms(2) by (simp only: fst append_take_drop_id)
  then have d: "distinct (map fst ?ps)" "distinct (drop ?n xs)" "set (map fst ?ps) \<inter> set (drop ?n xs) = {}"
    by (simp_all only: distinct_append)
  have "built (opens (drop ?n xs) (opens (map fst ?ps) W)) b"
    using assms(1) xs by (metis opens_append opens_swap)
  then have "built (opens (map fst ?ps) W) b"
  proof (rule close_exits [OF _ d(2)])
    show "\<forall>x \<in> set (drop ?n xs). x \<notin> dom (opens (map fst ?ps) W) \<and> (x, NodeBranchExit) \<in> node_kinds b"
      using d(3) assms(3) by (auto simp: dom_opens dest: in_set_dropD)
  qed
  then show ?thesis
    unfolding window_transitions_def
  proof (rule window_pairs_kept [OF _ d(1)])
    show "\<forall>p \<in> set ?ps. fst p \<notin> dom W \<and> (fst p, NodeBranchExit) \<in> node_kinds b \<and> snd p \<in> ids b"
    proof
      fix p assume "p \<in> set ?ps"
      then have "(fst p, snd p) \<in> set ?ps" by simp
      then have "fst p \<in> set xs" and "snd p \<in> set (drop w es)"
        by (rule set_zip_leftD, rule set_zip_rightD)
      then have "fst p \<in> set xs" and "snd p \<in> set es" by (simp_all add: in_set_dropD)
      with assms(3,4) show "fst p \<notin> dom W \<and> (fst p, NodeBranchExit) \<in> node_kinds b \<and> snd p \<in> ids b"
        by blast
    qed
  qed
qed

lemma for_each_parallel_kept:
  assumes "\<forall>i \<in> set (wfItems node). compiles rec (itemFlow i)" and b: "built W b" and k: "k \<in> ids b"
    and "for_each_parallel rec node fp k b = Inr (e, b')"
  shows "kept W b e b'"
proof -
  obtain j b1 where j: "addNode (''foreach-'' @ wfIdentity node @ ''-join'') NodeJoin b = (j, b1)" by fastforce
  let ?b2 = "addTransition j MachineContinue k b1"
  obtain x b3 where x: "addNode (''foreach-'' @ wfIdentity node @ ''-fork'') NodeFork ?b2 = (x, b3)" by fastforce
  obtain xs b4 where xs: "for_each_exits j node (wfItems node) b3 = (xs, b4)" by fastforce
  from assms(4) j x xs obtain es b5 where
      es: "for_each_entries rec node fp (zip (wfItems node) xs) b4 = Inr (es, b5)"
    by (auto simp: for_each_parallel_def Let_def split: sum.splits)
  define w where "w = nat (fepConcurrency fp)"
  let ?b6 = "window_transitions xs es w b5"
  from assms(4) j x xs es have e: "e = x"
    and b': "b' = on_node x (\<lambda>n. n\<lparr>nodeTargets := nodeTargets n @ (take w es @ [j])\<rparr>) ?b6"
    by (auto simp: for_each_parallel_def Let_def w_def)
  note nj = built_addNode [OF b j]
  have b2: "built W ?b2"
    using grew_ids [OF nj(2) k] addNode_kind [OF j] by (intro built_continue [OF nj(1,5)]) auto
  note nx = built_addNode [OF b2 x]
  note ex = for_each_exits_kept [OF xs nx(1)]
  have g4: "grew b3 b4" and b4: "built (opens xs (W(x \<mapsto> {}))) b4" using ex by simp_all
  have xs_ids: "set xs \<subseteq> ids b4" using ex by (auto simp: node_kinds_def)
  have "\<forall>p \<in> set (zip (wfItems node) xs). compiles rec (itemFlow (fst p)) \<and> snd p \<in> ids b4"
  proof
    fix p assume "p \<in> set (zip (wfItems node) xs)"
    then have "(fst p, snd p) \<in> set (zip (wfItems node) xs)" by simp
    then have "fst p \<in> set (wfItems node)" and "snd p \<in> set xs"
      by (rule set_zip_leftD, rule set_zip_rightD)
    with assms(1) xs_ids show "compiles rec (itemFlow (fst p)) \<and> snd p \<in> ids b4" by blast
  qed
  from for_each_entries_kept [OF this b4 es]
  have b5: "built (opens xs (W(x \<mapsto> {}))) b5" "grew b4 b5" "set es \<subseteq> ids b5" by simp_all
  have "\<forall>y \<in> set xs. y \<notin> dom (W(x \<mapsto> {})) \<and> (y, NodeBranchExit) \<in> node_kinds b5"
    using ex grew_kind [OF b5(2)] by blast
  with window_kept [OF b5(1) _ _ b5(3)] ex
  have b6: "built (W(x \<mapsto> {})) ?b6" "grew b5 ?b6" by blast+
  have g: "grew b3 ?b6" by (rule grew_trans [OF g4 grew_trans [OF b5(2) b6(2)]])
  have j3: "j \<in> ids b3" by (rule grew_ids [OF nx(2)]) (use nj(3) in simp)
  have "set (take w es @ [j]) \<subseteq> ids ?b6"
    using b5(3) grew_ids [OF b6(2)] grew_ids [OF g j3] by (auto dest!: in_set_takeD)
  then have open': "built (W(x \<mapsto> {})) b'" unfolding b' by (rule built_node_lists(1) [OF b6(1)])
  have g': "grew ?b6 b'" unfolding b' by (rule grew_node_lists(1))
  have "(x, NodeFork) \<in> node_kinds b'"
    by (rule grew_kind [OF g' grew_kind [OF g addNode_kind [OF x]]])
  from built_leave [OF open' nx(5) this] have "built W b'" by simp
  moreover have "grew b b'"
    by (rule grew_trans [OF nj(2) grew_trans [OF addTransition_kinds(3) grew_trans [OF nx(2) grew_trans [OF g g']]]])
  moreover have "x \<in> ids b'" by (rule grew_ids [OF g' grew_ids [OF g nx(3)]])
  ultimately show ?thesis by (simp add: kept_def e)
qed

lemma addForEachAggregate_kept:
  assumes "addForEachAggregate node mode c policy b = Inr (a, b')"
  shows "built W b' = built W b" and "grew b b'"
proof -
  have r: "built W (record_aggregate node d b) = built W b" "grew b (record_aggregate node d b)" for d
    by (simp_all add: record_aggregate_def builder_simps)
  from assms obtain d where "b' = b \<or> b' = record_aggregate node d b"
    by (auto simp: addForEachAggregate_def Let_def split: option.splits sum.splits prod.splits)
  with r show "built W b' = built W b" "grew b b'" by auto
qed

lemma compileForEach_kept:
  assumes "\<forall>i \<in> set (wfItems node). compiles rec (itemFlow i)" and "built W b" and "k \<in> ids b"
    and "compileForEach rec node k b = Inr (e, b')"
  shows "kept W b e b'"
proof -
  from assms(4) have "for_each_error node b = None" by (auto simp: compileForEach_def split: option.splits)
  with assms(4) obtain a b1 where a: "addForEachAggregate node (for_each_mode node)
      (for_each_concurrency node) (for_each_policy node) b = Inr (a, b1)"
    by (auto simp: compileForEach_def split: sum.splits)
  let ?fp = "\<lparr>fepMode = for_each_mode node, fepConcurrency = for_each_concurrency node,
      fepPolicy = for_each_policy node, fepAggregate = a\<rparr>"
  let ?b2 = "b1\<lparr>bForEach := bForEach b1 + 1\<rparr>"
  define X where "X = (if for_each_mode node = ''sequential''
            then for_each_back rec node ?fp (rev (wfItems node)) k ?b2
            else for_each_parallel rec node ?fp k ?b2)"
  have "compileForEach rec node k b = (case X of Inl e \<Rightarrow> Inl e
      | Inr (entry, b3) \<Rightarrow> Inr (entry, b3\<lparr>bForEach := bForEach b3 - 1\<rparr>))"
    using \<open>for_each_error node b = None\<close> a by (simp add: compileForEach_def Let_def X_def)
  with assms(4) obtain b3 where r: "X = Inr (e, b3)" and b': "b' = b3\<lparr>bForEach := bForEach b3 - 1\<rparr>"
    by (cases X) auto
  note r = r [unfolded X_def]
  note ag = addForEachAggregate_kept [OF a]
  have b2: "built W ?b2" using ag(1) assms(2) by (simp add: builder_simps)
  have k2: "k \<in> ids ?b2" using grew_ids [OF ag(2) assms(3)] by simp
  have "kept W ?b2 e b3"
  proof (cases "for_each_mode node = ''sequential''")
    case True
    with r have "for_each_back rec node ?fp (rev (wfItems node)) k ?b2 = Inr (e, b3)" by simp
    then show ?thesis by (rule for_each_back_kept [rotated 3]) (use assms(1) b2 k2 in auto)
  next
    case False
    with r have "for_each_parallel rec node ?fp k ?b2 = Inr (e, b3)" by simp
    then show ?thesis by (rule for_each_parallel_kept [OF assms(1) b2 k2])
  qed
  then have "kept W b1 e b'" by (simp add: b' builder_simps)
  then show ?thesis by (rule kept_trans [OF ag(2)])
qed

section \<open>Every authored node\<close>

lemma compileAuthoringNode_compiles: "compiles compileAuthoringNode node"
proof (induction "size node" arbitrary: node rule: less_induct)
  case less
  have IH: "compiles compileAuthoringNode c" if "size c < size node" for c
    using less that by blast
  show ?case
    unfolding compiles_def
  proof (intro allI impI)
    fix W k b e b'
    assume b: "built W b" and k: "k \<in> ids b" and c: "compileAuthoringNode node k b = Inr (e, b')"
    have "(\<exists>s. compileEffect s k b = (e, b'))
        \<or> compile_sequence compileAuthoringNode node k b = Inr (e, b')
        \<or> compile_parallel compileAuthoringNode node k b = Inr (e, b')
        \<or> compile_region compileAuthoringNode node k b = Inr (e, b')
        \<or> compile_match compileAuthoringNode node k b = Inr (e, b')
        \<or> compile_finally compileAuthoringNode node k b = Inr (e, b')
        \<or> compileForEach compileAuthoringNode node k b = Inr (e, b')
        \<or> compile_when compileAuthoringNode node k b = Inr (e, b')"
      using c by (auto simp: compileAuthoringNode.simps [of node] split: if_splits option.splits)
    moreover have "\<forall>c \<in> set (wfChildren node). compiles compileAuthoringNode c"
      "\<forall>a \<in> set (wfArms node). compiles compileAuthoringNode (armFlow a)"
      "\<forall>i \<in> set (wfItems node). compiles compileAuthoringNode (itemFlow i)"
      "\<And>x. wfBody node = Some x \<Longrightarrow> compiles compileAuthoringNode x"
      "\<And>x. wfCleanup node = Some x \<Longrightarrow> compiles compileAuthoringNode x"
      "\<And>x. wfThen node = Some x \<Longrightarrow> compiles compileAuthoringNode x"
      "\<And>x. wfElse node = Some x \<Longrightarrow> compiles compileAuthoringNode x"
      using IH nested_sizes by blast+
    ultimately show "kept W b e b'"
      using b k
      by (elim disjE exE)
        (rule compileEffect_kept compile_sequence_kept compile_parallel_kept compile_region_kept
          compile_match_kept compile_finally_kept compileForEach_kept compile_when_kept; assumption)+
  qed
qed

end
