(* ===== verification/Build_Correct.thy ===== *)
theory Build_Correct
  imports Compile_Props
begin

text \<open>
  What the invariant of the builder gives for the finished program of an authored flow: the
  structural passes of \<open>ValidateFlow\<close> find nothing to report, so a flow is only ever rejected
  for what its author wrote (an empty join, values out of scope, an unreachable node).
\<close>

section \<open>The starting builder\<close>

lemma base_built:
  "built [''entry'' \<mapsto> {}]
     ((newFlowBuilder i ts)\<lparr>bFlow := (bFlow (newFlowBuilder i ts))\<lparr>flowExpansion := x\<rparr>, bAuthored := a\<rparr>)"
  (is "built _ ?b")
proof -
  have "named ?b"
    by (simp add: named_def newFlowBuilder_def base_flow_def base_ids_def)
  moreover have "linked ?b"
    by (simp add: linked_def newFlowBuilder_def base_flow_def)
  moreover have "routed [''entry'' \<mapsto> {}] ?b"
    by (simp add: routed_def outs_def newFlowBuilder_def base_flow_def filled_def)
  moreover have "located ?b"
    by (simp add: located_def newFlowBuilder_def base_flow_def new_node_def)
  ultimately show ?thesis by (simp add: built_def)
qed

lemma base_kinds: "(''entry'', NodeEntry) \<in> node_kinds
    ((newFlowBuilder i ts)\<lparr>bFlow := (bFlow (newFlowBuilder i ts))\<lparr>flowExpansion := x\<rparr>, bAuthored := a\<rparr>)"
  by (simp add: node_kinds_def newFlowBuilder_def base_flow_def)

lemma compile_flow_built:
  assumes "compile_flow d node = Inr b"
  shows "built Map.empty b"
    and "flowEntry (bFlow b) = ''entry''" and "(''entry'', NodeEntry) \<in> node_kinds b"
    and "flowSchemaVersion (bFlow b) = FlowSchemaVersion"
    and "\<exists>k. plannedIterationCount node DefaultExpansionBudget = Inr k \<and>
      flowExpansion (bFlow b) = \<lparr>emPlannedIterations = k, emLimit = DefaultExpansionBudget,
        emMaxConcurrency = MaxForEachConcurrency\<rparr>"
proof -
  from assms obtain k where k: "plannedIterationCount node DefaultExpansionBudget = Inr k"
    by (cases "plannedIterationCount node DefaultExpansionBudget") (simp_all add: compile_flow_def)
  define b0 where "b0 = newFlowBuilder (wlIdentity d) (wlTriggers d)"
  define b1 where "b1 = b0\<lparr>bFlow := (bFlow b0)\<lparr>flowExpansion :=
      (flowExpansion (bFlow b0))\<lparr>emPlannedIterations := k\<rparr>\<rparr>, bAuthored := collectAuthoredEffects node\<rparr>"
  from assms k obtain entry b2
    where c: "compileAuthoringNode node (ftSucceeded (flowTerminals (bFlow b1))) b1 = Inr (entry, b2)"
      and b: "b = addTransition (flowEntry (bFlow b2)) MachineContinue entry b2"
    by (auto simp: compile_flow_def b0_def b1_def Let_def split: sum.splits)
  have b1: "built [''entry'' \<mapsto> {}] b1" and k1: "(''entry'', NodeEntry) \<in> node_kinds b1"
    unfolding b1_def b0_def by (rule base_built, rule base_kinds)
  have kept: "kept [''entry'' \<mapsto> {}] b1 entry b2"
    using compileAuthoringNode_compiles [of node] b1 built_scope(4) [OF b1] c unfolding compiles_def by blast
  then have b2: "built [''entry'' \<mapsto> {}] b2" and g: "grew b1 b2" and e: "entry \<in> ids b2"
    by (simp_all add: kept_def)
  have s: "same_scope b1 b2" using g by (simp add: grew_def)
  have fields: "flowEntry (bFlow b2) = ''entry''" "flowSchemaVersion (bFlow b2) = FlowSchemaVersion"
    "flowExpansion (bFlow b2) = \<lparr>emPlannedIterations = k, emLimit = DefaultExpansionBudget,
      emMaxConcurrency = MaxForEachConcurrency\<rparr>"
    using s by (simp_all add: same_scope_def b1_def b0_def newFlowBuilder_def base_flow_def)
  have same: "same_scope b2 b" using addTransition_kinds(3) [of b2] by (simp add: b grew_def)
  have k2: "(''entry'', NodeEntry) \<in> node_kinds b2" using grew_kind [OF g k1] .
  show "built Map.empty b"
    unfolding b fields(1) using built_continue [of Map.empty "''entry''" b2 NodeEntry entry] b2 k2 e by simp
  show "flowEntry (bFlow b) = ''entry''" "flowSchemaVersion (bFlow b) = FlowSchemaVersion"
    using same fields by (simp_all add: same_scope_def)
  show "(''entry'', NodeEntry) \<in> node_kinds b" using k2 by (simp add: b)
  show "\<exists>k. plannedIterationCount node DefaultExpansionBudget = Inr k \<and>
      flowExpansion (bFlow b) = \<lparr>emPlannedIterations = k, emLimit = DefaultExpansionBudget,
        emMaxConcurrency = MaxForEachConcurrency\<rparr>"
    using same fields k by (auto simp: same_scope_def)
qed

section \<open>The expansion budget\<close>

lemma plannedIterationCount_bounds:
  assumes "plannedIterationCount node budget = Inr k" and "0 \<le> budget" and "budget < 2 ^ 63"
  shows "0 \<le> k \<and> k \<le> budget"
proof -
  from assms(1) obtain w l where w: "visit_count node (0, ''workflow'') = Inr (w, l)"
    and k: "k = uint w" and le: "\<not> w > word_of_int budget"
    by (auto simp: plannedIterationCount_def split: sum.splits prod.splits if_splits)
  have "uint w \<le> uint (word_of_int budget :: 64 word)" using le by (simp add: word_less_def)
  also have "\<dots> = budget" using assms(2,3) by (simp add: uint_word_of_int)
  finally show ?thesis using k by simp
qed

section \<open>No zero byte in an identity\<close>

lemma char_of_nul: "k < 256 \<Longrightarrow> char_of k = CHR 0x00 \<Longrightarrow> k = (0::nat)"
proof -
  assume "k < 256" and "char_of k = CHR 0x00"
  then have "of_char (char_of k) = (of_char (CHR 0x00) :: nat)" by simp
  with \<open>k < 256\<close> show ?thesis by simp
qed

lemma sanitize_rune_nul [simp]: "sanitize_rune r \<noteq> CHR 0x00"
proof (cases r)
  case (Cons c cs)
  have "char_of k \<noteq> CHR 0x00" if "0 < k" "k < 256" for k :: nat
    using char_of_nul [OF that(2)] that(1) by auto
  note this [of "of_char c + 32"] this [of 45] this [of "of_char c"]
  then show ?thesis using Cons by (auto simp: sanitize_rune_def Let_def split: list.splits)
qed (simp add: sanitize_rune_def)

lemma sanitizeFlowIdentity_nul [simp]: "CHR 0x00 \<notin> set (sanitizeFlowIdentity s)"
  by (auto simp: sanitizeFlowIdentity_def trim_chars_def dest!: set_dropWhileD)
    (metis sanitize_rune_nul)

lemma pad_nat_nul [simp]: "CHR 0x00 \<notin> set (pad_nat w n)"
  using pad_nat_digits [of "CHR 0x00" w n] by (auto simp: is_digit_def)

lemma node_identity_nul: "CHR 0x00 \<notin> set (node_identity k l)"
  by (simp add: node_identity_def)

lemma named_identity:
  assumes "named b" and "i \<in> ids b"
  shows "CHR 0x00 \<notin> set i" and "i \<noteq> ''''"
  using assms node_identity_nul by (auto simp: named_def base_ids_def node_identity_def)

section \<open>The cases of the transitions\<close>

lemma built_nul_free:
  assumes "built W b"
  shows "nul_free (bFlow b)"
  unfolding nul_free_def
proof
  fix i assume "i \<in> ids b"
  with assms show "CHR 0x00 \<notin> set i" by (intro named_identity(1)) (simp_all add: built_def)
qed

lemma built_guards:
  assumes "built W b" and "n \<in> set (bNodes b)"
  shows "guards (bFlow b) (nodeIdentity n) \<longleftrightarrow> guarded_kind (nodeKind n)"
proof -
  have "distinct (node_ids (bFlow b))" using assms(1) by (simp add: built_def named_def)
  from nodes_map_distinct [OF this assms(2)] show ?thesis by (simp add: guards_def guarded_kind_def)
qed

lemma built_from:
  assumes "built W b" and "t \<in> set (bTransitions b)"
  obtains n where "n \<in> set (bNodes b)" "nodeIdentity n = tFrom t"
    "(tEvent t, tGuard t) \<in> outs b (nodeIdentity n)"
proof -
  have "linked b" using assms(1) by (simp only: built_def)
  with assms(2) have "tFrom t \<in> ids b" by (simp add: linked_def)
  then obtain n where n: "n \<in> set (bNodes b)" "nodeIdentity n = tFrom t" by auto
  moreover have "(tEvent t, tGuard t) \<in> outs b (nodeIdentity n)"
    using assms(2) n(2) by (auto simp: outs_def)
  ultimately show thesis by (rule that)
qed

lemma built_from_nul: "built W b \<Longrightarrow> t \<in> set (bTransitions b) \<Longrightarrow> CHR 0x00 \<notin> set (tFrom t)"
proof -
  assume b: "built W b" and t: "t \<in> set (bTransitions b)"
  from b t obtain n where "n \<in> set (bNodes b)" "nodeIdentity n = tFrom t" by (rule built_from)
  with built_nul_free [OF b] show "CHR 0x00 \<notin> set (tFrom t)" by (auto simp: nul_free_def)
qed

text \<open>An unguarded transition carries its event as guard, so the recorded case determines it.\<close>

lemma built_plain_guard:
  assumes "built W b" and "t \<in> set (bTransitions b)" and "\<not> guards (bFlow b) (tFrom t)"
  shows "tGuard t = event_string (tEvent t)"
proof -
  from assms(1,2) obtain n where n: "n \<in> set (bNodes b)" "nodeIdentity n = tFrom t"
    "(tEvent t, tGuard t) \<in> outs b (nodeIdentity n)" by (rule built_from)
  have "\<not> guarded_kind (nodeKind n)" using built_guards [OF assms(1) n(1)] n(2) assms(3) by simp
  from built_node(6) [OF assms(1) n(1) this n(3)] show ?thesis by simp
qed

lemma built_case_key_inj:
  assumes b: "built W b" and t: "t \<in> set (bTransitions b)" and u: "u \<in> set (bTransitions b)"
    and key: "case_key (bFlow b) t = case_key (bFlow b) u"
  shows "(tFrom t, tEvent t, tGuard t) = (tFrom u, tEvent u, tGuard u)"
proof -
  note z = built_from_nul [OF b t] built_from_nul [OF b u]
  show ?thesis
    using key plain_key_eq [OF z] guarded_key_eq [OF z] plain_not_guarded [OF z]
      plain_not_guarded [OF z(2,1), symmetric] built_plain_guard [OF b t] built_plain_guard [OF b u]
    by (auto simp: case_key_def split: if_splits)
qed

lemma distinct_map_inj:
  assumes "distinct (map f xs)"
    and "\<And>x y. x \<in> set xs \<Longrightarrow> y \<in> set xs \<Longrightarrow> g x = g y \<Longrightarrow> f x = f y"
  shows "distinct (map g xs)"
proof -
  have "inj_on g (set xs)"
  proof (rule inj_onI)
    fix x y assume "x \<in> set xs" "y \<in> set xs" "g x = g y"
    with assms show "x = y" unfolding distinct_map inj_on_def by blast
  qed
  with assms(1) show ?thesis by (simp add: distinct_map)
qed

lemma built_case_keys:
  assumes "built W b"
  shows "distinct (map (case_key (bFlow b)) (bTransitions b))"
proof -
  have "routed W b" using assms by (simp only: built_def)
  then have "distinct (map (\<lambda>t. (tFrom t, tEvent t, tGuard t)) (bTransitions b))"
    unfolding routed_def by (rule conjunct1)
  then show ?thesis by (rule distinct_map_inj) (rule built_case_key_inj [OF assms])
qed

section \<open>No structural diagnostics\<close>

lemma transitions_diags_none:
  "distinct (map tIdentity ts) \<Longrightarrow> set (map tIdentity ts) \<inter> keys = {} \<Longrightarrow>
    distinct (map (case_key f) ts) \<Longrightarrow> set (map (case_key f) ts) \<inter> cases = {} \<Longrightarrow>
    \<forall>t \<in> set ts. tFrom t \<in> set (node_ids f) \<and> tTo t \<in> set (node_ids f) \<Longrightarrow>
    transitions_diags f keys cases ts = []"
  by (induction ts arbitrary: keys cases) auto

lemma regions_diags_none:
  "distinct (map erIdentity rs) \<Longrightarrow> set (map erIdentity rs) \<inter> seen = {} \<Longrightarrow> regions_diags seen rs = []"
  by (induction rs arbitrary: seen) auto

lemma transition_id_inj [simp]: "transition_id j = transition_id k \<longleftrightarrow> j = k"
  by (simp add: transition_id_def)

lemma built_transitions_ok:
  assumes "built W b"
  shows "transitions_diags (bFlow b) {} {} (bTransitions b) = []"
proof (rule transitions_diags_none)
  have l: "linked b" using assms by (simp only: built_def)
  then have "map tIdentity (bTransitions b) = map transition_id [1..<Suc (length (bTransitions b))]"
    by (simp add: linked_def)
  then show "distinct (map tIdentity (bTransitions b))" by (simp add: distinct_map inj_on_def)
  show "\<forall>t \<in> set (bTransitions b). tFrom t \<in> ids b \<and> tTo t \<in> ids b" using l by (simp add: linked_def)
qed (simp_all add: built_case_keys [OF assms])

lemma built_case:
  assumes "built W b" and "n \<in> set (bNodes b)" and "c \<in> outs b (nodeIdentity n)"
  shows "guarded_kind (nodeKind n) \<Longrightarrow>
      guarded_key (nodeIdentity n) (fst c) (snd c) \<in> transition_cases (bFlow b)"
    and "\<not> guarded_kind (nodeKind n) \<Longrightarrow> plain_key (nodeIdentity n) (fst c) \<in> transition_cases (bFlow b)"
  using assms(3) built_guards [OF assms(1,2)]
  by (auto simp: outs_def transition_cases_def case_key_def intro!: image_eqI)

lemma built_references_ok:
  assumes b: "built Map.empty b" and n: "n \<in> set (bNodes b)"
  shows "references_diags (bFlow b) n = []"
proof -
  have req: "c \<in> outs b (nodeIdentity n)" if "c \<in> required_cases (nodeKind n)" for c
    using built_node(4) [OF b n] that by auto
  note key = built_case [OF b n]
  have "plain_key (nodeIdentity n) e \<in> transition_cases (bFlow b)"
    if "nodeKind n = NodeEffect" "e \<in> set result_events" for e
    using key(2) [OF req, of "(e, event_string e)"] that by (simp add: result_cases_def guarded_kind_def)
  moreover have "guarded_key (nodeIdentity n) MachineContinue g \<in> transition_cases (bFlow b)"
    if "nodeKind n = NodeMatch" "g \<in> set outcome_names" for g
    using key(1) [OF req, of "(MachineContinue, g)"] that by (simp add: guarded_kind_def)
  moreover have "guarded_key (nodeIdentity n) MachineContinue g \<in> transition_cases (bFlow b)"
    if "nodeKind n = NodePredicate" "g \<in> {''true'', ''false''}" for g
    using key(1) [OF req, of "(MachineContinue, g)"] that by (auto simp: guarded_kind_def)
  ultimately show ?thesis
    using built_node(1-3) [OF b n]
    by (auto simp: references_diags_def filter_empty_conv result_events_def)
qed

lemma nodes_diags_joins:
  assumes "\<And>n. n \<in> set ns \<Longrightarrow> nodeIdentity n \<noteq> '''' \<and> filled n"
  shows "distinct (map nodeIdentity ns) \<Longrightarrow> set (map nodeIdentity ns) \<inter> seen = {} \<Longrightarrow>
    nodes_diags seen ns =
      map (\<lambda>n. diag_text ''TSPACK_WORKFLOW_JOIN_INVALID'' (nodeIdentity n @ '' has no branches to join''))
        (filter (\<lambda>n. nodeKind n = NodeJoin \<and> nodeWaitFor n = []) ns)"
  using assms by (induction ns arbitrary: seen) (auto simp: node_diags_def filled_def)

lemma concat_map_empty: "(\<And>x. x \<in> set xs \<Longrightarrow> f x = []) \<Longrightarrow> concat (map f xs) = []"
  by simp

lemma compiled_header:
  assumes "compile_flow d node = Inr b"
  shows "header_diags (bFlow b) = []"
proof -
  from compile_flow_built(5) [OF assms] obtain k
    where k: "plannedIterationCount node DefaultExpansionBudget = Inr k"
      and x: "flowExpansion (bFlow b) = \<lparr>emPlannedIterations = k, emLimit = DefaultExpansionBudget,
        emMaxConcurrency = MaxForEachConcurrency\<rparr>" by blast
  have "0 \<le> k \<and> k \<le> DefaultExpansionBudget"
    using plannedIterationCount_bounds [OF k] by (simp add: DefaultExpansionBudget_def)
  with x compile_flow_built(4) [OF assms] show ?thesis by (simp add: header_diags_def)
qed

lemma compiled_node:
  assumes "compile_flow d node = Inr b" and "n \<in> set (bNodes b)"
  shows "nodeIdentity n \<noteq> ''''" and "filled n"
proof -
  have "named b" using compile_flow_built(1) [OF assms(1)] by (simp only: built_def)
  from named_identity(2) [OF this, of "nodeIdentity n"] assms(2) show "nodeIdentity n \<noteq> ''''" by simp
  show "filled n" using built_node(5) [OF compile_flow_built(1) [OF assms(1)] assms(2)] by simp
qed

lemma compiled_structure:
  assumes "compile_flow d node = Inr b"
  shows "header_diags (bFlow b) = []" and "entry_diags (bFlow b) = []"
    and "regions_diags {} (flowRegions (bFlow b)) = []"
    and "transitions_diags (bFlow b) {} {} (bTransitions b) = []"
    and "concat (map (references_diags (bFlow b)) (bNodes b)) = []"
    and "nodes_diags {} (bNodes b) =
      map (\<lambda>n. diag_text ''TSPACK_WORKFLOW_JOIN_INVALID'' (nodeIdentity n @ '' has no branches to join''))
        (filter (\<lambda>n. nodeKind n = NodeJoin \<and> nodeWaitFor n = []) (bNodes b))"
proof -
  note built = compile_flow_built(1) [OF assms]
  have p: "named b" "located b" using built by (simp_all only: built_def)
  show "header_diags (bFlow b) = []" by (rule compiled_header [OF assms])
  show "entry_diags (bFlow b) = []"
    using compile_flow_built(2,3) [OF assms] by (force simp: entry_diags_def node_kinds_def)
  show "regions_diags {} (flowRegions (bFlow b)) = []"
    using p(2) by (intro regions_diags_none) (simp_all add: located_def)
  show "transitions_diags (bFlow b) {} {} (bTransitions b) = []" by (rule built_transitions_ok [OF built])
  show "concat (map (references_diags (bFlow b)) (bNodes b)) = []"
    by (rule concat_map_empty) (rule built_references_ok [OF built])
  show "nodes_diags {} (bNodes b) =
      map (\<lambda>n. diag_text ''TSPACK_WORKFLOW_JOIN_INVALID'' (nodeIdentity n @ '' has no branches to join''))
        (filter (\<lambda>n. nodeKind n = NodeJoin \<and> nodeWaitFor n = []) (bNodes b))"
    using compiled_node [OF assms] p(1) by (intro nodes_diags_joins) (simp_all add: named_def)
qed

section \<open>Routing\<close>

text \<open>
  Every node of a flow has the one transition it will ask for, whatever the machine decides:
  an effect for each result, a control node for its continuation, a match for each outcome, a
  predicate for both answers; effects and predicates are there.
\<close>

definition continues :: "flow_node \<Rightarrow> bool" where
  "continues n \<longleftrightarrow> nodeKind n \<in> {NodeEntry, NodeJoin, NodeIterator}"

definition one_transition :: "machine_error + (transition \<times> string list) \<Rightarrow> bool" where
  "one_transition r = (case r of Inl _ \<Rightarrow> False | Inr _ \<Rightarrow> True)"

definition routes_node :: "flow \<Rightarrow> flow_node \<Rightarrow> bool" where
  "routes_node f n \<longleftrightarrow>
     (continues n \<longrightarrow> one_transition (selectTransition f (nodeIdentity n) MachineContinue)) \<and>
     (nodeKind n = NodeEffect \<longrightarrow> nodeEffect n \<noteq> None \<and>
        (\<forall>e \<in> set result_events. one_transition (selectTransition f (nodeIdentity n) e))) \<and>
     (nodeKind n = NodeMatch \<longrightarrow>
        (\<forall>g \<in> set outcome_names. one_transition (selectGuardedTransition f (nodeIdentity n) MachineContinue g))) \<and>
     (nodeKind n = NodePredicate \<longrightarrow> nodePredicate n \<noteq> None \<and>
        (\<forall>g \<in> {''true'', ''false''}.
           one_transition (selectGuardedTransition f (nodeIdentity n) MachineContinue g)))"

definition routes_all :: "flow \<Rightarrow> bool" where
  "routes_all f \<longleftrightarrow> list_all (routes_node f) (flowNodes f)"

lemma built_select:
  assumes b: "built W b" and n: "n \<in> set (bNodes b)" and c: "(e, g) \<in> outs b (nodeIdentity n)"
  shows "one_transition (selectGuardedTransition (bFlow b) (nodeIdentity n) e g)"
    and "\<not> guarded_kind (nodeKind n) \<Longrightarrow> one_transition (selectTransition (bFlow b) (nodeIdentity n) e)"
proof -
  let ?k = "\<lambda>t. (tFrom t, tEvent t, tGuard t)"
  have d: "distinct (map ?k (bTransitions b))"
    using b unfolding built_def routed_def by blast
  from c obtain t where t: "t \<in> set (bTransitions b)" "tFrom t = nodeIdentity n" "tEvent t = e" "tGuard t = g"
    by (auto simp: outs_def)
  have "filter (\<lambda>t. tFrom t = nodeIdentity n \<and> tEvent t = e \<and> tGuard t = g) (bTransitions b) = [t]"
    by (rule unique_filter [OF d t(1)]) (use t in auto)
  then show "one_transition (selectGuardedTransition (bFlow b) (nodeIdentity n) e g)"
    by (simp add: one_transition_def selectGuardedTransition_def)
  assume k: "\<not> guarded_kind (nodeKind n)"
  have same: "?k u = ?k t" if "u \<in> set (bTransitions b)" "tFrom u = nodeIdentity n \<and> tEvent u = e" for u
  proof -
    have "\<not> guards (bFlow b) (nodeIdentity n)" using built_guards [OF b n] k by simp
    with built_plain_guard [OF b that(1)] built_plain_guard [OF b t(1)] that(2) t show ?thesis by simp
  qed
  have "filter (\<lambda>t. tFrom t = nodeIdentity n \<and> tEvent t = e) (bTransitions b) = [t]"
    by (rule unique_filter [OF d t(1)]) (use t same in auto)
  then show "one_transition (selectTransition (bFlow b) (nodeIdentity n) e)"
    by (simp add: one_transition_def selectTransition_def)
qed

lemma built_routes:
  assumes b: "built Map.empty b"
  shows "routes_all (bFlow b)"
  unfolding routes_all_def list_all_iff
proof
  fix n assume n: "n \<in> set (bNodes b)"
  have req: "c \<in> outs b (nodeIdentity n)" if "c \<in> required_cases (nodeKind n)" for c
    using built_node(4) [OF b n] that by auto
  have filled: "filled n" using built_node(5) [OF b n] by simp
  have "one_transition (selectTransition (bFlow b) (nodeIdentity n) MachineContinue)" if "continues n"
    using that req [of continue_case] built_select(2) [OF b n, of MachineContinue]
    by (auto simp: continues_def continue_case_def guarded_kind_def)
  moreover have "one_transition (selectTransition (bFlow b) (nodeIdentity n) e)"
    if "nodeKind n = NodeEffect" "e \<in> set result_events" for e
    using that req [of "(e, event_string e)"] built_select(2) [OF b n, of e]
    by (simp add: result_cases_def guarded_kind_def)
  moreover have "one_transition (selectGuardedTransition (bFlow b) (nodeIdentity n) MachineContinue g)"
    if "nodeKind n = NodeMatch \<and> g \<in> set outcome_names \<or> nodeKind n = NodePredicate \<and> g \<in> {''true'', ''false''}" for g
    by (rule built_select(1) [OF b n]) (use that req [of "(MachineContinue, g)"] in auto)
  ultimately show "routes_node (bFlow b) n"
    using filled by (simp add: routes_node_def filled_def)
qed

end

