(* ===== verification/Plan_Correct.thy ===== *)
theory Plan_Correct
  imports Build_Correct
begin

text \<open>
  The invariant of the builder along the other way into a flow, the plan of a job-based
  workflow, and with it the routing of every flow that \<open>BuildFlow\<close> returns.
\<close>

section \<open>Exits\<close>

lemma base_plan_built:
  "built [''entry'' \<mapsto> {}] ((newFlowBuilder i [])\<lparr>bFlow := (bFlow (newFlowBuilder i []))\<lparr>flowTriggers := ts\<rparr>\<rparr>)"
  (is "built _ ?b")
  and base_plan_kinds: "(''entry'', NodeEntry) \<in> node_kinds
    ((newFlowBuilder i [])\<lparr>bFlow := (bFlow (newFlowBuilder i []))\<lparr>flowTriggers := ts\<rparr>\<rparr>)"
proof -
  have "named ?b"
    by (simp add: named_def newFlowBuilder_def base_flow_def base_ids_def)
  moreover have "linked ?b"
    by (simp add: linked_def newFlowBuilder_def base_flow_def)
  moreover have "routed [''entry'' \<mapsto> {}] ?b"
    by (simp add: routed_def outs_def newFlowBuilder_def base_flow_def filled_def)
  moreover have "located ?b"
    by (simp add: located_def newFlowBuilder_def base_flow_def new_node_def)
  ultimately show "built [''entry'' \<mapsto> {}] ?b" by (simp add: built_def)
  show "(''entry'', NodeEntry) \<in> node_kinds ?b"
    by (simp add: node_kinds_def newFlowBuilder_def base_flow_def)
qed

lemma plan_exits_kept:
  assumes "plan_exits js exits b = (exits', b')" and "built W b" and "ran exits \<subseteq> ids b"
  shows "built W b' \<and> grew b b' \<and> ran exits' \<subseteq> ids b' \<and>
    dom exits' = dom exits \<union> set (map pjIdentity js)"
  using assms
proof (induction js arbitrary: exits b)
  case (Cons j js)
  obtain i b1 where n: "addNode (''job-'' @ pjIdentity j @ ''-exit'') NodeBranchExit b = (i, b1)"
    by fastforce
  note add = built_addNode [OF Cons.prems(2) n]
  have b1: "built W b1" by (rule built_leave [OF add(1,5) addNode_kind [OF n]]) simp
  have "ran (exits(pjIdentity j \<mapsto> i)) \<subseteq> ids b1"
    using Cons.prems(3) add(3) grew_ids [OF add(2)] by (auto simp: ran_def)
  moreover have "plan_exits js (exits(pjIdentity j \<mapsto> i)) b1 = (exits', b')"
    using Cons.prems(1) by (simp add: n [simplified])
  ultimately have ih: "built W b' \<and> grew b1 b' \<and> ran exits' \<subseteq> ids b' \<and>
      dom exits' = dom (exits(pjIdentity j \<mapsto> i)) \<union> set (map pjIdentity js)"
    using b1 by (intro Cons.IH)
  then show ?case using grew_trans [OF add(2)] by simp
qed simp

section \<open>One job\<close>

lemma grew_on_node:
  "(\<And>n. nodeIdentity (g n) = nodeIdentity n \<and> nodeKind (g n) = nodeKind n) \<Longrightarrow> grew b (on_node i g b)"
  using on_node_fields on_node_ids(2) by (simp add: grew_def)

lemma built_labels:
  assumes "built W b" and "\<And>n. nodeIdentity (g n) = nodeIdentity n \<and> nodeKind (g n) = nodeKind n \<and>
      nodeTargets (g n) = nodeTargets n \<and> nodeWaitFor (g n) = nodeWaitFor n \<and>
      nodeRegion (g n) = nodeRegion n \<and> filled (g n) = filled n"
  shows "built W (on_node i g b)"
proof (rule built_on_node(1) [OF assms(1)])
  fix n assume "n \<in> set (bNodes b)" "nodeIdentity n = i"
  with built_node(1,2,3,5) [OF assms(1)] assms(2) [of n]
  show "set (nodeTargets (g n)) \<subseteq> ids b \<and> set (nodeWaitFor (g n)) \<subseteq> ids b \<and>
      (nodeRegion (g n) \<noteq> [] \<longrightarrow> nodeRegion (g n) \<in> set (bRegions b)) \<and> (i \<notin> dom W \<longrightarrow> filled (g n))"
    by metis
qed (use assms(2) in simp)

lemma plan_steps_kept:
  "plan_steps_back job rank ss next b = (e, b') \<Longrightarrow> built W b \<Longrightarrow> next \<in> ids b \<Longrightarrow> kept W b e b'"
proof (induction ss arbitrary: "next" b)
  case (Cons ks ss)
  obtain k s where ks: "ks = (k, s)" by fastforce
  obtain x b1 where c: "compileEffect s next b = (x, b1)" by fastforce
  note k1 = keptD [OF compileEffect_kept [OF Cons.prems(2,3) c]]
  let ?g = "\<lambda>n. n\<lparr>nodeLegacyJob := job, nodeLegacyRank := rank, nodeEffectRank := k\<rparr>"
  have b2: "built W (on_node x ?g b1)" by (rule built_labels [OF k1(1)]) (simp add: filled_def)
  have g2: "grew b1 (on_node x ?g b1)" by (rule grew_on_node) simp
  have "kept W (on_node x ?g b1) e b'"
    using Cons.IH [of x "on_node x ?g b1"] Cons.prems(1) ks c b2 grew_ids [OF g2 k1(3)] by simp
  then show ?case using kept_trans [OF grew_trans [OF k1(2) g2]] by simp
qed (simp add: kept_def)

lemma built_waitFor:
  assumes b: "built W b" and "set ws \<subseteq> ids b"
  shows "built W (on_node i (\<lambda>n. n\<lparr>nodeWaitFor := ws\<rparr>) b)"
    and "built W (on_node i (\<lambda>n. n\<lparr>nodeTargets := ws\<rparr>) b)"
  using built_node(1,2,3,5) [OF b] assms(2)
  by (intro built_on_node(1) [OF b]; simp add: filled_def)+

lemma zget_ran: "m k = Some v \<Longrightarrow> ran m \<subseteq> A \<Longrightarrow> zget z m k \<in> A"
  by (auto simp: zget_def intro: ranI)

lemma plan_job_kept:
  assumes b: "built W b" and ex: "ran exits \<subseteq> ids b"
    and dom: "pjIdentity job \<in> dom exits" "set (pjNeeds job) \<subseteq> dom exits"
  shows "built W (plan_job_flow exits fork join (k, job) b) \<and>
    grew b (plan_job_flow exits fork join (k, job) b)"
proof -
  let ?i = "pjIdentity job" and ?r = "''region/'' @ pjIdentity job"
  define a where "a = addRegion ?r (pjPlatform job) (pjEnvironment job) b"
  define b1 where "b1 = a\<lparr>bRegion := ?r, bBranch := ?i\<rparr>"
  define exit where "exit = zget '''' exits ?i"
  obtain e b2 where s: "plan_steps_back ?i k (rev (enumerate 0 (pjSteps job))) exit b1 = (e, b2)" by fastforce
  define ws where "ws = sort_strings (map (zget '''' exits) (pjNeeds job))"
  define b3 where "b3 = on_node e (\<lambda>n. n\<lparr>nodeWaitFor := ws\<rparr>) b2"
  define b4 where "b4 = on_node exit (\<lambda>n. n\<lparr>nodeLegacyJob := ?i, nodeLegacyRank := k\<rparr>) b3"
  define b5 where "b5 = on_node fork (\<lambda>n. n\<lparr>nodeTargets := nodeTargets n @ [e]\<rparr>) b4"
  define b6 where "b6 = on_node join (\<lambda>n. n\<lparr>nodeWaitFor := nodeWaitFor n @ [exit]\<rparr>) b5"
  have res: "plan_job_flow exits fork join (k, job) b = b6\<lparr>bRegion := bRegion b, bBranch := bBranch b\<rparr>"
    by (simp only: plan_job_flow_def Let_def prod.case a_def [symmetric] b1_def [symmetric]
        exit_def [symmetric] ws_def [symmetric] s b6_def b5_def b4_def b3_def)
  have exits_in: "zget '''' exits x \<in> ids b" if "x \<in> dom exits" for x
    using that zget_ran [OF _ ex] by blast
  note reg = built_addRegion [OF b, where i = ?r and p = "pjPlatform job" and e = "pjEnvironment job",
      folded a_def]
  have b1: "built W b1" using built_region [OF reg(1,3)] by (simp add: b1_def builder_simps)
  have exit1: "exit \<in> ids b1"
    using exits_in [OF dom(1)] grew_ids [OF reg(2)] by (simp add: b1_def exit_def)
  note st = keptD [OF plan_steps_kept [OF s b1 exit1]]
  have up: "x \<in> ids b2" if "x \<in> ids b" for x
    using grew_ids [OF st(2), of x] grew_ids [OF reg(2) that] by (simp add: b1_def)
  have ws: "set ws \<subseteq> ids b2"
  proof
    fix w assume "w \<in> set ws"
    then obtain x where x: "x \<in> set (pjNeeds job)" and w: "w = zget '''' exits x"
      by (auto simp: ws_def)
    from dom(2) x have "x \<in> dom exits" by (rule subsetD)
    from up [OF exits_in [OF this]] show "w \<in> ids b2" by (simp only: w)
  qed
  have b3: "built W b3" unfolding b3_def by (rule built_waitFor(1) [OF st(1) ws])
  have b4: "built W b4" unfolding b4_def by (rule built_labels [OF b3]) (simp add: filled_def)
  have g3: "grew b2 b3" and g4: "grew b3 b4" and g5: "grew b4 b5" and g6: "grew b5 b6"
    unfolding b3_def b4_def b5_def b6_def by (rule grew_on_node, simp)+
  have "e \<in> ids b4" by (rule grew_ids [OF g4 grew_ids [OF g3 st(3)]])
  then have b5: "built W b5" unfolding b5_def by (intro built_node_lists(1) [OF b4]) simp
  have "exit \<in> ids b5"
    using grew_ids [OF g5 grew_ids [OF g4 grew_ids [OF g3 grew_ids [OF st(2) exit1]]]] .
  then have b6: "built W b6" unfolding b6_def by (intro built_node_lists(2) [OF b5]) simp
  have "grew (a\<lparr>bRegion := ?r\<rparr>) b6"
    using grew_trans [OF grew_trans [OF grew_trans [OF grew_trans [OF st(2) g3] g4] g5] g6]
    by (simp add: b1_def builder_simps)
  from grew_restore_region [OF reg(2) this] have g: "grew b (b6\<lparr>bRegion := bRegion b\<rparr>)" .
  have "bRegion b \<in> set (bRegions b6)"
    using built_bRegion [OF b] grew_regions [OF g] by auto
  from built_region [OF b6 this] g show ?thesis
    by (simp add: res builder_simps)
qed

section \<open>A whole plan\<close>

lemma plan_jobs_kept:
  "built W b \<Longrightarrow> ran exits \<subseteq> ids b \<Longrightarrow>
    \<forall>kj \<in> set js. pjIdentity (snd kj) \<in> dom exits \<and> set (pjNeeds (snd kj)) \<subseteq> dom exits \<Longrightarrow>
    built W (foldl (\<lambda>b kj. plan_job_flow exits fork join kj b) b js) \<and>
    grew b (foldl (\<lambda>b kj. plan_job_flow exits fork join kj b) b js)"
proof (induction js arbitrary: b)
  case (Cons kj js)
  obtain k j where kj: "kj = (k, j)" by fastforce
  let ?b = "plan_job_flow exits fork join kj b"
  have b1: "built W ?b \<and> grew b ?b" unfolding kj by (rule plan_job_kept) (use Cons.prems kj in auto)
  then have "ran exits \<subseteq> ids ?b" using Cons.prems(2) grew_ids by blast
  with Cons.IH [of ?b] b1 Cons.prems(3) show ?case by (auto intro: grew_trans)
qed simp

definition closed_plan :: "plan \<Rightarrow> bool" where
  "closed_plan p \<longleftrightarrow> (\<forall>j \<in> set (plJobs p). set (pjNeeds j) \<subseteq> set (map pjIdentity (plJobs p)))"

lemma compile_plan_built:
  assumes "closed_plan p"
  shows "built Map.empty (compile_plan p)"
proof -
  define b1 where "b1 = (newFlowBuilder (plWorkflow p) [])
      \<lparr>bFlow := (bFlow (newFlowBuilder (plWorkflow p) []))\<lparr>flowTriggers := plTriggers p\<rparr>\<rparr>"
  obtain exits b2 where x: "plan_exits (plJobs p) Map.empty b1 = (exits, b2)" by fastforce
  obtain join b3 where j: "addNode ''legacy-join'' NodeJoin b2 = (join, b3)" by fastforce
  obtain fork b4 where f: "addNode ''legacy-fork'' NodeFork b3 = (fork, b4)" by fastforce
  define b5 where "b5 = addTransition (flowEntry (bFlow b4)) MachineContinue fork b4"
  define b6 where "b6 = addTransition join MachineContinue (ftSucceeded (flowTerminals (bFlow b5))) b5"
  define b7 where "b7 = foldl (\<lambda>b kj. plan_job_flow exits fork join kj b) b6 (enumerate 0 (plJobs p))"
  define b8 where "b8 = on_node fork (\<lambda>n. n\<lparr>nodeTargets := sort_strings (nodeTargets n @ [join])\<rparr>) b7"
  have res: "compile_plan p = on_node join (\<lambda>n. n\<lparr>nodeWaitFor := sort_strings (nodeWaitFor n)\<rparr>) b8"
    by (simp add: compile_plan_def Let_def b8_def b7_def b6_def b5_def f j x [unfolded b1_def])
  let ?E = "[''entry'' \<mapsto> {}] :: string \<rightharpoonup> transition_case set"
  have k1: "(''entry'', NodeEntry) \<in> node_kinds b1" unfolding b1_def by (rule base_plan_kinds)
  have b1: "built ?E b1" unfolding b1_def by (rule base_plan_built)
  from plan_exits_kept [OF x b1] have b2: "built ?E b2" and g2: "grew b1 b2"
    and ex: "ran exits \<subseteq> ids b2" and dom: "dom exits = set (map pjIdentity (plJobs p))" by auto
  note aj = built_addNode [OF b2 j]
  note af = built_addNode [OF aj(1) f]
  have b4: "built (?E(join \<mapsto> {})) b4"
    by (rule built_leave [OF af(1,5) addNode_kind [OF f]]) simp
  have g4: "grew b2 b4" using aj(2) af(2) by (rule grew_trans)
  have ej: "join \<noteq> ''entry''" using aj(5) by auto
  have entry: "flowEntry (bFlow b4) = ''entry''"
    using grew_trans [OF g2 g4] by (simp add: grew_def same_scope_def b1_def newFlowBuilder_def base_flow_def)
  have k4: "(''entry'', NodeEntry) \<in> node_kinds b4" by (rule grew_kind [OF grew_trans [OF g2 g4] k1])
  have b4': "built ([join \<mapsto> {}](''entry'' \<mapsto> {})) b4" using b4 ej by (simp add: fun_upd_twist)
  have b5: "built [join \<mapsto> {}] b5" unfolding b5_def entry
    by (rule built_continue [OF b4' _ k4 af(3)]) (use ej in auto)
  have g5: "grew b4 b5" unfolding b5_def by (rule addTransition_kinds(3))
  have kj5: "(join, NodeJoin) \<in> node_kinds b5"
    by (rule grew_kind [OF grew_trans [OF af(2) g5] addNode_kind [OF j]])
  have b5': "built (Map.empty(join \<mapsto> {})) b5" using b5 by simp
  have b6: "built Map.empty b6" unfolding b6_def
    by (rule built_continue [OF b5' _ kj5 built_scope(4) [OF b5]]) auto
  have g6: "grew b4 b6" unfolding b6_def by (rule grew_trans [OF g5 addTransition_kinds(3)])
  have ex6: "ran exits \<subseteq> ids b6" using ex grew_ids [OF grew_trans [OF g4 g6]] by blast
  have needs: "\<forall>kj \<in> set (enumerate 0 (plJobs p)).
      pjIdentity (snd kj) \<in> dom exits \<and> set (pjNeeds (snd kj)) \<subseteq> dom exits"
    using assms by (auto simp: closed_plan_def dom in_set_enumerate_eq)
  from plan_jobs_kept [OF b6 ex6 needs, of fork join] have b7: "built Map.empty b7" and g7: "grew b6 b7"
    by (simp_all add: b7_def)
  have j7: "join \<in> ids b7" by (rule grew_ids [OF grew_trans [OF grew_trans [OF af(2) g6] g7] aj(3)])
  have b8: "built Map.empty b8" unfolding b8_def
    by (rule built_on_node(1) [OF b7]) (use built_node(1,2,3,5) [OF b7] j7 in \<open>auto simp: filled_def\<close>)
  show ?thesis unfolding res
    by (rule built_on_node(1) [OF b8]) (use built_node(1,2,3,5) [OF b8] in \<open>auto simp: filled_def\<close>)
qed

lemma BuildPlan_closed: "closed_plan (BuildPlan num d)"
  using plan_needs(2) by (fastforce simp: closed_plan_def)

section \<open>Every flow that is built\<close>

lemma BuildFlow_built:
  assumes "BuildFlow num d = Inr f"
  obtains b where "built Map.empty b" and "f = bFlow b" and "ValidateFlow f = []"
proof (cases "wlFlow d")
  case None
  with assms have "f = bFlow (compile_plan (BuildPlan num d))" "ValidateFlow f = []"
    by (auto simp: BuildFlow_def BuildFlowFromPlan_def validated_def Let_def split: if_splits)
  then show thesis using that compile_plan_built [OF BuildPlan_closed] by blast
next
  case (Some r)
  with assms obtain b where "compile_flow d r = Inr b" "f = bFlow b" "ValidateFlow f = []"
    by (auto simp: BuildFlow_def validated_def Let_def split: if_splits sum.splits)
  then show thesis using that compile_flow_built(1) by blast
qed

lemma BuildFlow_routes: "BuildFlow num d = Inr f \<Longrightarrow> routes_all f"
  by (erule BuildFlow_built) (simp add: built_routes)

end
