(* ===== verification/Routing_Safe.thy ===== *)
theory Routing_Safe
  imports Plan_Correct
begin

text \<open>
  The compiler and the machine together.  The errors of \<open>Step\<close> that mean "the program has no
  way on" never occur on a flow that \<open>BuildFlow\<close> returned, after any sequence of events: a
  rejected event was refused for its own sake (limits, an effect that is not there or not ready),
  or a predicate read a value or fact that the run has not produced.
\<close>

section \<open>Errors through the loop\<close>

text \<open>
  The contract of an error class: a loop invariant as before, and every error of completing a
  control node is of the class.
\<close>

locale settle_errors = settle_invariant +
  fixes E :: "machine_error \<Rightarrow> bool"
  assumes complete_error: "P s \<Longrightarrow> node \<in> set (flowNodes f) \<Longrightarrow> nodeKind node \<noteq> NodeEffect \<Longrightarrow>
      settle_complete f
        (set_state (removeActive s (nodeIdentity node)) (nodeIdentity node) StateSucceeded) node = Inl e \<Longrightarrow>
      E e"
begin

lemma settle_node_error:
  assumes "P s" and "node \<in> set (flowNodes f)" and "settle_node f node (s, p) = Inl e"
  shows "E e"
proof -
  obtain t woken where w: "wake_node s node = (t, woken)" by fastforce
  have t: "P t"
    using w assms inv_wake by (auto simp: wake_node_def split: if_splits)
  from assms(3) w show ?thesis
    using complete_error [OF t assms(2)]
    by (auto simp: settle_node_def Let_def split: if_splits sum.splits)
qed

lemma settle_pass_error:
  "settle_pass f ns (s, p) = Inl e \<Longrightarrow> set ns \<subseteq> set (flowNodes f) \<Longrightarrow> P s \<Longrightarrow> E e"
proof (induction ns arbitrary: s p)
  case (Cons n ns)
  show ?case
  proof (cases "settle_node f n (s, p)")
    case (Inl e')
    with Cons.prems show ?thesis using settle_node_error [of s n p e'] by simp
  next
    case (Inr sp)
    obtain t q where "sp = (t, q)" by fastforce
    with Inr Cons.prems Cons.IH [of t q] settle_node_keeps [of s n p t q] show ?thesis by simp
  qed
qed simp

lemma settle_loop_error_gen: "settle_loop g s = Inl e \<Longrightarrow> g = f \<Longrightarrow> P s \<Longrightarrow> E e"
proof (induction g s rule: settle_loop.induct)
  case (1 g s)
  show ?case
  proof (cases "settle_pass f (flowNodes f) (s, False)")
    case (Inl e')
    with "1.prems" settle_pass_error [OF Inl subset_refl] show ?thesis
      by (simp add: settle_loop.simps [of f s])
  next
    case (Inr tp)
    obtain t p where tp: "tp = (t, p)" by fastforce
    have "P t" by (rule settle_pass_keeps [OF Inr [unfolded tp] subset_refl "1.prems"(3)])
    with "1.IH" [of tp t p] "1.prems" Inr tp show ?thesis
      by (cases p) (simp_all add: settle_loop.simps [of f s])
  qed
qed

lemma settleControl_error: "settleControl f s = Inl e \<Longrightarrow> P s \<Longrightarrow> E e"
  by (auto simp: settleControl_def split: sum.splits intro: settle_loop_error_gen [OF _ refl])

end

section \<open>Routing errors\<close>

fun routing_error :: "machine_error \<Rightarrow> bool" where
  "routing_error (ResultUnhandled _ _) \<longleftrightarrow> True"
| "routing_error (TransitionAmbiguous _ _) \<longleftrightarrow> True"
| "routing_error (MatchUnhandled _ _) \<longleftrightarrow> True"
| "routing_error (ArmsAmbiguous _ _) \<longleftrightarrow> True"
| "routing_error PredicateMissing \<longleftrightarrow> True"
| "routing_error (NilEffect _) \<longleftrightarrow> True"
| "routing_error _ \<longleftrightarrow> False"

lemma projectedFact_error: "projectedFact r v = Inl e \<Longrightarrow> \<not> routing_error e"
  by (auto simp: projectedFact_def Let_def split: if_splits option.splits list.splits)

lemma compare_fact_error: "compare_fact p v = Inl e \<Longrightarrow> \<not> routing_error e"
  by (auto simp: compare_fact_def split: if_splits option.splits fact.splits)

lemma eval_all_error: "eval_all ev ps = Inl e \<Longrightarrow> \<exists>p \<in> set ps. ev p = Inl e"
  by (induction ps) (auto split: sum.splits if_splits)

lemma eval_any_error: "eval_any ev ps = Inl e \<Longrightarrow> \<exists>p \<in> set ps. ev p = Inl e"
  by (induction ps) (auto split: sum.splits if_splits)

lemma evaluatePredicate_error: "evaluatePredicate s p = Inl e \<Longrightarrow> \<not> routing_error e"
proof (induction "size p" arbitrary: p e rule: less_induct)
  case less
  have IH: "\<not> routing_error e'" if "c \<in> set (pChildren p)" "evaluatePredicate s c = Inl e'" for c e'
    by (rule less.hyps [OF size_predicate [OF that(1)] that(2)])
  have one: "\<not> routing_error e'" if "pChildren p = [c]" "evaluatePredicate s c = Inl e'" for c e'
    using IH [of c e'] that by simp
  from less.prems show ?case
    by (subst (asm) evaluatePredicate.simps)
      (auto split: if_splits option.splits sum.splits list.splits
        dest!: eval_all_error eval_any_error projectedFact_error compare_fact_error dest: IH one)
qed

lemma terminal_outcome: "oc \<noteq> TerminalNone \<Longrightarrow> terminal_string oc \<in> set outcome_names"
  by (cases oc) (simp_all add: outcome_names_def)

definition named_outcomes :: "snapshot \<Rightarrow> bool" where
  "named_outcomes s \<longleftrightarrow> TerminalNone \<notin> ran (snOutcomes s)"

lemma named_outcomes_ledger: "ledger s' = ledger s \<Longrightarrow> named_outcomes s' = named_outcomes s"
  by (simp add: named_outcomes_def ledger_def)

lemma settle_complete_error:
  assumes "routes_node f node" and "named_outcomes s" and "settle_complete f s node = Inl e"
  shows "\<not> routing_error e"
proof (cases "nodeKind node")
  case NodeMatch
  show ?thesis
  proof (cases "snOutcomes s (nodeSource node)")
    case (Some oc)
    then have "oc \<noteq> TerminalNone" using assms(2) by (auto simp: named_outcomes_def intro: ranI)
    then have "terminal_string oc \<in> set outcome_names" by (rule terminal_outcome)
    with assms(1) NodeMatch have "one_transition (selectGuardedTransition f (nodeIdentity node) MachineContinue
        (terminal_string oc))" by (simp add: routes_node_def)
    with assms(3) NodeMatch Some show ?thesis
      by (auto simp: settle_complete_def continue_guarded_def one_transition_def split: sum.splits)
  qed (use assms(3) NodeMatch in \<open>auto simp: settle_complete_def\<close>)
next
  case NodePredicate
  with assms(1) obtain p where p: "nodePredicate node = Some p"
    and r: "\<forall>g \<in> {''true'', ''false''}.
      one_transition (selectGuardedTransition f (nodeIdentity node) MachineContinue g)"
    by (auto simp: routes_node_def)
  show ?thesis
  proof (cases "evaluatePredicate s p")
    case (Inl e')
    with assms(3) NodePredicate p evaluatePredicate_error [OF Inl] show ?thesis
      by (auto simp: settle_complete_def evaluatePredicatePtr_def)
  next
    case (Inr m)
    then have "settle_complete f s node = continue_guarded f s node (if m then ''true'' else ''false'')"
      using NodePredicate p by (simp add: settle_complete_def evaluatePredicatePtr_def)
    with assms(3) r show ?thesis
      by (cases m) (auto simp: continue_guarded_def one_transition_def split: sum.splits)
  qed
qed (use assms(1,3) in \<open>auto simp: settle_complete_def continue_from_def routes_node_def continues_def
      one_transition_def split: sum.splits\<close>)

interpretation routing: settle_errors f "\<lambda>s. routes_all f \<and> named_outcomes s" "\<lambda>e. \<not> routing_error e" for f
proof (unfold_locales, goal_cases)
  case (1 s node)
  then show ?case by (simp add: named_outcomes_def addActive_def set_state_def set_node_def)
next
  case (2 s node s')
  from named_outcomes_ledger [OF ledger_settle_complete [OF 2(6)]] 2(1) show ?case
    by (simp add: named_outcomes_def removeActive_def set_state_def set_node_def)
next
  case (4 s node e)
  let ?s = "set_state (removeActive s (nodeIdentity node)) (nodeIdentity node) StateSucceeded"
  have "named_outcomes ?s"
    using 4(1) by (simp add: named_outcomes_def removeActive_def set_state_def set_node_def)
  moreover have "routes_node f node" using 4(1,2) by (simp add: routes_all_def list_all_iff)
  ultimately show ?case using settle_complete_error 4(4) by blast
qed (simp add: named_outcomes_def)

section \<open>Errors of a step\<close>

lemma requireEffectState_node:
  "requireEffectState f s i allowed = Inr (node, ns) \<Longrightarrow>
    node \<in> set (flowNodes f) \<and> nodeIdentity node = i \<and> nodeKind node = NodeEffect"
  by (auto simp: requireEffectState_def split: option.splits if_splits dest: flowNode_Some)

lemma requireEffectState_error: "requireEffectState f s i allowed = Inl e \<Longrightarrow> \<not> routing_error e"
  by (auto simp: requireEffectState_def split: option.splits if_splits)

lemma dispatch_error:
  assumes r: "routes_all f" and d: "step_dispatch f s trace event = Inl e"
  shows "\<not> routing_error e"
proof -
  have node: "nodeEffect n \<noteq> None \<and>
      (\<forall>k \<in> set result_events. one_transition (selectTransition f (nodeIdentity n) k))"
    if "n \<in> set (flowNodes f)" "nodeKind n = NodeEffect" for n
    using r that by (auto simp: routes_all_def list_all_iff routes_node_def)
  have started: "\<not> routing_error e" if "step_effect_started f s trace event = Inl e"
    using that node requireEffectState_node requireEffectState_error
    by (fastforce simp: step_effect_started_def split: sum.splits prod.splits if_splits option.splits)
  have result: "\<not> routing_error e"
    if "step_effect_result f s trace event = Inl e" "evKind event \<in> set result_events"
  proof (cases "requireEffectState f s (evNode event) [StateRunning]")
    case (Inl e')
    with that(1) requireEffectState_error [OF Inl] show ?thesis by (simp add: step_effect_result_def)
  next
    case (Inr nn)
    obtain n ns where nn: "nn = (n, ns)" by fastforce
    note m = requireEffectState_node [OF Inr [unfolded nn]]
    from node [of n] m that(2) obtain effect where "nodeEffect n = Some effect"
      and one: "one_transition (selectTransition f (evNode event) (evKind event))" by auto
    with that(1) Inr nn show ?thesis
      by (cases "selectTransition f (evNode event) (evKind event)")
        (auto simp: step_effect_result_def Let_def one_transition_def)
  qed
  from d show ?thesis
    by (cases "evKind event")
      (auto simp: step_dispatch_def step_start_def result_events_def split: if_splits
        dest: started result)
qed

lemma named_outcomes_dispatch:
  assumes "step_dispatch f s trace event = Inr (s', tr)" and "named_outcomes s"
  shows "named_outcomes s'"
proof -
  have "TerminalNone \<notin> ran (fst (post_result f (oc, vs, cf) event))" if "TerminalNone \<notin> ran oc" for oc vs cf
  proof (cases "finished (evNode event) event \<and> flowNode f (evNode event) \<noteq> None")
    case True
    then have "result_kind (evKind event) \<noteq> TerminalNone"
      by (cases "evKind event") (auto simp: finished_def result_events_def)
    with that show ?thesis
      by (auto simp: post_result_def ran_def split: option.splits)
  qed (use that in \<open>auto simp: post_result_def split: option.splits\<close>)
  with ledger_dispatch [OF assms(1)] assms(2) show ?thesis
    by (simp add: named_outcomes_def ledger_def) (metis fst_conv)
qed

lemma Step_error:
  assumes "routes_all f" and "named_outcomes s" and "Step f s event = Inl (e, s')"
  shows "\<not> routing_error e"
proof -
  let ?s = "(with_limits s)\<lparr>snStepCount := snStepCount (with_limits s) + 1\<rparr>"
  have n: "named_outcomes ?s" using assms(2) by (simp add: named_outcomes_def with_limits_def)
  from assms(3) consider (budget) "e = StepLimitExceeded (snStepLimit (with_limits s))"
    | (dispatch) "step_dispatch f ?s (new_trace (with_limits s) event) event = Inl e"
    | (settle) moved tr where "step_dispatch f ?s (new_trace (with_limits s) event) event = Inr (moved, tr)"
        "settleControl f moved = Inl e"
    by (auto simp: Step_def Let_def split: if_splits sum.splits prod.splits)
  then show ?thesis
  proof cases
    case settle
    from named_outcomes_dispatch [OF settle(1) n] routing.settleControl_error [OF settle(2)] assms(1)
    show ?thesis by blast
  qed (auto dest: dispatch_error [OF assms(1)])
qed

interpretation named_kept: settle_invariant f named_outcomes for f
  by unfold_locales
    (auto simp: addActive_def removeActive_def set_state_def set_node_def
      dest!: named_outcomes_ledger [OF ledger_settle_complete] simp: named_outcomes_def)

interpretation named_history: history_invariant f "\<lambda>s _. named_outcomes s" for f
proof
  fix s trs e s' tr
  assume n: "named_outcomes s" and st: "Step f s e = Inr (s', tr)"
  from st obtain moved trace settled where
      d: "step_dispatch f ((with_limits s)\<lparr>snStepCount := snStepCount s + 1\<rparr>)
        (new_trace (with_limits s) e) e = Inr (moved, trace)"
    and c: "settleControl f moved = Inr settled" and s': "s' = appendTrace settled tr"
    by (rule Step_accepted)
  have "named_outcomes moved"
    by (rule named_outcomes_dispatch [OF d]) (use n in \<open>simp add: named_outcomes_def with_limits_def\<close>)
  from named_kept.settleControl_keeps [OF c this] show "named_outcomes s'"
    by (simp add: s' named_outcomes_def appendTrace_def)
qed (simp add: named_outcomes_def with_limits_def)

lemma replay_named_outcomes: "named_outcomes (fst (replay f (NewSnapshot f l t) es))"
  by (rule named_history.replay_holds) (simp add: named_outcomes_def NewSnapshot_def)

end
