(* ===== verification/Workflow_Exec.thy ===== *)
theory Workflow_Exec
  imports Workflow_Compile Machine_Step
begin

text \<open>
  The executor, \<open>flow_executor.go\<close> and the parts of \<open>executor.go\<close> that are not operating-system
  calls.  \<open>RunFlow\<close> drives the machine: it starts the effects the machine has made active,
  collects completions from its goroutines and reports them.  What the environment decides is an
  explicit input, one record per round of the loop: the completions that have arrived, in the
  order of arrival, and what \<open>ctx.Err()\<close> answers whenever the code asks.  Running an effect
  (processes, native operations, file transfer) is a parameter.
\<close>

section \<open>Events and results\<close>

datatype event_kind =
    EventWorkflowStarted | EventJobStarted | EventStepStarted | EventStepOutput
  | EventStepDiagnostic | EventStepCompleted | EventJobCompleted | EventWorkflowCompleted
  | EventMachineStepped | EventArtifactTransferStarted | EventArtifactTransferCompleted
  | EventArtifactTransferFailed

record event =
  evtKind :: event_kind
  evtWorkflow :: string
  evtJob :: string
  evtStep :: string
  evtStream :: string
  evtOutput :: string
  evtState :: run_state
  evtDuration :: int
  evtCode :: string
  evtSeverity :: string
  evtMessage :: string
  evtDetails :: "string list"
  evtResult :: "native_result option"
  evtTrace :: "step_trace option"

definition new_event :: "event_kind \<Rightarrow> string \<Rightarrow> string \<Rightarrow> string \<Rightarrow> run_state \<Rightarrow> event" where
  "new_event kind w job step state = \<lparr>evtKind = kind, evtWorkflow = w, evtJob = job, evtStep = step,
     evtStream = '''', evtOutput = '''', evtState = state, evtDuration = 0, evtCode = '''',
     evtSeverity = '''', evtMessage = '''', evtDetails = [], evtResult = None, evtTrace = None\<rparr>"

record step_result =
  srIdentity :: string
  srState :: run_state
  srExitCode :: "int option"
  srError :: string
  srDurationMs :: int
  srResult :: "native_result option"

record job_result =
  jrIdentity :: string
  jrState :: run_state
  jrError :: string
  jrDurationMs :: int
  jrSteps :: "step_result list"

record run_result =
  rrWorkflow :: string
  rrState :: run_state
  rrJobs :: "job_result list"
  rrEffects :: "step_result list"
  rrSnapshot :: "snapshot option"

section \<open>Lookups\<close>

definition containsCleanupEffect :: "flow_node list \<Rightarrow> bool" where
  "containsCleanupEffect nodes \<longleftrightarrow> list_ex nodeCleanup nodes"

definition active_effect :: "flow \<Rightarrow> snapshot \<Rightarrow> string \<Rightarrow> flow_node list" where
  "active_effect f s i =
     (case flowNode f i of
        None \<Rightarrow> []
      | Some n \<Rightarrow> if nodeKind n = NodeEffect \<and> state_of s i = StatePending then [n] else [])"

definition activeEffectNodes :: "flow \<Rightarrow> snapshot \<Rightarrow> flow_node list" where
  "activeEffectNodes f s = sort_key nodeIdentity (concat (map (active_effect f s) (snActive s)))"

definition findRegion :: "flow \<Rightarrow> string \<Rightarrow> execution_region" where
  "findRegion f i =
     (case find (\<lambda>r. erIdentity r = i) (flowRegions f) of
        Some r \<Rightarrow> r
      | None \<Rightarrow> \<lparr>erIdentity = ''region/default'', erPlatform = ''currentHost'', erEnvironment = []\<rparr>)"

definition effectRegionLabel :: "flow_node \<Rightarrow> string" where
  "effectRegionLabel n =
     (if nodeLegacyJob n \<noteq> '''' then nodeLegacyJob n
      else if nodeBranch n \<noteq> '''' then nodeBranch n
      else if nodeRegion n \<noteq> '''' then nodeRegion n
      else ''flow'')"

text \<open>\<open>platformCompatible\<close>, on the host operating system \<open>goos\<close> (\<open>runtime.GOOS\<close>).\<close>

definition platformCompatible :: "string \<Rightarrow> string \<Rightarrow> bool" where
  "platformCompatible goos platform \<longleftrightarrow>
     platform = '''' \<or> platform = ''currentHost''
     \<or> (if goos = ''darwin'' then platform = ''macos'' else platform = goos)"

section \<open>One effect\<close>

text \<open>
  An error value: its text, and whether it is \<open>context.DeadlineExceeded\<close> or \<open>context.Canceled\<close>.
\<close>

record effect_error =
  eeText :: string
  eeDeadline :: bool
  eeCanceled :: bool

definition plain_error :: "string \<Rightarrow> effect_error" where
  "plain_error msg = \<lparr>eeText = msg, eeDeadline = False, eeCanceled = False\<rparr>"

record completion =
  cpNode :: flow_node
  cpResult :: "native_result option"
  cpErr :: "effect_error option"
  cpDuration :: int

text \<open>The inputs of an effect, resolved in order; the first unavailable one is the error.\<close>

fun resolve_inputs :: "flow_node \<Rightarrow> snapshot \<Rightarrow> value_ref list \<Rightarrow> effect_error + resolved_value list" where
  "resolve_inputs n s [] = Inr []"
| "resolve_inputs n s (input # inputs) =
     (case snValues s (vrSource input) of
        None \<Rightarrow> Inl (plain_error (''TSPACK_WORKFLOW_VALUE_UNAVAILABLE: '' @ vrIdentity input
                  @ '' is not available to '' @ nodeIdentity n))
      | Some v \<Rightarrow>
          (case resolve_inputs n s inputs of
             Inl e \<Rightarrow> Inl e
           | Inr rs \<Rightarrow> Inr (\<lparr>rvReference = input, rvResult = v\<rparr> # rs)))"

definition effect_job :: "flow \<Rightarrow> flow_node \<Rightarrow> plan_job" where
  "effect_job f n =
     (let region = findRegion f (nodeRegion n) in
      \<lparr>pjIdentity = effectRegionLabel n, pjJobIdentity = '''', pjNeeds = [],
       pjPlatform = erPlatform region, pjMatrix = [], pjEnvironment = erEnvironment region,
       pjSteps = [], pjDeclarationOrd = 0\<rparr>)"

text \<open>
  \<open>runOneFlowEffect\<close>; \<open>run cleanup job step\<close> is \<open>runStep\<close>, under the cleanup deadline or under
  the context of the run, with the milliseconds it took.
\<close>

type_synonym effect_runner =
  "bool \<Rightarrow> plan_job \<Rightarrow> plan_step \<Rightarrow> native_result option \<times> effect_error option \<times> int"

definition runOneFlowEffect ::
  "string \<Rightarrow> effect_runner \<Rightarrow> flow \<Rightarrow> flow_node \<Rightarrow> plan_step \<Rightarrow> snapshot \<Rightarrow> completion" where
  "runOneFlowEffect goos run f n effect s =
     (case resolve_inputs n s (psInputs effect) of
        Inl e \<Rightarrow> \<lparr>cpNode = n, cpResult = None, cpErr = Some e, cpDuration = 0\<rparr>
      | Inr inputs \<Rightarrow>
          (let job = effect_job f n in
           if \<not> platformCompatible goos (pjPlatform job)
           then \<lparr>cpNode = n, cpResult = None, cpErr = Some (plain_error
                  (''TSPACK_WORKFLOW_PLATFORM_UNAVAILABLE: region requires '' @ pjPlatform job)), cpDuration = 0\<rparr>
           else (let (result, err, ms) = run (nodeCleanup n) job
                        (effect\<lparr>psResolvedInputs := psResolvedInputs effect @ inputs\<rparr>)
                 in \<lparr>cpNode = n, cpResult = result, cpErr = err, cpDuration = ms\<rparr>)))"

section \<open>The driving loop\<close>

text \<open>
  The variables of \<open>RunFlow\<close>: the snapshot, the effects that are running, each with the snapshot
  it was launched with, and the events emitted so far.
\<close>

record exec_state =
  xSnapshot :: snapshot
  xRunning :: "(string \<times> flow_node \<times> snapshot) list"
  xEvents :: "event list"

definition emit :: "event \<Rightarrow> exec_state \<Rightarrow> exec_state" where
  "emit e x = x\<lparr>xEvents := xEvents x @ [e]\<rparr>"

definition running_drop :: "string \<Rightarrow> (string \<times> 'a) list \<Rightarrow> (string \<times> 'a) list" where
  "running_drop i rs = filter (\<lambda>p. fst p \<noteq> i) rs"

definition running_put :: "string \<Rightarrow> 'a \<Rightarrow> (string \<times> 'a) list \<Rightarrow> (string \<times> 'a) list" where
  "running_put i v rs = running_drop i rs @ [(i, v)]"

definition event_of :: "machine_event_kind \<Rightarrow> string \<Rightarrow> native_result option \<Rightarrow> string \<Rightarrow> machine_event" where
  "event_of kind node result err =
     \<lparr>evKind = kind, evNode = node, evResult = result, evError = err\<rparr>"

definition applyMachineEvent :: "flow \<Rightarrow> machine_event \<Rightarrow> exec_state \<Rightarrow> exec_state \<times> machine_error option" where
  "applyMachineEvent f e x =
     (case Step f (xSnapshot x) e of
        Inl (err, s) \<Rightarrow> (x\<lparr>xSnapshot := s\<rparr>, Some err)
      | Inr (s, trace) \<Rightarrow>
          (emit ((new_event EventMachineStepped (flowIdentity f) '''' '''' StateZero)
                   \<lparr>evtTrace := Some trace\<rparr>) (x\<lparr>xSnapshot := s\<rparr>), None))"

definition fail_status :: "exec_state \<Rightarrow> exec_state" where
  "fail_status x = x\<lparr>xSnapshot := (xSnapshot x)\<lparr>snStatus := StateFailed\<rparr>\<rparr>"

definition is_transfer :: "flow_node \<Rightarrow> bool" where
  "is_transfer n \<longleftrightarrow> (case nodeEffect n of None \<Rightarrow> False | Some e \<Rightarrow> psOperation e = ''transfer'')"

definition launched :: "flow \<Rightarrow> flow_node \<Rightarrow> exec_state \<Rightarrow> exec_state" where
  "launched f n x =
     (let i = nodeIdentity n; job = effectRegionLabel n;
          x1 = x\<lparr>xRunning := running_put i (n, xSnapshot x) (xRunning x)\<rparr>;
          x2 = emit (new_event EventStepStarted (flowIdentity f) job i StateRunning) x1
      in if is_transfer n
         then emit (new_event EventArtifactTransferStarted (flowIdentity f) job i StateRunning) x2
         else x2)"

text \<open>
  Starting the active effects; \<open>gone i\<close> is whether the context is cancelled when node \<open>i\<close> is
  looked at.  A start the machine rejects fails the run and ends the loop.
\<close>

fun launch_nodes :: "flow \<Rightarrow> (string \<Rightarrow> bool) \<Rightarrow> flow_node list \<Rightarrow> exec_state \<Rightarrow> exec_state" where
  "launch_nodes f gone [] x = x"
| "launch_nodes f gone (n # ns) x =
     (if gone (nodeIdentity n) \<and> \<not> nodeCleanup n then launch_nodes f gone ns x
      else (case applyMachineEvent f (event_of MachineEffectStarted (nodeIdentity n) None '''') x of
              (x', Some _) \<Rightarrow> fail_status x'
            | (x', None) \<Rightarrow> launch_nodes f gone ns (launched f n x')))"

text \<open>How a completion is reported, \<open>gone\<close> telling whether the context is cancelled by then.\<close>

definition completion_kind :: "bool \<Rightarrow> completion \<Rightarrow> machine_event_kind" where
  "completion_kind gone c =
     (case cpErr c of
        None \<Rightarrow> MachineEffectSucceeded
      | Some e \<Rightarrow>
          if gone \<and> \<not> nodeCleanup (cpNode c) then MachineCancelRequested
          else if eeDeadline e then MachineTimeout
          else if eeCanceled e then MachineCancelRequested
          else MachineEffectFailed)"

definition completion_event :: "bool \<Rightarrow> completion \<Rightarrow> machine_event" where
  "completion_event gone c =
     event_of (completion_kind gone c) (nodeIdentity (cpNode c)) (cpResult c)
       (case cpErr c of None \<Rightarrow> '''' | Some e \<Rightarrow> eeText e)"

definition report_completion :: "flow \<Rightarrow> bool \<Rightarrow> completion \<Rightarrow> exec_state \<Rightarrow> exec_state" where
  "report_completion f gone c x =
     (let i = nodeIdentity (cpNode c) in
      if completion_kind gone c = MachineCancelRequested \<and> snStatus (xSnapshot x) = StateRunning
      then fst (applyMachineEvent f (completion_event gone c) x)
      else if state_of (xSnapshot x) i = StateRunning
      then (case applyMachineEvent f (completion_event gone c) x of
              (x', Some _) \<Rightarrow> fail_status x'
            | (x', None) \<Rightarrow> x')
      else x)"

definition completed_events :: "flow \<Rightarrow> bool \<Rightarrow> completion \<Rightarrow> exec_state \<Rightarrow> exec_state" where
  "completed_events f gone c x =
     (let n = cpNode c;
          ev = (\<lambda>kind. (new_event kind (flowIdentity f) (effectRegionLabel n) (nodeIdentity n)
                 (result_state (completion_kind gone c) StateZero))
                 \<lparr>evtDuration := cpDuration c, evtResult := cpResult c\<rparr>);
          x1 = emit (ev EventStepCompleted) x
      in if is_transfer n
         then emit (ev (if cpErr c = None then EventArtifactTransferCompleted
                        else EventArtifactTransferFailed)) x1
         else x1)"

definition apply_completion :: "flow \<Rightarrow> (string \<Rightarrow> bool) \<Rightarrow> completion \<Rightarrow> exec_state \<Rightarrow> exec_state" where
  "apply_completion f gone c x =
     (let i = nodeIdentity (cpNode c) in
      completed_events f (gone i) c
        (report_completion f (gone i) c (x\<lparr>xRunning := running_drop i (xRunning x)\<rparr>)))"

text \<open>
  One round: \<open>rdErr\<close> is \<open>ctx.Err()\<close> at the head of the loop, \<open>rdLaunch\<close> and \<open>rdGone\<close> whether it
  is set when a node is launched and when a completion is applied, \<open>rdBatch\<close> the completions.
\<close>

record round =
  rdErr :: "string option"
  rdLaunch :: "string \<Rightarrow> bool"
  rdBatch :: "completion list"
  rdGone :: "string \<Rightarrow> bool"

text \<open>The loop up to the point where it waits: \<open>Inl\<close> when it is left, \<open>Inr\<close> when it waits.\<close>

definition round_start :: "flow \<Rightarrow> round \<Rightarrow> exec_state \<Rightarrow> exec_state + exec_state" where
  "round_start f r x =
     (let active = activeEffectNodes f (xSnapshot x) in
      if rdErr r \<noteq> None \<and> xRunning x = [] \<and> \<not> containsCleanupEffect active
      then Inl (fst (applyMachineEvent f (event_of MachineCancelRequested '''' None (the (rdErr r))) x))
      else
        (let x1 = (if snStatus (xSnapshot x) = StateRunning
                   then launch_nodes f (rdLaunch r) active x else x)
         in if xRunning x1 = []
            then Inl (if snStatus (xSnapshot x1) = StateRunning then fail_status x1 else x1)
            else Inr x1))"

definition round_end :: "flow \<Rightarrow> round \<Rightarrow> exec_state \<Rightarrow> exec_state" where
  "round_end f r x =
     foldl (\<lambda>x c. apply_completion f (rdGone r) c x) x
       (sort_key (\<lambda>c. nodeIdentity (cpNode c)) (rdBatch r))"

definition loop_goes_on :: "exec_state \<Rightarrow> bool" where
  "loop_goes_on x \<longleftrightarrow> snStatus (xSnapshot x) = StateRunning \<or> xRunning x \<noteq> []"

text \<open>The loop; \<open>None\<close> when the rounds given to it do not suffice.\<close>

fun run_rounds :: "flow \<Rightarrow> round list \<Rightarrow> exec_state \<Rightarrow> exec_state option" where
  "run_rounds f [] x = (if loop_goes_on x then None else Some x)"
| "run_rounds f (r # rs) x =
     (if \<not> loop_goes_on x then Some x
      else (case round_start f r x of
              Inl y \<Rightarrow> Some y
            | Inr y \<Rightarrow> run_rounds f rs (round_end f r y)))"

section \<open>The result\<close>

definition effect_result :: "snapshot \<Rightarrow> flow_node \<Rightarrow> step_result" where
  "effect_result s n =
     (let st = node_of s (nodeIdentity n) in
      \<lparr>srIdentity = nodeIdentity n, srState = nsState st, srExitCode = None, srError = nsError st,
       srDurationMs = 0, srResult = nsResult st\<rparr>)"

text \<open>The key of a job group: its rank first, then its label, the order the jobs are listed in.\<close>

definition job_key :: "flow_node \<Rightarrow> nat \<times> string" where
  "job_key n = (nodeLegacyRank n, effectRegionLabel n)"

definition job_state_after :: "run_state \<Rightarrow> run_state \<Rightarrow> run_state" where
  "job_state_after job step =
     (if step = StateFailed \<or> step = StateTimedOut then StateFailed
      else if step = StateBlocked \<and> job = StateSucceeded then StateBlocked
      else if step = StateCancelled \<and> job = StateSucceeded then StateCancelled
      else job)"

definition job_group :: "snapshot \<Rightarrow> flow_node list \<Rightarrow> nat \<times> string \<Rightarrow> job_result" where
  "job_group s effects key =
     (let steps = map (effect_result s) (sort_key nodeEffectRank (filter (\<lambda>n. job_key n = key) effects)) in
      \<lparr>jrIdentity = snd key, jrState = foldl job_state_after StateSucceeded (map srState steps),
       jrError = '''', jrDurationMs = 0, jrSteps = steps\<rparr>)"

definition sort_job_keys :: "(nat \<times> string) list \<Rightarrow> (nat \<times> string) list" where
  "sort_job_keys ks = sort_key fst (sort_key snd ks)"

definition machineResult :: "flow \<Rightarrow> snapshot \<Rightarrow> run_state \<Rightarrow> run_result" where
  "machineResult f s state =
     (let effects = filter (\<lambda>n. nodeKind n = NodeEffect) (flowNodes f) in
      \<lparr>rrWorkflow = flowIdentity f, rrState = state,
       rrJobs = map (job_group s effects) (sort_job_keys (remdups (map job_key effects))),
       rrEffects = map (effect_result s) effects,
       rrSnapshot = Some s\<rparr>)"

definition executor_concurrency :: "int \<Rightarrow> int \<Rightarrow> int" where
  "executor_concurrency cpus requested =
     (let c = (if requested \<le> 0 then (if cpus > 4 then 4 else cpus) else requested)
      in if c > MaxForEachConcurrency then MaxForEachConcurrency else c)"

text \<open>The variables as the loop finds them, before the start event.\<close>

definition exec_init :: "flow \<Rightarrow> exec_state" where
  "exec_init f = \<lparr>xSnapshot = NewSnapshot f DefaultStepLimit DefaultTraceLimit, xRunning = [],
     xEvents = [new_event EventWorkflowStarted (flowIdentity f) '''' '''' StateRunning]\<rparr>"

text \<open>\<open>RunFlow\<close>: the result and the events, \<open>None\<close> while the environment has not answered.\<close>

definition RunFlow :: "flow \<Rightarrow> round list \<Rightarrow> (run_result \<times> event list) option" where
  "RunFlow f rounds =
     (if ValidateFlow f \<noteq> []
      then Some (\<lparr>rrWorkflow = flowIdentity f, rrState = StateFailed, rrJobs = [], rrEffects = [],
                  rrSnapshot = None\<rparr>, [])
      else
        (case applyMachineEvent f (event_of MachineStart '''' None '''') (exec_init f) of
           (x1, Some _) \<Rightarrow> Some (machineResult f (xSnapshot x1) StateFailed, xEvents x1)
         | (x1, None) \<Rightarrow>
             (case run_rounds f rounds x1 of
                None \<Rightarrow> None
              | Some y \<Rightarrow>
                  (let result = machineResult f (xSnapshot y) (snStatus (xSnapshot y)) in
                   Some (result, xEvents y @
                     [new_event EventWorkflowCompleted (flowIdentity f) '''' '''' (rrState result)])))))"

text \<open>\<open>Run\<close>: a plan is compiled first.\<close>

definition Run :: "plan \<Rightarrow> round list \<Rightarrow> (run_result \<times> event list) option" where
  "Run p rounds =
     (case BuildFlowFromPlan p of
        Inl _ \<Rightarrow> Some (\<lparr>rrWorkflow = plWorkflow p, rrState = StateFailed, rrJobs = [], rrEffects = [],
                       rrSnapshot = None\<rparr>, [])
      | Inr f \<Rightarrow> RunFlow f rounds)"

end
