(* ===== verification/Exec_Props.thy ===== *)
theory Exec_Props
  imports Workflow_Exec Machine_Runs Validate_Props "HOL-Library.Multiset"
begin

text \<open>
  What the executor guarantees whatever its environment does: the machine it drives is only ever
  asked to start effects it has made active, so dependencies come first; the loop ends after at
  most one round per node plus one; and the result accounts for every effect exactly once.
\<close>

section \<open>Starting an effect leaves the control state alone\<close>

lemma settle_node_quiescent:
  "quiescent f s \<Longrightarrow> n \<in> set (flowNodes f) \<Longrightarrow> settle_node f n (s, p) = Inr (s, p)"
  by (auto simp: quiescent_def settle_node_def wake_node_def Let_def containsIdentity_def)

lemma settle_pass_quiescent:
  "quiescent f s \<Longrightarrow> set ns \<subseteq> set (flowNodes f) \<Longrightarrow> settle_pass f ns (s, p) = Inr (s, p)"
  by (induction ns) (simp_all add: settle_node_quiescent)

lemma settleControl_rest:
  "quiescent f s \<Longrightarrow> settleControl f s = Inr (s\<lparr>snActive := sort_strings (snActive s)\<rparr>)"
  by (simp add: settleControl_def settle_loop.simps [of f s] settle_pass_quiescent)

lemma quiescent_upd:
  "quiescent f (s\<lparr>snStatus := st\<rparr>) = quiescent f s"
  "quiescent f (s\<lparr>snStepCount := k\<rparr>) = quiescent f s"
  "quiescent f (with_limits s) = quiescent f s"
  by (simp_all add: quiescent_def dependenciesComplete_def state_simps with_limits_def)

lemma quiescent_started:
  assumes "quiescent f s" and "state_of s i = StatePending"
    and "\<And>n. n \<in> set (flowNodes f) \<Longrightarrow> nodeIdentity n = i \<Longrightarrow> nodeKind n = NodeEffect"
  shows "quiescent f (set_node s i ((node_of s i)\<lparr>nsState := StateRunning\<rparr>))"
proof -
  let ?s = "set_node s i ((node_of s i)\<lparr>nsState := StateRunning\<rparr>)"
  have st: "state_of ?s j = (if j = i then StateRunning else state_of s j)" for j
    by (simp add: state_of_set_node)
  have "dependenciesComplete ?s ds = dependenciesComplete s ds" for ds
    using assms(2) by (auto simp: dependenciesComplete_def st)
  with assms(1) show ?thesis by (simp add: quiescent_def st)
qed

lemma Step_started_active:
  assumes q: "quiescent f s" and d: "distinct (node_ids f)"
    and st: "Step f s e = Inr (s', tr)" and k: "evKind e = MachineEffectStarted"
  shows "set (snActive s') = set (snActive s)"
proof -
  let ?s = "(with_limits s)\<lparr>snStepCount := snStepCount s + 1\<rparr>"
  from st obtain moved trace settled where
      disp: "step_dispatch f ?s (new_trace (with_limits s) e) e = Inr (moved, trace)"
    and c: "settleControl f moved = Inr settled" and s': "s' = appendTrace settled tr"
    by (rule Step_accepted)
  from disp k have started: "step_effect_started f ?s (new_trace (with_limits s) e) e = Inr (moved, trace)"
    by (simp add: step_dispatch_def)
  from started obtain n ns where "requireEffectState f ?s (evNode e) [StateRunning, StatePending] = Inr (n, ns)"
    by (auto simp: step_effect_started_def split: sum.splits)
  from requireEffectState_state [OF this] have n: "flowNode f (evNode e) = Some n" "nodeKind n = NodeEffect"
    by auto
  have "nodeKind m = NodeEffect" if "m \<in> set (flowNodes f)" "nodeIdentity m = evNode e" for m
    using flowNode_distinct [OF d that(1)] n that(2) by simp
  then have "quiescent f moved"
    unfolding step_started_state(2) [OF started] using q
    by (intro quiescent_started) (simp_all add: quiescent_upd step_started_state(1) [OF started])
  from settleControl_rest [OF this] c have "settled = moved\<lparr>snActive := sort_strings (snActive moved)\<rparr>" by simp
  then show ?thesis using step_started_state(2) [OF started] by (simp add: s')
qed

section \<open>The executor drives the machine\<close>

text \<open>What holds of the snapshot at every point of \<open>RunFlow\<close>.\<close>

definition steered :: "flow \<Rightarrow> exec_state \<Rightarrow> bool" where
  "steered f x \<longleftrightarrow> driven f (xSnapshot x) \<and> quiescent f (xSnapshot x)"

lemma steered_upd [simp]:
  "steered f (emit e x) = steered f x" "steered f (x\<lparr>xRunning := rs\<rparr>) = steered f x"
  by (simp_all add: steered_def emit_def)

lemma steered_fail: "steered f x \<Longrightarrow> steered f (fail_status x)"
  by (simp add: steered_def fail_status_def driven.driven_fail quiescent_upd)

lemma steered_apply:
  assumes "steered f x" and "evKind e = MachineEffectStarted \<Longrightarrow> evNode e \<in> set (snActive (xSnapshot x))"
  shows "steered f (fst (applyMachineEvent f e x))"
proof (cases "Step f (xSnapshot x) e")
  case (Inl r)
  obtain err s where r: "r = (err, s)" by fastforce
  with Inl have st: "Step f (xSnapshot x) e = Inl (err, s)" by simp
  with assms(1) Step_rejected [OF st] show ?thesis
    by (simp add: applyMachineEvent_def steered_def quiescent_upd) (metis driven.driven_reject)
next
  case (Inr r)
  obtain s tr where r: "r = (s, tr)" by fastforce
  with Inr have st: "Step f (xSnapshot x) e = Inr (s, tr)" by simp
  have "driven f s" using assms st by (auto simp: steered_def intro: driven.driven_step)
  moreover have "quiescent f s" using Step_quiescent [OF st] by simp
  ultimately show ?thesis by (simp add: applyMachineEvent_def st steered_def emit_def)
qed

lemma launched_snapshot [simp]: "xSnapshot (launched f n x) = xSnapshot x"
  by (simp add: launched_def Let_def emit_def)

lemma steered_launched [simp]: "steered f (launched f n x) = steered f x"
  by (simp add: steered_def)

lemma applyMachineEvent_None:
  "applyMachineEvent f e x = (x', None) \<Longrightarrow>
    \<exists>s tr. Step f (xSnapshot x) e = Inr (s, tr) \<and> xSnapshot x' = s \<and> xRunning x' = xRunning x"
  by (auto simp: applyMachineEvent_def emit_def split: sum.splits)

lemma applyMachineEvent_Some:
  "applyMachineEvent f e x = (x', Some err) \<Longrightarrow> xSnapshot x' = with_limits (xSnapshot x) \<and> xRunning x' = xRunning x"
  by (auto simp: applyMachineEvent_def split: sum.splits dest: Step_rejected)

lemma steered_launch_nodes:
  "steered f x \<Longrightarrow> distinct (node_ids f) \<Longrightarrow> nodeIdentity ` set ns \<subseteq> set (snActive (xSnapshot x)) \<Longrightarrow>
    steered f (launch_nodes f gone ns x)"
proof (induction ns arbitrary: x)
  case (Cons n ns)
  let ?e = "event_of MachineEffectStarted (nodeIdentity n) None ''''"
  obtain x' r where a: "applyMachineEvent f ?e x = (x', r)" by fastforce
  have s: "steered f x'"
    using steered_apply [OF Cons.prems(1), of ?e] a Cons.prems(3) by (simp add: event_of_def)
  show ?case
  proof (cases r)
    case None
    obtain s' tr where st: "Step f (xSnapshot x) ?e = Inr (s', tr)" and s': "xSnapshot x' = s'"
      using applyMachineEvent_None [OF a [unfolded None]] by blast
    have "set (snActive (xSnapshot x')) = set (snActive (xSnapshot x))"
      unfolding s' by (rule Step_started_active [OF _ Cons.prems(2) st])
        (use Cons.prems(1) in \<open>simp_all add: steered_def event_of_def\<close>)
    with Cons a None s show ?thesis by simp
  qed (use Cons a s in \<open>simp add: steered_fail\<close>)
qed simp

lemma activeEffectNodes_active:
  "nodeIdentity ` set (activeEffectNodes f s) \<subseteq> set (snActive s)"
  by (auto simp: activeEffectNodes_def active_effect_def split: option.splits if_splits
      dest!: sym [of "Some _"] flowNode_Some)

lemma steered_report:
  "steered f x \<Longrightarrow> steered f (report_completion f gone c x)"
  using steered_apply [of f x "completion_event gone c"]
  by (auto simp: report_completion_def Let_def completion_event_def event_of_def completion_kind_def
      intro: steered_fail split: prod.splits option.splits)

lemma steered_completed [simp]: "steered f (completed_events f gone c x) = steered f x"
  by (simp add: completed_events_def Let_def)

lemma steered_round_end: "steered f x \<Longrightarrow> steered f (round_end f r x)"
proof -
  have "steered f x \<Longrightarrow> steered f (foldl (\<lambda>x c. apply_completion f (rdGone r) c x) x cs)" for cs
    by (induction cs arbitrary: x) (simp_all add: apply_completion_def Let_def steered_report)
  then show "steered f x \<Longrightarrow> ?thesis" by (simp add: round_end_def)
qed

lemma steered_round_start:
  assumes "steered f x" and "distinct (node_ids f)"
  shows "case round_start f r x of Inl y \<Rightarrow> steered f y | Inr y \<Rightarrow> steered f y"
proof -
  have "steered f (fst (applyMachineEvent f (event_of MachineCancelRequested '''' None m) x))" for m
    by (rule steered_apply [OF assms(1)]) (simp add: event_of_def)
  moreover have "steered f (launch_nodes f g (activeEffectNodes f (xSnapshot x)) x)" for g
    by (rule steered_launch_nodes [OF assms activeEffectNodes_active])
  ultimately show ?thesis using assms(1) by (simp add: round_start_def Let_def steered_fail)
qed

lemma steered_run_rounds:
  "steered f x \<Longrightarrow> distinct (node_ids f) \<Longrightarrow> run_rounds f rs x = Some y \<Longrightarrow> steered f y"
proof (induction rs arbitrary: x)
  case (Cons r rs)
  from steered_round_start [OF Cons.prems(1,2), of r] Cons show ?case
    by (auto split: if_splits sum.splits intro: steered_round_end)
qed (simp split: if_splits)

lemma steered_init:
  assumes "applyMachineEvent f (event_of MachineStart '''' None '''')
      \<lparr>xSnapshot = NewSnapshot f l t, xRunning = [], xEvents = es\<rparr> = (x, None)"
  shows "steered f x"
proof -
  from applyMachineEvent_None [OF assms] obtain s tr
    where st: "Step f (NewSnapshot f l t) (event_of MachineStart '''' None '''') = Inr (s, tr)"
      and x: "xSnapshot x = s" by auto
  have "driven f s" by (rule driven.driven_step [OF driven.driven_new _ st]) (simp add: event_of_def)
  with Step_quiescent [OF st] x show ?thesis by (simp add: steered_def)
qed

section \<open>Termination of the loop\<close>

text \<open>
  What the environment must respect: a round that waits receives at least one completion, and
  only of effects that are running.
\<close>

fun legal_rounds :: "flow \<Rightarrow> round list \<Rightarrow> exec_state \<Rightarrow> bool" where
  "legal_rounds f [] x \<longleftrightarrow> True"
| "legal_rounds f (r # rs) x \<longleftrightarrow>
     (if \<not> loop_goes_on x then True
      else (case round_start f r x of
              Inl y \<Rightarrow> True
            | Inr y \<Rightarrow> rdBatch r \<noteq> [] \<and>
                list_all (\<lambda>c. nodeIdentity (cpNode c) \<in> set (map fst (xRunning y))) (rdBatch r) \<and>
                legal_rounds f rs (round_end f r y)))"

text \<open>The nodes that may still be started, and the effects that are running.\<close>

definition work_left :: "flow \<Rightarrow> exec_state \<Rightarrow> nat" where
  "work_left f x = card (unsettled f (xSnapshot x)) + length (xRunning x)"

lemma work_left_upd [simp]:
  "work_left f (emit e x) = work_left f x" "work_left f (fail_status x) = work_left f x"
  by (simp_all add: work_left_def emit_def fail_status_def unsettled_def state_simps)

lemma unsettled_with_limits [simp]: "unsettled f (with_limits s) = unsettled f s"
  by (simp add: unsettled_def state_simps)

lemma apply_unsettled:
  assumes "applyMachineEvent f e x = (x', r)"
  shows "unsettled f (xSnapshot x') \<subseteq> unsettled f (xSnapshot x)" and "xRunning x' = xRunning x"
proof -
  have "unsettled f (xSnapshot x') \<subseteq> unsettled f (xSnapshot x) \<and> xRunning x' = xRunning x"
  proof (cases r)
    case None
    then obtain s tr where "Step f (xSnapshot x) e = Inr (s, tr)" "xSnapshot x' = s" "xRunning x' = xRunning x"
      using assms applyMachineEvent_None by blast
    then show ?thesis using unsettled_evolved [OF Step_evolved] by simp
  next
    case (Some err)
    then show ?thesis using assms applyMachineEvent_Some [of f e x x' err] by simp
  qed
  then show "unsettled f (xSnapshot x') \<subseteq> unsettled f (xSnapshot x)" and "xRunning x' = xRunning x" by simp_all
qed

lemma length_running_drop: "length (running_drop i rs) \<le> length rs"
  by (simp add: running_drop_def)

lemma running_drop_less: "i \<in> fst ` set rs \<Longrightarrow> length (running_drop i rs) < length rs"
  by (auto simp: running_drop_def intro!: length_filter_less)

lemma work_left_launch:
  "n \<in> set (flowNodes f) \<Longrightarrow>
    applyMachineEvent f (event_of MachineEffectStarted (nodeIdentity n) None '''') x = (x', None) \<Longrightarrow>
    work_left f (launched f n x') \<le> work_left f x"
proof -
  let ?i = "nodeIdentity n"
  assume n: "n \<in> set (flowNodes f)"
    and a: "applyMachineEvent f (event_of MachineEffectStarted ?i None '''') x = (x', None)"
  from applyMachineEvent_None [OF a] obtain s tr
    where st: "Step f (xSnapshot x) (event_of MachineEffectStarted ?i None '''') = Inr (s, tr)"
      and x': "xSnapshot x' = s" "xRunning x' = xRunning x" by blast
  have started: "started ?i (event_of MachineEffectStarted ?i None '''')"
    by (simp add: started_def event_of_def)
  note s = Step_started [OF st started]
  have "?i \<in> unsettled f (xSnapshot x)" using s(1) n by (auto simp: unsettled_def)
  moreover have "?i \<notin> unsettled f s" using s(2) by (auto simp: unsettled_def)
  ultimately have "unsettled f s \<subset> unsettled f (xSnapshot x)"
    using apply_unsettled(1) [OF a] x'(1) by auto
  then have "card (unsettled f s) < card (unsettled f (xSnapshot x))" by (simp add: psubset_card_mono)
  moreover have "length (xRunning (launched f n x')) \<le> Suc (length (xRunning x))"
    using length_running_drop [of ?i "xRunning x"]
    by (simp add: launched_def Let_def emit_def running_put_def x'(2))
  ultimately show ?thesis by (simp add: work_left_def x'(1))
qed

lemma work_left_apply: "applyMachineEvent f e x = (x', r) \<Longrightarrow> work_left f x' \<le> work_left f x"
  using apply_unsettled [of f e x x' r] by (simp add: work_left_def card_mono)

lemma work_left_launch_nodes:
  "set ns \<subseteq> set (flowNodes f) \<Longrightarrow> work_left f (launch_nodes f gone ns x) \<le> work_left f x"
proof (induction ns arbitrary: x)
  case (Cons n ns)
  let ?e = "event_of MachineEffectStarted (nodeIdentity n) None ''''"
  obtain x' r where a: "applyMachineEvent f ?e x = (x', r)" by fastforce
  show ?case
  proof (cases r)
    case None
    have "work_left f (launched f n x') \<le> work_left f x"
      by (rule work_left_launch) (use Cons.prems a None in auto)
    with Cons.IH [of "launched f n x'"] Cons.IH [of x] Cons.prems a None show ?thesis by simp
  next
    case (Some err)
    with Cons work_left_apply [OF a] a show ?thesis by simp
  qed
qed simp

lemma work_left_report: "work_left f (report_completion f gone c x) \<le> work_left f x"
proof -
  obtain x' r where a: "applyMachineEvent f (completion_event gone c) x = (x', r)" by fastforce
  from work_left_apply [OF a] a show ?thesis
    by (simp add: report_completion_def Let_def split: option.splits)
qed

lemma report_running: "xRunning (report_completion f gone c x) = xRunning x"
proof -
  obtain x' r where a: "applyMachineEvent f (completion_event gone c) x = (x', r)" by fastforce
  from apply_unsettled(2) [OF a] a show ?thesis
    by (simp add: report_completion_def Let_def fail_status_def split: option.splits)
qed

lemma completed_running [simp]:
  "xRunning (completed_events f gone c x) = xRunning x" "work_left f (completed_events f gone c x) = work_left f x"
  by (simp_all add: completed_events_def Let_def emit_def work_left_def)

lemma apply_completion_running:
  "xRunning (apply_completion f gone c x) = running_drop (nodeIdentity (cpNode c)) (xRunning x)"
  by (simp add: apply_completion_def Let_def report_running)

lemma work_left_completion:
  "work_left f (apply_completion f gone c x) \<le> work_left f x"
  "nodeIdentity (cpNode c) \<in> fst ` set (xRunning x) \<Longrightarrow> work_left f (apply_completion f gone c x) < work_left f x"
proof -
  let ?i = "nodeIdentity (cpNode c)"
  let ?x = "x\<lparr>xRunning := running_drop ?i (xRunning x)\<rparr>"
  have le: "work_left f (apply_completion f gone c x) \<le> work_left f ?x"
    by (simp add: apply_completion_def Let_def work_left_report)
  show "work_left f (apply_completion f gone c x) \<le> work_left f x"
    using le length_running_drop [of ?i "xRunning x"] by (simp add: work_left_def)
  show "work_left f (apply_completion f gone c x) < work_left f x" if "?i \<in> fst ` set (xRunning x)"
    using le running_drop_less [OF that] by (simp add: work_left_def)
qed

lemma work_left_fold: "work_left f (foldl (\<lambda>x c. apply_completion f gone c x) x cs) \<le> work_left f x"
proof (induction cs arbitrary: x)
  case (Cons c cs)
  from order_trans [OF Cons.IH work_left_completion(1)] show ?case by simp
qed simp

lemma work_left_round_end:
  assumes "rdBatch r \<noteq> []"
    and "list_all (\<lambda>c. nodeIdentity (cpNode c) \<in> set (map fst (xRunning x))) (rdBatch r)"
  shows "work_left f (round_end f r x) < work_left f x"
proof -
  obtain c cs where cs: "sort_key (\<lambda>c. nodeIdentity (cpNode c)) (rdBatch r) = c # cs"
    using assms(1) by (cases "sort_key (\<lambda>c. nodeIdentity (cpNode c)) (rdBatch r)")
      (auto dest: arg_cong [of _ _ length])
  then have "c \<in> set (rdBatch r)" by (metis list.set_intros(1) set_sort)
  with assms(2) have "nodeIdentity (cpNode c) \<in> fst ` set (xRunning x)" by (auto simp: list_all_iff)
  from order_le_less_trans [OF work_left_fold work_left_completion(2) [OF this]] show ?thesis
    by (simp add: round_end_def cs)
qed

lemma activeEffectNodes_nodes: "set (activeEffectNodes f s) \<subseteq> set (flowNodes f)"
  by (auto simp: activeEffectNodes_def active_effect_def split: option.splits if_splits
      dest!: sym [of "Some _"] flowNode_Some)

lemma work_left_round_start: "round_start f r x = Inr y \<Longrightarrow> work_left f y \<le> work_left f x"
  using work_left_launch_nodes [OF activeEffectNodes_nodes [of f "xSnapshot x"], of "rdLaunch r" x]
  by (auto simp: round_start_def Let_def split: if_splits)

lemma run_rounds_ends:
  "legal_rounds f rs x \<Longrightarrow> work_left f x < length rs \<Longrightarrow> run_rounds f rs x \<noteq> None"
proof (induction rs arbitrary: x)
  case (Cons r rs)
  show ?case
  proof (cases "loop_goes_on x \<and> (\<exists>y. round_start f r x = Inr y)")
    case True
    then obtain y where y: "round_start f r x = Inr y" by blast
    with Cons.prems(1) True have l: "rdBatch r \<noteq> []"
      "list_all (\<lambda>c. nodeIdentity (cpNode c) \<in> set (map fst (xRunning y))) (rdBatch r)"
      "legal_rounds f rs (round_end f r y)" by simp_all
    have "work_left f (round_end f r y) < length rs"
      using work_left_round_end [OF l(1,2), of f] work_left_round_start [OF y] Cons.prems(2) by simp
    from Cons.IH [OF l(3) this] y True show ?thesis by simp
  qed (auto split: sum.splits)
qed simp

section \<open>The result\<close>

lemma set_sort_job_keys [simp]: "set (sort_job_keys ks) = set ks"
  by (simp add: sort_job_keys_def)

lemma distinct_sort_job_keys [simp]: "distinct (sort_job_keys ks) = distinct ks"
  by (simp add: sort_job_keys_def)

lemma mset_groups:
  "distinct ks \<Longrightarrow> k ` set xs \<subseteq> set ks \<Longrightarrow>
    mset (concat (map (\<lambda>key. filter (\<lambda>x. k x = key) xs) ks)) = mset xs"
proof (induction ks arbitrary: xs)
  case (Cons key ks)
  have "filter (\<lambda>x. k x = q) (filter (\<lambda>x. k x \<noteq> key) xs) = filter (\<lambda>x. k x = q) xs" if "q \<in> set ks" for q
    using that Cons.prems(1) by (auto intro: filter_cong)
  then have "mset (concat (map (\<lambda>q. filter (\<lambda>x. k x = q) xs) ks)) = mset (filter (\<lambda>x. k x \<noteq> key) xs)"
    using Cons.IH [of "filter (\<lambda>x. k x \<noteq> key) xs"] Cons.prems by (auto cong: map_cong)
  then show ?case using multiset_partition [of "mset xs" "\<lambda>x. k x = key"] by simp
qed simp

lemma job_steps_mset:
  "mset (concat (map jrSteps (rrJobs (machineResult f s st)))) = mset (rrEffects (machineResult f s st))"
proof -
  let ?e = "filter (\<lambda>n. nodeKind n = NodeEffect) (flowNodes f)"
  let ?ks = "sort_job_keys (remdups (map job_key ?e))"
  have "mset (concat (map (\<lambda>key. map (effect_result s) (sort_key nodeEffectRank (filter (\<lambda>n. job_key n = key) ?e))) ks))
      = image_mset (effect_result s) (mset (concat (map (\<lambda>key. filter (\<lambda>n. job_key n = key) ?e) ks)))" for ks
    by (induction ks) simp_all
  also have "mset (concat (map (\<lambda>key. filter (\<lambda>n. job_key n = key) ?e) ?ks)) = mset ?e"
    by (rule mset_groups) auto
  finally show ?thesis by (simp add: machineResult_def Let_def job_group_def comp_def)
qed

lemma job_state_after_eq:
  "job_state_after j s = StateFailed \<longleftrightarrow> j = StateFailed \<or> s = StateFailed \<or> s = StateTimedOut"
  "job_state_after j s = StateSucceeded \<longleftrightarrow>
    j = StateSucceeded \<and> s \<notin> {StateFailed, StateTimedOut, StateBlocked, StateCancelled}"
  by (auto simp: job_state_after_def)

lemma job_state_fold:
  "foldl job_state_after j ss = StateFailed \<longleftrightarrow> j = StateFailed \<or> StateFailed \<in> set ss \<or> StateTimedOut \<in> set ss"
proof (induction ss arbitrary: j)
  case (Cons s ss)
  show ?case by (auto simp: Cons.IH job_state_after_eq)
qed simp

lemma job_state_fold_succeeded:
  "foldl job_state_after j ss = StateSucceeded \<longleftrightarrow>
    j = StateSucceeded \<and> set ss \<inter> {StateFailed, StateTimedOut, StateBlocked, StateCancelled} = {}"
proof (induction ss arbitrary: j)
  case (Cons s ss)
  show ?case by (auto simp: Cons.IH job_state_after_eq)
qed simp

section \<open>Whole runs\<close>

definition legal_run :: "flow \<Rightarrow> round list \<Rightarrow> bool" where
  "legal_run f rounds \<longleftrightarrow>
     legal_rounds f rounds (fst (applyMachineEvent f (event_of MachineStart '''' None '''') (exec_init f)))"

lemma RunFlow_ends:
  assumes "legal_run f rounds" and "length (flowNodes f) < length rounds"
  shows "RunFlow f rounds \<noteq> None"
proof -
  let ?e = "event_of MachineStart '''' None ''''"
  obtain x r where a: "applyMachineEvent f ?e (exec_init f) = (x, r)" by fastforce
  have "work_left f x \<le> work_left f (exec_init f)" by (rule work_left_apply [OF a])
  also have "\<dots> = card (unsettled f (xSnapshot (exec_init f)))" by (simp add: work_left_def exec_init_def)
  also have "\<dots> \<le> card (set (node_ids f))" by (rule card_mono) (auto simp: unsettled_def)
  also have "\<dots> \<le> length (flowNodes f)" using card_length [of "node_ids f"] by simp
  finally have "work_left f x < length rounds" using assms(2) by simp
  with run_rounds_ends [of f rounds x] assms(1) a show ?thesis
    by (auto simp: RunFlow_def legal_run_def Let_def split: option.splits)
qed

lemma RunFlow_deps:
  assumes "RunFlow f rounds = Some (res, evs)" and "rrSnapshot res = Some s"
  shows "deps_first f s"
proof -
  have v: "ValidateFlow f = []" using assms by (auto simp: RunFlow_def split: if_splits)
  note d = valid_nodes(1) [OF v]
  let ?e = "event_of MachineStart '''' None ''''"
  obtain x r where a: "applyMachineEvent f ?e (exec_init f) = (x, r)" by fastforce
  have "driven f s"
  proof (cases r)
    case (Some err)
    then have "s = xSnapshot x" using assms v a by (auto simp: RunFlow_def machineResult_def Let_def)
    moreover have "driven f (xSnapshot x)"
      using a Some driven.driven_reject [OF driven.driven_new]
      by (auto simp: applyMachineEvent_def exec_init_def split: sum.splits)
    ultimately show ?thesis by simp
  next
    case None
    then obtain y where y: "run_rounds f rounds x = Some y" "s = xSnapshot y"
      using assms v a by (auto simp: RunFlow_def machineResult_def Let_def split: option.splits)
    have "steered f x" using steered_init a None by (simp add: exec_init_def)
    from steered_run_rounds [OF this d y(1)] y(2) show ?thesis by (simp add: steered_def)
  qed
  then show ?thesis using d by (rule driven_deps)
qed

end
