(* ===== verification/Count_Correct.thy ===== *)
theory Count_Correct
  imports Workflow_Build
begin

text \<open>
  The expansion budget: the \<open>uint64\<close> total that \<open>plannedIterationCount\<close> keeps, with its overflow
  check, agrees with the sum of the item counts over the whole authored flow as a natural number.
\<close>

section \<open>The reference count\<close>

function total_iterations :: "workflow_flow_node \<Rightarrow> nat" where
  "total_iterations n =
     (if wfKind n = ''forEach'' then length (wfItems n) else 0)
     + sum_list (map total_iterations (nested_nodes n))"
  by pat_completeness auto
termination by (relation "measure size") auto

declare total_iterations.simps [simp del]

text \<open>The length of a Go slice is an \<open>int\<close>, so it is below \<open>2 ^ 63\<close>.\<close>

function slices_fit :: "workflow_flow_node \<Rightarrow> bool" where
  "slices_fit n \<longleftrightarrow> length (wfItems n) < 2 ^ 63 \<and> list_all slices_fit (nested_nodes n)"
  by pat_completeness auto
termination by (relation "measure size") auto

declare slices_fit.simps [simp del]

section \<open>The word total is exact\<close>

definition counts :: "nat \<Rightarrow> iteration_count \<Rightarrow> string + iteration_count \<Rightarrow> bool" where
  "counts k acc r \<longleftrightarrow>
     (case r of Inl _ \<Rightarrow> 2 ^ 64 \<le> unat (fst acc) + k
      | Inr acc' \<Rightarrow> unat (fst acc') = unat (fst acc) + k)"

lemma counts_bind:
  "counts k acc r \<Longrightarrow> (\<And>a. r = Inr a \<Longrightarrow> counts l a (g a)) \<Longrightarrow>
    counts (k + l) acc (case r of Inl e \<Rightarrow> Inl e | Inr a \<Rightarrow> g a)"
  by (fastforce simp: counts_def split: sum.splits)

lemma unat_complement: "unat (- 1 - (x :: 64 word)) = 2 ^ 64 - 1 - unat x"
proof -
  have "unat (- 1 - x) = unat (- 1 :: 64 word) - unat x"
    by (rule unat_sub) simp
  moreover have "unat (- 1 :: 64 word) = 2 ^ 64 - 1" by (simp add: unsigned_minus_1_eq_mask mask_eq_exp_minus_1)
  ultimately show ?thesis by simp
qed

lemma count_items_exact:
  assumes "length (wfItems n) < 2 ^ 63"
  shows "counts (if wfKind n = ''forEach'' then length (wfItems n) else 0) acc (count_items n acc)"
proof -
  let ?c = "word_of_nat (length (wfItems n)) :: 64 word"
  have c: "unat ?c = length (wfItems n)" using assms by (simp add: unat_of_nat)
  show ?thesis
  proof (cases "- 1 - fst acc < ?c")
    case True
    then have "2 ^ 64 - 1 - unat (fst acc) < length (wfItems n)"
      by (simp add: word_less_nat_alt unat_complement c)
    then show ?thesis using True by (auto simp: count_items_def counts_def Let_def)
  next
    case False
    then have "length (wfItems n) \<le> 2 ^ 64 - 1 - unat (fst acc)"
      by (simp add: word_less_nat_alt unat_complement c)
    moreover have "unat (fst acc) < 2 ^ 64" using unsigned_less [of "fst acc"] by simp
    ultimately have "unat (fst acc) + unat ?c < 2 ^ 64" unfolding c by simp
    then have "unat (fst acc + ?c) = unat (fst acc) + length (wfItems n)"
      by (simp add: unat_word_ariths c)
    then show ?thesis using False by (auto simp: count_items_def counts_def Let_def)
  qed
qed

lemma visit_each_exact:
  "(\<And>n a. n \<in> set ns \<Longrightarrow> counts (h n) a (rec n a)) \<Longrightarrow>
    counts (sum_list (map h ns)) acc (visit_each rec ns acc)"
proof (induction ns arbitrary: acc)
  case Nil
  show ?case by (simp add: counts_def)
next
  case (Cons n ns)
  have "counts (h n + sum_list (map h ns)) acc
      (case rec n acc of Inl e \<Rightarrow> Inl e | Inr a \<Rightarrow> visit_each rec ns a)"
    by (rule counts_bind) (use Cons in simp_all)
  then show ?case by simp
qed

lemma visit_count_exact: "slices_fit n \<Longrightarrow> counts (total_iterations n) acc (visit_count n acc)"
proof (induction n arbitrary: acc rule: slices_fit.induct)
  case (1 n)
  from "1.prems" have fit: "length (wfItems n) < 2 ^ 63" "\<And>c. c \<in> set (nested_nodes n) \<Longrightarrow> slices_fit c"
    by (simp_all add: slices_fit.simps [of n] list_all_iff)
  show ?case
    unfolding total_iterations.simps [of n] visit_count.simps [of n]
    by (intro counts_bind count_items_exact fit visit_each_exact "1.IH")
qed

lemma plannedIterationCount_exact:
  assumes "slices_fit n" and "0 \<le> budget" and "budget < 2 ^ 63"
  shows "plannedIterationCount n budget =
      (if int (total_iterations n) \<le> budget then Inr (int (total_iterations n))
       else Inl (projl (plannedIterationCount n budget)))"
proof (cases "visit_count n (0, ''workflow'')")
  case (Inl e)
  with visit_count_exact [OF assms(1), of "(0, ''workflow'')"] have "2 ^ 64 \<le> total_iterations n"
    by (simp add: counts_def)
  then have "(2::int) ^ 64 \<le> int (total_iterations n)" by (metis of_nat_le_iff of_nat_numeral of_nat_power)
  with assms(3) have "\<not> int (total_iterations n) \<le> budget" by simp
  with Inl show ?thesis by (simp add: plannedIterationCount_def)
next
  case (Inr a)
  obtain w l where a: "a = (w, l)" by fastforce
  from Inr visit_count_exact [OF assms(1), of "(0, ''workflow'')"] a have w: "uint w = int (total_iterations n)"
    by (simp add: counts_def uint_nat)
  have "uint (word_of_int budget :: 64 word) = budget" using assms(2,3) by (simp add: uint_word_of_int)
  then have "w > word_of_int budget \<longleftrightarrow> \<not> int (total_iterations n) \<le> budget"
    by (simp add: word_less_def w not_le)
  then show ?thesis by (simp add: plannedIterationCount_def Inr a w)
qed

end
