(* ===== verification/Go_Paths.thy ===== *)
theory Go_Paths
  imports Go_Prelude
begin

text \<open>
  Slash-separated paths as packages \<open>path\<close> and \<open>path/filepath\<close> (on a Unix host) handle them:
  \<open>Clean\<close>, \<open>Join\<close> and \<open>Rel\<close>, on the list of the components of a path; and the functions of package
  \<open>strings\<close> that the path checks use.
\<close>

section \<open>Strings\<close>

fun contains_str :: "string \<Rightarrow> string \<Rightarrow> bool" where
  "contains_str [] sub \<longleftrightarrow> sub = []"
| "contains_str (c # cs) sub \<longleftrightarrow> has_prefix (c # cs) sub \<or> contains_str cs sub"

lemma contains_str_iff: "contains_str s sub \<longleftrightarrow> (\<exists>a b. s = a @ sub @ b)"
proof (induction s)
  case (Cons c cs)
  show ?case
  proof
    assume "contains_str (c # cs) sub"
    then consider b where "c # cs = sub @ b" | a b where "cs = a @ sub @ b"
      using Cons.IH by (auto simp: has_prefix_iff)
    then show "\<exists>a b. c # cs = a @ sub @ b" by cases (metis append_Nil, metis append_Cons)
  next
    assume "\<exists>a b. c # cs = a @ sub @ b"
    then obtain a b where ab: "c # cs = a @ sub @ b" by blast
    show "contains_str (c # cs) sub"
    proof (cases a)
      case Nil
      with ab have "has_prefix (c # cs) sub" by (auto simp: has_prefix_iff)
      then show ?thesis by simp
    next
      case (Cons x xs)
      then have "cs = xs @ sub @ b" using ab by simp
      then show ?thesis using \<open>contains_str cs sub \<longleftrightarrow> (\<exists>a b. cs = a @ sub @ b)\<close> by auto
    qed
  qed
qed simp

text \<open>\<open>strings.Split\<close> on one character; \<open>strings.Join\<close> is its inverse.\<close>

fun split_on :: "char \<Rightarrow> string \<Rightarrow> string list" where
  "split_on d [] = [[]]"
| "split_on d (c # cs) =
     (if c = d then [] # split_on d cs
      else (c # hd (split_on d cs)) # tl (split_on d cs))"

lemma split_on_nonempty [simp]: "split_on d s \<noteq> []"
  by (cases s) simp_all

lemma join_split: "join_strings (split_on d s) [d] = s"
proof (induction s)
  case (Cons c cs)
  obtain x xs where xs: "split_on d cs = x # xs" by (metis list.exhaust split_on_nonempty)
  with Cons show ?case by (cases xs) auto
qed simp

lemma split_on_no_sep: "x \<in> set (split_on d s) \<Longrightarrow> d \<notin> set x"
proof (induction s arbitrary: x)
  case (Cons c cs)
  obtain y ys where "split_on d cs = y # ys" by (metis list.exhaust split_on_nonempty)
  with Cons show ?case by (auto split: if_splits)
qed simp

lemma split_on_plain: "d \<notin> set x \<Longrightarrow> split_on d x = [x]"
  by (induction x) auto

lemma split_on_append: "d \<notin> set x \<Longrightarrow> split_on d (x @ d # s) = x # split_on d s"
  by (induction x) auto

lemma split_join:
  "xs \<noteq> [] \<Longrightarrow> (\<And>x. x \<in> set xs \<Longrightarrow> d \<notin> set x) \<Longrightarrow> split_on d (join_strings xs [d]) = xs"
proof (induction xs rule: induct_list012)
  case (3 x y zs)
  then show ?case by (simp add: split_on_append)
qed (simp_all add: split_on_plain)

lemma split_on_sep: "split_on d (s @ d # t) = split_on d s @ split_on d t"
proof (induction s)
  case (Cons c cs)
  then show ?case by (cases "split_on d cs") auto
qed simp

text \<open>\<open>strings.TrimSpace(s) == ""\<close>: every rune is white space by the Unicode property.\<close>

definition utf8 :: "nat list \<Rightarrow> string" where
  "utf8 bytes = map char_of bytes"

definition is_space_rune :: "string \<Rightarrow> bool" where
  "is_space_rune r \<longleftrightarrow> r \<in> set (map utf8
     ([[9], [10], [11], [12], [13], [32], [194, 133], [194, 160], [225, 154, 128]]
      @ map (\<lambda>k. [226, 128, 128 + k]) [0..<11]
      @ [[226, 128, 168], [226, 128, 169], [226, 128, 175], [226, 129, 159], [227, 128, 128]]))"

definition is_blank :: "string \<Rightarrow> bool" where
  "is_blank s \<longleftrightarrow> list_all is_space_rune (runes s)"

lemma blank_empty [simp]: "is_blank ''''"
  by (simp add: is_blank_def runes.simps)

section \<open>Clean\<close>

text \<open>The components kept so far, the last one first.\<close>

definition clean_step :: "bool \<Rightarrow> string list \<Rightarrow> string \<Rightarrow> string list" where
  "clean_step rooted st c =
     (if c = '''' \<or> c = ''.'' then st
      else if c = ''..'' then
        (case st of [] \<Rightarrow> if rooted then [] else [''..'']
         | x # xs \<Rightarrow> if x = ''..'' then ''..'' # st else xs)
      else c # st)"

definition clean_list :: "bool \<Rightarrow> string list \<Rightarrow> string list" where
  "clean_list rooted cs = rev (foldl (clean_step rooted) [] cs)"

definition is_rooted :: "string \<Rightarrow> bool" where
  "is_rooted p \<longleftrightarrow> has_prefix p ''/''"

text \<open>The components of the cleaned path.\<close>

definition path_components :: "string \<Rightarrow> string list" where
  "path_components p = clean_list (is_rooted p) (split_on (CHR ''/'') p)"

definition path_text :: "bool \<Rightarrow> string list \<Rightarrow> string" where
  "path_text rooted cs =
     (if rooted then ''/'' @ join_strings cs ''/''
      else if cs = [] then ''.'' else join_strings cs ''/'')"

definition path_clean :: "string \<Rightarrow> string" where
  "path_clean p = path_text (is_rooted p) (path_components p)"

text \<open>\<open>Join\<close> cleans the elements that are not empty, joined by slashes.\<close>

definition path_join :: "string list \<Rightarrow> string" where
  "path_join es =
     (case filter (\<lambda>e. e \<noteq> '''') es of [] \<Rightarrow> '''' | xs \<Rightarrow> path_clean (join_strings xs ''/''))"

text \<open>A cleaned list: parent components only in front, none at all when rooted.\<close>

definition plain_name :: "string \<Rightarrow> bool" where
  "plain_name c \<longleftrightarrow> c \<noteq> '''' \<and> c \<noteq> ''.'' \<and> c \<noteq> ''..'' \<and> CHR ''/'' \<notin> set c"

fun clean_form :: "bool \<Rightarrow> string list \<Rightarrow> bool" where
  "clean_form rooted [] \<longleftrightarrow> True"
| "clean_form rooted (c # cs) \<longleftrightarrow>
     (if c = ''..'' then \<not> rooted \<and> clean_form rooted cs else list_all plain_name (c # cs))"

lemma clean_form_plain: "list_all plain_name cs \<Longrightarrow> clean_form r cs"
  by (cases cs) (auto simp: plain_name_def)

lemma clean_form_snoc_plain: "clean_form r cs \<Longrightarrow> plain_name c \<Longrightarrow> clean_form r (cs @ [c])"
  by (induction cs) (auto simp: plain_name_def)

lemma clean_form_butlast: "clean_form r (cs @ [c]) \<Longrightarrow> clean_form r cs"
  by (induction cs) (auto split: if_splits)

lemma clean_form_parents: "clean_form False (cs @ [''..'']) \<Longrightarrow> clean_form False (cs @ [''..'', ''..''])"
  by (induction cs) (auto split: if_splits simp: plain_name_def)

lemma clean_step_form:
  assumes "clean_form r (rev st)" and "CHR ''/'' \<notin> set c"
  shows "clean_form r (rev (clean_step r st c))"
proof (cases "c = ''..''")
  case True
  show ?thesis
  proof (cases st)
    case (Cons x xs)
    have r: "x = ''..'' \<Longrightarrow> \<not> r"
      using assms(1) unfolding Cons by (induction xs rule: rev_induct) (auto split: if_splits simp: plain_name_def)
    show ?thesis
    proof (cases "x = ''..''")
      case x: True
      then show ?thesis using True Cons assms(1) r [OF x] clean_form_parents [of "rev xs"]
        by (simp add: clean_step_def)
    next
      case False
      then show ?thesis using True Cons assms(1) clean_form_butlast [of r "rev xs" x]
        by (simp add: clean_step_def)
    qed
  qed (use True in \<open>simp add: clean_step_def\<close>)
next
  case False
  with assms clean_form_snoc_plain [of r "rev st" c] show ?thesis
    by (simp add: clean_step_def plain_name_def)
qed

lemma clean_fold_form:
  "clean_form r (rev st) \<Longrightarrow> (\<And>c. c \<in> set cs \<Longrightarrow> CHR ''/'' \<notin> set c) \<Longrightarrow>
    clean_form r (rev (foldl (clean_step r) st cs))"
  by (induction cs arbitrary: st) (simp_all add: clean_step_form)

lemma clean_list_form: "(\<And>c. c \<in> set cs \<Longrightarrow> CHR ''/'' \<notin> set c) \<Longrightarrow> clean_form r (clean_list r cs)"
  using clean_fold_form [of r "[]" cs] by (simp add: clean_list_def)

lemma path_components_form: "clean_form (is_rooted p) (path_components p)"
  unfolding path_components_def by (rule clean_list_form) (rule split_on_no_sep)

lemma clean_form_middle:
  "clean_form r (xs @ c # cs) \<Longrightarrow> c \<noteq> ''..'' \<Longrightarrow> plain_name c"
  "clean_form r (xs @ ''..'' # cs) \<Longrightarrow> \<not> r \<and> set xs \<subseteq> {''..''}"
  by (induction xs) (auto split: if_splits simp: plain_name_def)

lemma clean_fold_kept:
  "clean_form r (rev st @ cs) \<Longrightarrow> foldl (clean_step r) st cs = rev cs @ st"
proof (induction cs arbitrary: st)
  case (Cons c cs)
  have "clean_step r st c = c # st"
  proof (cases "c = ''..''")
    case True
    with clean_form_middle(2) [of r "rev st" cs] Cons.prems have "\<not> r" "set st \<subseteq> {''..''}" by simp_all
    with True show ?thesis by (cases st) (simp_all add: clean_step_def)
  next
    case False
    with clean_form_middle(1) [of r "rev st" c cs] Cons.prems have "plain_name c" by simp
    then show ?thesis by (simp add: clean_step_def plain_name_def)
  qed
  with Cons.IH [of "c # st"] Cons.prems show ?case by simp
qed simp

lemma clean_list_kept: "clean_form r cs \<Longrightarrow> clean_list r cs = cs"
  using clean_fold_kept [of r "[]" cs] by (simp add: clean_list_def)

lemma clean_list_append:
  "clean_list r (a @ b) = rev (foldl (clean_step r) (rev (clean_list r a)) b)"
  by (simp add: clean_list_def)

lemma clean_list_skip: "c = '''' \<or> c = ''.'' \<Longrightarrow> clean_list r (c # cs) = clean_list r cs"
  by (auto simp: clean_list_def clean_step_def)

text \<open>A relative list that never climbs above its start cleans the same on top of any other.\<close>

lemma clean_step_below:
  "''..'' \<notin> set (clean_step False s c) \<Longrightarrow>
    ''..'' \<notin> set s \<and> clean_step r (s @ base) c = clean_step False s c @ base"
  by (cases s) (auto simp: clean_step_def split: if_splits)

lemma clean_fold_below:
  "''..'' \<notin> set (foldl (clean_step False) [] b) \<Longrightarrow>
    foldl (clean_step r) base b = foldl (clean_step False) [] b @ base"
proof (induction b rule: rev_induct)
  case (snoc c b)
  from snoc.prems have "''..'' \<notin> set (clean_step False (foldl (clean_step False) [] b) c)" by simp
  from clean_step_below [OF this, of r base] snoc.IH show ?case by simp
qed simp

lemma clean_list_below:
  "''..'' \<notin> set (clean_list False b) \<Longrightarrow> clean_list r (a @ b) = clean_list r a @ clean_list False b"
  using clean_fold_below [of b r "rev (clean_list r a)"] by (simp add: clean_list_append clean_list_def)

section \<open>Cleaned text\<close>

lemma is_rooted_simps [simp]: "is_rooted ''''  = False" "is_rooted (c # cs) = (c = CHR ''/'')"
  by (auto simp: is_rooted_def has_prefix_def)

lemma clean_form_elems: "clean_form r cs \<Longrightarrow> c \<in> set cs \<Longrightarrow> c \<noteq> '''' \<and> c \<noteq> ''.'' \<and> CHR ''/'' \<notin> set c"
  by (induction cs) (auto split: if_splits simp: plain_name_def list_all_iff)

lemma join_strings_Cons: "cs \<noteq> [] \<Longrightarrow> join_strings (c # cs) sep = c @ sep @ join_strings cs sep"
  by (cases cs) simp_all

lemma is_rooted_text: "clean_form r cs \<Longrightarrow> is_rooted (path_text r cs) = r"
proof (cases r)
  case False
  assume cs: "clean_form r cs"
  show ?thesis
  proof (cases cs)
    case (Cons c ds)
    with clean_form_elems [OF cs, of c] obtain x xs where "c = x # xs" "x \<noteq> CHR ''/''" by (cases c) auto
    with Cons False show ?thesis by (cases ds) (simp_all add: path_text_def)
  qed (use False in \<open>simp add: path_text_def\<close>)
qed (simp add: path_text_def)

lemma split_rooted: "split_on d (d # s) = '''' # split_on d s"
  by simp

lemma components_text:
  assumes "clean_form r cs"
  shows "path_components (path_text r cs) = cs"
proof (cases "cs = []")
  case True
  then show ?thesis
    by (cases r) (simp_all add: path_components_def path_text_def clean_list_def clean_step_def)
next
  case False
  have "split_on (CHR ''/'') (join_strings cs ''/'') = cs"
    using clean_form_elems [OF assms] False by (intro split_join) auto
  then have "clean_list r (split_on (CHR ''/'') (path_text r cs)) = cs"
    using clean_list_kept [OF assms] False by (cases r) (simp_all add: path_text_def clean_list_skip)
  then show ?thesis by (simp add: path_components_def is_rooted_text [OF assms])
qed

lemma path_components_clean [simp]: "path_components (path_clean p) = path_components p"
  unfolding path_clean_def by (rule components_text) (rule path_components_form)

lemma is_rooted_clean [simp]: "is_rooted (path_clean p) = is_rooted p"
  unfolding path_clean_def by (rule is_rooted_text) (rule path_components_form)

lemma path_clean_idem: "path_clean (path_clean p) = path_clean p"
  unfolding path_clean_def [of "path_clean p"] is_rooted_clean path_components_clean
  by (simp add: path_clean_def)

lemma path_clean_eq_iff:
  "path_clean p = path_clean q \<longleftrightarrow> is_rooted p = is_rooted q \<and> path_components p = path_components q"
proof
  assume eq: "path_clean p = path_clean q"
  show "is_rooted p = is_rooted q \<and> path_components p = path_components q"
    using arg_cong [OF eq, of is_rooted] arg_cong [OF eq, of path_components] by simp
qed (simp add: path_clean_def)

lemma path_clean_dot: "path_clean p = ''.'' \<longleftrightarrow> \<not> is_rooted p \<and> path_components p = []"
  using path_clean_eq_iff [of p "''.''"]
  by (simp add: path_clean_def path_components_def path_text_def clean_list_def clean_step_def)

section \<open>Join\<close>

lemma is_rooted_append: "a \<noteq> '''' \<Longrightarrow> is_rooted (a @ b) = is_rooted a"
  by (cases a) auto

lemma components_append:
  assumes "a \<noteq> ''''"
  shows "path_components (a @ ''/'' @ b) =
    clean_list (is_rooted a) (split_on (CHR ''/'') a @ split_on (CHR ''/'') b)"
  using assms by (simp add: path_components_def split_on_sep is_rooted_append)

lemma path_join_two:
  "a \<noteq> '''' \<Longrightarrow> b \<noteq> '''' \<Longrightarrow> path_join [a, b] = path_clean (a @ ''/'' @ b)"
  by (simp add: path_join_def)

text \<open>A path that never climbs, joined to a root, stays below it.\<close>

lemma join_below:
  assumes "a \<noteq> ''''" and "b \<noteq> ''''" and "\<not> is_rooted b" and "''..'' \<notin> set (path_components b)"
  shows "path_components (path_join [a, b]) = path_components a @ path_components b"
    and "is_rooted (path_join [a, b]) = is_rooted a"
proof -
  have "path_components (a @ ''/'' @ b) = clean_list (is_rooted a) (split_on (CHR ''/'') a @ split_on (CHR ''/'') b)"
    by (rule components_append [OF assms(1)])
  also have "\<dots> = path_components a @ path_components b"
    using clean_list_below [of "split_on (CHR ''/'') b" "is_rooted a" "split_on (CHR ''/'') a"] assms(3,4)
    by (simp add: path_components_def)
  finally show "path_components (path_join [a, b]) = path_components a @ path_components b"
    by (simp add: path_join_two [OF assms(1,2)])
  show "is_rooted (path_join [a, b]) = is_rooted a"
    by (simp add: path_join_two [OF assms(1,2)] is_rooted_append assms(1))
qed

section \<open>Rel\<close>

fun common_prefix :: "string list \<Rightarrow> string list \<Rightarrow> nat" where
  "common_prefix (x # xs) (y # ys) = (if x = y then Suc (common_prefix xs ys) else 0)"
| "common_prefix _ _ = 0"

definition starts_up :: "string list \<Rightarrow> bool" where
  "starts_up cs \<longleftrightarrow> (case cs of [] \<Rightarrow> False | c # _ \<Rightarrow> c = ''..'')"

definition path_rel :: "string \<Rightarrow> string \<Rightarrow> string option" where
  "path_rel base targ =
     (if path_clean targ = path_clean base then Some ''.''
      else if is_rooted base \<noteq> is_rooted targ then None
      else
        (let bs = path_components base;
             ts = (if path_clean targ = ''.'' then [''.''] else path_components targ);
             k = common_prefix bs ts
         in if starts_up (drop k bs) then None
            else Some (join_strings (replicate (length bs - k) ''..'' @ drop k ts) ''/'')))"

definition path_under :: "string \<Rightarrow> string \<Rightarrow> bool" where
  "path_under base p \<longleftrightarrow> is_rooted p = is_rooted base \<and>
     take (length (path_components base)) (path_components p) = path_components base \<and>
     ''..'' \<notin> set (drop (length (path_components base)) (path_components p))"

lemma common_prefix_take: "take (common_prefix xs ys) ys = take (common_prefix xs ys) xs"
  by (induction xs ys rule: common_prefix.induct) auto

lemma common_prefix_le: "common_prefix xs ys \<le> length xs" "common_prefix xs ys \<le> length ys"
  by (induction xs ys rule: common_prefix.induct) auto

lemma common_prefix_append: "common_prefix xs (xs @ ys) = length xs"
  by (induction xs) auto

lemma join_starts_up:
  "starts_up cs \<Longrightarrow> join_strings cs ''/'' = ''..'' \<or> has_prefix (join_strings cs ''/'') ''../''"
proof (cases cs)
  case (Cons c ds)
  moreover assume "starts_up cs"
  ultimately show ?thesis by (cases ds) (auto simp: starts_up_def has_prefix_def)
qed (simp add: starts_up_def)

text \<open>A relative path that does not start by going up leads below the base.\<close>

lemma path_rel_under:
  assumes "path_rel base targ = Some r" and "r \<noteq> ''..''" and "\<not> has_prefix r ''../''"
  shows "path_under base targ"
proof (cases "path_clean targ = path_clean base")
  case True
  then show ?thesis by (auto simp: path_clean_eq_iff path_under_def)
next
  case False
  define bs where "bs = path_components base"
  define ts where "ts = (if path_clean targ = ''.'' then [''.''] else path_components targ)"
  define k where "k = common_prefix bs ts"
  have root_eq: "is_rooted base = is_rooted targ" using assms(1) False by (simp add: path_rel_def split: if_splits)
  have r: "r = join_strings (replicate (length bs - k) ''..'' @ drop k ts) ''/''"
    using assms(1) False by (simp add: path_rel_def Let_def bs_def ts_def k_def split: if_splits)
  have up: "\<not> starts_up (replicate (length bs - k) ''..'' @ drop k ts)"
    using join_starts_up assms(2,3) r by blast
  then have "length bs - k = 0" by (cases "length bs - k") (simp_all add: starts_up_def)
  then have k: "k = length bs" using common_prefix_le(1) [of bs ts] by (simp add: k_def)
  have pre: "take (length bs) ts = bs"
    using common_prefix_take [of bs ts] by (simp add: k [unfolded k_def])
  have ts: "ts = path_components targ"
  proof (cases "path_clean targ = ''.''")
    case True
    then have "bs \<noteq> []" using False root_eq by (auto simp: bs_def path_clean_eq_iff path_clean_dot)
    then have "bs = [''.'']" using pre True by (cases bs) (auto simp: ts_def)
    then show ?thesis using clean_form_elems [OF path_components_form, of "''.''" base] by (simp add: bs_def)
  qed (simp add: ts_def)
  have "''..'' \<notin> set (drop (length bs) ts)"
  proof (cases "drop (length bs) ts")
    case (Cons c cs)
    then have tsplit: "ts = bs @ c # cs" using pre by (metis append_take_drop_id)
    have c: "c \<noteq> ''..''" using up k Cons by (simp add: starts_up_def)
    have form: "clean_form (is_rooted targ) (bs @ c # cs)"
      using path_components_form [of targ] by (simp add: ts [symmetric] tsplit)
    have "''..'' \<notin> set cs"
    proof
      assume "''..'' \<in> set cs"
      then obtain xs ys where "cs = xs @ ''..'' # ys" by (metis split_list)
      with form have "clean_form (is_rooted targ) ((bs @ c # xs) @ ''..'' # ys)" by simp
      from clean_form_middle(2) [OF this] c show False by simp
    qed
    with c Cons show ?thesis by simp
  qed simp
  with pre root_eq show ?thesis by (simp add: path_under_def ts bs_def)
qed

end
