(* ===== verification/Path_Util.thy ===== *)
theory Path_Util
  imports Go_Paths
begin

text \<open>
  \<open>internal/pathutil\<close>: which paths a manifest may name.  A path that is accepted as a package
  file path or package root stays below whatever root it is joined to.
\<close>

definition IsSafePackageFilePath :: "string \<Rightarrow> bool" where
  "IsSafePackageFilePath p =
     (if is_blank p then False
      else if contains_str p [CHR 0x5C] \<or> contains_str p ''..'' then False
      else if has_prefix p ''/'' then False
      else
        (let clean = path_clean p in
         if clean = ''.'' then False
         else if has_prefix clean ''../'' \<or> clean = ''..'' then False
         else if contains_str clean ''/../'' then False
         else True))"

definition IsSafePackageDependencyPath :: "string \<Rightarrow> bool" where
  "IsSafePackageDependencyPath p =
     (if is_blank p \<or> contains_str p [CHR 0x5C] \<or> has_prefix p ''/'' then False
      else (let clean = path_clean p in clean \<noteq> ''.'' \<and> clean \<noteq> ''''))"

definition IsSafePackageRoot :: "string \<Rightarrow> bool" where
  "IsSafePackageRoot p = (if p = ''.'' then True else IsSafePackageFilePath p)"

definition glob_char :: "char \<Rightarrow> bool" where
  "glob_char c \<longleftrightarrow> c \<in> set ''*?[]''"

definition IsSafeRelativeGlob :: "string \<Rightarrow> bool" where
  "IsSafeRelativeGlob p =
     (if \<not> list_ex glob_char p then False
      else IsSafePackageFilePath (map (\<lambda>c. if glob_char c then CHR ''x'' else c) p))"

section \<open>Components of safe paths\<close>

lemma split_part: "c \<in> set (split_on d s) \<Longrightarrow> contains_str s c"
proof -
  assume "c \<in> set (split_on d s)"
  then obtain xs ys where sp: "split_on d s = xs @ c # ys" by (metis split_list)
  have j: "\<exists>a b. join_strings (xs @ c # ys) [d] = a @ c @ b"
  proof (induction xs)
    case Nil
    show ?case by (cases ys) (auto intro: exI [of _ "[]"])
  next
    case (Cons x xs)
    then obtain a b where "join_strings (xs @ c # ys) [d] = a @ c @ b" by blast
    then have "join_strings ((x # xs) @ c # ys) [d] = (x @ [d] @ a) @ c @ b"
      by (simp add: join_strings_Cons)
    then show ?case by blast
  qed
  then show ?thesis unfolding contains_str_iff using join_split [of d s] sp by metis
qed

lemma clean_fold_parts:
  "set (foldl (clean_step r) st cs) \<subseteq> set st \<union> set cs"
proof (induction cs arbitrary: st)
  case (Cons c cs)
  have "set (clean_step r st c) \<subseteq> insert c (set st)"
    by (cases st) (auto simp: clean_step_def)
  with Cons.IH [of "clean_step r st c"] show ?case by auto
qed simp

lemma components_parts: "c \<in> set (path_components p) \<Longrightarrow> contains_str p c"
  using clean_fold_parts [of "is_rooted p" "[]" "split_on (CHR ''/'') p"]
  by (auto simp: path_components_def clean_list_def intro: split_part)

lemma no_climb: "\<not> contains_str p ''..'' \<Longrightarrow> ''..'' \<notin> set (path_components p)"
  using components_parts by blast

lemma clean_prefix_up:
  "\<not> is_rooted p \<Longrightarrow> path_clean p = ''..'' \<or> has_prefix (path_clean p) ''../'' \<Longrightarrow> ''..'' \<in> set (path_components p)"
proof -
  assume r: "\<not> is_rooted p" and up: "path_clean p = ''..'' \<or> has_prefix (path_clean p) ''../''"
  have "\<exists>t. path_clean p = ''..'' @ t \<and> (t = '''' \<or> (\<exists>u. t = ''/'' @ u))"
    using up by (auto simp: has_prefix_iff)
  then obtain t where t: "path_clean p = ''..'' @ t" "t = '''' \<or> (\<exists>u. t = ''/'' @ u)" by blast
  then have "''..'' \<in> set (split_on (CHR ''/'') (path_clean p))" by auto
  then have "''..'' \<in> set (path_components p)" if "path_components p \<noteq> []"
    using that r clean_form_elems [OF path_components_form [of p]]
      split_join [of "path_components p" "CHR ''/''"]
    by (simp add: path_clean_def path_text_def)
  moreover have "path_components p \<noteq> []" using t r by (auto simp: path_clean_def path_text_def)
  ultimately show ?thesis by blast
qed

text \<open>
  The checks on the cleaned path beyond the first are implied: the path is safe exactly when it
  is not blank, has no backslash, no two dots in a row, does not start at the root and names
  something.
\<close>

lemma split_contains:
  "contains_str s (d # c @ [d]) \<Longrightarrow> d \<notin> set c \<Longrightarrow> c \<in> set (split_on d s)"
proof -
  assume "contains_str s (d # c @ [d])" and c: "d \<notin> set c"
  then obtain a b where "s = a @ d # c @ d # b" by (auto simp: contains_str_iff)
  then show ?thesis using c by (simp add: split_on_sep split_on_plain)
qed

lemma contains_clean_up:
  assumes "\<not> is_rooted p" and "contains_str (path_clean p) ''/../''"
  shows "''..'' \<in> set (path_components p)"
proof -
  have in_split: "''..'' \<in> set (split_on (CHR ''/'') (path_clean p))"
    using split_contains [of "path_clean p" "CHR ''/''" "''..''"] assms(2) by simp
  have "path_components p \<noteq> []"
    using in_split assms(1) by (auto simp: path_clean_def path_text_def)
  then show ?thesis
    using in_split assms(1) clean_form_elems [OF path_components_form [of p]]
      split_join [of "path_components p" "CHR ''/''"]
    by (simp add: path_clean_def path_text_def)
qed

lemma safe_file_path_iff:
  "IsSafePackageFilePath p \<longleftrightarrow>
     \<not> is_blank p \<and> \<not> contains_str p [CHR 0x5C] \<and> \<not> contains_str p ''..'' \<and>
     \<not> is_rooted p \<and> path_components p \<noteq> []"
proof -
  have "\<not> (has_prefix (path_clean p) ''../'' \<or> path_clean p = ''..'')"
    and "\<not> contains_str (path_clean p) ''/../''"
    if "\<not> contains_str p ''..''" "\<not> is_rooted p"
    using no_climb [OF that(1)] clean_prefix_up [OF that(2)] contains_clean_up [OF that(2)] by blast+
  then show ?thesis
    by (auto simp: IsSafePackageFilePath_def Let_def path_clean_dot is_rooted_def [symmetric])
qed

lemma safe_file_path_below:
  assumes "IsSafePackageFilePath p" and "base \<noteq> ''''"
  shows "path_components (path_join [base, p]) = path_components base @ path_components p"
    and "is_rooted (path_join [base, p]) = is_rooted base"
    and "path_components p \<noteq> []" and "list_all plain_name (path_components p)"
proof -
  from assms(1) have p: "\<not> contains_str p ''..''" "\<not> is_rooted p" "path_components p \<noteq> []" "p \<noteq> ''''"
    by (auto simp: safe_file_path_iff)
  note up = no_climb [OF p(1)]
  show "path_components (path_join [base, p]) = path_components base @ path_components p"
    and "is_rooted (path_join [base, p]) = is_rooted base"
    by (rule join_below [OF assms(2) p(4,2) up])+
  show "path_components p \<noteq> []" by (rule p(3))
  show "list_all plain_name (path_components p)"
    using path_components_form [of p] up p(3) by (cases "path_components p") (auto simp: p(2))
qed

lemma safe_root_below:
  assumes "IsSafePackageRoot p" and "base \<noteq> ''''"
  shows "path_under base (path_join [base, p])"
proof (cases "p = ''.''")
  case True
  have "path_components (path_join [base, p]) = path_components base @ path_components ''.''"
    and "is_rooted (path_join [base, p]) = is_rooted base"
    unfolding True by (rule join_below [OF assms(2)]; simp add: path_components_def clean_list_def clean_step_def)+
  then show ?thesis by (simp add: path_under_def path_components_def [of "''.''"] clean_list_def clean_step_def)
next
  case False
  with assms(1) have s: "IsSafePackageFilePath p" by (simp add: IsSafePackageRoot_def)
  from safe_file_path_below(1,2,4) [OF this assms(2)] show ?thesis
    by (auto simp: path_under_def list_all_iff plain_name_def)
qed

text \<open>A glob is safe when the text with its wild cards replaced is; it has no parent segment either.\<close>

lemma safe_glob_plain: "IsSafeRelativeGlob p \<Longrightarrow> \<not> contains_str p ''..''"
proof
  let ?r = "\<lambda>c. if glob_char c then CHR ''x'' else c"
  assume s: "IsSafeRelativeGlob p" and "contains_str p ''..''"
  then obtain a b where "p = a @ ''..'' @ b" by (auto simp: contains_str_iff)
  then have "map ?r p = map ?r a @ ''..'' @ map ?r b" by (simp add: glob_char_def)
  then have "contains_str (map ?r p) ''..''" by (auto simp: contains_str_iff)
  with s show False by (simp add: IsSafeRelativeGlob_def safe_file_path_iff split: if_splits)
qed

end
