(* ===== verification/Cycle_Search.thy ===== *)
theory Cycle_Search
  imports Graph_Search
begin

text \<open>
  The depth-first search for a dependency cycle that reports the cycle: it keeps the stack of
  the nodes it is inside of, in the order they were entered.  Without the report it is
  \<open>visit_cycle\<close>, so it finds a cycle exactly when there is one; what it reports is a closed walk
  along the edges.
\<close>

fun stack_cycle :: "('a \<Rightarrow> 'a list) \<Rightarrow> nat \<Rightarrow> 'a list \<Rightarrow> 'a list \<Rightarrow> 'a set \<Rightarrow> ('a list + 'a set) option" where
  "stack_cycle adj fuel [] st closed = Some (Inr closed)"
| "stack_cycle adj 0 (i # is) st closed = None"
| "stack_cycle adj (Suc fuel) (i # is) st closed =
     (if i \<in> set st then Some (Inl (dropWhile (\<lambda>x. x \<noteq> i) st @ [i]))
      else if i \<in> closed then stack_cycle adj (Suc fuel) is st closed
      else (case stack_cycle adj fuel (adj i) (st @ [i]) closed of
              None \<Rightarrow> None
            | Some (Inl c) \<Rightarrow> Some (Inl c)
            | Some (Inr closed') \<Rightarrow> stack_cycle adj (Suc fuel) is st (insert i closed')))"

fun walk :: "('a \<Rightarrow> 'a list) \<Rightarrow> 'a list \<Rightarrow> bool" where
  "walk adj (x # y # zs) \<longleftrightarrow> y \<in> set (adj x) \<and> walk adj (y # zs)"
| "walk adj _ \<longleftrightarrow> True"

definition closed_walk :: "('a \<Rightarrow> 'a list) \<Rightarrow> 'a list \<Rightarrow> bool" where
  "closed_walk adj c \<longleftrightarrow> 1 < length c \<and> hd c = last c \<and> walk adj c"

lemma stack_cycle_erased:
  "map_option (case_sum (\<lambda>_. None) Some) (stack_cycle adj fuel is st closed) = visit_cycle adj fuel is (set st) closed"
proof (induction adj fuel "is" st closed rule: stack_cycle.induct)
  case (3 adj fuel i "is" st closed)
  show ?case
  proof (cases "i \<in> set st \<or> i \<in> closed")
    case True
    then show ?thesis using 3 by auto
  next
    case False
    then have n: "i \<notin> set st" "i \<notin> closed" by auto
    with "3.IH"(2) have inner: "visit_cycle adj fuel (adj i) (insert i (set st)) closed =
        map_option (case_sum (\<lambda>_. None) Some) (stack_cycle adj fuel (adj i) (st @ [i]) closed)" by simp
    show ?thesis
      using n "3.IH"(3) [OF n] by (auto simp: inner split: option.splits sum.splits)
  qed
qed simp_all

lemma walk_snoc: "walk adj (st @ [i]) \<longleftrightarrow> walk adj st \<and> (st \<noteq> [] \<longrightarrow> i \<in> set (adj (last st)))"
  by (induction adj st rule: walk.induct) auto

lemma walk_dropWhile: "walk adj st \<Longrightarrow> walk adj (dropWhile p st)"
proof (induction st)
  case (Cons x xs)
  then show ?case by (cases xs) auto
qed simp

lemma stack_cycle_walk:
  "stack_cycle adj fuel is st closed = Some (Inl c) \<Longrightarrow> walk adj st \<Longrightarrow>
    (st \<noteq> [] \<Longrightarrow> set is \<subseteq> set (adj (last st))) \<Longrightarrow> closed_walk adj c"
proof (induction adj fuel "is" st closed rule: stack_cycle.induct)
  case (3 adj fuel i "is" st closed)
  show ?case
  proof (cases "i \<in> set st")
    case True
    let ?d = "dropWhile (\<lambda>x. x \<noteq> i) st"
    have d: "?d \<noteq> []" "hd ?d = i" using True hd_dropWhile [of "\<lambda>x. x \<noteq> i" st] by auto
    have "last ?d = last st"
      using d(1) last_append [of "takeWhile (\<lambda>x. x \<noteq> i) st" ?d] by (simp only: takeWhile_dropWhile_id if_False)
    moreover have "i \<in> set (adj (last st))"
      using "3.prems"(3) True by (cases "st = []") auto
    ultimately have "walk adj (?d @ [i])"
      using walk_dropWhile [OF "3.prems"(2)] by (simp add: walk_snoc)
    moreover have "c = ?d @ [i]" using "3.prems"(1) True by simp
    ultimately show ?thesis using d by (auto simp: closed_walk_def neq_Nil_conv hd_append)
  next
    case np: False
    show ?thesis
    proof (cases "i \<in> closed")
      case True
      with 3 np show ?thesis by auto
    next
      case False
      from "3.prems"(1) np False consider
          (inner) "stack_cycle adj fuel (adj i) (st @ [i]) closed = Some (Inl c)"
        | (later) c1 where "stack_cycle adj fuel (adj i) (st @ [i]) closed = Some (Inr c1)"
            "stack_cycle adj (Suc fuel) is st (insert i c1) = Some (Inl c)"
        by (auto split: option.splits sum.splits)
      then show ?thesis
      proof cases
        case inner
        have "walk adj (st @ [i])" using "3.prems"(2,3) by (simp add: walk_snoc)
        with "3.IH"(2) [OF np False inner] show ?thesis by simp
      next
        case later
        from "3.IH"(3) [OF np False later(1) refl later(2)] "3.prems"(2,3) show ?thesis by auto
      qed
    qed
  qed
qed simp_all

text \<open>A closed walk is a cycle of the edge relation, and the other way round.\<close>

lemma walk_rtrancl: "walk adj (x # xs) \<Longrightarrow> y \<in> set (x # xs) \<Longrightarrow> (x, y) \<in> (edges adj)\<^sup>*"
proof (induction xs arbitrary: x)
  case (Cons z zs)
  then show ?case by (auto intro: converse_rtrancl_into_rtrancl)
qed simp

lemma closed_walk_cycle: "closed_walk adj c \<Longrightarrow> (hd c, hd c) \<in> (edges adj)\<^sup>+"
proof -
  assume c: "closed_walk adj c"
  then obtain x y ys where cs: "c = x # y # ys"
    by (cases c; cases "tl c") (auto simp: closed_walk_def)
  with c have "(x, y) \<in> edges adj" "walk adj (y # ys)" "x \<in> set (y # ys)"
    by (auto simp: closed_walk_def split: if_splits)
  with walk_rtrancl [of adj y ys x] show ?thesis by (auto simp: cs intro: rtrancl_into_trancl2)
qed

lemma visit_all_exact:
  assumes "visit_cycle adj fuel is {} {} = Some r"
  shows "r = None \<longleftrightarrow> (\<exists>i \<in> set is. \<exists>x. (i, x) \<in> (edges adj)\<^sup>* \<and> (x, x) \<in> (edges adj)\<^sup>+)"
proof (cases r)
  case None
  with visit_finds_cycle [of adj fuel "is" "{}" "{}"] assms show ?thesis by auto
next
  case (Some closed)
  then have "set is \<subseteq> closed" "finished_nodes adj closed"
    using visit_no_cycle [of adj fuel "is" "{}" "{}" closed] assms
    by (auto simp: finished_nodes_def)
  then have "\<not> (\<exists>i \<in> set is. \<exists>x. (i, x) \<in> (edges adj)\<^sup>* \<and> (x, x) \<in> (edges adj)\<^sup>+)"
    by (meson finished_nodes_def finished_stays subsetD)
  with Some show ?thesis by simp
qed

context finite_graph
begin

lemma stack_cycle_decides:
  assumes "set is \<subseteq> U" and "card U < fuel"
  shows "case stack_cycle adj fuel is [] {} of
      None \<Rightarrow> False
    | Some (Inl c) \<Rightarrow> closed_walk adj c
    | Some (Inr _) \<Rightarrow> \<not> (\<exists>i \<in> set is. \<exists>x. (i, x) \<in> (edges adj)\<^sup>* \<and> (x, x) \<in> (edges adj)\<^sup>+)"
proof -
  obtain r where r: "visit_cycle adj fuel is {} {} = Some r"
    using visit_enough [of adj "is" "{}" fuel "{}"] assms by auto
  have "map_option (case_sum (\<lambda>_. None) Some) (stack_cycle adj fuel is [] {}) = Some r"
    using stack_cycle_erased [of adj fuel "is" "[]" "{}"] r by simp
  then obtain q where q: "stack_cycle adj fuel is [] {} = Some q" "r = case_sum (\<lambda>_. None) Some q"
    by (cases "stack_cycle adj fuel is [] {}") simp_all
  show ?thesis
  proof (cases q)
    case (Inl c)
    with q stack_cycle_walk [of adj fuel "is" "[]" "{}" c] show ?thesis by simp
  next
    case (Inr closed)
    with q visit_all_exact [OF r] show ?thesis by simp
  qed
qed

end

end
