(* ===== verification/Manifest_Workflow.thy ===== *)
theory Manifest_Workflow
  imports Manifest_IR Path_Util Cycle_Search
begin

text \<open>
  The checks on the workflow declarations of a manifest,
  \<open>internal/manifest/workflow_validation.go\<close>.  Every function returns the diagnostics it adds, in
  the order it adds them, as pairs of code and message.  A Go map that only remembers what was
  seen becomes the list of the earlier elements.
\<close>

section \<open>Diagnostics\<close>

type_synonym finding = "string \<times> string"

definition check :: "bool \<Rightarrow> string \<Rightarrow> string \<Rightarrow> finding list" where
  "check bad code msg = (if bad then [(code, msg)] else [])"

lemma check_Nil [simp]: "check bad code msg = [] \<longleftrightarrow> \<not> bad"
  by (simp add: check_def)

lemma check_False [simp]: "check False code msg = []"
  by (simp add: check_def)

text \<open>A loop with an index over a slice; a loop that also knows the earlier elements.\<close>

definition each_indexed :: "(nat \<Rightarrow> 'a \<Rightarrow> 'b list) \<Rightarrow> 'a list \<Rightarrow> 'b list" where
  "each_indexed f xs = concat (map (\<lambda>(i, x). f i x) (enumerate 0 xs))"

lemma each_indexed_Nil: "each_indexed f xs = [] \<longleftrightarrow> (\<forall>i < length xs. f i (xs ! i) = [])"
proof
  assume nil: "each_indexed f xs = []"
  show "\<forall>i < length xs. f i (xs ! i) = []"
  proof (intro allI impI)
    fix i assume "i < length xs"
    then have "(i, xs ! i) \<in> set (enumerate 0 xs)" by (simp add: in_set_enumerate_eq)
    with nil show "f i (xs ! i) = []" by (fastforce simp: each_indexed_def)
  qed
qed (auto simp: each_indexed_def in_set_enumerate_eq)

lemma each_indexed_all: "each_indexed f xs = [] \<Longrightarrow> x \<in> set xs \<Longrightarrow> \<exists>i. f i x = []"
  by (auto simp: each_indexed_Nil in_set_conv_nth)

lemma each_indexed_cong [fundef_cong]:
  "xs = ys \<Longrightarrow> (\<And>i x. x \<in> set ys \<Longrightarrow> f i x = g i x) \<Longrightarrow> each_indexed f xs = each_indexed g ys"
  by (auto simp: each_indexed_def in_set_enumerate_eq intro!: arg_cong [of _ _ concat])

lemma each_indexed_distinct:
  assumes "each_indexed f xs = []" and "\<And>i. f i (xs ! i) = [] \<Longrightarrow> k (xs ! i) \<notin> set (map k (take i xs))"
  shows "distinct (map k xs)"
proof -
  have "k (xs ! i) \<noteq> k (xs ! j)" if "j < i" "i < length xs" for i j
  proof -
    have "xs ! j \<in> set (take i xs)" using that by (auto simp: in_set_conv_nth intro!: exI [of _ j])
    then show ?thesis using assms(2) [of i] assms(1) that by (auto simp: each_indexed_Nil)
  qed
  then show ?thesis by (auto simp: distinct_conv_nth) (metis nat_neq_iff)
qed

definition indexed :: "string \<Rightarrow> nat \<Rightarrow> string" where
  "indexed path i = path @ ''['' @ nat_string i @ '']''"

section \<open>Names\<close>

definition is_letter :: "char \<Rightarrow> bool" where
  "is_letter c \<longleftrightarrow> byte_in 65 90 c \<or> byte_in 97 122 c"

text \<open>The patterns \<open>^[A-Za-z][A-Za-z0-9_-]*$\<close> and \<open>^[A-Za-z_][A-Za-z0-9_]*$\<close>.\<close>

definition workflow_identity :: "string \<Rightarrow> bool" where
  "workflow_identity s \<longleftrightarrow>
     (case s of [] \<Rightarrow> False
      | c # cs \<Rightarrow> is_letter c \<and> list_all (\<lambda>d. is_letter d \<or> is_digit d \<or> d = CHR ''_'' \<or> d = CHR ''-'') cs)"

definition env_name :: "string \<Rightarrow> bool" where
  "env_name s \<longleftrightarrow>
     (case s of [] \<Rightarrow> False
      | c # cs \<Rightarrow> (is_letter c \<or> c = CHR ''_'') \<and> list_all (\<lambda>d. is_letter d \<or> is_digit d \<or> d = CHR ''_'') cs)"

definition workflow_platform :: "string \<Rightarrow> bool" where
  "workflow_platform p \<longleftrightarrow> p \<in> {''linux'', ''windows'', ''macos'', ''currentHost''}"

text \<open>
  \<open>strings.ToUpper\<close>: bytes that are no UTF-8 become the replacement rune; \<open>uni\<close> maps a rune
  beyond ASCII to its upper case.
\<close>

definition upper_rune :: "(string \<Rightarrow> string) \<Rightarrow> string \<Rightarrow> string" where
  "upper_rune uni r =
     (case r of
        [c] \<Rightarrow> if of_char c < (128::nat)
               then [if byte_in 97 122 c then char_of (of_char c - 32 :: nat) else c]
               else utf8 [239, 191, 189]
      | _ \<Rightarrow> uni r)"

definition go_upper :: "(string \<Rightarrow> string) \<Rightarrow> string \<Rightarrow> string" where
  "go_upper uni s = concat (map (upper_rune uni) (runes s))"

section \<open>Values and predicates\<close>

definition validateWorkflowValueRef :: "string \<Rightarrow> workflow_value_ref \<Rightarrow> finding list" where
  "validateWorkflowValueRef path v =
     check (wvrIdentity v = '''' \<or> wvrSource v = '''' \<or> wvrResultType v = '''')
       ''TSPACK_WORKFLOW_VALUE_INVALID'' (path @ '' must contain deterministic identity, source, and result type'')
     @ check (wvrCategory v \<notin> {''control'', ''smallSerialized'', ''artifactReference'', ''regionLocal'', ''placement''})
       ''TSPACK_WORKFLOW_VALUE_CATEGORY_INVALID'' (path @ '' has unknown category '' @ wvrCategory v)"

definition validateWorkflowIterationValue :: "string \<Rightarrow> workflow_iteration_value \<Rightarrow> finding list" where
  "validateWorkflowIterationValue path v =
     (if wivKind v = ''string'' then
        check (wivNumber v \<noteq> None \<or> wivBoolean v \<noteq> None)
          ''TSPACK_WORKFLOW_FOREACH_VALUE_INVALID'' (path @ '' string value has conflicting scalar fields'')
      else if wivKind v = ''platform'' then
        check (\<not> workflow_platform (wivString v))
          ''TSPACK_WORKFLOW_PLATFORM_INVALID'' (path @ '' has invalid platform '' @ wivString v)
      else if wivKind v = ''number'' then
        check (wivNumber v = None \<or> wivBoolean v \<noteq> None \<or> wivString v \<noteq> '''')
          ''TSPACK_WORKFLOW_FOREACH_VALUE_INVALID'' (path @ '' must contain exactly one number'')
      else if wivKind v = ''boolean'' then
        check (wivBoolean v = None \<or> wivNumber v \<noteq> None \<or> wivString v \<noteq> '''')
          ''TSPACK_WORKFLOW_FOREACH_VALUE_INVALID'' (path @ '' must contain exactly one boolean'')
      else if wivKind v = ''aggregateElement'' then
        (case wivSource v of
           None \<Rightarrow> [(''TSPACK_WORKFLOW_FOREACH_VALUE_INVALID'', path @ '' aggregate element requires exactly one source reference'')]
         | Some source \<Rightarrow>
             if wivString v \<noteq> '''' \<or> wivNumber v \<noteq> None \<or> wivBoolean v \<noteq> None
             then [(''TSPACK_WORKFLOW_FOREACH_VALUE_INVALID'', path @ '' aggregate element requires exactly one source reference'')]
             else validateWorkflowValueRef (path @ ''.source'') source
               @ check (wvrAggregate source = '''' \<or> (case wvrIndex source of None \<Rightarrow> True | Some i \<Rightarrow> i < 0))
                   ''TSPACK_WORKFLOW_AGGREGATE_ELEMENT_INVALID'' (path @ '' aggregate element requires aggregate identity and bounded index''))
      else [(''TSPACK_WORKFLOW_FOREACH_VALUE_INVALID'', path @ '' has unknown finite scalar kind '' @ wivKind v)])"

text \<open>What is said of one predicate, and whether its children are looked at.\<close>

definition predicate_head :: "string \<Rightarrow> workflow_predicate \<Rightarrow> finding list \<times> bool" where
  "predicate_head path p =
     (let invalid = (\<lambda>msg. (''TSPACK_WORKFLOW_PREDICATE_INVALID'', path @ msg)) in
      if wpKind p = ''greaterThan'' \<or> wpKind p = ''lessThan'' then
        (case wpInput p of
           None \<Rightarrow> ([invalid '' numeric comparison requires one input and number''], False)
         | Some input \<Rightarrow>
             if wpNumber p = None \<or> wpChildren p \<noteq> []
             then ([invalid '' numeric comparison requires one input and number''], False)
             else (validateWorkflowValueRef (path @ ''.input'') input
               @ check (wvrCategory input \<noteq> ''control'') ''TSPACK_WORKFLOW_PREDICATE_TYPE_INVALID''
                   (path @ '' numeric comparison requires a control value''), True))
      else if wpKind p = ''notEmpty'' \<or> wpKind p = ''isEmpty'' then
        (case wpInput p of
           None \<Rightarrow> ([invalid '' collection predicate requires one input''], False)
         | Some input \<Rightarrow>
             if wpChildren p \<noteq> []
             then ([invalid '' collection predicate requires one input''], False)
             else (validateWorkflowValueRef (path @ ''.input'') input
               @ check (wvrCategory input \<noteq> ''artifactReference'' \<and> wvrCategory input \<noteq> ''smallSerialized'')
                   ''TSPACK_WORKFLOW_PREDICATE_TYPE_INVALID''
                   (path @ '' collection predicate requires safe collection metadata''), True))
      else if wpKind p = ''and'' \<or> wpKind p = ''or'' then
        ((if length (wpChildren p) < 2 \<or> length (wpChildren p) > 8
          then [invalid '' boolean composition requires 2..8 children''] else []), True)
      else if wpKind p = ''not'' then
        ((if length (wpChildren p) \<noteq> 1 then [invalid '' Not requires one child''] else []), True)
      else ([invalid ('' has unknown predicate kind '' @ wpKind p)], True))"

function validateWorkflowPredicate :: "string \<Rightarrow> workflow_predicate \<Rightarrow> nat \<Rightarrow> finding list" where
  "validateWorkflowPredicate path p depth =
     (if depth > 8 then [(''TSPACK_WORKFLOW_PREDICATE_LIMIT_EXCEEDED'', path @ '' exceeds depth 8'')]
      else
        (let (diags, go_on) = predicate_head path p in
         if go_on
         then diags @ each_indexed (\<lambda>i c. validateWorkflowPredicate (indexed (path @ ''.children'') i) c (depth + 1))
                        (wpChildren p)
         else diags))"
  by pat_completeness auto
termination by (relation "measure (\<lambda>(path, p, depth). size p)") auto

declare validateWorkflowPredicate.simps [simp del]

section \<open>Environments\<close>

definition env_entry_diags :: "(string \<Rightarrow> string) \<Rightarrow> string \<Rightarrow> workflow_environment list \<Rightarrow> nat \<Rightarrow> workflow_environment \<Rightarrow> finding list" where
  "env_entry_diags uni path env i entry =
     (let here = indexed path i; v = weValue entry in
      check (\<not> env_name (weName entry)) ''TSPACK_WORKFLOW_ENV_INVALID'' (here @ ''.name is invalid'')
      @ check (go_upper uni (weName entry) \<in> set (map (\<lambda>e. go_upper uni (weName e)) (take i env)))
          ''TSPACK_WORKFLOW_ENV_DUPLICATE'' (path @ '' contains duplicate environment name '' @ weName entry)
      @ (if wvKind v = ''plain'' then
           check (wvName v \<noteq> '''') ''TSPACK_WORKFLOW_ENV_VALUE_INVALID'' (here @ '' plain value cannot name a secret'')
         else if wvKind v = ''secret'' then
           check (\<not> env_name (wvName v) \<or> wvValue v \<noteq> '''') ''TSPACK_WORKFLOW_SECRET_REFERENCE_INVALID''
             (here @ '' secret value must contain only a valid secret identity'')
         else [(''TSPACK_WORKFLOW_ENV_VALUE_INVALID'', here @ ''.value.kind must be plain or secret'')]))"

definition validateWorkflowEnvironment :: "(string \<Rightarrow> string) \<Rightarrow> string \<Rightarrow> workflow_environment list \<Rightarrow> finding list" where
  "validateWorkflowEnvironment uni path env = each_indexed (env_entry_diags uni path env) env"

section \<open>Steps\<close>

definition containsWorkflowCapability :: "string list \<Rightarrow> string \<Rightarrow> bool" where
  "containsWorkflowCapability capabilities requested \<longleftrightarrow> list_ex (\<lambda>c. c = requested) capabilities"

definition native_operation :: "string \<Rightarrow> bool" where
  "native_operation op \<longleftrightarrow> op \<in> {''sync'', ''check'', ''build'', ''test'', ''pack'', ''audit'', ''transfer''}"

definition external_operation :: "string \<Rightarrow> bool" where
  "external_operation op \<longleftrightarrow> op \<in> {''process'', ''shellScript''}"

definition native_step_diags :: "string \<Rightarrow> workflow_step \<Rightarrow> finding list" where
  "native_step_diags path s =
     (let op = wsOperation s in
      check (wsCommand s \<noteq> [] \<or> wsScript s \<noteq> '''' \<or> wsCwd s \<noteq> '''' \<or> wsEnv s \<noteq> [] \<or> wsCapabilities s \<noteq> [])
        ''TSPACK_WORKFLOW_NATIVE_STEP_INVALID'' (path @ '' native operations cannot contain process, shell, cwd, environment, or capability fields'')
      @ check (op \<noteq> ''pack'' \<and> op \<noteq> ''build'' \<and> op \<noteq> ''test'' \<and> wsPackages s \<noteq> [])
        ''TSPACK_WORKFLOW_TARGETING_UNSUPPORTED'' (path @ '' package targeting is not supported by this operation'')
      @ check (op \<noteq> ''build'' \<and> wsTargets s \<noteq> [])
        ''TSPACK_WORKFLOW_TARGETING_UNSUPPORTED'' (path @ '' target selection is supported only by Build'')
      @ check (op \<noteq> ''test'' \<and> wsTarget s \<noteq> '''')
        ''TSPACK_WORKFLOW_TARGETING_UNSUPPORTED'' (path @ '' singular target selection is supported only by Test'')
      @ (if op = ''test'' then
           check (wsTarget s = '''' \<and> wsPackages s \<noteq> [])
             ''TSPACK_WORKFLOW_TEST_TARGET_REQUIRED'' (path @ '' package-selected Test effects must declare a target'')
           @ check (wsTarget s \<noteq> '''' \<and> length (wsPackages s) \<noteq> 1)
             ''TSPACK_WORKFLOW_TEST_PACKAGE_REQUIRED'' (path @ '' target-selected Test effects must declare exactly one package'')
         else [])
      @ check (op \<noteq> ''test'' \<and> wsFilter s \<noteq> '''')
        ''TSPACK_WORKFLOW_TEST_FILTER_INVALID'' (path @ '' filter is supported only by Test'')
      @ check (op \<noteq> ''audit'' \<and> (wsAuditLevel s \<noteq> '''' \<or> wsRequireCoverage s))
        ''TSPACK_WORKFLOW_AUDIT_OPTIONS_INVALID'' (path @ '' audit options are supported only by Audit'')
      @ check (op = ''audit'' \<and> wsAuditLevel s \<notin> {'''', ''any'', ''low'', ''moderate'', ''high'', ''critical''})
        ''TSPACK_WORKFLOW_AUDIT_OPTIONS_INVALID'' (path @ '' auditLevel must be any, low, moderate, high, or critical'')
      @ (if op = ''transfer'' then
           check (\<not> workflow_platform (wsTransferTarget s))
             ''TSPACK_WORKFLOW_TRANSFER_TARGET_INVALID'' (path @ '' transfer target must be linux, windows, macos, or currentHost'')
           @ check (case wsInputs s of [input] \<Rightarrow> wvrCategory input \<noteq> ''artifactReference'' | _ \<Rightarrow> True)
             ''TSPACK_WORKFLOW_TRANSFER_INPUT_INVALID'' (path @ '' transfer requires one artifact reference'')
         else check (wsTransferTarget s \<noteq> '''')
           ''TSPACK_WORKFLOW_TRANSFER_TARGET_INVALID'' (path @ '' transferTarget is supported only by transfer'')))"

definition operation_diags :: "string \<Rightarrow> workflow_step \<Rightarrow> finding list" where
  "operation_diags path s =
     (if native_operation (wsOperation s) then native_step_diags path s
      else if wsOperation s = ''process'' then
        check (wsCommand s = []) ''TSPACK_WORKFLOW_PROCESS_COMMAND_REQUIRED''
          (path @ ''.command must contain an executable and argv'')
        @ concat (map (\<lambda>a. check (is_blank a) ''TSPACK_WORKFLOW_PROCESS_COMMAND_INVALID''
            (path @ ''.command entries must not be empty'')) (wsCommand s))
        @ check (wsScript s \<noteq> '''' \<or> wsShell s \<noteq> '''') ''TSPACK_WORKFLOW_PROCESS_COMMAND_INVALID''
            (path @ '' process steps cannot contain shell fields'')
      else if wsOperation s = ''shellScript'' then
        check (is_blank (wsScript s)) ''TSPACK_WORKFLOW_SHELL_SCRIPT_REQUIRED'' (path @ ''.script must not be empty'')
        @ check (wsShell s \<noteq> '''' \<and> wsShell s \<noteq> ''sh'' \<and> wsShell s \<noteq> ''powershell'')
            ''TSPACK_WORKFLOW_SHELL_INVALID'' (path @ ''.shell must be sh or powershell'')
        @ check (wsCommand s \<noteq> []) ''TSPACK_WORKFLOW_SHELL_INVALID''
            (path @ '' shell steps cannot contain process argv'')
      else [(''TSPACK_WORKFLOW_STEP_UNSUPPORTED'', path @ ''.operation is not a supported semantic operation'')])"

definition cwd_diags :: "string set \<Rightarrow> string \<Rightarrow> workflow_step \<Rightarrow> finding list" where
  "cwd_diags packages path s =
     check (wsCwd s \<noteq> '''' \<and> wsCwd s \<noteq> ''workspace'' \<and> \<not> has_prefix (wsCwd s) ''package:'')
       ''TSPACK_WORKFLOW_CWD_INVALID'' (path @ ''.cwd must be workspace or package:<identity>'')
     @ check (has_prefix (wsCwd s) ''package:'' \<and> trim_prefix (wsCwd s) ''package:'' \<notin> packages)
       ''TSPACK_WORKFLOW_PACKAGE_UNKNOWN'' (path @ ''.cwd selects unknown package '' @ trim_prefix (wsCwd s) ''package:'')
     @ concat (map (\<lambda>p. check (p \<notin> packages) ''TSPACK_WORKFLOW_PACKAGE_UNKNOWN''
         (path @ ''.packages selects unknown package '' @ p)) (wsPackages s))"

definition capability_diags :: "string \<Rightarrow> workflow_step \<Rightarrow> finding list" where
  "capability_diags path s =
     (let has = containsWorkflowCapability (wsCapabilities s); code = ''TSPACK_WORKFLOW_CAPABILITY_REQUIRED'' in
      (if external_operation (wsOperation s) then
         check (\<not> has ''process'') code (path @ '' external execution must declare process capability'')
         @ check (\<not> has ''workspaceRead'') code (path @ '' external execution must declare workspaceRead capability'')
         @ check (wsEnv s \<noteq> [] \<and> \<not> has ''environment'') code
             (path @ '' environment declarations require environment capability'')
         @ concat (map (\<lambda>e. check (wvKind (weValue e) = ''secret'' \<and> \<not> has ''secrets'') code
             (path @ '' secret references require secrets capability'')) (wsEnv s))
       else [])
      @ concat (map (\<lambda>c. check (c \<notin> {''network'', ''workspaceRead'', ''workspaceWrite'', ''environment'', ''secrets'', ''process''})
          ''TSPACK_WORKFLOW_CAPABILITY_INVALID'' (path @ '' contains unknown capability '' @ c)) (wsCapabilities s)))"

definition validateWorkflowStep :: "(string \<Rightarrow> string) \<Rightarrow> string set \<Rightarrow> string \<Rightarrow> workflow_step \<Rightarrow> finding list" where
  "validateWorkflowStep uni packages path s =
     each_indexed (\<lambda>i input. validateWorkflowValueRef (indexed (path @ ''.inputs'') i) input) (wsInputs s)
     @ operation_diags path s
     @ check (wsTimeoutSeconds s < 0) ''TSPACK_WORKFLOW_TIMEOUT_INVALID'' (path @ ''.timeoutSeconds must be positive'')
     @ cwd_diags packages path s
     @ validateWorkflowEnvironment uni (path @ ''.env'') (wsEnv s)
     @ capability_diags path s"

section \<open>Flow nodes\<close>

definition for_each_diags :: "string \<Rightarrow> workflow_flow_node \<Rightarrow> finding list" where
  "for_each_diags path n =
     (let mode = (if wfMode n = '''' then ''sequential'' else wfMode n);
          policy = (if wfFailurePolicy n = '''' then ''failFast'' else wfFailurePolicy n) in
      check (\<not> workflow_identity (wfIdentity n)) ''TSPACK_WORKFLOW_FOREACH_IDENTITY_INVALID''
        (path @ ''.identity must be a stable identifier'')
      @ check (wfItems n = [] \<or> length (wfItems n) > 256) ''TSPACK_WORKFLOW_FOREACH_LIMIT_INVALID''
        (path @ '' must contain between 1 and 256 finite items'')
      @ check (mode \<noteq> ''sequential'' \<and> mode \<noteq> ''parallel'') ''TSPACK_WORKFLOW_FOREACH_MODE_INVALID''
        (path @ ''.mode must be sequential or parallel'')
      @ check (mode = ''sequential'' \<and> wfConcurrency n \<noteq> 0 \<and> wfConcurrency n \<noteq> 1)
        ''TSPACK_WORKFLOW_FOREACH_CONCURRENCY_INVALID'' (path @ '' sequential mode has concurrency 1'')
      @ check (mode = ''parallel'' \<and> (wfConcurrency n < 0 \<or> wfConcurrency n > 32))
        ''TSPACK_WORKFLOW_FOREACH_CONCURRENCY_INVALID'' (path @ '' parallel concurrency must be omitted or between 1 and 32'')
      @ check (policy \<noteq> ''failFast'' \<and> policy \<noteq> ''collectAll'') ''TSPACK_WORKFLOW_FOREACH_FAILURE_POLICY_INVALID''
        (path @ ''.failurePolicy must be failFast or collectAll''))"

definition item_diags :: "string \<Rightarrow> nat \<Rightarrow> workflow_for_each_item \<Rightarrow> finding list" where
  "item_diags path i item =
     check (itemIndex item \<noteq> int i) ''TSPACK_WORKFLOW_FOREACH_CURSOR_INVALID''
       (indexed (path @ ''.items'') i @ '' has non-deterministic cursor index '' @ int_string (itemIndex item))
     @ validateWorkflowIterationValue (indexed (path @ ''.items'') i @ ''.value'') (itemValue item)"

definition region_platform_of :: "workflow_flow_node \<Rightarrow> string \<Rightarrow> string" where
  "region_platform_of n inherited = (if wfRunsOn n = '''' then inherited else wfRunsOn n)"

definition result_kinds :: "string list" where
  "result_kinds = [''succeeded'', ''failed'', ''cancelled'', ''timedOut'']"

function validateWorkflowFlowNode ::
  "(string \<Rightarrow> string) \<Rightarrow> string set \<Rightarrow> string \<Rightarrow> workflow_flow_node \<Rightarrow> string \<Rightarrow> finding list" where
  "validateWorkflowFlowNode uni packages path n inherited =
     (if wfKind n = ''effect'' then
        (case wfEffect n of
           None \<Rightarrow> [(''TSPACK_WORKFLOW_EFFECT_REQUIRED'', path @ '' effect node must contain an effect'')]
         | Some e \<Rightarrow>
             check (wfChildren n \<noteq> [] \<or> wfIdentity n \<noteq> '''') ''TSPACK_WORKFLOW_FLOW_NODE_INVALID''
               (path @ '' effect node cannot contain children or an identity'')
             @ validateWorkflowStep uni packages (path @ ''.effect'') e)
      else if wfKind n = ''sequence'' then
        check (wfChildren n = []) ''TSPACK_WORKFLOW_SEQUENCE_EMPTY'' (path @ '' sequence must contain at least one node'')
        @ each_indexed (\<lambda>i c. validateWorkflowFlowNode uni packages (indexed (path @ ''.children'') i) c inherited)
            (wfChildren n)
      else if wfKind n = ''parallel'' then
        check (length (wfChildren n) < 2) ''TSPACK_WORKFLOW_PARALLEL_TOO_SMALL''
          (path @ '' parallel must contain at least two branches'')
        @ each_indexed (\<lambda>i c.
            check (wfKind c \<noteq> ''branch'') ''TSPACK_WORKFLOW_PARALLEL_BRANCH_REQUIRED''
              (indexed (path @ ''.children'') i @ '' must be a Branch declaration'')
            @ check (wfIdentity c \<in> set (map wfIdentity (take i (wfChildren n))))
              ''TSPACK_WORKFLOW_BRANCH_IDENTITY_DUPLICATE'' (path @ '' repeats branch '' @ wfIdentity c)
            @ validateWorkflowFlowNode uni packages (indexed (path @ ''.children'') i) c inherited)
            (wfChildren n)
      else if wfKind n = ''branch'' then
        check (\<not> workflow_identity (wfIdentity n)) ''TSPACK_WORKFLOW_BRANCH_IDENTITY_INVALID''
          (path @ ''.identity must be a stable identifier'')
        @ check (wfChildren n = []) ''TSPACK_WORKFLOW_BRANCH_EMPTY'' (path @ '' branch must contain at least one node'')
        @ each_indexed (\<lambda>i c. validateWorkflowFlowNode uni packages (indexed (path @ ''.children'') i) c inherited)
            (wfChildren n)
      else if wfKind n = ''region'' then
        check (\<not> workflow_platform (region_platform_of n inherited)) ''TSPACK_WORKFLOW_PLATFORM_INVALID''
          (path @ ''.runsOn must be linux, windows, macos, or currentHost'')
        @ validateWorkflowEnvironment uni (path @ ''.env'') (wfEnv n)
        @ check (wfChildren n = []) ''TSPACK_WORKFLOW_REGION_EMPTY'' (path @ '' region must contain at least one node'')
        @ each_indexed (\<lambda>i c. validateWorkflowFlowNode uni packages (indexed (path @ ''.children'') i) c
              (region_platform_of n inherited))
            (wfChildren n)
      else if wfKind n = ''match'' then
        (case wfSource n of
           None \<Rightarrow> [(''TSPACK_WORKFLOW_MATCH_INVALID'', path @ '' MatchResult requires a typed source effect'')]
         | Some source \<Rightarrow>
             if wfEffect n = None
             then [(''TSPACK_WORKFLOW_MATCH_INVALID'', path @ '' MatchResult requires a typed source effect'')]
             else
               validateWorkflowValueRef (path @ ''.source'') source
               @ each_indexed (\<lambda>i arm.
                   check (armKind arm \<in> set (map armKind (take i (wfArms n)))) ''TSPACK_WORKFLOW_MATCH_KIND_DUPLICATE''
                     (path @ '' repeats '' @ armKind arm)
                   @ validateWorkflowFlowNode uni packages (indexed (path @ ''.arms'') i @ ''.flow'') (armFlow arm) inherited)
                   (wfArms n)
               @ concat (map (\<lambda>kind. check (kind \<notin> set (map armKind (wfArms n)))
                   ''TSPACK_WORKFLOW_MATCH_NON_EXHAUSTIVE'' (path @ '' is missing '' @ kind)) result_kinds))
      else if wfKind n = ''finally'' then
        (case wfBody n of
           None \<Rightarrow> [(''TSPACK_WORKFLOW_FINALLY_INVALID'', path @ '' Finally requires body and cleanup flows'')]
         | Some body \<Rightarrow>
             (case wfCleanup n of
                None \<Rightarrow> [(''TSPACK_WORKFLOW_FINALLY_INVALID'', path @ '' Finally requires body and cleanup flows'')]
              | Some cleanup \<Rightarrow>
                  validateWorkflowFlowNode uni packages (path @ ''.body'') body inherited
                  @ validateWorkflowFlowNode uni packages (path @ ''.cleanup'') cleanup inherited))
      else if wfKind n = ''forEach'' then
        for_each_diags path n
        @ each_indexed (\<lambda>i item. item_diags path i item
            @ validateWorkflowFlowNode uni packages (indexed (path @ ''.items'') i @ ''.flow'') (itemFlow item) inherited)
            (wfItems n)
      else if wfKind n = ''when'' then
        (case wfPredicate n of
           None \<Rightarrow> [(''TSPACK_WORKFLOW_PREDICATE_INVALID'', path @ '' When requires a predicate and true branch'')]
         | Some p \<Rightarrow>
             (case wfThen n of
                None \<Rightarrow> [(''TSPACK_WORKFLOW_PREDICATE_INVALID'', path @ '' When requires a predicate and true branch'')]
              | Some t \<Rightarrow>
                  validateWorkflowPredicate (path @ ''.predicate'') p 1
                  @ validateWorkflowFlowNode uni packages (path @ ''.then'') t inherited
                  @ (case wfElse n of None \<Rightarrow> []
                     | Some e \<Rightarrow> validateWorkflowFlowNode uni packages (path @ ''.else'') e inherited)))
      else [(''TSPACK_WORKFLOW_FLOW_NODE_INVALID'', path @ '' has unknown flow node kind '' @ wfKind n)])"
  by pat_completeness auto
termination by (relation "measure (\<lambda>(uni, packages, path, n, inherited). size n)") auto

declare validateWorkflowFlowNode.simps [simp del]

section \<open>Jobs\<close>

text \<open>
  \<open>fmt.Sprintf("%T:%v", value, value)\<close> on a decoded JSON value; \<open>num\<close> is \<open>%v\<close> on a float64.
\<close>

fun go_type :: "json_value \<Rightarrow> string" where
  "go_type JNull = ''<nil>''"
| "go_type (JBool _) = ''bool''"
| "go_type (JNumber _) = ''float64''"
| "go_type (JString _) = ''string''"
| "go_type (JArray _) = ''[]interface {}''"
| "go_type (JObject _) = ''map[string]interface {}''"

fun go_value :: "(float64 \<Rightarrow> string) \<Rightarrow> json_value \<Rightarrow> string" where
  "go_value num JNull = ''<nil>''"
| "go_value num (JBool b) = (if b then ''true'' else ''false'')"
| "go_value num (JNumber q) = num q"
| "go_value num (JString s) = s"
| "go_value num (JArray vs) = ''['' @ join_strings (map (go_value num) vs) '' '' @ '']''"
| "go_value num (JObject kvs) =
     ''map['' @ join_strings (map (\<lambda>(k, t). k @ '':'' @ t)
        (sort_key fst (map (\<lambda>(k, v). (k, go_value num v)) kvs))) '' '' @ '']''"

definition matrix_key :: "(float64 \<Rightarrow> string) \<Rightarrow> json_value \<Rightarrow> string" where
  "matrix_key num v = go_type v @ '':'' @ go_value num v"

fun scalar_value :: "json_value \<Rightarrow> bool" where
  "scalar_value (JString _) = True"
| "scalar_value (JNumber _) = True"
| "scalar_value (JBool _) = True"
| "scalar_value _ = False"

definition validateWorkflowMatrix :: "(float64 \<Rightarrow> string) \<Rightarrow> string \<Rightarrow> (string \<times> json_value list) list \<Rightarrow> finding list" where
  "validateWorkflowMatrix num path matrix =
     concat (map (\<lambda>(axis, vs).
       check (\<not> workflow_identity axis \<or> vs = []) ''TSPACK_WORKFLOW_MATRIX_INVALID''
         (path @ ''.matrix axes need stable identities and non-empty values'')
       @ each_indexed (\<lambda>i v.
           check (\<not> scalar_value v) ''TSPACK_WORKFLOW_MATRIX_INVALID''
             (path @ ''.matrix values must be strings, numbers, booleans, or semantic platform strings'')
           @ check (matrix_key num v \<in> set (map (matrix_key num) (take i vs))) ''TSPACK_WORKFLOW_MATRIX_INVALID''
             (path @ ''.matrix axis '' @ axis @ '' contains a duplicate value'')) vs) matrix)"

text \<open>
  \<open>workflowDependencyCycle\<close>: the needs of a job (of the last one with that identity), sorted; one
  more level of recursion than there are names cannot be reached.
\<close>

definition job_needs :: "workflow_job list \<Rightarrow> string \<Rightarrow> string list" where
  "job_needs jobs i =
     (case find (\<lambda>j. wjIdentity j = i) (rev jobs) of None \<Rightarrow> [] | Some j \<Rightarrow> sort_strings (wjNeeds j))"

definition job_names :: "workflow_job list \<Rightarrow> string list" where
  "job_names jobs = map wjIdentity jobs @ concat (map wjNeeds jobs)"

definition workflowDependencyCycle :: "workflow_job list \<Rightarrow> string list" where
  "workflowDependencyCycle jobs =
     (case stack_cycle (job_needs jobs) (length (job_names jobs) + 1) (sort_strings (map wjIdentity jobs)) [] {} of
        Some (Inl cycle) \<Rightarrow> cycle
      | _ \<Rightarrow> [])"

definition default_runs_on :: "workflow_job \<Rightarrow> workflow_job" where
  "default_runs_on j = (if wjRunsOn j = '''' then j\<lparr>wjRunsOn := ''currentHost''\<rparr> else j)"

definition job_diags ::
  "(string \<Rightarrow> string) \<Rightarrow> (float64 \<Rightarrow> string) \<Rightarrow> string set \<Rightarrow> string \<Rightarrow> workflow_job list \<Rightarrow> nat \<Rightarrow> workflow_job \<Rightarrow> finding list" where
  "job_diags uni num packages path jobs i j =
     (let here = indexed (path @ ''.jobs'') i in
      check (\<not> workflow_identity (wjIdentity j)) ''TSPACK_WORKFLOW_JOB_IDENTITY_INVALID''
        (here @ ''.identity must be a stable identifier'')
      @ check (wjIdentity j \<in> set (map wjIdentity (take i jobs))) ''TSPACK_WORKFLOW_JOB_IDENTITY_DUPLICATE''
        (''duplicate workflow job identity: '' @ wjIdentity j)
      @ check (\<not> workflow_platform (wjRunsOn (default_runs_on j))) ''TSPACK_WORKFLOW_PLATFORM_INVALID''
        (here @ ''.runsOn must be linux, windows, macos, or currentHost'')
      @ check (wjSteps j = []) ''TSPACK_WORKFLOW_STEPS_REQUIRED'' (here @ ''.steps must not be empty'')
      @ validateWorkflowEnvironment uni (here @ ''.env'') (wjEnv j)
      @ validateWorkflowMatrix num here (wjMatrix j)
      @ each_indexed (\<lambda>k s. validateWorkflowStep uni packages (indexed (here @ ''.steps'') k) s) (wjSteps j))"

definition need_diags :: "workflow_job list \<Rightarrow> workflow_job \<Rightarrow> finding list" where
  "need_diags jobs j =
     each_indexed (\<lambda>i d.
       check (d = wjIdentity j) ''TSPACK_WORKFLOW_JOB_SELF_DEPENDENCY''
         (''workflow job cannot depend on itself: '' @ wjIdentity j)
       @ check (d \<notin> set (map wjIdentity jobs)) ''TSPACK_WORKFLOW_JOB_DEPENDENCY_UNKNOWN''
         (wjIdentity j @ '' needs unknown job '' @ d)
       @ check (d \<in> set (take i (wjNeeds j))) ''TSPACK_WORKFLOW_JOB_DEPENDENCY_DUPLICATE''
         (wjIdentity j @ '' repeats dependency '' @ d)) (wjNeeds j)"

definition validateWorkflowJobs ::
  "(string \<Rightarrow> string) \<Rightarrow> (float64 \<Rightarrow> string) \<Rightarrow> string set \<Rightarrow> string \<Rightarrow> workflow \<Rightarrow> finding list" where
  "validateWorkflowJobs uni num packages path w =
     each_indexed (job_diags uni num packages path (wlJobs w)) (wlJobs w)
     @ check (wlJobs w = []) ''TSPACK_WORKFLOW_JOBS_REQUIRED'' (path @ ''.jobs must not be empty'')
     @ concat (map (need_diags (wlJobs w)) (wlJobs w))
     @ (let cycle = workflowDependencyCycle (wlJobs w) in
        check (cycle \<noteq> []) ''TSPACK_WORKFLOW_JOB_DEPENDENCY_CYCLE''
          (''workflow job dependency cycle: '' @ join_strings cycle '' -> ''))"

section \<open>Workflows\<close>

definition trigger_diags :: "string \<Rightarrow> workflow_trigger list \<Rightarrow> nat \<Rightarrow> workflow_trigger \<Rightarrow> finding list" where
  "trigger_diags path triggers i t =
     (let here = indexed (path @ ''.triggers'') i in
      check (wtKind t \<noteq> ''manual'' \<and> wtKind t \<noteq> ''push'' \<and> wtKind t \<noteq> ''pullRequest'') ''TSPACK_WORKFLOW_TRIGGER_INVALID''
        (here @ ''.kind must be manual, push, or pullRequest'')
      @ check (wtKind t \<in> set (map wtKind (take i triggers))) ''TSPACK_WORKFLOW_TRIGGER_DUPLICATE''
        (path @ '' repeats trigger kind '' @ wtKind t)
      @ check (wtKind t = ''manual'' \<and> (wtBranches t \<noteq> [] \<or> wtPaths t \<noteq> [])) ''TSPACK_WORKFLOW_TRIGGER_FILTER_INVALID''
        (here @ '' manual triggers do not accept branch or path filters'')
      @ concat (map (\<lambda>b. check (is_blank b) ''TSPACK_WORKFLOW_TRIGGER_FILTER_INVALID''
          (here @ ''.branches must contain non-empty portable branch patterns'')) (wtBranches t))
      @ concat (map (\<lambda>p. check (\<not> IsSafeRelativeGlob p \<and> \<not> IsSafePackageFilePath p) ''TSPACK_WORKFLOW_TRIGGER_FILTER_INVALID''
          (here @ ''.paths must contain safe workspace-relative paths or globs'')) (wtPaths t)))"

definition workflow_diags ::
  "(string \<Rightarrow> string) \<Rightarrow> (float64 \<Rightarrow> string) \<Rightarrow> string set \<Rightarrow> workflow list \<Rightarrow> nat \<Rightarrow> workflow \<Rightarrow> finding list" where
  "workflow_diags uni num packages ws i w =
     (let here = indexed ''workflows'' i in
      check (\<not> workflow_identity (wlIdentity w)) ''TSPACK_WORKFLOW_IDENTITY_INVALID''
        (here @ ''.identity must be a stable identifier'')
      @ check (wlIdentity w \<in> set (map wlIdentity (take i ws))) ''TSPACK_WORKFLOW_IDENTITY_DUPLICATE''
        (''duplicate workflow identity: '' @ wlIdentity w)
      @ check (wlTriggers w = []) ''TSPACK_WORKFLOW_TRIGGER_REQUIRED'' (here @ ''.triggers must not be empty'')
      @ each_indexed (trigger_diags here (wlTriggers w)) (wlTriggers w)
      @ check (wlFlow w \<noteq> None \<and> wlJobs w \<noteq> []) ''TSPACK_WORKFLOW_AUTHORING_AMBIGUOUS''
        (here @ '' must declare either flow or legacy jobs, not both'')
      @ check (wlFlow w = None \<and> wlJobs w = []) ''TSPACK_WORKFLOW_FLOW_REQUIRED''
        (here @ '' must declare flow or legacy jobs'')
      @ (case wlFlow w of
           Some n \<Rightarrow> validateWorkflowFlowNode uni packages (here @ ''.flow'') n ''currentHost''
         | None \<Rightarrow> validateWorkflowJobs uni num packages here w))"

text \<open>
  \<open>validateWorkflows\<close>: the diagnostics, and the declarations with the default platform of legacy
  jobs filled in, as the code leaves them.
\<close>

definition defaulted :: "workflow \<Rightarrow> workflow" where
  "defaulted w = (if wlFlow w = None then w\<lparr>wlJobs := map default_runs_on (wlJobs w)\<rparr> else w)"

definition validateWorkflows ::
  "(string \<Rightarrow> string) \<Rightarrow> (float64 \<Rightarrow> string) \<Rightarrow> string set \<Rightarrow> workflow list \<Rightarrow> finding list \<times> workflow list" where
  "validateWorkflows uni num packages ws =
     (each_indexed (workflow_diags uni num packages ws) ws, map defaulted ws)"

end
