(* ===== verification/Manifest_Accept.thy ===== *)
theory Manifest_Accept
  imports Manifest_Workflow Workflow_Compile
begin

text \<open>
  What acceptance of a workflow declaration means: the dependency cycle search is exact, the job
  graph of an accepted declaration is acyclic and closed, and the compiler can reject an accepted
  flow only for a limit it alone knows.
\<close>

section \<open>The dependency cycle search\<close>

lemma job_needs_edge: "x \<in> set (job_needs jobs i) \<Longrightarrow> \<exists>j \<in> set jobs. wjIdentity j = i \<and> x \<in> set (wjNeeds j)"
proof (cases "find (\<lambda>j. wjIdentity j = i) (rev jobs)")
  case (Some j)
  moreover assume "x \<in> set (job_needs jobs i)"
  ultimately show ?thesis using find_SomeD [OF Some] by (auto simp: job_needs_def)
qed (simp add: job_needs_def)

lemma job_needs_names: "set (job_needs jobs i) \<subseteq> set (job_names jobs)"
  by (auto simp: job_names_def dest: job_needs_edge)

interpretation needs: finite_graph "job_needs jobs" "set (job_names jobs)" for jobs
  by unfold_locales (simp_all add: job_needs_names)

lemma job_names_fuel: "card (set (job_names jobs)) < length (job_names jobs) + 1"
  using card_length [of "job_names jobs"] by simp

lemma workflowDependencyCycle_exact:
  "workflowDependencyCycle jobs = [] \<longleftrightarrow>
     \<not> (\<exists>i \<in> set (map wjIdentity jobs). \<exists>x. (i, x) \<in> (edges (job_needs jobs))\<^sup>* \<and> (x, x) \<in> (edges (job_needs jobs))\<^sup>+)"
  "workflowDependencyCycle jobs \<noteq> [] \<Longrightarrow> closed_walk (job_needs jobs) (workflowDependencyCycle jobs)"
proof -
  let ?ids = "sort_strings (map wjIdentity jobs)"
  let ?r = "stack_cycle (job_needs jobs) (length (job_names jobs) + 1) ?ids [] {}"
  have "set ?ids \<subseteq> set (job_names jobs)" by (auto simp: job_names_def)
  note d = needs.stack_cycle_decides [OF this job_names_fuel]
  have cyc: "\<exists>i \<in> set (map wjIdentity jobs). \<exists>x. (i, x) \<in> (edges (job_needs jobs))\<^sup>* \<and> (x, x) \<in> (edges (job_needs jobs))\<^sup>+"
    if "closed_walk (job_needs jobs) c" for c
  proof -
    have c: "(hd c, hd c) \<in> (edges (job_needs jobs))\<^sup>+" by (rule closed_walk_cycle [OF that])
    then obtain y where "(hd c, y) \<in> edges (job_needs jobs)" by (meson tranclD)
    then have "hd c \<in> set (map wjIdentity jobs)"
      by (auto dest!: job_needs_edge intro: rev_image_eqI)
    with c show ?thesis by blast
  qed
  show "workflowDependencyCycle jobs = [] \<longleftrightarrow>
     \<not> (\<exists>i \<in> set (map wjIdentity jobs). \<exists>x. (i, x) \<in> (edges (job_needs jobs))\<^sup>* \<and> (x, x) \<in> (edges (job_needs jobs))\<^sup>+)"
  proof (cases ?r)
    case (Some q)
    show ?thesis
    proof (cases q)
      case (Inl c)
      then have cw: "closed_walk (job_needs jobs) c" using d Some by simp
      then have "c \<noteq> []" by (auto simp: closed_walk_def)
      then show ?thesis using cyc [OF cw] Some Inl by (simp add: workflowDependencyCycle_def)
    next
      case (Inr closed)
      then show ?thesis using d Some by (simp add: workflowDependencyCycle_def)
    qed
  qed (use d in simp)
  show "closed_walk (job_needs jobs) (workflowDependencyCycle jobs)" if "workflowDependencyCycle jobs \<noteq> []"
    using d that by (auto simp: workflowDependencyCycle_def split: option.splits sum.splits)
qed

lemma workflowDependencyCycle_acyclic:
  assumes "workflowDependencyCycle jobs = []"
  shows "acyclic (edges (job_needs jobs))"
proof (rule acyclicI, intro allI notI)
  fix x assume x: "(x, x) \<in> (edges (job_needs jobs))\<^sup>+"
  then obtain y where "(x, y) \<in> edges (job_needs jobs)" by (meson tranclD)
  then have "x \<in> set (map wjIdentity jobs)"
    by (auto dest!: job_needs_edge intro: rev_image_eqI)
  with x assms workflowDependencyCycle_exact(1) [of jobs] show False by blast
qed

text \<open>An accepted list of jobs: distinct names, known needs, no cycle.\<close>

lemma accepted_jobs:
  assumes "validateWorkflowJobs uni num packages path w = []"
  shows "wlJobs w \<noteq> []" and "distinct (map wjIdentity (wlJobs w))"
    and "\<And>j. j \<in> set (wlJobs w) \<Longrightarrow> workflow_identity (wjIdentity j) \<and> wjSteps j \<noteq> [] \<and>
      distinct (wjNeeds j) \<and> set (wjNeeds j) \<subseteq> set (map wjIdentity (wlJobs w)) - {wjIdentity j}"
    and "acyclic (edges (job_needs (wlJobs w)))"
proof -
  from assms have each: "each_indexed (job_diags uni num packages path (wlJobs w)) (wlJobs w) = []"
    and ne: "wlJobs w \<noteq> []" and needs: "\<And>j. j \<in> set (wlJobs w) \<Longrightarrow> need_diags (wlJobs w) j = []"
    and cyc: "workflowDependencyCycle (wlJobs w) = []"
    by (auto simp: validateWorkflowJobs_def Let_def)
  show "wlJobs w \<noteq> []" by (rule ne)
  show "distinct (map wjIdentity (wlJobs w))"
    by (rule each_indexed_distinct [OF each]) (simp add: job_diags_def Let_def)
  show "workflow_identity (wjIdentity j) \<and> wjSteps j \<noteq> [] \<and>
      distinct (wjNeeds j) \<and> set (wjNeeds j) \<subseteq> set (map wjIdentity (wlJobs w)) - {wjIdentity j}"
    if j: "j \<in> set (wlJobs w)" for j
  proof -
    from each_indexed_all [OF each j] have "workflow_identity (wjIdentity j) \<and> wjSteps j \<noteq> []"
      by (auto simp: job_diags_def Let_def)
    moreover have n: "need_diags (wlJobs w) j = []" by (rule needs [OF j])
    have "distinct (map (\<lambda>d. d) (wjNeeds j))"
      by (rule each_indexed_distinct [OF n [unfolded need_diags_def]]) simp
    moreover have "d \<in> set (map wjIdentity (wlJobs w)) - {wjIdentity j}" if "d \<in> set (wjNeeds j)" for d
      using each_indexed_all [OF n [unfolded need_diags_def] that] by auto
    ultimately show ?thesis by auto
  qed
  show "acyclic (edges (job_needs (wlJobs w)))" by (rule workflowDependencyCycle_acyclic [OF cyc])
qed

section \<open>Accepted flows and the compiler\<close>

text \<open>The errors that only the compiler knows of.\<close>

definition limit_error :: "string \<Rightarrow> bool" where
  "limit_error e \<longleftrightarrow>
     has_prefix e ''TSPACK_WORKFLOW_EXPANSION_'' \<or>
     has_prefix e ''TSPACK_WORKFLOW_FINALLY_LIMIT_EXCEEDED'' \<or>
     has_prefix e ''TSPACK_WORKFLOW_NESTED_PARALLEL_UNSUPPORTED'' \<or>
     e = errorsForFlowNode ''forEach'' ''aggregate elements must have one result type''"

definition sound :: "string + 'a \<Rightarrow> bool" where
  "sound r \<longleftrightarrow> (case r of Inl e \<Rightarrow> limit_error e | Inr _ \<Rightarrow> True)"

definition compiles_soundly :: "compiler \<Rightarrow> workflow_flow_node \<Rightarrow> bool" where
  "compiles_soundly rec n \<longleftrightarrow> (\<forall>k b. sound (rec n k b))"

lemma sound_simps [simp]: "sound (Inl e) \<longleftrightarrow> limit_error e" "sound (Inr x)"
  by (simp_all add: sound_def)

lemma sound_bind:
  "sound r \<Longrightarrow> (\<And>x. r = Inr x \<Longrightarrow> sound (g x)) \<Longrightarrow> sound (case r of Inl e \<Rightarrow> Inl e | Inr x \<Rightarrow> g x)"
  by (cases r) simp_all

lemma sound_back:
  "(\<And>c. c \<in> set cs \<Longrightarrow> compiles_soundly rec c) \<Longrightarrow> sound (compile_back rec cs k b)"
  by (induction cs arbitrary: k b) (auto simp: compiles_soundly_def intro!: sound_bind)

lemma sound_branches:
  "(\<And>c. c \<in> set cs \<Longrightarrow> compiles_soundly rec c) \<Longrightarrow> sound (compile_branches rec fk jn cs b)"
  by (induction cs arbitrary: b)
    (auto simp: compiles_soundly_def Let_def split: prod.splits intro!: sound_bind)

lemma sound_arms:
  "(\<And>a. a \<in> set as \<Longrightarrow> compiles_soundly rec (armFlow a)) \<Longrightarrow>
    distinct (map armKind as) \<Longrightarrow> set (map armKind as) \<inter> set seen = {} \<Longrightarrow>
    sound (compile_arms rec m k as seen b)"
proof (induction "as" arbitrary: seen b)
  case (Cons a "as")
  have "sound (compile_arms rec m k as (armKind a # seen) b')" for b'
    by (rule Cons.IH) (use Cons.prems in auto)
  moreover have "sound (rec (armFlow a) k b)" using Cons.prems(1) [of a] by (simp add: compiles_soundly_def)
  ultimately show ?case using Cons.prems(3) by (auto split: prod.splits intro!: sound_bind)
qed simp

lemma compile_arms_seen:
  "compile_arms rec m k as seen b = Inr (s, b') \<Longrightarrow> set s = set seen \<union> set (map armKind as)"
  by (induction "as" arbitrary: seen b) (auto split: if_splits sum.splits prod.splits)

lemma sound_item:
  "compiles_soundly rec (itemFlow i) \<Longrightarrow> sound (compileForEachItem rec node fp i k b)"
  by (auto simp: compileForEachItem_def compiles_soundly_def Let_def split: prod.splits intro!: sound_bind)

lemma sound_items:
  "(\<And>i. i \<in> set is \<Longrightarrow> compiles_soundly rec (itemFlow i)) \<Longrightarrow> sound (for_each_back rec node fp is k b)"
  by (induction "is" arbitrary: k b) (auto split: prod.splits intro!: sound_bind sound_item)

lemma sound_entries:
  "(\<And>i. i \<in> fst ` set is \<Longrightarrow> compiles_soundly rec (itemFlow i)) \<Longrightarrow> sound (for_each_entries rec node fp is b)"
  by (induction "is" arbitrary: b) (auto split: prod.splits intro!: sound_bind sound_item)

lemma sound_cleanup: "compiles_soundly rec c \<Longrightarrow> sound (compileCleanup rec c k cause b)"
  by (auto simp: compileCleanup_def compiles_soundly_def Let_def split: prod.splits intro!: sound_bind)

lemma sound_aggregate: "sound (addForEachAggregate node mode concurrency policy b)"
proof -
  have "sound (infer_elements b is acc)" for "is" acc
    by (induction b "is" acc rule: infer_elements.induct)
      (auto simp: limit_error_def Let_def split: option.splits)
  then show ?thesis
    by (auto simp: addForEachAggregate_def Let_def split: option.splits prod.splits intro!: sound_bind)
qed

lemma for_each_error_limit:
  assumes "for_each_diags path n = []" and "for_each_error n b = Some e"
  shows "limit_error e"
  using assms
  by (auto simp: for_each_diags_def for_each_error_def for_each_mode_def for_each_policy_def
      for_each_concurrency_def limit_defs limit_error_def has_prefix_def Let_def split: if_splits)

lemma sound_sequence:
  "(\<And>c. c \<in> set (wfChildren n) \<Longrightarrow> compiles_soundly rec c) \<Longrightarrow> sound (compile_sequence rec n k b)"
  by (auto simp: compile_sequence_def Let_def split: prod.splits intro!: sound_bind sound_back)

lemma sound_region:
  "(\<And>c. c \<in> set (wfChildren n) \<Longrightarrow> compiles_soundly rec c) \<Longrightarrow> sound (compile_region rec n k b)"
  by (auto simp: compile_region_def Let_def split: prod.splits intro!: sound_bind sound_back)

lemma sound_parallel:
  "(\<And>c. c \<in> set (wfChildren n) \<Longrightarrow> compiles_soundly rec c) \<Longrightarrow> sound (compile_parallel rec n k b)"
  by (auto simp: compile_parallel_def Let_def split: prod.splits intro!: sound_bind sound_branches)

lemma sound_match:
  assumes "wfSource n = Some src" and "wfEffect n = Some e"
    and "\<And>a. a \<in> set (wfArms n) \<Longrightarrow> compiles_soundly rec (armFlow a)"
    and "distinct (map armKind (wfArms n))" and "set outcome_names \<subseteq> set (map armKind (wfArms n))"
  shows "sound (compile_match rec n k b)"
proof -
  obtain m b1 where m: "addNode (''match-'' @ wvrResultType src) NodeMatch b = (m, b1)" by fastforce
  define b2 where "b2 = on_node m (\<lambda>n. n\<lparr>nodeSource := valueIdentity b1 (wvrSource src),
      nodeProjection := match_projection b1 src\<rparr>) b1"
  have arms: "sound (compile_arms rec m k (wfArms n) [] b2)"
    by (rule sound_arms [OF assms(3,4)]) simp_all
  show ?thesis
    unfolding compile_match_def assms(1,2) prod.case option.case m Let_def b2_def [symmetric]
  proof (rule sound_bind [OF arms], clarify)
    fix s b'
    assume "compile_arms rec m k (wfArms n) [] b2 = Inr (s, b')"
    from compile_arms_seen [OF this] assms(5) have "find (\<lambda>k. k \<notin> set s) outcome_names = None"
      by (auto simp: find_None_iff)
    then show "sound (case find (\<lambda>k. k \<notin> set s) outcome_names of
        None \<Rightarrow> if 0 < zget 0 (bAuthored (b'\<lparr>bMatch := (bMatch b')(wsResultIdentity e \<mapsto> m)\<rparr>)) (wsResultIdentity e)
          then Inr (m, b'\<lparr>bMatch := (bMatch b')(wsResultIdentity e \<mapsto> m)\<rparr>)
          else Inr (compileEffect (planStepFromManifest e (bNext (b'\<lparr>bMatch := (bMatch b')(wsResultIdentity e \<mapsto> m)\<rparr>) + 1)
            ''flow'') m (b'\<lparr>bMatch := (bMatch b')(wsResultIdentity e \<mapsto> m)\<rparr>))
      | Some k \<Rightarrow> Inl (''TSPACK_WORKFLOW_MATCH_NON_EXHAUSTIVE: MatchResult is missing '' @ k))"
      by simp
  qed
qed

lemma sound_finally:
  assumes "wfBody n = Some body" and "wfCleanup n = Some cleanup"
    and "compiles_soundly rec body" and "compiles_soundly rec cleanup"
  shows "sound (compile_finally rec n k b)"
  using assms(3) sound_cleanup [OF assms(4)]
  by (auto simp: compile_finally_def assms(1,2) compiles_soundly_def limit_error_def has_prefix_def
      split: prod.splits intro!: sound_bind)

lemma sound_when:
  assumes "wfPredicate n = Some p" and "wfThen n = Some t" and "compiles_soundly rec t"
    and "\<And>e. wfElse n = Some e \<Longrightarrow> compiles_soundly rec e"
  shows "sound (compile_when rec n k b)"
  using assms(3,4)
  by (cases "wfElse n")
    (auto simp: compile_when_def assms(1,2) compiles_soundly_def Let_def split: prod.splits intro!: sound_bind)

lemma sound_for_each:
  assumes "for_each_diags path n = []" and "\<And>i. i \<in> set (wfItems n) \<Longrightarrow> compiles_soundly rec (itemFlow i)"
  shows "sound (compileForEach rec n k b)"
proof (cases "for_each_error n b")
  case (Some e)
  with for_each_error_limit [OF assms(1) Some] show ?thesis by (simp add: compileForEach_def)
next
  case None
  have par: "sound (for_each_parallel rec n fp k' b')" for fp k' b'
  proof -
    have "sound (for_each_entries rec n fp (zip (wfItems n) exits) b'')" for exits b''
      by (rule sound_entries) (auto dest!: set_zip_leftD simp: assms(2))
    then show ?thesis
      by (auto simp: for_each_parallel_def Let_def split: prod.splits intro!: sound_bind)
  qed
  have seq: "sound (for_each_back rec n fp (rev (wfItems n)) k' b')" for fp k' b'
    by (rule sound_items) (auto intro: assms(2))
  show ?thesis
    unfolding compileForEach_def None option.case
    by (rule sound_bind [OF sound_aggregate]) (auto simp: Let_def split: prod.splits intro!: sound_bind par seq)
qed

text \<open>An accepted flow node compiles, or fails for a limit.\<close>

lemma accepted_flow_node:
  "validateWorkflowFlowNode uni packages path n inherited = [] \<Longrightarrow> compiles_soundly compileAuthoringNode n"
proof (induction n arbitrary: path inherited rule: measure_induct_rule [of size])
  case (less n)
  note v = less.prems [unfolded validateWorkflowFlowNode.simps [of uni packages path n]]
  note compile = compileAuthoringNode.simps [of n]
  have kids: "compiles_soundly compileAuthoringNode c"
    if "each_indexed g (wfChildren n) = []"
      and "\<And>i. g i c = [] \<Longrightarrow> \<exists>q h. validateWorkflowFlowNode uni packages q c h = []"
      and "c \<in> set (wfChildren n)" for g c
    using each_indexed_all [OF that(1,3)] that(2) less.IH [OF size_child [OF that(3)]] by blast
  consider "wfKind n = ''effect''" | "wfKind n = ''sequence''" | "wfKind n = ''branch''" | "wfKind n = ''parallel''"
    | "wfKind n = ''region''" | "wfKind n = ''match''" | "wfKind n = ''finally''" | "wfKind n = ''forEach''"
    | "wfKind n = ''when''" | "wfKind n \<notin> {''effect'', ''sequence'', ''branch'', ''parallel'', ''region'',
        ''match'', ''finally'', ''forEach'', ''when''}" by blast
  then show ?case
  proof cases
    case 1
    with v show ?thesis by (auto simp: compile compiles_soundly_def split: option.splits)
  next
    case 2
    with v have c: "each_indexed (\<lambda>i c. validateWorkflowFlowNode uni packages (indexed (path @ ''.children'') i) c inherited)
        (wfChildren n) = []" by simp
    show ?thesis
      by (simp add: compiles_soundly_def compile 2) (intro allI sound_sequence kids [OF c]; blast)
  next
    case 3
    with v have c: "each_indexed (\<lambda>i c. validateWorkflowFlowNode uni packages (indexed (path @ ''.children'') i) c inherited)
        (wfChildren n) = []" by simp
    show ?thesis
      by (simp add: compiles_soundly_def compile 3) (intro allI sound_sequence kids [OF c]; blast)
  next
    case 4
    with v have c: "each_indexed (\<lambda>i c.
            check (wfKind c \<noteq> ''branch'') ''TSPACK_WORKFLOW_PARALLEL_BRANCH_REQUIRED''
              (indexed (path @ ''.children'') i @ '' must be a Branch declaration'')
            @ check (wfIdentity c \<in> set (map wfIdentity (take i (wfChildren n))))
              ''TSPACK_WORKFLOW_BRANCH_IDENTITY_DUPLICATE'' (path @ '' repeats branch '' @ wfIdentity c)
            @ validateWorkflowFlowNode uni packages (indexed (path @ ''.children'') i) c inherited)
            (wfChildren n) = []" by simp
    show ?thesis
      by (simp add: compiles_soundly_def compile 4) (intro allI sound_parallel kids [OF c]; simp; blast)
  next
    case 5
    with v have c: "each_indexed (\<lambda>i c. validateWorkflowFlowNode uni packages (indexed (path @ ''.children'') i) c
        (region_platform_of n inherited)) (wfChildren n) = []" by simp
    show ?thesis
      by (simp add: compiles_soundly_def compile 5) (intro allI sound_region kids [OF c]; blast)
  next
    case 6
    then obtain src e where se: "wfSource n = Some src" "wfEffect n = Some e"
      and c: "each_indexed (\<lambda>i arm.
           check (armKind arm \<in> set (map armKind (take i (wfArms n)))) ''TSPACK_WORKFLOW_MATCH_KIND_DUPLICATE''
             (path @ '' repeats '' @ armKind arm)
           @ validateWorkflowFlowNode uni packages (indexed (path @ ''.arms'') i @ ''.flow'') (armFlow arm) inherited)
           (wfArms n) = []" and all: "set result_kinds \<subseteq> set (map armKind (wfArms n))"
      using v by (auto split: option.splits if_splits)
    have arms: "compiles_soundly compileAuthoringNode (armFlow a)" if "a \<in> set (wfArms n)" for a
      using each_indexed_all [OF c that] less.IH [OF size_arm [OF that]] by auto
    have "distinct (map armKind (wfArms n))" by (rule each_indexed_distinct [OF c]) simp
    moreover have "set outcome_names \<subseteq> set (map armKind (wfArms n))"
      using all by (simp add: result_kinds_def outcome_names_def)
    ultimately show ?thesis using sound_match [OF se arms]
      by (simp add: compiles_soundly_def compile 6)
  next
    case 7
    then obtain body cleanup where bc: "wfBody n = Some body" "wfCleanup n = Some cleanup"
      and c: "validateWorkflowFlowNode uni packages (path @ ''.body'') body inherited = []"
        "validateWorkflowFlowNode uni packages (path @ ''.cleanup'') cleanup inherited = []"
      using v by (auto split: option.splits)
    from less.IH [OF size_body [OF bc(1)] c(1)] less.IH [OF size_cleanup [OF bc(2)] c(2)]
    show ?thesis using sound_finally [OF bc] by (simp add: compiles_soundly_def compile 7)
  next
    case 8
    with v have fe: "for_each_diags path n = []"
      and c: "each_indexed (\<lambda>i item. item_diags path i item
            @ validateWorkflowFlowNode uni packages (indexed (path @ ''.items'') i @ ''.flow'') (itemFlow item) inherited)
            (wfItems n) = []" by simp_all
    have "compiles_soundly compileAuthoringNode (itemFlow i)" if "i \<in> set (wfItems n)" for i
      using each_indexed_all [OF c that] less.IH [OF size_item [OF that]] by auto
    then show ?thesis using sound_for_each [OF fe] by (simp add: compiles_soundly_def compile 8)
  next
    case 9
    then obtain p t where pt: "wfPredicate n = Some p" "wfThen n = Some t"
      and c: "validateWorkflowFlowNode uni packages (path @ ''.then'') t inherited = []"
        "\<And>e. wfElse n = Some e \<Longrightarrow> validateWorkflowFlowNode uni packages (path @ ''.else'') e inherited = []"
      using v by (auto split: option.splits)
    from less.IH [OF size_then [OF pt(2)] c(1)] less.IH [OF size_else c(2)]
    show ?thesis using sound_when [OF pt] by (simp add: compiles_soundly_def compile 9)
  next
    case 10
    with v show ?thesis by simp
  qed
qed

text \<open>Counting the iterations can only fail for the expansion limit.\<close>

lemma planned_count_limit:
  assumes "plannedIterationCount n budget = Inl e"
  shows "limit_error e"
proof -
  have items: "sound (count_items m acc)" for m acc
    by (auto simp: count_items_def Let_def limit_error_def has_prefix_def)
  have each: "sound (visit_each rec ns acc)" if "\<And>m a. m \<in> set ns \<Longrightarrow> sound (rec m a)" for rec ns acc
    using that by (induction ns arbitrary: acc) (auto intro!: sound_bind)
  have visit: "sound (visit_count m acc)" for m acc
  proof (induction m acc rule: visit_count.induct)
    case (1 m acc)
    show ?case
      unfolding visit_count.simps [of m]
      by (rule sound_bind [OF items], rule each) (rule "1.IH")
  qed
  show ?thesis
    using assms visit [of n "(0, ''workflow'')"]
    by (auto simp: plannedIterationCount_def limit_error_def has_prefix_def split: sum.splits prod.splits if_splits)
qed

lemma accepted_flow_compiles:
  assumes "validateWorkflowFlowNode uni packages path n inherited = []"
  shows "sound (compile_flow d n)"
proof (cases "plannedIterationCount n DefaultExpansionBudget")
  case (Inl e)
  with planned_count_limit [OF Inl] show ?thesis by (simp add: compile_flow_def)
next
  case (Inr k)
  have "sound (compileAuthoringNode n next b)" for "next" b
    using accepted_flow_node [OF assms] by (simp add: compiles_soundly_def)
  with Inr show ?thesis
    by (auto simp: compile_flow_def Let_def split: prod.splits intro!: sound_bind)
qed

end
