(* ===== verification/Go_Text.thy ===== *)
theory Go_Text
  imports Go_Paths
begin

text \<open>
  More of package \<open>strings\<close>: \<open>TrimSpace\<close>, and \<open>Split\<close>, \<open>SplitN\<close> and \<open>Count\<close> on a separator of
  several characters, which all look for the first occurrence and go on after it.
\<close>

definition trim_space :: "string \<Rightarrow> string" where
  "trim_space s = concat (rev (dropWhile is_space_rune (rev (dropWhile is_space_rune (runes s)))))"

text \<open>The text before and after the first occurrence.\<close>

fun cut_str :: "string \<Rightarrow> string \<Rightarrow> (string \<times> string) option" where
  "cut_str [] sep = (if sep = '''' then Some ('''', '''') else None)"
| "cut_str (c # cs) sep =
     (if has_prefix (c # cs) sep then Some ('''', drop (length sep) (c # cs))
      else map_option (\<lambda>(a, b). (c # a, b)) (cut_str cs sep))"

lemma cut_str_Some: "cut_str s sep = Some (a, b) \<Longrightarrow> s = a @ sep @ b"
proof (induction s arbitrary: a)
  case (Cons c cs)
  then show ?case by (auto simp: has_prefix_iff split: if_splits)
qed (auto split: if_splits)

lemma cut_str_None: "cut_str s sep = None \<longleftrightarrow> \<not> contains_str s sep"
  by (induction s) auto

lemma cut_str_first:
  "cut_str s sep = Some (a, b) \<Longrightarrow> a' @ sep @ b' = s \<Longrightarrow> length a \<le> length a'"
proof (induction s arbitrary: a a')
  case (Cons c cs)
  show ?case
  proof (cases "has_prefix (c # cs) sep")
    case True
    with Cons.prems(1) show ?thesis by simp
  next
    case False
    with Cons.prems(1) obtain a0 where a0: "cut_str cs sep = Some (a0, b)" "a = c # a0" by auto
    have "a' \<noteq> []"
    proof
      assume "a' = []"
      with Cons.prems(2) have "c # cs = sep @ b'" by simp
      with False show False unfolding has_prefix_iff by metis
    qed
    with Cons.prems(2) obtain a1 where a1: "a' = c # a1" "a1 @ sep @ b' = cs" by (cases a') auto
    from Cons.IH [OF a0(1) a1(2)] a0 a1 show ?thesis by simp
  qed
qed (auto split: if_splits)

function split_str :: "string \<Rightarrow> string \<Rightarrow> string list" where
  "split_str s sep =
     (if sep = '''' then [s]
      else (case cut_str s sep of None \<Rightarrow> [s] | Some (a, b) \<Rightarrow> a # split_str b sep))"
  by pat_completeness auto
termination
  by (relation "measure (\<lambda>(s, sep). length s)") (auto dest!: cut_str_Some)

declare split_str.simps [simp del]

text \<open>\<open>strings.Count\<close> of a non-empty text: occurrences that do not overlap.\<close>

definition count_str :: "string \<Rightarrow> string \<Rightarrow> nat" where
  "count_str s sep = length (split_str s sep) - 1"

lemma count_str_none: "sep \<noteq> '''' \<Longrightarrow> \<not> contains_str s sep \<Longrightarrow> count_str s sep = 0"
  by (simp add: count_str_def split_str.simps [of s] cut_str_None [symmetric])

lemma split_str_nonempty [simp]: "split_str s sep \<noteq> []"
  by (subst split_str.simps) (auto split: option.splits prod.splits)

lemma count_str_cut:
  "sep \<noteq> '''' \<Longrightarrow> cut_str s sep = Some (a, b) \<Longrightarrow> count_str s sep = Suc (count_str b sep)"
  by (simp add: count_str_def split_str.simps [of s] Suc_diff_1 length_greater_0_conv)

lemma count_str_zero: "sep \<noteq> '''' \<Longrightarrow> count_str s sep = 0 \<longleftrightarrow> \<not> contains_str s sep"
  using count_str_none [of sep s] count_str_cut [of sep s]
  by (cases "cut_str s sep") (auto simp: cut_str_None)

section \<open>Lower case\<close>

text \<open>
  \<open>strings.ToLower\<close>: ASCII bytes as they are, a byte that starts no valid sequence becomes the
  replacement character, and \<open>uni\<close> is the Unicode table for the other runes.
\<close>

definition lower_rune :: "(string \<Rightarrow> string) \<Rightarrow> string \<Rightarrow> string" where
  "lower_rune uni r =
     (case r of
        [c] \<Rightarrow> if of_char c < (128::nat)
               then [if byte_in 65 90 c then char_of (of_char c + 32 :: nat) else c]
               else utf8 [239, 191, 189]
      | _ \<Rightarrow> uni r)"

definition go_lower :: "(string \<Rightarrow> string) \<Rightarrow> string \<Rightarrow> string" where
  "go_lower uni s = concat (map (lower_rune uni) (runes s))"

section \<open>Replacing\<close>

text \<open>\<open>strings.ReplaceAll\<close> for a non-empty \<open>old\<close>, from left to right without overlaps.\<close>

function replace_all :: "string \<Rightarrow> string \<Rightarrow> string \<Rightarrow> string" where
  "replace_all s old new =
     (if old = '''' \<or> s = '''' then s
      else if has_prefix s old then new @ replace_all (drop (length old) s) old new
      else hd s # replace_all (tl s) old new)"
  by pat_completeness auto
termination by (relation "measure (\<lambda>(s, old, new). length s)") auto

declare replace_all.simps [simp del]

lemma replace_all_plain: "\<not> contains_str s old \<Longrightarrow> replace_all s old new = s"
proof (induction s)
  case (Cons c cs)
  then show ?case by (simp add: replace_all.simps [of "c # cs"])
qed (simp add: replace_all.simps)

text \<open>
  The text falls into segments around the occurrences that are replaced, and no segment contains
  another one.
\<close>

lemma join_Cons_char: "segs \<noteq> [] \<Longrightarrow> c # join_strings segs sep = join_strings ((c # hd segs) # tl segs) sep"
  by (cases segs; cases "tl segs") auto

lemma replace_all_segments:
  assumes "old \<noteq> ''''"
  shows "\<exists>segs. segs \<noteq> [] \<and> s = join_strings segs old \<and>
    (\<forall>new. replace_all s old new = join_strings segs new) \<and> (\<forall>g \<in> set segs. \<not> contains_str g old)"
proof (induction "length s" arbitrary: s rule: less_induct)
  case less
  show ?case
  proof (cases "contains_str s old")
    case False
    then show ?thesis by (intro exI [of _ "[s]"]) (simp add: replace_all_plain)
  next
    case True
    then have ne: "s \<noteq> ''''" using assms by (cases s) auto
    show ?thesis
    proof (cases "has_prefix s old")
      case pre: True
      then obtain t where t: "s = old @ t" by (auto simp: has_prefix_iff)
      with assms have "length t < length s" by simp
      from less [OF this] obtain segs where segs: "segs \<noteq> []" "t = join_strings segs old"
        "\<And>new. replace_all t old new = join_strings segs new" "\<forall>g \<in> set segs. \<not> contains_str g old" by blast
      have "replace_all s old new = join_strings ('''' # segs) new" for new
        using pre assms segs(1,3) by (simp add: t replace_all.simps [of "old @ t"] join_strings_Cons)
      moreover have "s = join_strings ('''' # segs) old" using segs(1,2) t by (simp add: join_strings_Cons)
      moreover have "\<forall>g \<in> set ('''' # segs). \<not> contains_str g old" using segs(4) assms by simp
      ultimately show ?thesis by (intro exI [of _ "'''' # segs"]) simp
    next
      case npre: False
      obtain c cs where c: "s = c # cs" using ne by (cases s) auto
      then have "length cs < length s" by simp
      from less [OF this] obtain segs where segs: "segs \<noteq> []" "cs = join_strings segs old"
        "\<And>new. replace_all cs old new = join_strings segs new" "\<forall>g \<in> set segs. \<not> contains_str g old" by blast
      obtain g gs where g: "segs = g # gs" using segs(1) by (cases segs) auto
      have "\<not> has_prefix (c # g) old"
      proof
        assume "has_prefix (c # g) old"
        moreover have "\<exists>u. s = (c # g) @ u"
          using segs(2) g c by (cases gs) auto
        ultimately have "has_prefix s old" unfolding has_prefix_iff by (metis append.assoc)
        with npre show False by simp
      qed
      then have "\<forall>x \<in> set ((c # g) # gs). \<not> contains_str x old" using segs(4) g by simp
      moreover have "replace_all s old new = join_strings ((c # g) # gs) new" for new
        using npre assms c segs(3) [of new] g join_Cons_char [of segs c new]
        by (simp add: replace_all.simps [of "c # cs"])
      moreover have "s = join_strings ((c # g) # gs) old"
        using c segs(2) g join_Cons_char [of segs c old] by simp
      ultimately show ?thesis by (intro exI [of _ "(c # g) # gs"]) simp
    qed
  qed
qed

section \<open>Fields\<close>

text \<open>\<open>strings.Fields\<close>: the texts between runs of white space.\<close>

function fields_of :: "string list \<Rightarrow> string list" where
  "fields_of rs =
     (case dropWhile is_space_rune rs of [] \<Rightarrow> []
      | r # rest \<Rightarrow>
          concat (takeWhile (\<lambda>x. \<not> is_space_rune x) (r # rest))
            # fields_of (dropWhile (\<lambda>x. \<not> is_space_rune x) rest))"
  by pat_completeness auto
termination
proof (relation "measure length", goal_cases)
  case (2 rs r rest)
  then have "length (r # rest) \<le> length rs" by (metis length_dropWhile_le)
  moreover have "length (dropWhile (\<lambda>x. \<not> is_space_rune x) rest) \<le> length rest" by (rule length_dropWhile_le)
  ultimately show ?case by simp
qed simp

declare fields_of.simps [simp del]

definition string_fields :: "string \<Rightarrow> string list" where
  "string_fields s = fields_of (runes s)"

section \<open>Visible ASCII text\<close>

text \<open>A text of visible ASCII characters: it reads as one rune for each byte, and nothing of it is trimmed.\<close>

definition visible :: "char \<Rightarrow> bool" where
  "visible c \<longleftrightarrow> byte_in 33 127 c"

lemma visible_width: "visible c \<Longrightarrow> rune_width (c # s) = 1"
  by (cases "c # s" rule: rune_width.cases) (auto simp: visible_def byte_in_def)

lemma visible_runes: "list_all visible s \<Longrightarrow> runes s = map (\<lambda>c. [c]) s"
  by (induction s) (simp_all add: runes.simps visible_width)

lemma visible_not_space: "visible c \<Longrightarrow> \<not> is_space_rune [c]"
  by (auto simp: visible_def byte_in_def is_space_rune_def utf8_def)

lemma visible_drop: "list_all visible s \<Longrightarrow> dropWhile is_space_rune (map (\<lambda>c. [c]) s) = map (\<lambda>c. [c]) s"
  by (cases s) (auto simp: visible_not_space)

lemma visible_trim: "list_all visible s \<Longrightarrow> trim_space s = s"
  using visible_drop [of "rev s"]
  by (simp add: trim_space_def visible_runes visible_drop rev_map [symmetric] concat_map_singleton)

lemma visible_not_blank: "list_all visible s \<Longrightarrow> s \<noteq> '''' \<Longrightarrow> \<not> is_blank s"
  by (cases s) (auto simp: is_blank_def visible_runes visible_not_space)

lemma visible_fields:
  assumes "list_all visible s" and "s \<noteq> ''''"
  shows "string_fields s = [s]"
proof -
  obtain c cs where s: "s = c # cs" using assms(2) by (cases s) auto
  have vis: "\<forall>x \<in> set cs. \<not> is_space_rune [x]" using assms(1) s by (auto simp: list_all_iff visible_not_space)
  have c: "\<not> is_space_rune [c]" using assms(1) s by (simp add: visible_not_space)
  have take: "takeWhile (\<lambda>x. \<not> is_space_rune x) (map (\<lambda>c. [c]) cs) = map (\<lambda>c. [c]) cs"
    using vis by (subst takeWhile_eq_all_conv) auto
  have drop: "dropWhile (\<lambda>x. \<not> is_space_rune x) (map (\<lambda>c. [c]) cs) = []"
    using vis by (subst dropWhile_eq_Nil_conv) auto
  have nil: "fields_of [] = []" by (simp add: fields_of.simps)
  have "string_fields s = fields_of ([c] # map (\<lambda>c. [c]) cs)"
    using visible_runes [OF assms(1)] by (simp add: string_fields_def s)
  then show ?thesis
    by (simp add: fields_of.simps [of "[c] # map (\<lambda>c. [c]) cs"] c take drop nil s concat_map_singleton)
qed

end
