(* ===== verification/Effect_Runner.thy ===== *)
theory Effect_Runner
  imports Workflow_Exec Path_Util Go_Text
begin

text \<open>
  How the executor runs one effect, \<open>executor.go\<close>: the choice between native operations,
  transfers and processes, the environment and working directory of a process, the redaction of
  its output, and \<open>ProjectOperations\<close>, which turns diagnostics into errors.  The native operations
  of package \<open>project\<close>, file transfer and the operating system are arguments; what
  \<open>ctx.Err()\<close> answers at a place in the code is an argument of that place.
\<close>

section \<open>Diagnostics of native operations\<close>

definition nativeDiagnostics :: "native_result \<Rightarrow> diagnostic list" where
  "nativeDiagnostics r =
     (case nrBuild r of Some b \<Rightarrow> borDiagnostics b
      | None \<Rightarrow> (case nrTest r of Some t \<Rightarrow> torDiagnostics t
         | None \<Rightarrow> (case nrAudit r of Some a \<Rightarrow> aorDiagnostics a | None \<Rightarrow> [])))"

definition hasErrorDiagnostics :: "diagnostic list \<Rightarrow> bool" where
  "hasErrorDiagnostics ds \<longleftrightarrow> list_ex (\<lambda>d. dgSeverity d = SeverityError) ds"

text \<open>The error of the first diagnostic that is one.\<close>

definition diagnostic_error :: "diagnostic list \<Rightarrow> effect_error option" where
  "diagnostic_error ds =
     map_option (\<lambda>d. plain_error (dgCode d @ '': '' @ dgMessage d)) (find (\<lambda>d. dgSeverity d = SeverityError) ds)"

lemma diagnostic_error_None: "diagnostic_error ds = None \<longleftrightarrow> \<not> hasErrorDiagnostics ds"
  by (auto simp: diagnostic_error_def hasErrorDiagnostics_def find_None_iff list_ex_iff)

section \<open>Project operations\<close>

text \<open>The operations of package \<open>project\<close>, with the arguments the code passes them.\<close>

record project_operations =
  opBuild :: "string list \<Rightarrow> string list \<Rightarrow> build_operation_result"
  opTest :: "string \<Rightarrow> string \<Rightarrow> string \<Rightarrow> test_operation_result"
  opAudit :: "string \<Rightarrow> bool \<Rightarrow> audit_operation_result"
  opSync :: "diagnostic list"
  opCheck :: "diagnostic list"
  opPack :: "string \<Rightarrow> diagnostic list"

definition workflowTestPackage :: "string list \<Rightarrow> string \<Rightarrow> effect_error + string" where
  "workflowTestPackage packages target =
     (if target = '''' then
        (if packages \<noteq> []
         then Inl (plain_error ''TSPACK_WORKFLOW_TEST_TARGET_REQUIRED: package-selected Test effects must declare a target'')
         else Inr '''')
      else (case packages of
              [p] \<Rightarrow> Inr p
            | _ \<Rightarrow> Inl (plain_error ''TSPACK_WORKFLOW_TEST_PACKAGE_REQUIRED: target-selected Test effects must declare exactly one package'')))"

definition operation_diagnostics ::
  "project_operations \<Rightarrow> string \<Rightarrow> string list \<Rightarrow> effect_error + diagnostic list" where
  "operation_diagnostics ops operation packages =
     (if operation = ''sync'' then Inr (opSync ops)
      else if operation = ''check'' then Inr (opCheck ops)
      else if operation = ''pack'' then
        (case packages of
           [] \<Rightarrow> Inr (opPack ops '''')
         | [p] \<Rightarrow> Inr (opPack ops p)
         | _ \<Rightarrow> Inl (plain_error ''TSPACK_WORKFLOW_TARGETING_UNSUPPORTED: pack accepts at most one package''))
      else Inl (plain_error (''TSPACK_WORKFLOW_STEP_UNSUPPORTED: '' @ operation)))"

definition project_Run ::
  "project_operations \<Rightarrow> effect_error option \<Rightarrow> string \<Rightarrow> string list \<Rightarrow> diagnostic list \<times> effect_error option" where
  "project_Run ops ctx operation packages =
     (case ctx of
        Some e \<Rightarrow> ([], Some e)
      | None \<Rightarrow>
          if packages \<noteq> [] \<and> operation \<noteq> ''pack''
          then ([], Some (plain_error (''TSPACK_WORKFLOW_TARGETING_UNSUPPORTED: '' @ operation
                  @ '' does not yet expose package selection'')))
          else (case operation_diagnostics ops operation packages of
                  Inl e \<Rightarrow> ([], Some e)
                | Inr ds \<Rightarrow> (ds, diagnostic_error ds)))"

definition no_result :: native_result where
  "no_result = \<lparr>nrBuild = None, nrTest = None, nrAudit = None\<rparr>"

text \<open>\<open>before\<close> and \<open>after\<close>: the context when the operation starts and when it has ended.\<close>

definition step_operation ::
  "project_operations \<Rightarrow> effect_error option \<Rightarrow> plan_step \<Rightarrow> effect_error + native_result \<times> diagnostic list \<times> effect_error option" where
  "step_operation ops before step =
     (if psOperation step = ''build'' then
        (let r = opBuild ops (psPackages step) (psTargets step)
         in Inr (no_result\<lparr>nrBuild := Some r\<rparr>, borDiagnostics r, None))
      else if psOperation step = ''test'' then
        (case workflowTestPackage (psPackages step) (psTarget step) of
           Inl e \<Rightarrow> Inl e
         | Inr p \<Rightarrow>
             (let r = opTest ops p (psTarget step) (psFilter step)
              in Inr (no_result\<lparr>nrTest := Some r\<rparr>, torDiagnostics r,
                   if torExitCode r \<noteq> 0 \<and> \<not> hasErrorDiagnostics (torDiagnostics r)
                   then Some (plain_error ''TSPACK_TEST_FAILED: one or more tests failed'') else None)))
      else if psOperation step = ''audit'' then
        (let r = opAudit ops (psAuditLevel step) (psRequireCoverage step)
         in Inr (no_result\<lparr>nrAudit := Some r\<rparr>, aorDiagnostics r, None))
      else (let (ds, e) = project_Run ops before (psOperation step) (psPackages step) in Inr (no_result, ds, e)))"

definition project_RunStep ::
  "project_operations \<Rightarrow> effect_error option \<Rightarrow> effect_error option \<Rightarrow> plan_step \<Rightarrow> native_result \<times> effect_error option" where
  "project_RunStep ops before after step =
     (case step_operation ops before step of
        Inl e \<Rightarrow> (no_result, Some e)
      | Inr (result, ds, err) \<Rightarrow>
          (case after of
             Some e \<Rightarrow> (result, Some e)
           | None \<Rightarrow> (case diagnostic_error ds of Some e \<Rightarrow> (result, Some e) | None \<Rightarrow> (result, err))))"

section \<open>The environment of a process\<close>

definition zero_environment :: environment where
  "zero_environment = \<lparr>envName = '''', envKind = '''', envValue = '''', envSecret = ''''\<rparr>"

definition env_by_name :: "environment list \<Rightarrow> environment list \<Rightarrow> string \<rightharpoonup> environment" where
  "env_by_name jobValues stepValues = foldl (\<lambda>m e. m(envName e \<mapsto> e)) Map.empty (jobValues @ stepValues)"

fun resolve_names ::
  "(string \<rightharpoonup> string) \<Rightarrow> (string \<rightharpoonup> environment) \<Rightarrow> string list \<Rightarrow> effect_error + string list \<times> string list" where
  "resolve_names lookup byName [] = Inr ([], [])"
| "resolve_names lookup byName (name # names) =
     (let v = zget zero_environment byName name in
      if envKind v = ''secret'' then
        (case lookup (envSecret v) of
           None \<Rightarrow> Inl (plain_error (''TSPACK_WORKFLOW_SECRET_MISSING: secret '' @ envSecret v
                     @ '' required by environment '' @ name))
         | Some secret \<Rightarrow>
             (case resolve_names lookup byName names of
                Inl e \<Rightarrow> Inl e
              | Inr (rs, ss) \<Rightarrow> Inr ((name @ ''='' @ secret) # rs, (if secret \<noteq> '''' then secret # ss else ss))))
      else (case resolve_names lookup byName names of
              Inl e \<Rightarrow> Inl e
            | Inr (rs, ss) \<Rightarrow> Inr ((name @ ''='' @ envValue v) # rs, ss)))"

definition resolveEnvironment ::
  "(string \<rightharpoonup> string) \<Rightarrow> environment list \<Rightarrow> environment list \<Rightarrow> effect_error + string list \<times> string list" where
  "resolveEnvironment lookup jobValues stepValues =
     resolve_names lookup (env_by_name jobValues stepValues)
       (sort_strings (remdups (map envName (jobValues @ stepValues))))"

section \<open>The working directory\<close>

text \<open>The workspace root and the declared packages, each with its name and root.\<close>

definition resolveCwd :: "string \<Rightarrow> (string \<times> string) list \<Rightarrow> string \<Rightarrow> effect_error + string" where
  "resolveCwd root_dir packages requested =
     (if requested = '''' \<or> requested = ''workspace'' then Inr root_dir
      else
        (let name = trim_prefix requested ''package:'' in
         case find (\<lambda>p. fst p = name) packages of
           None \<Rightarrow> Inl (plain_error (''TSPACK_WORKFLOW_PACKAGE_UNKNOWN: '' @ name))
         | Some (_, packageRoot) \<Rightarrow>
             (let candidate = path_clean (path_join [root_dir, packageRoot]) in
              case path_rel root_dir candidate of
                None \<Rightarrow> Inl (plain_error ''TSPACK_WORKFLOW_CWD_ESCAPE: package root escapes workspace'')
              | Some relative \<Rightarrow>
                  if relative = ''..'' \<or> has_prefix relative ''../''
                  then Inl (plain_error ''TSPACK_WORKFLOW_CWD_ESCAPE: package root escapes workspace'')
                  else Inr candidate)))"

section \<open>Output\<close>

definition redact :: "string list \<Rightarrow> string \<Rightarrow> string" where
  "redact secrets line = foldl (\<lambda>out secret. replace_all out secret ''[REDACTED]'') line secrets"

definition streamOutput :: "string \<Rightarrow> string \<Rightarrow> string \<Rightarrow> string list \<Rightarrow> string \<times> string \<Rightarrow> event" where
  "streamOutput w job step secrets line =
     (new_event EventStepOutput w job step StateZero)
       \<lparr>evtStream := fst line, evtOutput := redact secrets (snd line)\<rparr>"

definition diagnostic_event :: "string \<Rightarrow> string \<Rightarrow> string \<Rightarrow> diagnostic \<Rightarrow> event" where
  "diagnostic_event w job step d =
     (new_event EventStepDiagnostic w job step StateZero)
       \<lparr>evtCode := dgCode d, evtMessage := dgMessage d, evtDetails := dgDetails d,
        evtSeverity := (case dgSeverity d of SeverityError \<Rightarrow> ''error'' | SeverityWarning \<Rightarrow> ''warning''
                         | SeverityInfo \<Rightarrow> ''info'')\<rparr>"

section \<open>Running a step\<close>

text \<open>
  What the operating system answers to a command: a pipe, the start or the ownership of the
  process group fails, or the process runs, writes lines (each with its stream, in the order
  they are read) and is waited for; the errors are those of \<open>Wait\<close>, of the clean-up of the
  process tree and of the context afterwards.
\<close>

datatype process_result =
    PipeFailed effect_error
  | StartFailed effect_error
  | OwnershipFailed effect_error
  | Finished "(string \<times> string) list" "effect_error option" "effect_error option" "effect_error option"

definition wrap_error :: "string \<Rightarrow> effect_error \<Rightarrow> effect_error" where
  "wrap_error msg e = e\<lparr>eeText := msg @ '': '' @ eeText e\<rparr>"

definition process_error :: "process_result \<Rightarrow> effect_error option" where
  "process_error r =
     (case r of
        PipeFailed e \<Rightarrow> Some e
      | StartFailed e \<Rightarrow> Some (wrap_error ''TSPACK_WORKFLOW_PROCESS_START_FAILED'' e)
      | OwnershipFailed e \<Rightarrow> Some (wrap_error ''TSPACK_WORKFLOW_PROCESS_OWNERSHIP_FAILED'' e)
      | Finished out waited cleaned ctx \<Rightarrow>
          (case ctx of
             Some e \<Rightarrow> Some e
           | None \<Rightarrow>
               (case (if waited = None then map_option (wrap_error ''TSPACK_WORKFLOW_PROCESS_CLEANUP_FAILED'') cleaned
                      else waited) of
                  Some e \<Rightarrow> Some (wrap_error ''TSPACK_WORKFLOW_PROCESS_FAILED'' e)
                | None \<Rightarrow> None)))"

definition process_output :: "process_result \<Rightarrow> (string \<times> string) list" where
  "process_output r = (case r of Finished out _ _ _ \<Rightarrow> out | _ \<Rightarrow> [])"

text \<open>The executor: its operations either answer steps with a result, or only diagnostics.\<close>

datatype native_operations =
    Structured "plan_step \<Rightarrow> native_result \<times> effect_error option"
  | Unstructured "string \<Rightarrow> string list \<Rightarrow> diagnostic list \<times> effect_error option"

record executor =
  exRoot :: string
  exPackages :: "(string \<times> string) list"
  exNative :: "native_operations option"
  exEnvironment :: "string \<rightharpoonup> string"
  exTransfer :: "plan_step \<Rightarrow> native_result \<times> effect_error option"
  exProcess :: "string list \<Rightarrow> string \<Rightarrow> string list \<Rightarrow> process_result"

definition is_native :: "string \<Rightarrow> bool" where
  "is_native op \<longleftrightarrow> op \<in> {''sync'', ''check'', ''build'', ''test'', ''pack'', ''audit''}"

definition step_argv :: "string \<Rightarrow> plan_step \<Rightarrow> effect_error + string list" where
  "step_argv goos step =
     (if psOperation step = ''process'' then Inr (psCommand step)
      else if psOperation step = ''shellScript'' then
        (let shell = (if psShell step = '''' then (if goos = ''windows'' then ''powershell'' else ''sh'')
                      else psShell step) in
         Inr (if shell = ''powershell''
              then [''powershell'', ''-NoProfile'', ''-NonInteractive'', ''-Command'', psScript step]
              else [''sh'', ''-c'', psScript step]))
      else Inl (plain_error (''TSPACK_WORKFLOW_STEP_UNSUPPORTED: '' @ psOperation step)))"

definition run_native ::
  "native_operations \<Rightarrow> plan_step \<Rightarrow> native_result \<times> diagnostic list \<times> effect_error option" where
  "run_native native step =
     (case native of
        Structured run \<Rightarrow> (let (result, err) = run step in (result, nativeDiagnostics result, err))
      | Unstructured run \<Rightarrow>
          (let (ds, err) = run (psOperation step) (psPackages step) in (no_result, ds, err)))"

definition runStep ::
  "string \<Rightarrow> executor \<Rightarrow> string \<Rightarrow> plan_job \<Rightarrow> plan_step \<Rightarrow> native_result option \<times> effect_error option \<times> event list" where
  "runStep goos x w job step =
     (if psOperation step = ''transfer'' then
        (let (result, err) = exTransfer x step in (Some result, err, []))
      else if is_native (psOperation step) then
        (case exNative x of
           None \<Rightarrow> (None, Some (plain_error
             ''TSPACK_WORKFLOW_NATIVE_EXECUTOR_MISSING: native lifecycle operations are unavailable''), [])
         | Some native \<Rightarrow>
             (let (result, ds, err) = run_native native step in
              (Some result, err, map (diagnostic_event w (pjIdentity job) (psIdentity step)) ds)))
      else
        (case resolveEnvironment (exEnvironment x) (pjEnvironment job) (psEnvironment step) of
           Inl e \<Rightarrow> (None, Some e, [])
         | Inr (env, secrets) \<Rightarrow>
             (case resolveCwd (exRoot x) (exPackages x) (psCwd step) of
                Inl e \<Rightarrow> (None, Some e, [])
              | Inr cwd \<Rightarrow>
                  (case step_argv goos step of
                     Inl e \<Rightarrow> (None, Some e, [])
                   | Inr argv \<Rightarrow>
                       (let r = exProcess x argv cwd env in
                        (None, process_error r,
                         map (streamOutput w (pjIdentity job) (psIdentity step) secrets) (process_output r)))))))"

end
