(* ===== verification/Runner_Props.thy ===== *)
theory Runner_Props
  imports Effect_Runner Manifest_Workflow
begin

text \<open>
  What the effect runner guarantees: working directories stay in the workspace, environments are
  resolved name by name, redaction cuts every occurrence of a secret, errors of native operations
  are never lost, and the steps that the manifest checks accept can be run.
\<close>

section \<open>Working directories\<close>

lemma join_plain_up:
  assumes "clean_form r cs" and "cs \<noteq> []" and "''..'' \<notin> set cs"
  shows "join_strings cs ''/'' \<noteq> ''..''" and "\<not> has_prefix (join_strings cs ''/'') ''../''"
proof -
  have s: "split_on (CHR ''/'') (join_strings cs ''/'') = cs"
    using clean_form_elems [OF assms(1)] assms(2) by (intro split_join) auto
  show "join_strings cs ''/'' \<noteq> ''..''"
  proof
    assume "join_strings cs ''/'' = ''..''"
    with s have "cs = [''..'']" by simp
    with assms(3) show False by simp
  qed
  show "\<not> has_prefix (join_strings cs ''/'') ''../''"
  proof
    assume "has_prefix (join_strings cs ''/'') ''../''"
    then obtain t where "join_strings cs ''/'' = ''../'' @ t" by (auto simp: has_prefix_iff)
    with s have "cs = ''..'' # split_on (CHR ''/'') t" by simp
    with assms(3) show False by simp
  qed
qed

lemma clean_form_drop: "clean_form r cs \<Longrightarrow> clean_form r (drop k cs)"
proof (induction cs arbitrary: k)
  case (Cons c cs)
  have "clean_form r cs" using Cons.prems by (auto split: if_splits intro: clean_form_plain)
  with Cons show ?case by (cases k) auto
qed simp

lemma path_rel_of_under:
  assumes "path_under base targ"
  shows "\<exists>r. path_rel base targ = Some r \<and> r \<noteq> ''..'' \<and> \<not> has_prefix r ''../''"
proof (cases "path_clean targ = path_clean base")
  case True
  then show ?thesis by (simp add: path_rel_def has_prefix_def)
next
  case False
  let ?bs = "path_components base"
  define rest where "rest = drop (length ?bs) (path_components targ)"
  have u: "is_rooted targ = is_rooted base" "path_components targ = ?bs @ rest" "''..'' \<notin> set rest"
    using assms append_take_drop_id [of "length ?bs" "path_components targ"]
    by (simp_all add: path_under_def rest_def)
  have ne: "rest \<noteq> []" using False u by (auto simp: path_clean_eq_iff)
  have dot: "path_clean targ \<noteq> ''.''" using u ne by (auto simp: path_clean_dot)
  have form: "clean_form (is_rooted targ) rest"
    unfolding rest_def by (rule clean_form_drop) (rule path_components_form)
  have "path_rel base targ = Some (join_strings rest ''/'')"
    using False u(1) dot by (simp add: path_rel_def Let_def u(2) common_prefix_append starts_up_def)
  with join_plain_up [OF form ne u(3)] show ?thesis by blast
qed

lemma path_under_refl [simp]: "path_under p p"
  by (simp add: path_under_def)

lemma path_under_clean [simp]: "path_under base (path_clean p) = path_under base p"
  by (simp add: path_under_def)

lemma resolveCwd_exact:
  "resolveCwd base packages req =
     (if req = '''' \<or> req = ''workspace'' then Inr base
      else case find (\<lambda>p. fst p = trim_prefix req ''package:'') packages of
        None \<Rightarrow> Inl (plain_error (''TSPACK_WORKFLOW_PACKAGE_UNKNOWN: '' @ trim_prefix req ''package:''))
      | Some p \<Rightarrow>
          if path_under base (path_join [base, snd p]) then Inr (path_clean (path_join [base, snd p]))
          else Inl (plain_error ''TSPACK_WORKFLOW_CWD_ESCAPE: package root escapes workspace''))"
proof -
  have inside: "(case path_rel base c of None \<Rightarrow> Inl e
      | Some r \<Rightarrow> if r = ''..'' \<or> has_prefix r ''../'' then Inl e else Inr c)
    = (if path_under base c then Inr c else Inl e)" for c e
    using path_rel_under [of base c] path_rel_of_under [of base c] by (auto split: option.splits)
  show ?thesis
    by (auto simp: resolveCwd_def Let_def inside split: option.splits prod.splits)
qed

lemma resolveCwd_under: "resolveCwd base packages req = Inr d \<Longrightarrow> path_under base d"
  by (auto simp: resolveCwd_exact split: if_splits option.splits)

lemma safe_package_root:
  assumes "r = '''' \<or> IsSafePackageRoot r" and "base \<noteq> ''''"
  shows "path_under base (path_join [base, r])"
  using assms safe_root_below [of r base] by (auto simp: path_join_def)

section \<open>Environments\<close>

definition env_value :: "(string \<rightharpoonup> string) \<Rightarrow> environment \<Rightarrow> string option" where
  "env_value lookup e = (if envKind e = ''secret'' then lookup (envSecret e) else Some (envValue e))"

definition env_secret :: "(string \<rightharpoonup> string) \<Rightarrow> environment \<Rightarrow> string list" where
  "env_secret lookup e =
     (if envKind e = ''secret'' \<and> lookup (envSecret e) \<noteq> Some '''' then [the (lookup (envSecret e))] else [])"

lemma resolve_names_exact:
  "case resolve_names lookup m names of
     Inl _ \<Rightarrow> \<exists>n \<in> set names. env_value lookup (zget zero_environment m n) = None
   | Inr (rs, ss) \<Rightarrow>
       (\<forall>n \<in> set names. env_value lookup (zget zero_environment m n) \<noteq> None) \<and>
       rs = map (\<lambda>n. n @ ''='' @ the (env_value lookup (zget zero_environment m n))) names \<and>
       ss = concat (map (\<lambda>n. env_secret lookup (zget zero_environment m n)) names) \<and> '''' \<notin> set ss"
proof (induction names)
  case (Cons n names)
  let ?e = "zget zero_environment m n"
  show ?case
  proof (cases "resolve_names lookup m names")
    case (Inl e)
    with Cons show ?thesis
      by (auto simp: Let_def env_value_def split: option.splits)
  next
    case (Inr p)
    obtain rs ss where p: "p = (rs, ss)" by fastforce
    have IH: "(\<forall>n \<in> set names. env_value lookup (zget zero_environment m n) \<noteq> None) \<and>
      rs = map (\<lambda>n. n @ ''='' @ the (env_value lookup (zget zero_environment m n))) names \<and>
      ss = concat (map (\<lambda>n. env_secret lookup (zget zero_environment m n)) names) \<and> '''' \<notin> set ss"
      using Cons.IH unfolding Inr p sum.case prod.case .
    show ?thesis
    proof (cases "env_value lookup ?e")
      case None
      then show ?thesis using Inr p by (simp add: Let_def env_value_def split: if_splits)
    next
      case (Some v)
      then show ?thesis using Inr p IH
        by (auto simp: Let_def env_value_def env_secret_def split: if_splits)
    qed
  qed
qed simp

lemma env_by_name_last:
  "env_by_name jv sv n = find (\<lambda>e. envName e = n) (rev (jv @ sv))"
proof -
  have "foldl (\<lambda>m e. m(envName e \<mapsto> e)) m es n =
      (case find (\<lambda>e. envName e = n) (rev es) of None \<Rightarrow> m n | Some e \<Rightarrow> Some e)" for m es
    by (induction es rule: rev_induct) (auto split: option.splits)
  from this [of Map.empty "jv @ sv"] show ?thesis
    by (simp add: env_by_name_def del: foldl_append rev_append split: option.splits)
qed

text \<open>The declaration that counts for a name: the step's before the job's, the last before the others.\<close>

definition effective_env :: "environment list \<Rightarrow> environment list \<Rightarrow> string \<Rightarrow> environment" where
  "effective_env jv sv n = the (find (\<lambda>e. envName e = n) (rev (jv @ sv)))"

lemma effective_env_zget:
  assumes "n \<in> set (map envName (jv @ sv))"
  shows "zget zero_environment (env_by_name jv sv) n = effective_env jv sv n"
proof -
  obtain e where "find (\<lambda>e. envName e = n) (rev (jv @ sv)) = Some e"
    using assms by (cases "find (\<lambda>e. envName e = n) (rev (jv @ sv))") (auto simp: find_None_iff)
  then show ?thesis by (simp add: zget_def env_by_name_last effective_env_def)
qed

lemma effective_env_step:
  "n \<in> set (map envName sv) \<Longrightarrow> effective_env jv sv n \<in> set sv"
proof -
  assume n: "n \<in> set (map envName sv)"
  then obtain e where e: "find (\<lambda>e. envName e = n) (rev sv) = Some e"
    by (cases "find (\<lambda>e. envName e = n) (rev sv)") (auto simp: find_None_iff)
  have "find p (xs @ ys) = Some x" if "find p xs = Some x" for p xs ys and x :: environment
    using that by (induction xs) (auto split: if_splits)
  from this [OF e, of "rev jv"] find_SomeD [OF e] show ?thesis by (simp add: effective_env_def)
qed

lemma resolveEnvironment_exact:
  fixes jv sv
  defines "names \<equiv> sort_strings (remdups (map envName (jv @ sv)))"
  shows "case resolveEnvironment lookup jv sv of
     Inl _ \<Rightarrow> \<exists>n \<in> set names. env_value lookup (effective_env jv sv n) = None
   | Inr (rs, ss) \<Rightarrow>
       rs = map (\<lambda>n. n @ ''='' @ the (env_value lookup (effective_env jv sv n))) names \<and>
       (\<forall>n \<in> set names. env_value lookup (effective_env jv sv n) \<noteq> None) \<and>
       ss = concat (map (\<lambda>n. env_secret lookup (effective_env jv sv n)) names) \<and> '''' \<notin> set ss"
proof -
  have same: "zget zero_environment (env_by_name jv sv) n = effective_env jv sv n" if "n \<in> set names" for n
    by (rule effective_env_zget) (use that in \<open>simp add: names_def\<close>)
  have maps: "map (\<lambda>n. n @ ''='' @ the (env_value lookup (zget zero_environment (env_by_name jv sv) n))) names
      = map (\<lambda>n. n @ ''='' @ the (env_value lookup (effective_env jv sv n))) names"
    "map (\<lambda>n. env_secret lookup (zget zero_environment (env_by_name jv sv) n)) names
      = map (\<lambda>n. env_secret lookup (effective_env jv sv n)) names"
    by (simp_all add: same)
  show ?thesis
    using resolve_names_exact [where lookup = lookup and m = "env_by_name jv sv" and names = names] same
    unfolding resolveEnvironment_def names_def [symmetric] maps by (auto split: sum.splits)
qed

section \<open>Redaction\<close>

text \<open>Secrets are redacted in the order of their environment names, so a shorter one can break a longer.\<close>

lemma redaction_of_overlapping_secrets:
  "redact [''ab'', ''abcd''] ''abcd'' = ''[REDACTED]cd''"
  by (simp add: redact_def replace_all.simps has_prefix_def)

section \<open>Errors of native operations\<close>

lemma project_RunStep_success:
  assumes "project_RunStep ops before after step = (r, None)"
  shows "after = None \<and> \<not> hasErrorDiagnostics (nativeDiagnostics r) \<and>
    (case nrTest r of None \<Rightarrow> True | Some t \<Rightarrow> torExitCode t = 0)"
proof -
  from assms obtain ds err where s: "step_operation ops before step = Inr (r, ds, err)"
    and ok: "after = None" "diagnostic_error ds = None" "err = None"
    by (auto simp: project_RunStep_def split: sum.splits option.splits prod.splits)
  from ok(2) have "\<not> hasErrorDiagnostics ds" by (simp add: diagnostic_error_None)
  with s ok show ?thesis
    by (auto simp: step_operation_def no_result_def nativeDiagnostics_def hasErrorDiagnostics_def Let_def
        split: if_splits sum.splits prod.splits)
qed

section \<open>Accepted steps can be run\<close>

lemma native_operations_split: "native_operation op \<longleftrightarrow> is_native op \<or> op = ''transfer''"
  by (auto simp: native_operation_def is_native_def)

lemma sortedCopy_single: "length xs = 1 \<Longrightarrow> sortedCopy xs = xs"
  by (cases xs) (auto simp: sortedCopy_def sort_strings_def)

lemma accepted_operation:
  assumes "operation_diags path s = []"
  shows "native_operation (wsOperation s) \<or>
    wsOperation s = ''process'' \<and> wsCommand s \<noteq> [] \<or> wsOperation s = ''shellScript''"
  using assms by (auto simp: operation_diags_def split: if_splits)

lemma accepted_cwd:
  assumes "cwd_diags (fst ` set packages) path s = []"
    and "\<And>p. p \<in> set packages \<Longrightarrow> snd p = '''' \<or> IsSafePackageRoot (snd p)" and "base \<noteq> ''''"
  shows "\<exists>d. resolveCwd base packages (wsCwd s) = Inr d"
proof (cases "wsCwd s = '''' \<or> wsCwd s = ''workspace''")
  case False
  let ?n = "trim_prefix (wsCwd s) ''package:''"
  from assms(1) False have "?n \<in> fst ` set packages" by (auto simp: cwd_diags_def)
  then obtain p where p: "find (\<lambda>p. fst p = ?n) packages = Some p"
    by (cases "find (\<lambda>p. fst p = ?n) packages") (auto simp: find_None_iff)
  have "path_under base (path_join [base, snd p])"
    using safe_package_root [OF assms(2) assms(3)] find_SomeD [OF p] by blast
  then show ?thesis using False p by (simp add: resolveCwd_exact)
qed (auto simp: resolveCwd_def)

lemma accepted_test_package:
  assumes "operation_diags path s = []" and "wsOperation s = ''test''"
  shows "\<exists>p. workflowTestPackage (sortedCopy (wsPackages s)) (wsTarget s) = Inr p"
proof -
  have "native_step_diags path s = []" using assms by (simp add: operation_diags_def native_operation_def)
  with assms(2) have t: "\<not> (wsTarget s = '''' \<and> wsPackages s \<noteq> [])" "wsTarget s \<noteq> '''' \<longrightarrow> length (wsPackages s) = 1"
    by (auto simp: native_step_diags_def Let_def)
  show ?thesis
  proof (cases "wsTarget s = ''''")
    case True
    with t show ?thesis by (simp add: workflowTestPackage_def sortedCopy_def)
  next
    case False
    with t(2) obtain p where "wsPackages s = [p]" by (auto simp: length_Suc_conv)
    with False show ?thesis by (simp add: workflowTestPackage_def sortedCopy_single)
  qed
qed

lemma accepted_step_runs:
  assumes "validateWorkflowStep uni (fst ` set packages) path s = []"
    and "list_all (\<lambda>p. snd p = '''' \<or> IsSafePackageRoot (snd p)) packages" and "base \<noteq> ''''"
  shows "native_operation (wsOperation s) \<and>
      (case workflowTestPackage (sortedCopy (wsPackages s)) (wsTarget s) of Inl _ \<Rightarrow> wsOperation s \<noteq> ''test'' | Inr _ \<Rightarrow> True) \<or>
    (\<exists>d argv. resolveCwd base packages (wsCwd s) = Inr d \<and> path_under base d \<and>
      step_argv goos (planStepFromManifest s k pre) = Inr argv \<and> argv \<noteq> [])"
proof -
  from assms(1) have op: "operation_diags path s = []" and cwd: "cwd_diags (fst ` set packages) path s = []"
    by (simp_all add: validateWorkflowStep_def)
  show ?thesis
  proof (cases "native_operation (wsOperation s)")
    case True
    have "case workflowTestPackage (sortedCopy (wsPackages s)) (wsTarget s) of Inl _ \<Rightarrow> wsOperation s \<noteq> ''test'' | Inr _ \<Rightarrow> True"
      using accepted_test_package [OF op] by (cases "wsOperation s = ''test''") (auto split: sum.splits)
    with True show ?thesis by blast
  next
    case False
    with accepted_operation [OF op] have "\<exists>argv. step_argv goos (planStepFromManifest s k pre) = Inr argv \<and> argv \<noteq> []"
      by (auto simp: step_argv_def planStepFromManifest_def Let_def)
    moreover obtain d where "resolveCwd base packages (wsCwd s) = Inr d"
      using accepted_cwd [OF cwd _ assms(3)] assms(2) by (auto simp: list_all_iff)
    ultimately show ?thesis using resolveCwd_under by blast
  qed
qed

end
