(* ===== verification/Tape.thy ===== *)
theory Tape
  imports Go_Prelude
begin

text \<open>
  The tapes that \<open>internal/requirements\<close> and \<open>internal/authoring\<close> build from an ordered list:
  every element gets an entry, and an element shadows the latest earlier one of the same slot.
  \<open>tape_step\<close> is one round of that loop for any slot function and any kind of entry.  The tape is
  then described without the loop: an entry is shadowed by the next element of its slot, if there
  is one.  The locale states what the entries must provide, and what follows for which elements
  survive.
\<close>

section \<open>The loop\<close>

definition tape_step ::
  "('a \<Rightarrow> 'k) \<Rightarrow> (nat \<Rightarrow> 'a \<Rightarrow> 'e) \<Rightarrow> (nat \<Rightarrow> 'a \<Rightarrow> 'e \<Rightarrow> 'e) \<Rightarrow> 'e list \<times> ('k \<rightharpoonup> nat) \<Rightarrow> 'a \<Rightarrow> 'e list \<times> ('k \<rightharpoonup> nat)" where
  "tape_step slot fresh shade st x =
     (let (es, latest) = st; p = length es in
      ((case latest (slot x) of None \<Rightarrow> es | Some k \<Rightarrow> es[k := shade p x (es ! k)]) @ [fresh p x],
       latest(slot x \<mapsto> p)))"

definition tape_build ::
  "('a \<Rightarrow> 'k) \<Rightarrow> (nat \<Rightarrow> 'a \<Rightarrow> 'e) \<Rightarrow> (nat \<Rightarrow> 'a \<Rightarrow> 'e \<Rightarrow> 'e) \<Rightarrow> 'a list \<Rightarrow> 'e list \<times> ('k \<rightharpoonup> nat)" where
  "tape_build slot fresh shade xs = foldl (tape_step slot fresh shade) ([], Map.empty) xs"

section \<open>The tape without the loop\<close>

definition next_same :: "('a \<Rightarrow> 'k) \<Rightarrow> 'a list \<Rightarrow> nat \<Rightarrow> nat option" where
  "next_same slot xs i = find (\<lambda>j. slot (xs ! j) = slot (xs ! i)) [Suc i..<length xs]"

definition last_same :: "('a \<Rightarrow> 'k) \<Rightarrow> 'a list \<Rightarrow> 'k \<Rightarrow> nat option" where
  "last_same slot xs k = find (\<lambda>j. slot (xs ! j) = k) (rev [0..<length xs])"

definition tape_entry_at ::
  "('a \<Rightarrow> 'k) \<Rightarrow> (nat \<Rightarrow> 'a \<Rightarrow> 'e) \<Rightarrow> (nat \<Rightarrow> 'a \<Rightarrow> 'e \<Rightarrow> 'e) \<Rightarrow> 'a list \<Rightarrow> nat \<Rightarrow> 'e" where
  "tape_entry_at slot fresh shade xs i =
     (case next_same slot xs i of
        None \<Rightarrow> fresh i (xs ! i)
      | Some j \<Rightarrow> shade j (xs ! j) (fresh i (xs ! i)))"

lemma find_append: "find p (xs @ ys) = (case find p xs of None \<Rightarrow> find p ys | Some x \<Rightarrow> Some x)"
  by (induction xs) auto

lemma find_cong_set: "(\<And>x. x \<in> set xs \<Longrightarrow> p x = q x) \<Longrightarrow> find p xs = find q xs"
  by (induction xs) auto

lemma next_same_snoc:
  assumes "i < length xs"
  shows "next_same slot (xs @ [x]) i =
    (case next_same slot xs i of Some j \<Rightarrow> Some j
     | None \<Rightarrow> if slot x = slot (xs ! i) then Some (length xs) else None)"
proof -
  have "find (\<lambda>j. slot ((xs @ [x]) ! j) = slot ((xs @ [x]) ! i)) [Suc i..<length xs] = next_same slot xs i"
    unfolding next_same_def using assms by (intro find_cong_set) (simp add: nth_append)
  moreover have "[Suc i..<length (xs @ [x])] = [Suc i..<length xs] @ [length xs]" using assms by simp
  ultimately show ?thesis
    using assms by (simp add: next_same_def [of slot "xs @ [x]"] find_append nth_append split: option.splits)
qed

lemma next_same_last: "next_same slot (xs @ [x]) (length xs) = None"
  by (simp add: next_same_def)

lemma last_same_snoc:
  "last_same slot (xs @ [x]) k = (if slot x = k then Some (length xs) else last_same slot xs k)"
proof -
  have "find (\<lambda>j. slot ((xs @ [x]) ! j) = k) (rev [0..<length xs]) = last_same slot xs k"
    unfolding last_same_def by (intro find_cong_set) (simp add: nth_append)
  then show ?thesis by (simp add: last_same_def [of slot "xs @ [x]"])
qed

lemma next_same_Some: "next_same slot xs i = Some j \<Longrightarrow> i < j \<and> j < length xs \<and> slot (xs ! j) = slot (xs ! i)"
  by (auto simp: next_same_def dest: find_SomeD)

lemma next_same_None: "next_same slot xs i = None \<longleftrightarrow> (\<forall>j. i < j \<and> j < length xs \<longrightarrow> slot (xs ! j) \<noteq> slot (xs ! i))"
  by (auto simp: next_same_def find_None_iff)

lemma find_rev_upt_Some:
  "find p (rev [0..<n]) = Some i \<longleftrightarrow> i < n \<and> p i \<and> (\<forall>j. i < j \<and> j < n \<longrightarrow> \<not> p j)"
proof (induction n)
  case (Suc n)
  then show ?case by (auto simp: less_Suc_eq)
qed simp

lemma last_same_Some:
  "last_same slot xs k = Some i \<longleftrightarrow> i < length xs \<and> slot (xs ! i) = k \<and> next_same slot xs i = None"
  by (auto simp: last_same_def find_rev_upt_Some next_same_None)

lemma last_same_None: "last_same slot xs k = None \<longleftrightarrow> k \<notin> slot ` set xs"
  by (auto simp: last_same_def find_None_iff image_iff) (metis in_set_conv_nth)

lemma tape_build_exact:
  "tape_build slot fresh shade xs =
     (map (tape_entry_at slot fresh shade xs) [0..<length xs], last_same slot xs)"
proof (induction xs rule: rev_induct)
  case Nil
  show ?case by (auto simp: tape_build_def last_same_def)
next
  case (snoc x xs)
  let ?es = "map (tape_entry_at slot fresh shade xs) [0..<length xs]"
  let ?es' = "case last_same slot xs (slot x) of None \<Rightarrow> ?es
      | Some k \<Rightarrow> ?es[k := shade (length xs) x (?es ! k)]"
  have step: "tape_build slot fresh shade (xs @ [x]) =
      (?es' @ [fresh (length xs) x], (last_same slot xs)(slot x \<mapsto> length xs))"
    using snoc by (simp add: tape_build_def tape_step_def Let_def split: option.splits)
  have "?es' ! i = tape_entry_at slot fresh shade (xs @ [x]) i" if i: "i < length xs" for i
  proof (cases "last_same slot xs (slot x) = Some i")
    case True
    then have "next_same slot xs i = None" "slot (xs ! i) = slot x" by (simp_all add: last_same_Some)
    then show ?thesis using i True
      by (simp add: tape_entry_at_def next_same_snoc [OF i] nth_append)
  next
    case False
    then have "next_same slot xs i = None \<Longrightarrow> slot (xs ! i) \<noteq> slot x" using i by (auto simp: last_same_Some)
    then have "next_same slot (xs @ [x]) i = next_same slot xs i"
      by (auto simp: next_same_snoc [OF i] split: option.splits)
    moreover have "xs ! j = (xs @ [x]) ! j" if "next_same slot xs i = Some j" for j
      using next_same_Some [OF that] by (simp add: nth_append)
    ultimately have "tape_entry_at slot fresh shade (xs @ [x]) i = tape_entry_at slot fresh shade xs i"
      using i by (auto simp: tape_entry_at_def nth_append split: option.splits)
    then show ?thesis using False i by (auto split: option.splits)
  qed
  moreover have "length ?es' = length xs" by (auto split: option.splits)
  ultimately have es: "?es' @ [fresh (length xs) x] =
      map (tape_entry_at slot fresh shade (xs @ [x])) [0..<length (xs @ [x])]"
    by (intro nth_equalityI)
      (auto simp: nth_append less_Suc_eq tape_entry_at_def [of _ _ _ _ "length xs"] next_same_last)
  have "(last_same slot xs)(slot x \<mapsto> length xs) = last_same slot (xs @ [x])"
    by (rule ext) (simp add: last_same_snoc)
  with step es show ?case by simp
qed

section \<open>The survivors\<close>

text \<open>The elements that are the last of their slot, in order.\<close>

fun survivors :: "('a \<Rightarrow> 'k) \<Rightarrow> 'a list \<Rightarrow> 'a list" where
  "survivors slot [] = []"
| "survivors slot (x # xs) = (if slot x \<in> slot ` set xs then survivors slot xs else x # survivors slot xs)"

lemma survivors_subset: "set (survivors slot xs) \<subseteq> set xs"
  by (induction xs) auto

lemma survivors_slots: "slot ` set (survivors slot xs) = slot ` set xs"
  by (induction xs) auto

lemma survivors_distinct: "distinct (map slot (survivors slot xs))"
  using survivors_subset [of slot] by (induction xs) auto

lemma find_map: "find p (map f xs) = map_option f (find (\<lambda>x. p (f x)) xs)"
  by (induction xs) auto

lemma next_same_Cons:
  "next_same slot (x # xs) (Suc i) = map_option Suc (next_same slot xs i)"
  "next_same slot (x # xs) 0 = None \<longleftrightarrow> slot x \<notin> slot ` set xs"
proof -
  have shift: "[Suc k..<length (x # xs)] = map Suc [k..<length xs]" for k
    by (simp add: map_Suc_upt)
  show "next_same slot (x # xs) (Suc i) = map_option Suc (next_same slot xs i)"
    unfolding next_same_def shift find_map by simp
  show "next_same slot (x # xs) 0 = None \<longleftrightarrow> slot x \<notin> slot ` set xs"
    unfolding next_same_def shift find_map by (auto simp: find_None_iff in_set_conv_nth) (metis image_eqI nth_mem)
qed

lemma survivors_last:
  "survivors slot xs = map (nth xs) (filter (\<lambda>i. next_same slot xs i = None) [0..<length xs])"
proof (induction xs)
  case (Cons x xs)
  have "[0..<length (x # xs)] = 0 # map Suc [0..<length xs]"
    by (subst upt_conv_Cons) (simp_all add: map_Suc_upt del: upt_Suc)
  then have "map (nth (x # xs)) (filter (\<lambda>i. next_same slot (x # xs) i = None) [0..<length (x # xs)])
      = (if slot x \<notin> slot ` set xs then [x] else []) @
        map (nth xs) (filter (\<lambda>i. next_same slot xs i = None) [0..<length xs])"
    by (simp add: next_same_Cons filter_map comp_def)
  with Cons show ?case by simp
qed simp

lemma survivors_greatest:
  "sorted (map key xs) \<Longrightarrow> s \<in> set (survivors slot xs) \<Longrightarrow> x \<in> set xs \<Longrightarrow> slot x = slot s \<Longrightarrow>
    key x \<le> (key s :: 'b :: linorder)"
proof (induction xs)
  case (Cons y ys)
  show ?case
  proof (cases "s \<in> set (survivors slot ys)")
    case True
    then have s: "s \<in> set ys" using survivors_subset [of slot ys] by blast
    show ?thesis
    proof (cases "x = y")
      case True
      then show ?thesis using Cons.prems(1) s by simp
    next
      case False
      with Cons.prems Cons.IH [OF _ True] show ?thesis by simp
    qed
  next
    case False
    with Cons.prems(2) have "s = y" "slot y \<notin> slot ` set ys" by (simp_all split: if_splits)
    with Cons.prems(3,4) have "x = y" by (metis image_eqI set_ConsD)
    then show ?thesis using \<open>s = y\<close> by simp
  qed
qed simp

section \<open>The contract of entries\<close>

locale tape =
  fixes fresh :: "nat \<Rightarrow> 'a \<Rightarrow> 'e" and shade :: "nat \<Rightarrow> 'a \<Rightarrow> 'e \<Rightarrow> 'e"
    and item :: "'e \<Rightarrow> 'a" and live :: "'e \<Rightarrow> bool"
  assumes fresh_live: "live (fresh p x)" and fresh_item: "item (fresh p x) = x"
    and shade_live: "\<not> live (shade p x e)" and shade_item: "item (shade p x e) = item e"
begin

lemma entry_item: "item (tape_entry_at slot fresh shade xs i) = xs ! i"
  by (simp add: tape_entry_at_def fresh_item shade_item split: option.splits)

lemma entry_live: "live (tape_entry_at slot fresh shade xs i) \<longleftrightarrow> next_same slot xs i = None"
  by (simp add: tape_entry_at_def fresh_live shade_live split: option.splits)

lemma items: "map item (fst (tape_build slot fresh shade xs)) = xs"
  by (simp add: tape_build_exact comp_def entry_item map_nth)

lemma live_items:
  "map item (filter live (fst (tape_build slot fresh shade xs))) = survivors slot xs"
  by (simp add: tape_build_exact survivors_last filter_map comp_def entry_item entry_live)

end

end
