(* ===== verification/Requirements.thy ===== *)
theory Requirements
  imports Tape Go_Text "HOL-Library.Product_Lexorder" "HOL-Library.Multiset"
begin

text \<open>
  \<open>internal/requirements\<close>: the tape of package requirements of a shared environment.  It orders
  the requirements by precedence, lets the last of each slot control it, and classifies every
  entry once versions are selected.  The semantic-version library is an argument: parsing a
  constraint, parsing a version, and the check of one against the other.
\<close>

section \<open>Data\<close>

record package_identity =
  piSource :: string
  piName :: string

definition identity_key :: "package_identity \<Rightarrow> string" where
  "identity_key i = piSource i @ '':'' @ piName i"

record requirement_origin =
  roRequiringPackage :: string
  roPackageID :: string
  roDependencyKey :: string
  roSource :: string

record package_requirement =
  rqID :: string
  rqTarget :: package_identity
  rqReference :: string
  rqConstraint :: string
  rqKind :: string
  rqOptional :: bool
  rqOrigin :: requirement_origin
  rqEnvironment :: string
  rqOrder :: int

datatype requirement_status =
    StatusPending | StatusControlling | StatusSatisfied | StatusShadowedCompatible
  | StatusOverriddenIncompatible | StatusOptionalUnsatisfied | StatusInvalid

record tape_ref =
  refPosition :: nat
  refID :: string

record requirement_entry =
  reRequirement :: package_requirement
  rePosition :: nat
  reControlling :: bool
  reShadowedBy :: "tape_ref option"
  reStatus :: requirement_status
  reSelectedVersion :: string

section \<open>Building the tape\<close>

definition scope_key :: "string \<Rightarrow> string" where
  "scope_key environment = (if is_blank environment then ''workspace'' else environment)"

definition SlotKey :: "package_requirement \<Rightarrow> string" where
  "SlotKey r = scope_key (rqEnvironment r) @ ''|'' @ identity_key (rqTarget r)"

definition normalize_requirement :: "nat \<Rightarrow> package_requirement \<Rightarrow> package_requirement" where
  "normalize_requirement fallback r =
     (let r1 = (if rqEnvironment r = '''' then r\<lparr>rqEnvironment := ''workspace''\<rparr> else r);
          r2 = (if rqReference r1 = '''' then r1\<lparr>rqReference := piName (rqTarget r1)\<rparr> else r1)
      in if rqID r2 = '''' then r2\<lparr>rqID := ''requirement-'' @ pad_nat 6 fallback\<rparr> else r2)"

definition kindRank :: "string \<Rightarrow> int" where
  "kindRank kind =
     (if kind = ''transitive-runtime'' then 10
      else if kind = ''transitive-optional'' then 20
      else if kind = ''peer'' then 30
      else if kind = ''package-explicit'' then 40
      else if kind = ''target-explicit'' then 45
      else if kind = ''project-explicit'' then 50
      else if kind = ''override'' then 60
      else 0)"

text \<open>The order of precedence; among peers the optional ones come first.\<close>

definition requirement_key :: "package_requirement \<Rightarrow> int \<times> bool \<times> int \<times> string" where
  "requirement_key r =
     (kindRank (rqKind r), rqKind r = ''peer'' \<and> \<not> rqOptional r, rqOrder r, rqID r)"

definition fresh_requirement :: "nat \<Rightarrow> package_requirement \<Rightarrow> requirement_entry" where
  "fresh_requirement p r =
     \<lparr>reRequirement = r, rePosition = p, reControlling = True, reShadowedBy = None,
      reStatus = StatusPending, reSelectedVersion = ''''\<rparr>"

definition shade_requirement :: "nat \<Rightarrow> package_requirement \<Rightarrow> requirement_entry \<Rightarrow> requirement_entry" where
  "shade_requirement p r e =
     e\<lparr>reControlling := False, reShadowedBy := Some \<lparr>refPosition = p, refID = rqID r\<rparr>\<rparr>"

definition ordered_requirements :: "package_requirement list \<Rightarrow> package_requirement list" where
  "ordered_requirements input =
     sort_key requirement_key (map (\<lambda>(i, r). normalize_requirement i r) (enumerate 0 input))"

definition Build_requirements :: "package_requirement list \<Rightarrow> requirement_entry list" where
  "Build_requirements input =
     fst (foldl (tape_step SlotKey fresh_requirement shade_requirement) ([], Map.empty) (ordered_requirements input))"

definition Controllers :: "requirement_entry list \<Rightarrow> package_requirement list" where
  "Controllers entries = map reRequirement (filter reControlling entries)"

section \<open>Classification\<close>

text \<open>
  \<open>ParseConstraint\<close>: for npm, invalid alternatives of a disjunction are dropped when a valid one
  remains; \<open>parse\<close> is \<open>semver.NewConstraint\<close>.
\<close>

definition ParseConstraint :: "(string \<Rightarrow> 'c option) \<Rightarrow> string \<Rightarrow> string \<Rightarrow> 'c option" where
  "ParseConstraint parse source expression =
     (case parse expression of
        Some c \<Rightarrow> Some c
      | None \<Rightarrow>
          if source \<noteq> ''npm'' \<or> \<not> contains_str expression ''||'' then None
          else
            (let valid = filter (\<lambda>a. parse a \<noteq> None) (map trim_space (split_str expression ''||'')) in
             if valid = [] then None else parse (join_strings valid '' || '')))"

definition requirement_status_of ::
  "(string \<Rightarrow> 'c option) \<Rightarrow> (string \<Rightarrow> 'v option) \<Rightarrow> ('c \<Rightarrow> 'v \<Rightarrow> bool) \<Rightarrow> requirement_entry \<Rightarrow> string option \<Rightarrow> requirement_status" where
  "requirement_status_of parse version satisfies e selected =
     (let r = reRequirement e in
      case ParseConstraint parse (piSource (rqTarget r)) (rqConstraint r) of
        None \<Rightarrow> StatusInvalid
      | Some c \<Rightarrow>
          (case selected of
             None \<Rightarrow> if rqOptional r then StatusOptionalUnsatisfied else StatusPending
           | Some v \<Rightarrow>
               if v = '''' then (if rqOptional r then StatusOptionalUnsatisfied else StatusPending)
               else (case version v of
                       None \<Rightarrow> StatusInvalid
                     | Some sv \<Rightarrow>
                         if reControlling e then (if satisfies c sv then StatusControlling else StatusInvalid)
                         else if satisfies c sv then StatusShadowedCompatible
                         else if rqOptional r then StatusOptionalUnsatisfied
                         else StatusOverriddenIncompatible)))"

definition classify_entry ::
  "(string \<Rightarrow> 'c option) \<Rightarrow> (string \<Rightarrow> 'v option) \<Rightarrow> ('c \<Rightarrow> 'v \<Rightarrow> bool) \<Rightarrow> (string \<rightharpoonup> string) \<Rightarrow> requirement_entry \<Rightarrow> requirement_entry" where
  "classify_entry parse version satisfies selected e =
     (let s = selected (SlotKey (reRequirement e)) in
      e\<lparr>reSelectedVersion := (case s of None \<Rightarrow> '''' | Some v \<Rightarrow> v),
        reStatus := requirement_status_of parse version satisfies e s\<rparr>)"

definition Classify ::
  "(string \<Rightarrow> 'c option) \<Rightarrow> (string \<Rightarrow> 'v option) \<Rightarrow> ('c \<Rightarrow> 'v \<Rightarrow> bool) \<Rightarrow> (string \<rightharpoonup> string) \<Rightarrow> requirement_entry list \<Rightarrow> requirement_entry list" where
  "Classify parse version satisfies selected entries = map (classify_entry parse version satisfies selected) entries"

section \<open>What the tape guarantees\<close>

interpretation rq: tape fresh_requirement shade_requirement reRequirement reControlling
  by unfold_locales (simp_all add: fresh_requirement_def shade_requirement_def)

lemma Build_requirements_eq:
  "Build_requirements input = fst (tape_build SlotKey fresh_requirement shade_requirement (ordered_requirements input))"
  by (simp add: Build_requirements_def tape_build_def)

lemma Build_requirements_items: "map reRequirement (Build_requirements input) = ordered_requirements input"
  by (simp add: Build_requirements_eq rq.items)

lemma Controllers_survivors: "Controllers (Build_requirements input) = survivors SlotKey (ordered_requirements input)"
  by (simp add: Controllers_def Build_requirements_eq rq.live_items)

lemma ordered_sorted: "sorted (map requirement_key (ordered_requirements input))"
  by (simp add: ordered_requirements_def)

lemma ordered_mset:
  "mset (ordered_requirements input) = mset (map (\<lambda>(i, r). normalize_requirement i r) (enumerate 0 input))"
  by (simp add: ordered_requirements_def)

text \<open>With identities given, the tape does not depend on the order of discovery.\<close>

lemma normalize_given: "rqID r \<noteq> '''' \<Longrightarrow> normalize_requirement i r = normalize_requirement 0 r"
  by (simp add: normalize_requirement_def Let_def)

lemma normalize_all_given:
  "(\<And>r. r \<in> set input \<Longrightarrow> rqID r \<noteq> '''') \<Longrightarrow>
    map (\<lambda>(i, r). normalize_requirement i r) (enumerate k input) = map (normalize_requirement 0) input"
proof (induction input arbitrary: k)
  case (Cons r input)
  then show ?case using normalize_given [of r k] by simp
qed simp

lemma normalize_ID: "rqID r \<noteq> '''' \<Longrightarrow> rqID (normalize_requirement i r) = rqID r"
  by (simp add: normalize_requirement_def Let_def)

lemma ordered_by_identity:
  assumes "mset input = mset input'" and "distinct (map rqID input)" and "'''' \<notin> set (map rqID input)"
  shows "ordered_requirements input = ordered_requirements input'"
proof -
  have same: "set input = set input'" using assms(1) by (rule mset_eq_setD)
  have given: "\<And>r. r \<in> set input \<Longrightarrow> rqID r \<noteq> ''''" using assms(3) by force
  then have given': "\<And>r. r \<in> set input' \<Longrightarrow> rqID r \<noteq> ''''" using same by simp
  have inj: "inj_on requirement_key (set (map (normalize_requirement 0) input))"
  proof (rule inj_onI)
    fix a b
    assume "a \<in> set (map (normalize_requirement 0) input)" "b \<in> set (map (normalize_requirement 0) input)"
      and k: "requirement_key a = requirement_key b"
    then obtain r s where rs: "r \<in> set input" "a = normalize_requirement 0 r" "s \<in> set input" "b = normalize_requirement 0 s"
      by auto
    with k given have "rqID r = rqID s" by (simp add: requirement_key_def normalize_ID)
    then have "r = s" using assms(2) rs by (auto simp: distinct_map dest: inj_onD)
    with rs show "a = b" by simp
  qed
  have "sort_key requirement_key (map (normalize_requirement 0) input) = ordered_requirements input'"
  proof (rule sort_key_inj_key_eq)
    show "mset (map (normalize_requirement 0) input) = mset (ordered_requirements input')"
      using assms(1) by (simp add: ordered_mset normalize_all_given [OF given'])
    show "inj_on requirement_key (set (map (normalize_requirement 0) input))" by (rule inj)
    show "sorted (map requirement_key (ordered_requirements input'))" by (rule ordered_sorted)
  qed
  then show ?thesis by (simp add: ordered_requirements_def normalize_all_given [OF given])
qed

section \<open>Precedence and classification\<close>

definition normalized_requirements :: "package_requirement list \<Rightarrow> package_requirement list" where
  "normalized_requirements input = map (\<lambda>(i, r). normalize_requirement i r) (enumerate 0 input)"

lemma ordered_set: "set (ordered_requirements input) = set (normalized_requirements input)"
  by (simp add: ordered_requirements_def normalized_requirements_def)

lemma controller_slots: "SlotKey ` set (Controllers (Build_requirements input)) = SlotKey ` set (normalized_requirements input)"
  by (simp only: Controllers_survivors survivors_slots ordered_set)

lemma controller_precedence:
  "c \<in> set (Controllers (Build_requirements input)) \<Longrightarrow> r \<in> set (normalized_requirements input) \<Longrightarrow>
    SlotKey r = SlotKey c \<Longrightarrow> requirement_key r \<le> requirement_key c"
  unfolding Controllers_survivors ordered_set [symmetric]
  by (rule survivors_greatest [OF ordered_sorted])

lemma kind_precedence: "requirement_key r \<le> requirement_key c \<Longrightarrow> kindRank (rqKind r) \<le> kindRank (rqKind c)"
  by (auto simp: requirement_key_def)

lemma required_peer_precedence:
  "requirement_key r \<le> requirement_key c \<Longrightarrow> rqKind r = ''peer'' \<Longrightarrow> \<not> rqOptional r \<Longrightarrow> rqKind c = ''peer'' \<Longrightarrow>
    \<not> rqOptional c"
  by (auto simp: requirement_key_def)

definition met ::
  "(string \<Rightarrow> 'c option) \<Rightarrow> (string \<Rightarrow> 'v option) \<Rightarrow> ('c \<Rightarrow> 'v \<Rightarrow> bool) \<Rightarrow> (string \<rightharpoonup> string) \<Rightarrow> package_requirement \<Rightarrow> bool" where
  "met parse version satisfies selected r =
     (case (ParseConstraint parse (piSource (rqTarget r)) (rqConstraint r), selected (SlotKey r)) of
        (Some c, Some v) \<Rightarrow> v \<noteq> '''' \<and> (case version v of None \<Rightarrow> False | Some sv \<Rightarrow> satisfies c sv)
      | _ \<Rightarrow> False)"

lemma status_met:
  "requirement_status_of parse version satisfies e (selected (SlotKey (reRequirement e))) = StatusControlling \<longleftrightarrow>
     reControlling e \<and> met parse version satisfies selected (reRequirement e)"
  "requirement_status_of parse version satisfies e (selected (SlotKey (reRequirement e))) = StatusShadowedCompatible \<longleftrightarrow>
     \<not> reControlling e \<and> met parse version satisfies selected (reRequirement e)"
  by (auto simp: requirement_status_of_def met_def Let_def split: option.splits)

lemma shadowed_met:
  "e \<in> set (Build_requirements input) \<Longrightarrow> \<not> reControlling e \<Longrightarrow>
    \<exists>c \<in> set (Controllers (Build_requirements input)). SlotKey c = SlotKey (reRequirement e)"
proof -
  assume "e \<in> set (Build_requirements input)"
  then have "reRequirement e \<in> set (map reRequirement (Build_requirements input))" by simp
  then have "reRequirement e \<in> set (normalized_requirements input)"
    by (simp only: Build_requirements_items ordered_set)
  with controller_slots [of input] show ?thesis by (metis imageE imageI)
qed


lemma classified_reads:
  "reRequirement (classify_entry parse version satisfies selected e) = reRequirement e"
  "reControlling (classify_entry parse version satisfies selected e) = reControlling e"
  "reStatus (classify_entry parse version satisfies selected e) =
     requirement_status_of parse version satisfies e (selected (SlotKey (reRequirement e)))"
  by (simp_all add: classify_entry_def Let_def)

lemma all_met:
  "(\<forall>e \<in> set (Build_requirements input). met parse version satisfies selected (reRequirement e)) \<longleftrightarrow>
     (\<forall>r \<in> set (normalized_requirements input). met parse version satisfies selected r)"
proof -
  have "reRequirement ` set (Build_requirements input) = set (normalized_requirements input)"
    using arg_cong [OF Build_requirements_items [of input], of set] by (simp add: ordered_set)
  then show ?thesis by (metis imageE imageI)
qed

end
