(* ===== verification/Package_Identity.thy ===== *)
theory Package_Identity
  imports Requirements
begin

text \<open>
  \<open>internal/packageidentity\<close>: how a package is spelled for Node, the two translations between JSR
  names and names of the npm compatibility registry, and the identity of a package instantiated
  under its peers.  SHA-256 with its hexadecimal text is an argument.
\<close>

section \<open>Names\<close>

record materialization_identity =
  miSource :: string
  miName :: string

record import_identity =
  iiRuntime :: string
  iiSpecifier :: string

record package_usage =
  puSemantic :: package_identity
  puMaterializedAs :: materialization_identity
  puImport :: import_identity
  puNotes :: "string list"

datatype identity_error =
    NpmNameEmpty
  | NoNodeMapping string
  | JSRNotRepresentable string
  | JSRCompatUnsupported string
  | JSRCompatAmbiguous string
  | JSRCompatInvalid string identity_error
  | JSRForm string
  | JSRCharacters string

definition contains_any :: "string \<Rightarrow> string \<Rightarrow> bool" where
  "contains_any s chars \<longleftrightarrow> list_ex (\<lambda>c. c \<in> set chars) s"

definition jsr_forbidden :: string where
  "jsr_forbidden = [CHR 0x5C, CHR '':'', CHR ''@'']"

definition splitJSRName :: "string \<Rightarrow> identity_error + string \<times> string" where
  "splitJSRName name =
     (if \<not> has_prefix name ''@'' then Inl (JSRForm name)
      else
        (case split_on (CHR ''/'') (drop 1 name) of
           [scope, pkg] \<Rightarrow>
             if is_blank scope \<or> is_blank pkg then Inl (JSRForm name)
             else if contains_any scope jsr_forbidden \<or> contains_any pkg jsr_forbidden then Inl (JSRCharacters name)
             else Inr (scope, pkg)
         | _ \<Rightarrow> Inl (JSRForm name)))"

definition JSRCompatibilityName :: "string \<Rightarrow> identity_error + string" where
  "JSRCompatibilityName name =
     (case splitJSRName name of
        Inl err \<Rightarrow> Inl err
      | Inr (scope, pkg) \<Rightarrow>
          if contains_str scope ''__'' \<or> contains_str pkg ''__'' then Inl (JSRNotRepresentable name)
          else Inr (''@jsr/'' @ scope @ ''__'' @ pkg))"

definition LogicalJSRName :: "string \<Rightarrow> identity_error + string" where
  "LogicalJSRName name =
     (if \<not> has_prefix name ''@jsr/'' then Inl (JSRCompatUnsupported name)
      else
        (let v = drop 5 name in
         if count_str v ''__'' \<noteq> 1 then Inl (JSRCompatAmbiguous name)
         else
           (case cut_str v ''__'' of
              None \<Rightarrow> Inl (JSRCompatAmbiguous name)
            | Some (scope, pkg) \<Rightarrow>
                let logical = ''@'' @ scope @ ''/'' @ pkg in
                (case splitJSRName logical of
                   Inl err \<Rightarrow> Inl (JSRCompatInvalid name err)
                 | Inr _ \<Rightarrow> Inr logical))))"

definition NodeUsage :: "package_identity \<Rightarrow> identity_error + package_usage" where
  "NodeUsage identity =
     (let usage = \<lparr>puSemantic = identity,
            puMaterializedAs = \<lparr>miSource = piSource identity, miName = piName identity\<rparr>,
            puImport = \<lparr>iiRuntime = ''node'', iiSpecifier = piName identity\<rparr>, puNotes = []\<rparr>
      in if piSource identity = ''npm'' then
           (if is_blank (piName identity) then Inl NpmNameEmpty else Inr usage)
         else if piSource identity = ''jsr'' then
           (case JSRCompatibilityName (piName identity) of
              Inl err \<Rightarrow> Inl err
            | Inr c \<Rightarrow> Inr (usage\<lparr>puMaterializedAs := \<lparr>miSource = ''npm-compat'', miName = c\<rparr>,
                puImport := \<lparr>iiRuntime = ''node'', iiSpecifier = c\<rparr>,
                puNotes := [''JSR semantic identity is preserved; Node and TypeScript consume the JSR npm-compatibility package name.'']\<rparr>))
         else Inl (NoNodeMapping (piSource identity)))"

section \<open>Module instances\<close>

record peer_binding =
  pbReference :: string
  pbSource :: string
  pbName :: string
  pbRealizationID :: string
  pbInstanceID :: string
  pbOptional :: bool
  pbState :: string

record peer_context =
  pcID :: string
  pcBindings :: "peer_binding list"

record id_instance =
  idiID :: string
  idiRealizationID :: string
  idiPeerContext :: peer_context

definition nul :: string where
  "nul = [CHR 0x00]"

definition newline :: string where
  "newline = [CHR 0x0A]"

definition peer_fields :: "peer_binding \<Rightarrow> string list" where
  "peer_fields b = [pbReference b, pbSource b, pbName b, pbState b,
     if pbOptional b then ''optional'' else ''required'', pbRealizationID b, pbInstanceID b]"

definition peerBindingKey :: "peer_binding \<Rightarrow> string" where
  "peerBindingKey b = join_strings (peer_fields b) nul"

definition canonical_binding :: "peer_binding \<Rightarrow> peer_binding" where
  "canonical_binding b =
     (let t = b\<lparr>pbReference := trim_space (pbReference b), pbSource := trim_space (pbSource b),
                pbName := trim_space (pbName b), pbRealizationID := trim_space (pbRealizationID b),
                pbInstanceID := trim_space (pbInstanceID b)\<rparr>
      in if pbState t = '''' then
           t\<lparr>pbState := (if pbRealizationID t = '''' then ''absent'' else ''present'')\<rparr>
         else t)"

definition CanonicalPeerBindings :: "peer_binding list \<Rightarrow> peer_binding list" where
  "CanonicalPeerBindings bindings = sort_key peerBindingKey (map canonical_binding bindings)"

definition peer_context_text :: "peer_binding list \<Rightarrow> string" where
  "peer_context_text bindings =
     ''tspack-peer-context-v1'' @ newline @ concat (map (\<lambda>b. peerBindingKey b @ newline) bindings)"

definition peerContextDigest :: "(string \<Rightarrow> string) \<Rightarrow> peer_binding list \<Rightarrow> string" where
  "peerContextDigest sha bindings = sha (peer_context_text bindings)"

definition NewModuleInstance :: "(string \<Rightarrow> string) \<Rightarrow> string \<Rightarrow> peer_binding list \<Rightarrow> id_instance" where
  "NewModuleInstance sha realization bindings =
     (let canonical = CanonicalPeerBindings bindings; digest = peerContextDigest sha canonical
      in \<lparr>idiID = realization @ ''#peers='' @ digest, idiRealizationID = realization,
          idiPeerContext = \<lparr>pcID = ''peer-context:sha256:'' @ digest, pcBindings = canonical\<rparr>\<rparr>)"

section \<open>The two translations\<close>

lemma split_pair_iff:
  "split_on d s = [a, b] \<longleftrightarrow> s = a @ d # b \<and> d \<notin> set a \<and> d \<notin> set b"
proof
  assume sp: "split_on d s = [a, b]"
  with join_split [of d s] have "s = a @ d # b" by simp
  moreover have "d \<notin> set a \<and> d \<notin> set b" using split_on_no_sep [of _ d s] sp by simp
  ultimately show "s = a @ d # b \<and> d \<notin> set a \<and> d \<notin> set b" by simp
next
  assume "s = a @ d # b \<and> d \<notin> set a \<and> d \<notin> set b"
  then show "split_on d s = [a, b]" by (simp add: split_on_append split_on_plain)
qed

lemma splitJSRName_Inr:
  "splitJSRName name = Inr (scope, pkg) \<longleftrightarrow>
     name = ''@'' @ scope @ ''/'' @ pkg \<and> CHR ''/'' \<notin> set (scope @ pkg) \<and> \<not> is_blank scope \<and> \<not> is_blank pkg \<and>
     \<not> contains_any scope jsr_forbidden \<and> \<not> contains_any pkg jsr_forbidden"
proof (cases name)
  case Nil
  then show ?thesis by (simp add: splitJSRName_def)
next
  case (Cons c cs)
  have "splitJSRName name = Inr (scope, pkg) \<longleftrightarrow> c = CHR ''@'' \<and> split_on (CHR ''/'') cs = [scope, pkg] \<and>
      \<not> is_blank scope \<and> \<not> is_blank pkg \<and> \<not> contains_any scope jsr_forbidden \<and> \<not> contains_any pkg jsr_forbidden"
    by (auto simp: splitJSRName_def Cons has_prefix_iff split: list.splits if_splits)
  then show ?thesis by (auto simp: Cons split_pair_iff)
qed

lemma splitJSRName_joined:
  assumes "splitJSRName (''@'' @ scope @ ''/'' @ pkg) = Inr p"
  shows "p = (scope, pkg)"
proof -
  obtain a b where p: "p = (a, b)" by (cases p)
  from assms [unfolded p splitJSRName_Inr] have "split_on (CHR ''/'') (scope @ CHR ''/'' # pkg) = [a, b]"
    by (simp add: split_pair_iff)
  then have parts: "split_on (CHR ''/'') scope @ split_on (CHR ''/'') pkg = [a, b]" by (simp add: split_on_sep)
  then have "split_on (CHR ''/'') scope = [a]" "split_on (CHR ''/'') pkg = [b]"
    by (cases "split_on (CHR ''/'') scope"; cases "tl (split_on (CHR ''/'') scope)"; simp)+
  with join_split [of "CHR ''/''" scope] join_split [of "CHR ''/''" pkg] p show ?thesis by simp
qed

lemma count_once:
  "count_str v ''__'' = 1 \<longleftrightarrow> (\<exists>a b. cut_str v ''__'' = Some (a, b) \<and> \<not> contains_str b ''__'')"
proof (cases "cut_str v ''__''")
  case None
  then have "\<not> contains_str v ''__''" by (simp add: cut_str_None)
  with None show ?thesis by (simp add: count_str_none)
next
  case (Some p)
  obtain a b where p: "p = (a, b)" by (cases p)
  with Some count_str_cut [of "''__''" v a b] count_str_zero [of "''__''" b] show ?thesis by auto
qed

lemma LogicalJSRName_Inr:
  "LogicalJSRName c = Inr n \<longleftrightarrow>
     (\<exists>scope pkg. has_prefix c ''@jsr/'' \<and> cut_str (drop 5 c) ''__'' = Some (scope, pkg) \<and> \<not> contains_str pkg ''__'' \<and>
       n = ''@'' @ scope @ ''/'' @ pkg \<and> splitJSRName n = Inr (scope, pkg))"
  using count_once [of "drop 5 c"] splitJSRName_joined
  by (auto simp: LogicalJSRName_def Let_def split: option.splits sum.splits)

lemma JSRCompatibilityName_Inr:
  "JSRCompatibilityName n = Inr c \<longleftrightarrow>
     (\<exists>scope pkg. splitJSRName n = Inr (scope, pkg) \<and> \<not> contains_str scope ''__'' \<and> \<not> contains_str pkg ''__'' \<and>
       c = ''@jsr/'' @ scope @ ''__'' @ pkg)"
  by (auto simp: JSRCompatibilityName_def split: sum.splits if_splits)

lemma cut_str_part: "cut_str v sep = Some (a, b) \<Longrightarrow> sep \<noteq> '''' \<Longrightarrow> \<not> contains_str a sep"
proof
  assume cut: "cut_str v sep = Some (a, b)" and "sep \<noteq> ''''" and "contains_str a sep"
  then obtain x y where "a = x @ sep @ y" by (auto simp: contains_str_iff)
  with cut_str_first [OF cut, of x "y @ sep @ b"] cut_str_Some [OF cut] \<open>sep \<noteq> ''''\<close> show False by simp
qed

lemma cut_underscores:
  assumes "\<not> contains_str scope ''__''"
  shows "cut_str (scope @ ''__'' @ pkg) ''__'' = Some (scope, pkg) \<longleftrightarrow> \<not> (\<exists>x. scope = x @ ''_'')"
proof -
  let ?s = "scope @ ''__'' @ pkg"
  have "contains_str ?s ''__''" by (auto simp: contains_str_iff)
  then obtain a b where ab: "cut_str ?s ''__'' = Some (a, b)" by (metis cut_str_None option.exhaust surj_pair)
  have s: "?s = a @ ''__'' @ b" by (rule cut_str_Some [OF ab])
  show ?thesis
  proof (cases "\<exists>x. scope = x @ ''_''")
    case True
    then obtain x where x: "scope = x @ ''_''" by blast
    have "length a \<le> length x" by (rule cut_str_first [OF ab, of x "''_'' @ pkg"]) (simp add: x)
    then have "a \<noteq> scope" using x by auto
    then show ?thesis using ab True by simp
  next
    case False
    have le: "length a \<le> length scope" by (rule cut_str_first [OF ab, of scope pkg]) simp
    then obtain r where r: "scope = a @ r" using s by (auto simp: append_eq_append_conv2)
    with s have rest: "r @ ''__'' @ pkg = ''__'' @ b" by simp
    have "r = []"
    proof (cases r)
      case (Cons c cs)
      then have c: "c = CHR ''_''" using rest by simp
      show ?thesis
      proof (cases cs)
        case Nil
        with c Cons r False show ?thesis by auto
      next
        case (Cons d ds)
        with \<open>r = c # cs\<close> rest have "r = ''__'' @ ds" by simp
        with r assms show ?thesis by (auto simp: contains_str_iff)
      qed
    qed
    with r rest ab False show ?thesis by simp
  qed
qed

lemma ends_with_iff: "has_suffix s t \<longleftrightarrow> (\<exists>x. s = x @ t)"
  unfolding has_suffix_def has_prefix_iff by (metis rev_append rev_rev_ident)

lemma LogicalJSRName_back: "LogicalJSRName c = Inr n \<Longrightarrow> JSRCompatibilityName n = Inr c"
  unfolding LogicalJSRName_Inr JSRCompatibilityName_Inr
  using cut_str_part [of "drop 5 c" "''__''"] cut_str_Some [of "drop 5 c" "''__''"]
  by (auto simp: has_prefix_iff)

lemma JSRCompatibilityName_back:
  assumes "splitJSRName n = Inr (scope, pkg)" and "JSRCompatibilityName n = Inr c"
  shows "LogicalJSRName c = Inr n \<longleftrightarrow> \<not> (\<exists>x. scope = x @ ''_'')"
proof -
  have parts: "\<not> contains_str scope ''__''" "\<not> contains_str pkg ''__''" "c = ''@jsr/'' @ scope @ ''__'' @ pkg"
    using assms by (auto simp: JSRCompatibilityName_Inr)
  have n: "n = ''@'' @ scope @ ''/'' @ pkg" using assms(1) by (simp add: splitJSRName_Inr)
  have "LogicalJSRName c = Inr n \<longleftrightarrow> cut_str (scope @ ''__'' @ pkg) ''__'' = Some (scope, pkg)"
    using parts assms(1) unfolding LogicalJSRName_Inr by (auto simp: n has_prefix_iff)
  then show ?thesis by (simp only: cut_underscores [OF parts(1)])
qed

section \<open>Peer contexts\<close>

lemma canonical_keys_sorted: "sorted (map peerBindingKey (CanonicalPeerBindings bindings))"
  by (simp add: CanonicalPeerBindings_def)

lemma canonical_mset: "mset (CanonicalPeerBindings bindings) = image_mset canonical_binding (mset bindings)"
  by (simp add: CanonicalPeerBindings_def)

lemma canonical_keys:
  "mset bindings = mset bindings' \<Longrightarrow>
    map peerBindingKey (CanonicalPeerBindings bindings) = map peerBindingKey (CanonicalPeerBindings bindings')"
  by (metis canonical_keys_sorted canonical_mset mset_map properties_for_sort sort_key_id_if_sorted)

lemma peer_context_text_keys:
  "map peerBindingKey bs = map peerBindingKey bs' \<Longrightarrow> peer_context_text bs = peer_context_text bs'"
proof -
  have eq: "peer_context_text bs = ''tspack-peer-context-v1'' @ newline @ concat (map (\<lambda>k. k @ newline) (map peerBindingKey bs))" for bs
    by (simp add: peer_context_text_def comp_def)
  show "map peerBindingKey bs = map peerBindingKey bs' \<Longrightarrow> ?thesis" unfolding eq by simp
qed

text \<open>Without the two separators in the fields, the hashed text determines the bindings.\<close>

definition separator_free :: "string \<Rightarrow> bool" where
  "separator_free s \<longleftrightarrow> CHR 0x00 \<notin> set s \<and> CHR 0x0A \<notin> set s"

definition plain_binding :: "peer_binding \<Rightarrow> bool" where
  "plain_binding b \<longleftrightarrow> list_all separator_free (peer_fields b)"

lemma peer_fields_inj: "peer_fields b = peer_fields b' \<Longrightarrow> b = b'"
  by (cases b; cases b') (auto simp: peer_fields_def split: if_splits)

lemma key_fields: "plain_binding b \<Longrightarrow> split_on (CHR 0x00) (peerBindingKey b) = peer_fields b"
  unfolding peerBindingKey_def nul_def
  by (rule split_join) (auto simp: plain_binding_def separator_free_def list_all_iff peer_fields_def)

lemma peerBindingKey_inj: "plain_binding b \<Longrightarrow> plain_binding b' \<Longrightarrow> peerBindingKey b = peerBindingKey b' \<Longrightarrow> b = b'"
  by (metis key_fields peer_fields_inj)

lemma set_join_strings: "set (join_strings xs sep) \<subseteq> \<Union> (set ` set xs) \<union> set sep"
  by (induction xs sep rule: join_strings.induct) auto

lemma key_newline: "plain_binding b \<Longrightarrow> CHR 0x0A \<notin> set (peerBindingKey b)"
  using set_join_strings [of "peer_fields b" nul]
  by (auto simp: peerBindingKey_def plain_binding_def list_all_iff separator_free_def nul_def)

lemma lines_inj:
  "(\<And>x. x \<in> set xs \<Longrightarrow> d \<notin> set x) \<Longrightarrow> split_on d (concat (map (\<lambda>x. x @ [d]) xs)) = xs @ [[]]"
  by (induction xs) (auto simp: split_on_append)

lemma peer_context_text_inj:
  assumes "list_all plain_binding bs" "list_all plain_binding bs'" "peer_context_text bs = peer_context_text bs'"
  shows "bs = bs'"
proof -
  have keys: "split_on (CHR 0x0A) (concat (map (\<lambda>b. peerBindingKey b @ newline) xs)) = map peerBindingKey xs @ [[]]"
    if "list_all plain_binding xs" for xs
    using lines_inj [of "map peerBindingKey xs" "CHR 0x0A"] key_newline that
    by (auto simp: newline_def comp_def list_all_iff)
  have "map peerBindingKey bs = map peerBindingKey bs'"
    using keys [OF assms(1)] keys [OF assms(2)] assms(3) by (simp add: peer_context_text_def)
  moreover have "inj_on peerBindingKey (set bs \<union> set bs')"
    using assms(1,2) by (auto intro!: inj_onI peerBindingKey_inj simp: list_all_iff)
  ultimately show ?thesis by (simp add: inj_on_map_eq_map)
qed

lemma trim_space_chars: "set (trim_space s) \<subseteq> set s"
proof -
  have "set (dropWhile is_space_rune (rev (dropWhile is_space_rune (runes s)))) \<subseteq> set (runes s)"
    by (auto dest!: set_dropWhileD)
  then have "set (concat (rev (dropWhile is_space_rune (rev (dropWhile is_space_rune (runes s)))))) \<subseteq> set (concat (runes s))"
    by auto
  then show ?thesis by (simp add: trim_space_def concat_runes)
qed

lemma separator_free_trim: "separator_free s \<Longrightarrow> separator_free (trim_space s)"
  using trim_space_chars [of s] unfolding separator_free_def by blast

lemma separator_free_words:
  "separator_free ''absent''" "separator_free ''present''" "separator_free ''optional''" "separator_free ''required''" "separator_free ''''"
  by (simp_all add: separator_free_def)

lemma canonical_plain: "plain_binding b \<Longrightarrow> plain_binding (canonical_binding b)"
  by (cases "pbState b = ''''"; cases "trim_space (pbRealizationID b) = ''''"; cases "pbOptional b")
    (simp_all add: plain_binding_def peer_fields_def canonical_binding_def separator_free_trim separator_free_words)

lemma canonical_all_plain: "list_all plain_binding bs \<Longrightarrow> list_all plain_binding (CanonicalPeerBindings bs)"
  by (auto simp: list_all_iff CanonicalPeerBindings_def canonical_plain)

lemma peer_context_text_exact:
  assumes "list_all plain_binding bs" "list_all plain_binding bs'"
  shows "peer_context_text (CanonicalPeerBindings bs) = peer_context_text (CanonicalPeerBindings bs') \<longleftrightarrow>
    mset (map canonical_binding bs) = mset (map canonical_binding bs')"
proof
  assume "peer_context_text (CanonicalPeerBindings bs) = peer_context_text (CanonicalPeerBindings bs')"
  then have "CanonicalPeerBindings bs = CanonicalPeerBindings bs'"
    using assms by (intro peer_context_text_inj canonical_all_plain)
  then have "mset (CanonicalPeerBindings bs) = mset (CanonicalPeerBindings bs')" by simp
  then show "mset (map canonical_binding bs) = mset (map canonical_binding bs')" by (simp add: canonical_mset)
next
  assume "mset (map canonical_binding bs) = mset (map canonical_binding bs')"
  then have "mset (map peerBindingKey (CanonicalPeerBindings bs)) = mset (map peerBindingKey (CanonicalPeerBindings bs'))"
    by (simp add: canonical_mset)
  then have "map peerBindingKey (CanonicalPeerBindings bs) = map peerBindingKey (CanonicalPeerBindings bs')"
    by (metis canonical_keys_sorted properties_for_sort)
  then show "peer_context_text (CanonicalPeerBindings bs) = peer_context_text (CanonicalPeerBindings bs')"
    by (rule peer_context_text_keys)
qed

end
