(* ===== verification/Authoring.thy ===== *)
theory Authoring
  imports Requirements
begin

text \<open>
  \<open>internal/authoring\<close>: the declarations of dependencies, the tape that orders them by layer and
  finds which are effective and which conflict, and the edits on a list of declarations.  The texts
  of conflicts are kept as the values they are made of.  Go walks a map in any order where the edits
  report their consequences; that order is an argument.
\<close>

section \<open>Data\<close>

record author_source =
  asKind :: string
  asPackage :: string
  asRange :: string
  asRef :: string
  asRepo :: string
  asTag :: string
  asRev :: string
  asBranch :: string
  asPath :: string
  asName :: string

record author_identity =
  aiSource :: string
  aiName :: string

definition first_given :: "string list \<Rightarrow> string" where
  "first_given xs = (case find (\<lambda>x. x \<noteq> '''') xs of None \<Rightarrow> '''' | Some x \<Rightarrow> x)"

definition source_identity :: "author_source \<Rightarrow> author_identity" where
  "source_identity s =
     \<lparr>aiSource = asKind s, aiName = first_given [asPackage s, asName s, asRef s, asPath s, asRepo s]\<rparr>"

definition author_key :: "author_identity \<Rightarrow> string" where
  "author_key i = aiSource i @ '':'' @ aiName i"

definition identity_valid :: "author_identity \<Rightarrow> bool" where
  "identity_valid i \<longleftrightarrow> \<not> is_blank (aiSource i) \<and> \<not> is_blank (aiName i)"

record declaration_origin =
  doKind :: string
  doName :: string
  doSourcePath :: string
  doRef :: string

record patch_declaration =
  pdPath :: string
  pdVersion :: string

record dependency_declaration =
  ddID :: string
  ddKey :: string
  ddIdentity :: author_identity
  ddSource :: author_source
  ddConstraint :: string
  ddKind :: string
  ddOptional :: bool
  ddOrigin :: declaration_origin
  ddLayer :: string
  ddLayerOrder :: int
  ddOrder :: int
  ddAuthority :: string
  ddEditability :: string
  ddPatch :: "patch_declaration option"

record effective_dependency =
  edKey :: string
  edKind :: string
  edSource :: author_source
  edOptional :: bool
  edPatch :: "patch_declaration option"

definition EffectiveDependency :: "dependency_declaration \<Rightarrow> effective_dependency" where
  "EffectiveDependency d =
     \<lparr>edKey = ddKey d, edKind = ddKind d,
      edSource = (if ddConstraint d \<noteq> '''' then (ddSource d)\<lparr>asRange := ddConstraint d\<rparr> else ddSource d),
      edOptional = ddOptional d, edPatch = ddPatch d\<rparr>"

definition EffectiveIdentity :: "effective_dependency \<Rightarrow> string" where
  "EffectiveIdentity e = (if edKey e \<noteq> '''' then edKey e else aiName (source_identity (edSource e)))"

record author_entry =
  aeDeclaration :: dependency_declaration
  aePosition :: nat
  aeEffective :: bool
  aeShadowedBy :: "tape_ref option"

datatype conflict_outcome =
  OutcomeDuplicate | OutcomeConstraintOverride | OutcomeKindOverride | OutcomeOptionalOverride | OutcomeKeyCollision

datatype conflict_message =
    MsgEquivalent
  | MsgKind string string
  | MsgOptional bool bool
  | MsgConstraint string string
  | MsgKeyNamesBoth string string string

record authoring_conflict =
  acOutcome :: conflict_outcome
  acEarlier :: tape_ref
  acLater :: tape_ref
  acFatal :: bool
  acMessage :: conflict_message

record tape_resolution =
  trEntries :: "author_entry list"
  trEffective :: "effective_dependency list"
  trConflicts :: "authoring_conflict list"

section \<open>The tape\<close>

definition normalizeDeclaration :: "nat \<Rightarrow> dependency_declaration \<Rightarrow> dependency_declaration" where
  "normalizeDeclaration fallback d =
     d\<lparr>ddIdentity := (if identity_valid (ddIdentity d) then ddIdentity d else source_identity (ddSource d)),
       ddConstraint := (if ddConstraint d = '''' then asRange (ddSource d) else ddConstraint d),
       ddLayer := (if ddLayer d = '''' then ''base'' else ddLayer d),
       ddAuthority := (if ddAuthority d = '''' then ''owned'' else ddAuthority d),
       ddEditability := (if ddEditability d = '''' then ''derived'' else ddEditability d),
       ddID := (if ddID d = '''' then ''declaration-'' @ pad_nat 4 fallback else ddID d)\<rparr>"

definition layerRank :: "string \<Rightarrow> int" where
  "layerRank layer =
     (if layer = ''base'' then 0
      else if layer = ''concept'' then 10
      else if layer = ''template'' then 20
      else if layer = ''project'' then 30
      else if layer = ''package'' then 40
      else if layer = ''compatibility'' then 50
      else if layer = ''explicit'' then 60
      else 25)"

definition declaration_key :: "dependency_declaration \<Rightarrow> int \<times> int \<times> int \<times> string" where
  "declaration_key d = (layerRank (ddLayer d), ddLayerOrder d, ddOrder d, ddID d)"

definition effective_key :: "dependency_declaration \<Rightarrow> string" where
  "effective_key d = EffectiveIdentity (EffectiveDependency d)"

definition declarationSlotKey :: "dependency_declaration \<Rightarrow> string" where
  "declarationSlotKey d = author_key (ddIdentity d) @ ''|'' @ effective_key d"

definition entry_ref :: "author_entry \<Rightarrow> tape_ref" where
  "entry_ref e = \<lparr>refPosition = aePosition e, refID = ddID (aeDeclaration e)\<rparr>"

definition classifyShadow :: "author_entry \<Rightarrow> author_entry \<Rightarrow> authoring_conflict" where
  "classifyShadow earlier later =
     (let a = aeDeclaration earlier; b = aeDeclaration later;
          (outcome, message) =
            (if ddKind a \<noteq> ddKind b then (OutcomeKindOverride, MsgKind (ddKind a) (ddKind b))
             else if ddOptional a \<noteq> ddOptional b then (OutcomeOptionalOverride, MsgOptional (ddOptional a) (ddOptional b))
             else if ddConstraint a \<noteq> ddConstraint b then (OutcomeConstraintOverride, MsgConstraint (ddConstraint a) (ddConstraint b))
             else (OutcomeDuplicate, MsgEquivalent))
      in \<lparr>acOutcome = outcome, acEarlier = entry_ref earlier, acLater = entry_ref later, acFatal = False,
          acMessage = message\<rparr>)"

definition key_collision :: "author_entry \<Rightarrow> author_entry \<Rightarrow> authoring_conflict" where
  "key_collision earlier later =
     \<lparr>acOutcome = OutcomeKeyCollision, acEarlier = entry_ref earlier, acLater = entry_ref later, acFatal = True,
      acMessage = MsgKeyNamesBoth (effective_key (aeDeclaration later)) (author_key (ddIdentity (aeDeclaration earlier)))
        (author_key (ddIdentity (aeDeclaration later)))\<rparr>"

definition fresh_entry :: "nat \<Rightarrow> dependency_declaration \<Rightarrow> author_entry" where
  "fresh_entry p d = \<lparr>aeDeclaration = d, aePosition = p, aeEffective = True, aeShadowedBy = None\<rparr>"

definition shade_entry :: "nat \<Rightarrow> dependency_declaration \<Rightarrow> author_entry \<Rightarrow> author_entry" where
  "shade_entry p d e = e\<lparr>aeEffective := False, aeShadowedBy := Some (entry_ref (fresh_entry p d))\<rparr>"

record author_state =
  auEntries :: "author_entry list"
  auConflicts :: "authoring_conflict list"
  auByIdentity :: "string \<rightharpoonup> nat"
  auByKey :: "string \<rightharpoonup> nat"

definition author_step :: "author_state \<Rightarrow> dependency_declaration \<Rightarrow> author_state" where
  "author_step st d =
     (let p = length (auEntries st);
          entry = fresh_entry p d;
          slot = declarationSlotKey d;
          st1 = st\<lparr>auEntries := auEntries st @ [entry]\<rparr>;
          st2 = (case auByIdentity st slot of
                   None \<Rightarrow> st1
                 | Some k \<Rightarrow>
                     let shaded = shade_entry p d (auEntries st1 ! k) in
                     st1\<lparr>auEntries := (auEntries st1)[k := shaded],
                         auConflicts := auConflicts st1 @ [classifyShadow shaded entry]\<rparr>);
          st3 = st2\<lparr>auByIdentity := (auByIdentity st)(slot \<mapsto> p)\<rparr>;
          key = effective_key d;
          st4 = (case auByKey st key of
                   None \<Rightarrow> st3
                 | Some k \<Rightarrow>
                     let earlier = auEntries st3 ! k in
                     if ddIdentity (aeDeclaration earlier) \<noteq> ddIdentity d
                     then st3\<lparr>auConflicts := auConflicts st3 @ [key_collision earlier (auEntries st3 ! p)]\<rparr>
                     else st3)
      in st4\<lparr>auByKey := (auByKey st)(key \<mapsto> p)\<rparr>)"

definition author_start :: author_state where
  "author_start = \<lparr>auEntries = [], auConflicts = [], auByIdentity = Map.empty, auByKey = Map.empty\<rparr>"

definition normalized_declarations :: "dependency_declaration list \<Rightarrow> dependency_declaration list" where
  "normalized_declarations ds = map (\<lambda>(i, d). normalizeDeclaration i d) (enumerate 0 ds)"

definition ordered_declarations :: "dependency_declaration list \<Rightarrow> dependency_declaration list" where
  "ordered_declarations ds = sort_key declaration_key (normalized_declarations ds)"

definition Build_authoring :: "dependency_declaration list \<Rightarrow> tape_resolution" where
  "Build_authoring ds =
     (let st = foldl author_step author_start (ordered_declarations ds)
      in \<lparr>trEntries = auEntries st,
          trEffective = map (\<lambda>e. EffectiveDependency (aeDeclaration e)) (filter aeEffective (auEntries st)),
          trConflicts = auConflicts st\<rparr>)"

definition HasFatalConflicts :: "tape_resolution \<Rightarrow> bool" where
  "HasFatalConflicts r \<longleftrightarrow> list_ex acFatal (trConflicts r)"

section \<open>What the tape guarantees\<close>

interpretation au: tape fresh_entry shade_entry aeDeclaration aeEffective
  by unfold_locales (simp_all add: fresh_entry_def shade_entry_def)

text \<open>The loop is the loop of the requirement tape, with the conflicts beside it.\<close>

definition same_key_same_identity :: "dependency_declaration list \<Rightarrow> bool" where
  "same_key_same_identity ds \<longleftrightarrow>
     (\<forall>a \<in> set ds. \<forall>b \<in> set ds. effective_key a = effective_key b \<longrightarrow> ddIdentity a = ddIdentity b)"


lemma tape_build_snoc:
  "tape_build slot fresh shade (xs @ [x]) = tape_step slot fresh shade (tape_build slot fresh shade xs) x"
  by (simp add: tape_build_def)

lemma shadow_not_fatal: "\<not> acFatal (classifyShadow a b)"
  by (simp add: classifyShadow_def Let_def)

lemma collision_fatal: "acFatal (key_collision a b)"
  by (simp add: key_collision_def)

abbreviation author_loop :: "dependency_declaration list \<Rightarrow> author_state" where
  "author_loop xs \<equiv> foldl author_step author_start xs"

abbreviation author_tape :: "dependency_declaration list \<Rightarrow> author_entry list \<times> (string \<rightharpoonup> nat)" where
  "author_tape xs \<equiv> tape_build declarationSlotKey fresh_entry shade_entry xs"

lemma author_step_reads:
  "auEntries (author_step st d) =
     fst (tape_step declarationSlotKey fresh_entry shade_entry (auEntries st, auByIdentity st) d)"
  if "\<forall>k \<in> ran (auByIdentity st). k < length (auEntries st)"
  using that by (auto simp: author_step_def tape_step_def Let_def nth_append list_update_append ran_def split: option.splits)

lemma author_step_maps:
  "auByIdentity (author_step st d) = (auByIdentity st)(declarationSlotKey d \<mapsto> length (auEntries st))"
  "auByKey (author_step st d) = (auByKey st)(effective_key d \<mapsto> length (auEntries st))"
  by (simp_all add: author_step_def Let_def split: option.splits)

lemma author_tape_last: "snd (author_tape xs) = last_same declarationSlotKey xs"
  by (simp add: tape_build_exact)

lemma author_tape_length: "length (fst (author_tape xs)) = length xs"
  by (simp add: tape_build_exact)

lemma author_loop_tape:
  "(auEntries (author_loop xs), auByIdentity (author_loop xs)) = author_tape xs \<and>
   auByKey (author_loop xs) = last_same effective_key xs"
proof (induction xs rule: rev_induct)
  case Nil
  show ?case by (auto simp: author_start_def tape_build_def last_same_def)
next
  case (snoc x xs)
  let ?st = "author_loop xs"
  have len: "length (auEntries ?st) = length xs" using snoc author_tape_length [of xs] by (metis fst_conv)
  have by_id: "auByIdentity ?st = last_same declarationSlotKey xs" using snoc author_tape_last [of xs] by (metis snd_conv)
  have "\<forall>k \<in> ran (auByIdentity ?st). k < length (auEntries ?st)"
    by (auto simp: by_id len ran_def last_same_Some)
  then have "auEntries (author_step ?st x) = fst (tape_step declarationSlotKey fresh_entry shade_entry (author_tape xs) x)"
    using author_step_reads [of ?st x] snoc by simp
  moreover have "auByIdentity (author_step ?st x) = snd (tape_step declarationSlotKey fresh_entry shade_entry (author_tape xs) x)"
    using snoc by (auto simp: author_step_maps tape_step_def Let_def split: prod.splits)
  moreover have "auByKey (author_step ?st x) = last_same effective_key (xs @ [x])"
    using snoc by (auto simp: author_step_maps len last_same_snoc)
  ultimately show ?case by (simp add: tape_build_snoc)
qed

lemma author_entry_declaration:
  "k < length xs \<Longrightarrow> aeDeclaration (auEntries (author_loop xs) ! k) = xs ! k"
  using author_loop_tape [of xs] au.entry_item [where slot = declarationSlotKey and xs = xs and i = k]
  by (simp add: tape_build_exact)

lemma author_step_fatal:
  "list_ex acFatal (auConflicts (author_step st d)) \<longleftrightarrow>
    list_ex acFatal (auConflicts st) \<or>
    (case auByKey st (effective_key d) of None \<Rightarrow> False
     | Some k \<Rightarrow> ddIdentity (aeDeclaration (auEntries (author_step st d) ! k)) \<noteq> ddIdentity d)"
  by (simp add: author_step_def Let_def shadow_not_fatal collision_fatal split: option.splits)


lemma same_key_snoc:
  "same_key_same_identity (xs @ [x]) \<longleftrightarrow>
     same_key_same_identity xs \<and>
     (case last_same effective_key xs (effective_key x) of None \<Rightarrow> True
      | Some k \<Rightarrow> ddIdentity (xs ! k) = ddIdentity x)"
proof (cases "last_same effective_key xs (effective_key x)")
  case None
  then have "effective_key a \<noteq> effective_key x" if "a \<in> set xs" for a
    using that None unfolding last_same_None by (metis image_eqI)
  then have "same_key_same_identity (xs @ [x]) = same_key_same_identity xs"
    unfolding same_key_same_identity_def by (metis UnE UnI1 set_append singletonD list.set(1,2))
  then show ?thesis using None by simp
next
  case (Some k)
  then have k: "xs ! k \<in> set xs" "effective_key (xs ! k) = effective_key x" by (simp_all add: last_same_Some)
  have iff: "(\<forall>a \<in> set xs. effective_key a = effective_key x \<longrightarrow> ddIdentity a = ddIdentity x) \<longleftrightarrow>
      ddIdentity (xs ! k) = ddIdentity x" if "same_key_same_identity xs"
    using that k unfolding same_key_same_identity_def by metis
  have "same_key_same_identity (xs @ [x]) \<longleftrightarrow> same_key_same_identity xs \<and>
      (\<forall>a \<in> set xs. effective_key a = effective_key x \<longrightarrow> ddIdentity a = ddIdentity x)"
    unfolding same_key_same_identity_def 
    by (auto simp: ball_conj_distrib eq_commute [of "effective_key x"] eq_commute [of "ddIdentity x"])
  then show ?thesis using iff Some by auto
qed

lemma author_loop_fatal: "list_ex acFatal (auConflicts (author_loop xs)) \<longleftrightarrow> \<not> same_key_same_identity xs"
proof (induction xs rule: rev_induct)
  case Nil
  show ?case by (simp add: author_start_def same_key_same_identity_def)
next
  case (snoc x xs)
  have "aeDeclaration (auEntries (author_step (author_loop xs) x) ! k) = xs ! k"
    if "last_same effective_key xs (effective_key x) = Some k" for k
    using author_entry_declaration [of k "xs @ [x]"] that by (simp add: last_same_Some nth_append)
  then show ?case using snoc author_loop_tape [of xs]
    by (auto simp: author_step_fatal same_key_snoc split: option.splits)
qed

lemma Build_authoring_entries: "trEntries (Build_authoring ds) = fst (author_tape (ordered_declarations ds))"
  using author_loop_tape [of "ordered_declarations ds"] by (auto simp: Build_authoring_def Let_def dest: arg_cong [where f = fst])

lemma Build_authoring_effective:
  "trEffective (Build_authoring ds) = map EffectiveDependency (survivors declarationSlotKey (ordered_declarations ds))"
proof -
  have "trEffective (Build_authoring ds) =
      map EffectiveDependency (map aeDeclaration (filter aeEffective (trEntries (Build_authoring ds))))"
    by (simp add: Build_authoring_def Let_def comp_def)
  then show ?thesis by (simp only: Build_authoring_entries au.live_items)
qed

lemma ordered_declarations_set: "set (ordered_declarations ds) = set (normalized_declarations ds)"
  by (simp add: ordered_declarations_def)

lemma same_key_set: "set xs = set ys \<Longrightarrow> same_key_same_identity xs = same_key_same_identity ys"
  by (simp add: same_key_same_identity_def)

lemma fatal_conflicts_exact:
  "HasFatalConflicts (Build_authoring ds) \<longleftrightarrow> \<not> same_key_same_identity (normalized_declarations ds)"
  using author_loop_fatal [of "ordered_declarations ds"] same_key_set [OF ordered_declarations_set]
  by (simp add: HasFatalConflicts_def Build_authoring_def Let_def)

lemma effective_keys_distinct:
  "same_key_same_identity xs \<Longrightarrow> distinct (map effective_key (survivors declarationSlotKey xs))"
proof -
  assume same: "same_key_same_identity xs"
  have sub: "set (survivors declarationSlotKey xs) \<subseteq> set xs" by (rule survivors_subset)
  have "inj_on effective_key (set (survivors declarationSlotKey xs))"
  proof (rule inj_onI)
    fix a b
    assume a: "a \<in> set (survivors declarationSlotKey xs)" and b: "b \<in> set (survivors declarationSlotKey xs)"
      and k: "effective_key a = effective_key b"
    then have "ddIdentity a = ddIdentity b" using same sub unfolding same_key_same_identity_def by blast
    with k have "declarationSlotKey a = declarationSlotKey b" by (simp add: declarationSlotKey_def)
    with a b show "a = b" using survivors_distinct [of declarationSlotKey xs] by (auto simp: distinct_map dest: inj_onD)
  qed
  with survivors_distinct [of declarationSlotKey xs] show ?thesis by (simp add: distinct_map)
qed

end
