(* ===== verification/Authoring_Edit.thy ===== *)
theory Authoring_Edit
  imports Authoring
begin

text \<open>
  \<open>internal/authoring/edit.go\<close>: adding, removing and replacing a declaration, with the report of
  what became effective or shadowed.
\<close>

section \<open>Edits\<close>

record declaration_selector =
  dsID :: string
  dsIdentity :: "author_identity option"
  dsKind :: string
  dsOriginKind :: string
  dsOriginName :: string
  dsSourcePath :: string
  dsEditableOnly :: bool

datatype change_kind = ChangeAdded | ChangeRemoved | ChangeChanged | ChangeShadowed | ChangeUnshadowed

record authoring_change =
  chKind :: change_kind
  chDeclaration :: dependency_declaration
  chPrevious :: "dependency_declaration option"

record edit_result =
  erBefore :: tape_resolution
  erAfter :: tape_resolution
  erChanges :: "authoring_change list"

datatype edit_error = DeclarationNotFound | AmbiguousRemoval "dependency_declaration list"

definition selects :: "declaration_selector \<Rightarrow> dependency_declaration \<Rightarrow> bool" where
  "selects s d \<longleftrightarrow>
     (dsID s = '''' \<or> ddID d = dsID s) \<and>
     (case dsIdentity s of None \<Rightarrow> True
      | Some i \<Rightarrow> (if identity_valid (ddIdentity d) then ddIdentity d else source_identity (ddSource d)) = i) \<and>
     (dsKind s = '''' \<or> ddKind d = dsKind s) \<and>
     (dsOriginKind s = '''' \<or> doKind (ddOrigin d) = dsOriginKind s) \<and>
     (dsOriginName s = '''' \<or> doName (ddOrigin d) = dsOriginName s) \<and>
     (dsSourcePath s = '''' \<or> doSourcePath (ddOrigin d) = dsSourcePath s) \<and>
     (\<not> dsEditableOnly s \<or> ddEditability d = ''editable'')"

definition matchingDeclarationIndexes :: "dependency_declaration list \<Rightarrow> declaration_selector \<Rightarrow> nat list" where
  "matchingDeclarationIndexes ds s = filter (\<lambda>i. selects s (ds ! i)) [0..<length ds]"

definition nextOrder :: "dependency_declaration list \<Rightarrow> string \<Rightarrow> int \<Rightarrow> int" where
  "nextOrder ds layer layer_order =
     foldl (\<lambda>order d. if ddLayer d = layer \<and> ddLayerOrder d = layer_order \<and> ddOrder d > order then ddOrder d else order)
       (- 1) ds + 1"

definition removesDeclaration :: "authoring_change list \<Rightarrow> string \<Rightarrow> bool" where
  "removesDeclaration changes i \<longleftrightarrow> list_ex (\<lambda>c. chKind c = ChangeRemoved \<and> ddID (chDeclaration c) = i) changes"

definition effectiveEntriesByIdentity :: "tape_resolution \<Rightarrow> string \<rightharpoonup> author_entry" where
  "effectiveEntriesByIdentity r =
     foldl (\<lambda>m e. if aeEffective e then m(declarationSlotKey (aeDeclaration e) \<mapsto> e) else m) Map.empty (trEntries r)"

text \<open>\<open>slot_order\<close> is the order in which Go visits the slots of the effective entries before the edit.\<close>

definition report_slot ::
  "tape_resolution \<Rightarrow> tape_resolution \<Rightarrow> authoring_change list \<Rightarrow> string \<Rightarrow> authoring_change list" where
  "report_slot before after changes slot =
     (case (effectiveEntriesByIdentity before slot, effectiveEntriesByIdentity after slot) of
        (Some b, Some a) \<Rightarrow>
          if ddID (aeDeclaration b) = ddID (aeDeclaration a) then changes
          else if removesDeclaration changes (ddID (aeDeclaration b))
          then changes @ [\<lparr>chKind = ChangeUnshadowed, chDeclaration = aeDeclaration a, chPrevious = Some (aeDeclaration b)\<rparr>]
          else changes @ [\<lparr>chKind = ChangeShadowed, chDeclaration = aeDeclaration b, chPrevious = Some (aeDeclaration a)\<rparr>]
      | _ \<Rightarrow> changes)"

definition buildEditResult ::
  "(string list \<Rightarrow> string list) \<Rightarrow> tape_resolution \<Rightarrow> tape_resolution \<Rightarrow> authoring_change list \<Rightarrow> edit_result" where
  "buildEditResult slot_order before after changes =
     (let slots = remdups (map (\<lambda>e. declarationSlotKey (aeDeclaration e)) (filter aeEffective (trEntries before)))
      in \<lparr>erBefore = before, erAfter = after, erChanges = foldl (report_slot before after) changes (slot_order slots)\<rparr>)"

definition added_declaration :: "dependency_declaration list \<Rightarrow> dependency_declaration \<Rightarrow> dependency_declaration" where
  "added_declaration ds d =
     (let d1 = d\<lparr>ddLayer := (if ddLayer d = '''' then ''explicit'' else ddLayer d),
                ddOrigin := (if doKind (ddOrigin d) = '''' then
                    \<lparr>doKind = ''explicit-user-operation'', doName = ''dependency edit'', doSourcePath = '''', doRef = ''''\<rparr>
                  else ddOrigin d),
                ddAuthority := (if ddAuthority d = '''' then ''owned'' else ddAuthority d),
                ddEditability := (if ddEditability d = '''' then ''editable'' else ddEditability d)\<rparr>;
          d2 = d1\<lparr>ddOrder := nextOrder ds (ddLayer d1) (ddLayerOrder d1)\<rparr>
      in normalizeDeclaration (length ds) d2)"

definition Add ::
  "(string list \<Rightarrow> string list) \<Rightarrow> dependency_declaration list \<Rightarrow> dependency_declaration \<Rightarrow> edit_result" where
  "Add slot_order ds d =
     (let before = Build_authoring ds; d' = added_declaration ds d; after = Build_authoring (ds @ [d'])
      in buildEditResult slot_order before after [\<lparr>chKind = ChangeAdded, chDeclaration = d', chPrevious = None\<rparr>])"

definition Remove ::
  "(string list \<Rightarrow> string list) \<Rightarrow> dependency_declaration list \<Rightarrow> declaration_selector \<Rightarrow> edit_error + edit_result" where
  "Remove slot_order ds0 s =
     (let ds = normalized_declarations ds0; before = Build_authoring ds in
      case matchingDeclarationIndexes ds s of
        [] \<Rightarrow> Inl DeclarationNotFound
      | [i] \<Rightarrow> Inr (buildEditResult slot_order before (Build_authoring (take i ds @ drop (i + 1) ds))
                 [\<lparr>chKind = ChangeRemoved, chDeclaration = ds ! i, chPrevious = None\<rparr>])
      | is \<Rightarrow> Inl (AmbiguousRemoval (map (nth ds) is)))"

definition Replace ::
  "(string list \<Rightarrow> string list) \<Rightarrow> dependency_declaration list \<Rightarrow> declaration_selector \<Rightarrow> dependency_declaration \<Rightarrow>
     edit_error + edit_result" where
  "Replace slot_order ds s replacement =
     (case matchingDeclarationIndexes ds s of
        [] \<Rightarrow> Inl DeclarationNotFound
      | [i] \<Rightarrow>
          (let previous = ds ! i;
               r = replacement\<lparr>ddID := (if ddID replacement = '''' then ddID previous else ddID replacement),
                     ddOrder := (if ddOrder replacement = 0 then ddOrder previous else ddOrder replacement)\<rparr>
           in Inr (buildEditResult slot_order (Build_authoring ds) (Build_authoring (ds[i := r]))
                [\<lparr>chKind = ChangeChanged, chDeclaration = r, chPrevious = Some previous\<rparr>]))
      | is \<Rightarrow> Inl (AmbiguousRemoval (map (nth ds) is)))"

definition ChangeConstraint ::
  "(string list \<Rightarrow> string list) \<Rightarrow> dependency_declaration list \<Rightarrow> declaration_selector \<Rightarrow> string \<Rightarrow>
     edit_error + edit_result" where
  "ChangeConstraint slot_order ds s constraint =
     (case matchingDeclarationIndexes ds s of
        [] \<Rightarrow> Inl DeclarationNotFound
      | [i] \<Rightarrow> Replace slot_order ds s ((ds ! i)\<lparr>ddConstraint := constraint,
                 ddSource := (ddSource (ds ! i))\<lparr>asRange := constraint\<rparr>\<rparr>)
      | is \<Rightarrow> Inl (AmbiguousRemoval (map (nth ds) is)))"

section \<open>Normalising twice\<close>

lemma pad_ID_nonempty: "''declaration-'' @ pad_nat 4 i \<noteq> ''''"
  by simp

lemma normalize_ID_nonempty [simp]: "ddID (normalizeDeclaration i d) \<noteq> ''''"
  by (simp add: normalizeDeclaration_def)

lemma normalize_twice [simp]: "normalizeDeclaration j (normalizeDeclaration i d) = normalizeDeclaration i d"
  by (cases d) (simp add: normalizeDeclaration_def)

lemma normalized_fixed:
  "(\<And>d. d \<in> set ds \<Longrightarrow> \<exists>i e. d = normalizeDeclaration i e) \<Longrightarrow> normalized_declarations ds = ds"
  unfolding normalized_declarations_def
  by (rule nth_equalityI) (auto simp: nth_enumerate_eq, metis normalize_twice nth_mem)

lemma normalized_are: "d \<in> set (normalized_declarations ds) \<Longrightarrow> \<exists>i e. d = normalizeDeclaration i e"
  by (auto simp: normalized_declarations_def)

lemma normalized_twice [simp]: "normalized_declarations (normalized_declarations ds) = normalized_declarations ds"
  by (rule normalized_fixed) (rule normalized_are)

lemma Build_normalized: "Build_authoring (normalized_declarations ds) = Build_authoring ds"
  by (simp add: Build_authoring_def ordered_declarations_def)

lemma normalized_snoc:
  "normalized_declarations (ds @ [d]) = normalized_declarations ds @ [normalizeDeclaration (length ds) d]"
  by (simp add: normalized_declarations_def enumerate_append_eq)

lemma length_normalized [simp]: "length (normalized_declarations ds) = length ds"
  by (simp add: normalized_declarations_def)


section \<open>Adding in front\<close>

lemma insort_key_snoc: "k y \<le> k x \<Longrightarrow> insort_key k y (zs @ [x]) = insort_key k y zs @ [x]"
  for k :: "'a \<Rightarrow> 'b :: linorder"
  by (induction zs) auto

lemma sort_key_snoc: "(\<And>y. y \<in> set xs \<Longrightarrow> k y \<le> k x) \<Longrightarrow> sort_key k (xs @ [x]) = sort_key k xs @ [x]"
  for k :: "'a \<Rightarrow> 'b :: linorder"
  by (induction xs) (simp_all add: insort_key_snoc)

lemma survivors_snoc: "survivors slot (xs @ [x]) = filter (\<lambda>y. slot y \<noteq> slot x) (survivors slot xs) @ [x]"
  by (induction xs) auto

lemma next_order_bound:
  fixes f :: "'a \<Rightarrow> int" and p :: "'a \<Rightarrow> bool"
  defines "step \<equiv> \<lambda>order d. if p d \<and> f d > order then f d else order"
  shows "o0 \<le> foldl step o0 ds" and "d \<in> set ds \<Longrightarrow> p d \<Longrightarrow> f d \<le> foldl step o0 ds"
proof -
  have grow: "o0 \<le> foldl step o0 ds" for o0 ds
  proof (induction ds arbitrary: o0)
    case (Cons e ds)
    have "o0 \<le> step o0 e" by (simp add: step_def)
    with Cons [of "step o0 e"] show ?case by simp
  qed simp
  then show "o0 \<le> foldl step o0 ds" .
  show "d \<in> set ds \<Longrightarrow> p d \<Longrightarrow> f d \<le> foldl step o0 ds"
  proof (induction ds arbitrary: o0)
    case (Cons e ds)
    show ?case
    proof (cases "d = e")
      case True
      with Cons.prems have "f d \<le> step o0 e" by (simp add: step_def)
      with grow [of "step o0 e" ds] show ?thesis by simp
    next
      case False
      with Cons show ?thesis by simp
    qed
  qed simp
qed

lemma nextOrder_greater:
  "e \<in> set ds \<Longrightarrow> ddLayer e = layer \<Longrightarrow> ddLayerOrder e = lo \<Longrightarrow> ddOrder e < nextOrder ds layer lo"
  using next_order_bound(2) [where d = e and ds = ds and f = ddOrder and
      p = "\<lambda>d. ddLayer d = layer \<and> ddLayerOrder d = lo" and ?o0.0 = "- 1"]
  by (simp add: nextOrder_def)

lemma normalized_reads:
  assumes "e \<in> set (normalized_declarations ds)"
  obtains e0 where "e0 \<in> set ds" "ddLayer e = (if ddLayer e0 = '''' then ''base'' else ddLayer e0)"
    "ddLayerOrder e = ddLayerOrder e0" "ddOrder e = ddOrder e0"
proof -
  from assms obtain i where "i < length ds" "e = normalizeDeclaration i (ds ! i)"
    by (auto simp: normalized_declarations_def in_set_conv_nth nth_enumerate_eq)
  then show ?thesis using that [of "ds ! i"] by (simp add: normalizeDeclaration_def)
qed

lemma layerRank_explicit: "layerRank layer \<le> 60" "layer \<noteq> ''explicit'' \<Longrightarrow> layerRank layer < 60"
  by (simp_all add: layerRank_def)

lemma added_reads:
  "ddLayerOrder (added_declaration ds d) = ddLayerOrder d"
  "ddLayer d \<in> {'''', ''explicit''} \<Longrightarrow> ddLayer (added_declaration ds d) = ''explicit''"
  "ddLayer d \<in> {'''', ''explicit''} \<Longrightarrow> ddOrder (added_declaration ds d) = nextOrder ds ''explicit'' (ddLayerOrder d)"
  by (auto simp: added_declaration_def normalizeDeclaration_def Let_def)

lemma added_normalized: "normalizeDeclaration i (added_declaration ds d) = added_declaration ds d"
  unfolding added_declaration_def Let_def by (rule normalize_twice)

lemma added_key:
  assumes "ddLayer d \<in> {'''', ''explicit''}"
    and "\<And>e. e \<in> set ds \<Longrightarrow> ddLayer e = ''explicit'' \<Longrightarrow> ddLayerOrder e \<le> ddLayerOrder d"
    and "e \<in> set (normalized_declarations ds)"
  shows "declaration_key e \<le> declaration_key (added_declaration ds d)"
proof -
  obtain e0 where e0: "e0 \<in> set ds" "ddLayer e = (if ddLayer e0 = '''' then ''base'' else ddLayer e0)"
    "ddLayerOrder e = ddLayerOrder e0" "ddOrder e = ddOrder e0" using assms(3) by (rule normalized_reads)
  note added = added_reads(1) added_reads(2,3) [OF assms(1)]
  have top: "layerRank ''explicit'' = 60" by (simp add: layerRank_def)
  show ?thesis
  proof (cases "ddLayer e = ''explicit''")
    case True
    then have "ddLayer e0 = ''explicit''" using e0(2) by (simp split: if_splits)
    with assms(2) [OF e0(1)] nextOrder_greater [OF e0(1), of "''explicit''" "ddLayerOrder d"] e0 True
    show ?thesis by (auto simp: declaration_key_def added)
  next
    case False
    then show ?thesis using layerRank_explicit(2) [OF False] by (simp add: declaration_key_def added top)
  qed
qed

lemma ordered_added:
  assumes "ddLayer d \<in> {'''', ''explicit''}"
    and "\<And>e. e \<in> set ds \<Longrightarrow> ddLayer e = ''explicit'' \<Longrightarrow> ddLayerOrder e \<le> ddLayerOrder d"
  shows "ordered_declarations (ds @ [added_declaration ds d]) = ordered_declarations ds @ [added_declaration ds d]"
  unfolding ordered_declarations_def normalized_snoc added_normalized
  by (rule sort_key_snoc) (rule added_key [OF assms])

definition effective_declarations :: "tape_resolution \<Rightarrow> dependency_declaration list" where
  "effective_declarations r = map aeDeclaration (filter aeEffective (trEntries r))"

lemma effective_survivors:
  "effective_declarations (Build_authoring ds) = survivors declarationSlotKey (ordered_declarations ds)"
  by (simp only: effective_declarations_def Build_authoring_entries au.live_items)

lemma Add_reads:
  "erBefore (Add slot_order ds d) = Build_authoring ds"
  "erAfter (Add slot_order ds d) = Build_authoring (ds @ [added_declaration ds d])"
  by (simp_all add: Add_def buildEditResult_def Let_def)

lemma added_is_effective:
  assumes "ddLayer d \<in> {'''', ''explicit''}"
    and "\<And>e. e \<in> set ds \<Longrightarrow> ddLayer e = ''explicit'' \<Longrightarrow> ddLayerOrder e \<le> ddLayerOrder d"
  shows "effective_declarations (erAfter (Add slot_order ds d)) =
    filter (\<lambda>e. declarationSlotKey e \<noteq> declarationSlotKey (added_declaration ds d))
      (effective_declarations (erBefore (Add slot_order ds d))) @ [added_declaration ds d]"
  by (simp add: Add_reads effective_survivors ordered_added [OF assms] survivors_snoc)

section \<open>Removing again\<close>

definition by_ID :: "string \<Rightarrow> declaration_selector" where
  "by_ID i = \<lparr>dsID = i, dsIdentity = None, dsKind = '''', dsOriginKind = '''', dsOriginName = '''', dsSourcePath = '''',
     dsEditableOnly = False\<rparr>"

lemma selects_by_ID: "selects (by_ID i) d \<longleftrightarrow> i = '''' \<or> ddID d = i"
  by (auto simp: selects_def by_ID_def)

lemma Remove_added:
  assumes "ddID (added_declaration ds d) \<notin> set (map ddID (normalized_declarations ds))"
  shows "\<exists>r. Remove slot_order (ds @ [added_declaration ds d]) (by_ID (ddID (added_declaration ds d))) = Inr r \<and>
    erBefore r = erAfter (Add slot_order ds d) \<and> erAfter r = erBefore (Add slot_order ds d)"
proof -
  let ?d = "added_declaration ds d" and ?n = "normalized_declarations ds"
  have n: "normalized_declarations (ds @ [?d]) = ?n @ [?d]" by (simp add: normalized_snoc added_normalized)
  have ne: "ddID ?d \<noteq> ''''" by (simp add: added_declaration_def Let_def)
  have "selects (by_ID (ddID ?d)) ((?n @ [?d]) ! i) \<longleftrightarrow> i = length ds" if "i < length (?n @ [?d])" for i
  proof (cases "i = length ds")
    case True
    then show ?thesis by (simp add: selects_by_ID nth_append)
  next
    case False
    then have "i < length ?n" using that by simp
    then have "(?n @ [?d]) ! i = ?n ! i" "ddID (?n ! i) \<in> set (map ddID ?n)" by (simp_all add: nth_append)
    then show ?thesis using False assms ne by (auto simp: selects_by_ID)
  qed
  then have "filter (\<lambda>i. selects (by_ID (ddID ?d)) ((?n @ [?d]) ! i)) [0..<length (?n @ [?d])] =
      filter (\<lambda>i. i = length ds) [0..<length (?n @ [?d])]" by (intro filter_cong) auto
  also have "\<dots> = [length ds]" by (simp add: filter_empty_conv)
  finally have m: "matchingDeclarationIndexes (?n @ [?d]) (by_ID (ddID ?d)) = [length ds]"
    by (simp only: matchingDeclarationIndexes_def)
  have "Build_authoring (?n @ [?d]) = Build_authoring (ds @ [?d])" using Build_normalized [of "ds @ [?d]"] n by simp
  then show ?thesis by (simp add: Remove_def Let_def n m buildEditResult_def Add_reads Build_normalized)
qed

end
