(* ===== verification/Concepts.thy ===== *)
theory Concepts
  imports Authoring "HOL-Library.Finite_Map"
begin

text \<open>
  \<open>internal/concepts\<close>: resolving a list of concept names against a registry, lowering the
  dependencies of the fragments to authoring declarations, and merging the fragments.  Go walks the
  projection maps of a fragment in any order; here they are lists in the order of that walk.  A
  \<open>nil\<close> slice is told from an empty one where the code compares slices with \<open>reflect.DeepEqual\<close>.
  The reason of a conflict is kept as the values its text is made of.
\<close>

section \<open>Contributions\<close>

record variable_contribution =
  vcName :: string
  vcDescription :: string
  vcDefault :: string
  vcAllowed :: "string list option"
  vcSource :: string

record package_contribution =
  pkcName :: string
  pkcKind :: string

record pack_contribution =
  pccFormat :: string
  pccArtifact :: string

record target_contribution =
  tcName :: string
  tcExport :: string
  tcEntry :: string
  tcRuntime :: string
  tcTypes :: string

record dependency_contribution =
  dcName :: string
  dcRange :: string
  dcSource :: string
  dcDeclaredBy :: string
  dcDeclarationOrder :: int

record run_target_contribution =
  rtcName :: string
  rtcCommand :: string
  rtcCwd :: string

record env_contribution =
  ecName :: string
  ecDefault :: string
  ecDescription :: string
  ecRequired :: bool
  ecSecret :: bool

record service_contribution =
  scName :: string
  scProtocol :: string
  scEndpoint :: string
  scOptional :: bool

record policy_contribution =
  pocSubject :: string
  pocAction :: string
  pocRange :: string

record file_contribution =
  fcPath :: string
  fcContent :: string
  fcRendered :: bool

record slot_contribution =
  slName :: string
  slMode :: string
  slOwner :: string
  slValues :: "string list option"
  slEntries :: "(string, string) fmap option"

record manifest_contributions =
  mcWorkspace :: "string option"
  mcPackage :: "package_contribution option"
  mcDependencies :: "dependency_contribution list"
  mcTools :: "dependency_contribution list"
  mcPeers :: "dependency_contribution list"
  mcTargets :: "target_contribution list"
  mcRunTargets :: "run_target_contribution list"
  mcEnv :: "env_contribution list"
  mcServices :: "service_contribution list"
  mcUpdatePolicy :: "policy_contribution list"
  mcSecurityPolicy :: "policy_contribution list"
  mcPack :: "pack_contribution option"
  mcConcepts :: "string list"

record concept_fragment =
  frName :: string
  frDescription :: string
  frProvides :: "string list"
  frRequires :: "string list"
  frRequiresAnyOf :: "string list list"
  frOptional :: "string list"
  frConflicts :: "string list"
  frCompatibleKinds :: "string list"
  frVariables :: "variable_contribution list"
  frManifest :: manifest_contributions
  frFiles :: "file_contribution list"
  frProjections :: "(string \<times> (string \<times> string) list) list"
  frSlots :: "slot_contribution list"
  frWarnings :: "string list"

record merged_concepts =
  mgConcepts :: "string list"
  mgVariables :: "variable_contribution list"
  mgManifest :: manifest_contributions
  mgAuthoring :: "dependency_declaration list"
  mgFiles :: "file_contribution list"
  mgProjections :: "string \<rightharpoonup> (string \<rightharpoonup> string)"
  mgSlots :: "slot_contribution list"
  mgWarnings :: "string list"

datatype conflict_reason =
    DifferentContribution
  | DifferentSection string
  | SameAsOtherKind string string
  | ScalarDiffers string string
  | SlotOwnershipDiffers

record concept_conflict =
  ccPath :: string
  ccA :: string
  ccB :: string
  ccReason :: conflict_reason
  ccHigher :: string
  ccLower :: string

section \<open>Resolution\<close>

datatype concept_error =
    UnknownConcept string
  | IncompatibleKind string string
  | MissingExpected string string
  | ExpectsAnyOf string "string list"
  | DeclaredConflict string string

definition NewRegistry :: "concept_fragment list \<Rightarrow> string \<rightharpoonup> concept_fragment" where
  "NewRegistry fragments = foldl (\<lambda>m f. m(frName f \<mapsto> f)) Map.empty fragments"

fun look_up_all ::
  "(string \<rightharpoonup> concept_fragment) \<Rightarrow> string list \<Rightarrow> concept_fragment list \<Rightarrow> string list \<Rightarrow>
     concept_error + string list \<times> concept_fragment list" where
  "look_up_all registry listed fragments [] = Inr (listed, fragments)"
| "look_up_all registry listed fragments (n # ns) =
     (case registry n of
        None \<Rightarrow> Inl (UnknownConcept n)
      | Some f \<Rightarrow>
          if n \<in> set listed then look_up_all registry listed fragments ns
          else look_up_all registry (listed @ [n]) (fragments @ [f]) ns)"

definition fragment_error :: "string list \<Rightarrow> string \<Rightarrow> concept_fragment \<Rightarrow> concept_error option" where
  "fragment_error listed kind f =
     (if frCompatibleKinds f \<noteq> [] \<and> kind \<noteq> '''' \<and> kind \<notin> set (frCompatibleKinds f)
      then Some (IncompatibleKind (frName f) kind)
      else
        (case find (\<lambda>e. e \<notin> set listed) (frRequires f) of
           Some e \<Rightarrow> Some (MissingExpected (frName f) e)
         | None \<Rightarrow>
             (case find (\<lambda>g. \<not> list_ex (\<lambda>n. n \<in> set listed) g) (frRequiresAnyOf f) of
                Some g \<Rightarrow> Some (ExpectsAnyOf (frName f) g)
              | None \<Rightarrow>
                  (case find (\<lambda>n. n \<in> set listed) (frConflicts f) of
                     Some n \<Rightarrow> Some (DeclaredConflict (frName f) n)
                   | None \<Rightarrow> None))))"

definition ResolveWithRegistry ::
  "(string \<rightharpoonup> concept_fragment) \<Rightarrow> string list \<Rightarrow> string \<Rightarrow> concept_error + concept_fragment list" where
  "ResolveWithRegistry registry requested kind =
     (case look_up_all registry [] [] requested of
        Inl err \<Rightarrow> Inl err
      | Inr (listed, fragments) \<Rightarrow>
          (case List.map_filter (fragment_error listed kind) fragments of
             [] \<Rightarrow> Inr fragments
           | err # _ \<Rightarrow> Inl err))"

section \<open>Lowering the dependencies\<close>

definition conceptDeclarationID :: "string \<Rightarrow> string \<Rightarrow> string \<Rightarrow> nat \<Rightarrow> string" where
  "conceptDeclarationID concept kind name index = concept @ '':'' @ kind @ '':'' @ name @ '':'' @ nat_string index"

definition dependency_source :: "dependency_contribution \<Rightarrow> author_source" where
  "dependency_source c =
     \<lparr>asKind = (if dcSource c = '''' then ''npm'' else dcSource c), asPackage = dcName c, asRange = dcRange c,
      asRef = '''', asRepo = '''', asTag = '''', asRev = '''', asBranch = '''', asPath = '''', asName = ''''\<rparr>"

definition concept_declaration ::
  "string \<Rightarrow> string \<Rightarrow> int \<Rightarrow> nat \<Rightarrow> nat \<Rightarrow> dependency_contribution \<Rightarrow> dependency_declaration" where
  "concept_declaration concept kind layer_order index order c =
     \<lparr>ddID = conceptDeclarationID concept kind (dcName c) index, ddKey = '''',
      ddIdentity = source_identity (dependency_source c), ddSource = dependency_source c, ddConstraint = dcRange c,
      ddKind = kind, ddOptional = False,
      ddOrigin = \<lparr>doKind = ''concept'', doName = concept, doSourcePath = '''', doRef = ''''\<rparr>,
      ddLayer = ''concept'', ddLayerOrder = layer_order, ddOrder = int order, ddAuthority = ''generated'',
      ddEditability = ''concept-owned'', ddPatch = None\<rparr>"

definition appendConceptDependencies ::
  "dependency_declaration list \<times> nat \<Rightarrow> concept_fragment \<Rightarrow> dependency_contribution list \<Rightarrow> string \<Rightarrow> int \<Rightarrow>
     dependency_declaration list \<times> nat" where
  "appendConceptDependencies st f cs kind layer_order =
     (let (ds, order) = st
      in (ds @ map (\<lambda>(i, c). concept_declaration (frName f) kind layer_order i (order + i) c) (enumerate 0 cs),
          order + length cs))"

definition fragment_declarations ::
  "nat \<Rightarrow> dependency_declaration list \<times> nat \<Rightarrow> nat \<times> concept_fragment \<Rightarrow> dependency_declaration list \<times> nat" where
  "fragment_declarations n st p =
     (let (i, f) = p; layer_order = int n - int i;
          st1 = appendConceptDependencies st f (mcDependencies (frManifest f)) ''dep'' layer_order;
          st2 = appendConceptDependencies st1 f (mcTools (frManifest f)) ''tool'' layer_order
      in appendConceptDependencies st2 f (mcPeers (frManifest f)) ''peer'' layer_order)"

definition DependencyDeclarations :: "concept_fragment list \<Rightarrow> dependency_declaration list" where
  "DependencyDeclarations fs = fst (foldl (fragment_declarations (length fs)) ([], 0) (enumerate 0 fs))"

end
