(* ===== verification/Concept_Merge.thy ===== *)
theory Concept_Merge
  imports Concepts "HOL-Library.AList"
begin

text \<open>
  \<open>internal/concepts/merge.go\<close>: the fragments are added one after the other to a growing result; what
  two of them contribute under the same key must be the same.
\<close>

section \<open>The merger\<close>

record merge_state =
  msIR :: merged_concepts
  msOwners :: "string \<rightharpoonup> string"
  msPriority :: "(string \<times> nat) list"

fun and_then :: "'e + 'a \<Rightarrow> ('a \<Rightarrow> 'e + 'b) \<Rightarrow> 'e + 'b" where
  "and_then (Inl e) k = Inl e"
| "and_then (Inr x) k = k x"

fun fold_ok :: "('s \<Rightarrow> 'a \<Rightarrow> 'e + 's) \<Rightarrow> 's \<Rightarrow> 'a list \<Rightarrow> 'e + 's" where
  "fold_ok f s [] = Inr s"
| "fold_ok f s (x # xs) = and_then (f s x) (\<lambda>s'. fold_ok f s' xs)"

definition priority_of :: "merge_state \<Rightarrow> string \<Rightarrow> nat" where
  "priority_of m c = (case map_of (msPriority m) c of None \<Rightarrow> 0 | Some p \<Rightarrow> p)"

definition owner_of :: "merge_state \<Rightarrow> string \<Rightarrow> string" where
  "owner_of m path = (case msOwners m path of None \<Rightarrow> '''' | Some c \<Rightarrow> c)"

definition makeConflict :: "merge_state \<Rightarrow> string \<Rightarrow> string \<Rightarrow> string \<Rightarrow> conflict_reason \<Rightarrow> concept_conflict" where
  "makeConflict m path a b reason =
     (let swapped = priority_of m b < priority_of m a
      in \<lparr>ccPath = path, ccA = a, ccB = b, ccReason = reason,
          ccHigher = (if swapped then b else a), ccLower = (if swapped then a else b)\<rparr>)"

definition merge_conflict :: "merge_state \<Rightarrow> string \<Rightarrow> string \<Rightarrow> conflict_reason \<Rightarrow> concept_conflict" where
  "merge_conflict m path concept reason = makeConflict m path (owner_of m (''owner.'' @ path)) concept reason"

definition own :: "string \<Rightarrow> string \<Rightarrow> merge_state \<Rightarrow> merge_state" where
  "own path concept m = m\<lparr>msOwners := (msOwners m)(path \<mapsto> concept)\<rparr>"

definition addConcepts :: "merge_state \<Rightarrow> string list \<Rightarrow> merge_state" where
  "addConcepts m names =
     m\<lparr>msIR := (msIR m)\<lparr>mgConcepts :=
       foldl (\<lambda>cs c. if c \<noteq> '''' \<and> c \<notin> set cs then cs @ [c] else cs) (mgConcepts (msIR m)) names\<rparr>\<rparr>"

text \<open>
  \<open>addUnique\<close> for one value; \<open>read\<close> and \<open>write\<close> stand for the pointer to the list it goes into, and
  \<open>key\<close> for the field that reflection finds: \<open>Name\<close>, \<open>Path\<close> or \<open>Subject\<close>.
\<close>

definition addUnique ::
  "('a \<Rightarrow> string) \<Rightarrow> (merged_concepts \<Rightarrow> 'a list) \<Rightarrow> ('a list \<Rightarrow> merged_concepts \<Rightarrow> merged_concepts) \<Rightarrow> string \<Rightarrow>
     string \<Rightarrow> merge_state \<Rightarrow> 'a \<Rightarrow> concept_conflict + merge_state" where
  "addUnique key read write section concept m x =
     (let path = section @ ''.'' @ key x in
      case find (\<lambda>e. key e = key x) (read (msIR m)) of
        Some e \<Rightarrow> if e = x then Inr m else Inl (merge_conflict m path concept DifferentContribution)
      | None \<Rightarrow> Inr (own (''owner.'' @ path) concept (m\<lparr>msIR := write (read (msIR m) @ [x]) (msIR m)\<rparr>)))"

definition kind_owner :: "string \<Rightarrow> string \<Rightarrow> string" where
  "kind_owner kind name = ''depkind.'' @ kind @ ''.'' @ name"

definition crossKindDependencyConflict ::
  "merge_state \<Rightarrow> string \<Rightarrow> string \<Rightarrow> string \<Rightarrow> concept_conflict + merge_state" where
  "crossKindDependencyConflict m name kind concept =
     (case find (\<lambda>p. msOwners m (kind_owner p name) \<noteq> None \<and> p \<noteq> kind) [''dependency'', ''tool'', ''peer''] of
        Some p \<Rightarrow> Inl (makeConflict m (''manifest.dependencies.'' @ name) (owner_of m (kind_owner p name)) concept
                    (SameAsOtherKind p kind))
      | None \<Rightarrow> Inr (own (kind_owner kind name) concept m))"

definition add_dep ::
  "(merged_concepts \<Rightarrow> dependency_contribution list) \<Rightarrow>
     (dependency_contribution list \<Rightarrow> merged_concepts \<Rightarrow> merged_concepts) \<Rightarrow> string \<Rightarrow> string \<Rightarrow> string \<Rightarrow>
     merge_state \<Rightarrow> dependency_contribution \<Rightarrow> concept_conflict + merge_state" where
  "add_dep read write path concept kind m0 v =
     and_then (crossKindDependencyConflict m0 (dcName v) kind concept)
       (\<lambda>m. case find (\<lambda>e. dcName e = dcName v) (read (msIR m)) of
          Some e \<Rightarrow>
            if dcRange e = dcRange v \<and> dcSource e = dcSource v then Inr m
            else Inl (merge_conflict m (path @ ''.'' @ dcName v) concept DifferentContribution)
        | None \<Rightarrow>
            let v' = v\<lparr>dcDeclaredBy := concept,
                       dcDeclarationOrder := int (length (msPriority m)) - int (priority_of m concept)\<rparr>
            in Inr (own (''owner.'' @ path @ ''.'' @ dcName v) concept
                 (m\<lparr>msIR := write (read (msIR m) @ [v']) (msIR m)\<rparr>)))"

definition addDeps ::
  "(merged_concepts \<Rightarrow> dependency_contribution list) \<Rightarrow>
     (dependency_contribution list \<Rightarrow> merged_concepts \<Rightarrow> merged_concepts) \<Rightarrow> string \<Rightarrow> string \<Rightarrow> string \<Rightarrow>
     merge_state \<Rightarrow> dependency_contribution list \<Rightarrow> concept_conflict + merge_state" where
  "addDeps read write path concept kind m vs = fold_ok (add_dep read write path concept kind) m vs"

text \<open>The projections, in the order of Go's walk over the maps.\<close>

definition add_scalar ::
  "string \<Rightarrow> string \<Rightarrow> merge_state \<Rightarrow> string \<times> string \<Rightarrow> concept_conflict + merge_state" where
  "add_scalar concept obj m kv =
     (let (k, v) = kv; path = ''projections.'' @ obj @ ''.'' @ k;
          known = (case mgProjections (msIR m) obj of None \<Rightarrow> Map.empty | Some fs \<Rightarrow> fs)
      in case known k of
           Some old \<Rightarrow>
             if old \<noteq> v then Inl (merge_conflict m path concept (ScalarDiffers old v))
             else Inr (own (''owner.'' @ path) concept m)
         | None \<Rightarrow> Inr (own (''owner.'' @ path) concept
             (m\<lparr>msIR := (msIR m)\<lparr>mgProjections := (mgProjections (msIR m))(obj \<mapsto> known(k \<mapsto> v))\<rparr>\<rparr>)))"

definition add_object ::
  "string \<Rightarrow> merge_state \<Rightarrow> string \<times> (string \<times> string) list \<Rightarrow> concept_conflict + merge_state" where
  "add_object concept m p =
     (let (obj, kvs) = p;
          known = (case mgProjections (msIR m) obj of None \<Rightarrow> Map.empty | Some fs \<Rightarrow> fs);
          m1 = m\<lparr>msIR := (msIR m)\<lparr>mgProjections := (mgProjections (msIR m))(obj \<mapsto> known)\<rparr>\<rparr>
      in fold_ok (add_scalar concept obj) m1 kvs)"

definition mergeProjections :: "merge_state \<Rightarrow> concept_fragment \<Rightarrow> concept_conflict + merge_state" where
  "mergeProjections m f = fold_ok (add_object (frName f)) m (frProjections f)"

text \<open>A slot that is already there ends the loop: the remaining slots of the fragment are skipped.\<close>

fun merge_slots ::
  "string \<Rightarrow> merge_state \<Rightarrow> slot_contribution list \<Rightarrow> concept_conflict + merge_state" where
  "merge_slots concept m [] = Inr m"
| "merge_slots concept m (s # ss) =
     (if slMode s = ''appendOrdered''
      then merge_slots concept (m\<lparr>msIR := (msIR m)\<lparr>mgSlots := mgSlots (msIR m) @ [s]\<rparr>\<rparr>) ss
      else
        (case find (\<lambda>e. slName e = slName s) (mgSlots (msIR m)) of
           Some e \<Rightarrow>
             if e = s then Inr m else Inl (merge_conflict m (''slots.'' @ slName s) concept SlotOwnershipDiffers)
         | None \<Rightarrow>
             merge_slots concept (own (''owner.slots.'' @ slName s) concept
               (m\<lparr>msIR := (msIR m)\<lparr>mgSlots := mgSlots (msIR m) @ [s]\<rparr>\<rparr>)) ss))"

definition mergeSlots :: "merge_state \<Rightarrow> concept_fragment \<Rightarrow> concept_conflict + merge_state" where
  "mergeSlots m f = merge_slots (frName f) m (frSlots f)"

definition merge_single ::
  "(merged_concepts \<Rightarrow> 'a option) \<Rightarrow> ('a \<Rightarrow> merged_concepts \<Rightarrow> merged_concepts) \<Rightarrow> string \<Rightarrow> string \<Rightarrow> string \<Rightarrow>
     merge_state \<Rightarrow> 'a option \<Rightarrow> concept_conflict + merge_state" where
  "merge_single read write path what concept m x =
     (case x of
        None \<Rightarrow> Inr m
      | Some v \<Rightarrow>
          if (case read (msIR m) of None \<Rightarrow> False | Some w \<Rightarrow> w \<noteq> v)
          then Inl (merge_conflict m path concept (DifferentSection what))
          else Inr (m\<lparr>msIR := write v (msIR m)\<rparr>))"

text \<open>Writing a field of the merged manifest.\<close>

definition put_manifest :: "(manifest_contributions \<Rightarrow> manifest_contributions) \<Rightarrow> merged_concepts \<Rightarrow> merged_concepts" where
  "put_manifest g ir = ir\<lparr>mgManifest := g (mgManifest ir)\<rparr>"


definition add_fragment :: "merge_state \<Rightarrow> concept_fragment \<Rightarrow> concept_conflict + merge_state" where
  "add_fragment m0 f =
     (let c = frName f; mf = frManifest f in
      and_then (fold_ok (addUnique vcName mgVariables (\<lambda>xs ir. ir\<lparr>mgVariables := xs\<rparr>) ''variables'' c)
          (addConcepts m0 (c # frProvides f @ mcConcepts mf)) (frVariables f)) (\<lambda>m.
      and_then (addDeps (\<lambda>ir. mcDependencies (mgManifest ir)) (\<lambda>xs. put_manifest (mcDependencies_update (\<lambda>_. xs)))
          ''manifest.dependencies'' c ''dependency'' m (mcDependencies mf)) (\<lambda>m.
      and_then (addDeps (\<lambda>ir. mcTools (mgManifest ir)) (\<lambda>xs. put_manifest (mcTools_update (\<lambda>_. xs)))
          ''manifest.tools'' c ''tool'' m (mcTools mf)) (\<lambda>m.
      and_then (addDeps (\<lambda>ir. mcPeers (mgManifest ir)) (\<lambda>xs. put_manifest (mcPeers_update (\<lambda>_. xs)))
          ''manifest.peers'' c ''peer'' m (mcPeers mf)) (\<lambda>m.
      and_then (fold_ok (addUnique tcName (\<lambda>ir. mcTargets (mgManifest ir)) (\<lambda>xs. put_manifest (mcTargets_update (\<lambda>_. xs)))
          ''manifest.targets'' c) m (mcTargets mf)) (\<lambda>m.
      and_then (fold_ok (addUnique rtcName (\<lambda>ir. mcRunTargets (mgManifest ir)) (\<lambda>xs. put_manifest (mcRunTargets_update (\<lambda>_. xs)))
          ''manifest.runTargets'' c) m (mcRunTargets mf)) (\<lambda>m.
      and_then (fold_ok (addUnique ecName (\<lambda>ir. mcEnv (mgManifest ir)) (\<lambda>xs. put_manifest (mcEnv_update (\<lambda>_. xs)))
          ''manifest.env'' c) m (mcEnv mf)) (\<lambda>m.
      and_then (fold_ok (addUnique scName (\<lambda>ir. mcServices (mgManifest ir)) (\<lambda>xs. put_manifest (mcServices_update (\<lambda>_. xs)))
          ''manifest.services'' c) m (mcServices mf)) (\<lambda>m.
      and_then (fold_ok (addUnique pocSubject (\<lambda>ir. mcUpdatePolicy (mgManifest ir)) (\<lambda>xs. put_manifest (mcUpdatePolicy_update (\<lambda>_. xs)))
          ''manifest.updatePolicy'' c) m (mcUpdatePolicy mf)) (\<lambda>m.
      and_then (fold_ok (addUnique pocSubject (\<lambda>ir. mcSecurityPolicy (mgManifest ir)) (\<lambda>xs. put_manifest (mcSecurityPolicy_update (\<lambda>_. xs)))
          ''manifest.securityPolicy'' c) m (mcSecurityPolicy mf)) (\<lambda>m.
      and_then (fold_ok (addUnique fcPath mgFiles (\<lambda>xs ir. ir\<lparr>mgFiles := xs\<rparr>) ''files'' c) m (frFiles f)) (\<lambda>m.
      and_then (mergeProjections m f) (\<lambda>m.
      and_then (mergeSlots m f) (\<lambda>m.
      and_then (merge_single (\<lambda>ir. mcWorkspace (mgManifest ir)) (\<lambda>v. put_manifest (mcWorkspace_update (\<lambda>_. Some v)))
          ''manifest.workspace'' ''workspace'' c m (mcWorkspace mf)) (\<lambda>m.
      and_then (merge_single (\<lambda>ir. mcPackage (mgManifest ir)) (\<lambda>v. put_manifest (mcPackage_update (\<lambda>_. Some v)))
          ''manifest.package'' ''package'' c m (mcPackage mf)) (\<lambda>m.
      and_then (merge_single (\<lambda>ir. mcPack (mgManifest ir)) (\<lambda>v. put_manifest (mcPack_update (\<lambda>_. Some v)))
          ''manifest.pack'' ''pack'' c m (mcPack mf)) (\<lambda>m.
      Inr (m\<lparr>msIR := (msIR m)\<lparr>mgWarnings := mgWarnings (msIR m) @ frWarnings f\<rparr>\<rparr>))))))))))))))))))"

definition empty_manifest :: manifest_contributions where
  "empty_manifest = \<lparr>mcWorkspace = None, mcPackage = None, mcDependencies = [], mcTools = [], mcPeers = [],
     mcTargets = [], mcRunTargets = [], mcEnv = [], mcServices = [], mcUpdatePolicy = [], mcSecurityPolicy = [],
     mcPack = None, mcConcepts = []\<rparr>"

definition merge_start :: "concept_fragment list \<Rightarrow> merge_state" where
  "merge_start fs =
     \<lparr>msIR = \<lparr>mgConcepts = [], mgVariables = [], mgManifest = empty_manifest, mgAuthoring = DependencyDeclarations fs,
              mgFiles = [], mgProjections = Map.empty, mgSlots = [], mgWarnings = []\<rparr>,
      msOwners = Map.empty,
      msPriority = foldl (\<lambda>p (i, f). AList.update (frName f) i p) [] (enumerate 0 fs)\<rparr>"

definition Merge :: "concept_fragment list \<Rightarrow> concept_conflict + merged_concepts" where
  "Merge fs = and_then (fold_ok add_fragment (merge_start fs) fs) (\<lambda>m. Inr (msIR m))"

definition BuildConceptIR ::
  "(string \<rightharpoonup> concept_fragment) \<Rightarrow> string list \<Rightarrow> string \<Rightarrow> (concept_error + concept_conflict) + merged_concepts" where
  "BuildConceptIR registry concepts kind =
     (case ResolveWithRegistry registry concepts kind of
        Inl err \<Rightarrow> Inl (Inl err)
      | Inr fs \<Rightarrow> (case Merge fs of Inl c \<Rightarrow> Inl (Inr c) | Inr ir \<Rightarrow> Inr ir))"

end
