(* ===== verification/Concept_Props.thy ===== *)
theory Concept_Props
  imports Concept_Merge
begin

text \<open>
  What a successful merge guarantees.  Two locales say what the lists of the result must provide for
  the lemmas about \<open>addUnique\<close> and \<open>addDeps\<close>; they are interpreted on all eleven lists.
\<close>

section \<open>Invariant and growth\<close>

definition dep_kinds :: "string list" where
  "dep_kinds = [''dependency'', ''tool'', ''peer'']"

definition deps_of :: "string \<Rightarrow> merged_concepts \<Rightarrow> dependency_contribution list" where
  "deps_of kind ir =
     (if kind = ''dependency'' then mcDependencies (mgManifest ir)
      else if kind = ''tool'' then mcTools (mgManifest ir)
      else mcPeers (mgManifest ir))"

definition same_dep :: "dependency_contribution \<Rightarrow> dependency_contribution \<Rightarrow> bool" where
  "same_dep a b \<longleftrightarrow> dcName a = dcName b \<and> dcRange a = dcRange b \<and> dcSource a = dcSource b"

text \<open>The merged lists without two entries of the same key.\<close>

definition unique_ok :: "merged_concepts \<Rightarrow> bool" where
  "unique_ok ir \<longleftrightarrow>
     distinct (map vcName (mgVariables ir)) \<and> distinct (map tcName (mcTargets (mgManifest ir))) \<and>
     distinct (map rtcName (mcRunTargets (mgManifest ir))) \<and> distinct (map ecName (mcEnv (mgManifest ir))) \<and>
     distinct (map scName (mcServices (mgManifest ir))) \<and> distinct (map pocSubject (mcUpdatePolicy (mgManifest ir))) \<and>
     distinct (map pocSubject (mcSecurityPolicy (mgManifest ir))) \<and> distinct (map fcPath (mgFiles ir))"

definition grows :: "merged_concepts \<Rightarrow> merged_concepts \<Rightarrow> bool" where
  "grows ir ir' \<longleftrightarrow>
     set (mgVariables ir) \<subseteq> set (mgVariables ir') \<and>
     set (mcTargets (mgManifest ir)) \<subseteq> set (mcTargets (mgManifest ir')) \<and>
     set (mcRunTargets (mgManifest ir)) \<subseteq> set (mcRunTargets (mgManifest ir')) \<and>
     set (mcEnv (mgManifest ir)) \<subseteq> set (mcEnv (mgManifest ir')) \<and>
     set (mcServices (mgManifest ir)) \<subseteq> set (mcServices (mgManifest ir')) \<and>
     set (mcUpdatePolicy (mgManifest ir)) \<subseteq> set (mcUpdatePolicy (mgManifest ir')) \<and>
     set (mcSecurityPolicy (mgManifest ir)) \<subseteq> set (mcSecurityPolicy (mgManifest ir')) \<and>
     set (mgFiles ir) \<subseteq> set (mgFiles ir') \<and>
     (\<forall>k \<in> set dep_kinds. set (deps_of k ir) \<subseteq> set (deps_of k ir'))"

lemma grows_refl [simp]: "grows ir ir"
  by (simp add: grows_def)

lemma grows_trans [trans]: "grows a b \<Longrightarrow> grows b c \<Longrightarrow> grows a c"
  unfolding grows_def by (meson order_trans)

definition owned :: "merge_state \<Rightarrow> string \<Rightarrow> string \<Rightarrow> bool" where
  "owned m kind name \<longleftrightarrow> msOwners m (kind_owner kind name) \<noteq> None"

text \<open>\<open>given k\<close> are the dependencies of kind \<open>k\<close> that the fragments contribute.\<close>

definition deps_ok :: "(string \<Rightarrow> dependency_contribution list) \<Rightarrow> merge_state \<Rightarrow> bool" where
  "deps_ok given m \<longleftrightarrow>
     (\<forall>k \<in> set dep_kinds. distinct (map dcName (deps_of k (msIR m))) \<and>
       (\<forall>e \<in> set (deps_of k (msIR m)). owned m k (dcName e) \<and> (\<exists>c \<in> set (given k). same_dep e c))) \<and>
     (\<forall>n. \<forall>k \<in> set dep_kinds. \<forall>l \<in> set dep_kinds. owned m k n \<and> owned m l n \<longrightarrow> k = l)"

definition good ::
  "(string \<Rightarrow> dependency_contribution list) \<Rightarrow> dependency_declaration list \<Rightarrow> merge_state \<Rightarrow> bool" where
  "good given ds m \<longleftrightarrow> unique_ok (msIR m) \<and> deps_ok given m \<and> mgAuthoring (msIR m) = ds"

section \<open>Steps\<close>

text \<open>A step keeps the invariant, loses nothing and establishes \<open>post\<close>.\<close>

definition sound_step ::
  "(string \<Rightarrow> dependency_contribution list) \<Rightarrow> dependency_declaration list \<Rightarrow>
     (merge_state \<Rightarrow> concept_conflict + merge_state) \<Rightarrow> (merged_concepts \<Rightarrow> bool) \<Rightarrow> bool" where
  "sound_step given ds step post \<longleftrightarrow>
     (\<forall>m m'. good given ds m \<longrightarrow> step m = Inr m' \<longrightarrow> good given ds m' \<and> grows (msIR m) (msIR m') \<and> post (msIR m'))"

definition kept :: "(merged_concepts \<Rightarrow> bool) \<Rightarrow> bool" where
  "kept post \<longleftrightarrow> (\<forall>ir ir'. post ir \<longrightarrow> grows ir ir' \<longrightarrow> post ir')"

lemma and_then_Inr: "and_then x k = Inr z \<longleftrightarrow> (\<exists>y. x = Inr y \<and> k y = Inr z)"
  by (cases x) simp_all

lemma sound_stepI:
  "(\<And>m m'. good given ds m \<Longrightarrow> step m = Inr m' \<Longrightarrow>
      good given ds m' \<and> grows (msIR m) (msIR m') \<and> post (msIR m')) \<Longrightarrow> sound_step given ds step post"
  by (simp add: sound_step_def)

lemma sound_stepD:
  "sound_step given ds step post \<Longrightarrow> good given ds m \<Longrightarrow> step m = Inr m' \<Longrightarrow>
    good given ds m' \<and> grows (msIR m) (msIR m') \<and> post (msIR m')"
  by (simp add: sound_step_def)

lemma sound_then:
  assumes "sound_step given ds f post" and "sound_step given ds g post'" and "kept post"
  shows "sound_step given ds (\<lambda>m. and_then (f m) g) (\<lambda>ir. post ir \<and> post' ir)"
proof (rule sound_stepI)
  fix m m'
  assume m: "good given ds m" "and_then (f m) g = Inr m'"
  then obtain m1 where m1: "f m = Inr m1" "g m1 = Inr m'" by (auto simp: and_then_Inr)
  from sound_stepD [OF assms(1) m(1) m1(1)] have 1: "good given ds m1" "grows (msIR m) (msIR m1)" "post (msIR m1)" by simp_all
  from sound_stepD [OF assms(2) 1(1) m1(2)] have 2: "good given ds m'" "grows (msIR m1) (msIR m')" "post' (msIR m')" by simp_all
  have "post (msIR m')" using assms(3) 1(3) 2(2) unfolding kept_def by blast
  with 1 2 grows_trans show "good given ds m' \<and> grows (msIR m) (msIR m') \<and> post (msIR m') \<and> post' (msIR m')" by blast
qed

lemma sound_fold:
  assumes "\<And>x. x \<in> set xs \<Longrightarrow> sound_step given ds (\<lambda>m. f m x) (post x)" and "\<And>x. x \<in> set xs \<Longrightarrow> kept (post x)"
  shows "sound_step given ds (\<lambda>m. fold_ok f m xs) (\<lambda>ir. \<forall>x \<in> set xs. post x ir)"
  using assms
proof (induction xs)
  case Nil
  show ?case by (rule sound_stepI) simp
next
  case (Cons x xs)
  have "sound_step given ds (\<lambda>m. and_then (f m x) (\<lambda>m'. fold_ok f m' xs)) (\<lambda>ir. post x ir \<and> (\<forall>y \<in> set xs. post y ir))"
    by (rule sound_then) (use Cons in simp_all)
  then show ?case by simp
qed

lemma kept_ball: "(\<And>x. x \<in> A \<Longrightarrow> kept (post x)) \<Longrightarrow> kept (\<lambda>ir. \<forall>x \<in> A. post x ir)"
  unfolding kept_def by blast

lemma kept_conj: "kept p \<Longrightarrow> kept q \<Longrightarrow> kept (\<lambda>ir. p ir \<and> q ir)"
  unfolding kept_def by blast

lemma kept_True [simp]: "kept (\<lambda>ir. True)"
  by (simp add: kept_def)

text \<open>Steps that touch neither the lists nor the owners of dependency kinds.\<close>

lemma good_cong:
  assumes "good given ds m" and "\<And>k n. owned m' k n = owned m k n"
    and "unique_ok (msIR m') = unique_ok (msIR m)" and "\<And>k. deps_of k (msIR m') = deps_of k (msIR m)"
    and "mgAuthoring (msIR m') = mgAuthoring (msIR m)"
  shows "good given ds m'"
  using assms by (simp add: good_def deps_ok_def)

lemma owned_own [simp]: "owned (own (CHR ''o'' # path) concept m) kind name = owned m kind name"
  by (simp add: owned_def own_def kind_owner_def)

lemma owned_IR [simp]: "owned (m\<lparr>msIR := ir\<rparr>) = owned m"
  by (rule ext)+ (simp add: owned_def)

lemma own_IR [simp]: "msIR (own path concept m) = msIR m"
  by (simp add: own_def)


section \<open>Lists with keys\<close>

locale keyed_list =
  fixes key :: "'a \<Rightarrow> string" and read :: "merged_concepts \<Rightarrow> 'a list"
    and put :: "'a list \<Rightarrow> merged_concepts \<Rightarrow> merged_concepts"
  assumes read_put: "read (put xs ir) = xs"
    and unique_read: "unique_ok ir \<Longrightarrow> distinct (map key (read ir))"
    and unique_put: "unique_ok ir \<Longrightarrow> distinct (map key xs) \<Longrightarrow> unique_ok (put xs ir)"
    and put_grows: "set (read ir) \<subseteq> set xs \<Longrightarrow> grows ir (put xs ir)"
    and grows_read: "grows ir ir' \<Longrightarrow> set (read ir) \<subseteq> set (read ir')"
    and deps_put: "deps_of k (put xs ir) = deps_of k ir"
    and authoring_put: "mgAuthoring (put xs ir) = mgAuthoring ir"
begin

lemma kept_member: "kept (\<lambda>ir. x \<in> set (read ir))"
  using grows_read unfolding kept_def by blast

lemma add_unique_sound:
  "sound_step given ds (\<lambda>m. addUnique key read put section concept m x) (\<lambda>ir. x \<in> set (read ir))"
proof (rule sound_stepI)
  fix m m'
  assume good: "good given ds m" and step: "addUnique key read put section concept m x = Inr m'"
  show "good given ds m' \<and> grows (msIR m) (msIR m') \<and> x \<in> set (read (msIR m'))"
  proof (cases "find (\<lambda>e. key e = key x) (read (msIR m))")
    case None
    then have new: "key x \<notin> key ` set (read (msIR m))" by (auto simp: find_None_iff)
    let ?ir = "put (read (msIR m) @ [x]) (msIR m)"
    have m': "m' = own (''owner.'' @ section @ ''.'' @ key x) concept (m\<lparr>msIR := ?ir\<rparr>)"
      using step None by (simp add: addUnique_def Let_def)
    have "distinct (map key (read (msIR m) @ [x]))" using good unique_read new by (simp add: good_def)
    then have "unique_ok ?ir" using good by (intro unique_put) (simp_all add: good_def)
    then have "good given ds m'"
      using good by (intro good_cong [OF good]) (simp_all add: m' good_def deps_put authoring_put)
    moreover have "grows (msIR m) ?ir" by (rule put_grows) auto
    ultimately show ?thesis by (simp add: m' read_put)
  next
    case (Some e)
    then have "e \<in> set (read (msIR m))" by (auto dest: find_SomeD)
    then show ?thesis using step Some good by (auto simp: addUnique_def Let_def split: if_splits)
  qed
qed

lemma add_all_sound:
  "sound_step given ds (\<lambda>m. fold_ok (addUnique key read put section concept) m xs) (\<lambda>ir. \<forall>x \<in> set xs. x \<in> set (read ir))"
  by (rule sound_fold) (rule add_unique_sound, rule kept_member)

lemma kept_all: "kept (\<lambda>ir. \<forall>x \<in> set xs. x \<in> set (read ir))"
  by (rule kept_ball) (rule kept_member)

end

lemmas section_defs = unique_ok_def grows_def deps_of_def put_manifest_def dep_kinds_def

interpretation variables: keyed_list vcName mgVariables "\<lambda>xs ir. ir\<lparr>mgVariables := xs\<rparr>"
  by unfold_locales (simp_all add: section_defs)

interpretation targets: keyed_list tcName "\<lambda>ir. mcTargets (mgManifest ir)" "\<lambda>xs. put_manifest (mcTargets_update (\<lambda>_. xs))"
  by unfold_locales (simp_all add: section_defs)

interpretation run_targets: keyed_list rtcName "\<lambda>ir. mcRunTargets (mgManifest ir)" "\<lambda>xs. put_manifest (mcRunTargets_update (\<lambda>_. xs))"
  by unfold_locales (simp_all add: section_defs)

interpretation envs: keyed_list ecName "\<lambda>ir. mcEnv (mgManifest ir)" "\<lambda>xs. put_manifest (mcEnv_update (\<lambda>_. xs))"
  by unfold_locales (simp_all add: section_defs)

interpretation services: keyed_list scName "\<lambda>ir. mcServices (mgManifest ir)" "\<lambda>xs. put_manifest (mcServices_update (\<lambda>_. xs))"
  by unfold_locales (simp_all add: section_defs)

interpretation updates: keyed_list pocSubject "\<lambda>ir. mcUpdatePolicy (mgManifest ir)" "\<lambda>xs. put_manifest (mcUpdatePolicy_update (\<lambda>_. xs))"
  by unfold_locales (simp_all add: section_defs)

interpretation securities: keyed_list pocSubject "\<lambda>ir. mcSecurityPolicy (mgManifest ir)" "\<lambda>xs. put_manifest (mcSecurityPolicy_update (\<lambda>_. xs))"
  by unfold_locales (simp_all add: section_defs)

interpretation files: keyed_list fcPath mgFiles "\<lambda>xs ir. ir\<lparr>mgFiles := xs\<rparr>"
  by unfold_locales (simp_all add: section_defs)


section \<open>Dependencies\<close>

lemma kind_owner_inj:
  "k \<in> set dep_kinds \<Longrightarrow> l \<in> set dep_kinds \<Longrightarrow> kind_owner k n = kind_owner l n' \<longleftrightarrow> k = l \<and> n = n'"
  by (auto simp: dep_kinds_def kind_owner_def)

lemma owned_own_kind:
  "k \<in> set dep_kinds \<Longrightarrow> l \<in> set dep_kinds \<Longrightarrow>
    owned (own (kind_owner k n) concept m) l n' \<longleftrightarrow> owned m l n' \<or> l = k \<and> n' = n"
  by (auto simp: owned_def own_def kind_owner_inj)

lemma cross_kind_Inr:
  assumes "crossKindDependencyConflict m n kind concept = Inr m'"
  shows "m' = own (kind_owner kind n) concept m"
    and "p \<in> set dep_kinds \<Longrightarrow> owned m p n \<Longrightarrow> p = kind"
proof -
  have none: "find (\<lambda>p. msOwners m (kind_owner p n) \<noteq> None \<and> p \<noteq> kind) dep_kinds = None"
    using assms unfolding crossKindDependencyConflict_def dep_kinds_def [symmetric] by (simp split: option.splits)
  then show "m' = own (kind_owner kind n) concept m"
    using assms unfolding crossKindDependencyConflict_def dep_kinds_def [symmetric] by simp
  show "p \<in> set dep_kinds \<Longrightarrow> owned m p n \<Longrightarrow> p = kind"
    using none by (auto simp: find_None_iff owned_def)
qed

lemma cross_kind_good:
  assumes "good given ds m" "kind \<in> set dep_kinds" "crossKindDependencyConflict m n kind concept = Inr m'"
  shows "good given ds m'"
proof -
  have ow: "owned m' l n' \<longleftrightarrow> owned m l n' \<or> l = kind \<and> n' = n" if "l \<in> set dep_kinds" for l n'
    using cross_kind_Inr(1) [OF assms(3)] assms(2) that by (simp add: owned_own_kind)
  have "msIR m' = msIR m" using cross_kind_Inr(1) [OF assms(3)] by simp
  then show ?thesis using assms(1) cross_kind_Inr(2) [OF assms(3)]
    unfolding good_def deps_ok_def by (simp add: ow) blast
qed

locale dep_list =
  fixes kind :: string and read :: "merged_concepts \<Rightarrow> dependency_contribution list"
    and put :: "dependency_contribution list \<Rightarrow> merged_concepts \<Rightarrow> merged_concepts"
  assumes kind: "kind \<in> set dep_kinds"
    and read_deps: "read ir = deps_of kind ir"
    and deps_put: "k \<in> set dep_kinds \<Longrightarrow> deps_of k (put xs ir) = (if k = kind then xs else deps_of k ir)"
    and unique_put: "unique_ok (put xs ir) = unique_ok ir"
    and put_grows: "set (deps_of kind ir) \<subseteq> set xs \<Longrightarrow> grows ir (put xs ir)"
    and authoring_put: "mgAuthoring (put xs ir) = mgAuthoring ir"
begin

abbreviation has_dep :: "dependency_contribution \<Rightarrow> merged_concepts \<Rightarrow> bool" where
  "has_dep v ir \<equiv> \<exists>e \<in> set (deps_of kind ir). same_dep e v"

lemma kept_dep: "kept (has_dep v)"
  using kind unfolding kept_def grows_def by blast

lemma new_dep_good:
  assumes "good given ds m" and "dcName v \<notin> dcName ` set (deps_of kind (msIR m))" and "owned m kind (dcName v)"
    and "c \<in> set (given kind)" "same_dep v c"
  shows "good given ds (own (CHR ''o'' # path) concept (m\<lparr>msIR := put (deps_of kind (msIR m) @ [v]) (msIR m)\<rparr>))"
  using assms kind unfolding good_def deps_ok_def
  by (auto simp: deps_put unique_put authoring_put)

lemma add_dep_sound:
  assumes "v \<in> set (given kind)"
  shows "sound_step given ds (\<lambda>m. add_dep read put path concept kind m v) (has_dep v)"
proof (rule sound_stepI)
  fix m m'
  assume good: "good given ds m" and step: "add_dep read put path concept kind m v = Inr m'"
  from step obtain m1 where m1: "crossKindDependencyConflict m (dcName v) kind concept = Inr m1"
    by (auto simp: add_dep_def and_then_Inr)
  have good1: "good given ds m1" by (rule cross_kind_good [OF good kind m1])
  have ow: "owned m1 kind (dcName v)" using cross_kind_Inr(1) [OF m1] kind by (simp add: owned_own_kind)
  have IR: "msIR m1 = msIR m" using cross_kind_Inr(1) [OF m1] by simp
  show "good given ds m' \<and> grows (msIR m) (msIR m') \<and> has_dep v (msIR m')"
  proof (cases "find (\<lambda>e. dcName e = dcName v) (deps_of kind (msIR m1))")
    case None
    then have new: "dcName v \<notin> dcName ` set (deps_of kind (msIR m1))" by (auto simp: find_None_iff)
    define v' where "v' = v\<lparr>dcDeclaredBy := concept,
        dcDeclarationOrder := int (length (msPriority m1)) - int (priority_of m1 concept)\<rparr>"
    have v': "dcName v' = dcName v" "same_dep v' v" by (simp_all add: v'_def same_dep_def)
    have m': "m' = own (''owner.'' @ path @ ''.'' @ dcName v) concept
        (m1\<lparr>msIR := put (deps_of kind (msIR m1) @ [v']) (msIR m1)\<rparr>)"
      using step None by (simp add: add_dep_def m1 Let_def read_deps v'_def)
    have "good given ds m'"
      unfolding m' append_Cons by (rule new_dep_good [OF good1]) (use new ow assms v' in simp_all)
    moreover have "grows (msIR m) (msIR m')"
      using put_grows [of "msIR m1" "deps_of kind (msIR m1) @ [v']"] by (auto simp: m' IR)
    moreover have "has_dep v (msIR m')" using kind v' by (auto simp: m' deps_put)
    ultimately show ?thesis by blast
  next
    case (Some e)
    then have e: "e \<in> set (deps_of kind (msIR m1))" "dcName e = dcName v" by (auto dest: find_SomeD)
    have "dcRange e = dcRange v \<and> dcSource e = dcSource v \<and> m' = m1"
      using step Some by (simp add: add_dep_def m1 read_deps split: if_splits)
    then show ?thesis using e good1 by (auto simp: IR same_dep_def)
  qed
qed

lemma add_deps_sound:
  assumes "set vs \<subseteq> set (given kind)"
  shows "sound_step given ds (\<lambda>m. addDeps read put path concept kind m vs) (\<lambda>ir. \<forall>v \<in> set vs. has_dep v ir)"
  unfolding addDeps_def by (rule sound_fold) (use assms in \<open>auto intro: add_dep_sound kept_dep\<close>)

lemma kept_deps: "kept (\<lambda>ir. \<forall>v \<in> set vs. has_dep v ir)"
  by (rule kept_ball) (rule kept_dep)

end

interpretation dependencies: dep_list "''dependency''" "\<lambda>ir. mcDependencies (mgManifest ir)"
    "\<lambda>xs. put_manifest (mcDependencies_update (\<lambda>_. xs))"
  by unfold_locales (auto simp: section_defs)

interpretation tools: dep_list "''tool''" "\<lambda>ir. mcTools (mgManifest ir)" "\<lambda>xs. put_manifest (mcTools_update (\<lambda>_. xs))"
  by unfold_locales (auto simp: section_defs)

interpretation peers: dep_list "''peer''" "\<lambda>ir. mcPeers (mgManifest ir)" "\<lambda>xs. put_manifest (mcPeers_update (\<lambda>_. xs))"
  by unfold_locales (auto simp: section_defs)


section \<open>The other steps\<close>

text \<open>Steps that leave the keyed lists and the owners of the kinds alone.\<close>

definition neutral :: "merge_state \<Rightarrow> merge_state \<Rightarrow> bool" where
  "neutral m m' \<longleftrightarrow>
     (\<forall>k n. owned m' k n = owned m k n) \<and>
     mgVariables (msIR m') = mgVariables (msIR m) \<and> mgFiles (msIR m') = mgFiles (msIR m) \<and>
     mgAuthoring (msIR m') = mgAuthoring (msIR m) \<and>
     (let a = mgManifest (msIR m); b = mgManifest (msIR m') in
      mcDependencies b = mcDependencies a \<and> mcTools b = mcTools a \<and> mcPeers b = mcPeers a \<and>
      mcTargets b = mcTargets a \<and> mcRunTargets b = mcRunTargets a \<and> mcEnv b = mcEnv a \<and>
      mcServices b = mcServices a \<and> mcUpdatePolicy b = mcUpdatePolicy a \<and> mcSecurityPolicy b = mcSecurityPolicy a)"

lemma neutral_refl [simp]: "neutral m m"
  by (simp add: neutral_def Let_def)

lemma neutral_trans [trans]: "neutral a b \<Longrightarrow> neutral b c \<Longrightarrow> neutral a c"
  by (simp add: neutral_def Let_def)

lemma neutral_sound:
  assumes "neutral m m'"
  shows "good given ds m \<Longrightarrow> good given ds m'" and "grows (msIR m) (msIR m')"
proof -
  have d: "deps_of k (msIR m') = deps_of k (msIR m)" for k
    using assms by (simp add: neutral_def deps_of_def Let_def)
  show "grows (msIR m) (msIR m')" using assms by (simp add: grows_def d neutral_def Let_def)
  show "good given ds m \<Longrightarrow> good given ds m'"
    by (erule good_cong) (use assms d in \<open>simp_all add: neutral_def unique_ok_def Let_def\<close>)
qed

lemma sound_neutral: "(\<And>m m'. step m = Inr m' \<Longrightarrow> neutral m m') \<Longrightarrow> sound_step given ds step (\<lambda>_. True)"
  by (rule sound_stepI) (blast dest: neutral_sound)

lemma sound_before:
  assumes "\<And>m. neutral m (h m)" and "sound_step given ds f post"
  shows "sound_step given ds (\<lambda>m. f (h m)) post"
proof (rule sound_stepI)
  fix m m'
  assume m: "good given ds m" "f (h m) = Inr m'"
  note h = neutral_sound [OF assms(1) [of m]]
  from sound_stepD [OF assms(2) h(1) [OF m(1)] m(2)] h(2) grows_trans
  show "good given ds m' \<and> grows (msIR m) (msIR m') \<and> post (msIR m')" by blast
qed

lemma neutral_fold: "(\<And>m x m'. f m x = Inr m' \<Longrightarrow> neutral m m') \<Longrightarrow> fold_ok f m xs = Inr m' \<Longrightarrow> neutral m m'"
proof (induction xs arbitrary: m)
  case (Cons x xs)
  from Cons.prems(2) obtain m1 where "f m x = Inr m1" "fold_ok f m1 xs = Inr m'" by (auto simp: and_then_Inr)
  with Cons.prems(1) Cons.IH [of m1] show ?case by (blast intro: neutral_trans)
qed simp

lemma neutral_IR:
  "neutral m (own (CHR ''o'' # path) concept m)"
  "neutral m (own (CHR ''o'' # path) concept (m\<lparr>msIR := (msIR m)\<lparr>mgProjections := p\<rparr>\<rparr>))"
  "neutral m (own (CHR ''o'' # path) concept (m\<lparr>msIR := (msIR m)\<lparr>mgSlots := ss\<rparr>\<rparr>))"
  "neutral m (m\<lparr>msIR := (msIR m)\<lparr>mgProjections := p\<rparr>\<rparr>)"
  "neutral m (m\<lparr>msIR := (msIR m)\<lparr>mgSlots := ss\<rparr>\<rparr>)"
  "neutral m (m\<lparr>msIR := (msIR m)\<lparr>mgWarnings := ws\<rparr>\<rparr>)"
  "neutral m (m\<lparr>msIR := (msIR m)\<lparr>mgConcepts := ns\<rparr>\<rparr>)"
  by (simp_all add: neutral_def Let_def)

lemma addConcepts_neutral: "neutral m (addConcepts m ns)"
  by (simp add: addConcepts_def neutral_IR)

lemma add_scalar_neutral: "add_scalar concept obj m kv = Inr m' \<Longrightarrow> neutral m m'"
  by (auto simp: add_scalar_def Let_def neutral_IR split: prod.splits option.splits if_splits)

lemma add_object_neutral: "add_object concept m p = Inr m' \<Longrightarrow> neutral m m'"
  by (auto simp: add_object_def Let_def split: prod.splits
      dest!: neutral_fold [rotated, OF _ add_scalar_neutral] intro: neutral_trans [OF neutral_IR(4)])

lemma mergeProjections_neutral: "mergeProjections m f = Inr m' \<Longrightarrow> neutral m m'"
  unfolding mergeProjections_def by (rule neutral_fold) (rule add_object_neutral)

lemma merge_slots_neutral: "merge_slots concept m ss = Inr m' \<Longrightarrow> neutral m m'"
proof (induction concept m ss rule: merge_slots.induct)
  case (2 concept m s ss)
  show ?case
  proof (cases "slMode s = ''appendOrdered''")
    case True
    with 2 neutral_IR(5) show ?thesis by (auto intro: neutral_trans)
  next
    case False
    show ?thesis
    proof (cases "find (\<lambda>e. slName e = slName s) (mgSlots (msIR m))")
      case None
      with 2 False show ?thesis by (auto intro: neutral_trans [OF neutral_IR(3)])
    next
      case (Some e)
      with 2 False show ?thesis by (auto split: if_splits)
    qed
  qed
qed simp

lemma mergeSlots_neutral: "mergeSlots m f = Inr m' \<Longrightarrow> neutral m m'"
  unfolding mergeSlots_def by (rule merge_slots_neutral)

lemma merge_single_neutral:
  assumes "merge_single read put path what concept m x = Inr m'" and "\<And>v. neutral m (m\<lparr>msIR := put v (msIR m)\<rparr>)"
  shows "neutral m m'"
  using assms by (auto simp: merge_single_def split: option.splits if_splits)

lemma single_neutral:
  "neutral m (m\<lparr>msIR := put_manifest (mcWorkspace_update (\<lambda>_. w)) (msIR m)\<rparr>)"
  "neutral m (m\<lparr>msIR := put_manifest (mcPackage_update (\<lambda>_. p)) (msIR m)\<rparr>)"
  "neutral m (m\<lparr>msIR := put_manifest (mcPack_update (\<lambda>_. q)) (msIR m)\<rparr>)"
  by (simp_all add: neutral_def put_manifest_def Let_def)


lemma merge_field_neutral:
  "merge_single read (\<lambda>v. put_manifest (mcWorkspace_update (\<lambda>_. Some v))) path what c m x = Inr m' \<Longrightarrow> neutral m m'"
  "merge_single read2 (\<lambda>v. put_manifest (mcPackage_update (\<lambda>_. Some v))) path what c m y = Inr m' \<Longrightarrow> neutral m m'"
  "merge_single read3 (\<lambda>v. put_manifest (mcPack_update (\<lambda>_. Some v))) path what c m z = Inr m' \<Longrightarrow> neutral m m'"
  by (erule merge_single_neutral, rule single_neutral)+

lemmas neutral_steps = mergeProjections_neutral mergeSlots_neutral merge_field_neutral

section \<open>Merging\<close>

text \<open>Everything a fragment contributes under a key is in the result.\<close>

definition covers :: "concept_fragment \<Rightarrow> merged_concepts \<Rightarrow> bool" where
  "covers f ir \<longleftrightarrow>
     (\<forall>x \<in> set (frVariables f). x \<in> set (mgVariables ir)) \<and>
     (\<forall>v \<in> set (mcDependencies (frManifest f)). \<exists>e \<in> set (deps_of ''dependency'' ir). same_dep e v) \<and>
     (\<forall>v \<in> set (mcTools (frManifest f)). \<exists>e \<in> set (deps_of ''tool'' ir). same_dep e v) \<and>
     (\<forall>v \<in> set (mcPeers (frManifest f)). \<exists>e \<in> set (deps_of ''peer'' ir). same_dep e v) \<and>
     (\<forall>x \<in> set (mcTargets (frManifest f)). x \<in> set (mcTargets (mgManifest ir))) \<and>
     (\<forall>x \<in> set (mcRunTargets (frManifest f)). x \<in> set (mcRunTargets (mgManifest ir))) \<and>
     (\<forall>x \<in> set (mcEnv (frManifest f)). x \<in> set (mcEnv (mgManifest ir))) \<and>
     (\<forall>x \<in> set (mcServices (frManifest f)). x \<in> set (mcServices (mgManifest ir))) \<and>
     (\<forall>x \<in> set (mcUpdatePolicy (frManifest f)). x \<in> set (mcUpdatePolicy (mgManifest ir))) \<and>
     (\<forall>x \<in> set (mcSecurityPolicy (frManifest f)). x \<in> set (mcSecurityPolicy (mgManifest ir))) \<and>
     (\<forall>x \<in> set (frFiles f). x \<in> set (mgFiles ir))"

definition contributed :: "concept_fragment list \<Rightarrow> string \<Rightarrow> dependency_contribution list" where
  "contributed fs kind =
     concat (map (\<lambda>f. if kind = ''dependency'' then mcDependencies (frManifest f)
                      else if kind = ''tool'' then mcTools (frManifest f)
                      else mcPeers (frManifest f)) fs)"

lemma contributed_member:
  "f \<in> set fs \<Longrightarrow> set (mcDependencies (frManifest f)) \<subseteq> set (contributed fs ''dependency'')"
  "f \<in> set fs \<Longrightarrow> set (mcTools (frManifest f)) \<subseteq> set (contributed fs ''tool'')"
  "f \<in> set fs \<Longrightarrow> set (mcPeers (frManifest f)) \<subseteq> set (contributed fs ''peer'')"
  by (auto simp: contributed_def)

lemma sound_post: "sound_step given ds step p \<Longrightarrow> (\<And>ir. p ir \<Longrightarrow> q ir) \<Longrightarrow> sound_step given ds step q"
  unfolding sound_step_def by blast

lemmas then_rules =
  sound_then [OF sound_before [OF addConcepts_neutral variables.add_all_sound] _ variables.kept_all]
  sound_then [OF targets.add_all_sound _ targets.kept_all]
  sound_then [OF run_targets.add_all_sound _ run_targets.kept_all]
  sound_then [OF envs.add_all_sound _ envs.kept_all]
  sound_then [OF services.add_all_sound _ services.kept_all]
  sound_then [OF updates.add_all_sound _ updates.kept_all]
  sound_then [OF securities.add_all_sound _ securities.kept_all]
  sound_then [OF files.add_all_sound _ files.kept_all]
  sound_then [OF sound_neutral _ kept_True]

lemmas dep_rules =
  sound_then [OF dependencies.add_deps_sound _ dependencies.kept_deps]
  sound_then [OF tools.add_deps_sound _ tools.kept_deps]
  sound_then [OF peers.add_deps_sound _ peers.kept_deps]

lemma add_fragment_sound:
  assumes "f \<in> set fs"
  shows "sound_step (contributed fs) ds (\<lambda>m. add_fragment m f) (covers f)"
proof (rule sound_post)
  show "sound_step (contributed fs) ds (\<lambda>m. add_fragment m f)
    (\<lambda>ir. (\<forall>x \<in> set (frVariables f). x \<in> set (mgVariables ir)) \<and>
     (\<forall>v \<in> set (mcDependencies (frManifest f)). \<exists>e \<in> set (deps_of ''dependency'' ir). same_dep e v) \<and>
     (\<forall>v \<in> set (mcTools (frManifest f)). \<exists>e \<in> set (deps_of ''tool'' ir). same_dep e v) \<and>
     (\<forall>v \<in> set (mcPeers (frManifest f)). \<exists>e \<in> set (deps_of ''peer'' ir). same_dep e v) \<and>
     (\<forall>x \<in> set (mcTargets (frManifest f)). x \<in> set (mcTargets (mgManifest ir))) \<and>
     (\<forall>x \<in> set (mcRunTargets (frManifest f)). x \<in> set (mcRunTargets (mgManifest ir))) \<and>
     (\<forall>x \<in> set (mcEnv (frManifest f)). x \<in> set (mcEnv (mgManifest ir))) \<and>
     (\<forall>x \<in> set (mcServices (frManifest f)). x \<in> set (mcServices (mgManifest ir))) \<and>
     (\<forall>x \<in> set (mcUpdatePolicy (frManifest f)). x \<in> set (mcUpdatePolicy (mgManifest ir))) \<and>
     (\<forall>x \<in> set (mcSecurityPolicy (frManifest f)). x \<in> set (mcSecurityPolicy (mgManifest ir))) \<and>
     (\<forall>x \<in> set (frFiles f). x \<in> set (mgFiles ir)) \<and> True \<and> True \<and> True \<and> True \<and> True \<and> True)"
    unfolding add_fragment_def Let_def
    by ((rule dep_rules then_rules sound_neutral | erule neutral_steps |
        rule contributed_member [OF assms])+) (auto simp: neutral_IR)
qed (simp add: covers_def)


lemma covers_kept: "kept (covers f)"
  unfolding covers_def
  by (intro kept_conj variables.kept_all dependencies.kept_deps tools.kept_deps peers.kept_deps targets.kept_all
      run_targets.kept_all envs.kept_all services.kept_all updates.kept_all securities.kept_all files.kept_all)

lemma merge_start_good: "good (contributed fs) (DependencyDeclarations fs) (merge_start fs)"
  by (auto simp: good_def merge_start_def unique_ok_def deps_ok_def deps_of_def empty_manifest_def owned_def)

lemma Merge_good:
  assumes "Merge fs = Inr ir"
  obtains m where "good (contributed fs) (DependencyDeclarations fs) m" "msIR m = ir" "\<forall>f \<in> set fs. covers f ir"
proof -
  from assms obtain m where m: "fold_ok add_fragment (merge_start fs) fs = Inr m" "ir = msIR m"
    by (auto simp: Merge_def and_then_Inr)
  have "sound_step (contributed fs) (DependencyDeclarations fs) (\<lambda>m. fold_ok add_fragment m fs)
      (\<lambda>ir. \<forall>f \<in> set fs. covers f ir)"
    by (rule sound_fold) (auto intro: add_fragment_sound covers_kept)
  from sound_stepD [OF this merge_start_good m(1)] m(2) that show thesis by blast
qed

section \<open>The lowered dependencies\<close>

definition authoring_kind :: "string \<Rightarrow> string" where
  "authoring_kind kind = (if kind = ''dependency'' then ''dep'' else kind)"

definition declares :: "dependency_declaration \<Rightarrow> string \<Rightarrow> dependency_contribution \<Rightarrow> bool" where
  "declares d kind c \<longleftrightarrow> (\<exists>n lo i order. d = concept_declaration n (authoring_kind kind) lo i order c)"

definition lowered :: "string \<Rightarrow> dependency_contribution \<Rightarrow> effective_dependency" where
  "lowered kind c = \<lparr>edKey = '''', edKind = kind, edSource = dependency_source c, edOptional = False, edPatch = None\<rparr>"

lemma declares_reads:
  assumes "declares d kind c"
  shows "effective_key d = dcName c"
    and "ddIdentity d = \<lparr>aiSource = (if dcSource c = '''' then ''npm'' else dcSource c), aiName = dcName c\<rparr>"
    and "EffectiveDependency d = lowered (authoring_kind kind) c"
    and "normalizeDeclaration j d = d"
proof -
  obtain n lo i order where d: "d = concept_declaration n (authoring_kind kind) lo i order c"
    using assms by (auto simp: declares_def)
  have i: "source_identity (dependency_source c) = \<lparr>aiSource = (if dcSource c = '''' then ''npm'' else dcSource c), aiName = dcName c\<rparr>"
    by (simp add: source_identity_def dependency_source_def first_given_def)
  have r: "asRange (dependency_source c) = dcRange c" by (simp add: dependency_source_def)
  have e: "EffectiveDependency d = lowered (authoring_kind kind) c"
    by (simp add: EffectiveDependency_def d concept_declaration_def lowered_def dependency_source_def)
  show "ddIdentity d = \<lparr>aiSource = (if dcSource c = '''' then ''npm'' else dcSource c), aiName = dcName c\<rparr>"
    by (simp add: d concept_declaration_def i)
  show "EffectiveDependency d = lowered (authoring_kind kind) c" by (rule e)
  show "effective_key d = dcName c" unfolding effective_key_def e by (simp add: EffectiveIdentity_def lowered_def i)
  show "normalizeDeclaration j d = d"
    by (simp add: d concept_declaration_def normalizeDeclaration_def conceptDeclarationID_def r)
qed

lemma same_dep_lowered: "same_dep a b \<Longrightarrow> lowered k a = lowered k b"
  by (simp add: same_dep_def lowered_def dependency_source_def)

text \<open>Each list of a fragment is appended as declarations of its kind.\<close>

lemma append_dependencies_fst:
  "fst (appendConceptDependencies st f cs kind lo) =
     fst st @ map (\<lambda>(i, c). concept_declaration (frName f) kind lo i (snd st + i) c) (enumerate 0 cs)"
  by (simp add: appendConceptDependencies_def split: prod.splits)

lemma declaresI: "declares (concept_declaration n (authoring_kind kind) lo i order c) kind c"
  by (auto simp: declares_def)

lemma append_dependencies_declares:
  "d \<in> set (fst (appendConceptDependencies st f cs (authoring_kind kind) lo)) \<Longrightarrow>
    d \<in> set (fst st) \<or> (\<exists>c \<in> set cs. declares d kind c)"
  "c \<in> set cs \<Longrightarrow> \<exists>d \<in> set (fst (appendConceptDependencies st f cs (authoring_kind kind) lo)). declares d kind c"
  "set (fst st) \<subseteq> set (fst (appendConceptDependencies st f cs k lo))"
proof -
  let ?new = "map (\<lambda>(i, c). concept_declaration (frName f) (authoring_kind kind) lo i (snd st + i) c) (enumerate 0 cs)"
  have new: "\<exists>c \<in> set cs. declares d kind c" if "d \<in> set ?new" for d
  proof -
    from that obtain i where i: "i < length cs"
      "d = concept_declaration (frName f) (authoring_kind kind) lo i (snd st + i) (cs ! i)"
      by (auto simp: in_set_enumerate_eq)
    then have "declares d kind (cs ! i)" by (simp add: declaresI)
    with i(1) show ?thesis by auto
  qed
  show "d \<in> set (fst (appendConceptDependencies st f cs (authoring_kind kind) lo)) \<Longrightarrow>
    d \<in> set (fst st) \<or> (\<exists>c \<in> set cs. declares d kind c)"
    using new [of d] unfolding append_dependencies_fst set_append by blast
  show "set (fst st) \<subseteq> set (fst (appendConceptDependencies st f cs k lo))" by (simp add: append_dependencies_fst)
  assume "c \<in> set cs"
  then obtain i where i: "i < length cs" "c = cs ! i" by (auto simp: in_set_conv_nth)
  let ?d = "concept_declaration (frName f) (authoring_kind kind) lo i (snd st + i) c"
  have "(i, c) \<in> set (enumerate 0 cs)" using i by (simp add: in_set_enumerate_eq)
  then have "?d \<in> set ?new" by (auto simp del: set_map simp: image_iff intro!: bexI [of _ "(i, c)"] set_map [THEN equalityD2, THEN subsetD])
  moreover have "declares ?d kind c" by (rule declaresI)
  ultimately show "\<exists>d \<in> set (fst (appendConceptDependencies st f cs (authoring_kind kind) lo)). declares d kind c"
    unfolding append_dependencies_fst set_append by blast
qed


lemma fragment_declarations_declares:
  "d \<in> set (fst (fragment_declarations n st (i, f))) \<Longrightarrow>
    d \<in> set (fst st) \<or> (\<exists>k \<in> set dep_kinds. \<exists>c \<in> set (contributed [f] k). declares d k c)"
  "k \<in> set dep_kinds \<Longrightarrow> c \<in> set (contributed [f] k) \<Longrightarrow>
    \<exists>d \<in> set (fst (fragment_declarations n st (i, f))). declares d k c"
  "set (fst st) \<subseteq> set (fst (fragment_declarations n st (i, f)))"
proof -
  define lo where "lo = int n - int i"
  define st1 where "st1 = appendConceptDependencies st f (mcDependencies (frManifest f)) ''dep'' lo"
  define st2 where "st2 = appendConceptDependencies st1 f (mcTools (frManifest f)) ''tool'' lo"
  define st3 where "st3 = appendConceptDependencies st2 f (mcPeers (frManifest f)) ''peer'' lo"
  have all: "fragment_declarations n st (i, f) = st3"
    by (simp add: fragment_declarations_def Let_def st3_def st2_def st1_def lo_def)
  have kinds: "authoring_kind ''dependency'' = ''dep''" "authoring_kind ''tool'' = ''tool''" "authoring_kind ''peer'' = ''peer''"
    by (simp_all add: authoring_kind_def)
  note fwd = append_dependencies_declares(1) [where kind = "''dependency''", unfolded kinds]
    append_dependencies_declares(1) [where kind = "''tool''", unfolded kinds]
    append_dependencies_declares(1) [where kind = "''peer''", unfolded kinds]
  note bwd = append_dependencies_declares(2) [where kind = "''dependency''", unfolded kinds]
    append_dependencies_declares(2) [where kind = "''tool''", unfolded kinds]
    append_dependencies_declares(2) [where kind = "''peer''", unfolded kinds]
  have sub: "set (fst st) \<subseteq> set (fst st1)" "set (fst st1) \<subseteq> set (fst st2)" "set (fst st2) \<subseteq> set (fst st3)"
    unfolding st1_def st2_def st3_def by (rule append_dependencies_declares(3))+
  show "set (fst st) \<subseteq> set (fst (fragment_declarations n st (i, f)))" unfolding all using sub by blast
  have c: "contributed [f] ''dependency'' = mcDependencies (frManifest f)" "contributed [f] ''tool'' = mcTools (frManifest f)"
    "contributed [f] ''peer'' = mcPeers (frManifest f)" by (simp_all add: contributed_def)
  show "d \<in> set (fst st) \<or> (\<exists>k \<in> set dep_kinds. \<exists>c \<in> set (contributed [f] k). declares d k c)"
    if "d \<in> set (fst (fragment_declarations n st (i, f)))"
    using that unfolding all st3_def
    by (auto simp: dep_kinds_def c dest!: fwd(3) fwd(2) [folded st2_def, unfolded st2_def] fwd(1) [folded st1_def, unfolded st1_def]
        simp: st2_def st1_def)
  show "\<exists>d \<in> set (fst (fragment_declarations n st (i, f))). declares d k c"
    if "k \<in> set dep_kinds" "c \<in> set (contributed [f] k)"
  proof -
    from that(1) consider "k = ''dependency''" | "k = ''tool''" | "k = ''peer''" by (auto simp: dep_kinds_def)
    then show ?thesis
    proof cases
      case 1
      with that(2) have "c \<in> set (mcDependencies (frManifest f))" by (simp add: c)
      from bwd(1) [OF this, of st f lo] 1 sub show ?thesis unfolding all st1_def [symmetric] by blast
    next
      case 2
      with that(2) have "c \<in> set (mcTools (frManifest f))" by (simp add: c)
      from bwd(2) [OF this, of st1 f lo] 2 sub show ?thesis unfolding all st2_def [symmetric] by blast
    next
      case 3
      with that(2) have "c \<in> set (mcPeers (frManifest f))" by (simp add: c)
      from bwd(3) [OF this, of st2 f lo] 3 show ?thesis unfolding all st3_def [symmetric] by blast
    qed
  qed
qed


lemma contributed_Cons: "contributed (f # fs) k = contributed [f] k @ contributed fs k"
  by (simp add: contributed_def)

lemma fold_declarations:
  "d \<in> set (fst (foldl (fragment_declarations n) st (enumerate j fs))) \<Longrightarrow>
    d \<in> set (fst st) \<or> (\<exists>k \<in> set dep_kinds. \<exists>c \<in> set (contributed fs k). declares d k c)"
  "set (fst st) \<subseteq> set (fst (foldl (fragment_declarations n) st (enumerate j fs)))"
  "k \<in> set dep_kinds \<Longrightarrow> c \<in> set (contributed fs k) \<Longrightarrow>
    \<exists>d \<in> set (fst (foldl (fragment_declarations n) st (enumerate j fs))). declares d k c"
proof (induction fs arbitrary: st j)
  case (Cons f fs)
  { case (1 st j)
    then have "d \<in> set (fst (foldl (fragment_declarations n) (fragment_declarations n st (j, f)) (enumerate (Suc j) fs)))"
      by simp
    from Cons.IH(1) [OF this] fragment_declarations_declares(1) [of d n st j f] show ?case
      unfolding contributed_Cons [of f fs] set_append by blast }
  { case (2 st j)
    from fragment_declarations_declares(3) [of st n j f] Cons.IH(2) [of "fragment_declarations n st (j, f)" "Suc j"]
    show ?case by auto }
  { case (3 st j)
    then consider "c \<in> set (contributed [f] k)" | "c \<in> set (contributed fs k)"
      unfolding contributed_Cons [of f fs] set_append by blast
    then show ?case
    proof cases
      case 1
      from fragment_declarations_declares(2) [OF 3(1) this, of n st j]
        Cons.IH(2) [of "fragment_declarations n st (j, f)" "Suc j"] show ?thesis by auto
    next
      case 2
      from Cons.IH(3) [OF 3(1) this, of "fragment_declarations n st (j, f)" "Suc j"] show ?thesis by simp
    qed }
qed (simp_all add: contributed_def)

lemma DependencyDeclarations_declares:
  "d \<in> set (DependencyDeclarations fs) \<Longrightarrow> \<exists>k \<in> set dep_kinds. \<exists>c \<in> set (contributed fs k). declares d k c"
  "k \<in> set dep_kinds \<Longrightarrow> c \<in> set (contributed fs k) \<Longrightarrow> \<exists>d \<in> set (DependencyDeclarations fs). declares d k c"
  unfolding DependencyDeclarations_def
  using fold_declarations(1) [where st = "([], 0)"] fold_declarations(3) [where st = "([], 0)"] by fastforce+

lemma DependencyDeclarations_normal: "normalized_declarations (DependencyDeclarations fs) = DependencyDeclarations fs"
proof -
  have "normalizeDeclaration i d = d" if "d \<in> set (DependencyDeclarations fs)" for i d
    using DependencyDeclarations_declares(1) [OF that] declares_reads(4) by blast
  then show ?thesis
    unfolding normalized_declarations_def by (intro nth_equalityI) (simp_all add: nth_enumerate_eq)
qed

section \<open>The merged result\<close>

lemma covered_dep:
  assumes "\<forall>f \<in> set fs. covers f ir" "k \<in> set dep_kinds" "c \<in> set (contributed fs k)"
  shows "\<exists>e \<in> set (deps_of k ir). same_dep e c"
proof -
  from assms(3) obtain f where f: "f \<in> set fs" "c \<in> set (contributed [f] k)" by (auto simp: contributed_def split: if_splits)
  with assms(1) have "covers f ir" by blast
  with f(2) assms(2) show ?thesis by (auto simp: covers_def contributed_def dep_kinds_def)
qed

lemma good_deps:
  "good given ds m \<Longrightarrow> k \<in> set dep_kinds \<Longrightarrow> e \<in> set (deps_of k (msIR m)) \<Longrightarrow>
    owned m k (dcName e) \<and> (\<exists>c \<in> set (given k). same_dep e c)"
  by (simp add: good_def deps_ok_def)

lemma merged_names_agree:
  assumes "good given ds m" "k \<in> set dep_kinds" "l \<in> set dep_kinds"
    and "e \<in> set (deps_of k (msIR m))" "e' \<in> set (deps_of l (msIR m))" "dcName e = dcName e'"
  shows "k = l \<and> e = e'"
proof -
  have "owned m k (dcName e)" "owned m l (dcName e')" using assms(1-5) by (auto simp: good_def deps_ok_def)
  then have "owned m k (dcName e)" "owned m l (dcName e)" using assms(6) by simp_all
  then have "k = l" using assms(1-3) unfolding good_def deps_ok_def by blast
  moreover have "distinct (map dcName (deps_of k (msIR m)))" using assms(1,2) by (auto simp: good_def deps_ok_def)
  ultimately show ?thesis using assms(4-6) by (auto simp: distinct_map dest: inj_onD)
qed

definition merged_dependencies :: "merged_concepts \<Rightarrow> effective_dependency list" where
  "merged_dependencies ir =
     map (lowered ''dep'') (mcDependencies (mgManifest ir)) @ map (lowered ''tool'') (mcTools (mgManifest ir)) @
     map (lowered ''peer'') (mcPeers (mgManifest ir))"

lemma merged_dependencies_set:
  "x \<in> set (merged_dependencies ir) \<longleftrightarrow>
    (\<exists>k \<in> set dep_kinds. \<exists>e \<in> set (deps_of k ir). x = lowered (authoring_kind k) e)"
  by (auto simp: merged_dependencies_def dep_kinds_def deps_of_def authoring_kind_def)

text \<open>Slots of sources without a colon are told apart by source and name.\<close>

lemma slot_of_name:
  assumes "CHR '':'' \<notin> set s" "CHR '':'' \<notin> set s'" and "s @ '':'' @ n @ ''|'' @ n = s' @ '':'' @ n' @ ''|'' @ n'"
  shows "n = n'"
proof -
  have "split_on (CHR '':'') (s @ CHR '':'' # n @ ''|'' @ n) = split_on (CHR '':'') (s' @ CHR '':'' # n' @ ''|'' @ n')"
    using assms(3) by simp
  then have "s = s'" using assms(1,2) by (simp add: split_on_append)
  with assms(3) have eq: "n @ ''|'' @ n = n' @ ''|'' @ n'" by simp
  then have "length n = length n'" by (auto dest: arg_cong [where f = length])
  with eq show ?thesis by simp
qed

lemma slot_text:
  "effective_key d = n \<Longrightarrow> ddIdentity d = \<lparr>aiSource = src, aiName = n\<rparr> \<Longrightarrow>
    declarationSlotKey d = src @ '':'' @ n @ ''|'' @ n"
  by (simp add: declarationSlotKey_def author_key_def)

lemma merge_authoring:
  assumes "Merge fs = Inr ir"
  shows "\<not> HasFatalConflicts (Build_authoring (mgAuthoring ir))"
    and "(\<And>k c. k \<in> set dep_kinds \<Longrightarrow> c \<in> set (contributed fs k) \<Longrightarrow> CHR '':'' \<notin> set (dcSource c)) \<Longrightarrow>
      set (trEffective (Build_authoring (mgAuthoring ir))) = set (merged_dependencies ir)"
proof -
  let ?ds = "DependencyDeclarations fs"
  obtain m where m: "good (contributed fs) ?ds m" "msIR m = ir" "\<forall>f \<in> set fs. covers f ir"
    by (rule Merge_good [OF assms])
  have ds: "mgAuthoring ir = ?ds" using m(1,2) by (simp add: good_def)
  have read: "\<exists>k \<in> set dep_kinds. \<exists>e \<in> set (deps_of k ir). effective_key d = dcName e \<and>
      ddIdentity d = \<lparr>aiSource = (if dcSource e = '''' then ''npm'' else dcSource e), aiName = dcName e\<rparr> \<and>
      EffectiveDependency d = lowered (authoring_kind k) e"
    if d: "d \<in> set ?ds" for d
  proof -
    from DependencyDeclarations_declares(1) [OF d] obtain k c where k: "k \<in> set dep_kinds" "c \<in> set (contributed fs k)" "declares d k c"
      by blast
    from covered_dep [OF m(3) k(1,2)] obtain e where e: "e \<in> set (deps_of k ir)" "same_dep e c" by blast
    with declares_reads(1-3) [OF k(3)] same_dep_lowered [OF e(2)] k(1) show ?thesis
      by (intro bexI [OF _ k(1)] bexI [OF _ e(1)]) (simp add: same_dep_def)
  qed
  have same: "same_key_same_identity ?ds"
    unfolding same_key_same_identity_def
  proof (intro ballI impI)
    fix a b
    assume a: "a \<in> set ?ds" and b: "b \<in> set ?ds" and key: "effective_key a = effective_key b"
    with read [OF a] read [OF b] merged_names_agree [OF m(1), unfolded m(2)] show "ddIdentity a = ddIdentity b" by metis
  qed
  show "\<not> HasFatalConflicts (Build_authoring (mgAuthoring ir))"
    unfolding ds fatal_conflicts_exact DependencyDeclarations_normal using same by simp
  have sub: "EffectiveDependency d \<in> set (merged_dependencies ir)" if "d \<in> set ?ds" for d
    using read [OF that] unfolding merged_dependencies_set by blast
  have ordered: "set (ordered_declarations ?ds) = set ?ds"
    by (simp add: ordered_declarations_set DependencyDeclarations_normal)
  show "set (trEffective (Build_authoring (mgAuthoring ir))) = set (merged_dependencies ir)"
    if plain: "\<And>k c. k \<in> set dep_kinds \<Longrightarrow> c \<in> set (contributed fs k) \<Longrightarrow> CHR '':'' \<notin> set (dcSource c)"
  proof -
    have colon: "CHR '':'' \<notin> set (if dcSource e = '''' then ''npm'' else dcSource e)"
      if "k \<in> set dep_kinds" "e \<in> set (deps_of k ir)" for k e
    proof -
      have "\<exists>c \<in> set (contributed fs k). same_dep e c" using good_deps [OF m(1) that(1), of e] that(2) m(2) by simp
      then obtain c where "c \<in> set (contributed fs k)" "same_dep e c" by blast
      with plain [OF that(1)] show ?thesis by (simp add: same_dep_def)
    qed
    have present: "x \<in> EffectiveDependency ` set (survivors declarationSlotKey (ordered_declarations ?ds))"
      if "x \<in> set (merged_dependencies ir)" for x
    proof -
      from that obtain k e where k: "k \<in> set dep_kinds" "e \<in> set (deps_of k ir)" "x = lowered (authoring_kind k) e"
        unfolding merged_dependencies_set by blast
      then obtain c where c: "c \<in> set (contributed fs k)" "same_dep e c"
        using good_deps [OF m(1) k(1), of e] m(2) by auto
      from DependencyDeclarations_declares(2) [OF k(1) c(1)] obtain d where d: "d \<in> set ?ds" "declares d k c" by blast
      have "declarationSlotKey d \<in> declarationSlotKey ` set (survivors declarationSlotKey (ordered_declarations ?ds))"
        unfolding survivors_slots using d(1) ordered by blast
      then obtain s where s: "s \<in> set (survivors declarationSlotKey (ordered_declarations ?ds))"
          "declarationSlotKey s = declarationSlotKey d" 
        by (rule imageE) (rule that, assumption, rule sym)
      have "s \<in> set ?ds"
        using s(1) survivors_subset [of declarationSlotKey "ordered_declarations ?ds"] ordered by blast
      from read [OF this] obtain k2 e2 where e2: "k2 \<in> set dep_kinds" "e2 \<in> set (deps_of k2 ir)" "effective_key s = dcName e2"
          "ddIdentity s = \<lparr>aiSource = (if dcSource e2 = '''' then ''npm'' else dcSource e2), aiName = dcName e2\<rparr>"
          "EffectiveDependency s = lowered (authoring_kind k2) e2" by blast
      have src: "dcName c = dcName e" "dcSource c = dcSource e" using c(2) by (simp_all add: same_dep_def)
      have "dcName e2 = dcName e"
        by (rule slot_of_name [OF colon [OF e2(1,2)] colon [OF k(1,2)]])
          (simp only: slot_text [OF e2(3,4), symmetric] s(2)
            slot_text [OF declares_reads(1,2) [OF d(2)], unfolded src, symmetric])
      with merged_names_agree [OF m(1), unfolded m(2), OF e2(1) k(1) e2(2) k(2)] have "EffectiveDependency s = x"
        using e2(5) k(3) by simp
      with s(1) show ?thesis by blast
    qed
    have "EffectiveDependency ` set (survivors declarationSlotKey (ordered_declarations ?ds)) \<subseteq> set (merged_dependencies ir)"
      using sub survivors_subset [of declarationSlotKey "ordered_declarations ?ds"] ordered by blast
    with present show ?thesis unfolding ds Build_authoring_effective by auto
  qed
qed


section \<open>Resolution\<close>

lemma look_up_all_Inr:
  "look_up_all registry listed fs ns = Inr (listed', fs') \<Longrightarrow> map registry listed = map Some fs \<Longrightarrow>
    map registry listed' = map Some fs' \<and> set listed' = set listed \<union> set ns"
proof (induction registry listed fs ns rule: look_up_all.induct)
  case (2 registry listed fs n ns)
  then show ?case by (auto split: option.splits if_splits)
qed simp

text \<open>What holds of a fragment among the listed concepts.\<close>

definition admissible :: "string list \<Rightarrow> string \<Rightarrow> concept_fragment \<Rightarrow> bool" where
  "admissible listed kind f \<longleftrightarrow>
     (frCompatibleKinds f = [] \<or> kind = '''' \<or> kind \<in> set (frCompatibleKinds f)) \<and>
     set (frRequires f) \<subseteq> set listed \<and>
     (\<forall>g \<in> set (frRequiresAnyOf f). set g \<inter> set listed \<noteq> {}) \<and>
     set (frConflicts f) \<inter> set listed = {}"

lemma fragment_error_None: "fragment_error listed kind f = None \<longleftrightarrow> admissible listed kind f"
proof -
  have "fragment_error listed kind f = None \<longleftrightarrow>
      (frCompatibleKinds f = [] \<or> kind = '''' \<or> kind \<in> set (frCompatibleKinds f)) \<and>
      find (\<lambda>e. e \<notin> set listed) (frRequires f) = None \<and>
      find (\<lambda>g. \<not> list_ex (\<lambda>n. n \<in> set listed) g) (frRequiresAnyOf f) = None \<and>
      find (\<lambda>n. n \<in> set listed) (frConflicts f) = None"
    by (simp add: fragment_error_def split: option.split)
  also have "\<dots> \<longleftrightarrow> admissible listed kind f"
    by (auto simp: admissible_def find_None_iff list_ex_iff)
  finally show ?thesis .
qed

lemma ResolveWithRegistry_Inr:
  assumes "ResolveWithRegistry registry requested kind = Inr fs"
  shows "n \<in> set requested \<Longrightarrow> \<exists>f \<in> set fs. registry n = Some f \<and> admissible requested kind f"
proof -
  from assms obtain listed where l: "look_up_all registry [] [] requested = Inr (listed, fs)"
      "List.map_filter (fragment_error listed kind) fs = []"
    by (auto simp: ResolveWithRegistry_def split: sum.splits list.splits)
  from look_up_all_Inr [OF l(1)] have m: "map registry listed = map Some fs" "set listed = set requested" by simp_all
  have none: "\<forall>f \<in> set fs. fragment_error listed kind f = None"
    using l(2) by (auto simp: List.map_filter_def filter_empty_conv)
  have same: "admissible listed kind f = admissible requested kind f" for f
    by (simp add: admissible_def m(2))
  show "n \<in> set requested \<Longrightarrow> \<exists>f \<in> set fs. registry n = Some f \<and> admissible requested kind f"
  proof -
    assume "n \<in> set requested"
    then have "registry n \<in> set (map registry listed)" using m(2) by simp
    then have "registry n \<in> Some ` set fs" unfolding m(1) by simp
    then show ?thesis using none fragment_error_None same by blast
  qed
qed

definition merged_keys_distinct :: "merged_concepts \<Rightarrow> bool" where
  "merged_keys_distinct ir \<longleftrightarrow> unique_ok ir \<and>
     distinct (map dcName (mcDependencies (mgManifest ir) @ mcTools (mgManifest ir) @ mcPeers (mgManifest ir)))"

lemma good_keys_distinct:
  assumes "good given ds m"
  shows "merged_keys_distinct (msIR m)"
proof -
  let ?n = "\<lambda>k. dcName ` set (deps_of k (msIR m))"
  have d: "distinct (map dcName (deps_of k (msIR m)))" if "k \<in> set dep_kinds" for k
    using assms that by (simp add: good_def deps_ok_def)
  have dis: "?n k \<inter> ?n l = {}" if "k \<in> set dep_kinds" "l \<in> set dep_kinds" "k \<noteq> l" for k l
    using merged_names_agree [OF assms that(1,2)] that(3) by blast
  have k: "''dependency'' \<in> set dep_kinds" "''tool'' \<in> set dep_kinds" "''peer'' \<in> set dep_kinds"
    by (simp_all add: dep_kinds_def)
  show ?thesis
    using d [OF k(1)] d [OF k(2)] d [OF k(3)] dis [OF k(1,2)] dis [OF k(1,3)] dis [OF k(2,3)] assms
    by (auto simp: merged_keys_distinct_def deps_of_def good_def)
qed

lemma BuildConceptIR_Inr:
  assumes "BuildConceptIR registry requested kind = Inr ir"
  shows "merged_keys_distinct ir"
    and "n \<in> set requested \<Longrightarrow> \<exists>f. registry n = Some f \<and> admissible requested kind f \<and> covers f ir"
proof -
  from assms obtain fs where fs: "ResolveWithRegistry registry requested kind = Inr fs" "Merge fs = Inr ir"
    by (auto simp: BuildConceptIR_def split: sum.splits)
  obtain m where m: "good (contributed fs) (DependencyDeclarations fs) m" "msIR m = ir" "\<forall>f \<in> set fs. covers f ir"
    by (rule Merge_good [OF fs(2)])
  show "merged_keys_distinct ir" using good_keys_distinct [OF m(1)] m(2) by simp
  show "n \<in> set requested \<Longrightarrow> \<exists>f. registry n = Some f \<and> admissible requested kind f \<and> covers f ir"
    using ResolveWithRegistry_Inr [OF fs(1)] m(3) by blast
qed

end
