(* ===== verification/Lockfile.thy ===== *)
theory Lockfile
  imports Package_Identity Path_Util Flow_IR
begin

text \<open>
  \<open>internal/lockfile/lockfile.go\<close>: the records of the lock file, its normal form, its checks and the
  difference of two lock files.  Reading and writing the TOML text is left to its library.  A Go map
  that is built from a list is the list of the last elements of each key, \<open>survivors\<close>.
\<close>

section \<open>Data\<close>

record lock_header =
  lhFormat :: int
  lhTool :: string
  lhGeneratedBy :: string

record lock_patch =
  lpaPath :: string
  lpaSHA256 :: string
  lpaAlgorithm :: string

record lock_capability =
  lcKind :: string
  lcScript :: string
  lcCommand :: string
  lcDetail :: string

record lock_package =
  lpID :: string
  lpName :: string
  lpVersion :: string
  lpSource :: string
  lpIntegrity :: string
  lpRepo :: string
  lpRev :: string
  lpTreeHash :: string
  lpPath :: string
  lpWorkspace :: string
  lpHash :: string
  lpSourceID :: string
  lpSourceHash :: string
  lpRealizationID :: string
  lpRegistryEndpoint :: string
  lpMetadataEndpoint :: string
  lpArtifactHost :: string
  lpCapabilities :: "lock_capability list"
  lpPatch :: "lock_patch option"

record lock_edge =
  leFrom :: string
  leTo :: string
  leKind :: string
  leOptional :: bool
  leReference :: string

record lock_requirement =
  lrID :: string
  lrScope :: string
  lrTargetSource :: string
  lrTargetName :: string
  lrReference :: string
  lrConstraint :: string
  lrKind :: string
  lrRequiringPackage :: string
  lrPackageID :: string
  lrDependencyKey :: string
  lrOriginSource :: string
  lrOrder :: int
  lrOptional :: bool
  lrControlling :: bool
  lrShadowedBy :: string
  lrStatus :: string
  lrSelectedVersion :: string

record lock_target =
  ltPackage :: string
  ltName :: string
  ltExport :: string
  ltEntry :: string
  ltRuntime :: string
  ltTypes :: string

record lock_peer =
  lbReference :: string
  lbSource :: string
  lbName :: string
  lbRealizationID :: string
  lbInstanceID :: string
  lbState :: string
  lbOptional :: bool

record instance_dependency =
  idReference :: string
  idKind :: string
  idInstanceID :: string

record lock_instance =
  liID :: string
  liPackageID :: string
  liPeerContextID :: string
  liPeers :: "lock_peer list"
  liDependencies :: "instance_dependency list"

record root_instance =
  riFrom :: string
  riReference :: string
  riKind :: string
  riInstanceID :: string

record lockfile =
  lfLock :: lock_header
  lfPackages :: "lock_package list"
  lfInstances :: "lock_instance list"
  lfRootInstances :: "root_instance list"
  lfEdges :: "lock_edge list"
  lfRequirements :: "lock_requirement list"
  lfTargets :: "lock_target list"

section \<open>The normal form\<close>

definition bool_str :: "bool \<Rightarrow> string" where
  "bool_str b = (if b then ''1'' else ''0'')"

definition lock_peer_key :: "lock_peer \<Rightarrow> string" where
  "lock_peer_key b = lbReference b @ nul @ lbSource b @ nul @ lbName b @ nul @ lbState b @ nul @ lbRealizationID b @
     nul @ lbInstanceID b @ nul @ bool_str (lbOptional b)"

definition dependency_key :: "instance_dependency \<Rightarrow> string" where
  "dependency_key d = idReference d @ nul @ idKind d @ nul @ idInstanceID d"

definition root_key :: "root_instance \<Rightarrow> string" where
  "root_key r = riFrom r @ nul @ riReference r @ nul @ riKind r @ nul @ riInstanceID r"

definition normalize_capability :: "lock_capability \<Rightarrow> lock_capability" where
  "normalize_capability c =
     c\<lparr>lcScript := (if lcScript c = '''' \<and> lcDetail c \<noteq> '''' then lcDetail c else lcScript c),
       lcKind := (if lcKind c = ''lifecycle-script'' then ''lifecycleScript'' else lcKind c),
       lcDetail := ''''\<rparr>"

definition normalize_package :: "lock_package \<Rightarrow> lock_package" where
  "normalize_package p =
     p\<lparr>lpCapabilities := sort_key (\<lambda>c. (lcKind c, lcScript c, lcCommand c)) (map normalize_capability (lpCapabilities p))\<rparr>"

definition normalize_instance :: "lock_instance \<Rightarrow> lock_instance" where
  "normalize_instance i =
     i\<lparr>liPeers := sort_key lock_peer_key (liPeers i), liDependencies := sort_key dependency_key (liDependencies i)\<rparr>"

definition normalize_lock :: "lockfile \<Rightarrow> lockfile" where
  "normalize_lock lf =
     lf\<lparr>lfPackages := sort_key lpID (map normalize_package (lfPackages lf)),
        lfInstances := sort_key liID (map normalize_instance (lfInstances lf)),
        lfRootInstances := sort_key root_key (lfRootInstances lf),
        lfEdges := sort_key (\<lambda>e. (leFrom e, leTo e, leKind e, leReference e, leOptional e)) (lfEdges lf),
        lfRequirements := sort_key (\<lambda>r. (lrScope r, lrTargetSource r, lrTargetName r, lrOrder r, lrID r)) (lfRequirements lf),
        lfTargets := sort_key (\<lambda>t. (ltPackage t, ltName t)) (lfTargets lf)\<rparr>"

definition empty_lock :: lockfile where
  "empty_lock =
     \<lparr>lfLock = \<lparr>lhFormat = 1, lhTool = ''tspack'', lhGeneratedBy = ''''\<rparr>, lfPackages = [], lfInstances = [],
      lfRootInstances = [], lfEdges = [], lfRequirements = [], lfTargets = []\<rparr>"

definition normalize_given :: "lockfile option \<Rightarrow> lockfile" where
  "normalize_given lf = (case lf of None \<Rightarrow> empty_lock | Some l \<Rightarrow> normalize_lock l)"

section \<open>Differences\<close>

text \<open>The three results for one kind of entry, by key.\<close>

definition entries_added :: "('a \<Rightarrow> string) \<Rightarrow> 'a list \<Rightarrow> 'a list \<Rightarrow> 'a list" where
  "entries_added key old new = sort_key key (filter (\<lambda>x. key x \<notin> key ` set old) (survivors key new))"

definition entry_before :: "('a \<Rightarrow> string) \<Rightarrow> 'a list \<Rightarrow> 'a \<Rightarrow> 'a option" where
  "entry_before key old x = find (\<lambda>y. key y = key x) (survivors key old)"

definition entries_changed :: "('a \<Rightarrow> string) \<Rightarrow> 'a list \<Rightarrow> 'a list \<Rightarrow> ('a \<times> 'a) list" where
  "entries_changed key old new =
     sort_key (\<lambda>p. key (fst p))
       (List.map_filter (\<lambda>x. case entry_before key old x of None \<Rightarrow> None | Some y \<Rightarrow> if y \<noteq> x then Some (y, x) else None)
         (survivors key new))"

definition edge_key :: "lock_edge \<Rightarrow> string" where
  "edge_key e = leFrom e @ ''|'' @ leTo e @ ''|'' @ leKind e @ ''|'' @ bool_str (leOptional e) @ ''|'' @ leReference e"

definition target_key :: "lock_target \<Rightarrow> string" where
  "target_key t = ltPackage t @ ''::'' @ ltName t"

record lock_diff =
  dfPackagesAdded :: "lock_package list"
  dfPackagesRemoved :: "lock_package list"
  dfPackagesChanged :: "(lock_package \<times> lock_package) list"
  dfInstancesAdded :: "lock_instance list"
  dfInstancesRemoved :: "lock_instance list"
  dfInstancesChanged :: "(lock_instance \<times> lock_instance) list"
  dfRequirementsAdded :: "lock_requirement list"
  dfRequirementsRemoved :: "lock_requirement list"
  dfRequirementsChanged :: "(lock_requirement \<times> lock_requirement) list"
  dfEdgesAdded :: "lock_edge list"
  dfEdgesRemoved :: "lock_edge list"
  dfTargetsAdded :: "lock_target list"
  dfTargetsRemoved :: "lock_target list"
  dfTargetsChanged :: "(lock_target \<times> lock_target) list"

definition DiffLockfiles :: "lockfile option \<Rightarrow> lockfile option \<Rightarrow> lock_diff" where
  "DiffLockfiles old new =
     (let a = normalize_given old; b = normalize_given new in
      \<lparr>dfPackagesAdded = entries_added lpID (lfPackages a) (lfPackages b),
       dfPackagesRemoved = entries_added lpID (lfPackages b) (lfPackages a),
       dfPackagesChanged = entries_changed lpID (lfPackages a) (lfPackages b),
       dfInstancesAdded = entries_added liID (lfInstances a) (lfInstances b),
       dfInstancesRemoved = entries_added liID (lfInstances b) (lfInstances a),
       dfInstancesChanged = entries_changed liID (lfInstances a) (lfInstances b),
       dfRequirementsAdded = entries_added lrID (lfRequirements a) (lfRequirements b),
       dfRequirementsRemoved = entries_added lrID (lfRequirements b) (lfRequirements a),
       dfRequirementsChanged = entries_changed lrID (lfRequirements a) (lfRequirements b),
       dfEdgesAdded = entries_added edge_key (lfEdges a) (lfEdges b),
       dfEdgesRemoved = entries_added edge_key (lfEdges b) (lfEdges a),
       dfTargetsAdded = entries_added target_key (lfTargets a) (lfTargets b),
       dfTargetsRemoved = entries_added target_key (lfTargets b) (lfTargets a),
       dfTargetsChanged = entries_changed target_key (lfTargets a) (lfTargets b)\<rparr>)"

end
