(* ===== verification/Lockfile_Props.thy ===== *)
theory Lockfile_Props
  imports Lockfile
begin

text \<open>
  What the normal form and the difference of lock files promise: normalising again changes nothing,
  and the difference is complete, since it turns the entries of the old file into those of the new.
\<close>

section \<open>The normal form\<close>

lemma sort_key_map_same: "(\<And>x. x \<in> set xs \<Longrightarrow> k (f x) = k x) \<Longrightarrow> map f (sort_key k xs) = sort_key k (map f xs)"
proof (induction xs)
  case (Cons x xs)
  have ins: "map f (insort_key k x ys) = insort_key k (f x) (map f ys)" if "\<And>y. y \<in> set (x # ys) \<Longrightarrow> k (f y) = k y" for ys
    using that by (induction ys) auto
  show ?case using Cons ins [of "sort_key k xs"] by simp
qed simp

lemma sort_key_twice [simp]: "sort_key k (sort_key k xs) = sort_key k xs"
  by (rule sort_key_id_if_sorted) simp

lemma normalize_capability_twice [simp]: "normalize_capability (normalize_capability c) = normalize_capability c"
  by (simp add: normalize_capability_def)

lemma normalize_package_twice [simp]: "normalize_package (normalize_package p) = normalize_package p"
proof -
  let ?k = "\<lambda>c. (lcKind c, lcScript c, lcCommand c)"
  let ?cs = "sort_key ?k (map normalize_capability (lpCapabilities p))"
  have "map normalize_capability ?cs = map (\<lambda>c. c) ?cs" by (rule map_cong) auto
  then have "sort_key ?k (map normalize_capability ?cs) = ?cs" by simp
  then show ?thesis by (simp add: normalize_package_def)
qed

lemma normalize_instance_twice [simp]: "normalize_instance (normalize_instance i) = normalize_instance i"
  by (simp add: normalize_instance_def)

lemma normalize_reads [simp]: "lpID (normalize_package p) = lpID p" "liID (normalize_instance i) = liID i"
  by (simp_all add: normalize_package_def normalize_instance_def)

lemma sort_map_twice:
  assumes "\<And>x. f (f x) = f x"
  shows "sort_key k (map f (sort_key k (map f xs))) = sort_key k (map f xs)"
proof -
  have "map f (sort_key k (map f xs)) = map (\<lambda>x. x) (sort_key k (map f xs))"
    by (rule map_cong) (auto simp: assms)
  then show ?thesis by simp
qed

lemma normalize_lock_twice: "normalize_lock (normalize_lock lf) = normalize_lock lf"
  by (simp add: normalize_lock_def sort_map_twice)

section \<open>Differences\<close>

text \<open>The entries of a list as the map that Go builds from it.\<close>

definition entry_map :: "('a \<Rightarrow> string) \<Rightarrow> 'a list \<Rightarrow> string \<rightharpoonup> 'a" where
  "entry_map key xs = (\<lambda>k. find (\<lambda>x. key x = k) (survivors key xs))"

text \<open>Carrying out a difference on such a map.\<close>

definition patched ::
  "('a \<Rightarrow> string) \<Rightarrow> 'a list \<Rightarrow> 'a list \<Rightarrow> ('a \<times> 'a) list \<Rightarrow> (string \<rightharpoonup> 'a) \<Rightarrow> (string \<rightharpoonup> 'a)" where
  "patched key added removed changed m =
     (\<lambda>k. if k \<in> key ` set removed then None
          else (case find (\<lambda>x. key x = k) (added @ map snd changed) of Some x \<Rightarrow> Some x | None \<Rightarrow> m k))"

lemma entry_map_Some:
  "entry_map key xs k = Some x \<longleftrightarrow> x \<in> set (survivors key xs) \<and> key x = k"
proof
  show "entry_map key xs k = Some x \<Longrightarrow> x \<in> set (survivors key xs) \<and> key x = k"
    by (auto simp: entry_map_def dest: find_SomeD)
  assume x: "x \<in> set (survivors key xs) \<and> key x = k"
  then obtain y where y: "entry_map key xs k = Some y" by (cases "entry_map key xs k") (auto simp: entry_map_def find_None_iff)
  then have "y \<in> set (survivors key xs)" "key y = k" by (auto simp: entry_map_def dest: find_SomeD)
  with x survivors_distinct [of key xs] have "x = y" by (auto simp: distinct_map dest: inj_onD)
  with y show "entry_map key xs k = Some x" by simp
qed

lemma entry_map_None: "entry_map key xs k = None \<longleftrightarrow> k \<notin> key ` set xs"
proof -
  have "entry_map key xs k = None \<longleftrightarrow> k \<notin> key ` set (survivors key xs)"
    by (auto simp: entry_map_def find_None_iff)
  then show ?thesis by (simp add: survivors_slots)
qed

lemma entry_before_map: "entry_before key old x = entry_map key old (key x)"
  by (simp add: entry_before_def entry_map_def)

lemma entries_added_set:
  "x \<in> set (entries_added key old new) \<longleftrightarrow> entry_map key new (key x) = Some x \<and> entry_map key old (key x) = None"
  by (auto simp: entries_added_def entry_map_Some entry_map_None)

lemma entries_changed_set:
  "(y, x) \<in> set (entries_changed key old new) \<longleftrightarrow>
    entry_map key new (key x) = Some x \<and> entry_map key old (key x) = Some y \<and> y \<noteq> x"
proof -
  let ?f = "\<lambda>x. case entry_before key old x of None \<Rightarrow> None | Some y \<Rightarrow> if y \<noteq> x then Some (y, x) else None"
  have set_filter: "set (List.map_filter f xs) = {y. \<exists>x \<in> set xs. f x = Some y}" for f :: "'a \<Rightarrow> ('a \<times> 'a) option" and xs
    by (induction xs) (auto simp: List.map_filter_simps split: option.splits)
  have "(y, x) \<in> set (entries_changed key old new) \<longleftrightarrow> (\<exists>z \<in> set (survivors key new). ?f z = Some (y, x))"
    by (simp add: entries_changed_def set_filter)
  also have "\<dots> \<longleftrightarrow> x \<in> set (survivors key new) \<and> entry_map key old (key x) = Some y \<and> y \<noteq> x"
    by (auto simp: entry_before_map split: option.splits if_splits)
  finally show ?thesis by (simp add: entry_map_Some)
qed

lemma find_unique:
  assumes "x \<in> set xs" "p x" "\<And>y. y \<in> set xs \<Longrightarrow> p y \<Longrightarrow> y = x"
  shows "find p xs = Some x"
proof (cases "find p xs")
  case None
  with assms(1,2) show ?thesis by (simp add: find_None_iff)
next
  case (Some y)
  with assms(3) [of y] find_SomeD [OF Some] show ?thesis by simp
qed

lemma diff_patches:
  "patched key (entries_added key old new) (entries_added key new old) (entries_changed key old new) (entry_map key old)
    = entry_map key new"
proof (rule ext)
  fix k
  let ?a = "entries_added key old new" and ?r = "entries_added key new old" and ?c = "entries_changed key old new"
  have changed: "x \<in> set (map snd ?c) \<longleftrightarrow> entry_map key new (key x) = Some x \<and> entry_map key old (key x) \<notin> {None, Some x}" for x
  proof -
    have "x \<in> set (map snd ?c) \<longleftrightarrow> (\<exists>y. (y, x) \<in> set ?c)" by force
    then show ?thesis by (auto simp: entries_changed_set)
  qed
  have mem: "x \<in> set (?a @ map snd ?c) \<longleftrightarrow> entry_map key new (key x) = Some x \<and> entry_map key old (key x) \<noteq> Some x" for x
    unfolding set_append Un_iff changed entries_added_set by auto
  have removed: "k \<in> key ` set ?r \<longleftrightarrow> entry_map key new k = None \<and> entry_map key old k \<noteq> None"
  proof -
    have "k \<in> key ` set ?r \<longleftrightarrow> (\<exists>x. key x = k \<and> entry_map key old k = Some x \<and> entry_map key new k = None)"
      by (auto simp: entries_added_set image_iff)
    then show ?thesis by (auto simp: entry_map_Some) 
  qed
  show "patched key ?a ?r ?c (entry_map key old) k = entry_map key new k"
  proof (cases "entry_map key new k")
    case None
    have "find (\<lambda>x. key x = k) (?a @ map snd ?c) = None"
      unfolding find_None_iff using mem None by (metis option.distinct(1))
    then show ?thesis using None removed by (simp add: patched_def)
  next
    case (Some x)
    then have kx: "key x = k" by (simp add: entry_map_Some)
    have nr: "k \<notin> key ` set ?r" using removed Some by simp
    show ?thesis
    proof (cases "entry_map key old k = Some x")
      case True
      have "find (\<lambda>x. key x = k) (?a @ map snd ?c) = None"
        unfolding find_None_iff using mem Some True by (metis option.inject)
      then show ?thesis using nr True Some by (simp add: patched_def)
    next
      case False
      have "find (\<lambda>x. key x = k) (?a @ map snd ?c) = Some x"
      proof (rule find_unique)
        show "x \<in> set (?a @ map snd ?c)" unfolding mem kx using Some False by simp
        show "y = x" if "y \<in> set (?a @ map snd ?c)" "key y = k" for y
          using that(1) Some unfolding mem that(2) by simp
      qed (rule kx)
      then show ?thesis using nr Some by (simp add: patched_def)
    qed
  qed
qed

text \<open>Edges have no other content than their key.\<close>

lemma edge_diff:
  "edge_key ` set new = (edge_key ` set old - edge_key ` set (entries_added edge_key new old)) \<union>
     edge_key ` set (entries_added edge_key old new)"
proof (rule set_eqI)
  fix k
  have added: "k \<in> edge_key ` set (entries_added edge_key a b) \<longleftrightarrow> k \<in> edge_key ` set b \<and> k \<notin> edge_key ` set a" for a b
  proof -
    have "edge_key ` set (entries_added edge_key a b) = edge_key ` set (survivors edge_key b) - edge_key ` set a"
      by (auto simp: entries_added_def)
    then show ?thesis by (simp add: survivors_slots)
  qed
  show "k \<in> edge_key ` set new \<longleftrightarrow> k \<in> (edge_key ` set old - edge_key ` set (entries_added edge_key new old)) \<union>
     edge_key ` set (entries_added edge_key old new)"
    unfolding Un_iff Diff_iff added by blast
qed

end
