(* ===== verification/Diagnostics.thy ===== *)
theory Diagnostics
  imports Flow_IR "HOL-Library.Product_Lexorder"
begin

text \<open>
  Package \<open>internal/diag\<close>: the stable order of diagnostics, and the error diagnostics that the lock
  file, the manifest checks and the workspace graph report.
\<close>

definition severity_rank :: "severity \<Rightarrow> nat" where
  "severity_rank s = (case s of SeverityError \<Rightarrow> 0 | SeverityInfo \<Rightarrow> 1 | SeverityWarning \<Rightarrow> 2)"

definition SortDiagnostics :: "diagnostic list \<Rightarrow> diagnostic list" where
  "SortDiagnostics ds = sort_key (\<lambda>d. (dgCode d, dgFile d, dgMessage d, severity_rank (dgSeverity d))) ds"

definition errD :: "string \<Rightarrow> string \<Rightarrow> string list \<Rightarrow> diagnostic" where
  "errD code message details =
     \<lparr>dgCode = code, dgSeverity = SeverityError, dgMessage = message, dgFile = '''', dgDetails = details, dgFixes = []\<rparr>"

text \<open>A diagnostic under a condition.\<close>

definition flag :: "bool \<Rightarrow> diagnostic \<Rightarrow> diagnostic list" where
  "flag b d = (if b then [d] else [])"

lemma flag_Nil [simp]: "flag b d = [] \<longleftrightarrow> \<not> b"
  by (simp add: flag_def)

lemma flag_False [simp]: "flag False d = []"
  by (simp add: flag_def)

lemma set_flag [simp]: "set (flag b d) = (if b then {d} else {})"
  by (simp add: flag_def)

text \<open>An error without details, under a condition.\<close>

definition fault :: "bool \<Rightarrow> string \<Rightarrow> string \<Rightarrow> diagnostic list" where
  "fault bad code message = flag bad (errD code message [])"

lemma fault_Nil [simp]: "fault bad code message = [] \<longleftrightarrow> \<not> bad"
  by (simp add: fault_def)

lemma fault_False [simp]: "fault False code message = []"
  by (simp add: fault_def)

lemma set_SortDiagnostics [simp]: "set (SortDiagnostics ds) = set ds"
  by (simp add: SortDiagnostics_def)

lemma SortDiagnostics_Nil [simp]: "SortDiagnostics ds = [] \<longleftrightarrow> ds = []"
  by (metis set_SortDiagnostics set_empty)

end
