(* ===== verification/Lockfile_Check.thy ===== *)
theory Lockfile_Check
  imports Lockfile Diagnostics
begin

text \<open>
  The checks of a lock file: \<open>validate\<close>, which \<open>Parse\<close> runs on what it reads, and the two warnings,
  \<open>CheckVersionConflicts\<close> and \<open>CheckRequirements\<close>.  The loops of \<open>validate\<close> carry the set of what they
  have seen; here the set is the list of the elements before.
\<close>

section \<open>The header\<close>

definition header_lock_diags :: "lock_header \<Rightarrow> diagnostic list" where
  "header_lock_diags h =
     (if lhFormat h = 0 then [errD ''TSPACK_LOCK_MISSING_HEADER'' ''missing [lock] header'' []]
      else flag (lhFormat h \<noteq> 1) (errD ''TSPACK_LOCK_UNSUPPORTED_FORMAT'' ''unsupported lockfile format'' [''expected 1''])) @
     flag (lhTool h \<noteq> '''' \<and> lhTool h \<noteq> ''tspack'') (errD ''TSPACK_LOCK_INVALID_TOOL'' ''invalid lock tool'' [lhTool h])"

section \<open>Packages\<close>

definition validSHA256 :: "string \<Rightarrow> bool" where
  "validSHA256 v \<longleftrightarrow> length v = 71 \<and> has_prefix v ''sha256:'' \<and> list_all (\<lambda>c. c \<in> set ''0123456789abcdef'') (drop 7 v)"

definition expected_package_id :: "lock_package \<Rightarrow> string" where
  "expected_package_id p = lpSource p @ '':'' @ lpName p @ ''@'' @ lpVersion p"

definition registry_diags :: "lock_package \<Rightarrow> diagnostic list" where
  "registry_diags p =
     (let expected = expected_package_id p in
      flag (lpVersion p = '''' \<or> lpIntegrity p = '''' \<and> lpHash p = '''')
        (errD ''TSPACK_LOCK_INVALID_PACKAGE'' ''registry package requires version and integrity/hash'' [lpID p]) @
      (case lpPatch p of
         None \<Rightarrow>
           flag (lpID p \<noteq> expected)
             (errD ''TSPACK_LOCK_PACKAGE_IDENTITY_MISMATCH'' ''registry lock package ID does not match its source-qualified semantic identity''
               [''package: '' @ lpID p, ''expected: '' @ expected])
       | Some x \<Rightarrow>
           (let realization = expected @ ''#patch='' @ lpaAlgorithm x @ ''.'' @ trim_prefix (lpaSHA256 x) ''sha256:'' in
            flag (\<not> IsSafePackageFilePath (lpaPath x) \<or> \<not> validSHA256 (lpaSHA256 x) \<or> lpaAlgorithm x = '''' \<or>
                lpSourceHash p = '''' \<or> lpHash p = '''')
              (errD ''TSPACK_LOCK_INVALID_PATCH'' ''patched registry package requires safe path, SHA-256 digest, algorithm, source hash, and realization hash'' [lpID p]) @
            flag (\<not> (lpSourceID p = expected \<and> lpRealizationID p = lpID p \<and> lpID p = realization))
              (errD ''TSPACK_LOCK_PACKAGE_IDENTITY_MISMATCH'' ''registry lock package ID does not match its source-qualified semantic identity''
                [''package: '' @ lpID p, ''expected: '' @ expected]))))"

definition source_diags :: "lock_package \<Rightarrow> diagnostic list" where
  "source_diags p =
     (if lpSource p = ''npm'' \<or> lpSource p = ''jsr'' then registry_diags p
      else if lpSource p = ''git'' then
        flag (lpRepo p = '''' \<or> lpRev p = '''' \<or> lpTreeHash p = '''' \<and> lpHash p = '''')
          (errD ''TSPACK_LOCK_INVALID_PACKAGE'' ''git package requires repo/rev/tree_hash/hash'' [lpID p])
      else if lpSource p = ''path'' then
        flag (\<not> IsSafePackageFilePath (lpPath p))
          (errD ''TSPACK_LOCK_INVALID_PATH'' ''path package path must be safe relative'' [lpID p])
      else if lpSource p = ''workspace'' then
        flag (lpWorkspace p = '''' \<and> lpPath p = '''')
          (errD ''TSPACK_LOCK_INVALID_PACKAGE'' ''workspace package missing identifiers'' [lpID p])
      else [errD ''TSPACK_LOCK_INVALID_SOURCE'' ''invalid package source'' [lpSource p, lpID p]])"

definition package_complete :: "lock_package \<Rightarrow> bool" where
  "package_complete p \<longleftrightarrow> lpID p \<noteq> '''' \<and> lpName p \<noteq> '''' \<and> lpSource p \<noteq> ''''"

text \<open>The identities that the loop has collected at its end.\<close>

definition package_ids :: "lock_package list \<Rightarrow> string list" where
  "package_ids ps = map lpID (filter package_complete ps)"

fun package_diags :: "string list \<Rightarrow> lock_package list \<Rightarrow> diagnostic list" where
  "package_diags ids [] = []"
| "package_diags ids (p # ps) =
     (if \<not> package_complete p
      then errD ''TSPACK_LOCK_INVALID_PACKAGE'' ''package requires id/name/source'' [lpID p] # package_diags ids ps
      else flag (lpID p \<in> set ids) (errD ''TSPACK_LOCK_DUPLICATE_PACKAGE'' ''duplicate package id'' [lpID p]) @
        source_diags p @ package_diags (lpID p # ids) ps)"

section \<open>Module instances\<close>

definition identity_binding :: "lock_peer \<Rightarrow> peer_binding" where
  "identity_binding b =
     \<lparr>pbReference = lbReference b, pbSource = lbSource b, pbName = lbName b, pbRealizationID = lbRealizationID b,
      pbInstanceID = '''', pbOptional = lbOptional b, pbState = lbState b\<rparr>"

definition peer_diags :: "string list \<Rightarrow> string \<Rightarrow> lock_peer \<Rightarrow> diagnostic list" where
  "peer_diags ids i b =
     flag (lbReference b = '''' \<or> lbSource b = '''' \<or> lbName b = '''' \<or> lbState b \<noteq> ''present'' \<and> lbState b \<noteq> ''absent'')
       (errD ''TSPACK_LOCK_INVALID_PEER_BINDING'' ''module-instance peer binding is incomplete'' [i, lbReference b]) @
     flag (lbState b = ''present'' \<and> lbRealizationID b \<notin> set ids)
       (errD ''TSPACK_LOCK_PEER_BINDING_UNKNOWN_PACKAGE'' ''present peer binding refers to an unknown realization'' [i, lbRealizationID b])"

definition instance_identity_diags :: "(string \<Rightarrow> string) \<Rightarrow> lock_instance \<Rightarrow> diagnostic list" where
  "instance_identity_diags sha i =
     (let expected = NewModuleInstance sha (liPackageID i) (map identity_binding (liPeers i)) in
      flag (idiID expected \<noteq> liID i \<or> pcID (idiPeerContext expected) \<noteq> liPeerContextID i)
        (errD ''TSPACK_LOCK_MODULE_INSTANCE_IDENTITY_MISMATCH'' ''module instance identity does not match its realization and canonical peer context''
          [liID i, ''expected: '' @ idiID expected]))"

fun instance_diags :: "(string \<Rightarrow> string) \<Rightarrow> string list \<Rightarrow> string list \<Rightarrow> lock_instance list \<Rightarrow> diagnostic list" where
  "instance_diags sha ids seen [] = []"
| "instance_diags sha ids seen (i # is) =
     (if liID i = '''' \<or> liPackageID i = '''' \<or> liPeerContextID i = ''''
      then errD ''TSPACK_LOCK_INVALID_MODULE_INSTANCE'' ''module instance requires id, package realization, and peer context identity'' [liID i]
        # instance_diags sha ids seen is
      else flag (liPackageID i \<notin> set ids)
          (errD ''TSPACK_LOCK_MODULE_INSTANCE_UNKNOWN_PACKAGE'' ''module instance refers to an unknown package realization'' [liID i, liPackageID i]) @
        flag (liID i \<in> set seen) (errD ''TSPACK_LOCK_DUPLICATE_MODULE_INSTANCE'' ''duplicate module instance identity'' [liID i]) @
        concat (map (peer_diags ids (liID i)) (liPeers i)) @ instance_identity_diags sha i @
        instance_diags sha ids (liID i # seen) is)"

section \<open>Edges, requirements and targets\<close>

definition validEdgeKind :: "string \<Rightarrow> bool" where
  "validEdgeKind k \<longleftrightarrow>
     k \<in> set [''runtime'', ''dep'', ''peer'', ''optionalPeer'', ''tool'', ''type'', ''test'', ''workspace'']"

fun edge_diags :: "string list \<Rightarrow> string list \<Rightarrow> lock_edge list \<Rightarrow> diagnostic list" where
  "edge_diags ids seen [] = []"
| "edge_diags ids seen (e # es) =
     (if leFrom e = '''' \<or> leTo e = '''' \<or> leKind e = ''''
      then errD ''TSPACK_LOCK_INVALID_EDGE'' ''edge requires from/to/kind'' [] # edge_diags ids seen es
      else flag (\<not> validEdgeKind (leKind e)) (errD ''TSPACK_LOCK_INVALID_EDGE'' ''invalid edge kind'' [leKind e]) @
        flag (leTo e \<notin> set ids) (errD ''TSPACK_LOCK_UNKNOWN_PACKAGE_REF'' ''edge to unknown package'' [leTo e]) @
        flag (edge_key e \<in> set seen) (errD ''TSPACK_LOCK_DUPLICATE_EDGE'' ''duplicate edge'' [edge_key e]) @
        edge_diags ids (edge_key e # seen) es)"

definition validRequirementKind :: "string \<Rightarrow> bool" where
  "validRequirementKind k \<longleftrightarrow>
     k \<in> set [''transitive-runtime'', ''transitive-optional'', ''peer'', ''package-explicit'', ''project-explicit'',
       ''target-explicit'', ''override'']"

definition validRequirementStatus :: "string \<Rightarrow> bool" where
  "validRequirementStatus s \<longleftrightarrow>
     s \<in> set [''pending'', ''controlling'', ''satisfied'', ''shadowed-compatible'', ''overridden-incompatible'',
       ''optional-unsatisfied'', ''invalid'']"

fun requirement_diags :: "string list \<Rightarrow> lock_requirement list \<Rightarrow> diagnostic list" where
  "requirement_diags seen [] = []"
| "requirement_diags seen (r # rs) =
     (if lrID r = '''' \<or> lrScope r = '''' \<or> lrTargetSource r = '''' \<or> lrTargetName r = '''' \<or> lrConstraint r = '''' \<or>
         lrKind r = '''' \<or> lrStatus r = ''''
      then errD ''TSPACK_LOCK_INVALID_REQUIREMENT'' ''requirement requires id/scope/target/constraint/kind/status'' [lrID r]
        # requirement_diags seen rs
      else flag (lrTargetSource r \<noteq> ''npm'' \<and> lrTargetSource r \<noteq> ''jsr'')
          (errD ''TSPACK_LOCK_INVALID_REQUIREMENT'' ''requirement target source is not supported'' [lrID r, lrTargetSource r]) @
        flag (\<not> validRequirementKind (lrKind r) \<or> \<not> validRequirementStatus (lrStatus r))
          (errD ''TSPACK_LOCK_INVALID_REQUIREMENT'' ''requirement kind or status is invalid'' [lrID r, lrKind r, lrStatus r]) @
        flag (lrID r \<in> set seen) (errD ''TSPACK_LOCK_DUPLICATE_REQUIREMENT'' ''duplicate requirement id'' [lrID r]) @
        requirement_diags (lrID r # seen) rs)"

definition export_key :: "lock_target \<Rightarrow> string" where
  "export_key t = ltPackage t @ ''::'' @ ltExport t"

fun target_diags :: "string list \<Rightarrow> string list \<Rightarrow> lock_target list \<Rightarrow> diagnostic list" where
  "target_diags names exports [] = []"
| "target_diags names exports (t # ts) =
     (if ltPackage t = '''' \<or> ltName t = '''' \<or> ltExport t = '''' \<or> ltEntry t = '''' \<or> ltRuntime t = ''''
      then errD ''TSPACK_LOCK_INVALID_TARGET'' ''target requires package/name/export/entry/runtime'' [ltPackage t, ltName t]
        # target_diags names exports ts
      else flag (ltExport t \<noteq> ''.'' \<and> \<not> has_prefix (ltExport t) ''./'')
          (errD ''TSPACK_LOCK_INVALID_TARGET'' ''target export must be . or ./ prefixed'' [ltPackage t, ltName t]) @
        flag (\<not> IsSafePackageFilePath (ltEntry t) \<or> \<not> IsSafePackageFilePath (ltRuntime t) \<or>
            ltTypes t \<noteq> '''' \<and> \<not> IsSafePackageFilePath (ltTypes t))
          (errD ''TSPACK_LOCK_INVALID_PATH'' ''target paths must be safe relative'' [ltPackage t, ltName t]) @
        flag (target_key t \<in> set names) (errD ''TSPACK_LOCK_DUPLICATE_TARGET'' ''duplicate target'' [target_key t]) @
        flag (export_key t \<in> set exports) (errD ''TSPACK_LOCK_DUPLICATE_EXPORT'' ''duplicate export'' [export_key t]) @
        target_diags (target_key t # names) (export_key t # exports) ts)"

definition validate_lock :: "(string \<Rightarrow> string) \<Rightarrow> lockfile \<Rightarrow> diagnostic list" where
  "validate_lock sha lf =
     (let ids = package_ids (lfPackages lf) in
      SortDiagnostics
        (header_lock_diags (lfLock lf) @ package_diags [] (lfPackages lf) @ instance_diags sha ids [] (lfInstances lf) @
         edge_diags ids [] (lfEdges lf) @ requirement_diags [] (lfRequirements lf) @ target_diags [] [] (lfTargets lf)))"

section \<open>Warnings\<close>

definition versioned :: "lock_package \<Rightarrow> bool" where
  "versioned p \<longleftrightarrow> lpSource p \<noteq> '''' \<and> lpName p \<noteq> '''' \<and> lpVersion p \<noteq> ''''"

text \<open>The packages of one group, and their versions.\<close>

definition group_packages :: "lock_package list \<Rightarrow> string \<times> string \<Rightarrow> lock_package list" where
  "group_packages ps g = filter (\<lambda>p. versioned p \<and> (lpName p, lpSource p) = g) ps"

definition group_versions :: "lock_package list \<Rightarrow> string \<times> string \<Rightarrow> string list" where
  "group_versions ps g = sort_strings (remdups (map lpVersion (group_packages ps g)))"

definition conflict_diag :: "lock_package list \<Rightarrow> string \<times> string \<Rightarrow> diagnostic" where
  "conflict_diag ps g =
     \<lparr>dgCode = ''TSPACK_LOCK_VERSION_CONFLICT'', dgSeverity = SeverityWarning,
      dgMessage = ''package \"'' @ fst g @ ''\" appears at multiple versions'', dgFile = '''',
      dgDetails = [''source: '' @ snd g, ''versions:''] @
        concat (map (\<lambda>v. map (\<lambda>i. ''  '' @ v @ '' -> '' @ i)
            (sort_strings (map lpID (filter (\<lambda>p. lpVersion p = v) (group_packages ps g))))) (group_versions ps g)) @
        [''This can be valid, but may indicate duplicated runtime dependencies or peer version drift.''],
      dgFixes = []\<rparr>"

definition CheckVersionConflicts :: "lockfile option \<Rightarrow> diagnostic list" where
  "CheckVersionConflicts lf =
     (case lf of
        None \<Rightarrow> []
      | Some l \<Rightarrow>
          (let ps = lfPackages l;
               groups = remdups (map (\<lambda>p. (lpName p, lpSource p)) (filter versioned ps))
           in map (conflict_diag ps) (sort (filter (\<lambda>g. length (group_versions ps g) > 1) groups))))"

definition overridden_diag :: "lock_requirement \<Rightarrow> diagnostic" where
  "overridden_diag r =
     \<lparr>dgCode = (if lrKind r = ''peer'' then ''TSPACK_PEER_REQUIREMENT_OVERRIDDEN'' else ''TSPACK_REQUIREMENT_OVERRIDDEN''),
      dgSeverity = SeverityWarning, dgMessage = ''selected package version overrides an incompatible requirement'',
      dgFile = '''',
      dgDetails = [''origin: '' @ (if lrPackageID r = '''' then lrRequiringPackage r else lrPackageID r),
        ''target: '' @ lrTargetSource r @ '':'' @ lrTargetName r, ''constraint: '' @ lrConstraint r,
        ''selectedVersion: '' @ lrSelectedVersion r, ''controllingRequirement: '' @ lrShadowedBy r],
      dgFixes = []\<rparr>"

definition CheckRequirements :: "lockfile option \<Rightarrow> diagnostic list" where
  "CheckRequirements lf =
     (case lf of
        None \<Rightarrow> []
      | Some l \<Rightarrow> SortDiagnostics (map overridden_diag (filter (\<lambda>r. lrStatus r = ''overridden-incompatible'') (lfRequirements l))))"

end
