(* ===== verification/Module_Instances.thy ===== *)
theory Module_Instances
  imports Lockfile_Check
begin

text \<open>
  \<open>internal/lockfile/module_instances.go\<close>: the instances of packages under their peers, found by a
  walk along the dependency edges from every root.  The recursion of \<open>instantiate\<close> runs on fuel; that
  a bound computed from the lock file is enough is proved in \<open>Instance_Props\<close>.  Go collects the
  instances from a map in any order; \<open>map_order\<close> stands for it.
\<close>

section \<open>Lookup\<close>

definition zero_package :: lock_package where
  "zero_package =
     \<lparr>lpID = '''', lpName = '''', lpVersion = '''', lpSource = '''', lpIntegrity = '''', lpRepo = '''', lpRev = '''',
      lpTreeHash = '''', lpPath = '''', lpWorkspace = '''', lpHash = '''', lpSourceID = '''', lpSourceHash = '''',
      lpRealizationID = '''', lpRegistryEndpoint = '''', lpMetadataEndpoint = '''', lpArtifactHost = '''',
      lpCapabilities = [], lpPatch = None\<rparr>"

type_synonym package_map = "string \<rightharpoonup> lock_package"
type_synonym module_environment = "string \<rightharpoonup> string"

definition packages_by_id :: "lock_package list \<Rightarrow> package_map" where
  "packages_by_id ps = foldl (\<lambda>m p. m(lpID p \<mapsto> p)) Map.empty ps"

text \<open>Reading a Go map where the key may be missing.\<close>

definition package_at :: "package_map \<Rightarrow> string \<Rightarrow> lock_package" where
  "package_at m i = (case m i of None \<Rightarrow> zero_package | Some p \<Rightarrow> p)"

definition environment_at :: "module_environment \<Rightarrow> string \<Rightarrow> string" where
  "environment_at env k = (case env k of None \<Rightarrow> '''' | Some i \<Rightarrow> i)"

definition moduleReference :: "string \<Rightarrow> lock_package \<Rightarrow> string" where
  "moduleReference reference p =
     (if lpSource p \<noteq> ''jsr'' \<and> \<not> is_blank reference then reference
      else (case NodeUsage \<lparr>piSource = lpSource p, piName = lpName p\<rparr> of
              Inr u \<Rightarrow> miName (puMaterializedAs u)
            | Inl _ \<Rightarrow> lpName p))"

section \<open>Environments\<close>

definition env_bind :: "string \<Rightarrow> lock_package \<Rightarrow> module_environment \<Rightarrow> module_environment" where
  "env_bind reference p env =
     (let env1 = (if is_blank reference then env else env(reference \<mapsto> lpID p))
      in if env1 (lpName p) = None then env1(lpName p \<mapsto> lpID p) else env1)"

definition env_bind_if_absent :: "string \<Rightarrow> lock_package \<Rightarrow> module_environment \<Rightarrow> module_environment" where
  "env_bind_if_absent reference p env =
     (let env1 = (if is_blank reference \<or> env reference \<noteq> None then env else env(reference \<mapsto> lpID p))
      in if env1 (lpName p) = None then env1(lpName p \<mapsto> lpID p) else env1)"

fun index_of :: "string \<Rightarrow> string \<Rightarrow> nat option" where
  "index_of [] sub = (if sub = '''' then Some 0 else None)"
| "index_of (c # cs) sub = (if has_prefix (c # cs) sub then Some 0 else map_option Suc (index_of cs sub))"

definition moduleRootConsumer :: "string \<Rightarrow> string" where
  "moduleRootConsumer from =
     (case List.map_filter (index_of from) ['':target:'', '':test:'', '':dependency'', '':tool''] of
        [] \<Rightarrow> from
      | i # _ \<Rightarrow> take i from)"

section \<open>Edges and requirements\<close>

definition peer_edge :: "lock_edge \<Rightarrow> bool" where
  "peer_edge e \<longleftrightarrow> leKind e = ''peer'' \<or> leKind e = ''optionalPeer''"

definition moduleRootEdges :: "lock_edge list \<Rightarrow> package_map \<Rightarrow> lock_edge list" where
  "moduleRootEdges es m =
     sort_key (\<lambda>e. leFrom e @ nul @ leReference e @ nul @ leTo e @ nul @ leKind e)
       (filter (\<lambda>e. m (leFrom e) = None \<and> m (leTo e) \<noteq> None \<and> \<not> peer_edge e \<and> \<not> has_prefix (leFrom e) ''workspace:peer:'') es)"

definition moduleRootPeerEdges :: "lock_edge list \<Rightarrow> package_map \<Rightarrow> lock_edge list" where
  "moduleRootPeerEdges es m =
     sort_key (\<lambda>e. leFrom e @ nul @ leTo e)
       (filter (\<lambda>e. has_prefix (leFrom e) ''workspace:peer:'' \<and> m (leTo e) \<noteq> None) es)"

definition packageEdgesByFrom :: "lock_edge list \<Rightarrow> package_map \<Rightarrow> string \<Rightarrow> lock_edge list" where
  "packageEdgesByFrom es m from =
     sort_key (\<lambda>e. leReference e @ nul @ leTo e @ nul @ leKind e)
       (filter (\<lambda>e. leFrom e = from \<and> m from \<noteq> None \<and> \<not> peer_edge e \<and> m (leTo e) \<noteq> None) es)"

definition peerRequirementsByPackage :: "lock_requirement list \<Rightarrow> string \<Rightarrow> lock_requirement list" where
  "peerRequirementsByPackage rs p =
     sort_key (\<lambda>r. lrReference r @ nul @ lrTargetSource r @ nul @ lrTargetName r)
       (filter (\<lambda>r. lrKind r = ''peer'' \<and> lrPackageID r \<noteq> '''' \<and> lrPackageID r = p) rs)"

section \<open>Root environments\<close>

definition root_env_step ::
  "package_map \<Rightarrow> (string \<rightharpoonup> module_environment) \<Rightarrow> lock_edge \<Rightarrow> (string \<rightharpoonup> module_environment)" where
  "root_env_step m envs e =
     (let c = moduleRootConsumer (leFrom e); env = (case envs c of None \<Rightarrow> Map.empty | Some env \<Rightarrow> env);
          p = package_at m (leTo e)
      in envs(c \<mapsto> env_bind (moduleReference (leReference e) p) p env))"

definition bind_requirement :: "lock_package list \<Rightarrow> module_environment \<Rightarrow> lock_requirement \<Rightarrow> module_environment" where
  "bind_requirement ps env r =
     (if lrKind r \<noteq> ''peer'' \<or> lrSelectedVersion r = '''' then env
      else (case find (\<lambda>p. lpSource p = lrTargetSource r \<and> lpName p = lrTargetName r \<and> lpVersion p = lrSelectedVersion r) ps of
              None \<Rightarrow> env
            | Some p \<Rightarrow> env_bind_if_absent (lrReference r) p env))"

definition moduleRootEnvironments ::
  "lock_edge list \<Rightarrow> lockfile \<Rightarrow> package_map \<Rightarrow> (string \<rightharpoonup> module_environment)" where
  "moduleRootEnvironments root_edges lf m =
     (let envs = foldl (root_env_step m) Map.empty root_edges;
          envs1 = (if root_edges = [] then [''''\<mapsto> Map.empty] else envs);
          complete = (\<lambda>env. foldl (bind_requirement (lfPackages lf))
            (foldl (\<lambda>env e. env_bind_if_absent (moduleReference (leReference e) (package_at m (leTo e))) (package_at m (leTo e)) env)
              env (moduleRootPeerEdges (lfEdges lf) m))
            (lfRequirements lf))
      in (\<lambda>c. map_option complete (envs1 c)))"

section \<open>Instances\<close>

text \<open>The builder; the instances are kept in the order in which they were made.\<close>

record instance_builder =
  ibPackages :: package_map
  ibRequirements :: "string \<Rightarrow> lock_requirement list"
  ibEdges :: "string \<Rightarrow> lock_edge list"
  ibInstances :: "lock_instance list"
  ibVisiting :: "string list"

definition built_instance :: "instance_builder \<Rightarrow> string \<Rightarrow> lock_instance option" where
  "built_instance b i = find (\<lambda>x. liID x = i) (ibInstances b)"

definition update_instance :: "string \<Rightarrow> (lock_instance \<Rightarrow> lock_instance) \<Rightarrow> instance_builder \<Rightarrow> instance_builder" where
  "update_instance i f b = b\<lparr>ibInstances := map (\<lambda>x. if liID x = i then f x else x) (ibInstances b)\<rparr>"

definition requirement_binding :: "package_map \<Rightarrow> module_environment \<Rightarrow> lock_requirement \<Rightarrow> peer_binding" where
  "requirement_binding m env r =
     (let absent = \<lparr>pbReference = lrReference r, pbSource = lrTargetSource r, pbName = lrTargetName r, pbRealizationID = '''',
            pbInstanceID = '''', pbOptional = lrOptional r, pbState = ''absent''\<rparr>;
          first = environment_at env (lrReference r);
          provider = (if first = '''' then environment_at env (lrTargetName r) else first)
      in case m provider of
           Some p \<Rightarrow>
             if lpSource p = lrTargetSource r \<and> lpName p = lrTargetName r
             then absent\<lparr>pbRealizationID := lpID p, pbState := ''present''\<rparr> else absent
         | None \<Rightarrow> absent)"

definition lock_binding :: "peer_binding \<Rightarrow> lock_peer" where
  "lock_binding b =
     \<lparr>lbReference = pbReference b, lbSource = pbSource b, lbName = pbName b, lbRealizationID = pbRealizationID b,
      lbInstanceID = '''', lbState = pbState b, lbOptional = pbOptional b\<rparr>"

definition effectivePeerBindings :: "instance_builder \<Rightarrow> string \<Rightarrow> module_environment \<Rightarrow> lock_peer list" where
  "effectivePeerBindings b p env =
     map lock_binding (CanonicalPeerBindings (map (requirement_binding (ibPackages b) env) (ibRequirements b p)))"

text \<open>The environment of the dependencies of a package.\<close>

definition child_environment ::
  "instance_builder \<Rightarrow> string \<Rightarrow> lock_peer list \<Rightarrow> module_environment \<Rightarrow> module_environment" where
  "child_environment b p peers env =
     foldl (\<lambda>env x. if lbState x = ''present''
         then env_bind (lbReference x) (package_at (ibPackages b) (lbRealizationID x)) env else env)
       (foldl (\<lambda>env e. env_bind (moduleReference (leReference e) (package_at (ibPackages b) (leTo e)))
           (package_at (ibPackages b) (leTo e)) env) env (ibEdges b p))
       peers"

text \<open>Running over a list with a step that may run out of fuel.\<close>

fun fold_opt :: "('s \<Rightarrow> 'a \<Rightarrow> 's option) \<Rightarrow> 's \<Rightarrow> 'a list \<Rightarrow> 's option" where
  "fold_opt f s [] = Some s"
| "fold_opt f s (x # xs) = Option.bind (f s x) (\<lambda>s'. fold_opt f s' xs)"

text \<open>What a call does with the identity of a dependency and of a peer.\<close>

definition note_dependency :: "string \<Rightarrow> lock_edge \<Rightarrow> string \<times> instance_builder \<Rightarrow> instance_builder" where
  "note_dependency i e r =
     (let (d, b) = r in
      if d = '''' then b
      else update_instance i (\<lambda>x. x\<lparr>liDependencies := liDependencies x @
        [\<lparr>idReference = moduleReference (leReference e) (package_at (ibPackages b) (leTo e)), idKind = leKind e,
          idInstanceID = d\<rparr>]\<rparr>) b)"

definition note_peer :: "string \<Rightarrow> nat \<Rightarrow> string \<times> instance_builder \<Rightarrow> instance_builder" where
  "note_peer i k r =
     (let (d, b) = r
      in update_instance i (\<lambda>x. x\<lparr>liPeers := (liPeers x)[k := (liPeers x ! k)\<lparr>lbInstanceID := d\<rparr>]\<rparr>) b)"

fun instantiate ::
  "(string \<Rightarrow> string) \<Rightarrow> nat \<Rightarrow> string \<Rightarrow> module_environment \<Rightarrow> instance_builder \<Rightarrow> (string \<times> instance_builder) option" where
  "instantiate sha 0 p env b = None"
| "instantiate sha (Suc fuel) p env b =
     (case ibPackages b p of
        None \<Rightarrow> Some ('''', b)
      | Some pkg \<Rightarrow>
          (let peers = effectivePeerBindings b p env;
               identity = NewModuleInstance sha (lpID pkg) (map identity_binding peers);
               i = idiID identity
           in if built_instance b i \<noteq> None then Some (i, b)
              else
                (let b1 = b\<lparr>ibInstances := ibInstances b @
                       [\<lparr>liID = i, liPackageID = lpID pkg, liPeerContextID = pcID (idiPeerContext identity),
                         liPeers = peers, liDependencies = []\<rparr>]\<rparr>
                 in if i \<in> set (ibVisiting b1) then Some (i, b1)
                    else
                      (let b2 = b1\<lparr>ibVisiting := i # ibVisiting b1\<rparr>; child = child_environment b2 p peers env
                       in Option.bind
                         (fold_opt (\<lambda>b e. map_option (note_dependency i e) (instantiate sha fuel (leTo e) child b))
                           b2 (ibEdges b2 p))
                         (\<lambda>b3. map_option (\<lambda>b4. (i, b4\<lparr>ibVisiting := removeAll i (ibVisiting b4)\<rparr>))
                           (fold_opt (\<lambda>b k. if lbState (peers ! k) = ''present''
                               then map_option (note_peer i k) (instantiate sha fuel (lbRealizationID (peers ! k)) env b)
                               else Some b) b3 [0..<length peers]))))))"

declare instantiate.simps [simp del]

section \<open>Rebuilding\<close>

definition instance_start :: "lockfile \<Rightarrow> instance_builder" where
  "instance_start lf =
     (let m = packages_by_id (lfPackages lf) in
      \<lparr>ibPackages = m, ibRequirements = peerRequirementsByPackage (lfRequirements lf),
       ibEdges = packageEdgesByFrom (lfEdges lf) m, ibInstances = [], ibVisiting = []\<rparr>)"

definition rebuild_root ::
  "(string \<Rightarrow> string) \<Rightarrow> nat \<Rightarrow> (string \<rightharpoonup> module_environment) \<Rightarrow> instance_builder \<times> root_instance list \<Rightarrow>
     lock_edge \<Rightarrow> (instance_builder \<times> root_instance list) option" where
  "rebuild_root sha fuel envs st e =
     (let (b, roots) = st;
          env = (case envs (moduleRootConsumer (leFrom e)) of None \<Rightarrow> Map.empty | Some env \<Rightarrow> env)
      in map_option (\<lambda>(i, b').
           (b', if i = '''' then roots
                else roots @ [\<lparr>riFrom = leFrom e,
                  riReference = moduleReference (leReference e) (package_at (ibPackages b') (leTo e)),
                  riKind = leKind e, riInstanceID = i\<rparr>]))
         (instantiate sha fuel (leTo e) env b))"

definition hasPackageInstance :: "instance_builder \<Rightarrow> string \<Rightarrow> bool" where
  "hasPackageInstance b p \<longleftrightarrow> list_ex (\<lambda>i. liPackageID i = p) (ibInstances b)"

definition rebuild_rest ::
  "(string \<Rightarrow> string) \<Rightarrow> nat \<Rightarrow> module_environment \<Rightarrow> instance_builder \<Rightarrow> lock_package \<Rightarrow> instance_builder option" where
  "rebuild_rest sha fuel env b p =
     (if hasPackageInstance b (lpID p) then Some b
      else map_option snd (instantiate sha fuel (lpID p) env b))"

definition rebuild_builder ::
  "(string \<Rightarrow> string) \<Rightarrow> nat \<Rightarrow> lockfile \<Rightarrow> (instance_builder \<times> root_instance list) option" where
  "rebuild_builder sha fuel lf =
     (let m = packages_by_id (lfPackages lf);
          root_edges = moduleRootEdges (lfEdges lf) m;
          envs = moduleRootEnvironments root_edges lf m;
          rest_env = (case envs '''' of None \<Rightarrow> Map.empty | Some env \<Rightarrow> env)
      in Option.bind (fold_opt (rebuild_root sha fuel envs) (instance_start lf, []) root_edges)
           (\<lambda>(b, roots). map_option (\<lambda>b'. (b', roots)) (fold_opt (rebuild_rest sha fuel rest_env) b (lfPackages lf))))"

definition RebuildModuleInstances ::
  "(string \<Rightarrow> string) \<Rightarrow> (lock_instance list \<Rightarrow> lock_instance list) \<Rightarrow> nat \<Rightarrow> lockfile \<Rightarrow> lockfile option" where
  "RebuildModuleInstances sha map_order fuel lf =
     map_option (\<lambda>(b, roots). lf\<lparr>lfInstances := map_order (ibInstances b), lfRootInstances := roots\<rparr>)
       (rebuild_builder sha fuel lf)"

text \<open>A bound on the number of instances: each peer requirement of a package is bound to one of the
  packages or to none.\<close>

definition instance_budget :: "lockfile \<Rightarrow> nat" where
  "instance_budget lf =
     (\<Sum>p\<leftarrow>lfPackages lf. Suc (length (lfPackages lf)) ^ length (peerRequirementsByPackage (lfRequirements lf) (lpID p)))"

end
