(* ===== verification/Instance_Props.thy ===== *)
theory Instance_Props
  imports Module_Instances
begin

text \<open>
  Rebuilding the module instances returns, and what it returns is closed, complete and passes the
  checks of the lock file.  \<open>builder_ok\<close> is the invariant of the builder: the instances on the stack
  are the visiting ones, every other instance is complete.
\<close>

section \<open>The invariant\<close>

definition instance_ids :: "instance_builder \<Rightarrow> string set" where
  "instance_ids b = liID ` set (ibInstances b)"

definition peer_ok :: "package_map \<Rightarrow> lock_peer \<Rightarrow> bool" where
  "peer_ok m q \<longleftrightarrow> lbReference q \<noteq> '''' \<and> lbSource q \<noteq> '''' \<and> lbName q \<noteq> '''' \<and>
     (lbState q = ''present'' \<and> m (lbRealizationID q) \<noteq> None \<or> lbState q = ''absent'')"

text \<open>The identity an instance must have.\<close>

definition instance_identity :: "(string \<Rightarrow> string) \<Rightarrow> lock_instance \<Rightarrow> id_instance" where
  "instance_identity sha x = NewModuleInstance sha (liPackageID x) (map identity_binding (liPeers x))"

definition instance_sound :: "(string \<Rightarrow> string) \<Rightarrow> package_map \<Rightarrow> lock_instance \<Rightarrow> bool" where
  "instance_sound sha m x \<longleftrightarrow>
     m (liPackageID x) \<noteq> None \<and> liID x = idiID (instance_identity sha x) \<and>
     liPeerContextID x = pcID (idiPeerContext (instance_identity sha x)) \<and> list_all (peer_ok m) (liPeers x)"

definition instance_closed :: "string set \<Rightarrow> lock_instance \<Rightarrow> bool" where
  "instance_closed ids x \<longleftrightarrow>
     (\<forall>d \<in> set (liDependencies x). idInstanceID d \<in> ids) \<and>
     (\<forall>q \<in> set (liPeers x). lbInstanceID q = '''' \<or> lbInstanceID q \<in> ids)"

definition edge_reading :: "package_map \<Rightarrow> lock_edge \<Rightarrow> string \<times> string" where
  "edge_reading m e = (moduleReference (leReference e) (package_at m (leTo e)), leKind e)"

definition dependency_reading :: "instance_dependency \<Rightarrow> string \<times> string" where
  "dependency_reading d = (idReference d, idKind d)"

definition peers_linked :: "lock_peer list \<Rightarrow> bool" where
  "peers_linked qs \<longleftrightarrow> (\<forall>q \<in> set qs. lbState q = ''present'' \<longrightarrow> lbInstanceID q \<noteq> '''')"

definition instance_complete :: "package_map \<Rightarrow> (string \<Rightarrow> lock_edge list) \<Rightarrow> lock_instance \<Rightarrow> bool" where
  "instance_complete m edges x \<longleftrightarrow>
     map dependency_reading (liDependencies x) = map (edge_reading m) (edges (liPackageID x)) \<and> peers_linked (liPeers x)"

text \<open>What the walk needs of the packages, the requirements and the edges.\<close>

definition builder_ready :: "instance_builder \<Rightarrow> bool" where
  "builder_ready b \<longleftrightarrow> finite (dom (ibPackages b)) \<and>
     (\<forall>i p. ibPackages b i = Some p \<longrightarrow> lpID p = i \<and> trim_space i = i) \<and>
     (\<forall>p. \<forall>r \<in> set (ibRequirements b p).
        trim_space (lrReference r) \<noteq> '''' \<and> trim_space (lrTargetSource r) \<noteq> '''' \<and> trim_space (lrTargetName r) \<noteq> '''') \<and>
     (\<forall>p. \<forall>e \<in> set (ibEdges b p). ibPackages b (leTo e) \<noteq> None)"

text \<open>All identities an instance of a package can get.\<close>

definition chosen_binding :: "lock_requirement \<Rightarrow> lock_package option \<Rightarrow> peer_binding" where
  "chosen_binding r c =
     \<lparr>pbReference = lrReference r, pbSource = lrTargetSource r, pbName = lrTargetName r,
      pbRealizationID = (case c of None \<Rightarrow> '''' | Some p \<Rightarrow> lpID p), pbInstanceID = '''', pbOptional = lrOptional r,
      pbState = (case c of None \<Rightarrow> ''absent'' | Some _ \<Rightarrow> ''present'')\<rparr>"

definition choices :: "instance_builder \<Rightarrow> string \<Rightarrow> lock_package option list set" where
  "choices b p = {cs. set cs \<subseteq> insert None (Some ` ran (ibPackages b)) \<and> length cs = length (ibRequirements b p)}"

definition chosen_identity :: "(string \<Rightarrow> string) \<Rightarrow> instance_builder \<Rightarrow> string \<Rightarrow> lock_package option list \<Rightarrow> string" where
  "chosen_identity sha b p cs =
     idiID (NewModuleInstance sha p (map identity_binding (map lock_binding
       (CanonicalPeerBindings (map2 chosen_binding (ibRequirements b p) cs)))))"

definition possible_ids :: "(string \<Rightarrow> string) \<Rightarrow> instance_builder \<Rightarrow> string set" where
  "possible_ids sha b = (\<Union>p \<in> dom (ibPackages b). chosen_identity sha b p ` choices b p)"

definition builder_ok :: "(string \<Rightarrow> string) \<Rightarrow> instance_builder \<Rightarrow> bool" where
  "builder_ok sha b \<longleftrightarrow>
     distinct (map liID (ibInstances b)) \<and>
     (\<forall>x \<in> set (ibInstances b). instance_sound sha (ibPackages b) x \<and> instance_closed (instance_ids b) x \<and>
        (liID x \<in> set (ibVisiting b) \<or> instance_complete (ibPackages b) (ibEdges b) x)) \<and>
     set (ibVisiting b) \<subseteq> instance_ids b \<and> instance_ids b \<subseteq> possible_ids sha b"

text \<open>What a call leaves alone: the graph, the stack and the instances on it.\<close>

definition builder_extends :: "instance_builder \<Rightarrow> instance_builder \<Rightarrow> bool" where
  "builder_extends b b' \<longleftrightarrow>
     ibPackages b' = ibPackages b \<and> ibRequirements b' = ibRequirements b \<and> ibEdges b' = ibEdges b \<and>
     ibVisiting b' = ibVisiting b \<and> instance_ids b \<subseteq> instance_ids b' \<and>
     (\<forall>x \<in> set (ibInstances b). liID x \<in> set (ibVisiting b) \<longrightarrow> x \<in> set (ibInstances b'))"

lemma extends_refl [simp]: "builder_extends b b"
  by (simp add: builder_extends_def)

lemma extends_trans [trans]: "builder_extends a b \<Longrightarrow> builder_extends b c \<Longrightarrow> builder_extends a c"
  unfolding builder_extends_def by (metis subset_trans)

lemma extends_reads:
  "builder_extends b b' \<Longrightarrow> builder_ready b' = builder_ready b"
  "builder_extends b b' \<Longrightarrow> possible_ids sha b' = possible_ids sha b"
  by (simp_all add: builder_extends_def builder_ready_def possible_ids_def choices_def chosen_identity_def)

section \<open>Bindings\<close>

lemma requirement_binding_chosen:
  assumes "builder_ready b"
  shows "\<exists>c \<in> insert None (Some ` ran (ibPackages b)). requirement_binding (ibPackages b) env r = chosen_binding r c"
proof (cases "requirement_binding (ibPackages b) env r = chosen_binding r None")
  case False
  then obtain i p where "ibPackages b i = Some p" "requirement_binding (ibPackages b) env r = chosen_binding r (Some p)"
    by (auto simp: requirement_binding_def chosen_binding_def Let_def split: option.splits if_splits)
  then show ?thesis by (auto simp: ran_def)
qed simp

lemma effective_chosen:
  assumes "builder_ready b"
  shows "\<exists>cs \<in> choices b p. effectivePeerBindings b p env =
    map lock_binding (CanonicalPeerBindings (map2 chosen_binding (ibRequirements b p) cs))"
proof -
  from requirement_binding_chosen [OF assms] obtain f where
    f: "\<And>r. f r \<in> insert None (Some ` ran (ibPackages b))" "\<And>r. requirement_binding (ibPackages b) env r = chosen_binding r (f r)"
    by metis
  let ?cs = "map f (ibRequirements b p)"
  have "map2 chosen_binding (ibRequirements b p) ?cs = map (requirement_binding (ibPackages b) env) (ibRequirements b p)"
    by (simp add: zip_map2 zip_same_conv_map f(2) comp_def case_prod_unfold)
  moreover have "?cs \<in> choices b p" using f(1) by (auto simp: choices_def)
  ultimately show ?thesis unfolding effectivePeerBindings_def by metis
qed

lemma trim_present: "trim_space '''' = ''''"
  by (simp add: trim_space_def runes.simps)

lemma effective_peers_ok:
  assumes "builder_ready b" and "q \<in> set (effectivePeerBindings b p env)"
  shows "peer_ok (ibPackages b) q" and "lbInstanceID q = ''''"
proof -
  from assms(2) obtain r where r: "r \<in> set (ibRequirements b p)"
      "q = lock_binding (canonical_binding (requirement_binding (ibPackages b) env r))"
    by (auto simp: effectivePeerBindings_def CanonicalPeerBindings_def)
  obtain c where c: "c \<in> insert None (Some ` ran (ibPackages b))" "requirement_binding (ibPackages b) env r = chosen_binding r c"
    using requirement_binding_chosen [OF assms(1)] by blast
  have known: "ibPackages b (trim_space (lpID p)) \<noteq> None" if "c = Some p" for p
    using c(1) that assms(1) by (auto simp: ran_def builder_ready_def)
  show "lbInstanceID q = ''''" by (simp add: r(2) lock_binding_def)
  show "peer_ok (ibPackages b) q"
    using assms(1) r(1) known
    by (cases c) (auto simp: r(2) c(2) peer_ok_def lock_binding_def canonical_binding_def chosen_binding_def builder_ready_def Let_def)
qed

lemma effective_identity_possible:
  assumes "builder_ready b" and "ibPackages b p = Some pkg"
  shows "idiID (NewModuleInstance sha (lpID pkg) (map identity_binding (effectivePeerBindings b p env))) \<in> possible_ids sha b"
proof -
  obtain cs where cs: "cs \<in> choices b p"
      "effectivePeerBindings b p env = map lock_binding (CanonicalPeerBindings (map2 chosen_binding (ibRequirements b p) cs))"
    using effective_chosen [OF assms(1)] by blast
  have "lpID pkg = p" using assms by (auto simp: builder_ready_def)
  then show ?thesis using cs assms(2) by (auto simp: possible_ids_def chosen_identity_def)
qed

section \<open>Finitely many instances\<close>

lemma finite_choices: "finite (ran (ibPackages b)) \<Longrightarrow> finite (choices b p)"
  unfolding choices_def by (rule finite_lists_length_eq) simp

lemma card_choices:
  assumes "finite (ran (ibPackages b))"
  shows "card (choices b p) \<le> Suc (card (ran (ibPackages b))) ^ length (ibRequirements b p)"
proof -
  have "card (insert None (Some ` ran (ibPackages b))) = Suc (card (ran (ibPackages b)))"
    using assms by (simp add: card_image)
  then show ?thesis unfolding choices_def using card_lists_length_eq [of "insert None (Some ` ran (ibPackages b))"] assms by simp
qed


section \<open>Changes of the builder\<close>

lemma fold_opt_inv:
  assumes "\<And>k s. k < length xs \<Longrightarrow> I k s \<Longrightarrow> \<exists>s'. f s (xs ! k) = Some s' \<and> I (Suc k) s'" and "I 0 s"
  shows "\<exists>s'. fold_opt f s xs = Some s' \<and> I (length xs) s'"
  using assms
proof (induction xs arbitrary: s I)
  case (Cons x xs)
  from Cons.prems(1) [of 0 s] Cons.prems(2) obtain s1 where s1: "f s x = Some s1" "I 1 s1" by auto
  have "\<exists>s'. fold_opt f s1 xs = Some s' \<and> I (Suc (length xs)) s'"
    by (rule Cons.IH [of "\<lambda>k. I (Suc k)"]) (use Cons.prems(1) s1(2) in \<open>force+\<close>)
  with s1(1) show ?case by simp
qed simp

text \<open>The entry of the call that is running: it has read the first dependencies and linked the first peers.\<close>

definition running_entry ::
  "instance_builder \<Rightarrow> string \<Rightarrow> string \<Rightarrow> lock_peer list \<Rightarrow> lock_edge list \<Rightarrow> lock_instance \<Rightarrow> bool" where
  "running_entry b i p peers es x \<longleftrightarrow>
     x \<in> set (ibInstances b) \<and> liID x = i \<and> liPackageID x = p \<and> liPeers x = peers \<and>
     map dependency_reading (liDependencies x) = map (edge_reading (ibPackages b)) es"

lemma builder_unique:
  "builder_ok sha b \<Longrightarrow> x \<in> set (ibInstances b) \<Longrightarrow> y \<in> set (ibInstances b) \<Longrightarrow> liID x = liID y \<Longrightarrow> x = y"
  by (auto simp: builder_ok_def distinct_map dest: inj_onD)

lemma update_reads [simp]:
  "ibPackages (update_instance i f b) = ibPackages b" "ibRequirements (update_instance i f b) = ibRequirements b"
  "ibEdges (update_instance i f b) = ibEdges b" "ibVisiting (update_instance i f b) = ibVisiting b"
  by (simp_all add: update_instance_def)

lemma update_possible [simp]: "possible_ids sha (update_instance i f b) = possible_ids sha b"
  by (simp add: possible_ids_def choices_def chosen_identity_def)

lemma update_ready [simp]: "builder_ready (update_instance i f b) = builder_ready b"
  by (simp add: builder_ready_def)

lemma update_ids: "(\<And>x. liID (f x) = liID x) \<Longrightarrow> instance_ids (update_instance i f b) = instance_ids b"
proof -
  assume id: "\<And>x. liID (f x) = liID x"
  have "map liID (ibInstances (update_instance i f b)) = map liID (ibInstances b)"
    by (simp add: update_instance_def comp_def id)
  then have "set (map liID (ibInstances (update_instance i f b))) = set (map liID (ibInstances b))" by simp
  then show ?thesis by (simp add: instance_ids_def)
qed

lemma update_ok:
  assumes ok: "builder_ok sha b" and id: "\<And>x. liID (f x) = liID x" and vis: "i \<in> set (ibVisiting b)"
    and x: "x \<in> set (ibInstances b)" "liID x = i"
    and fx: "instance_sound sha (ibPackages b) (f x)" "instance_closed (instance_ids b) (f x)"
  shows "builder_ok sha (update_instance i f b)"
proof -
  have ids: "instance_ids (update_instance i f b) = instance_ids b" by (rule update_ids) (rule id)
  have entry: "y = (if liID z = i then f x else z)"
    if "z \<in> set (ibInstances b)" "y = (if liID z = i then f z else z)" for y z
    using builder_unique [OF ok that(1) x(1)] x(2) that(2) by auto
  have "map liID (ibInstances (update_instance i f b)) = map liID (ibInstances b)"
    by (simp add: update_instance_def comp_def id)
  moreover have "instance_sound sha (ibPackages b) y \<and> instance_closed (instance_ids b) y \<and>
      (liID y \<in> set (ibVisiting b) \<or> instance_complete (ibPackages b) (ibEdges b) y)"
    if "y \<in> set (ibInstances (update_instance i f b))" for y
  proof -
    from that obtain z where z: "z \<in> set (ibInstances b)" "y = (if liID z = i then f z else z)"
      by (auto simp: update_instance_def)
    show ?thesis
    proof (cases "liID z = i")
      case True
      with entry [OF z] have "y = f x" by simp
      then show ?thesis using fx vis x(2) id by simp
    next
      case False
      with z have "y = z" by simp
      then show ?thesis using z(1) ok by (auto simp: builder_ok_def)
    qed
  qed
  ultimately show ?thesis using ok by (simp add: builder_ok_def ids)
qed

lemma update_keeps:
  "liID x \<noteq> i \<Longrightarrow> x \<in> set (ibInstances b) \<Longrightarrow> x \<in> set (ibInstances (update_instance i f b))"
  by (auto simp: update_instance_def image_iff intro!: bexI [of _ x])

lemma update_entry:
  "x \<in> set (ibInstances b) \<Longrightarrow> liID x = i \<Longrightarrow> f x \<in> set (ibInstances (update_instance i f b))"
  by (auto simp: update_instance_def image_iff intro!: bexI [of _ x])

text \<open>What holds between the start of a call and a point inside it, where \<open>i\<close> is on the stack.\<close>

definition builder_inside :: "instance_builder \<Rightarrow> string \<Rightarrow> instance_builder \<Rightarrow> bool" where
  "builder_inside b i b' \<longleftrightarrow>
     ibPackages b' = ibPackages b \<and> ibRequirements b' = ibRequirements b \<and> ibEdges b' = ibEdges b \<and>
     ibVisiting b' = i # ibVisiting b \<and> instance_ids b \<subseteq> instance_ids b' \<and> i \<in> instance_ids b' \<and>
     (\<forall>x \<in> set (ibInstances b). liID x \<in> set (ibVisiting b) \<longrightarrow> x \<in> set (ibInstances b'))"

lemma inside_extends:
  "builder_inside b i b1 \<Longrightarrow> builder_extends b1 b2 \<Longrightarrow> builder_inside b i b2"
  unfolding builder_inside_def builder_extends_def by (auto; meson subsetD)

lemma inside_update:
  assumes "builder_inside b i b1" "\<And>x. liID (f x) = liID x" "i \<notin> set (ibVisiting b)"
  shows "builder_inside b i (update_instance i f b1)"
proof -
  have "x \<in> set (ibInstances (update_instance i f b1))"
    if "x \<in> set (ibInstances b)" "liID x \<in> set (ibVisiting b)" for x
  proof (rule update_keeps)
    show "liID x \<noteq> i" using assms(3) that(2) by auto
    show "x \<in> set (ibInstances b1)" using assms(1) that by (simp add: builder_inside_def)
  qed
  then show ?thesis using assms(1) update_ids [of f i b1, OF assms(2)] by (simp add: builder_inside_def)
qed

lemma inside_reads:
  "builder_inside b i b1 \<Longrightarrow> builder_ready b1 = builder_ready b"
  "builder_inside b i b1 \<Longrightarrow> possible_ids sha b1 = possible_ids sha b"
  by (simp_all add: builder_inside_def builder_ready_def possible_ids_def choices_def chosen_identity_def)

lemma pop_ok:
  assumes ok: "builder_ok sha b" and x: "x \<in> set (ibInstances b)" "liID x = i"
    and complete: "instance_complete (ibPackages b) (ibEdges b) x"
  shows "builder_ok sha (b\<lparr>ibVisiting := removeAll i (ibVisiting b)\<rparr>)"
proof -
  let ?b = "b\<lparr>ibVisiting := removeAll i (ibVisiting b)\<rparr>"
  have ids: "instance_ids ?b = instance_ids b" by (simp add: instance_ids_def)
  have pos: "possible_ids sha ?b = possible_ids sha b" by (simp add: possible_ids_def choices_def chosen_identity_def)
  have "liID y \<in> set (removeAll i (ibVisiting b)) \<or> instance_complete (ibPackages b) (ibEdges b) y"
    if "y \<in> set (ibInstances b)" for y
    using builder_unique [OF ok that x(1)] x(2) complete ok that by (auto simp: builder_ok_def)
  then show ?thesis using ok unfolding builder_ok_def ids pos by auto
qed

lemma push_ok:
  assumes ok: "builder_ok sha b" and new: "i \<notin> instance_ids b" and x: "liID x = i"
    and sound: "instance_sound sha (ibPackages b) x" "instance_closed {} x" and pos: "i \<in> possible_ids sha b"
  shows "builder_ok sha (b\<lparr>ibInstances := ibInstances b @ [x], ibVisiting := i # ibVisiting b\<rparr>)"
proof -
  let ?b = "b\<lparr>ibInstances := ibInstances b @ [x], ibVisiting := i # ibVisiting b\<rparr>"
  have ids: "instance_ids ?b = insert i (instance_ids b)" by (simp add: instance_ids_def x)
  have p: "possible_ids sha ?b = possible_ids sha b" by (simp add: possible_ids_def choices_def chosen_identity_def)
  have mono: "instance_closed B y" if "instance_closed A y" "A \<subseteq> B" for A B y
    using that by (auto simp: instance_closed_def)
  have "instance_sound sha (ibPackages b) y \<and> instance_closed (insert i (instance_ids b)) y \<and>
      (liID y \<in> set (i # ibVisiting b) \<or> instance_complete (ibPackages b) (ibEdges b) y)"
    if "y \<in> set (ibInstances b @ [x])" for y
  proof (cases "y = x")
    case True
    then show ?thesis using sound x mono [of "{}" x "insert i (instance_ids b)"] by simp
  next
    case False
    then have "y \<in> set (ibInstances b)" using that by simp
    then have "instance_sound sha (ibPackages b) y" "instance_closed (instance_ids b) y"
        "liID y \<in> set (ibVisiting b) \<or> instance_complete (ibPackages b) (ibEdges b) y"
      using ok by (simp_all add: builder_ok_def)
    then show ?thesis using mono [of "instance_ids b" y "insert i (instance_ids b)"] by auto
  qed
  moreover have "distinct (map liID (ibInstances b @ [x]))"
    using ok new x by (simp add: builder_ok_def instance_ids_def)
  ultimately show ?thesis using ok pos unfolding builder_ok_def ids p by (simp; blast)
qed


section \<open>A call returns\<close>

definition call_post :: "(string \<Rightarrow> string) \<Rightarrow> instance_builder \<Rightarrow> string \<Rightarrow> string \<Rightarrow> instance_builder \<Rightarrow> bool" where
  "call_post sha b p i b' \<longleftrightarrow> builder_ok sha b' \<and> builder_extends b b' \<and>
     (case ibPackages b p of None \<Rightarrow> i = ''''
      | Some _ \<Rightarrow> i \<in> instance_ids b' \<and> i \<noteq> '''' \<and> (\<exists>bs. i = idiID (NewModuleInstance sha p bs)))"

definition call_returns :: "(string \<Rightarrow> string) \<Rightarrow> nat \<Rightarrow> bool" where
  "call_returns sha fuel \<longleftrightarrow>
     (\<forall>p env b. builder_ready b \<longrightarrow> builder_ok sha b \<longrightarrow> card (possible_ids sha b - instance_ids b) < fuel \<longrightarrow>
        (\<exists>i b'. instantiate sha fuel p env b = Some (i, b') \<and> call_post sha b p i b'))"

lemma finite_possible: "builder_ready b \<Longrightarrow> finite (possible_ids sha b)"
  unfolding possible_ids_def builder_ready_def
  by (auto intro!: finite_UN_I finite_imageI finite_choices finite_ran)

text \<open>Inside a call there are fewer identities left than at its start.\<close>

lemma inside_less:
  assumes "builder_ready b" "builder_inside b i s" "i \<in> possible_ids sha b" "i \<notin> instance_ids b"
    and "card (possible_ids sha b - instance_ids b) < Suc fuel"
  shows "card (possible_ids sha s - instance_ids s) < fuel"
proof -
  have "possible_ids sha s - instance_ids s \<subseteq> (possible_ids sha b - instance_ids b) - {i}"
    using assms(2) by (auto simp: inside_reads builder_inside_def)
  then have "card (possible_ids sha s - instance_ids s) \<le> card ((possible_ids sha b - instance_ids b) - {i})"
    using finite_possible [OF assms(1)] by (intro card_mono) auto
  also have "\<dots> < card (possible_ids sha b - instance_ids b)"
    using finite_possible [OF assms(1)] assms(3,4) by (intro card_Diff1_less) auto
  finally show ?thesis using assms(5) by simp
qed

definition unlinked :: "lock_peer \<Rightarrow> lock_peer" where
  "unlinked q = q\<lparr>lbInstanceID := ''''\<rparr>"

lemma sound_unlinked:
  assumes "map unlinked (liPeers x) = map unlinked (liPeers y)" "liID x = liID y" "liPackageID x = liPackageID y"
    "liPeerContextID x = liPeerContextID y" "instance_sound sha m y"
  shows "instance_sound sha m x"
proof -
  have id: "map identity_binding qs = map identity_binding (map unlinked qs)" for qs
    by (simp add: identity_binding_def unlinked_def comp_def)
  have ok: "list_all (peer_ok m) qs = list_all (peer_ok m) (map unlinked qs)" for qs
    by (simp add: list_all_iff peer_ok_def unlinked_def)
  show ?thesis
    using assms id [of "liPeers x"] id [of "liPeers y"] ok [of "liPeers x"] ok [of "liPeers y"]
    by (simp add: instance_sound_def instance_identity_def)
qed

text \<open>The state of the two loops of a call of \<open>p\<close> that has made the entry \<open>i\<close>.\<close>

definition loop_state ::
  "(string \<Rightarrow> string) \<Rightarrow> instance_builder \<Rightarrow> string \<Rightarrow> string \<Rightarrow> lock_peer list \<Rightarrow> lock_edge list \<Rightarrow> instance_builder \<Rightarrow> bool" where
  "loop_state sha b i p qs es s \<longleftrightarrow>
     builder_inside b i s \<and> builder_ok sha s \<and> (\<exists>x. running_entry s i p qs es x)"

lemma loop_call:
  assumes "call_returns sha fuel" and "builder_ready b" and "loop_state sha b i p qs es s"
    and "i \<in> possible_ids sha b" "i \<notin> instance_ids b" "card (possible_ids sha b - instance_ids b) < Suc fuel"
    and "ibPackages b t \<noteq> None"
  shows "\<exists>d s'. instantiate sha fuel t env s = Some (d, s') \<and> loop_state sha b i p qs es s' \<and> d \<noteq> '''' \<and> d \<in> instance_ids s'"
proof -
  have inside: "builder_inside b i s" and ok: "builder_ok sha s" using assms(3) by (simp_all add: loop_state_def)
  obtain x where x: "running_entry s i p qs es x" using assms(3) by (auto simp: loop_state_def)
  have "builder_ready s" using inside_reads(1) [OF inside] assms(2) by simp
  with assms(1) ok inside_less [OF assms(2) inside assms(4-6)] obtain d s' where
    call: "instantiate sha fuel t env s = Some (d, s')" "call_post sha s t d s'"
    unfolding call_returns_def by blast
  have ext: "builder_extends s s'" "builder_ok sha s'" using call(2) by (simp_all add: call_post_def)
  have "ibPackages s = ibPackages b" "i \<in> set (ibVisiting s)" using inside by (simp_all add: builder_inside_def)
  then have d: "d \<noteq> ''''" "d \<in> instance_ids s'" using call(2) assms(7) by (auto simp: call_post_def)
  have "running_entry s' i p qs es x"
    using x ext(1) \<open>i \<in> set (ibVisiting s)\<close> by (simp add: running_entry_def builder_extends_def)
  then have "loop_state sha b i p qs es s'" using inside_extends [OF inside ext(1)] ext(2) by (auto simp: loop_state_def)
  with call(1) d show ?thesis by blast
qed

lemma loop_update:
  assumes "loop_state sha b i p qs es s" and "i \<notin> set (ibVisiting b)"
    and id: "\<And>x. liID (f x) = liID x" "\<And>x. liPackageID (f x) = liPackageID x" "\<And>x. liPeerContextID (f x) = liPeerContextID x"
    and entry: "\<And>x. running_entry s i p qs es x \<Longrightarrow> instance_closed (instance_ids s) x \<Longrightarrow>
        map unlinked (liPeers (f x)) = map unlinked (liPeers x) \<and> instance_closed (instance_ids s) (f x) \<and> liPeers (f x) = qs' \<and>
        map dependency_reading (liDependencies (f x)) = map (edge_reading (ibPackages s)) es'"
  shows "loop_state sha b i p qs' es' (update_instance i f s)"
proof -
  have inside: "builder_inside b i s" and ok: "builder_ok sha s" using assms(1) by (simp_all add: loop_state_def)
  obtain x where x: "running_entry s i p qs es x" using assms(1) by (auto simp: loop_state_def)
  then have mem: "x \<in> set (ibInstances s)" "liID x = i" "liPackageID x = p" by (simp_all add: running_entry_def)
  then have sc: "instance_sound sha (ibPackages s) x" "instance_closed (instance_ids s) x"
    using ok by (simp_all add: builder_ok_def)
  note fx = entry [OF x sc(2)]
  have "instance_sound sha (ibPackages s) (f x)" by (rule sound_unlinked [OF _ id sc(1)]) (rule conjunct1 [OF fx])
  then have "builder_ok sha (update_instance i f s)"
    by (intro update_ok [OF ok id(1) _ mem(1,2)]) (use inside fx in \<open>simp_all add: builder_inside_def\<close>)
  moreover have "running_entry (update_instance i f s) i p qs' es' (f x)"
    using update_entry [OF mem(1,2)] fx id mem by (simp add: running_entry_def)
  ultimately show ?thesis using inside_update [OF inside id(1) assms(2)] by (auto simp: loop_state_def)
qed


lemma dependency_loop:
  assumes ret: "call_returns sha fuel" and ready: "builder_ready b" and start: "loop_state sha b i p qs [] s"
    and i: "i \<in> possible_ids sha b" "i \<notin> instance_ids b" "i \<notin> set (ibVisiting b)"
    and budget: "card (possible_ids sha b - instance_ids b) < Suc fuel"
    and edges: "\<forall>e \<in> set es. ibPackages b (leTo e) \<noteq> None"
  shows "\<exists>s'. fold_opt (\<lambda>b e. map_option (note_dependency i e) (instantiate sha fuel (leTo e) child b)) s es = Some s' \<and> loop_state sha b i p qs es s'"
proof -
  let ?f = "\<lambda>b e. map_option (note_dependency i e) (instantiate sha fuel (leTo e) child b)"
  have "\<exists>s'. fold_opt ?f s es = Some s' \<and> loop_state sha b i p qs (take (length es) es) s'"
  proof (rule fold_opt_inv)
    show "loop_state sha b i p qs (take 0 es) s" using start by simp
    fix k t
    assume k: "k < length es" and t: "loop_state sha b i p qs (take k es) t"
    have "ibPackages b (leTo (es ! k)) \<noteq> None" using edges k by simp
    from loop_call [OF ret ready t i(1,2) budget this, of child] obtain d t' where
      d: "instantiate sha fuel (leTo (es ! k)) child t = Some (d, t')" "loop_state sha b i p qs (take k es) t'"
        "d \<noteq> ''''" "d \<in> instance_ids t'" by blast
    define g where "g = (\<lambda>x :: lock_instance. x\<lparr>liDependencies := liDependencies x @
         [\<lparr>idReference = moduleReference (leReference (es ! k)) (package_at (ibPackages t') (leTo (es ! k))),
           idKind = leKind (es ! k), idInstanceID = d\<rparr>]\<rparr>)"
    have "loop_state sha b i p qs (take (Suc k) es) (update_instance i g t')"
    proof (rule loop_update [OF d(2) i(3)])
      fix x
      assume x: "running_entry t' i p qs (take k es) x" "instance_closed (instance_ids t') x"
      show "map unlinked (liPeers (g x)) = map unlinked (liPeers x) \<and> instance_closed (instance_ids t') (g x) \<and>
          liPeers (g x) = qs \<and>
          map dependency_reading (liDependencies (g x)) = map (edge_reading (ibPackages t')) (take (Suc k) es)"
        using x d(4) k
        by (simp add: g_def running_entry_def instance_closed_def dependency_reading_def edge_reading_def take_Suc_conv_app_nth)
    qed (simp_all add: g_def)
    then show "\<exists>t'. ?f t (es ! k) = Some t' \<and> loop_state sha b i p qs (take (Suc k) es) t'"
      using d(1,3) by (simp add: g_def note_dependency_def)
  qed
  then show ?thesis by simp
qed

text \<open>The peers after the first \<open>k\<close> have been linked.\<close>

definition linked_upto :: "lock_peer list \<Rightarrow> nat \<Rightarrow> lock_peer list \<Rightarrow> bool" where
  "linked_upto peers k qs \<longleftrightarrow>
     map unlinked qs = map unlinked peers \<and>
     (\<forall>j < k. j < length peers \<longrightarrow> lbState (peers ! j) = ''present'' \<longrightarrow> lbInstanceID (qs ! j) \<noteq> '''')"

lemma linked_length: "linked_upto peers k qs \<Longrightarrow> length qs = length peers"
  unfolding linked_upto_def by (metis length_map)

lemma linked_step:
  assumes "linked_upto peers k qs" "k < length peers" "d \<noteq> ''''"
  shows "linked_upto peers (Suc k) (qs[k := (qs ! k)\<lparr>lbInstanceID := d\<rparr>])"
proof -
  have len: "length qs = length peers" by (rule linked_length [OF assms(1)])
  have "map unlinked (qs[k := (qs ! k)\<lparr>lbInstanceID := d\<rparr>]) = (map unlinked qs)[k := unlinked (qs ! k)]"
    by (simp add: map_update unlinked_def)
  also have "\<dots> = map unlinked qs" using len assms(2) by (metis list_update_id nth_map)
  finally show ?thesis using assms len by (auto simp: linked_upto_def less_Suc_eq)
qed

lemma linked_skip:
  "linked_upto peers k qs \<Longrightarrow> lbState (peers ! k) \<noteq> ''present'' \<Longrightarrow> linked_upto peers (Suc k) qs"
  by (auto simp: linked_upto_def less_Suc_eq)

lemma linked_all: "linked_upto peers (length peers) qs \<Longrightarrow> peers_linked qs"
proof -
  assume l: "linked_upto peers (length peers) qs"
  have len: "length qs = length peers" by (rule linked_length [OF l])
  have "lbState (qs ! j) = lbState (peers ! j)" if "j < length peers" for j
  proof -
    have "unlinked (qs ! j) = unlinked (peers ! j)" using l that len by (metis linked_upto_def nth_map)
    then have "lbState (unlinked (qs ! j)) = lbState (unlinked (peers ! j))" by simp
    then show ?thesis by (simp add: unlinked_def)
  qed
  then show ?thesis using l len by (auto simp: peers_linked_def linked_upto_def in_set_conv_nth)
qed


lemma peer_loop:
  assumes ret: "call_returns sha fuel" and ready: "builder_ready b" and start: "loop_state sha b i p peers es s"
    and i: "i \<in> possible_ids sha b" "i \<notin> instance_ids b" "i \<notin> set (ibVisiting b)"
    and budget: "card (possible_ids sha b - instance_ids b) < Suc fuel"
    and peers: "\<forall>q \<in> set peers. peer_ok (ibPackages b) q"
  shows "\<exists>s' qs. fold_opt (\<lambda>b k. if lbState (peers ! k) = ''present''
       then map_option (note_peer i k) (instantiate sha fuel (lbRealizationID (peers ! k)) env b)
       else Some b) s [0..<length peers] = Some s' \<and> loop_state sha b i p qs es s' \<and> peers_linked qs"
proof -
  let ?f = "\<lambda>b k. if lbState (peers ! k) = ''present''
       then map_option (note_peer i k) (instantiate sha fuel (lbRealizationID (peers ! k)) env b)
       else Some b"
  let ?I = "\<lambda>k t. \<exists>qs. linked_upto peers k qs \<and> loop_state sha b i p qs es t"
  have "\<exists>s'. fold_opt ?f s [0..<length peers] = Some s' \<and> ?I (length [0..<length peers]) s'"
  proof (rule fold_opt_inv)
    show "?I 0 s" using start by (auto simp: linked_upto_def)
    fix k t
    assume k: "k < length [0..<length peers]" and "?I k t"
    then obtain qs where qs: "linked_upto peers k qs" "loop_state sha b i p qs es t" by blast
    have k': "k < length peers" "[0..<length peers] ! k = k" using k by simp_all
    show "\<exists>t'. ?f t ([0..<length peers] ! k) = Some t' \<and> ?I (Suc k) t'"
    proof (cases "lbState (peers ! k) = ''present''")
      case False
      then show ?thesis using qs linked_skip [OF qs(1) False] k' by auto
    next
      case True
      have "peer_ok (ibPackages b) (peers ! k)" using peers k'(1) by simp
      then have "ibPackages b (lbRealizationID (peers ! k)) \<noteq> None" using True by (simp add: peer_ok_def)
      from loop_call [OF ret ready qs(2) i(1,2) budget this, of env] obtain d t' where
        d: "instantiate sha fuel (lbRealizationID (peers ! k)) env t = Some (d, t')" "loop_state sha b i p qs es t'"
          "d \<noteq> ''''" "d \<in> instance_ids t'" by blast
      define g where "g = (\<lambda>x :: lock_instance. x\<lparr>liPeers := (liPeers x)[k := (liPeers x ! k)\<lparr>lbInstanceID := d\<rparr>]\<rparr>)"
      let ?qs = "qs[k := (qs ! k)\<lparr>lbInstanceID := d\<rparr>]"
      have len: "length qs = length peers" by (rule linked_length [OF qs(1)])
      have linked: "linked_upto peers (Suc k) ?qs" by (rule linked_step [OF qs(1) k'(1) d(3)])
      then have unl: "map unlinked ?qs = map unlinked qs" using qs(1) by (simp add: linked_upto_def)
      have "loop_state sha b i p ?qs es (update_instance i g t')"
      proof (rule loop_update [OF d(2) i(3)])
        fix x
        assume x: "running_entry t' i p qs es x" "instance_closed (instance_ids t') x"
        then have gx: "liPeers (g x) = ?qs" "liPeers x = qs" "liDependencies (g x) = liDependencies x"
          by (simp_all add: g_def running_entry_def)
        have "instance_closed (instance_ids t') (g x)"
          using x(2) d(4) set_update_subset_insert [of qs k "(qs ! k)\<lparr>lbInstanceID := d\<rparr>"]
          unfolding instance_closed_def gx by auto
        then show "map unlinked (liPeers (g x)) = map unlinked (liPeers x) \<and> instance_closed (instance_ids t') (g x) \<and>
            liPeers (g x) = ?qs \<and>
            map dependency_reading (liDependencies (g x)) = map (edge_reading (ibPackages t')) es"
          using x(1) unl gx by (simp add: running_entry_def)
      qed (simp_all add: g_def)
      then show ?thesis using d(1) True linked k'(2) by (auto simp: g_def note_peer_def)
    qed
  qed
  then show ?thesis using linked_all by auto
qed

lemma instance_id_nonempty [simp]: "idiID (NewModuleInstance sha p bs) \<noteq> ''''"
  by (simp add: NewModuleInstance_def Let_def)

lemma built_instance_iff: "built_instance b i \<noteq> None \<longleftrightarrow> i \<in> instance_ids b"
  by (auto simp: built_instance_def instance_ids_def find_None_iff)

lemma new_entry_state:
  assumes ok: "builder_ok sha b" and new: "i \<notin> instance_ids b"
    and x: "liID x = i \<and> liPackageID x = p \<and> liPeers x = peers \<and> liDependencies x = []"
    and sound: "instance_sound sha (ibPackages b) x \<and> instance_closed {} x" and pos: "i \<in> possible_ids sha b"
  shows "loop_state sha b i p peers [] (b\<lparr>ibInstances := ibInstances b @ [x], ibVisiting := i # ibVisiting b\<rparr>)"
    (is "loop_state _ _ _ _ _ _ ?b")
proof -
  have "builder_ok sha ?b" by (rule push_ok [OF ok new]) (use x sound pos in simp_all)
  moreover have "builder_inside b i ?b" using x by (auto simp: builder_inside_def instance_ids_def)
  moreover have "running_entry ?b i p peers [] x" using x by (simp add: running_entry_def)
  ultimately show ?thesis by (auto simp: loop_state_def)
qed

lemma loop_end:
  assumes state: "loop_state sha b i p qs (ibEdges b p) s" and linked: "peers_linked qs" and vis: "i \<notin> set (ibVisiting b)"
    and pkg: "ibPackages b p = Some pkg" and i: "i \<noteq> '''' \<and> (\<exists>bs. i = idiID (NewModuleInstance sha p bs))"
  shows "call_post sha b p i (s\<lparr>ibVisiting := removeAll i (ibVisiting s)\<rparr>)"
proof -
  let ?s = "s\<lparr>ibVisiting := removeAll i (ibVisiting s)\<rparr>"
  from state obtain x where inside: "builder_inside b i s" and ok: "builder_ok sha s"
    and x: "running_entry s i p qs (ibEdges b p) x" by (auto simp: loop_state_def)
  have mem: "x \<in> set (ibInstances s)" "liID x = i" using x by (simp_all add: running_entry_def)
  have "instance_complete (ibPackages s) (ibEdges s) x"
    using x linked inside by (simp add: instance_complete_def running_entry_def builder_inside_def)
  from pop_ok [OF ok mem this] have "builder_ok sha ?s" .
  moreover have "builder_extends b ?s"
    using inside vis by (auto simp: builder_inside_def builder_extends_def instance_ids_def removeAll_id)
  moreover have "i \<in> instance_ids ?s" using mem by (auto simp: instance_ids_def)
  ultimately show ?thesis using pkg i by (simp add: call_post_def)
qed

lemma instantiate_new:
  assumes "ibPackages b p = Some pkg" and "peers = effectivePeerBindings b p env"
    and "ident = NewModuleInstance sha (lpID pkg) (map identity_binding peers)" and "i = idiID ident"
    and "i \<notin> instance_ids b" "i \<notin> set (ibVisiting b)"
    and "b2 = b\<lparr>ibInstances := ibInstances b @ [\<lparr>liID = i, liPackageID = lpID pkg,
      liPeerContextID = pcID (idiPeerContext ident), liPeers = peers, liDependencies = []\<rparr>], ibVisiting := i # ibVisiting b\<rparr>"
  shows "instantiate sha (Suc fuel) p env b =
    Option.bind (fold_opt (\<lambda>b e. map_option (note_dependency i e)
        (instantiate sha fuel (leTo e) (child_environment b2 p peers env) b)) b2 (ibEdges b p))
      (\<lambda>b3. map_option (\<lambda>b4. (i, b4\<lparr>ibVisiting := removeAll i (ibVisiting b4)\<rparr>))
         (fold_opt (\<lambda>b k. if lbState (peers ! k) = ''present''
             then map_option (note_peer i k) (instantiate sha fuel (lbRealizationID (peers ! k)) env b)
             else Some b) b3 [0..<length peers]))"
proof -
  have none: "built_instance b i = None" using assms(5) built_instance_iff [of b i] by simp
  show ?thesis
    unfolding instantiate.simps(2) assms(1) option.case Let_def
    unfolding assms(2) [symmetric] unfolding assms(3) [symmetric] unfolding assms(4) [symmetric]
    using assms(6) none by (simp add: assms(7))
qed

lemma instantiate_known:
  assumes "ibPackages b p = Some pkg"
    and "idiID (NewModuleInstance sha (lpID pkg) (map identity_binding (effectivePeerBindings b p env))) \<in> instance_ids b"
  shows "instantiate sha (Suc fuel) p env b =
    Some (idiID (NewModuleInstance sha (lpID pkg) (map identity_binding (effectivePeerBindings b p env))), b)"
  using assms built_instance_iff [of b "idiID (NewModuleInstance sha (lpID pkg) (map identity_binding (effectivePeerBindings b p env)))"]
  by (simp add: instantiate.simps Let_def)

lemma call_step:
  assumes ret: "call_returns sha fuel"
  shows "call_returns sha (Suc fuel)"
  unfolding call_returns_def
proof (intro allI impI)
  fix p env b
  assume ready: "builder_ready b" and ok: "builder_ok sha b"
    and budget: "card (possible_ids sha b - instance_ids b) < Suc fuel"
  show "\<exists>i b'. instantiate sha (Suc fuel) p env b = Some (i, b') \<and> call_post sha b p i b'"
  proof (cases "ibPackages b p")
    case None
    then show ?thesis using ok by (simp add: instantiate.simps call_post_def)
  next
    case (Some pkg)
    then have pkg: "lpID pkg = p" using ready by (simp add: builder_ready_def)
    define peers where "peers = effectivePeerBindings b p env"
    define ident where "ident = NewModuleInstance sha (lpID pkg) (map identity_binding peers)"
    define i where "i = idiID ident"
    show ?thesis
    proof (cases "i \<in> instance_ids b")
      case True
      then have "instantiate sha (Suc fuel) p env b = Some (i, b)"
        using instantiate_known [OF Some] by (simp add: i_def ident_def peers_def)
      then show ?thesis using True ok Some by (auto simp: call_post_def i_def ident_def pkg)
    next
      case False
      have vis: "i \<notin> set (ibVisiting b)" using False ok by (auto simp: builder_ok_def)
      have pos: "i \<in> possible_ids sha b"
        using effective_identity_possible [OF ready Some, of sha env] by (simp add: i_def ident_def peers_def)
      have peers_ok: "\<forall>q \<in> set peers. peer_ok (ibPackages b) q"
        using effective_peers_ok(1) [OF ready] by (simp add: peers_def)
      define x where "x = \<lparr>liID = i, liPackageID = lpID pkg, liPeerContextID = pcID (idiPeerContext ident),
          liPeers = peers, liDependencies = []\<rparr>"
      define b2 where "b2 = b\<lparr>ibInstances := ibInstances b @ [x], ibVisiting := i # ibVisiting b\<rparr>"
      have start: "loop_state sha b i p peers [] b2"
        unfolding b2_def by (rule new_entry_state [OF ok False _ _ pos])
          (use peers_ok Some pkg effective_peers_ok(2) [OF ready] in
            \<open>auto simp: x_def i_def ident_def instance_sound_def instance_identity_def list_all_iff instance_closed_def peers_def\<close>)
      have edges: "\<forall>e \<in> set (ibEdges b p). ibPackages b (leTo e) \<noteq> None" using ready by (simp add: builder_ready_def)
      note args = pos False vis budget
      note step = instantiate_new [OF Some peers_def ident_def i_def False vis b2_def [unfolded x_def], of fuel]
      from dependency_loop [OF ret ready start args edges, of "child_environment b2 p peers env"] obtain b3 where
        b3: "fold_opt (\<lambda>b e. map_option (note_dependency i e)
            (instantiate sha fuel (leTo e) (child_environment b2 p peers env) b)) b2 (ibEdges b p) = Some b3"
          "loop_state sha b i p peers (ibEdges b p) b3" by blast
      from peer_loop [OF ret ready b3(2) args peers_ok, of env] obtain b4 qs where
        b4: "fold_opt (\<lambda>b k. if lbState (peers ! k) = ''present''
            then map_option (note_peer i k) (instantiate sha fuel (lbRealizationID (peers ! k)) env b)
            else Some b) b3 [0..<length peers] = Some b4"
          "loop_state sha b i p qs (ibEdges b p) b4" "peers_linked qs" by blast
      have "instantiate sha (Suc fuel) p env b = Some (i, b4\<lparr>ibVisiting := removeAll i (ibVisiting b4)\<rparr>)"
        unfolding step b3(1) by (simp add: b4(1))
      moreover have "call_post sha b p i (b4\<lparr>ibVisiting := removeAll i (ibVisiting b4)\<rparr>)"
        by (rule loop_end [OF b4(2,3) vis Some]) (auto simp: i_def ident_def pkg)
      ultimately show ?thesis by blast
    qed
  qed
qed


theorem calls_return: "call_returns sha fuel"
proof (induction fuel)
  case 0
  show ?case by (simp add: call_returns_def)
qed (rule call_step)

section \<open>The lock file\<close>

definition requirement_named :: "lock_requirement \<Rightarrow> bool" where
  "requirement_named r \<longleftrightarrow>
     trim_space (lrReference r) \<noteq> '''' \<and> trim_space (lrTargetSource r) \<noteq> '''' \<and> trim_space (lrTargetName r) \<noteq> ''''"

text \<open>Packages with identities, names and sources, and peer requirements that name their target.\<close>

definition lock_ready :: "lockfile \<Rightarrow> bool" where
  "lock_ready lf \<longleftrightarrow>
     list_all (\<lambda>p. package_complete p \<and> trim_space (lpID p) = lpID p) (lfPackages lf) \<and>
     list_all requirement_named (filter (\<lambda>r. lrKind r = ''peer'') (lfRequirements lf))"

lemma packages_by_id_last:
  "packages_by_id ps i = Some p \<Longrightarrow> p \<in> set ps \<and> lpID p = i"
  "packages_by_id ps i = None \<longleftrightarrow> i \<notin> lpID ` set ps"
proof -
  have snoc: "packages_by_id (ps @ [x]) = (packages_by_id ps)(lpID x \<mapsto> x)" for ps x
    by (simp add: packages_by_id_def)
  show "packages_by_id ps i = Some p \<Longrightarrow> p \<in> set ps \<and> lpID p = i"
    by (induction ps rule: rev_induct) (auto simp: snoc packages_by_id_def [of "[]"] split: if_splits)
  show "packages_by_id ps i = None \<longleftrightarrow> i \<notin> lpID ` set ps"
    by (induction ps rule: rev_induct) (auto simp: snoc packages_by_id_def [of "[]"])
qed

lemma packages_by_id_dom: "dom (packages_by_id ps) = lpID ` set ps"
proof (rule set_eqI)
  show "i \<in> dom (packages_by_id ps) \<longleftrightarrow> i \<in> lpID ` set ps" for i
    using packages_by_id_last(2) [of ps i] by (simp add: domIff)
qed

lemma packages_by_id_ran: "ran (packages_by_id ps) \<subseteq> set ps"
proof
  fix p
  assume "p \<in> ran (packages_by_id ps)"
  then obtain i where "packages_by_id ps i = Some p" by (auto simp: ran_def)
  from packages_by_id_last(1) [OF this] show "p \<in> set ps" by simp
qed

lemma start_reads:
  "ibPackages (instance_start lf) = packages_by_id (lfPackages lf)"
  "ibRequirements (instance_start lf) = peerRequirementsByPackage (lfRequirements lf)"
  "ibEdges (instance_start lf) = packageEdgesByFrom (lfEdges lf) (packages_by_id (lfPackages lf))"
  "ibInstances (instance_start lf) = []" "ibVisiting (instance_start lf) = []"
  by (simp_all add: instance_start_def Let_def)

lemma start_ready: "lock_ready lf \<Longrightarrow> builder_ready (instance_start lf)"
proof -
  assume ready: "lock_ready lf"
  have "lpID p = i \<and> trim_space i = i" if "packages_by_id (lfPackages lf) i = Some p" for i p
    using packages_by_id_last(1) [OF that] ready by (auto simp: lock_ready_def list_all_iff)
  moreover have "requirement_named r" if "r \<in> set (peerRequirementsByPackage (lfRequirements lf) p)" for r p
    using that ready by (auto simp: peerRequirementsByPackage_def lock_ready_def list_all_iff)
  moreover have "packages_by_id (lfPackages lf) (leTo e) \<noteq> None"
    if "e \<in> set (packageEdgesByFrom (lfEdges lf) (packages_by_id (lfPackages lf)) p)" for e p
    using that by (auto simp: packageEdgesByFrom_def)
  ultimately show ?thesis
    by (simp add: builder_ready_def start_reads packages_by_id_dom requirement_named_def)
qed

lemma start_ok: "builder_ok sha (instance_start lf)"
  by (simp add: builder_ok_def start_reads instance_ids_def)

lemma sum_image_list: "(\<Sum>x \<in> f ` set xs. g x) \<le> (\<Sum>x\<leftarrow>xs. g (f x))" for g :: "'b \<Rightarrow> nat"
proof (induction xs)
  case (Cons x xs)
  have "(\<Sum>y \<in> f ` set (x # xs). g y) \<le> g (f x) + (\<Sum>y \<in> f ` set xs. g y)"
    by (cases "f x \<in> f ` set xs") (simp_all add: insert_absorb)
  with Cons show ?case by simp
qed simp

lemma possible_budget: "card (possible_ids sha (instance_start lf)) \<le> instance_budget lf"
proof -
  let ?b = "instance_start lf" and ?ps = "lfPackages lf"
  let ?g = "\<lambda>p. Suc (length ?ps) ^ length (peerRequirementsByPackage (lfRequirements lf) p)"
  have fin: "finite (ran (ibPackages ?b))"
    unfolding start_reads(1) by (rule finite_subset [OF packages_by_id_ran]) simp
  have "card (ran (ibPackages ?b)) \<le> length ?ps"
    using card_mono [OF _ packages_by_id_ran [of ?ps]] card_length [of ?ps] by (simp add: start_reads)
  then have one: "card (chosen_identity sha ?b p ` choices ?b p) \<le> ?g p" for p
    using card_image_le [OF finite_choices [OF fin], of "chosen_identity sha ?b p" p] card_choices [OF fin, of p]
      power_mono [of "Suc (card (ran (ibPackages ?b)))" "Suc (length ?ps)" "length (ibRequirements ?b p)"]
    by (simp add: start_reads)
  have "card (possible_ids sha ?b) \<le> (\<Sum>p \<in> lpID ` set ?ps. card (chosen_identity sha ?b p ` choices ?b p))"
    unfolding possible_ids_def start_reads(1) packages_by_id_dom by (rule card_UN_le) simp
  also have "\<dots> \<le> (\<Sum>p \<in> lpID ` set ?ps. ?g p)" by (rule sum_mono) (rule one)
  also have "\<dots> \<le> (\<Sum>p\<leftarrow>?ps. ?g (lpID p))" by (rule sum_image_list)
  finally show ?thesis by (simp add: instance_budget_def)
qed

lemma call_from_start:
  assumes "lock_ready lf" "instance_budget lf < fuel" "builder_extends (instance_start lf) b" "builder_ok sha b"
  shows "\<exists>i b'. instantiate sha fuel p env b = Some (i, b') \<and> call_post sha b p i b'"
proof -
  have "builder_ready b" using extends_reads(1) [OF assms(3)] start_ready [OF assms(1)] by simp
  moreover have "card (possible_ids sha b - instance_ids b) < fuel"
  proof -
    have "card (possible_ids sha b - instance_ids b) \<le> card (possible_ids sha (instance_start lf))"
      unfolding extends_reads(2) [OF assms(3)]
      by (intro card_mono finite_possible [OF start_ready [OF assms(1)]]) auto
    with possible_budget [of sha lf] assms(2) show ?thesis by simp
  qed
  ultimately show ?thesis using calls_return assms(4) unfolding call_returns_def by blast
qed


section \<open>Rebuilding\<close>

definition root_reading :: "root_instance \<Rightarrow> string \<times> string \<times> string" where
  "root_reading r = (riFrom r, riReference r, riKind r)"

definition root_edge_reading :: "package_map \<Rightarrow> lock_edge \<Rightarrow> string \<times> string \<times> string" where
  "root_edge_reading m e = (leFrom e, moduleReference (leReference e) (package_at m (leTo e)), leKind e)"

lemma root_loop:
  assumes ready: "lock_ready lf" "instance_budget lf < fuel"
    and edges: "\<forall>e \<in> set es. packages_by_id (lfPackages lf) (leTo e) \<noteq> None"
  shows "\<exists>b roots. fold_opt (rebuild_root sha fuel envs) (instance_start lf, []) es = Some (b, roots) \<and>
    builder_extends (instance_start lf) b \<and> builder_ok sha b \<and>
    map root_reading roots = map (root_edge_reading (packages_by_id (lfPackages lf))) es \<and>
    riInstanceID ` set roots \<subseteq> instance_ids b"
proof -
  let ?m = "packages_by_id (lfPackages lf)"
  let ?I = "\<lambda>k st. builder_extends (instance_start lf) (fst st) \<and> builder_ok sha (fst st) \<and>
    map root_reading (snd st) = map (root_edge_reading ?m) (take k es) \<and> riInstanceID ` set (snd st) \<subseteq> instance_ids (fst st)"
  have "\<exists>st. fold_opt (rebuild_root sha fuel envs) (instance_start lf, []) es = Some st \<and> ?I (length es) st"
  proof (rule fold_opt_inv)
    show "?I 0 (instance_start lf, [])" using start_ok by simp
    fix k st
    assume k: "k < length es" and I: "?I k st"
    obtain b roots where st: "st = (b, roots)" by (cases st)
    define env where "env = (case envs (moduleRootConsumer (leFrom (es ! k))) of None \<Rightarrow> Map.empty | Some env \<Rightarrow> env)"
    have ext: "builder_extends (instance_start lf) b" "builder_ok sha b" using I by (simp_all add: st)
    from call_from_start [OF ready ext, of "leTo (es ! k)" env] obtain i b' where
      call: "instantiate sha fuel (leTo (es ! k)) env b = Some (i, b')" "call_post sha b (leTo (es ! k)) i b'" by blast
    have ext': "builder_extends b b'" "builder_ok sha b'" using call(2) by (simp_all add: call_post_def)
    have m: "ibPackages b = ?m" "ibPackages b' = ?m"
      using ext(1) ext'(1) by (simp_all add: builder_extends_def start_reads)
    have "?m (leTo (es ! k)) \<noteq> None" using edges k by simp
    then have i: "i \<noteq> ''''" "i \<in> instance_ids b'" using call(2) m by (auto simp: call_post_def)
    define r where "r = \<lparr>riFrom = leFrom (es ! k),
        riReference = moduleReference (leReference (es ! k)) (package_at ?m (leTo (es ! k))), riKind = leKind (es ! k), riInstanceID = i\<rparr>"
    have step: "rebuild_root sha fuel envs st (es ! k) = Some (b', roots @ [r])"
      using call(1) i(1) m by (simp add: rebuild_root_def st env_def [symmetric] Let_def r_def)
    have "?I (Suc k) (b', roots @ [r])"
      using I k ext' i(2) extends_trans [OF ext(1) ext'(1)]
      by (auto simp: st r_def root_reading_def root_edge_reading_def take_Suc_conv_app_nth builder_extends_def)
    with step show "\<exists>st'. rebuild_root sha fuel envs st (es ! k) = Some st' \<and> ?I (Suc k) st'" by blast
  qed
  then show ?thesis by auto
qed

lemma rest_loop:
  assumes ready: "lock_ready lf" "instance_budget lf < fuel" and len: "\<And>t. length (sha t) = 64"
    and start: "builder_extends (instance_start lf) b" "builder_ok sha b"
  shows "\<exists>b'. fold_opt (rebuild_rest sha fuel env) b (lfPackages lf) = Some b' \<and>
    builder_extends b b' \<and> builder_ok sha b' \<and> (\<forall>p \<in> set (lfPackages lf). hasPackageInstance b' (lpID p))"
proof -
  have has: "hasPackageInstance s p \<longleftrightarrow> (\<exists>i \<in> instance_ids s. \<exists>bs. i = idiID (NewModuleInstance sha p bs))"
    if "builder_ok sha s" for s p
  proof
    assume "hasPackageInstance s p"
    then obtain x where x: "x \<in> set (ibInstances s)" "liPackageID x = p" by (auto simp: hasPackageInstance_def list_ex_iff)
    then have "instance_sound sha (ibPackages s) x" using that by (simp add: builder_ok_def)
    then show "\<exists>i \<in> instance_ids s. \<exists>bs. i = idiID (NewModuleInstance sha p bs)"
      using x by (auto simp: instance_ids_def instance_sound_def instance_identity_def)
  next
    assume "\<exists>i \<in> instance_ids s. \<exists>bs. i = idiID (NewModuleInstance sha p bs)"
    then obtain x bs where x: "x \<in> set (ibInstances s)" "liID x = idiID (NewModuleInstance sha p bs)" by (auto simp: instance_ids_def)
    then have "instance_sound sha (ibPackages s) x" using that by (simp add: builder_ok_def)
    then have "idiID (NewModuleInstance sha (liPackageID x) (map identity_binding (liPeers x))) = idiID (NewModuleInstance sha p bs)"
      using x(2) by (simp add: instance_sound_def instance_identity_def)
    then have "liPackageID x = p" by (auto simp: NewModuleInstance_def Let_def peerContextDigest_def append_eq_append_conv len)
    with x(1) show "hasPackageInstance s p" by (auto simp: hasPackageInstance_def list_ex_iff)
  qed
  have keeps: "hasPackageInstance s' p" if "builder_ok sha s" "builder_ok sha s'" "builder_extends s s'" "hasPackageInstance s p" for s s' p
    using that has [OF that(1)] has [OF that(2)] unfolding builder_extends_def by blast
  let ?I = "\<lambda>k s. builder_extends b s \<and> builder_ok sha s \<and> (\<forall>p \<in> set (take k (lfPackages lf)). hasPackageInstance s (lpID p))"
  have "\<exists>b'. fold_opt (rebuild_rest sha fuel env) b (lfPackages lf) = Some b' \<and> ?I (length (lfPackages lf)) b'"
  proof (rule fold_opt_inv)
    show "?I 0 b" using start by simp
    fix k s
    assume k: "k < length (lfPackages lf)" and I: "?I k s"
    let ?p = "lpID (lfPackages lf ! k)"
    show "\<exists>s'. rebuild_rest sha fuel env s (lfPackages lf ! k) = Some s' \<and> ?I (Suc k) s'"
    proof (cases "hasPackageInstance s ?p")
      case True
      then show ?thesis using I k by (auto simp: rebuild_rest_def take_Suc_conv_app_nth)
    next
      case False
      have ext: "builder_extends (instance_start lf) s" using I start(1) extends_trans by blast
      from I have ok: "builder_ok sha s" by blast
      from call_from_start [OF ready ext ok, of ?p env] obtain i s' where
        call: "instantiate sha fuel ?p env s = Some (i, s')" "call_post sha s ?p i s'" by blast
      then have ext': "builder_extends s s'" "builder_ok sha s'" by (simp_all add: call_post_def)
      have "ibPackages s ?p \<noteq> None"
        using ext k by (simp add: builder_extends_def start_reads packages_by_id_last(2))
      then have "i \<in> instance_ids s' \<and> (\<exists>bs. i = idiID (NewModuleInstance sha ?p bs))"
        using call(2) by (auto simp: call_post_def)
      then have new: "hasPackageInstance s' ?p" unfolding has [OF ext'(2)] by blast
      have "rebuild_rest sha fuel env s (lfPackages lf ! k) = Some s'" using False call(1) by (simp add: rebuild_rest_def)
      moreover have "?I (Suc k) s'"
        using I new keeps [OF ok ext'(2,1)] extends_trans [of b s s'] ext' k
        by (auto simp: take_Suc_conv_app_nth)
      ultimately show ?thesis by blast
    qed
  qed
  then show ?thesis by auto
qed

lemma instance_diags_none:
  assumes "distinct (map liID xs)" "set (map liID xs) \<inter> set seen = {}"
    and "\<forall>x \<in> set xs. instance_sound sha m x" and "\<And>i. m i \<noteq> None \<Longrightarrow> i \<in> set ids \<and> i \<noteq> ''''"
  shows "instance_diags sha ids seen xs = []"
  using assms(1-3)
proof (induction xs arbitrary: seen)
  case (Cons x xs)
  have sound: "instance_sound sha m x" using Cons.prems(3) by simp
  have id: "liID x \<noteq> ''''" "liPeerContextID x \<noteq> ''''"
    using sound by (simp_all add: instance_sound_def instance_identity_def NewModuleInstance_def Let_def)
  have pkg: "liPackageID x \<in> set ids" "liPackageID x \<noteq> ''''" using assms(4) sound by (simp_all add: instance_sound_def)
  have "peer_diags ids (liID x) q = []" if "q \<in> set (liPeers x)" for q
    using that sound assms(4) by (auto simp: instance_sound_def list_all_iff peer_ok_def peer_diags_def flag_def)
  then have peers: "concat (map (peer_diags ids (liID x)) (liPeers x)) = []" by simp
  have ident: "instance_identity_diags sha x = []"
    using sound by (simp add: instance_identity_diags_def instance_sound_def instance_identity_def flag_def)
  have "instance_diags sha ids (liID x # seen) xs = []" by (rule Cons.IH) (use Cons.prems in auto)
  moreover have "liID x \<notin> set seen" using Cons.prems(2) by auto
  ultimately show ?case using id pkg peers ident by (simp add: flag_def)
qed simp

lemma ready_ids: "lock_ready lf \<Longrightarrow> packages_by_id (lfPackages lf) i \<noteq> None \<Longrightarrow> i \<in> set (package_ids (lfPackages lf)) \<and> i \<noteq> ''''"
  using packages_by_id_last(2) [of "lfPackages lf" i]
  by (auto simp: lock_ready_def list_all_iff package_ids_def package_complete_def)

theorem rebuild_sound:
  assumes ready: "lock_ready lf" "instance_budget lf < fuel" and len: "\<And>t. length (sha t) = 64"
    and order: "\<And>xs. mset (map_order xs) = mset xs"
  obtains lf' where "RebuildModuleInstances sha map_order fuel lf = Some lf'"
    and "lf' = lf\<lparr>lfInstances := lfInstances lf', lfRootInstances := lfRootInstances lf'\<rparr>"
    and "instance_diags sha (package_ids (lfPackages lf)) [] (lfInstances lf') = []"
    and "\<forall>x \<in> set (lfInstances lf'). instance_closed (liID ` set (lfInstances lf')) x \<and>
      instance_complete (packages_by_id (lfPackages lf)) (packageEdgesByFrom (lfEdges lf) (packages_by_id (lfPackages lf))) x"
    and "lpID ` set (lfPackages lf) \<subseteq> liPackageID ` set (lfInstances lf')"
    and "map root_reading (lfRootInstances lf') =
      map (root_edge_reading (packages_by_id (lfPackages lf))) (moduleRootEdges (lfEdges lf) (packages_by_id (lfPackages lf)))"
    and "riInstanceID ` set (lfRootInstances lf') \<subseteq> liID ` set (lfInstances lf')"
proof -
  let ?m = "packages_by_id (lfPackages lf)"
  let ?es = "moduleRootEdges (lfEdges lf) ?m"
  let ?envs = "moduleRootEnvironments ?es lf ?m"
  have "\<forall>e \<in> set ?es. ?m (leTo e) \<noteq> None" by (auto simp: moduleRootEdges_def)
  from root_loop [OF ready this, of sha ?envs] obtain b roots where
    b: "fold_opt (rebuild_root sha fuel ?envs) (instance_start lf, []) ?es = Some (b, roots)"
      "builder_extends (instance_start lf) b" "builder_ok sha b"
      "map root_reading roots = map (root_edge_reading ?m) ?es" "riInstanceID ` set roots \<subseteq> instance_ids b" by blast
  from rest_loop [OF ready len b(2,3), of "case ?envs '''' of None \<Rightarrow> Map.empty | Some env \<Rightarrow> env"] obtain b' where
    b': "fold_opt (rebuild_rest sha fuel (case ?envs '''' of None \<Rightarrow> Map.empty | Some env \<Rightarrow> env)) b (lfPackages lf) = Some b'"
      "builder_extends b b'" "builder_ok sha b'" "\<forall>p \<in> set (lfPackages lf). hasPackageInstance b' (lpID p)" by blast
  define lf' where "lf' = lf\<lparr>lfInstances := map_order (ibInstances b'), lfRootInstances := roots\<rparr>"
  have run: "RebuildModuleInstances sha map_order fuel lf = Some lf'"
    by (simp add: RebuildModuleInstances_def rebuild_builder_def Let_def b(1) b'(1) lf'_def)
  have set: "set (map_order xs) = set xs" for xs using order [of xs] by (rule mset_eq_setD)
  have ids: "liID ` set (lfInstances lf') = instance_ids b'" by (simp add: lf'_def set instance_ids_def)
  have statics: "ibPackages b' = ?m" "ibEdges b' = packageEdgesByFrom (lfEdges lf) ?m" "ibVisiting b' = []"
    using extends_trans [OF b(2) b'(2)] by (simp_all add: builder_extends_def start_reads)
  have all: "\<forall>x \<in> set (ibInstances b'). instance_sound sha ?m x \<and> instance_closed (instance_ids b') x \<and>
      instance_complete ?m (packageEdgesByFrom (lfEdges lf) ?m) x"
    using b'(3) by (simp add: builder_ok_def statics)
  have dist: "distinct (map liID (map_order (ibInstances b')))"
  proof -
    have "mset (map liID (map_order (ibInstances b'))) = mset (map liID (ibInstances b'))"
      by (simp add: order)
    then have "distinct (map liID (map_order (ibInstances b'))) = distinct (map liID (ibInstances b'))"
      by (rule mset_eq_imp_distinct_iff)
    then show ?thesis using b'(3) by (simp add: builder_ok_def)
  qed
  show thesis
  proof (rule that [OF run])
    show "instance_diags sha (package_ids (lfPackages lf)) [] (lfInstances lf') = []"
      by (rule instance_diags_none [where m = ?m]) (use dist all ready_ids [OF ready(1)] in \<open>auto simp: lf'_def set\<close>)
    show "lpID ` set (lfPackages lf) \<subseteq> liPackageID ` set (lfInstances lf')"
      using b'(4) by (auto simp: lf'_def set hasPackageInstance_def list_ex_iff image_iff; metis)
    show "map root_reading (lfRootInstances lf') = map (root_edge_reading ?m) ?es" using b(4) by (simp add: lf'_def)
    show "riInstanceID ` set (lfRootInstances lf') \<subseteq> liID ` set (lfInstances lf')"
      unfolding ids using b(5) b'(2) by (auto simp: lf'_def builder_extends_def)
  qed (use all ids in \<open>auto simp: lf'_def set\<close>)
qed

end
