(* ===== verification/Manifest_Records.thy ===== *)
theory Manifest_Records
  imports Manifest_IR Authoring
begin

text \<open>
  The package declarations of the manifest, \<open>internal/manifest/ir.go\<close>: every struct beside the
  workflow declarations of \<open>Manifest_IR\<close>.  A pointer that may be nil is an option, a Go map of
  authored data an association list with distinct keys in an arbitrary order, a
  \<open>json.RawMessage\<close> its bytes.
\<close>

section \<open>Workspace, policies, security\<close>

record registry_endpoint =
  epURL :: string
  epTokenEnv :: string
  epFallbackOnNotFound :: bool
  epAllowedArtifactHosts :: "string list"

record registry_source =
  rsKind :: string
  rsEndpoints :: "registry_endpoint list"

record registry_policy =
  rpAllowedSources :: "string list"
  rpOffline :: bool
  rpRequireIntegrity :: bool
  rpRequireAuditCoverage :: bool
  rpSources :: "registry_source list"

record compat_file =
  cmPath :: string
  cmFormat :: string
  cmValue :: string

record workspace_decl =
  wkName :: string
  wkRuntime :: string
  wkRuntimeSpecified :: bool

record update_row =
  urName :: string
  urKind :: string
  urStrategy :: string
  urLevel :: string
  urReason :: string
  urIncludePrerelease :: bool
  urPackages :: "string list"

record acknowledged_capability =
  akPackage :: string
  akKind :: string
  akScript :: string
  akCommand :: string
  akReason :: string
  akBehaviorFixture :: string
  akBehaviorReport :: string

record lifecycle_category =
  alCategory :: string
  alScripts :: "string list"
  alReason :: string

section \<open>Build targets\<close>

record target_artifact =
  maName :: string
  maKind :: string
  maPath :: string
  maRole :: string

record component_property =
  cqName :: string
  cqType :: string
  cqRequired :: bool

record component_member =
  cuName :: string
  cuProperties :: "component_property list"

record component_contract =
  coName :: string
  coProperties :: "component_property list"
  coMembers :: "component_member list"

record export_contract =
  cxName :: string
  cxParameters :: "string list"
  cxResult :: string
  cxRemoteError :: string
  cxPromise :: bool

record npm_contract =
  cnPackage :: string
  cnExports :: "export_contract list"
  cnComponents :: "component_contract list"

record manifest_target =
  mtName :: string
  mtLanguage :: string
  mtCompiler :: string
  mtCompilerPath :: string
  mtCompilerConfig :: string
  mtInputs :: "string list"
  mtDependsOn :: "string list"
  mtArtifacts :: "target_artifact list"
  mtArtifact :: string
  mtExport :: string
  mtEntry :: string
  mtRuntime :: string
  mtTypes :: string
  mtJavaScriptRuntime :: string
  mtTargetFramework :: string
  mtRuntimeIdentifier :: string
  mtTsXmlProfile :: string
  mtNpmContracts :: "npm_contract list"
  mtPeers :: "string list"
  mtDeps :: "string list"
  mtOptional :: bool

section \<open>Tests and runs\<close>

record test_fixture =
  tfName :: string
  tfDependency :: string
  tfBinding :: string
  tfMode :: string

record built_fixture =
  bfName :: string
  bfTarget :: string
  bfArtifact :: string
  bfArtifacts :: "string list"
  bfBinding :: string

definition ArtifactNames :: "built_fixture \<Rightarrow> string list" where
  "ArtifactNames f =
     (if bfArtifacts f \<noteq> [] then sort_strings (bfArtifacts f)
      else if bfArtifact f = '''' then [] else [bfArtifact f])"

record test_target =
  ttName :: string
  ttHarness :: string
  ttConfig :: string
  ttSources :: "string list"
  ttProject :: string
  ttRequirements :: "string list"
  ttFixtures :: "test_fixture list"
  ttDependsOn :: "string list"
  ttBuiltFixtures :: "built_fixture list"

record ready_check =
  rcKind :: string
  rcPath :: string
  rcHost :: string
  rcPort :: int
  rcPattern :: string
  rcStream :: string

record run_env =
  reName :: string
  reRequired :: bool
  reDefault :: "string option"
  reSecret :: bool
  reDescription :: string

record service_requirement =
  sqKind :: string
  sqName :: string
  sqTCP :: string
  sqHTTP :: string
  sqExpectStatus :: int
  sqTimeoutMs :: int
  sqOptional :: bool
  sqDescription :: string

record run_target =
  rtName :: string
  rtRuntime :: string
  rtExplicitRuntime :: string
  rtCommand :: "string list"
  rtURL :: string
  rtCwd :: string
  rtReady :: "ready_check option"
  rtEnv :: "run_env list"
  rtRequires :: "service_requirement list"

record proxy_route =
  pxPath :: string
  pxTarget :: string
  pxWebSocket :: bool
  pxSecure :: bool

record dev_backend =
  dbKind :: string
  dbCommand :: "string list"
  dbURL :: string
  dbCwd :: string
  dbReady :: "ready_check option"
  dbEnv :: "run_env list"
  dbOwnsProcess :: bool
  dbProxyRoutes :: "proxy_route list"

section \<open>The Skyrim target\<close>

record skyrim_command =
  syCommand :: "string list"
  syCwd :: string

record runtime_override =
  roPath :: string
  roType :: string
  roSecret :: bool

record ini_override =
  ioSection :: string
  ioKey :: string
  ioType :: string

record asset_pack =
  apName :: string
  apSource :: string

record expected_record =
  xrEditorID :: string
  xrLocalFormID :: string

record skyrim_target =
  skName :: string
  skHost :: string
  skRuntimeVersion :: string
  skBridge :: string
  skNativeConfigure :: skyrim_command
  skNativeBuild :: skyrim_command
  skNativeTests :: skyrim_command
  skNativeDLL :: string
  skAssetCompilerProject :: string
  skAssetTestsProject :: string
  skAssetPacks :: "asset_pack list"
  skAssetOutput :: string
  skRuntimeConfig :: string
  skRuntimeOverrideTarget :: string
  skRuntimeOverrideFields :: "runtime_override list"
  skINIOverrideFields :: "ini_override list"
  skDLLDestination :: string
  skConfigDestination :: string
  skExpectedRecords :: "expected_record list"
  skStalePlugins :: "string list"
  skRuntimeEvidencePattern :: string
  skReadyMarker :: string

section \<open>Packages and the manifest\<close>

record boundary_rule =
  brFrom :: string
  brTransitiveFrom :: string
  brFromSpecified :: bool
  brTransitiveFromSpecified :: bool
  brAllow :: "string list"
  brDeny :: "string list"
  brAllowDeps :: "string list"
  brDenyDeps :: "string list"
  brDenyTypeDeps :: "string list"
  brAllowOnly :: "string list"
  brAllowOnlySpecified :: bool
  brAllowTargets :: "string list"
  brDenyTargets :: "string list"

record manifest_package =
  mpName :: string
  mpPublicationName :: string
  mpManifestPath :: string
  mpVersion :: string
  mpCompiler :: string
  mpCompilerPath :: string
  mpRoot :: string
  mpLicense :: string
  mpKind :: string
  mpTypePolicies :: "(string \<times> string) list"
  mpBoundaryPolicies :: "(string \<times> string) list"
  mpDependencies :: "effective_dependency list"
  mpDependencyAuthoring :: "dependency_declaration list option"
  mpDependencyTape :: "tape_resolution option"
  mpTargets :: "manifest_target list"
  mpTools :: "string list"
  mpBoundaries :: "boundary_rule list"
  mpPublishInclude :: "string list"
  mpPublishExclude :: "string list"
  mpRunTargets :: "run_target list"
  mpTestTargets :: "test_target list"
  mpDevBackend :: "dev_backend option"
  mpSkyrim :: "skyrim_target option"

record manifest_ir =
  mfFormat :: int
  mfWorkspace :: workspace_decl
  mfCapabilities :: "acknowledged_capability list"
  mfCategories :: "lifecycle_category list"
  mfUpdateRows :: "update_row list"
  mfRegistryPolicy :: registry_policy
  mfPackages :: "manifest_package list"
  mfCompatFiles :: "compat_file list"
  mfWorkflows :: "workflow list"

section \<open>Identities\<close>

text \<open>\<open>path.Base\<close>, and \<open>strings.LastIndex\<close> of one character as the texts on its two sides.\<close>

definition path_base :: "string \<Rightarrow> string" where
  "path_base p =
     (if p = '''' then ''.''
      else (let stem = rev (dropWhile (\<lambda>c. c = CHR ''/'') (rev p));
                tail = rev (takeWhile (\<lambda>c. c \<noteq> CHR ''/'') (rev stem))
            in if tail = '''' then ''/'' else tail))"

definition cut_last :: "char \<Rightarrow> string \<Rightarrow> (string \<times> string) option" where
  "cut_last d s =
     (if d \<in> set s
      then Some (rev (tl (dropWhile (\<lambda>c. c \<noteq> d) (rev s))), rev (takeWhile (\<lambda>c. c \<noteq> d) (rev s)))
      else None)"

lemma cut_last_Some: "cut_last d s = Some (a, b) \<Longrightarrow> s = a @ d # b \<and> d \<notin> set b"
proof -
  assume cut: "cut_last d s = Some (a, b)"
  then have d: "d \<in> set s" and a: "a = rev (tl (dropWhile (\<lambda>c. c \<noteq> d) (rev s)))"
    and b: "b = rev (takeWhile (\<lambda>c. c \<noteq> d) (rev s))"
    by (simp_all add: cut_last_def split: if_splits)
  let ?w = "dropWhile (\<lambda>c. c \<noteq> d) (rev s)"
  have w: "?w = d # tl ?w" using d hd_dropWhile [of "\<lambda>c. c \<noteq> d" "rev s"] by (cases ?w) auto
  have "rev s = takeWhile (\<lambda>c. c \<noteq> d) (rev s) @ d # tl ?w" using w by (metis takeWhile_dropWhile_id)
  then have "s = rev (tl ?w) @ d # rev (takeWhile (\<lambda>c. c \<noteq> d) (rev s))"
    by (metis append.assoc append_Cons append_Nil rev.simps(2) rev_append rev_rev_ident)
  moreover have "d \<notin> set b" by (auto simp: b dest: set_takeWhileD)
  ultimately show ?thesis using a b by simp
qed

lemma cut_last_append: "d \<notin> set b \<Longrightarrow> cut_last d (a @ d # b) = Some (a, b)"
  by (simp add: cut_last_def takeWhile_append dropWhile_append)

definition ResolveBuildTargetReference :: "string \<Rightarrow> string \<Rightarrow> string \<times> string" where
  "ResolveBuildTargetReference owner reference =
     (case cut_last (CHR '':'') reference of
        None \<Rightarrow> (owner, reference)
      | Some (a, b) \<Rightarrow> if a = '''' then (owner, reference) else (a, b))"

text \<open>The identity of a build target, and of the one a reference of a package names.\<close>

definition target_identity :: "string \<Rightarrow> string \<Rightarrow> string" where
  "target_identity package name = package @ '':'' @ name"

definition reference_identity :: "string \<Rightarrow> string \<Rightarrow> string" where
  "reference_identity owner reference =
     (case ResolveBuildTargetReference owner reference of (p, t) \<Rightarrow> target_identity p t)"

definition DependencyIdentity :: "effective_dependency \<Rightarrow> string" where
  "DependencyIdentity d =
     (if edKey d \<noteq> '''' then edKey d
      else if asPackage (edSource d) \<noteq> '''' then asPackage (edSource d)
      else if asName (edSource d) \<noteq> '''' then asName (edSource d)
      else if asRef (edSource d) \<noteq> '''' then path_base (asRef (edSource d))
      else '''')"

definition declaredTargetArtifacts :: "manifest_target \<Rightarrow> target_artifact list" where
  "declaredTargetArtifacts t =
     (if mtArtifacts t \<noteq> [] then mtArtifacts t
      else (if mtRuntime t \<noteq> ''''
            then [\<lparr>maName = ''javaScript'', maKind = ''javaScript'', maPath = mtRuntime t, maRole = ''runtimeEntry''\<rparr>] else [])
         @ (if mtTypes t \<noteq> ''''
            then [\<lparr>maName = ''typeDeclarations'', maKind = ''typeDeclarations'', maPath = mtTypes t, maRole = ''typeDeclaration''\<rparr>]
            else []))"

end
