(* ===== verification/Manifest_Checks.thy ===== *)
theory Manifest_Checks
  imports Manifest_Records Manifest_Workflow Diagnostics Go_Text
begin

text \<open>
  The checks of \<open>Validate\<close> in \<open>internal/manifest/ir.go\<close> on the parts of a manifest that are not build
  or test targets.  Every function returns the diagnostics it adds, in order, still without the file
  name.  What the checks use of \<open>net/url\<close>, \<open>encoding/json\<close>, the Unicode tables and \<open>%q\<close> is the argument
  \<open>lib\<close>.
\<close>

section \<open>The library\<close>

text \<open>The parts of a parsed URL that are read; a parse error is None.\<close>

record url_parts =
  urlScheme :: string
  urlHost :: string
  urlHasUser :: bool
  urlQueryKeys :: "string list"

record go_library =
  glUpper :: "string \<Rightarrow> string"
  glLower :: "string \<Rightarrow> string"
  glNumber :: "float64 \<Rightarrow> string"
  glParseURL :: "string \<Rightarrow> url_parts option"
  glJSONFault :: "string \<Rightarrow> string option"
  glConflictText :: "conflict_message \<Rightarrow> string"

text \<open>A loop over a slice with an index that has its own path.\<close>

definition each_at :: "string \<Rightarrow> (string \<Rightarrow> nat \<Rightarrow> 'a \<Rightarrow> diagnostic list) \<Rightarrow> 'a list \<Rightarrow> diagnostic list" where
  "each_at path f xs = each_indexed (\<lambda>i x. f (indexed path i) i x) xs"

section \<open>Patterns\<close>

definition name_char :: "char \<Rightarrow> bool" where
  "name_char c \<longleftrightarrow> byte_in 97 122 c \<or> is_digit c \<or> c \<in> set ''._-''"

definition workspace_name :: "string \<Rightarrow> bool" where
  "workspace_name s \<longleftrightarrow> s \<noteq> '''' \<and> list_all (\<lambda>c. is_letter c \<or> is_digit c \<or> c \<in> set ''._-'') s"

definition package_name :: "string \<Rightarrow> bool" where
  "package_name s \<longleftrightarrow>
     (case s of [] \<Rightarrow> False
      | c # cs \<Rightarrow>
          if c = CHR ''@''
          then (case split_on (CHR ''/'') cs of
                  [scope, name] \<Rightarrow> scope \<noteq> '''' \<and> name \<noteq> '''' \<and> list_all name_char scope \<and> list_all name_char name
                | _ \<Rightarrow> False)
          else list_all name_char s)"

definition target_name :: "string \<Rightarrow> bool" where
  "target_name s \<longleftrightarrow> s \<noteq> '''' \<and> list_all (\<lambda>c. is_letter c \<or> is_digit c \<or> c \<in> set ''_/-'') s"

text \<open>Digits, and what follows them; \<open>^\d+\.\d+\.\d+(?:[-+][0-9A-Za-z.-]+)?$\<close>.\<close>

definition skip_digits :: "string \<Rightarrow> string option" where
  "skip_digits s = (case s of [] \<Rightarrow> None | c # cs \<Rightarrow> if is_digit c then Some (dropWhile is_digit cs) else None)"

definition skip_char :: "char \<Rightarrow> string \<Rightarrow> string option" where
  "skip_char d s = (case s of [] \<Rightarrow> None | c # cs \<Rightarrow> if c = d then Some cs else None)"

definition version_suffix :: "string \<Rightarrow> bool" where
  "version_suffix s \<longleftrightarrow>
     (case s of [] \<Rightarrow> True
      | c # cs \<Rightarrow> c \<in> set ''-+'' \<and> cs \<noteq> '''' \<and> list_all (\<lambda>c. is_letter c \<or> is_digit c \<or> c \<in> set ''.-'') cs)"

definition version_text :: "string \<Rightarrow> bool" where
  "version_text s \<longleftrightarrow>
     (case Option.bind (skip_digits s) (\<lambda>a. Option.bind (skip_char (CHR ''.'') a) (\<lambda>b.
         Option.bind (skip_digits b) (\<lambda>c. Option.bind (skip_char (CHR ''.'') c) skip_digits))) of
        None \<Rightarrow> False
      | Some rest \<Rightarrow> version_suffix rest)"

section \<open>Fixed vocabularies\<close>

definition isValidRuntimeProfile :: "string \<Rightarrow> bool" where
  "isValidRuntimeProfile v \<longleftrightarrow> v \<in> set [''nodejs'', ''bun'', ''deno'']"

definition isSupportedLifecycleScript :: "string \<Rightarrow> bool" where
  "isSupportedLifecycleScript s \<longleftrightarrow>
     s \<in> set [''preinstall'', ''install'', ''postinstall'', ''prepack'', ''prepare'', ''postpack'', ''prepublish'',
       ''prepublishOnly'', ''publish'', ''postpublish'']"

definition isSupportedLifecycleCategory :: "string \<Rightarrow> bool" where
  "isSupportedLifecycleCategory c \<longleftrightarrow> c \<in> set [''consumer-install'', ''maintainer-publish'', ''other'']"

definition isValidPackageKind :: "string \<Rightarrow> bool" where
  "isValidPackageKind k \<longleftrightarrow> k \<in> set [''library'', ''app'', ''tool'', ''service'']"

definition isNormalizedSafeProjectPath :: "string \<Rightarrow> bool" where
  "isNormalizedSafeProjectPath p \<longleftrightarrow> IsSafePackageFilePath p \<and> path_clean p = p"

definition isValidBehaviorFixturePath :: "string \<Rightarrow> bool" where
  "isValidBehaviorFixturePath p \<longleftrightarrow>
     isNormalizedSafeProjectPath p \<and> (has_suffix p ''.xtest.ts'' \<or> has_suffix p ''.xtest.tsx'')"

definition isValidBehaviorReportPath :: "string \<Rightarrow> bool" where
  "isValidBehaviorReportPath p \<longleftrightarrow> isNormalizedSafeProjectPath p \<and> has_suffix p ''.json''"

definition level_policy :: "string \<Rightarrow> bool" where
  "level_policy v \<longleftrightarrow> v \<in> set [''error'', ''warn'', ''ignore'']"

definition isValidTypePolicy :: "string \<Rightarrow> string \<Rightarrow> bool" where
  "isValidTypePolicy k v \<longleftrightarrow>
     k = ''declarations'' \<and> v \<in> set [''required'', ''optional'', ''none''] \<or>
     k \<in> set [''missingTypes'', ''publicTypeLeakage'', ''typeOnlyRuntimeLeakage''] \<and> level_policy v"

definition isValidBoundaryPolicy :: "string \<Rightarrow> string \<Rightarrow> bool" where
  "isValidBoundaryPolicy k v \<longleftrightarrow>
     k \<in> set [''undeclaredImports'', ''phantomDependencies'', ''crossTargetImports'', ''strict''] \<and> level_policy v"

definition path_or_glob :: "string \<Rightarrow> bool" where
  "path_or_glob p \<longleftrightarrow> IsSafeRelativeGlob p \<or> IsSafePackageFilePath p"

section \<open>The header\<close>

definition default_runtime :: "workspace_decl \<Rightarrow> workspace_decl" where
  "default_runtime w = (if is_blank (wkRuntime w) then w\<lparr>wkRuntime := ''nodejs''\<rparr> else w)"

definition manifest_header_diags :: "manifest_ir \<Rightarrow> diagnostic list" where
  "manifest_header_diags ir =
     (let w = mfWorkspace ir; runtime = wkRuntime (default_runtime w) in
      fault (mfFormat ir \<noteq> 1) ''TSPACK_IR_UNSUPPORTED_FORMAT'' ''format must be 1'' @
      (if is_blank (wkName w) then [errD ''TSPACK_IR_MISSING_WORKSPACE'' ''workspace.name is required'' []]
       else fault (\<not> workspace_name (wkName w) \<or> contains_str (wkName w) ''/'' \<or> contains_str (wkName w) [CHR 0x5C, CHR 0x5C])
         ''TSPACK_IR_INVALID_WORKSPACE_NAME'' ''invalid workspace.name'') @
      flag (\<not> isValidRuntimeProfile runtime)
        (errD ''TSPACK_MANIFEST_INVALID_RUNTIME_PROFILE'' ''runtime profile must be nodejs, bun, or deno''
          [''value='' @ runtime, ''allowed=nodejs,bun,deno'',
           ''package manager names such as npm/pnpm/yarn are not runtime profiles'']) @
      fault (mfPackages ir = [] \<and> mfCompatFiles ir = []) ''TSPACK_IR_NO_PACKAGES''
        ''at least one package or root compatibility declaration is required'')"

section \<open>Registry policy\<close>

definition hasSensitiveRegistryQuery :: "go_library \<Rightarrow> url_parts \<Rightarrow> bool" where
  "hasSensitiveRegistryQuery lib u \<longleftrightarrow>
     list_ex (\<lambda>key. let lower = go_lower (glLower lib) key in
       contains_str lower ''token'' \<or> contains_str lower ''secret'' \<or> contains_str lower ''auth'' \<or> contains_str lower ''key'')
       (urlQueryKeys u)"

definition endpoint_diags :: "go_library \<Rightarrow> string \<Rightarrow> registry_endpoint \<Rightarrow> diagnostic list" where
  "endpoint_diags lib path e =
     (let parsed = glParseURL lib (epURL e) in
      fault (case parsed of None \<Rightarrow> True
          | Some u \<Rightarrow> urlHost u = '''' \<or> urlScheme u \<noteq> ''https'' \<and> urlScheme u \<noteq> ''http'' \<or> urlHasUser u)
        ''TSPACK_SOURCE_POLICY_INVALID'' (path @ ''.url must be an HTTP(S) URL without embedded credentials'') @
      fault (case parsed of None \<Rightarrow> False | Some u \<Rightarrow> hasSensitiveRegistryQuery lib u)
        ''TSPACK_SOURCE_POLICY_INVALID'' (path @ ''.url must not contain credential-bearing query parameters; use tokenEnv'') @
      fault (epTokenEnv e \<noteq> '''' \<and> \<not> env_name (epTokenEnv e))
        ''TSPACK_SOURCE_POLICY_INVALID'' (path @ ''.tokenEnv must be an environment variable name'') @
      each_at (path @ ''.allowedArtifactHosts'') (\<lambda>here i host.
        fault (is_blank host \<or> list_ex (\<lambda>c. c \<in> set ''/:@?'') host) ''TSPACK_SOURCE_POLICY_INVALID'' (here @ '' must be a hostname''))
        (epAllowedArtifactHosts e))"

definition registry_source_kind :: "string \<Rightarrow> bool" where
  "registry_source_kind k \<longleftrightarrow> k = ''npm'' \<or> k = ''jsr''"

definition validateRegistryPolicy :: "go_library \<Rightarrow> registry_policy \<Rightarrow> diagnostic list" where
  "validateRegistryPolicy lib p =
     each_at ''registryPolicy.allowedSources'' (\<lambda>here i source.
       fault (\<not> registry_source_kind source) ''TSPACK_SOURCE_POLICY_INVALID'' (here @ '' must be npm or jsr'') @
       fault (source \<in> set (take i (rpAllowedSources p))) ''TSPACK_SOURCE_POLICY_INVALID''
         (''registryPolicy.allowedSources contains duplicate source: '' @ source)) (rpAllowedSources p) @
     each_at ''registryPolicy.sources'' (\<lambda>here i source.
       fault (\<not> registry_source_kind (rsKind source)) ''TSPACK_SOURCE_POLICY_INVALID'' (here @ ''.kind must be npm or jsr'') @
       fault (rsKind source \<in> set (map rsKind (take i (rpSources p)))) ''TSPACK_SOURCE_POLICY_INVALID''
         (''registryPolicy contains duplicate source: '' @ rsKind source) @
       fault (rsEndpoints source = []) ''TSPACK_SOURCE_POLICY_INVALID'' (here @ ''.endpoints must not be empty'') @
       each_at (here @ ''.endpoints'') (\<lambda>there i e. endpoint_diags lib there e) (rsEndpoints source)) (rpSources p)"

section \<open>Compatibility files\<close>

definition isValidCompatPath :: "string \<Rightarrow> bool" where
  "isValidCompatPath v =
     (if contains_str v [CHR 0x5C] \<or> contains_str v ''://'' \<or> contains_str v '':'' then False
      else if has_prefix v ''/'' \<or> has_prefix v ''./'' \<or> v = ''.'' then False
      else if contains_str v ''//'' \<or> contains_str v ''/../'' \<or> has_prefix v ''../'' \<or> has_suffix v ''/..'' then False
      else if contains_str v ''/./'' \<or> has_suffix v ''/'' \<or> contains_str v ''//'' then False
      else if has_prefix v ''node_modules/'' \<or> has_prefix v ''.git/'' then False
      else has_suffix v ''.json'')"

definition isUnsupportedCompatPath :: "string \<Rightarrow> bool" where
  "isUnsupportedCompatPath v \<longleftrightarrow>
     v \<in> set [''package.json'', ''package-lock.json'', ''pnpm-lock.yaml'', ''yarn.lock'', ''bun.lock'', ''bun.lockb'', ''manifest.tsx'']"

definition validateCompatFile :: "go_library \<Rightarrow> string \<Rightarrow> compat_file \<Rightarrow> diagnostic list" where
  "validateCompatFile lib path f =
     (if is_blank (cmPath f) then [errD ''TSPACK_COMPAT_PATH_INVALID'' (path @ ''.path is required'') []]
      else
        fault (cmFormat f \<noteq> ''json'') ''TSPACK_COMPAT_UNSUPPORTED_FILE'' (path @ ''.format must be json'') @
        fault (\<not> isValidCompatPath (cmPath f)) ''TSPACK_COMPAT_PATH_INVALID''
          (path @ ''.path must be a safe project-relative JSON path'') @
        fault (isUnsupportedCompatPath (cmPath f)) ''TSPACK_COMPAT_UNSUPPORTED_FILE''
          (path @ ''.path is not supported by M63a compat file management'') @
        (if cmValue f = '''' \<or> cmValue f = ''null''
         then [errD ''TSPACK_COMPAT_VALUE_INVALID'' (path @ ''.value is required'') []]
         else (case glJSONFault lib (cmValue f) of
                 None \<Rightarrow> []
               | Some e \<Rightarrow> [errD ''TSPACK_COMPAT_VALUE_INVALID'' (path @ ''.value must be valid JSON'') [e]])))"

definition compat_diags :: "go_library \<Rightarrow> compat_file list \<Rightarrow> diagnostic list" where
  "compat_diags lib fs =
     each_at ''compatFiles'' (\<lambda>here i f.
       validateCompatFile lib here f @
       fault (cmPath f \<noteq> '''' \<and> cmPath f \<in> set (map cmPath (take i fs))) ''TSPACK_COMPAT_DUPLICATE_FILE''
         (''duplicate compat file path: '' @ cmPath f)) fs"

section \<open>Security and updates\<close>

definition capability_key :: "acknowledged_capability \<Rightarrow> string" where
  "capability_key a = akPackage a @ ''|'' @ akKind a @ ''|'' @ akScript a @ ''|'' @ akCommand a"

definition category_key :: "lifecycle_category \<Rightarrow> string" where
  "category_key a = alCategory a @ ''|'' @ join_strings (alScripts a) '',''"

definition capability_ack_diags :: "acknowledged_capability list \<Rightarrow> diagnostic list" where
  "capability_ack_diags as =
     each_at ''security.acknowledgedCapabilities'' (\<lambda>here i a.
       let code = ''TSPACK_SECURITY_INVALID_ACKNOWLEDGED_CAPABILITY'' in
       fault (is_blank (akPackage a)) code (here @ ''.package is required'') @
       fault (akKind a \<noteq> ''lifecycleScript'') code (here @ ''.kind must be lifecycleScript'') @
       fault (\<not> isSupportedLifecycleScript (akScript a)) code (here @ ''.script is not a supported lifecycle script'') @
       fault (is_blank (akCommand a)) code (here @ ''.command is required'') @
       fault (is_blank (akReason a)) code (here @ ''.reason is required'') @
       fault (akBehaviorFixture a \<noteq> '''' \<and> \<not> isValidBehaviorFixturePath (akBehaviorFixture a))
         ''TSPACK_SECURITY_INVALID_BEHAVIOR_FIXTURE'' (here @ ''.behaviorFixture must be a safe relative .xtest.ts or .xtest.tsx path'') @
       fault (akBehaviorReport a \<noteq> '''' \<and> \<not> isValidBehaviorReportPath (akBehaviorReport a))
         ''TSPACK_SECURITY_INVALID_BEHAVIOR_REPORT'' (here @ ''.behaviorReport must be a safe relative .json path'') @
       fault (capability_key a \<in> set (map capability_key (take i as)))
         ''TSPACK_SECURITY_DUPLICATE_ACKNOWLEDGED_CAPABILITY'' (''duplicate acknowledged capability: '' @ capability_key a)) as"

definition category_diags :: "lifecycle_category list \<Rightarrow> diagnostic list" where
  "category_diags as =
     each_at ''security.acknowledgedLifecycleCategories'' (\<lambda>here i a.
       let code = ''TSPACK_SECURITY_INVALID_ACKNOWLEDGED_LIFECYCLE_CATEGORY'' in
       fault (\<not> isSupportedLifecycleCategory (alCategory a)) code
         (here @ ''.category must be consumer-install, maintainer-publish, or other'') @
       fault (is_blank (alReason a)) code (here @ ''.reason is required'') @
       each_at (here @ ''.scripts'') (\<lambda>there k script.
         fault (\<not> isSupportedLifecycleScript script) code (there @ '' is not a supported lifecycle script'')) (alScripts a) @
       fault (category_key a \<in> set (map category_key (take i as)))
         ''TSPACK_SECURITY_DUPLICATE_ACKNOWLEDGED_LIFECYCLE_CATEGORY'' (''duplicate acknowledged lifecycle category: '' @ category_key a)) as"

definition update_row_key :: "update_row \<Rightarrow> string" where
  "update_row_key r = urName r @ ''|'' @ urKind r @ ''|'' @ join_strings (sort_strings (urPackages r)) '',''"

definition update_row_diags :: "update_row list \<Rightarrow> diagnostic list" where
  "update_row_diags rows =
     each_at ''updatePolicy.rows'' (\<lambda>here i r.
       fault (is_blank (urName r)) ''TSPACK_UPDATE_POLICY_INVALID_ROW'' (here @ ''.name is required'') @
       fault (urKind r \<notin> set [''tool'', ''dep'', ''peer'', ''any'']) ''TSPACK_UPDATE_POLICY_INVALID_KIND''
         (here @ ''.kind must be tool, dep, peer, or any'') @
       fault (urStrategy r \<notin> set [''manual'', ''pinned'', ''rolling'']) ''TSPACK_UPDATE_POLICY_INVALID_STRATEGY''
         (here @ ''.strategy must be manual, pinned, or rolling'') @
       (if urStrategy r = ''rolling''
        then fault (urLevel r \<notin> set [''patch'', ''minor'', ''major'', ''latest'']) ''TSPACK_UPDATE_POLICY_INVALID_LEVEL''
          (here @ ''.level must be patch, minor, major, or latest for rolling policy'')
        else fault (urLevel r \<noteq> '''') ''TSPACK_UPDATE_POLICY_LEVEL_NOT_ALLOWED''
          (here @ ''.level is only allowed for rolling policy'')) @
       each_at (here @ ''.packages'') (\<lambda>there k name.
         fault (is_blank name) ''TSPACK_UPDATE_POLICY_INVALID_PACKAGE_SCOPE'' (there @ '' must be a non-empty string'')) (urPackages r) @
       fault (update_row_key r \<in> set (map update_row_key (take i rows))) ''TSPACK_UPDATE_POLICY_DUPLICATE_ROW''
         (''duplicate update policy row: '' @ update_row_key r)) rows"

end
