(* ===== verification/Manifest_Packages.thy ===== *)
theory Manifest_Packages
  imports Manifest_Checks
begin

text \<open>
  The checks of \<open>Validate\<close> in \<open>internal/manifest/ir.go\<close> on the parts of one package beside its
  targets: its dependencies, which come from the authoring tape, the development back end, the Skyrim
  target, run targets, boundaries and policies.
\<close>

section \<open>Dependencies\<close>

definition legacy_declaration :: "nat \<Rightarrow> effective_dependency \<Rightarrow> dependency_declaration" where
  "legacy_declaration order d =
     \<lparr>ddID = '''', ddKey = edKey d, ddIdentity = source_identity (edSource d), ddSource = edSource d,
      ddConstraint = asRange (edSource d), ddKind = edKind d, ddOptional = edOptional d,
      ddOrigin = \<lparr>doKind = ''generated'', doName = ''legacy normalized manifest IR'', doSourcePath = '''', doRef = ''''\<rparr>,
      ddLayer = ''project'', ddLayerOrder = 0, ddOrder = int order, ddAuthority = ''generated'',
      ddEditability = ''derived'', ddPatch = edPatch d\<rparr>"

definition authored_declarations :: "manifest_package \<Rightarrow> dependency_declaration list" where
  "authored_declarations p =
     (case mpDependencyAuthoring p of
        Some ds \<Rightarrow> ds
      | None \<Rightarrow> map (\<lambda>(i, d). legacy_declaration i d) (enumerate 0 (mpDependencies p)))"

definition identified_declaration :: "dependency_declaration \<Rightarrow> dependency_declaration" where
  "identified_declaration d =
     (if identity_valid (ddIdentity d) then d else d\<lparr>ddIdentity := source_identity (ddSource d)\<rparr>)"

definition declaration_diags :: "string \<Rightarrow> dependency_declaration \<Rightarrow> diagnostic list" where
  "declaration_diags here d =
     (let source = asKind (ddSource d); identity = aiSource (ddIdentity d) in
      fault (\<not> identity_valid (ddIdentity d)) ''TSPACK_AUTHORING_INVALID_IDENTITY'' (here @ '' has no package identity'') @
      flag (source \<noteq> identity)
        (errD ''TSPACK_AUTHORING_SOURCE_IDENTITY_MISMATCH'' (here @ '' source and identity differ'')
          [''source='' @ source, ''identity='' @ identity]) @
      (case ddPatch d of
         None \<Rightarrow> []
       | Some patch \<Rightarrow>
           fault (source \<noteq> ''npm'' \<and> source \<noteq> ''jsr'') ''TSPACK_PATCH_SOURCE_UNSUPPORTED''
             (here @ '' patch requires an npm or jsr source'') @
           fault (\<not> IsSafePackageFilePath (pdPath patch)) ''TSPACK_PATCH_PATH_UNSAFE''
             (here @ '' patch path must be a safe project-relative file'') @
           fault (is_blank (pdVersion patch)) ''TSPACK_PATCH_TARGET_VERSION_REQUIRED''
             (here @ '' patch requires an exact target version'')))"

text \<open>\<open>preparePackageAuthoring\<close>: the diagnostics, and the package with its tape and effective dependencies.\<close>

definition prepared_package :: "manifest_package \<Rightarrow> manifest_package" where
  "prepared_package p =
     (let ds = map identified_declaration (authored_declarations p); tape = Build_authoring ds in
      p\<lparr>mpDependencyAuthoring := Some ds, mpDependencyTape := Some tape, mpDependencies := trEffective tape\<rparr>)"

definition authoring_diags :: "go_library \<Rightarrow> string \<Rightarrow> manifest_package \<Rightarrow> diagnostic list" where
  "authoring_diags lib path p =
     (let ds = map identified_declaration (authored_declarations p) in
      each_at (path @ ''.dependencyAuthoring.declarations'') (\<lambda>here i d. declaration_diags here d) ds @
      map (\<lambda>c. errD ''TSPACK_AUTHORING_DEPENDENCY_KEY_COLLISION''
          (path @ '' has dependency declarations with colliding effective keys'') [glConflictText lib (acMessage c)])
        (filter acFatal (trConflicts (Build_authoring ds))))"

definition dependency_kind :: "string \<Rightarrow> bool" where
  "dependency_kind k \<longleftrightarrow> k \<in> set [''runtime'', ''dep'', ''peer'', ''tool'', ''type'', ''test'', ''workspace'']"

definition validateDep :: "string \<Rightarrow> effective_dependency \<Rightarrow> diagnostic list" where
  "validateDep here d =
     (let s = edSource d; sk = asKind s; code = ''TSPACK_IR_INVALID_SOURCE'' in
      fault (\<not> dependency_kind (edKind d)) ''TSPACK_IR_INVALID_DEPENDENCY_KIND'' (here @ ''.kind is invalid'') @
      (if sk = ''npm'' \<or> sk = ''jsr'' then
         fault (asPackage s = '''' \<or> asRange s = '''') code (here @ ''.source '' @ sk @ '' requires package and range'')
       else if sk = ''git'' then
         fault (asRepo s = '''' \<and> asRef s = '''') code (here @ ''.source git requires repo/ref'') @
         fault (asTag s = '''' \<and> asRev s = '''' \<and> asBranch s = '''') code (here @ ''.source git requires tag/rev/branch'')
       else if sk = ''path'' then
         fault (\<not> IsSafePackageDependencyPath (asPath s)) code (here @ ''.source path must be safe relative'')
       else if sk = ''workspace'' then
         fault (asName s = '''' \<and> asPackage s = '''') code (here @ ''.source workspace requires name/package'')
       else [errD ''TSPACK_IR_INVALID_SOURCE_KIND'' (here @ ''.source.kind is invalid'') []]))"

definition dependency_diags :: "string \<Rightarrow> effective_dependency list \<Rightarrow> diagnostic list" where
  "dependency_diags path ds =
     each_at (path @ ''.dependencies'') (\<lambda>here i d.
       let k = DependencyIdentity d in
       if k = '''' then [errD ''TSPACK_IR_DUPLICATE_DEPENDENCY'' (here @ '' missing key'') []]
       else fault (k \<in> set (map DependencyIdentity (take i ds))) ''TSPACK_IR_DUPLICATE_DEPENDENCY'' (''duplicate dependency key: '' @ k) @
         validateDep here d) ds"

text \<open>The maps from keys to kinds and sources that the rest of the checks reads: the last one of a key.\<close>

definition dependency_at :: "effective_dependency list \<Rightarrow> string \<Rightarrow> effective_dependency option" where
  "dependency_at ds k = (if k = '''' then None else find (\<lambda>d. DependencyIdentity d = k) (rev ds))"

definition tool_diags :: "string \<Rightarrow> effective_dependency list \<Rightarrow> string list \<Rightarrow> diagnostic list" where
  "tool_diags path ds tools =
     concat (map (\<lambda>tool.
       case dependency_at ds tool of
         None \<Rightarrow> [errD ''TSPACK_IR_UNKNOWN_DEPENDENCY_REF'' (path @ ''.tools has unknown dependency: '' @ tool) []]
       | Some d \<Rightarrow> fault (edKind d \<noteq> ''tool'') ''TSPACK_IR_INVALID_DEPENDENCY_KIND''
           (path @ ''.tools must reference tool dependencies'')) tools)"

section \<open>URLs and ready checks\<close>

text \<open>A placeholder starts with a dollar and a brace; the text up to the closing brace, and what follows.\<close>

definition cut_brace :: "string \<Rightarrow> (string \<times> string) option" where
  "cut_brace s =
     (if CHR ''}'' \<in> set s then Some (takeWhile (\<lambda>c. c \<noteq> CHR ''}'') s, tl (dropWhile (\<lambda>c. c \<noteq> CHR ''}'') s)) else None)"

lemma cut_brace_shorter: "cut_brace s = Some (a, b) \<Longrightarrow> length b < length s"
proof -
  assume cut: "cut_brace s = Some (a, b)"
  let ?w = "dropWhile (\<lambda>c. c \<noteq> CHR ''}'') s"
  have "length ?w \<le> length s" by (rule length_dropWhile_le)
  moreover have "?w \<noteq> []" using cut by (auto simp: cut_brace_def split: if_splits)
  ultimately show ?thesis using cut by (cases ?w) (auto simp: cut_brace_def split: if_splits)
qed

text \<open>\<open>runTargetURLForValidation\<close>; None stands for giving up, which returns the text as it was.\<close>

function fill_placeholders :: "string \<Rightarrow> string option" where
  "fill_placeholders s =
     (case s of
        [] \<Rightarrow> Some ''''
      | c # cs \<Rightarrow>
          if c = CHR ''$'' \<and> has_prefix cs ''{''
          then (case cut_brace (tl cs) of
                  None \<Rightarrow> None
                | Some (_, rest) \<Rightarrow> map_option (\<lambda>t. ''3000'' @ t) (fill_placeholders rest))
          else map_option (\<lambda>t. c # t) (fill_placeholders cs))"
  by pat_completeness auto
termination
  by (relation "measure length") (auto dest!: cut_brace_shorter simp: has_prefix_def)

declare fill_placeholders.simps [simp del]

definition runTargetURLForValidation :: "string \<Rightarrow> string" where
  "runTargetURLForValidation raw = (case fill_placeholders raw of None \<Rightarrow> raw | Some t \<Rightarrow> t)"

function validRunReadyURLPlaceholders :: "string \<Rightarrow> bool" where
  "validRunReadyURLPlaceholders s =
     (case s of
        [] \<Rightarrow> True
      | c # cs \<Rightarrow>
          if c = CHR ''$'' \<and> has_prefix cs ''{''
          then (case cut_brace (tl cs) of
                  None \<Rightarrow> False
                | Some (name, rest) \<Rightarrow> if env_name name then validRunReadyURLPlaceholders rest else False)
          else validRunReadyURLPlaceholders cs)"
  by pat_completeness auto
termination
  by (relation "measure length") (auto dest!: cut_brace_shorter simp: has_prefix_def)

declare validRunReadyURLPlaceholders.simps [simp del]

text \<open>The test that run targets, back ends and proxy routes make of a URL, for the schemes they allow.\<close>

definition url_acceptable :: "go_library \<Rightarrow> string list \<Rightarrow> string \<Rightarrow> bool" where
  "url_acceptable lib schemes raw \<longleftrightarrow>
     (case glParseURL lib (runTargetURLForValidation raw) of
        None \<Rightarrow> False
      | Some u \<Rightarrow> validRunReadyURLPlaceholders raw \<and> urlScheme u \<in> set schemes \<and> urlHost u \<noteq> '''')"

definition validRunReadyCheck :: "ready_check \<Rightarrow> bool" where
  "validRunReadyCheck r =
     (if rcKind r = ''http'' then has_prefix (rcPath r) ''/''
      else if rcKind r = ''tcp'' then
        (if rcPort r < 1 \<or> rcPort r > 65535 then False else trim_space (rcHost r) = rcHost r)
      else if rcKind r = ''stdout-match'' then
        (if rcPattern r = '''' then False else rcStream r \<in> set ['''', ''stdout'', ''stderr'', ''both''])
      else False)"

section \<open>The development back end\<close>

definition route_diags :: "go_library \<Rightarrow> proxy_route list \<Rightarrow> string \<Rightarrow> nat \<Rightarrow> proxy_route \<Rightarrow> diagnostic list" where
  "route_diags lib routes here i r =
     fault (\<not> has_prefix (pxPath r) ''/'' \<or> contains_str (pxPath r) '' '') ''TSPACK_VITE_PROXY_ROUTE_INVALID''
       (here @ ''.path must start with /'') @
     fault (pxPath r \<in> set (map pxPath (take i routes))) ''TSPACK_VITE_PROXY_ROUTE_DUPLICATE'' (''duplicate proxy route: '' @ pxPath r) @
     fault (pxTarget r \<noteq> '''' \<and> \<not> url_acceptable lib [''http'', ''https'', ''ws'', ''wss''] (pxTarget r))
       ''TSPACK_VITE_PROXY_TARGET_INVALID'' (here @ ''.target must be a valid http/https/ws/wss URL'')"

definition validateDevBackend :: "go_library \<Rightarrow> string \<Rightarrow> dev_backend option \<Rightarrow> diagnostic list" where
  "validateDevBackend lib path backend =
     (case backend of
        None \<Rightarrow> []
      | Some b \<Rightarrow>
          (let here = path @ ''.devBackend'' in
           fault (dbKind b \<noteq> ''process'' \<and> dbKind b \<noteq> ''aspnet'') ''TSPACK_VITE_BACKEND_KIND_INVALID''
             (here @ ''.kind must be process or aspnet'') @
           fault (dbCwd b \<notin> set ['''', ''workspace'', ''package'']) ''TSPACK_VITE_BACKEND_CWD_INVALID''
             (here @ ''.cwd must be workspace or package'') @
           fault (dbOwnsProcess b \<and> dbCommand b = []) ''TSPACK_VITE_BACKEND_COMMAND_MISSING''
             (here @ ''.command is required when ownsProcess is true'') @
           concat (map (\<lambda>part. fault (is_blank part) ''TSPACK_VITE_BACKEND_COMMAND_INVALID''
             (here @ ''.command entries must be non-empty'')) (dbCommand b)) @
           (if is_blank (dbURL b) then [errD ''TSPACK_VITE_BACKEND_URL_INVALID'' (here @ ''.url is required'') []]
            else fault (\<not> url_acceptable lib [''http'', ''https''] (dbURL b)) ''TSPACK_VITE_BACKEND_URL_INVALID''
              (here @ ''.url must be a valid http/https URL'')) @
           (case dbReady b of
              None \<Rightarrow> fault (dbOwnsProcess b) ''TSPACK_VITE_BACKEND_READY_MISSING''
                (here @ ''.ready is required when ownsProcess is true'')
            | Some r \<Rightarrow> fault (\<not> validRunReadyCheck r) ''TSPACK_VITE_BACKEND_READY_INVALID'' (here @ ''.ready is invalid'')) @
           each_at (here @ ''.proxyRoutes'') (route_diags lib (dbProxyRoutes b)) (dbProxyRoutes b)))"

end
