(* ===== verification/Manifest_Runs.thy ===== *)
theory Manifest_Runs
  imports Manifest_Packages
begin

text \<open>
  The checks of \<open>Validate\<close> in \<open>internal/manifest/ir.go\<close> on run targets and the services they require,
  the Skyrim target, boundaries and the publish policy of a package.
\<close>

section \<open>Services\<close>

text \<open>\<open>net.SplitHostPort\<close>, without the text of its errors, and \<open>strconv.Atoi\<close> within a range.\<close>

definition split_host_port :: "string \<Rightarrow> (string \<times> string) option" where
  "split_host_port s =
     (case cut_last (CHR '':'') s of
        None \<Rightarrow> None
      | Some (before, port) \<Rightarrow>
          if has_prefix s ''[''
          then (let inner = takeWhile (\<lambda>c. c \<noteq> CHR '']'') s in
                if CHR '']'' \<notin> set s \<or> Suc (length inner) \<noteq> length before then None
                else if CHR ''['' \<in> set (tl s) \<or> CHR '']'' \<in> set (drop (Suc (length inner)) s) then None
                else Some (tl inner, port))
          else if CHR '':'' \<in> set before then None
          else if CHR ''['' \<in> set s \<or> CHR '']'' \<in> set s then None
          else Some (before, port))"

definition number_within :: "int \<Rightarrow> int \<Rightarrow> string \<Rightarrow> bool" where
  "number_within lo hi s \<longleftrightarrow>
     (let digits = (if has_prefix s ''+'' \<or> has_prefix s ''-'' then tl s else s);
          n = (if has_prefix s ''-'' then - int (read_nat digits) else int (read_nat digits))
      in digits \<noteq> '''' \<and> list_all is_digit digits \<and> lo \<le> n \<and> n \<le> hi)"

definition validRunTargetServiceTCP :: "string \<Rightarrow> bool" where
  "validRunTargetServiceTCP endpoint \<longleftrightarrow>
     (case (case split_host_port endpoint of
              Some hp \<Rightarrow> Some hp
            | None \<Rightarrow> (case split_host_port (''host:'' @ endpoint) of
                None \<Rightarrow> None
              | Some (host, port) \<Rightarrow> if host = ''host'' then Some (host, port) else None)) of
        None \<Rightarrow> False
      | Some (host, port) \<Rightarrow> \<not> is_blank host \<and> number_within 1 65535 port)"

definition validRunTargetServiceHTTP :: "go_library \<Rightarrow> string \<Rightarrow> bool" where
  "validRunTargetServiceHTTP lib endpoint \<longleftrightarrow>
     (case glParseURL lib endpoint of
        None \<Rightarrow> False
      | Some u \<Rightarrow> (urlScheme u = ''http'' \<or> urlScheme u = ''https'') \<and> urlHost u \<noteq> '''')"

definition service_diags :: "go_library \<Rightarrow> service_requirement list \<Rightarrow> string \<Rightarrow> nat \<Rightarrow> service_requirement \<Rightarrow> diagnostic list" where
  "service_diags lib services here i q =
     (let code = ''TSPACK_MANIFEST_SERVICE_INVALID''; key = (\<lambda>q. go_lower (glLower lib) (sqName q));
          hasTCP = (\<not> is_blank (sqTCP q)); hasHTTP = (\<not> is_blank (sqHTTP q))
      in fault (sqKind q \<noteq> '''' \<and> sqKind q \<noteq> ''service'') code (here @ ''.kind must be service'') @
         fault (is_blank (sqName q)) code (here @ ''.name must be non-empty'') @
         (case find (\<lambda>r. key r = key q) (rev (take i services)) of
            None \<Rightarrow> []
          | Some previous \<Rightarrow> [errD ''TSPACK_MANIFEST_SERVICE_DUPLICATE''
              (''duplicate run target service requirement name: '' @ sqName previous @ '' and '' @ sqName q) []]) @
         fault (hasTCP = hasHTTP) code (here @ '' must provide exactly one of tcp or http'') @
         fault (hasTCP \<and> \<not> validRunTargetServiceTCP (sqTCP q)) code (here @ ''.tcp must be host:port with port 1-65535'') @
         fault (hasHTTP \<and> \<not> validRunTargetServiceHTTP lib (sqHTTP q)) code (here @ ''.http must be an http/https URL'') @
         fault (sqExpectStatus q \<noteq> 0 \<and> (sqExpectStatus q < 100 \<or> sqExpectStatus q > 599)) code
           (here @ ''.expectStatus must be between 100 and 599'') @
         fault (sqTimeoutMs q \<noteq> 0 \<and> (sqTimeoutMs q < 1 \<or> sqTimeoutMs q > 60000)) code
           (here @ ''.timeoutMs must be between 1 and 60000''))"

definition validateRunTargetRequirements :: "go_library \<Rightarrow> string \<Rightarrow> service_requirement list \<Rightarrow> diagnostic list" where
  "validateRunTargetRequirements lib path services =
     each_at (path @ ''.requires'') (service_diags lib services) services"

section \<open>Run targets\<close>

definition runTargetURLIsOptional :: "run_target \<Rightarrow> bool" where
  "runTargetURLIsOptional t =
     (case rtReady t of None \<Rightarrow> True | Some r \<Rightarrow> rcKind r = ''tcp'' \<or> rcKind r = ''stdout-match'')"

definition run_env_diags :: "go_library \<Rightarrow> run_env list \<Rightarrow> string \<Rightarrow> nat \<Rightarrow> run_env \<Rightarrow> diagnostic list" where
  "run_env_diags lib env here i e =
     (let key = (\<lambda>e. go_upper (glUpper lib) (reName e)) in
      fault (reName e = '''' \<or> \<not> env_name (reName e)) ''TSPACK_MANIFEST_ENV_INVALID'' (here @ ''.name is invalid'') @
      (case find (\<lambda>x. key x = key e) (rev (take i env)) of
         None \<Rightarrow> []
       | Some previous \<Rightarrow> [errD ''TSPACK_MANIFEST_ENV_DUPLICATE''
           (''duplicate run target env name: '' @ reName previous @ '' and '' @ reName e) []]))"

definition run_target_diags :: "go_library \<Rightarrow> run_target list \<Rightarrow> string \<Rightarrow> nat \<Rightarrow> run_target \<Rightarrow> diagnostic list" where
  "run_target_diags lib ts here i t =
     fault (rtName t = '''' \<or> \<not> target_name (rtName t)) ''TSPACK_RUN_INVALID_TARGET'' (here @ ''.name is invalid'') @
     fault (rtName t \<in> set (map rtName (take i ts))) ''TSPACK_RUN_DUPLICATE_TARGET'' (''duplicate run target name: '' @ rtName t) @
     fault (rtRuntime t \<notin> set ['''', ''system'', ''node'', ''bun'', ''deno'']) ''TSPACK_RUN_INVALID_RUNTIME''
       (here @ ''.runtime is invalid'') @
     fault (rtExplicitRuntime t \<noteq> '''' \<and> rtExplicitRuntime t \<noteq> rtRuntime t) ''TSPACK_RUN_INVALID_RUNTIME''
       (here @ ''.explicitRuntime must match runtime'') @
     fault (rtCwd t \<notin> set ['''', ''workspace'', ''package'']) ''TSPACK_RUN_INVALID_CWD'' (here @ ''.cwd must be workspace or package'') @
     fault (rtCommand t = []) ''TSPACK_RUN_INVALID_COMMAND'' (here @ ''.command must be non-empty'') @
     concat (map (\<lambda>part. fault (is_blank part) ''TSPACK_RUN_INVALID_COMMAND'' (here @ ''.command entries must be non-empty'')) (rtCommand t)) @
     fault ((\<not> runTargetURLIsOptional t \<or> \<not> is_blank (rtURL t)) \<and> \<not> url_acceptable lib [''http'', ''https''] (rtURL t))
       ''TSPACK_RUN_INVALID_URL'' (here @ ''.url must be valid http/https URL'') @
     fault (case rtReady t of None \<Rightarrow> False | Some r \<Rightarrow> \<not> validRunReadyCheck r) ''TSPACK_RUN_INVALID_READY''
       (here @ ''.ready is invalid'') @
     each_at (here @ ''.env'') (run_env_diags lib (rtEnv t)) (rtEnv t) @
     validateRunTargetRequirements lib here (rtRequires t)"

section \<open>The Skyrim target\<close>

definition validateSkyrimCommand :: "string \<Rightarrow> skyrim_command \<Rightarrow> diagnostic list" where
  "validateSkyrimCommand path c =
     (let code = ''TSPACK_SKYRIM_COMMAND_INVALID'' in
      fault (syCommand c = []) code (path @ ''.command must be non-empty'') @
      concat (map (\<lambda>part. fault (is_blank part) code (path @ ''.command entries must be non-empty'')) (syCommand c)) @
      fault (syCwd c \<notin> set ['''', ''workspace'', ''package'']) code (path @ ''.cwd must be workspace or package''))"

text \<open>
  The six path fields are a Go map in the code, walked in any order; the diagnostics are sorted
  afterwards and their texts differ, so the order does not show.
\<close>

definition skyrim_paths :: "skyrim_target \<Rightarrow> (string \<times> string) list" where
  "skyrim_paths t =
     [(''nativeDll'', skNativeDLL t), (''assetCompilerProject'', skAssetCompilerProject t),
      (''assetTestsProject'', skAssetTestsProject t), (''assetOutput'', skAssetOutput t),
      (''runtimeConfig'', skRuntimeConfig t), (''runtimeEvidencePattern'', skRuntimeEvidencePattern t)]"

definition skyrim_override_diags :: "string \<Rightarrow> skyrim_target \<Rightarrow> diagnostic list" where
  "skyrim_override_diags path t =
     fault (skRuntimeOverrideFields t \<noteq> [] \<and> (is_blank (skRuntimeOverrideTarget t) \<or> \<not> target_name (skRuntimeOverrideTarget t)))
       ''TSPACK_SKYRIM_OVERRIDE_TARGET_INVALID''
       (path @ ''.runtimeOverrideTarget is required and must be a valid target name when runtimeOverrideFields are declared'') @
     each_at (path @ ''.runtimeOverrideFields'') (\<lambda>here i f.
       fault (is_blank (roPath f) \<or> has_prefix (roPath f) ''.'' \<or> has_suffix (roPath f) ''.'' \<or> contains_str (roPath f) ''..'')
         ''TSPACK_SKYRIM_OVERRIDE_PATH_INVALID'' (here @ ''.path must be a non-empty dotted TOML path'') @
       fault (roPath f \<in> set (map roPath (take i (skRuntimeOverrideFields t)))) ''TSPACK_SKYRIM_OVERRIDE_DUPLICATE''
         (''duplicate Skyrim runtime override path: '' @ roPath f) @
       fault (roType f \<notin> set [''boolean'', ''string'', ''integer'']) ''TSPACK_SKYRIM_OVERRIDE_TYPE_INVALID''
         (here @ ''.type must be boolean, string, or integer'')) (skRuntimeOverrideFields t) @
     fault (length (skINIOverrideFields t) > 1) ''TSPACK_SKYRIM_INI_OVERRIDE_INVALID''
       (path @ ''.iniOverrideFields supports only the declared General.bAlwaysActive setting'') @
     each_at (path @ ''.iniOverrideFields'') (\<lambda>here i f.
       fault (ioSection f \<noteq> ''General'' \<or> ioKey f \<noteq> ''bAlwaysActive'' \<or> ioType f \<noteq> ''boolean'')
         ''TSPACK_SKYRIM_INI_OVERRIDE_INVALID'' (here @ '' must declare General.bAlwaysActive as boolean'')) (skINIOverrideFields t)"

definition skyrim_pack_diags :: "string \<Rightarrow> skyrim_target \<Rightarrow> diagnostic list" where
  "skyrim_pack_diags path t =
     each_at (path @ ''.assetPacks'') (\<lambda>here i a.
       fault (is_blank (apName a)) ''TSPACK_SKYRIM_ASSET_PACK_INVALID'' (here @ ''.name is required'') @
       fault (apName a \<in> set (map apName (take i (skAssetPacks t)))) ''TSPACK_SKYRIM_ASSET_PACK_DUPLICATE''
         (''duplicate Skyrim asset pack: '' @ apName a) @
       fault (\<not> IsSafePackageFilePath (apSource a)) ''TSPACK_SKYRIM_PATH_INVALID''
         (here @ ''.source must be a safe project-relative path'')) (skAssetPacks t) @
     fault (skAssetPacks t = []) ''TSPACK_SKYRIM_ASSET_PACK_INVALID'' (path @ ''.assetPacks must be non-empty'') @
     fault (skExpectedRecords t = []) ''TSPACK_SKYRIM_RECORDS_INVALID'' (path @ ''.expectedRecords must be non-empty'') @
     fault (is_blank (skReadyMarker t)) ''TSPACK_SKYRIM_EVIDENCE_INVALID'' (path @ ''.readyMarker is required'')"

definition validateSkyrimTarget :: "string \<Rightarrow> skyrim_target option \<Rightarrow> diagnostic list" where
  "validateSkyrimTarget path target =
     (case target of
        None \<Rightarrow> []
      | Some t \<Rightarrow>
          (let here = path @ ''.skyrim'' in
           fault (is_blank (skName t) \<or> \<not> target_name (skName t)) ''TSPACK_SKYRIM_TARGET_INVALID'' (here @ ''.name is invalid'') @
           fault (is_blank (skHost t) \<or> \<not> target_name (skHost t)) ''TSPACK_SKYRIM_HOST_INVALID'' (here @ ''.host is invalid'') @
           fault (is_blank (skRuntimeVersion t)) ''TSPACK_SKYRIM_RUNTIME_INVALID'' (here @ ''.runtimeVersion is required'') @
           fault (skBridge t \<noteq> ''MarionetteSSE.esp'') ''TSPACK_SKYRIM_BRIDGE_INVALID'' (here @ ''.bridge must be MarionetteSSE.esp'') @
           fault (skAssetOutput t \<noteq> ''build/assets/MarionetteSSE.esp'') ''TSPACK_SKYRIM_BRIDGE_INVALID''
             (here @ ''.assetOutput must be build/assets/MarionetteSSE.esp'') @
           validateSkyrimCommand (here @ ''.nativeConfigure'') (skNativeConfigure t) @
           validateSkyrimCommand (here @ ''.nativeBuild'') (skNativeBuild t) @
           validateSkyrimCommand (here @ ''.nativeTests'') (skNativeTests t) @
           concat (map (\<lambda>(field, v). fault (\<not> path_or_glob v) ''TSPACK_SKYRIM_PATH_INVALID''
             (here @ ''.'' @ field @ '' must be a safe project-relative path'')) (skyrim_paths t)) @
           fault (skDLLDestination t \<noteq> ''SKSE/Plugins/MarionetteSSE.dll'') ''TSPACK_SKYRIM_DESTINATION_INVALID''
             (here @ ''.dllDestination must be SKSE/Plugins/MarionetteSSE.dll'') @
           fault (skConfigDestination t \<noteq> ''SKSE/Plugins/MarionetteSSE.toml'') ''TSPACK_SKYRIM_DESTINATION_INVALID''
             (here @ ''.configDestination must be SKSE/Plugins/MarionetteSSE.toml'') @
           skyrim_override_diags here t @ skyrim_pack_diags here t))"

section \<open>Boundaries, policies and publication\<close>

definition scopeSpecified :: "string \<Rightarrow> bool \<Rightarrow> bool" where
  "scopeSpecified v specified \<longleftrightarrow> specified \<or> v \<noteq> ''''"

definition isValidBoundaryScopePattern :: "string \<Rightarrow> bool" where
  "isValidBoundaryScopePattern v \<longleftrightarrow> IsSafePackageFilePath v \<or> IsSafeRelativeGlob v"

definition boundary_diags :: "string \<Rightarrow> boundary_rule \<Rightarrow> diagnostic list" where
  "boundary_diags here b =
     (let from_set = scopeSpecified (brFrom b) (brFromSpecified b);
          transitive_set = scopeSpecified (brTransitiveFrom b) (brTransitiveFromSpecified b)
      in fault (from_set \<and> transitive_set) ''TSPACK_BOUNDARY_INVALID_SCOPE'' (here @ '' cannot specify both from and transitiveFrom'') @
         fault (from_set \<and> \<not> isValidBoundaryScopePattern (brFrom b)) ''TSPACK_IR_INVALID_BOUNDARY'' (here @ ''.from is invalid'') @
         fault (transitive_set \<and> \<not> isValidBoundaryScopePattern (brTransitiveFrom b)) ''TSPACK_BOUNDARY_INVALID_TRANSITIVE_FROM''
           (here @ ''.transitiveFrom is invalid'') @
         each_at (here @ ''.allowOnly'') (\<lambda>there i a.
           fault (is_blank a) ''TSPACK_BOUNDARY_INVALID_ALLOW_ONLY'' (there @ '' must be a non-empty string'')) (brAllowOnly b) @
         each_at (here @ ''.denyTypeDeps'') (\<lambda>there i a.
           fault (is_blank a) ''TSPACK_BOUNDARY_INVALID_DENY_TYPE_DEPS'' (there @ '' must be a non-empty string'')) (brDenyTypeDeps b))"

definition policy_diags :: "manifest_package \<Rightarrow> diagnostic list" where
  "policy_diags p =
     concat (map (\<lambda>(k, v). fault (\<not> isValidTypePolicy k v) ''TSPACK_IR_INVALID_POLICY'' (''invalid types policy: '' @ k))
       (mpTypePolicies p)) @
     concat (map (\<lambda>(k, v). fault (\<not> isValidBoundaryPolicy k v) ''TSPACK_IR_INVALID_POLICY'' (''invalid boundaries policy: '' @ k))
       (mpBoundaryPolicies p))"

definition publish_diags :: "string \<Rightarrow> manifest_package \<Rightarrow> diagnostic list" where
  "publish_diags path p =
     fault (mpKind p = ''library'' \<and> mpPublishInclude p = []) ''TSPACK_IR_INVALID_PUBLISH_POLICY''
       (path @ ''.publish.include required for library'') @
     concat (map (\<lambda>x. fault (\<not> path_or_glob x) ''TSPACK_IR_INVALID_PUBLISH_POLICY'' (''publish path is invalid: '' @ x))
       (mpPublishInclude p @ mpPublishExclude p))"

end
