(* ===== verification/Target_Search.thy ===== *)
theory Target_Search
  imports Cycle_Search
begin

text \<open>
  The two searches of the manifest checks over build targets: the depth-first search that reports
  the first target found inside its own dependencies, and the depth-first search for a wanted target
  whose set of visited targets survives from one root to the next.
\<close>

section \<open>The searches\<close>

text \<open>
  The visit states: 1 for the targets of \<open>path\<close>, 2 for those of \<open>closed\<close>.  Once a cycle is reported
  every call returns at once, so \<open>Inl\<close> of the target ends the search.
\<close>

fun visit_targets :: "('a \<Rightarrow> 'a list) \<Rightarrow> nat \<Rightarrow> 'a list \<Rightarrow> 'a set \<Rightarrow> 'a set \<Rightarrow> ('a + 'a set) option" where
  "visit_targets adj fuel [] path closed = Some (Inr closed)"
| "visit_targets adj 0 (i # is) path closed = None"
| "visit_targets adj (Suc fuel) (i # is) path closed =
     (if i \<in> path then Some (Inl i)
      else if i \<in> closed then visit_targets adj (Suc fuel) is path closed
      else (case visit_targets adj fuel (adj i) (insert i path) closed of
              None \<Rightarrow> None
            | Some (Inl j) \<Rightarrow> Some (Inl j)
            | Some (Inr closed') \<Rightarrow> visit_targets adj (Suc fuel) is path (insert i closed')))"

fun visit_wanted :: "('a \<Rightarrow> 'a list) \<Rightarrow> 'a \<Rightarrow> nat \<Rightarrow> 'a list \<Rightarrow> 'a set \<Rightarrow> (bool \<times> 'a set) option" where
  "visit_wanted adj wanted fuel [] visited = Some (False, visited)"
| "visit_wanted adj wanted 0 (i # is) visited = None"
| "visit_wanted adj wanted (Suc fuel) (i # is) visited =
     (if i = wanted then Some (True, visited)
      else if i \<in> visited then visit_wanted adj wanted (Suc fuel) is visited
      else (case visit_wanted adj wanted fuel (adj i) (insert i visited) of
              None \<Rightarrow> None
            | Some (True, visited') \<Rightarrow> Some (True, visited')
            | Some (False, visited') \<Rightarrow> visit_wanted adj wanted (Suc fuel) is visited'))"

section \<open>What they answer\<close>

lemma visit_targets_erased:
  "map_option (case_sum (\<lambda>_. None) Some) (visit_targets adj fuel is path closed) = visit_cycle adj fuel is path closed"
proof (induction adj fuel "is" path closed rule: visit_targets.induct)
  case (3 adj fuel i "is" path closed)
  show ?case
  proof (cases "i \<in> path \<or> i \<in> closed")
    case True
    then show ?thesis using 3 by auto
  next
    case False
    then have n: "i \<notin> path" "i \<notin> closed" by auto
    with "3.IH"(2) have inner: "visit_cycle adj fuel (adj i) (insert i path) closed =
        map_option (case_sum (\<lambda>_. None) Some) (visit_targets adj fuel (adj i) (insert i path) closed)" by simp
    show ?thesis
      using n "3.IH"(3) [OF n] by (auto simp: inner split: option.splits sum.splits)
  qed
qed simp_all

text \<open>The search for a wanted target marks as \<open>mark_reachable\<close> does until it finds it.\<close>

lemma visit_wanted_found:
  "visit_wanted adj wanted fuel is visited = Some (True, visited') \<Longrightarrow> \<exists>i \<in> set is. (i, wanted) \<in> (edges adj)\<^sup>*"
proof (induction adj wanted fuel "is" visited arbitrary: visited' rule: visit_wanted.induct)
  case (3 adj wanted fuel i "is" visited)
  show ?case
  proof (cases "i = wanted \<or> i \<in> visited")
    case True
    with "3.prems" "3.IH"(1) show ?thesis by (cases "i = wanted") auto
  next
    case False
    then have n: "i \<noteq> wanted" "i \<notin> visited" by auto
    with "3.prems" obtain b v where inner: "visit_wanted adj wanted fuel (adj i) (insert i visited) = Some (b, v)"
      by (auto split: option.splits)
    show ?thesis
    proof (cases b)
      case True
      with "3.IH"(2) [OF n] inner obtain c where "c \<in> set (adj i)" "(c, wanted) \<in> (edges adj)\<^sup>*" by auto
      then have "(i, wanted) \<in> (edges adj)\<^sup>*" by (auto intro: converse_rtrancl_into_rtrancl)
      then show ?thesis by auto
    next
      case False
      with "3.prems" n inner have "visit_wanted adj wanted (Suc fuel) is v = Some (True, visited')" by simp
      with "3.IH"(3) [OF n inner refl] False show ?thesis by auto
    qed
  qed
qed simp_all

lemma visit_wanted_marks:
  "visit_wanted adj wanted fuel is visited = Some (False, visited') \<Longrightarrow>
    mark_reachable adj fuel is visited = Some visited' \<and> (wanted \<notin> visited \<longrightarrow> wanted \<notin> visited')"
proof (induction adj wanted fuel "is" visited arbitrary: visited' rule: visit_wanted.induct)
  case (3 adj wanted fuel i "is" visited)
  from "3.prems" have nw: "i \<noteq> wanted" by auto
  show ?case
  proof (cases "i \<in> visited")
    case True
    with 3 nw show ?thesis by auto
  next
    case nv: False
    with "3.prems" nw obtain v where inner: "visit_wanted adj wanted fuel (adj i) (insert i visited) = Some (False, v)"
      and later: "visit_wanted adj wanted (Suc fuel) is v = Some (False, visited')"
      by (auto split: option.splits prod.splits bool.splits)
    from "3.IH"(2) [OF nw nv inner] "3.IH"(3) [OF nw nv inner refl _ later] nw nv show ?thesis by auto
  qed
qed auto

context finite_graph
begin

lemma visit_wanted_enough:
  "g = adj \<Longrightarrow> set is \<subseteq> U \<Longrightarrow> card (U - visited) < fuel \<Longrightarrow> \<exists>r. visit_wanted g wanted fuel is visited = Some r"
proof (induction g wanted fuel "is" visited rule: visit_wanted.induct)
  case (3 g wanted fuel i "is" visited)
  show ?case
  proof (cases "i = wanted \<or> i \<in> visited")
    case True
    with 3 show ?thesis by auto
  next
    case False
    then have n: "i \<noteq> wanted" "i \<notin> visited" by auto
    with "3.prems" card_insert_less [of i visited] have "card (U - insert i visited) < fuel" by simp
    with "3.IH"(2) [OF n "3.prems"(1)] adj_nodes "3.prems"(1) obtain b v where
        inner: "visit_wanted g wanted fuel (g i) (insert i visited) = Some (b, v)" by fastforce
    show ?thesis
    proof (cases b)
      case True
      with inner n show ?thesis by auto
    next
      case False
      with visit_wanted_marks [of g wanted fuel "g i" "insert i visited" v] inner
      have "insert i visited \<subseteq> v" by (auto dest!: mark_sound)
      then have "card (U - v) \<le> card (U - visited)" using finite_nodes by (intro card_mono) auto
      with "3.IH"(3) [OF n inner refl _ "3.prems"(1)] "3.prems" False obtain r where
          "visit_wanted g wanted (Suc fuel) is v = Some r" by auto
      with inner n False show ?thesis by simp
    qed
  qed
qed auto

lemma visit_wanted_decides:
  assumes "set is \<subseteq> U" and "card U < fuel"
  shows "\<exists>b v. visit_wanted adj wanted fuel is {} = Some (b, v) \<and> (b \<longleftrightarrow> (\<exists>i \<in> set is. (i, wanted) \<in> (edges adj)\<^sup>*))"
proof -
  obtain b v where r: "visit_wanted adj wanted fuel is {} = Some (b, v)"
    using visit_wanted_enough [of adj "is" "{}" fuel wanted] assms by auto
  have "\<not> (\<exists>i \<in> set is. (i, wanted) \<in> (edges adj)\<^sup>*)" if "\<not> b"
  proof -
    from visit_wanted_marks [of adj wanted fuel "is" "{}" v] r that
    have v: "mark_reachable adj fuel is {} = Some v" "wanted \<notin> v" by auto
    note m = mark_sound [OF v(1)]
    have "y \<in> v" if "i \<in> set is" "(i, y) \<in> (edges adj)\<^sup>*" for i y
      using that(2,1) m by (induction rule: rtrancl_induct) auto
    with v(2) show ?thesis by blast
  qed
  with visit_wanted_found [of adj wanted fuel "is" "{}" v] r show ?thesis by (cases b) auto
qed

lemma visit_targets_decides:
  assumes "set is \<subseteq> U" and "card U < fuel"
  shows "case visit_targets adj fuel is {} {} of
      None \<Rightarrow> False
    | Some (Inl i) \<Rightarrow> \<exists>i \<in> set is. \<exists>x. (i, x) \<in> (edges adj)\<^sup>* \<and> (x, x) \<in> (edges adj)\<^sup>+
    | Some (Inr _) \<Rightarrow> \<not> (\<exists>i \<in> set is. \<exists>x. (i, x) \<in> (edges adj)\<^sup>* \<and> (x, x) \<in> (edges adj)\<^sup>+)"
proof -
  obtain r where r: "visit_cycle adj fuel is {} {} = Some r"
    using visit_enough [of adj "is" "{}" fuel "{}"] assms by auto
  have "map_option (case_sum (\<lambda>_. None) Some) (visit_targets adj fuel is {} {}) = Some r"
    using visit_targets_erased [of adj fuel "is" "{}" "{}"] r by simp
  then obtain q where q: "visit_targets adj fuel is {} {} = Some q" "r = case_sum (\<lambda>_. None) Some q"
    by (cases "visit_targets adj fuel is {} {}") simp_all
  with visit_all_exact [OF r] show ?thesis by (cases q) auto
qed

end

end
