(* ===== verification/Manifest_Targets.thy ===== *)
theory Manifest_Targets
  imports Manifest_Runs Target_Search
begin

text \<open>
  The checks of \<open>Validate\<close> in \<open>internal/manifest/ir.go\<close> on build targets and test targets, with the
  two passes over the whole workspace: the dependencies between build targets, which must not have a
  cycle, and the build targets that tests and their built fixtures need.
\<close>

section \<open>Artifacts\<close>

definition validTargetArtifactKind :: "string \<Rightarrow> bool" where
  "validTargetArtifactKind k \<longleftrightarrow> k \<in> set [''javaScript'', ''typeDeclarations'', ''sourceMap'', ''metadata'', ''staticAsset'']"

definition validTargetArtifactRole :: "string \<Rightarrow> bool" where
  "validTargetArtifactRole r \<longleftrightarrow>
     r \<in> set ['''', ''runtimeEntry'', ''runtimeChunk'', ''typeDeclaration'', ''declarationChunk'', ''sourceMap'', ''metadata'',
       ''staticAsset'']"

definition artifact_diags :: "string \<Rightarrow> target_artifact list \<Rightarrow> diagnostic list" where
  "artifact_diags path as =
     each_at (path @ ''.artifacts'') (\<lambda>here i a.
       fault (maName a = '''' \<or> \<not> target_name (maName a)) ''TSPACK_COMPILER_ARTIFACT_NAME_INVALID'' (here @ ''.name is invalid'') @
       fault (maName a \<in> set (map maName (take i as))) ''TSPACK_COMPILER_ARTIFACT_DUPLICATE''
         (path @ '' has duplicate artifact name: '' @ maName a) @
       fault (\<not> validTargetArtifactKind (maKind a)) ''TSPACK_COMPILER_ARTIFACT_KIND_INVALID'' (here @ ''.kind is invalid'') @
       fault (\<not> validTargetArtifactRole (maRole a)) ''TSPACK_COMPILER_ARTIFACT_ROLE_INVALID'' (here @ ''.role is invalid'') @
       fault (\<not> path_or_glob (maPath a)) ''TSPACK_COMPILER_ARTIFACT_PATH_INVALID'' (here @ ''.path must be a safe relative path or glob'') @
       fault (maPath a \<in> set (map maPath (take i as))) ''TSPACK_COMPILER_ARTIFACT_DUPLICATE''
         (path @ '' has duplicate artifact path: '' @ maPath a)) as"

section \<open>Compilers\<close>

definition package_compiler :: "string \<Rightarrow> bool" where
  "package_compiler c \<longleftrightarrow> c \<in> set [''tsc'', ''tscl'', ''scriptc'', ''perry'']"

definition target_compiler :: "manifest_package \<Rightarrow> manifest_target \<Rightarrow> string" where
  "target_compiler p t = (if mtCompiler t = '''' then mpCompiler p else mtCompiler t)"

definition compiler_language :: "string \<Rightarrow> string" where
  "compiler_language c =
     (if c = ''tscl'' then ''copeland-ts'' else if c = ''scriptc'' then ''scriptc''
      else if c = ''perry'' then ''perry-ts'' else ''typescript'')"

definition compiler_artifact :: "string \<Rightarrow> string" where
  "compiler_artifact c =
     (if c = ''scriptc'' \<or> c = ''perry'' then ''nativeExecutable'' else if c = ''tscl'' then ''javaScript'' else '''')"

text \<open>The defaults that the loop writes into a target.\<close>

definition filled_target :: "manifest_package \<Rightarrow> manifest_target \<Rightarrow> manifest_target" where
  "filled_target p t =
     (let c = target_compiler p t in
      t\<lparr>mtCompiler := c,
        mtLanguage := (if mtLanguage t = '''' then compiler_language c else mtLanguage t),
        mtArtifact := (if mtArtifact t = '''' then compiler_artifact c else mtArtifact t)\<rparr>)"

definition compiler_diags :: "manifest_package \<Rightarrow> string \<Rightarrow> manifest_target \<Rightarrow> diagnostic list" where
  "compiler_diags p here t =
     (let c = target_compiler p t in
      fault (\<not> package_compiler c \<and> c \<noteq> ''rollup'' \<and> c \<noteq> ''vite'') ''TSPACK_MANIFEST_INVALID_COMPILER''
        (here @ ''.compiler must be tsc, tscl, scriptc, perry, rollup, or vite'') @
      fault (c = ''tscl'' \<and> is_blank (mpCompilerPath p)) ''TSPACK_TSCL_PATH_REQUIRED''
        (here @ '' requires package compilerPath for the Copeland tool'') @
      fault (mtCompilerConfig t \<noteq> '''' \<and> \<not> IsSafePackageFilePath (mtCompilerConfig t)) ''TSPACK_COMPILER_CONFIG_INVALID''
        (here @ ''.compilerConfig must be a safe relative path'') @
      fault (mtCompilerPath t \<noteq> '''' \<and> \<not> has_prefix (mtCompilerPath t) ''/'' \<and> \<not> IsSafePackageFilePath (mtCompilerPath t))
        ''TSPACK_COMPILER_TOOL_PATH_INVALID'' (here @ ''.compilerPath must be a safe relative path'') @
      concat (map (\<lambda>x. fault (\<not> path_or_glob x) ''TSPACK_COMPILER_INPUT_INVALID''
        (here @ ''.inputs must contain safe relative paths or globs'')) (mtInputs t)))"

definition bounded_compiler_diags :: "string \<Rightarrow> string \<Rightarrow> string \<Rightarrow> manifest_target \<Rightarrow> diagnostic list" where
  "bounded_compiler_diags tool milestone here t =
     fault (mtInputs t = []) ''TSPACK_COMPILER_INPUTS_REQUIRED'' (here @ ''.inputs is required for a bounded '' @ tool @ '' target'') @
     fault (mtArtifact t \<noteq> '''' \<and> mtArtifact t \<noteq> ''nativeExecutable'') ''TSPACK_COMPILER_ARTIFACT_UNSUPPORTED''
       (here @ ''.artifact must be nativeExecutable for '' @ milestone @ '' '' @ tool @ '' targets'')"

definition tool_output_diags :: "string \<Rightarrow> string \<Rightarrow> manifest_target \<Rightarrow> diagnostic list" where
  "tool_output_diags c here t =
     (if c = ''scriptc'' then bounded_compiler_diags ''ScriptC'' ''M71a'' here t else []) @
     (if c = ''perry'' then bounded_compiler_diags ''Perry'' ''M71b'' here t else []) @
     (if c = ''tscl'' then
        fault (mtArtifact t \<noteq> '''' \<and> mtArtifact t \<notin> set [''javaScript'', ''managedExecutable'', ''nativeExecutable'', ''wasmModule''])
          ''TSPACK_COMPILER_ARTIFACT_UNSUPPORTED''
          (here @ ''.artifact must be javaScript, managedExecutable, nativeExecutable, or wasmModule for Copeland targets'') @
        fault (mtArtifact t = ''nativeExecutable'' \<and> is_blank (mtRuntimeIdentifier t)) ''TSPACK_COPELAND_RID_REQUIRED''
          (here @ ''.runtimeIdentifier is required for a Copeland nativeExecutable target'')
      else [])"

section \<open>Build targets\<close>

definition reference_diags :: "string \<Rightarrow> string \<Rightarrow> effective_dependency list \<Rightarrow> string list \<Rightarrow> diagnostic list" where
  "reference_diags here list ds refs =
     concat (map (\<lambda>ref. fault (dependency_at ds ref = None) ''TSPACK_IR_UNKNOWN_DEPENDENCY_REF''
       (here @ list @ '' has unknown dependency: '' @ ref)) refs)"

definition target_path_diags :: "manifest_package \<Rightarrow> string \<Rightarrow> manifest_target \<Rightarrow> diagnostic list" where
  "target_path_diags p here t =
     concat (map (\<lambda>(name, v).
       fault (\<not> ((mpKind p = ''app'' \<or> mtCompiler t = ''vite'') \<and> name = ''types'' \<and> v = '''') \<and> \<not> IsSafePackageFilePath v)
         ''TSPACK_IR_INVALID_RELATIVE_PATH'' (here @ ''.'' @ name @ '' must be a safe relative path''))
       [(''entry'', mtEntry t), (''runtime'', mtRuntime t), (''types'', mtTypes t)])"

definition target_diags_at :: "manifest_package \<Rightarrow> string \<Rightarrow> nat \<Rightarrow> manifest_target \<Rightarrow> diagnostic list" where
  "target_diags_at p here i t =
     compiler_diags p here t @ artifact_diags here (mtArtifacts t) @ tool_output_diags (target_compiler p t) here t @
     fault (mtName t = '''' \<or> \<not> target_name (mtName t) \<or> has_prefix (mtName t) ''/'' \<or> has_suffix (mtName t) ''/'' \<or>
         contains_str (mtName t) ''..'') ''TSPACK_IR_INVALID_TARGET_NAME'' (here @ ''.name is invalid'') @
     fault (mtName t \<in> set (map mtName (take i (mpTargets p)))) ''TSPACK_IR_DUPLICATE_TARGET'' (''duplicate target name: '' @ mtName t) @
     fault (mtExport t \<noteq> ''.'' \<and> (\<not> has_prefix (mtExport t) ''./'' \<or> contains_str (mtExport t) ''..''))
       ''TSPACK_IR_INVALID_EXPORT_PATH'' (here @ ''.export is invalid'') @
     fault (mtExport t \<in> set (map mtExport (take i (mpTargets p)))) ''TSPACK_IR_DUPLICATE_EXPORT'' (''duplicate export path: '' @ mtExport t) @
     fault (mtJavaScriptRuntime t \<notin> set ['''', ''node'', ''browser'']) ''TSPACK_IR_INVALID_JAVASCRIPT_RUNTIME''
       (here @ ''.javascriptRuntime must be node or browser'') @
     target_path_diags p here t @
     reference_diags here ''.peers'' (mpDependencies p) (mtPeers t) @
     reference_diags here ''.deps'' (mpDependencies p) (mtDeps t)"

text \<open>The inputs of all targets in a row; an input that another target had last is an overlap.\<close>

definition target_inputs :: "string \<Rightarrow> manifest_target list \<Rightarrow> (string \<times> string \<times> string) list" where
  "target_inputs path ts =
     concat (map (\<lambda>(i, t). map (\<lambda>x. (indexed (path @ ''.targets'') i, mtName t, x)) (mtInputs t)) (enumerate 0 ts))"

definition overlap_diags :: "string \<Rightarrow> manifest_target list \<Rightarrow> diagnostic list" where
  "overlap_diags path ts =
     (let entries = target_inputs path ts in
      each_indexed (\<lambda>k (here, name, x).
        case find (\<lambda>(_, _, y). y = x) (rev (take k entries)) of
          None \<Rightarrow> []
        | Some (_, owner, _) \<Rightarrow> fault (owner \<noteq> name) ''TSPACK_COMPILER_SOURCE_OVERLAP''
            (here @ ''.inputs overlaps target '' @ owner @ '' through identical pattern '' @ x)) entries)"

section \<open>Test targets\<close>

definition fixture_diags :: "manifest_package \<Rightarrow> string \<Rightarrow> test_target \<Rightarrow> string \<Rightarrow> nat \<Rightarrow> test_fixture \<Rightarrow> diagnostic list" where
  "fixture_diags p path t here i f =
     fault (tfName f = '''' \<or> \<not> target_name (tfName f)) ''TSPACK_TEST_FIXTURE_NAME_INVALID'' (here @ ''.name is invalid'') @
     fault (tfName f \<in> set (map tfName (take i (ttFixtures t)))) ''TSPACK_TEST_FIXTURE_DUPLICATE''
       (path @ '' has duplicate fixture name: '' @ tfName f) @
     (case dependency_at (mpDependencies p) (tfDependency f) of
        None \<Rightarrow> [errD ''TSPACK_TEST_FIXTURE_PRODUCER_UNKNOWN'' (here @ ''.dependency is unknown: '' @ tfDependency f) []]
      | Some d \<Rightarrow>
          (let s = edSource d in
           if tfMode f = ''source'' \<and> asKind s \<noteq> ''path'' \<and> asKind s \<noteq> ''workspace''
           then [errD ''TSPACK_TEST_FIXTURE_PRODUCER_INVALID''
             (here @ ''.source-mode dependency must reference a path or workspace package'') []]
           else fault (asKind s = ''workspace'' \<and> (asName s = mpName p \<or> asPackage s = mpName p))
             ''TSPACK_TEST_FIXTURE_SELF_REFERENCE'' (here @ '' cannot reference its owning package''))) @
     fault (\<not> (tfDependency f \<in> set (ttRequirements t) \<and> dependency_at (mpDependencies p) (tfDependency f) \<noteq> None))
       ''TSPACK_TEST_FIXTURE_REQUIREMENT_MISSING'' (here @ ''.dependency must also appear in requirements: '' @ tfDependency f) @
     fault (\<not> package_name (tfBinding f)) ''TSPACK_TEST_FIXTURE_BINDING_INVALID'' (here @ ''.binding must be a safe npm package binding'') @
     fault (tfBinding f \<in> set (map tfBinding (take i (ttFixtures t)))) ''TSPACK_TEST_FIXTURE_BINDING_DUPLICATE''
       (path @ '' has duplicate fixture binding: '' @ tfBinding f) @
     fault (tfMode f \<noteq> ''package'' \<and> tfMode f \<noteq> ''source'') ''TSPACK_TEST_FIXTURE_MODE_INVALID''
       (here @ ''.mode must be package or source'')"

definition test_requirement_diags :: "manifest_package \<Rightarrow> string \<Rightarrow> string list \<Rightarrow> diagnostic list" where
  "test_requirement_diags p path rs =
     each_indexed (\<lambda>i r.
       if dependency_at (mpDependencies p) r = None
       then [errD ''TSPACK_TEST_REQUIREMENT_UNKNOWN'' (path @ ''.requirements has unknown dependency: '' @ r) []]
       else fault (r \<in> set (take i rs)) ''TSPACK_TEST_REQUIREMENT_DUPLICATE'' (path @ ''.requirements repeats dependency: '' @ r)) rs"

definition test_target_diags :: "manifest_package \<Rightarrow> string \<Rightarrow> nat \<Rightarrow> test_target \<Rightarrow> diagnostic list" where
  "test_target_diags p here i t =
     fault (ttName t = '''' \<or> \<not> target_name (ttName t)) ''TSPACK_TEST_INVALID_TARGET'' (here @ ''.name is invalid'') @
     fault (ttName t \<in> set (map ttName (take i (mpTestTargets p)))) ''TSPACK_TEST_DUPLICATE_TARGET''
       (''duplicate test target name: '' @ ttName t) @
     fault (ttHarness t \<noteq> ''vitest'' \<and> ttHarness t \<noteq> ''xtest'') ''TSPACK_TEST_INVALID_HARNESS'' (here @ ''.harness must be vitest or xtest'') @
     fault (ttSources t = []) ''TSPACK_TEST_SOURCES_REQUIRED'' (here @ ''.sources must not be empty'') @
     fault (ttConfig t \<noteq> '''' \<and> \<not> IsSafePackageFilePath (ttConfig t)) ''TSPACK_TEST_CONFIG_INVALID''
       (here @ ''.config must be a safe package-relative path'') @
     concat (map (\<lambda>x. fault (\<not> path_or_glob x) ''TSPACK_TEST_SOURCE_INVALID''
       (here @ ''.sources must contain safe package-relative paths or globs'')) (ttSources t)) @
     test_requirement_diags p here (ttRequirements t) @
     each_at (here @ ''.fixtures'') (fixture_diags p here t) (ttFixtures t)"

end
