(* ===== verification/Manifest_Validate.thy ===== *)
theory Manifest_Validate
  imports Manifest_Targets
begin

text \<open>
  \<open>Validate\<close> of \<open>internal/manifest/ir.go\<close> as a whole: the passes over the build targets of the
  workspace, the loop over the packages, and the manifest with the defaults the code writes into it.
\<close>

section \<open>All build targets\<close>

text \<open>The build targets with the package they belong to and their path, in order.\<close>

definition located_targets :: "manifest_package list \<Rightarrow> (string \<times> string \<times> manifest_target) list" where
  "located_targets ps =
     concat (map (\<lambda>(i, p). map (\<lambda>(k, t). (mpName p, indexed (indexed ''packages'' i @ ''.targets'') k, t))
       (enumerate 0 (mpTargets p))) (enumerate 0 ps))"

definition located_identity :: "string \<times> string \<times> manifest_target \<Rightarrow> string" where
  "located_identity l = (case l of (owner, _, t) \<Rightarrow> target_identity owner (mtName t))"

definition target_names :: "manifest_package list \<Rightarrow> string list" where
  "target_names ps = map located_identity (located_targets ps)"

text \<open>The maps of the code hold the last target of an identity.\<close>

definition target_at :: "manifest_package list \<Rightarrow> string \<Rightarrow> (string \<times> string \<times> manifest_target) option" where
  "target_at ps identity = find (\<lambda>l. located_identity l = identity) (rev (located_targets ps))"

section \<open>Dependencies between build targets\<close>

definition target_reference_diags :: "manifest_package list \<Rightarrow> string \<times> string \<times> manifest_target \<Rightarrow> diagnostic list" where
  "target_reference_diags ps l =
     (case l of (owner, _, t) \<Rightarrow>
        (let here = (case target_at ps (located_identity l) of None \<Rightarrow> '''' | Some (_, path, _) \<Rightarrow> path) in
         concat (map (\<lambda>ref.
           let d = reference_identity owner ref in
           if target_at ps d = None
           then [errD ''TSPACK_COMPILER_TARGET_DEPENDENCY_UNKNOWN'' (here @ ''.dependsOn has unknown target: '' @ ref) []]
           else fault (d = located_identity l) ''TSPACK_COMPILER_TARGET_DEPENDENCY_CYCLE'' (here @ ''.dependsOn cannot reference itself''))
           (mtDependsOn t))))"

definition target_edges :: "manifest_package list \<Rightarrow> string \<Rightarrow> string list" where
  "target_edges ps identity =
     sort_strings (concat (map (\<lambda>(owner, _, t).
       filter (\<lambda>d. target_at ps d \<noteq> None \<and> d \<noteq> identity) (map (reference_identity owner) (mtDependsOn t)))
       (filter (\<lambda>l. located_identity l = identity) (located_targets ps))))"

definition target_cycle_diags :: "manifest_package list \<Rightarrow> diagnostic list" where
  "target_cycle_diags ps =
     (case visit_targets (target_edges ps) (Suc (length (target_names ps))) (sort_strings (remdups (target_names ps))) {} {} of
        Some (Inl identity) \<Rightarrow>
          [errD ''TSPACK_COMPILER_TARGET_DEPENDENCY_CYCLE'' (''build target dependency cycle includes '' @ identity) []]
      | _ \<Rightarrow> [])"

definition validateBuildTargetDependencies :: "manifest_package list \<Rightarrow> diagnostic list" where
  "validateBuildTargetDependencies ps =
     concat (map (target_reference_diags ps) (located_targets ps)) @ target_cycle_diags ps"

section \<open>What tests need\<close>

text \<open>
  The search reads the owner off the identity.  The code starts it from the keys of a Go map, in any
  order; whether the target is found does not depend on it.
\<close>

definition prerequisite_edges :: "manifest_package list \<Rightarrow> string \<Rightarrow> string list" where
  "prerequisite_edges ps identity =
     (case target_at ps identity of
        None \<Rightarrow> []
      | Some (_, _, t) \<Rightarrow>
          (case cut_last (CHR '':'') identity of
             None \<Rightarrow> []
           | Some (owner, _) \<Rightarrow> if owner = '''' then [] else map (reference_identity owner) (mtDependsOn t)))"

definition prerequisite_fuel :: "manifest_package list \<Rightarrow> nat" where
  "prerequisite_fuel ps =
     Suc (length (target_names ps) + length (concat (map (prerequisite_edges ps) (target_names ps))))"

definition testBuildPrerequisiteReachable :: "manifest_package list \<Rightarrow> string list \<Rightarrow> string \<Rightarrow> bool" where
  "testBuildPrerequisiteReachable ps roots wanted =
     (case visit_wanted (prerequisite_edges ps) wanted (prerequisite_fuel ps) roots {} of
        None \<Rightarrow> False
      | Some (found, _) \<Rightarrow> found)"

definition known_prerequisites :: "manifest_package list \<Rightarrow> string \<Rightarrow> string list \<Rightarrow> string list" where
  "known_prerequisites ps owner refs = filter (\<lambda>i. target_at ps i \<noteq> None) (map (reference_identity owner) refs)"

definition depends_on_diags :: "manifest_package list \<Rightarrow> string \<Rightarrow> string \<Rightarrow> string list \<Rightarrow> diagnostic list" where
  "depends_on_diags ps owner path refs =
     each_indexed (\<lambda>i ref.
       let identity = reference_identity owner ref in
       if target_at ps identity = None
       then [errD ''TSPACK_TEST_BUILD_DEPENDENCY_UNKNOWN'' (path @ ''.dependsOn has unknown build target: '' @ ref) []]
       else fault (identity \<in> set (map (reference_identity owner) (take i refs))) ''TSPACK_TEST_BUILD_DEPENDENCY_DUPLICATE''
         (path @ ''.dependsOn repeats build target: '' @ ref)) refs"

definition wanted_artifact_diags :: "string \<Rightarrow> string \<Rightarrow> built_fixture \<Rightarrow> string list \<Rightarrow> diagnostic list" where
  "wanted_artifact_diags here producer f declared =
     each_indexed (\<lambda>i name.
       let path = (if bfArtifacts f \<noteq> [] then indexed (here @ ''.artifacts'') i else here @ ''.artifact'') in
       if name = '''' then [errD ''TSPACK_TEST_BUILT_FIXTURE_ARTIFACT_MISSING'' (path @ '' must not be empty'') []]
       else if name \<in> set (take i (ArtifactNames f))
       then [errD ''TSPACK_TEST_BUILT_FIXTURE_ARTIFACT_DUPLICATE'' (here @ '' repeats artifact: '' @ name) []]
       else fault (name \<notin> set declared) ''TSPACK_TEST_BUILT_FIXTURE_ARTIFACT_UNKNOWN''
         (path @ '' is not declared by '' @ producer @ '': '' @ name)) (ArtifactNames f)"

definition producer_diags :: "manifest_package list \<Rightarrow> string \<Rightarrow> string list \<Rightarrow> string \<Rightarrow> built_fixture \<Rightarrow> diagnostic list" where
  "producer_diags ps owner roots here f =
     (let identity = reference_identity owner (bfTarget f) in
      case target_at ps identity of
        None \<Rightarrow> [errD ''TSPACK_TEST_BUILT_FIXTURE_TARGET_UNKNOWN'' (here @ ''.target is unknown: '' @ bfTarget f) []]
      | Some (_, _, producer) \<Rightarrow>
          fault (\<not> testBuildPrerequisiteReachable ps roots identity) ''TSPACK_TEST_BUILT_FIXTURE_REQUIREMENT_MISSING''
            (here @ ''.target must also appear in dependsOn: '' @ bfTarget f) @
          fault (ArtifactNames f = []) ''TSPACK_TEST_BUILT_FIXTURE_ARTIFACT_MISSING'' (here @ '' must declare artifact or artifacts'') @
          fault (bfArtifact f \<noteq> '''' \<and> bfArtifacts f \<noteq> []) ''TSPACK_TEST_BUILT_FIXTURE_ARTIFACT_CONFLICT''
            (here @ '' cannot declare both artifact and artifacts'') @
          wanted_artifact_diags here identity f (map maName (declaredTargetArtifacts producer)))"

definition built_fixture_diags ::
  "manifest_package list \<Rightarrow> string \<Rightarrow> string \<Rightarrow> test_target \<Rightarrow> string \<Rightarrow> nat \<Rightarrow> built_fixture \<Rightarrow> diagnostic list" where
  "built_fixture_diags ps owner path t here i f =
     fault (bfName f = '''' \<or> \<not> target_name (bfName f)) ''TSPACK_TEST_BUILT_FIXTURE_NAME_INVALID'' (here @ ''.name is invalid'') @
     fault (bfName f \<in> set (map tfName (ttFixtures t) @ map bfName (take i (ttBuiltFixtures t)))) ''TSPACK_TEST_FIXTURE_DUPLICATE''
       (path @ '' has duplicate fixture name: '' @ bfName f) @
     producer_diags ps owner (known_prerequisites ps owner (ttDependsOn t)) here f @
     fault (\<not> package_name (bfBinding f)) ''TSPACK_TEST_FIXTURE_BINDING_INVALID'' (here @ ''.binding must be a safe npm package binding'') @
     fault (bfBinding f \<in> set (map tfBinding (ttFixtures t) @ map bfBinding (take i (ttBuiltFixtures t))))
       ''TSPACK_TEST_FIXTURE_BINDING_DUPLICATE'' (path @ '' has duplicate fixture binding: '' @ bfBinding f)"

definition validateTestBuildDependencies :: "manifest_package list \<Rightarrow> diagnostic list" where
  "validateTestBuildDependencies ps =
     each_at ''packages'' (\<lambda>here i p.
       each_at (here @ ''.testTargets'') (\<lambda>path k t.
         depends_on_diags ps (mpName p) path (ttDependsOn t) @
         each_at (path @ ''.builtFixtures'') (built_fixture_diags ps (mpName p) path t) (ttBuiltFixtures t))
         (mpTestTargets p)) ps"

section \<open>Packages\<close>

text \<open>A package as the loop leaves it: its compiler, its dependencies, its targets.\<close>

definition default_compiler :: "manifest_package \<Rightarrow> manifest_package" where
  "default_compiler p = (if mpCompiler p = '''' then p\<lparr>mpCompiler := ''tsc''\<rparr> else p)"

definition filled_package :: "manifest_package \<Rightarrow> manifest_package" where
  "filled_package p =
     (let q = prepared_package (default_compiler p) in q\<lparr>mpTargets := map (filled_target q) (mpTargets q)\<rparr>)"

definition package_head_diags :: "manifest_package list \<Rightarrow> string \<Rightarrow> nat \<Rightarrow> manifest_package \<Rightarrow> diagnostic list" where
  "package_head_diags ps here i p =
     (let c = mpCompiler (default_compiler p) in
      fault (\<not> package_name (mpName p)) ''TSPACK_IR_INVALID_PACKAGE_NAME'' (here @ ''.name is invalid'') @
      fault (\<not> version_text (mpVersion p)) ''TSPACK_IR_INVALID_PACKAGE_VERSION'' (here @ ''.version is invalid'') @
      fault (\<not> isValidPackageKind (mpKind p)) ''TSPACK_IR_INVALID_PACKAGE_KIND'' (here @ ''.kind is invalid'') @
      fault (\<not> package_compiler c) ''TSPACK_MANIFEST_INVALID_COMPILER'' (here @ ''.compiler must be tsc, tscl, scriptc, or perry'') @
      fault (c = ''tscl'' \<and> is_blank (mpCompilerPath p)) ''TSPACK_TSCL_PATH_REQUIRED''
        (here @ ''.compilerPath is required when compiler is tscl'') @
      fault (mpRoot p \<noteq> '''' \<and> \<not> IsSafePackageRoot (mpRoot p)) ''TSPACK_IR_INVALID_PACKAGE_ROOT''
        (here @ ''.root must be a safe relative path'') @
      fault (mpName p \<in> set (map mpName (take i ps))) ''TSPACK_IR_DUPLICATE_PACKAGE'' (''duplicate package name: '' @ mpName p))"

definition skyrim_count_diags :: "manifest_package list \<Rightarrow> nat \<Rightarrow> manifest_package \<Rightarrow> diagnostic list" where
  "skyrim_count_diags ps i p =
     fault (mpSkyrim p \<noteq> None \<and> list_ex (\<lambda>q. mpSkyrim q \<noteq> None) (take i ps)) ''TSPACK_SKYRIM_BRIDGE_DUPLICATE''
       ''only one Skyrim bridge target may be declared per workspace''"

definition package_body_diags :: "go_library \<Rightarrow> string \<Rightarrow> manifest_package \<Rightarrow> diagnostic list" where
  "package_body_diags lib here p =
     (let q = prepared_package (default_compiler p) in
      authoring_diags lib here (default_compiler p) @
      dependency_diags here (mpDependencies q) @
      each_at (here @ ''.targets'') (target_diags_at q) (mpTargets q) @
      overlap_diags here (mpTargets q) @
      tool_diags here (mpDependencies q) (mpTools q))"

definition package_rest_diags :: "go_library \<Rightarrow> string \<Rightarrow> manifest_package \<Rightarrow> diagnostic list" where
  "package_rest_diags lib here p =
     (let q = prepared_package (default_compiler p) in
      each_at (here @ ''.testTargets'') (test_target_diags q) (mpTestTargets q) @
      each_at (here @ ''.runTargets'') (run_target_diags lib (mpRunTargets q)) (mpRunTargets q) @
      policy_diags q @
      each_at (here @ ''.boundaries'') (\<lambda>there k b. boundary_diags there b) (mpBoundaries q) @
      publish_diags here q)"

definition package_checks :: "go_library \<Rightarrow> manifest_package list \<Rightarrow> string \<Rightarrow> nat \<Rightarrow> manifest_package \<Rightarrow> diagnostic list" where
  "package_checks lib ps here i p =
     package_head_diags ps here i p @ package_body_diags lib here p @
     validateDevBackend lib here (mpDevBackend p) @ validateSkyrimTarget here (mpSkyrim p) @ skyrim_count_diags ps i p @
     package_rest_diags lib here p"

section \<open>The manifest\<close>

definition package_name_set :: "manifest_ir \<Rightarrow> string set" where
  "package_name_set ir = set (map mpName (mfPackages ir))"

text \<open>The manifest with its defaults, which is what the later phases read.\<close>

definition validated_manifest :: "go_library \<Rightarrow> manifest_ir \<Rightarrow> manifest_ir" where
  "validated_manifest lib ir =
     ir\<lparr>mfWorkspace := default_runtime (mfWorkspace ir),
        mfWorkflows := snd (validateWorkflows (glUpper lib) (glNumber lib) (package_name_set ir) (mfWorkflows ir)),
        mfPackages := map filled_package (mfPackages ir)\<rparr>"

definition manifest_diags :: "go_library \<Rightarrow> manifest_ir \<Rightarrow> diagnostic list" where
  "manifest_diags lib ir =
     manifest_header_diags ir @
     validateRegistryPolicy lib (mfRegistryPolicy ir) @
     map (\<lambda>(code, message). errD code message [])
       (fst (validateWorkflows (glUpper lib) (glNumber lib) (package_name_set ir) (mfWorkflows ir))) @
     compat_diags lib (mfCompatFiles ir) @
     capability_ack_diags (mfCapabilities ir) @ category_diags (mfCategories ir) @ update_row_diags (mfUpdateRows ir) @
     each_at ''packages'' (package_checks lib (mfPackages ir)) (mfPackages ir) @
     validateBuildTargetDependencies (map filled_package (mfPackages ir)) @
     validateTestBuildDependencies (map filled_package (mfPackages ir))"

definition Validate_manifest :: "go_library \<Rightarrow> string \<Rightarrow> manifest_ir \<Rightarrow> diagnostic list \<times> manifest_ir" where
  "Validate_manifest lib file ir =
     (SortDiagnostics (map (\<lambda>d. d\<lparr>dgFile := file\<rparr>) (manifest_diags lib ir)), validated_manifest lib ir)"

text \<open>\<open>LoadBytes\<close> on a manifest that is valid JSON.\<close>

definition LoadBytes :: "go_library \<Rightarrow> string \<Rightarrow> manifest_ir \<Rightarrow> diagnostic list + manifest_ir" where
  "LoadBytes lib file ir =
     (case Validate_manifest lib file ir of (ds, ir') \<Rightarrow> if ds \<noteq> [] then Inl ds else Inr ir')"

end
