(* ===== verification/Workspace_Graph.thy ===== *)
theory Workspace_Graph
  imports Manifest_Records Diagnostics Manifest_Packages
begin

text \<open>
  \<open>internal/graph\<close>: the workspace graph that later phases read, built from a manifest.  The nodes
  of the code point at each other; here a dependency and a target name the package they belong to,
  which is found in the graph by that name (the graph never has two packages of one name).  The maps
  of a node by key, name and export hold the elements of its lists and are lookups in them.
\<close>

section \<open>Nodes\<close>

record dependency_node =
  dnPackage :: string
  dnKey :: string
  dnKind :: string
  dnSource :: author_source
  dnOptional :: bool
  dnPatch :: "patch_declaration option"

record target_node =
  tnPackage :: string
  tnName :: string
  tnExport :: string
  tnEntry :: string
  tnRuntime :: string
  tnTypes :: string
  tnArtifactKind :: string
  tnOptional :: bool
  tnRuntimeDeps :: "dependency_node list"
  tnBuildDeps :: "dependency_node list"
  tnPeerDeps :: "dependency_node list"
  tnOptionalPeerDeps :: "dependency_node list"
  tnTypeDeps :: "dependency_node list"

record fixture_node =
  fnName :: string
  fnDependency :: dependency_node
  fnBinding :: string
  fnMode :: string

record built_fixture_node =
  bnName :: string
  bnTarget :: string
  bnArtifacts :: "string list"
  bnBinding :: string

record test_node =
  snPackage :: string
  snName :: string
  snRequirements :: "dependency_node list"
  snFixtures :: "fixture_node list"
  snPrerequisites :: "string list"
  snBuiltFixtures :: "built_fixture_node list"

record lifecycle_tool =
  ltoDependency :: dependency_node
  ltoFrom :: string
  ltoTool :: string

record package_node =
  pnName :: string
  pnVersion :: string
  pnRoot :: string
  pnLicense :: string
  pnKind :: string
  pnDependencies :: "dependency_node list"
  pnTargets :: "target_node list"
  pnTools :: "dependency_node list"
  pnLifecycleTools :: "lifecycle_tool list"
  pnTestTargets :: "test_node list"
  pnBoundaries :: "boundary_rule list"
  pnPublishInclude :: "string list"
  pnPublishExclude :: "string list"
  pnTypePolicies :: "(string \<times> string) list"
  pnBoundaryPolicies :: "(string \<times> string) list"

record workspace_graph =
  wgName :: string
  wgPackages :: "package_node list"

definition graph_package :: "workspace_graph \<Rightarrow> string \<Rightarrow> package_node option" where
  "graph_package g name = find (\<lambda>p. pnName p = name) (wgPackages g)"

definition node_dependency :: "dependency_node list \<Rightarrow> string \<Rightarrow> dependency_node option" where
  "node_dependency ds key = find (\<lambda>d. dnKey d = key) ds"

definition Dependency :: "package_node \<Rightarrow> string \<Rightarrow> dependency_node option" where
  "Dependency p key = node_dependency (pnDependencies p) key"

definition Target :: "package_node \<Rightarrow> string \<Rightarrow> target_node option" where
  "Target p name = find (\<lambda>t. tnName t = name) (pnTargets p)"

definition TargetByExport :: "package_node \<Rightarrow> string \<Rightarrow> target_node option" where
  "TargetByExport p e = find (\<lambda>t. tnExport t = e) (pnTargets p)"

section \<open>Dependencies of a package\<close>

definition add_dependency ::
  "string \<Rightarrow> dependency_node list \<times> diagnostic list \<Rightarrow> effective_dependency \<Rightarrow> dependency_node list \<times> diagnostic list" where
  "add_dependency package st d =
     (let (nodes, out) = st; key = DependencyIdentity d in
      if key = '''' then (nodes, out @ [errD ''TSPACK_GRAPH_DUPLICATE_DEPENDENCY'' ''dependency has empty key'' [package]])
      else if node_dependency nodes key \<noteq> None
      then (nodes, out @ [errD ''TSPACK_GRAPH_DUPLICATE_DEPENDENCY'' ''duplicate dependency'' [package, key]])
      else if \<not> dependency_kind (edKind d)
      then (nodes, out @ [errD ''TSPACK_GRAPH_INVALID_DEPENDENCY_KIND'' ''invalid dependency kind'' [package, key, edKind d]])
      else (nodes @ [\<lparr>dnPackage = package, dnKey = key, dnKind = edKind d, dnSource = edSource d, dnOptional = edOptional d,
              dnPatch = edPatch d\<rparr>], out))"

definition graph_dependencies :: "manifest_package \<Rightarrow> dependency_node list \<times> diagnostic list" where
  "graph_dependencies p = foldl (add_dependency (mpName p)) ([], []) (mpDependencies p)"

section \<open>Targets of a package\<close>

definition new_target :: "string \<Rightarrow> manifest_target \<Rightarrow> target_node" where
  "new_target package t =
     \<lparr>tnPackage = package, tnName = mtName t, tnExport = mtExport t, tnEntry = mtEntry t, tnRuntime = mtRuntime t,
      tnTypes = mtTypes t, tnArtifactKind = mtArtifact t, tnOptional = mtOptional t, tnRuntimeDeps = [], tnBuildDeps = [],
      tnPeerDeps = [], tnOptionalPeerDeps = [], tnTypeDeps = []\<rparr>"

definition add_target_dep ::
  "string \<Rightarrow> dependency_node list \<Rightarrow> target_node \<times> diagnostic list \<Rightarrow> string \<Rightarrow> target_node \<times> diagnostic list" where
  "add_target_dep package ds st ref =
     (let (t, out) = st in
      case node_dependency ds ref of
        None \<Rightarrow> (t, out @ [errD ''TSPACK_GRAPH_UNKNOWN_DEPENDENCY_REF'' ''unknown target dependency ref'' [package, tnName t, ref]])
      | Some d \<Rightarrow>
          if dnKind d = ''tool'' then (t\<lparr>tnBuildDeps := tnBuildDeps t @ [d]\<rparr>, out)
          else (t\<lparr>tnRuntimeDeps := tnRuntimeDeps t @ [d],
                  tnTypeDeps := (if dnKind d = ''type'' then tnTypeDeps t @ [d] else tnTypeDeps t)\<rparr>, out))"

definition add_target_peer ::
  "string \<Rightarrow> dependency_node list \<Rightarrow> target_node \<times> diagnostic list \<Rightarrow> string \<Rightarrow> target_node \<times> diagnostic list" where
  "add_target_peer package ds st ref =
     (let (t, out) = st in
      case node_dependency ds ref of
        None \<Rightarrow> (t, out @ [errD ''TSPACK_GRAPH_UNKNOWN_DEPENDENCY_REF'' ''unknown target peer ref'' [package, tnName t, ref]])
      | Some d \<Rightarrow>
          if dnKind d \<noteq> ''peer''
          then (t, out @ [errD ''TSPACK_GRAPH_INVALID_TARGET_REF'' ''target peers must reference peer dependencies'' [package, tnName t, ref]])
          else (t\<lparr>tnPeerDeps := tnPeerDeps t @ [d],
                  tnOptionalPeerDeps := (if dnOptional d then tnOptionalPeerDeps t @ [d] else tnOptionalPeerDeps t)\<rparr>, out))"

definition add_target ::
  "string \<Rightarrow> dependency_node list \<Rightarrow> target_node list \<times> diagnostic list \<Rightarrow> manifest_target \<Rightarrow> target_node list \<times> diagnostic list" where
  "add_target package ds st t =
     (let (nodes, out) = st;
          dup_name = (mtName t \<in> set (map tnName nodes)); dup_export = (mtExport t \<in> set (map tnExport nodes));
          out1 = out @ flag dup_name (errD ''TSPACK_GRAPH_DUPLICATE_TARGET'' ''duplicate target'' [package, mtName t])
            @ flag dup_export (errD ''TSPACK_GRAPH_DUPLICATE_EXPORT'' ''duplicate export'' [package, mtExport t])
      in if dup_name \<or> dup_export then (nodes, out1)
         else (case foldl (add_target_peer package ds) (foldl (add_target_dep package ds) (new_target package t, out1) (mtDeps t)) (mtPeers t) of
                 (n, out2) \<Rightarrow> (nodes @ [n], out2)))"

definition sort_nodes :: "dependency_node list \<Rightarrow> dependency_node list" where
  "sort_nodes ds = sort_key dnKey ds"

definition sort_target :: "target_node \<Rightarrow> target_node" where
  "sort_target t =
     t\<lparr>tnRuntimeDeps := sort_nodes (tnRuntimeDeps t), tnBuildDeps := sort_nodes (tnBuildDeps t),
       tnPeerDeps := sort_nodes (tnPeerDeps t), tnOptionalPeerDeps := sort_nodes (tnOptionalPeerDeps t),
       tnTypeDeps := sort_nodes (tnTypeDeps t)\<rparr>"

definition graph_targets :: "manifest_package \<Rightarrow> dependency_node list \<Rightarrow> target_node list \<times> diagnostic list" where
  "graph_targets p ds = foldl (add_target (mpName p) ds) ([], []) (mpTargets p)"

section \<open>Tools and tests of a package\<close>

definition add_tool ::
  "string \<Rightarrow> dependency_node list \<Rightarrow> dependency_node list \<times> diagnostic list \<Rightarrow> string \<Rightarrow> dependency_node list \<times> diagnostic list" where
  "add_tool package ds st key =
     (let (nodes, out) = st in
      case node_dependency ds key of
        None \<Rightarrow> (nodes, out @ [errD ''TSPACK_GRAPH_UNKNOWN_DEPENDENCY_REF'' ''unknown tool dependency ref'' [package, key]])
      | Some d \<Rightarrow>
          if dnKind d \<noteq> ''tool''
          then (nodes, out @ [errD ''TSPACK_GRAPH_INVALID_DEPENDENCY_KIND'' ''tool list must reference tool dependency'' [package, key]])
          else (nodes @ [d], out))"

definition graph_tools :: "manifest_package \<Rightarrow> dependency_node list \<Rightarrow> dependency_node list \<times> diagnostic list" where
  "graph_tools p ds = foldl (add_tool (mpName p) ds) ([], []) (mpTools p)"

definition built_node :: "string \<Rightarrow> built_fixture \<Rightarrow> built_fixture_node" where
  "built_node package f =
     \<lparr>bnName = bfName f, bnTarget = reference_identity package (bfTarget f), bnArtifacts = ArtifactNames f, bnBinding = bfBinding f\<rparr>"

definition test_node_of :: "string \<Rightarrow> dependency_node list \<Rightarrow> test_target \<Rightarrow> test_node" where
  "test_node_of package ds t =
     \<lparr>snPackage = package, snName = ttName t,
      snRequirements = sort_nodes (List.map_filter (node_dependency ds) (ttRequirements t)),
      snFixtures = sort_key fnName (List.map_filter (\<lambda>f. map_option (\<lambda>d.
          \<lparr>fnName = tfName f, fnDependency = d, fnBinding = tfBinding f, fnMode = tfMode f\<rparr>)
        (node_dependency ds (tfDependency f))) (ttFixtures t)),
      snPrerequisites = sort_strings (map (reference_identity package) (ttDependsOn t)),
      snBuiltFixtures = sort_key bnName (map (built_node package) (ttBuiltFixtures t))\<rparr>"

definition test_node_diags :: "string \<Rightarrow> dependency_node list \<Rightarrow> test_target \<Rightarrow> diagnostic list" where
  "test_node_diags package ds t =
     concat (map (\<lambda>r. flag (node_dependency ds r = None)
       (errD ''TSPACK_GRAPH_UNKNOWN_TEST_REQUIREMENT'' ''unknown test target requirement'' [package, ttName t, r])) (ttRequirements t)) @
     concat (map (\<lambda>f. flag (node_dependency ds (tfDependency f) = None)
       (errD ''TSPACK_GRAPH_UNKNOWN_TEST_FIXTURE'' ''unknown test fixture dependency'' [package, ttName t, tfDependency f])) (ttFixtures t))"

section \<open>Packages\<close>

definition package_node_of :: "manifest_package \<Rightarrow> package_node \<times> diagnostic list" where
  "package_node_of p =
     (let (ds, out1) = graph_dependencies p; (ts, out2) = graph_targets p ds; (tools, out3) = graph_tools p ds
      in (\<lparr>pnName = mpName p, pnVersion = mpVersion p, pnRoot = mpRoot p, pnLicense = mpLicense p, pnKind = mpKind p,
           pnDependencies = sort_nodes ds, pnTargets = sort_key tnName (map sort_target ts), pnTools = sort_nodes tools,
           pnLifecycleTools = [], pnTestTargets = sort_key snName (map (test_node_of (mpName p) ds) (mpTestTargets p)),
           pnBoundaries = mpBoundaries p, pnPublishInclude = mpPublishInclude p, pnPublishExclude = mpPublishExclude p,
           pnTypePolicies = mpTypePolicies p, pnBoundaryPolicies = mpBoundaryPolicies p\<rparr>,
          out1 @ out2 @ out3 @ concat (map (test_node_diags (mpName p) ds) (mpTestTargets p))))"

definition add_package :: "package_node list \<times> diagnostic list \<Rightarrow> manifest_package \<Rightarrow> package_node list \<times> diagnostic list" where
  "add_package st p =
     (let (nodes, out) = st in
      if mpName p \<in> set (map pnName nodes)
      then (nodes, out @ [errD ''TSPACK_GRAPH_DUPLICATE_PACKAGE'' ''duplicate package'' [mpName p]])
      else (case package_node_of p of (n, out') \<Rightarrow> (nodes @ [n], out @ out')))"

section \<open>External names\<close>

text \<open>The names that a dependency answers to, each once, in order.\<close>

definition add_identifier :: "string list \<Rightarrow> string \<Rightarrow> string list" where
  "add_identifier ids i = (if i = '''' \<or> i \<in> set ids then ids else ids @ [i])"

definition compatibility_identifier :: "author_source \<Rightarrow> string" where
  "compatibility_identifier s =
     (if asKind s = ''jsr'' \<and> has_prefix (asPackage s) ''@''
      then (case split_on (CHR ''/'') (tl (asPackage s)) of
              [scope, name] \<Rightarrow> if scope \<noteq> '''' \<and> name \<noteq> '''' then ''@jsr/'' @ scope @ ''__'' @ name else ''''
            | _ \<Rightarrow> '''')
      else '''')"

definition ExternalPackageIdentifiers :: "dependency_node \<Rightarrow> string list" where
  "ExternalPackageIdentifiers d =
     foldl add_identifier [] [dnKey d, asName (dnSource d), asPackage (dnSource d), compatibility_identifier (dnSource d)]"

definition MatchesExternalPackageName :: "dependency_node \<Rightarrow> string \<Rightarrow> bool" where
  "MatchesExternalPackageName d name \<longleftrightarrow> list_ex (\<lambda>i. i = name) (ExternalPackageIdentifiers d)"

section \<open>Tools of the life cycle\<close>

definition compilerToolPackage :: "string \<Rightarrow> string" where
  "compilerToolPackage c =
     (if c = ''rollup'' then ''rollup'' else if c = ''vite'' then ''vite'' else if c = ''tsc'' then ''typescript''
      else if c = ''perry'' then ''@perryts/perry'' else if c = ''scriptc'' then ''scriptc'' else '''')"

definition testHarnessToolPackages :: "string \<Rightarrow> string list" where
  "testHarnessToolPackages h = (if h = ''vitest'' then [''vite'', ''vitest''] else [])"

definition tool_candidates :: "package_node list \<Rightarrow> string \<Rightarrow> dependency_node list" where
  "tool_candidates ps tool =
     concat (map (\<lambda>p. filter (\<lambda>d. dnKind d = ''tool'' \<and> MatchesExternalPackageName d tool) (pnDependencies p)) ps)"

definition selectLifecycleToolDependency :: "package_node list \<Rightarrow> string \<Rightarrow> string \<Rightarrow> dependency_node option" where
  "selectLifecycleToolDependency ps owner tool =
     (let candidates = tool_candidates ps tool in
      case find (\<lambda>d. dnPackage d = owner) candidates of
        Some d \<Rightarrow> Some d
      | None \<Rightarrow>
          (case find (\<lambda>d. list_ex (\<lambda>p. pnName p = dnPackage d \<and> (pnRoot p = ''.'' \<or> pnRoot p = '''')) ps) candidates of
             Some d \<Rightarrow> Some d
           | None \<Rightarrow> (case candidates of [d] \<Rightarrow> Some d | _ \<Rightarrow> None)))"

definition required_tool :: "package_node list \<Rightarrow> string \<Rightarrow> string \<Rightarrow> string \<Rightarrow> lifecycle_tool list" where
  "required_tool ps owner from tool =
     (case selectLifecycleToolDependency ps owner tool of
        None \<Rightarrow> []
      | Some d \<Rightarrow> [\<lparr>ltoDependency = d, ltoFrom = from, ltoTool = tool\<rparr>])"

definition package_lifecycle_tools :: "package_node list \<Rightarrow> manifest_package \<Rightarrow> lifecycle_tool list" where
  "package_lifecycle_tools ps p =
     concat (map (\<lambda>t.
       let tool = compilerToolPackage (mtCompiler t);
           path = (if mtCompilerPath t = '''' then mpCompilerPath p else mtCompilerPath t)
       in if tool = '''' \<or> path \<noteq> '''' then []
          else required_tool ps (mpName p) (mpName p @ '':target:'' @ mtName t) tool) (mpTargets p)) @
     concat (map (\<lambda>t. concat (map (required_tool ps (mpName p) (mpName p @ '':test:'' @ ttName t))
       (testHarnessToolPackages (ttHarness t)))) (mpTestTargets p))"

definition infer_tools :: "package_node list \<Rightarrow> manifest_package \<Rightarrow> package_node list" where
  "infer_tools ps p =
     update_first (\<lambda>n. pnName n = mpName p)
       (\<lambda>n. n\<lparr>pnLifecycleTools := sort_key (\<lambda>x. (ltoFrom x, ltoTool x)) (pnLifecycleTools n @ package_lifecycle_tools ps p)\<rparr>) ps"

section \<open>The graph\<close>

definition Build_graph :: "manifest_ir option \<Rightarrow> workspace_graph \<times> diagnostic list" where
  "Build_graph given =
     (case given of
        None \<Rightarrow> (\<lparr>wgName = '''', wgPackages = []\<rparr>, SortDiagnostics [errD ''TSPACK_GRAPH_INTERNAL_ERROR'' ''nil manifest IR'' []])
      | Some ir \<Rightarrow>
          (let (nodes, out) = foldl add_package ([], []) (mfPackages ir)
           in (\<lparr>wgName = wkName (mfWorkspace ir), wgPackages = sort_key pnName (foldl infer_tools nodes (mfPackages ir))\<rparr>,
               SortDiagnostics out)))"

section \<open>Questions to the graph\<close>

definition AllowedDependencyKeys :: "target_node \<Rightarrow> string list" where
  "AllowedDependencyKeys t = sort_strings (remdups (map dnKey (tnRuntimeDeps t @ tnBuildDeps t @ tnPeerDeps t)))"

definition AllowsDependencyKey :: "target_node \<Rightarrow> string \<Rightarrow> bool" where
  "AllowsDependencyKey t key \<longleftrightarrow> list_ex (\<lambda>k. k = key) (AllowedDependencyKeys t)"

definition AllowsExternalPackageName :: "target_node \<Rightarrow> string \<Rightarrow> bool" where
  "AllowsExternalPackageName t name \<longleftrightarrow>
     name = tnPackage t \<or> list_ex (\<lambda>d. MatchesExternalPackageName d name) (tnRuntimeDeps t @ tnBuildDeps t @ tnPeerDeps t)"

definition TargetsAllowingDependencyKey :: "package_node \<Rightarrow> string \<Rightarrow> target_node list" where
  "TargetsAllowingDependencyKey p key = sort_key tnName (filter (\<lambda>t. AllowsDependencyKey t key) (pnTargets p))"

definition TargetsAllowingExternalPackageName :: "package_node \<Rightarrow> string \<Rightarrow> target_node list" where
  "TargetsAllowingExternalPackageName p name = sort_key tnName (filter (\<lambda>t. AllowsExternalPackageName t name) (pnTargets p))"

record dependency_reachability =
  drDependency :: "dependency_node option"
  drRuntimeTargets :: "target_node list"
  drPeerTargets :: "target_node list"
  drToolOnly :: bool
  drOptionalOnly :: bool

definition DependencyReachability :: "package_node \<Rightarrow> string \<Rightarrow> dependency_reachability" where
  "DependencyReachability p key =
     (case Dependency p key of
        None \<Rightarrow> \<lparr>drDependency = None, drRuntimeTargets = [], drPeerTargets = [], drToolOnly = False, drOptionalOnly = False\<rparr>
      | Some d \<Rightarrow>
          (let runtime = filter (\<lambda>t. list_ex (\<lambda>x. dnKey x = key) (tnRuntimeDeps t)) (pnTargets p);
               peer = filter (\<lambda>t. list_ex (\<lambda>x. dnKey x = key) (tnPeerDeps t)) (pnTargets p)
           in \<lparr>drDependency = Some d, drRuntimeTargets = sort_key tnName runtime, drPeerTargets = sort_key tnName peer,
               drToolOnly = (dnKind d = ''tool'' \<and> runtime = [] \<and> peer = []),
               drOptionalOnly = (dnOptional d \<and> runtime = [] \<and> peer \<noteq> [])\<rparr>))"

end
