(* ===== verification/Graph_Props.thy ===== *)
theory Graph_Props
  imports Manifest_Validate Workspace_Graph
begin

text \<open>
  What the manifest checks promise to the workspace graph: of an accepted manifest every package,
  dependency, target and test gets its node, and the only complaint left is about peers.
\<close>

section \<open>Loops without complaints\<close>

lemma each_at_Nil:
  "each_at path f xs = [] \<longleftrightarrow> (\<forall>i < length xs. f (indexed path i) i (xs ! i) = [])"
  by (simp add: each_at_def each_indexed_Nil)

lemma each_at_all: "each_at path f xs = [] \<Longrightarrow> x \<in> set xs \<Longrightarrow> \<exists>here i. f here i x = []"
  by (auto simp: each_at_Nil in_set_conv_nth)

lemma each_at_distinct:
  assumes "each_at path f xs = []" and "\<And>here i. f here i (xs ! i) = [] \<Longrightarrow> k (xs ! i) \<notin> set (map k (take i xs))"
  shows "distinct (map k xs)"
  by (rule each_indexed_distinct [OF assms(1) [unfolded each_at_def]]) (rule assms(2))

lemma concat_map_Nil: "concat (map f xs) = [] \<longleftrightarrow> (\<forall>x \<in> set xs. f x = [])"
  by auto

section \<open>Dependencies\<close>

definition sound_dependencies :: "effective_dependency list \<Rightarrow> bool" where
  "sound_dependencies ds \<longleftrightarrow>
     distinct (map DependencyIdentity ds) \<and>
     (\<forall>d \<in> set ds. DependencyIdentity d \<noteq> '''' \<and> dependency_kind (edKind d))"

lemma dependency_diags_sound:
  assumes "dependency_diags path ds = []"
  shows "sound_dependencies ds"
proof -
  have "distinct (map DependencyIdentity ds)"
    by (rule each_at_distinct [OF assms [unfolded dependency_diags_def]]) (auto simp: Let_def split: if_splits)
  moreover have "DependencyIdentity d \<noteq> '''' \<and> dependency_kind (edKind d)" if "d \<in> set ds" for d
    using each_at_all [OF assms [unfolded dependency_diags_def] that] by (auto simp: Let_def validateDep_def split: if_splits)
  ultimately show ?thesis by (simp add: sound_dependencies_def)
qed

definition dependency_node_of :: "string \<Rightarrow> effective_dependency \<Rightarrow> dependency_node" where
  "dependency_node_of package d =
     \<lparr>dnPackage = package, dnKey = DependencyIdentity d, dnKind = edKind d, dnSource = edSource d, dnOptional = edOptional d,
      dnPatch = edPatch d\<rparr>"

lemma dependency_node_reads [simp]:
  "dnKey (dependency_node_of package d) = DependencyIdentity d" "dnKind (dependency_node_of package d) = edKind d"
  by (simp_all add: dependency_node_of_def)

lemma node_dependency_None: "node_dependency ns k = None \<longleftrightarrow> k \<notin> dnKey ` set ns"
  by (auto simp: node_dependency_def find_None_iff)

lemma add_dependencies:
  "distinct (map dnKey ns @ map DependencyIdentity ds) \<Longrightarrow>
    \<forall>d \<in> set ds. DependencyIdentity d \<noteq> '''' \<and> dependency_kind (edKind d) \<Longrightarrow>
    foldl (add_dependency package) (ns, out) ds = (ns @ map (dependency_node_of package) ds, out)"
proof (induction ds arbitrary: ns)
  case (Cons d ds)
  then have "node_dependency ns (DependencyIdentity d) = None" by (auto simp: node_dependency_None)
  with Cons.prems have "add_dependency package (ns, out) d = (ns @ [dependency_node_of package d], out)"
    by (simp add: add_dependency_def Let_def dependency_node_of_def)
  moreover have "distinct (map dnKey (ns @ [dependency_node_of package d]) @ map DependencyIdentity ds)"
    using Cons.prems(1) by auto
  ultimately show ?case using Cons.IH [of "ns @ [dependency_node_of package d]"] Cons.prems(2) by simp
qed simp

lemma graph_dependencies_sound:
  "sound_dependencies (mpDependencies p) \<Longrightarrow>
    graph_dependencies p = (map (dependency_node_of (mpName p)) (mpDependencies p), [])"
  unfolding graph_dependencies_def sound_dependencies_def by (subst add_dependencies) auto

lemma find_dependency:
  "find (\<lambda>n. dnKey n = k) (map (dependency_node_of package) ds) =
     map_option (dependency_node_of package) (find (\<lambda>d. DependencyIdentity d = k) ds)"
  by (induction ds) auto

lemma known_dependency:
  "sound_dependencies ds \<Longrightarrow> dependency_at ds k = Some d \<Longrightarrow>
    node_dependency (map (dependency_node_of package) ds) k = Some (dependency_node_of package d) \<and> d \<in> set ds \<and> DependencyIdentity d = k"
proof -
  assume sound: "sound_dependencies ds" and at: "dependency_at ds k = Some d"
  then have d: "d \<in> set ds" "DependencyIdentity d = k"
    by (auto simp: dependency_at_def dest: find_SomeD split: if_splits)
  then have "find (\<lambda>x. DependencyIdentity x = k) ds = Some d"
    using find_map_distinct [of DependencyIdentity ds d] sound by (simp add: sound_dependencies_def)
  with d show ?thesis by (simp add: node_dependency_def find_dependency)
qed

section \<open>Targets\<close>

text \<open>A peer of a target that is no peer dependency: what the manifest checks let through.\<close>

definition misplaced :: "effective_dependency list \<Rightarrow> string \<Rightarrow> bool" where
  "misplaced ds r \<longleftrightarrow> list_ex (\<lambda>d. DependencyIdentity d = r \<and> edKind d \<noteq> ''peer'') ds"

definition misplaced_peers :: "effective_dependency list \<Rightarrow> manifest_target \<Rightarrow> string list" where
  "misplaced_peers ds t = filter (misplaced ds) (mtPeers t)"

definition misplaced_diag :: "string \<Rightarrow> string \<Rightarrow> string \<Rightarrow> diagnostic" where
  "misplaced_diag package target ref =
     errD ''TSPACK_GRAPH_INVALID_TARGET_REF'' ''target peers must reference peer dependencies'' [package, target, ref]"

definition same_target :: "manifest_target \<Rightarrow> target_node \<Rightarrow> bool" where
  "same_target t n \<longleftrightarrow>
     tnName n = mtName t \<and> tnExport n = mtExport t \<and> tnEntry n = mtEntry t \<and> tnRuntime n = mtRuntime t \<and> tnTypes n = mtTypes t"

lemma add_target_deps:
  assumes sound: "sound_dependencies ds"
  shows "\<forall>r \<in> set refs. dependency_at ds r \<noteq> None \<Longrightarrow> same_target x t \<Longrightarrow>
    \<exists>t'. foldl (add_target_dep package (map (dependency_node_of package) ds)) (t, out) refs = (t', out) \<and> same_target x t'"
proof (induction refs arbitrary: t)
  case (Cons r refs)
  then obtain d where "dependency_at ds r = Some d" by auto
  from known_dependency [OF sound this, of package]
  have "\<exists>t'. add_target_dep package (map (dependency_node_of package) ds) (t, out) r = (t', out) \<and> same_target x t'"
    using Cons.prems(2) by (auto simp: add_target_dep_def same_target_def)
  with Cons show ?case by fastforce
qed simp

lemma add_target_peers:
  assumes sound: "sound_dependencies ds"
  shows "\<forall>r \<in> set refs. dependency_at ds r \<noteq> None \<Longrightarrow> same_target x t \<Longrightarrow>
    \<exists>t'. foldl (add_target_peer package (map (dependency_node_of package) ds)) (t, out) refs =
        (t', out @ map (misplaced_diag package (mtName x))
          (filter (misplaced ds) refs)) \<and> same_target x t'"
proof (induction refs arbitrary: t out)
  case (Cons r refs)
  let ?ns = "map (dependency_node_of package) ds"
  from Cons.prems obtain d where at: "dependency_at ds r = Some d" by auto
  note known = known_dependency [OF sound this, of package]
  then have one: "misplaced ds r \<longleftrightarrow> edKind d \<noteq> ''peer''"
    using sound by (auto simp: misplaced_def list_ex_iff sound_dependencies_def distinct_map inj_on_def)
  have "\<exists>t'. add_target_peer package ?ns (t, out) r =
      (t', out @ (if edKind d \<noteq> ''peer'' then [misplaced_diag package (mtName x) r] else [])) \<and> same_target x t'"
    using Cons.prems(2) known by (auto simp: add_target_peer_def same_target_def misplaced_diag_def)
  then obtain t1 where t1: "add_target_peer package ?ns (t, out) r =
      (t1, out @ (if edKind d \<noteq> ''peer'' then [misplaced_diag package (mtName x) r] else []))" "same_target x t1" by blast
  have rest: "\<forall>r \<in> set refs. dependency_at ds r \<noteq> None" using Cons.prems(1) by simp
  from Cons.IH [OF rest t1(2), of "out @ (if edKind d \<noteq> ''peer'' then [misplaced_diag package (mtName x) r] else [])"]
  show ?case using t1(1) one by (cases "edKind d = ''peer''") simp_all
qed simp

definition known_references :: "effective_dependency list \<Rightarrow> manifest_target \<Rightarrow> bool" where
  "known_references ds t \<longleftrightarrow> (\<forall>r \<in> set (mtDeps t) \<union> set (mtPeers t). dependency_at ds r \<noteq> None)"

lemma add_targets:
  assumes sound: "sound_dependencies ds"
  shows "distinct (map tnName ns @ map mtName ts) \<Longrightarrow> distinct (map tnExport ns @ map mtExport ts) \<Longrightarrow>
    \<forall>t \<in> set ts. known_references ds t \<Longrightarrow>
    \<exists>ms. foldl (add_target package (map (dependency_node_of package) ds)) (ns, out) ts =
        (ns @ ms, out @ concat (map (\<lambda>t. map (misplaced_diag package (mtName t)) (misplaced_peers ds t)) ts)) \<and>
      list_all2 same_target ts ms"
proof (induction ts arbitrary: ns out)
  case (Cons t ts)
  let ?nodes = "map (dependency_node_of package) ds"
  have start: "same_target t (new_target package t)" by (simp add: same_target_def new_target_def)
  from Cons.prems(3) have refs: "\<forall>r \<in> set (mtDeps t). dependency_at ds r \<noteq> None" "\<forall>r \<in> set (mtPeers t). dependency_at ds r \<noteq> None"
    by (auto simp: known_references_def)
  from add_target_deps [OF sound refs(1) start, of package out] obtain t1 where
    t1: "foldl (add_target_dep package ?nodes) (new_target package t, out) (mtDeps t) = (t1, out)" "same_target t t1" by blast
  from add_target_peers [OF sound refs(2) t1(2), of package out] obtain t2 where
    t2: "foldl (add_target_peer package ?nodes) (t1, out) (mtPeers t) =
      (t2, out @ map (misplaced_diag package (mtName t)) (misplaced_peers ds t))" "same_target t t2"
    by (auto simp: misplaced_peers_def)
  have "mtName t \<notin> set (map tnName ns)" "mtExport t \<notin> set (map tnExport ns)" using Cons.prems(1,2) by auto
  with t1 t2 have step: "add_target package ?nodes (ns, out) t =
      (ns @ [t2], out @ map (misplaced_diag package (mtName t)) (misplaced_peers ds t))"
    by (simp add: add_target_def Let_def)
  have "distinct (map tnName (ns @ [t2]) @ map mtName ts)" "distinct (map tnExport (ns @ [t2]) @ map mtExport ts)"
    using Cons.prems(1,2) t2(2) by (auto simp: same_target_def)
  from Cons.IH [OF this, of "out @ map (misplaced_diag package (mtName t)) (misplaced_peers ds t)"] Cons.prems(3) obtain ms where
    "foldl (add_target package ?nodes) (ns @ [t2], out @ map (misplaced_diag package (mtName t)) (misplaced_peers ds t)) ts =
      ((ns @ [t2]) @ ms, (out @ map (misplaced_diag package (mtName t)) (misplaced_peers ds t)) @
        concat (map (\<lambda>t. map (misplaced_diag package (mtName t)) (misplaced_peers ds t)) ts))"
    "list_all2 same_target ts ms" by auto
  then show ?case using step t2(2) by (intro exI [of _ "t2 # ms"]) simp
qed simp

section \<open>Tools and tests\<close>

lemma add_tools:
  assumes sound: "sound_dependencies ds"
  shows "\<forall>k \<in> set tools. \<exists>d. dependency_at ds k = Some d \<and> edKind d = ''tool'' \<Longrightarrow>
    \<exists>ms. foldl (add_tool package (map (dependency_node_of package) ds)) (ns, out) tools = (ns @ ms, out) \<and> map dnKey ms = tools"
proof (induction tools arbitrary: ns)
  case (Cons k tools)
  then obtain d where d: "dependency_at ds k = Some d" "edKind d = ''tool''" by auto
  from known_dependency [OF sound d(1), of package] d(2)
  have step: "add_tool package (map (dependency_node_of package) ds) (ns, out) k = (ns @ [dependency_node_of package d], out)"
    and key: "DependencyIdentity d = k"
    by (simp_all add: add_tool_def)
  from Cons obtain ms where
    "foldl (add_tool package (map (dependency_node_of package) ds)) (ns @ [dependency_node_of package d], out) tools =
      ((ns @ [dependency_node_of package d]) @ ms, out)" "map dnKey ms = tools"
    by (metis list.set_intros(2))
  then show ?case using step key by (intro exI [of _ "dependency_node_of package d # ms"]) simp
qed simp

lemma map_filter_all: "\<forall>x \<in> set xs. f x \<noteq> None \<Longrightarrow> List.map_filter f xs = map (\<lambda>x. the (f x)) xs"
  by (induction xs) (auto simp: List.map_filter_simps)

definition known_tests :: "effective_dependency list \<Rightarrow> test_target \<Rightarrow> bool" where
  "known_tests ds t \<longleftrightarrow> (\<forall>r \<in> set (ttRequirements t) \<union> tfDependency ` set (ttFixtures t). dependency_at ds r \<noteq> None)"

lemma test_node_sound:
  assumes sound: "sound_dependencies ds" and known: "known_tests ds t"
  shows "test_node_diags package (map (dependency_node_of package) ds) t = []"
    and "snName (test_node_of package (map (dependency_node_of package) ds) t) = ttName t"
    and "dnKey ` set (snRequirements (test_node_of package (map (dependency_node_of package) ds) t)) = set (ttRequirements t)"
proof -
  let ?ns = "map (dependency_node_of package) ds"
  have node: "\<exists>d. node_dependency ?ns r = Some d \<and> dnKey d = r"
    if "r \<in> set (ttRequirements t) \<union> tfDependency ` set (ttFixtures t)" for r
  proof -
    from known that obtain d where "dependency_at ds r = Some d" unfolding known_tests_def by blast
    from known_dependency [OF sound this, of package] show ?thesis by auto
  qed
  show "test_node_diags package ?ns t = []"
    unfolding test_node_diags_def concat_map_Nil append_is_Nil_conv flag_Nil using node by fastforce
  show "snName (test_node_of package ?ns t) = ttName t" by (simp add: test_node_of_def)
  have "\<forall>r \<in> set (ttRequirements t). node_dependency ?ns r \<noteq> None" using node by fastforce
  then have "snRequirements (test_node_of package ?ns t) = sort_nodes (map (\<lambda>r. the (node_dependency ?ns r)) (ttRequirements t))"
    by (simp add: test_node_of_def map_filter_all)
  moreover have "dnKey (the (node_dependency ?ns r)) = r" if "r \<in> set (ttRequirements t)" for r
    using node [of r] that by auto
  ultimately show "dnKey ` set (snRequirements (test_node_of package ?ns t)) = set (ttRequirements t)"
    by (simp add: sort_nodes_def image_image)
qed

section \<open>Packages\<close>

text \<open>What the checks establish of one package, after its defaults are filled in.\<close>

definition sound_package :: "manifest_package \<Rightarrow> bool" where
  "sound_package p \<longleftrightarrow>
     sound_dependencies (mpDependencies p) \<and>
     distinct (map mtName (mpTargets p)) \<and> distinct (map mtExport (mpTargets p)) \<and>
     (\<forall>t \<in> set (mpTargets p). known_references (mpDependencies p) t) \<and>
     (\<forall>k \<in> set (mpTools p). \<exists>d. dependency_at (mpDependencies p) k = Some d \<and> edKind d = ''tool'') \<and>
     (\<forall>t \<in> set (mpTestTargets p). known_tests (mpDependencies p) t)"

text \<open>The nodes of a package: for every part of the declaration, and nothing else.\<close>

definition same_test :: "test_target \<Rightarrow> test_node \<Rightarrow> bool" where
  "same_test t n \<longleftrightarrow> snName n = ttName t \<and> dnKey ` set (snRequirements n) = set (ttRequirements t)"

text \<open>Every element of one list has a partner in the other, both ways.\<close>

definition matched :: "('a \<Rightarrow> 'b \<Rightarrow> bool) \<Rightarrow> 'a list \<Rightarrow> 'b list \<Rightarrow> bool" where
  "matched r xs ys \<longleftrightarrow> list_all (\<lambda>x. list_ex (r x) ys) xs \<and> list_all (\<lambda>y. list_ex (\<lambda>x. r x y) xs) ys"

lemma matched_list_all2: "list_all2 r xs ys \<Longrightarrow> matched r xs ys"
  unfolding matched_def by (induction rule: list_all2_induct) (auto simp: list_all_iff)

lemma matched_sort [simp]: "matched r xs (sort_key k ys) = matched r xs ys"
  by (simp add: matched_def list_all_iff list_ex_iff)

definition package_in_graph :: "manifest_package \<Rightarrow> package_node \<Rightarrow> bool" where
  "package_in_graph p n \<longleftrightarrow>
     pnName n = mpName p \<and>
     map dnKey (pnDependencies n) = sort (map DependencyIdentity (mpDependencies p)) \<and>
     map tnName (pnTargets n) = sort (map mtName (mpTargets p)) \<and>
     matched same_target (mpTargets p) (pnTargets n) \<and>
     map dnKey (pnTools n) = sort (mpTools p) \<and>
     map snName (pnTestTargets n) = sort (map ttName (mpTestTargets p)) \<and>
     matched same_test (mpTestTargets p) (pnTestTargets n)"

definition misplaced_in_package :: "manifest_package \<Rightarrow> diagnostic list" where
  "misplaced_in_package p =
     concat (map (\<lambda>t. map (misplaced_diag (mpName p) (mtName t)) (misplaced_peers (mpDependencies p) t)) (mpTargets p))"

lemma map_sort_key: "map f (sort_key f xs) = sort (map f xs)"
  by (rule sym, rule properties_for_sort) simp_all

lemma package_node_sound:
  assumes "sound_package p"
  shows "\<exists>n. package_node_of p = (n, misplaced_in_package p) \<and> package_in_graph p n"
proof -
  let ?ns = "map (dependency_node_of (mpName p)) (mpDependencies p)"
  from assms have sound: "sound_dependencies (mpDependencies p)" and names: "distinct (map mtName (mpTargets p))"
    and exports: "distinct (map mtExport (mpTargets p))"
    and refs: "\<forall>t \<in> set (mpTargets p). known_references (mpDependencies p) t"
    and tools: "\<forall>k \<in> set (mpTools p). \<exists>d. dependency_at (mpDependencies p) k = Some d \<and> edKind d = ''tool''"
    and tests: "\<forall>t \<in> set (mpTestTargets p). known_tests (mpDependencies p) t"
    by (simp_all add: sound_package_def)
  from add_targets [OF sound _ _ refs, of "[]" "mpName p" "[]"] names exports obtain ms where
    ms: "graph_targets p ?ns = (ms, misplaced_in_package p)" "list_all2 same_target (mpTargets p) ms"
    by (auto simp: graph_targets_def misplaced_in_package_def)
  from add_tools [OF sound tools, of "mpName p" "[]" "[]"] obtain ks where
    ks: "graph_tools p ?ns = (ks, [])" "map dnKey ks = mpTools p" by (auto simp: graph_tools_def)
  have clean: "concat (map (test_node_diags (mpName p) ?ns) (mpTestTargets p)) = []"
    using tests test_node_sound(1) [OF sound] by (simp add: concat_map_Nil)
  obtain n where n: "package_node_of p = (n, misplaced_in_package p)" and parts:
      "pnName n = mpName p" "pnDependencies n = sort_nodes ?ns" "pnTargets n = sort_key tnName (map sort_target ms)"
      "pnTools n = sort_nodes ks" "pnTestTargets n = sort_key snName (map (test_node_of (mpName p) ?ns) (mpTestTargets p))"
    using graph_dependencies_sound [OF sound] ms(1) ks(1) clean by (simp add: package_node_of_def)
  have sorted_same: "same_target t (sort_target m) = same_target t m" and sorted_name: "tnName (sort_target m) = tnName m" for t m
    by (simp_all add: same_target_def sort_target_def)
  have tnames: "map tnName ms = map mtName (mpTargets p)"
    using ms(2) by (induction rule: list_all2_induct) (auto simp: same_target_def)
  have "list_all2 same_target (mpTargets p) (map sort_target ms)"
    using ms(2) by (simp add: list_all2_map2 sorted_same)
  then have found: "matched same_target (mpTargets p) (pnTargets n)"
    by (simp add: parts matched_list_all2)
  have test: "matched same_test (mpTestTargets p) (pnTestTargets n)"
    using test_node_sound(2,3) [OF sound] tests by (auto simp: parts matched_def list_all_iff list_ex_iff same_test_def)
  have "map snName (pnTestTargets n) = sort (map ttName (mpTestTargets p))"
    and "map dnKey (pnDependencies n) = sort (map DependencyIdentity (mpDependencies p))"
    and "map tnName (pnTargets n) = sort (map mtName (mpTargets p))"
    and "map dnKey (pnTools n) = sort (mpTools p)"
    unfolding parts sort_nodes_def map_sort_key using tnames ks(2)
    by (simp_all add: comp_def test_node_of_def sorted_name)
  with n parts(1) found test show ?thesis by (auto simp: package_in_graph_def)
qed

section \<open>The whole graph\<close>

lemma add_packages:
  "distinct (map pnName ns @ map mpName ps) \<Longrightarrow> \<forall>p \<in> set ps. sound_package p \<Longrightarrow>
    \<exists>ms. foldl add_package (ns, out) ps = (ns @ ms, out @ concat (map misplaced_in_package ps)) \<and> list_all2 package_in_graph ps ms"
proof (induction ps arbitrary: ns out)
  case (Cons p ps)
  from Cons.prems(2) obtain n where n: "package_node_of p = (n, misplaced_in_package p)" "package_in_graph p n"
    using package_node_sound by (metis list.set_intros(1))
  have step: "add_package (ns, out) p = (ns @ [n], out @ misplaced_in_package p)"
    using Cons.prems(1) n(1) by (auto simp: add_package_def)
  have "distinct (map pnName (ns @ [n]) @ map mpName ps)"
    using Cons.prems(1) n(2) by (auto simp: package_in_graph_def)
  from Cons.IH [OF this, of "out @ misplaced_in_package p"] Cons.prems(2) obtain ms where
    "foldl add_package (ns @ [n], out @ misplaced_in_package p) ps =
      ((ns @ [n]) @ ms, (out @ misplaced_in_package p) @ concat (map misplaced_in_package ps))"
    "list_all2 package_in_graph ps ms" by auto
  then show ?case using step n(2) by (intro exI [of _ "n # ms"]) simp
qed simp

text \<open>The tools of the life cycle are put in afterwards and change nothing else.\<close>

lemma infer_tools_graph: "list_all2 package_in_graph ps ns \<Longrightarrow> list_all2 package_in_graph ps (infer_tools ns q)"
proof -
  have same: "package_in_graph p (n\<lparr>pnLifecycleTools := x\<rparr>) = package_in_graph p n" for p n x
    by (simp add: package_in_graph_def)
  have "list_all2 package_in_graph ps (update_first c (\<lambda>n. n\<lparr>pnLifecycleTools := f n\<rparr>) ns)"
    if "list_all2 package_in_graph ps ns" for c f
    using that by (induction rule: list_all2_induct) (simp_all add: same)
  then show "list_all2 package_in_graph ps ns \<Longrightarrow> list_all2 package_in_graph ps (infer_tools ns q)"
    by (simp add: infer_tools_def)
qed

lemma infer_all_graph:
  "list_all2 package_in_graph ps ns \<Longrightarrow> list_all2 package_in_graph ps (foldl infer_tools ns qs)"
  by (induction qs arbitrary: ns) (simp_all add: infer_tools_graph)

definition sound_manifest :: "manifest_ir \<Rightarrow> bool" where
  "sound_manifest ir \<longleftrightarrow> distinct (map mpName (mfPackages ir)) \<and> list_all sound_package (mfPackages ir)"

lemma graph_sound:
  assumes "sound_manifest ir"
  obtains g where "Build_graph (Some ir) = (g, SortDiagnostics (concat (map misplaced_in_package (mfPackages ir))))"
    and "map pnName (wgPackages g) = sort (map mpName (mfPackages ir))"
    and "matched package_in_graph (mfPackages ir) (wgPackages g)"
    and "\<forall>p \<in> set (mfPackages ir). \<exists>n. graph_package g (mpName p) = Some n \<and> package_in_graph p n"
proof -
  from assms have names: "distinct (map mpName (mfPackages ir))" and sound: "\<forall>p \<in> set (mfPackages ir). sound_package p"
    by (simp_all add: sound_manifest_def list_all_iff)
  from add_packages [OF _ sound, of "[]" "[]"] names obtain ms where
    ms: "foldl add_package ([], []) (mfPackages ir) = (ms, concat (map misplaced_in_package (mfPackages ir)))"
      "list_all2 package_in_graph (mfPackages ir) ms" by auto
  let ?ns = "foldl infer_tools ms (mfPackages ir)"
  let ?g = "\<lparr>wgName = wkName (mfWorkspace ir), wgPackages = sort_key pnName ?ns\<rparr>"
  have all: "list_all2 package_in_graph (mfPackages ir) ?ns" by (rule infer_all_graph [OF ms(2)])
  then have node_names: "map pnName ?ns = map mpName (mfPackages ir)"
    by (induction rule: list_all2_induct) (simp_all add: package_in_graph_def)
  show thesis
  proof (rule that [of ?g])
    show "Build_graph (Some ir) = (?g, SortDiagnostics (concat (map misplaced_in_package (mfPackages ir))))"
      by (simp add: Build_graph_def ms(1))
    show sorted: "map pnName (wgPackages ?g) = sort (map mpName (mfPackages ir))"
      by (simp add: map_sort_key node_names)
    show "matched package_in_graph (mfPackages ir) (wgPackages ?g)"
      using matched_list_all2 [OF all] by simp
    show "\<forall>p \<in> set (mfPackages ir). \<exists>n. graph_package ?g (mpName p) = Some n \<and> package_in_graph p n"
    proof
      fix p assume "p \<in> set (mfPackages ir)"
      then obtain n where n: "n \<in> set ?ns" "package_in_graph p n"
        using all by (metis in_set_conv_nth list_all2_conv_all_nth)
      have "distinct (map pnName (wgPackages ?g))" unfolding sorted using names by simp
      moreover have "n \<in> set (wgPackages ?g)" using n(1) by simp
      ultimately have "graph_package ?g (pnName n) = Some n"
        unfolding graph_package_def by (rule find_map_distinct)
      with n(2) show "\<exists>n. graph_package ?g (mpName p) = Some n \<and> package_in_graph p n"
        by (auto simp: package_in_graph_def)
    qed
  qed
qed

section \<open>Accepted manifests\<close>

lemma accepted_parts:
  assumes "LoadBytes lib file ir = Inr ir'"
  shows "ir' = validated_manifest lib ir" and "manifest_diags lib ir = []"
proof -
  from assms have "ir' = validated_manifest lib ir \<and> SortDiagnostics (map (\<lambda>d. d\<lparr>dgFile := file\<rparr>) (manifest_diags lib ir)) = []"
    by (auto simp: LoadBytes_def Validate_manifest_def split: if_splits)
  then show "ir' = validated_manifest lib ir" and "manifest_diags lib ir = []" by simp_all
qed

lemma accepted_packages:
  assumes "LoadBytes lib file ir = Inr ir'"
  shows "mfPackages ir' = map filled_package (mfPackages ir)"
    and "each_at ''packages'' (package_checks lib (mfPackages ir)) (mfPackages ir) = []"
    and "validateBuildTargetDependencies (mfPackages ir') = []"
    and "validateTestBuildDependencies (mfPackages ir') = []"
  using accepted_parts [OF assms] by (simp_all add: manifest_diags_def validated_manifest_def)

lemma filled_reads [simp]:
  "mtName (filled_target p t) = mtName t" "mtExport (filled_target p t) = mtExport t"
  "mtDeps (filled_target p t) = mtDeps t" "mtPeers (filled_target p t) = mtPeers t"
  "mtDependsOn (filled_target p t) = mtDependsOn t"
  by (simp_all add: filled_target_def Let_def)

lemma prepared_reads [simp]:
  "mpName (prepared_package p) = mpName p" "mpTargets (prepared_package p) = mpTargets p"
  "mpTools (prepared_package p) = mpTools p" "mpTestTargets (prepared_package p) = mpTestTargets p"
  "mpName (default_compiler p) = mpName p" "mpTargets (default_compiler p) = mpTargets p"
  "mpTools (default_compiler p) = mpTools p" "mpTestTargets (default_compiler p) = mpTestTargets p"
  by (simp_all add: prepared_package_def default_compiler_def Let_def)

lemma filled_package_reads:
  "mpName (filled_package p) = mpName p" "mpTools (filled_package p) = mpTools p"
  "mpTestTargets (filled_package p) = mpTestTargets p"
  "mpDependencies (filled_package p) = mpDependencies (prepared_package (default_compiler p))"
  "mpTargets (filled_package p) = map (filled_target (prepared_package (default_compiler p))) (mpTargets p)"
  by (simp_all add: filled_package_def Let_def)

lemma test_targets_known:
  assumes "each_at path (test_target_diags q) (mpTestTargets q) = []" and "t \<in> set (mpTestTargets q)"
  shows "known_tests (mpDependencies q) t"
proof -
  from each_at_all [OF assms] obtain here i where i: "test_requirement_diags q here (ttRequirements t) = []"
    "each_at (here @ ''.fixtures'') (fixture_diags q here t) (ttFixtures t) = []"
    by (auto simp: test_target_diags_def)
  have "dependency_at (mpDependencies q) r \<noteq> None" if "r \<in> set (ttRequirements t)" for r
    using each_indexed_all [OF i(1) [unfolded test_requirement_diags_def] that] by (auto split: if_splits)
  moreover have "dependency_at (mpDependencies q) (tfDependency f) \<noteq> None" if "f \<in> set (ttFixtures t)" for f
    using each_at_all [OF i(2) that] by (auto simp: fixture_diags_def split: option.splits)
  ultimately show ?thesis by (auto simp: known_tests_def)
qed

lemma package_checks_sound:
  assumes "package_checks lib ps here i p = []"
  shows "sound_package (filled_package p)"
proof -
  let ?q = "prepared_package (default_compiler p)"
  from assms have deps: "dependency_diags here (mpDependencies ?q) = []"
    and targets: "each_at (here @ ''.targets'') (target_diags_at ?q) (mpTargets ?q) = []"
    and tools: "tool_diags here (mpDependencies ?q) (mpTools ?q) = []"
    and tests: "each_at (here @ ''.testTargets'') (test_target_diags ?q) (mpTestTargets ?q) = []"
    unfolding package_checks_def package_body_diags_def package_rest_diags_def by (simp_all add: Let_def)
  have "distinct (map mtName (mpTargets ?q))" "distinct (map mtExport (mpTargets ?q))"
    by (rule each_at_distinct [OF targets]; simp add: target_diags_at_def)+
  moreover have "known_references (mpDependencies ?q) t" if "t \<in> set (mpTargets ?q)" for t
    using each_at_all [OF targets that]
    by (auto simp: target_diags_at_def reference_diags_def known_references_def concat_map_Nil)
  moreover have "\<exists>d. dependency_at (mpDependencies ?q) k = Some d \<and> edKind d = ''tool''" if "k \<in> set (mpTools ?q)" for k
    using tools that by (auto simp: tool_diags_def concat_map_Nil split: option.splits)
  moreover have "known_tests (mpDependencies ?q) t" if "t \<in> set (mpTestTargets ?q)" for t
    by (rule test_targets_known [OF tests that])
  ultimately show ?thesis
    using dependency_diags_sound [OF deps]
    by (auto simp: sound_package_def filled_package_reads comp_def known_references_def)
qed

lemma accepted_sound:
  assumes "LoadBytes lib file ir = Inr ir'"
  shows "sound_manifest ir'"
proof -
  note checks = accepted_packages(2) [OF assms]
  have "distinct (map mpName (mfPackages ir))"
    by (rule each_at_distinct [OF checks]) (simp add: package_checks_def package_head_diags_def Let_def)
  moreover have "sound_package (filled_package p)" if "p \<in> set (mfPackages ir)" for p
    using each_at_all [OF checks that] package_checks_sound by blast
  ultimately show ?thesis
    by (auto simp: sound_manifest_def accepted_packages(1) [OF assms] list_all_iff filled_package_reads comp_def)
qed

end
