(* ===== verification/Target_Props.thy ===== *)
theory Target_Props
  imports Graph_Props
begin

text \<open>
  What the passes over the build targets of a workspace decide: their dependencies are known and have
  no cycle, and a built fixture comes from a target that the test depends on, directly or not.
\<close>

section \<open>The relation the declarations describe\<close>

definition located_dependencies :: "string \<times> string \<times> manifest_target \<Rightarrow> (string \<times> string) list" where
  "located_dependencies l =
     (case l of (owner, path, t) \<Rightarrow> map (\<lambda>r. (located_identity l, reference_identity owner r)) (mtDependsOn t))"

definition build_dependencies :: "manifest_package list \<Rightarrow> (string \<times> string) set" where
  "build_dependencies ps = set (concat (map located_dependencies (located_targets ps)))"

lemma target_at_None: "target_at ps i = None \<longleftrightarrow> i \<notin> set (target_names ps)"
  by (auto simp: target_at_def target_names_def find_None_iff)

lemma target_at_Some: "target_at ps i = Some l \<Longrightarrow> l \<in> set (located_targets ps) \<and> located_identity l = i"
  by (auto simp: target_at_def dest: find_SomeD)

lemma build_dependencies_from: "(i, j) \<in> build_dependencies ps \<Longrightarrow> i \<in> set (target_names ps)"
  by (auto simp: build_dependencies_def located_dependencies_def target_names_def)

definition known_dependencies :: "manifest_package list \<Rightarrow> bool" where
  "known_dependencies ps \<longleftrightarrow> snd ` build_dependencies ps \<subseteq> set (target_names ps)"

lemma reference_diags_Nil:
  "concat (map (target_reference_diags ps) (located_targets ps)) = [] \<longleftrightarrow>
    known_dependencies ps \<and> (\<forall>i. (i, i) \<notin> build_dependencies ps)"
proof -
  have one: "target_reference_diags ps l = [] \<longleftrightarrow>
      (\<forall>(i, j) \<in> set (located_dependencies l). j \<in> set (target_names ps) \<and> j \<noteq> i)" for l
  proof (cases l)
    case (fields owner path t)
    have "target_reference_diags ps l = [] \<longleftrightarrow>
        (\<forall>r \<in> set (mtDependsOn t). target_at ps (reference_identity owner r) \<noteq> None \<and> reference_identity owner r \<noteq> located_identity l)"
      unfolding target_reference_diags_def fields prod.case Let_def concat_map_Nil
      by (intro ball_cong refl) (simp split: if_split)
    then show ?thesis unfolding located_dependencies_def fields prod.case target_at_None by simp
  qed
  have all: "(\<forall>(i, j) \<in> build_dependencies ps. P i j) \<longleftrightarrow>
      (\<forall>l \<in> set (located_targets ps). \<forall>(i, j) \<in> set (located_dependencies l). P i j)" for P
    by (simp add: build_dependencies_def)
  have "concat (map (target_reference_diags ps) (located_targets ps)) = [] \<longleftrightarrow>
      (\<forall>(i, j) \<in> build_dependencies ps. j \<in> set (target_names ps) \<and> j \<noteq> i)"
    by (simp add: concat_map_Nil one all)
  also have "\<dots> \<longleftrightarrow> known_dependencies ps \<and> (\<forall>i. (i, i) \<notin> build_dependencies ps)"
    unfolding known_dependencies_def image_subset_iff by (auto simp: split_def)
  finally show ?thesis .
qed

lemma target_edges_iff:
  "(i, j) \<in> edges (target_edges ps) \<longleftrightarrow> (i, j) \<in> build_dependencies ps \<and> j \<in> set (target_names ps) \<and> j \<noteq> i"
  by (fastforce simp: target_edges_def build_dependencies_def located_dependencies_def target_at_None simp flip: not_None_eq)

section \<open>Cycles\<close>

interpretation tg: finite_graph "target_edges ps" "set (target_names ps)" for ps
  by unfold_locales (auto simp: target_edges_def target_at_None simp flip: not_None_eq)

lemma target_cycle_diags_Nil: "target_cycle_diags ps = [] \<longleftrightarrow> acyclic (edges (target_edges ps))"
proof -
  let ?E = "edges (target_edges ps)"
  let ?is = "sort_strings (remdups (target_names ps))"
  have cycle: "(\<exists>i \<in> set ?is. \<exists>x. (i, x) \<in> ?E\<^sup>* \<and> (x, x) \<in> ?E\<^sup>+) \<longleftrightarrow> \<not> acyclic ?E"
  proof
    assume "\<not> acyclic ?E"
    then obtain x where x: "(x, x) \<in> ?E\<^sup>+" by (auto simp: acyclic_def)
    then obtain y where "(y, x) \<in> ?E" by (meson tranclE)
    then have "x \<in> set ?is" using target_edges_iff by auto
    with x show "\<exists>i \<in> set ?is. \<exists>x. (i, x) \<in> ?E\<^sup>* \<and> (x, x) \<in> ?E\<^sup>+" by blast
  qed (auto simp: acyclic_def)
  have "card (set (target_names ps)) < Suc (length (target_names ps))"
    using card_length [of "target_names ps"] by simp
  from tg.visit_targets_decides [of ?is ps, OF _ this] show ?thesis
    unfolding cycle by (auto simp: target_cycle_diags_def split: option.splits sum.splits)
qed

theorem build_dependencies_checked:
  "validateBuildTargetDependencies ps = [] \<longleftrightarrow> known_dependencies ps \<and> acyclic (build_dependencies ps)"
proof -
  let ?D = "build_dependencies ps"
  have same: "edges (target_edges ps) = ?D" if "known_dependencies ps" "\<forall>i. (i, i) \<notin> ?D"
    using that by (auto simp: target_edges_iff known_dependencies_def set_eq_iff simp del: edges_iff)
  have irrefl: "\<forall>i. (i, i) \<notin> ?D" if "acyclic ?D" using that by (auto simp: acyclic_def)
  show ?thesis
    unfolding validateBuildTargetDependencies_def append_is_Nil_conv reference_diags_Nil target_cycle_diags_Nil
    using same irrefl by auto
qed

section \<open>Prerequisites of tests\<close>

interpretation pq: finite_graph "prerequisite_edges ps"
    "set (target_names ps) \<union> set (concat (map (prerequisite_edges ps) (target_names ps)))" for ps
proof
  show "set (prerequisite_edges ps i) \<subseteq>
      set (target_names ps) \<union> set (concat (map (prerequisite_edges ps) (target_names ps)))" for i
  proof (cases "target_at ps i")
    case None
    then show ?thesis by (simp add: prerequisite_edges_def)
  next
    case (Some l)
    then have "i \<in> set (target_names ps)" by (metis option.distinct(1) target_at_None)
    then show ?thesis by auto
  qed
qed simp

lemma prerequisite_reachable:
  assumes "set roots \<subseteq> set (target_names ps)"
  shows "testBuildPrerequisiteReachable ps roots wanted \<longleftrightarrow> (\<exists>r \<in> set roots. (r, wanted) \<in> (edges (prerequisite_edges ps))\<^sup>*)"
proof -
  let ?U = "set (target_names ps) \<union> set (concat (map (prerequisite_edges ps) (target_names ps)))"
  have "card ?U \<le> length (target_names ps) + length (concat (map (prerequisite_edges ps) (target_names ps)))"
    using card_Un_le [of "set (target_names ps)" "set (concat (map (prerequisite_edges ps) (target_names ps)))"]
      card_length [of "target_names ps"] card_length [of "concat (map (prerequisite_edges ps) (target_names ps))"] by linarith
  then have "card ?U < prerequisite_fuel ps" by (simp add: prerequisite_fuel_def)
  moreover have "set roots \<subseteq> ?U" using assms by blast
  ultimately obtain b v where "visit_wanted (prerequisite_edges ps) wanted (prerequisite_fuel ps) roots {} = Some (b, v)"
    and "b \<longleftrightarrow> (\<exists>r \<in> set roots. (r, wanted) \<in> (edges (prerequisite_edges ps))\<^sup>*)"
    using pq.visit_wanted_decides by blast
  then show ?thesis by (simp add: testBuildPrerequisiteReachable_def)
qed

text \<open>Where no target name holds a colon, the owner read off an identity is the owner.\<close>

definition plain_targets :: "manifest_package list \<Rightarrow> bool" where
  "plain_targets ps \<longleftrightarrow> list_all (\<lambda>(owner, path, t). CHR '':'' \<notin> set (mtName t)) (located_targets ps)"

lemma prerequisite_edges_declared:
  assumes "plain_targets ps"
  shows "edges (prerequisite_edges ps) \<subseteq> build_dependencies ps"
proof
  fix e assume "e \<in> edges (prerequisite_edges ps)"
  then obtain i j where e: "e = (i, j)" and j: "j \<in> set (prerequisite_edges ps i)" by (cases e) auto
  then have "target_at ps i \<noteq> None" unfolding prerequisite_edges_def by (cases "target_at ps i") simp_all
  then obtain owner path t where l: "target_at ps i = Some (owner, path, t)" by auto
  with target_at_Some have located: "(owner, path, t) \<in> set (located_targets ps)" and i: "i = target_identity owner (mtName t)"
    by (fastforce simp: located_identity_def)+
  have "CHR '':'' \<notin> set (mtName t)" using assms located by (auto simp: plain_targets_def list_all_iff)
  then have "cut_last (CHR '':'') i = Some (owner, mtName t)" using cut_last_append by (simp add: i target_identity_def)
  with j l have "j \<in> reference_identity owner ` set (mtDependsOn t)"
    by (auto simp: prerequisite_edges_def split: if_splits)
  with located i show "e \<in> build_dependencies ps"
    by (force simp: e build_dependencies_def located_dependencies_def located_identity_def)
qed

text \<open>What is promised of a built fixture of a test of the package \<open>owner\<close>.\<close>

definition fixture_supplied :: "manifest_package list \<Rightarrow> string \<Rightarrow> test_target \<Rightarrow> built_fixture \<Rightarrow> bool" where
  "fixture_supplied ps owner t f \<longleftrightarrow>
     (let identity = reference_identity owner (bfTarget f) in
      list_ex (\<lambda>r. (reference_identity owner r, identity) \<in> (build_dependencies ps)\<^sup>*) (ttDependsOn t) \<and>
      ArtifactNames f \<noteq> [] \<and> distinct (ArtifactNames f) \<and>
      (case target_at ps identity of None \<Rightarrow> False
       | Some (_, _, producer) \<Rightarrow> set (ArtifactNames f) \<subseteq> maName ` set (declaredTargetArtifacts producer)))"

lemma wanted_artifacts:
  assumes "wanted_artifact_diags here producer f declared = []"
  shows "set (ArtifactNames f) \<subseteq> set declared" and "distinct (ArtifactNames f)"
proof -
  show "set (ArtifactNames f) \<subseteq> set declared"
    using each_indexed_all [OF assms [unfolded wanted_artifact_diags_def]] by (fastforce simp: Let_def split: if_splits)
  have "distinct (map id (ArtifactNames f))"
    by (rule each_indexed_distinct [OF assms [unfolded wanted_artifact_diags_def]]) (auto simp: Let_def split: if_splits)
  then show "distinct (ArtifactNames f)" by simp
qed

lemma built_fixtures_supplied:
  assumes checked: "validateTestBuildDependencies ps = []" and plain: "plain_targets ps"
    and p: "p \<in> set ps" and t: "t \<in> set (mpTestTargets p)" and f: "f \<in> set (ttBuiltFixtures t)"
  shows "fixture_supplied ps (mpName p) t f"
proof -
  let ?i = "reference_identity (mpName p) (bfTarget f)"
  let ?roots = "known_prerequisites ps (mpName p) (ttDependsOn t)"
  from each_at_all [OF checked [unfolded validateTestBuildDependencies_def] p] obtain pp where
    "each_at (pp @ ''.testTargets'') (\<lambda>path k t. depends_on_diags ps (mpName p) path (ttDependsOn t) @
         each_at (path @ ''.builtFixtures'') (built_fixture_diags ps (mpName p) path t) (ttBuiltFixtures t))
         (mpTestTargets p) = []" by blast
  from each_at_all [OF this t] obtain path where
    "each_at (path @ ''.builtFixtures'') (built_fixture_diags ps (mpName p) path t) (ttBuiltFixtures t) = []" by auto
  from each_at_all [OF this f] obtain here where prod: "producer_diags ps (mpName p) ?roots here f = []"
    by (auto simp: built_fixture_diags_def)
  then obtain owner lpath producer where at: "target_at ps ?i = Some (owner, lpath, producer)"
    by (auto simp: producer_diags_def Let_def split: option.splits)
  with prod have reach: "testBuildPrerequisiteReachable ps ?roots ?i" and some: "ArtifactNames f \<noteq> []"
    and wanted: "wanted_artifact_diags here ?i f (map maName (declaredTargetArtifacts producer)) = []"
    by (auto simp: producer_diags_def Let_def)
  have "set ?roots \<subseteq> set (target_names ps)"
    by (auto simp: known_prerequisites_def target_at_None simp flip: not_None_eq)
  from reach [unfolded prerequisite_reachable [OF this]] obtain r where
    r: "r \<in> set (ttDependsOn t)" "(reference_identity (mpName p) r, ?i) \<in> (edges (prerequisite_edges ps))\<^sup>*"
    by (auto simp: known_prerequisites_def)
  then have "(reference_identity (mpName p) r, ?i) \<in> (build_dependencies ps)\<^sup>*"
    using rtrancl_mono [OF prerequisite_edges_declared [OF plain]] by blast
  with r(1) some wanted_artifacts [OF wanted] at show ?thesis
    by (auto simp: fixture_supplied_def Let_def list_ex_iff)
qed

section \<open>Accepted manifests\<close>

lemma target_name_plain: "target_name s \<Longrightarrow> CHR '':'' \<notin> set s"
  by (auto simp: target_name_def list_all_iff is_letter_def byte_in_def is_digit_def)

lemma located_in: "(owner, path, t) \<in> set (located_targets ps) \<Longrightarrow> \<exists>p \<in> set ps. owner = mpName p \<and> t \<in> set (mpTargets p)"
  by (auto simp: located_targets_def in_set_enumerate_eq intro!: bexI [of _ "_ ! _"])

lemma accepted_plain_targets:
  assumes "LoadBytes lib file ir = Inr ir'"
  shows "plain_targets (mfPackages ir')"
  unfolding plain_targets_def list_all_iff
proof (clarify)
  fix owner path t
  assume "(owner, path, t) \<in> set (located_targets (mfPackages ir'))" and colon: "CHR '':'' \<in> set (mtName t)"
  from located_in [OF this(1)] obtain p where p: "p \<in> set (mfPackages ir)" "t \<in> set (mpTargets (filled_package p))"
    by (auto simp: accepted_packages(1) [OF assms])
  then obtain s where s: "s \<in> set (mpTargets p)" "mtName t = mtName s" by (auto simp: filled_package_reads)
  from each_at_all [OF accepted_packages(2) [OF assms] p(1)] obtain here where
    "each_at (here @ ''.targets'') (target_diags_at (prepared_package (default_compiler p))) (mpTargets p) = []"
    by (auto simp: package_checks_def package_body_diags_def Let_def)
  from each_at_all [OF this s(1)] have "target_name (mtName s)" by (auto simp: target_diags_at_def)
  with colon s(2) target_name_plain show False by simp
qed

end
