(* ===== verification/Lock_Consistency.thy ===== *)
theory Lock_Consistency
  imports Lockfile_Check Workspace_Graph
begin

text \<open>
  \<open>CheckGraphConsistency\<close> of \<open>internal/lockfile\<close>: whether a lock file still says what the workspace
  graph says of targets and of what tests require.  Two sets of requirements are Go maps; the order
  in which they are walked is the argument \<open>map_order\<close>.
\<close>

definition lock_target_at :: "lock_target list \<Rightarrow> string \<Rightarrow> lock_target option" where
  "lock_target_at ts k = find (\<lambda>t. target_key t = k) (rev ts)"

definition target_consistency :: "lockfile \<Rightarrow> string \<Rightarrow> target_node \<Rightarrow> diagnostic list" where
  "target_consistency lf package t =
     (case lock_target_at (lfTargets lf) (package @ ''::'' @ tnName t) of
        None \<Rightarrow> [errD ''TSPACK_LOCK_STALE_TARGET_MISSING'' ''graph target missing in lockfile'' [package, tnName t]]
      | Some l \<Rightarrow>
          flag (ltExport l \<noteq> tnExport t \<or> ltEntry l \<noteq> tnEntry t \<or> ltRuntime l \<noteq> tnRuntime t \<or> ltTypes l \<noteq> tnTypes t)
            (errD ''TSPACK_LOCK_STALE_TARGET_MISMATCH'' ''graph target differs from lockfile target'' [package, tnName t]))"

definition test_identity :: "string \<Rightarrow> test_node \<Rightarrow> string" where
  "test_identity package t = package @ '':test:'' @ snName t"

definition expected_requirements :: "test_node \<Rightarrow> string list" where
  "expected_requirements t = remdups (map dnKey (snRequirements t))"

definition locked_requirements :: "lockfile \<Rightarrow> string \<Rightarrow> string list" where
  "locked_requirements lf identity =
     remdups (map leReference (filter (\<lambda>e. leFrom e = identity \<and> leKind e = ''test'') (lfEdges lf)))"

definition test_consistency :: "(string list \<Rightarrow> string list) \<Rightarrow> lockfile \<Rightarrow> string \<Rightarrow> test_node \<Rightarrow> diagnostic list" where
  "test_consistency map_order lf package t =
     (let identity = test_identity package t; expected = expected_requirements t; locked = locked_requirements lf identity in
      concat (map (\<lambda>r. flag (r \<notin> set locked)
        (errD ''TSPACK_LOCK_STALE_TEST_REQUIREMENT_MISSING'' ''test target requirement missing in lockfile'' [identity, r])) (map_order expected)) @
      concat (map (\<lambda>r. flag (r \<notin> set expected)
        (errD ''TSPACK_LOCK_STALE_TEST_REQUIREMENT_UNEXPECTED''
          ''lockfile contains a requirement no longer declared by the test target'' [identity, r])) (map_order locked)))"

definition lock_target_consistency :: "workspace_graph \<Rightarrow> lock_target \<Rightarrow> diagnostic list" where
  "lock_target_consistency g l =
     (case graph_package g (ltPackage l) of
        None \<Rightarrow> [errD ''TSPACK_LOCK_UNKNOWN_TARGET'' ''lockfile target package not present in graph'' [ltPackage l, ltName l]]
      | Some p \<Rightarrow> flag (Target p (ltName l) = None)
          (errD ''TSPACK_LOCK_UNKNOWN_TARGET'' ''lockfile target not present in graph'' [ltPackage l, ltName l]))"

definition CheckGraphConsistency ::
  "(string list \<Rightarrow> string list) \<Rightarrow> workspace_graph option \<Rightarrow> lockfile option \<Rightarrow> diagnostic list" where
  "CheckGraphConsistency map_order graph lock =
     (case (graph, lock) of
        (Some g, Some lf) \<Rightarrow>
          SortDiagnostics
            (concat (map (\<lambda>p. concat (map (target_consistency lf (pnName p)) (pnTargets p)) @
               concat (map (test_consistency map_order lf (pnName p)) (pnTestTargets p))) (wgPackages g)) @
             concat (map (lock_target_consistency g) (lfTargets lf)))
      | _ \<Rightarrow> [])"

end
