(* ===== verification/Lock_Graph_Props.thy ===== *)
theory Lock_Graph_Props
  imports Target_Props Lock_Consistency
begin

text \<open>
  What the comparison of a lock file with the workspace graph decides, in terms of the manifest the
  graph was built from: the lock file describes exactly its build targets and what its tests require.
\<close>

definition locked_as :: "lockfile \<Rightarrow> string \<Rightarrow> manifest_target \<Rightarrow> bool" where
  "locked_as lf package t \<longleftrightarrow>
     (case lock_target_at (lfTargets lf) (package @ ''::'' @ mtName t) of
        None \<Rightarrow> False
      | Some l \<Rightarrow> ltExport l = mtExport t \<and> ltEntry l = mtEntry t \<and> ltRuntime l = mtRuntime t \<and> ltTypes l = mtTypes t)"

definition requirements_locked :: "lockfile \<Rightarrow> string \<Rightarrow> test_target \<Rightarrow> bool" where
  "requirements_locked lf package t \<longleftrightarrow>
     set (locked_requirements lf (package @ '':test:'' @ ttName t)) = set (ttRequirements t)"

definition declared_target :: "manifest_ir \<Rightarrow> lock_target \<Rightarrow> bool" where
  "declared_target ir l \<longleftrightarrow>
     list_ex (\<lambda>p. mpName p = ltPackage l \<and> ltName l \<in> set (map mtName (mpTargets p))) (mfPackages ir)"

definition lock_describes :: "manifest_ir \<Rightarrow> lockfile \<Rightarrow> bool" where
  "lock_describes ir lf \<longleftrightarrow>
     list_all (\<lambda>p. list_all (locked_as lf (mpName p)) (mpTargets p) \<and>
       list_all (requirements_locked lf (mpName p)) (mpTestTargets p)) (mfPackages ir) \<and>
     list_all (declared_target ir) (lfTargets lf)"

lemma target_consistency_Nil: "same_target t n \<Longrightarrow> target_consistency lf package n = [] \<longleftrightarrow> locked_as lf package t"
  by (auto simp: target_consistency_def locked_as_def same_target_def split: option.splits)

lemma test_consistency_Nil:
  assumes "\<And>xs. set (map_order xs) = set xs" and "same_test t n"
  shows "test_consistency map_order lf package n = [] \<longleftrightarrow> requirements_locked lf package t"
proof -
  have "test_consistency map_order lf package n = [] \<longleftrightarrow>
      set (expected_requirements n) = set (locked_requirements lf (test_identity package n))"
    by (auto simp: test_consistency_def Let_def concat_map_Nil assms(1))
  moreover have "set (expected_requirements n) = set (ttRequirements t)" "test_identity package n = package @ '':test:'' @ ttName t"
    using assms(2) by (auto simp: expected_requirements_def test_identity_def same_test_def)
  ultimately show ?thesis by (auto simp: requirements_locked_def)
qed

text \<open>A condition on partners holds of all of one list when it holds of all of the other.\<close>

lemma matched_all:
  "matched r xs ys \<Longrightarrow> (\<And>x y. r x y \<Longrightarrow> x \<in> set xs \<Longrightarrow> y \<in> set ys \<Longrightarrow> p x \<longleftrightarrow> q y) \<Longrightarrow> list_all p xs \<longleftrightarrow> (\<forall>y \<in> set ys. q y)"
  unfolding matched_def list_all_iff list_ex_iff by blast

lemma package_consistency:
  assumes order: "\<And>xs. set (map_order xs) = set xs" and p: "package_in_graph p n"
  shows "concat (map (target_consistency lf (pnName n)) (pnTargets n)) @
      concat (map (test_consistency map_order lf (pnName n)) (pnTestTargets n)) = [] \<longleftrightarrow>
    list_all (locked_as lf (mpName p)) (mpTargets p) \<and> list_all (requirements_locked lf (mpName p)) (mpTestTargets p)"
proof -
  from p have name: "pnName n = mpName p" and targets: "matched same_target (mpTargets p) (pnTargets n)"
    and tests: "matched same_test (mpTestTargets p) (pnTestTargets n)" by (simp_all add: package_in_graph_def)
  have "list_all (locked_as lf (mpName p)) (mpTargets p) \<longleftrightarrow> (\<forall>t \<in> set (pnTargets n). target_consistency lf (mpName p) t = [])"
    by (rule matched_all [OF targets]) (simp add: target_consistency_Nil)
  moreover have "list_all (requirements_locked lf (mpName p)) (mpTestTargets p) \<longleftrightarrow>
      (\<forall>t \<in> set (pnTestTargets n). test_consistency map_order lf (mpName p) t = [])"
    by (rule matched_all [OF tests]) (simp add: test_consistency_Nil [OF order])
  ultimately show ?thesis by (simp add: concat_map_Nil name)
qed

lemma Target_None: "Target n name = None \<longleftrightarrow> name \<notin> set (map tnName (pnTargets n))"
  by (auto simp: Target_def find_None_iff)

lemma lock_target_declared:
  assumes names: "distinct (map mpName (mfPackages ir))" and nodes: "map pnName (wgPackages g) = sort (map mpName (mfPackages ir))"
    and found: "\<forall>p \<in> set (mfPackages ir). \<exists>n. graph_package g (mpName p) = Some n \<and> package_in_graph p n"
  shows "lock_target_consistency g l = [] \<longleftrightarrow> declared_target ir l"
proof (cases "ltPackage l \<in> mpName ` set (mfPackages ir)")
  case True
  then obtain p where p: "p \<in> set (mfPackages ir)" "mpName p = ltPackage l" by auto
  with found obtain n where n: "graph_package g (ltPackage l) = Some n" "package_in_graph p n" by fastforce
  have only: "q = p" if "q \<in> set (mfPackages ir)" "mpName q = ltPackage l" for q
    using names p that by (auto simp: distinct_map inj_on_def)
  have "set (map tnName (pnTargets n)) = set (map mtName (mpTargets p))"
    using n(2) by (metis package_in_graph_def set_sort)
  then have "lock_target_consistency g l = [] \<longleftrightarrow> ltName l \<in> set (map mtName (mpTargets p))"
    by (simp add: lock_target_consistency_def n(1) Target_None)
  also have "\<dots> \<longleftrightarrow> declared_target ir l"
    using p only unfolding declared_target_def list_ex_iff by metis
  finally show ?thesis .
next
  case False
  have "set (map pnName (wgPackages g)) = mpName ` set (mfPackages ir)" by (simp add: nodes)
  with False have "ltPackage l \<notin> set (map pnName (wgPackages g))" by simp
  then have "graph_package g (ltPackage l) = None"
    unfolding graph_package_def find_None_iff set_map by force
  moreover have "\<not> declared_target ir l"
    using False unfolding declared_target_def list_ex_iff by force
  ultimately show ?thesis by (simp add: lock_target_consistency_def)
qed

theorem consistency_decided:
  assumes "sound_manifest ir" and order: "\<And>xs. set (map_order xs) = set xs"
  shows "CheckGraphConsistency map_order (Some (fst (Build_graph (Some ir)))) (Some lf) = [] \<longleftrightarrow> lock_describes ir lf"
proof (rule graph_sound [OF assms(1)])
  fix g
  assume g: "Build_graph (Some ir) = (g, SortDiagnostics (concat (map misplaced_in_package (mfPackages ir))))"
    and nodes: "map pnName (wgPackages g) = sort (map mpName (mfPackages ir))"
    and pairs: "matched package_in_graph (mfPackages ir) (wgPackages g)"
    and found: "\<forall>p \<in> set (mfPackages ir). \<exists>n. graph_package g (mpName p) = Some n \<and> package_in_graph p n"
  from assms(1) have names: "distinct (map mpName (mfPackages ir))" by (simp add: sound_manifest_def)
  have packages: "list_all (\<lambda>p. list_all (locked_as lf (mpName p)) (mpTargets p) \<and>
        list_all (requirements_locked lf (mpName p)) (mpTestTargets p)) (mfPackages ir) \<longleftrightarrow>
      (\<forall>n \<in> set (wgPackages g). concat (map (target_consistency lf (pnName n)) (pnTargets n)) @
        concat (map (test_consistency map_order lf (pnName n)) (pnTestTargets n)) = [])"
    by (rule matched_all [OF pairs]) (simp only: package_consistency [OF order])
  have locked: "list_all (declared_target ir) (lfTargets lf) \<longleftrightarrow> (\<forall>l \<in> set (lfTargets lf). lock_target_consistency g l = [])"
    by (simp add: list_all_iff lock_target_declared [OF names nodes found])
  show ?thesis
    unfolding lock_describes_def packages locked by (simp add: g CheckGraphConsistency_def concat_map_Nil)
qed

end
