(* ===== verification/Manifest_Demo.thy ===== *)
theory Manifest_Demo
  imports Lock_Graph_Props
begin

text \<open>
  A concrete manifest that the checks accept, with a lock file for it: one package with a build
  target, which names a dependency of kind \<open>dep\<close> as a peer, and a test that takes the built target
  as a fixture.
\<close>

definition demo_library :: go_library where
  "demo_library = \<lparr>glUpper = id, glLower = id, glNumber = (\<lambda>q. ''''), glParseURL = (\<lambda>s. None), glJSONFault = (\<lambda>s. None),
     glConflictText = (\<lambda>m. '''')\<rparr>"

definition demo_source :: author_source where
  "demo_source = \<lparr>asKind = ''npm'', asPackage = ''y'', asRange = ''1'', asRef = '''', asRepo = '''', asTag = '''', asRev = '''',
     asBranch = '''', asPath = '''', asName = ''''\<rparr>"

definition demo_dependency :: effective_dependency where
  "demo_dependency = \<lparr>edKey = '''', edKind = ''dep'', edSource = demo_source, edOptional = False, edPatch = None\<rparr>"

definition demo_target :: manifest_target where
  "demo_target = \<lparr>mtName = ''main'', mtLanguage = '''', mtCompiler = '''', mtCompilerPath = '''', mtCompilerConfig = '''', mtInputs = [],
     mtDependsOn = [], mtArtifacts = [], mtArtifact = '''', mtExport = ''.'', mtEntry = ''m.ts'', mtRuntime = ''m.js'', mtTypes = '''',
     mtJavaScriptRuntime = '''', mtTargetFramework = '''', mtRuntimeIdentifier = '''', mtTsXmlProfile = '''', mtNpmContracts = [],
     mtPeers = [''y''], mtDeps = [''y''], mtOptional = False\<rparr>"

definition demo_built_fixture :: built_fixture where
  "demo_built_fixture = \<lparr>bfName = ''f'', bfTarget = ''main'', bfArtifact = ''javaScript'', bfArtifacts = [], bfBinding = ''f''\<rparr>"

definition demo_test :: test_target where
  "demo_test = \<lparr>ttName = ''t'', ttHarness = ''xtest'', ttConfig = '''', ttSources = [''t.ts''], ttProject = '''', ttRequirements = [''y''],
     ttFixtures = [], ttDependsOn = [''main''], ttBuiltFixtures = [demo_built_fixture]\<rparr>"

definition demo_manifest_package :: manifest_package where
  "demo_manifest_package = \<lparr>mpName = ''a'', mpPublicationName = '''', mpManifestPath = '''', mpVersion = ''1.0.0'', mpCompiler = '''',
     mpCompilerPath = '''', mpRoot = '''', mpLicense = '''', mpKind = ''app'', mpTypePolicies = [], mpBoundaryPolicies = [],
     mpDependencies = [demo_dependency], mpDependencyAuthoring = None, mpDependencyTape = None, mpTargets = [demo_target],
     mpTools = [], mpBoundaries = [], mpPublishInclude = [], mpPublishExclude = [], mpRunTargets = [], mpTestTargets = [demo_test],
     mpDevBackend = None, mpSkyrim = None\<rparr>"

definition demo_manifest :: manifest_ir where
  "demo_manifest = \<lparr>mfFormat = 1, mfWorkspace = \<lparr>wkName = ''w'', wkRuntime = ''nodejs'', wkRuntimeSpecified = True\<rparr>,
     mfCapabilities = [], mfCategories = [], mfUpdateRows = [],
     mfRegistryPolicy = \<lparr>rpAllowedSources = [], rpOffline = False, rpRequireIntegrity = False, rpRequireAuditCoverage = False, rpSources = []\<rparr>,
     mfPackages = [demo_manifest_package], mfCompatFiles = [], mfWorkflows = []\<rparr>"

lemma each_few [simp]: "each_at path f [] = []" "each_at path f [x] = f (indexed path 0) 0 x"
  "each_indexed g [] = []" "each_indexed g [y] = g 0 y"
  by (simp_all add: each_at_def each_indexed_def)

lemma demo_visible: "\<not> is_blank ''w''" "\<not> is_blank ''nodejs''" "\<not> is_blank ''npm''" "\<not> is_blank ''y''"
  "\<not> is_blank ''m.ts''" "\<not> is_blank ''m.js''" "\<not> is_blank ''t.ts''"
  by (rule visible_not_blank; simp add: visible_def byte_in_def)+

lemma demo_header: "manifest_header_diags demo_manifest = []"
  by (simp add: manifest_header_diags_def demo_manifest_def Let_def default_runtime_def demo_visible isValidRuntimeProfile_def
      workspace_name_def is_letter_def byte_in_def has_prefix_def)

lemma demo_prepared: "prepared_package (default_compiler demo_manifest_package) =
  demo_manifest_package\<lparr>mpCompiler := ''tsc'',
    mpDependencyAuthoring := Some [legacy_declaration 0 demo_dependency],
    mpDependencyTape := Some (Build_authoring [legacy_declaration 0 demo_dependency])\<rparr>"
  by (simp add: prepared_package_def Let_def default_compiler_def demo_manifest_package_def authored_declarations_def
    identified_declaration_def legacy_declaration_def source_identity_def demo_source_def demo_dependency_def identity_valid_def demo_visible
    first_given_def Build_authoring_def ordered_declarations_def normalized_declarations_def normalizeDeclaration_def author_step_def 
    author_start_def fresh_entry_def EffectiveDependency_def)

lemma demo_paths: "IsSafePackageFilePath ''m.ts''" "IsSafePackageFilePath ''m.js''" "IsSafePackageFilePath ''t.ts''"
  by (simp_all add: safe_file_path_iff demo_visible has_prefix_def path_components_def clean_list_def clean_step_def)

lemma demo_names: "target_name ''main''" "target_name ''t''" "target_name ''f''" "package_name ''a''" "package_name ''f''" "version_text ''1.0.0''"
  by (simp_all add: target_name_def package_name_def name_char_def is_letter_def byte_in_def is_digit_def version_text_def skip_digits_def
    skip_char_def version_suffix_def)

lemma demo_effective: "trEffective (Build_authoring [legacy_declaration 0 demo_dependency]) = [demo_dependency]"
  "trConflicts (Build_authoring [legacy_declaration 0 demo_dependency]) = []"
  by (simp_all add: legacy_declaration_def source_identity_def demo_source_def demo_dependency_def identity_valid_def demo_visible
    first_given_def Build_authoring_def ordered_declarations_def normalized_declarations_def normalizeDeclaration_def author_step_def 
    author_start_def fresh_entry_def EffectiveDependency_def Let_def)

lemma demo_identity: "DependencyIdentity demo_dependency = ''y''" "dependency_at [demo_dependency] ''y'' = Some demo_dependency"
  by (simp_all add: DependencyIdentity_def demo_dependency_def demo_source_def dependency_at_def)

lemma demo_head: "package_head_diags [demo_manifest_package] here 0 demo_manifest_package = []"
  by (simp add: package_head_diags_def Let_def demo_manifest_package_def default_compiler_def demo_names isValidPackageKind_def package_compiler_def)

abbreviation demo_q :: manifest_package where
  "demo_q \<equiv> prepared_package (default_compiler demo_manifest_package)"

lemma demo_reads: "mpCompiler demo_q = ''tsc''" "mpDependencies demo_q = [demo_dependency]" "mpKind demo_q = ''app''"
  "mpTargets demo_q = [demo_target]" "mpTools demo_q = []" "mpTestTargets demo_q = [demo_test]" "mpName demo_q = ''a''"
  "mpRunTargets demo_q = []" "mpTypePolicies demo_q = []" "mpBoundaryPolicies demo_q = []" "mpBoundaries demo_q = []"
  "mpPublishInclude demo_q = []" "mpPublishExclude demo_q = []"
  "mpDevBackend demo_manifest_package = None" "mpSkyrim demo_manifest_package = None"
  "mpTargets demo_manifest_package = [demo_target]" "mpTestTargets demo_manifest_package = [demo_test]"
  "mpName demo_manifest_package = ''a''" "mpTools demo_manifest_package = []"
  unfolding demo_prepared by (simp_all add: demo_manifest_package_def)

lemma demo_target_clean: "target_diags_at demo_q here 0 demo_target = []"
  by (simp add: target_diags_at_def compiler_diags_def target_compiler_def demo_target_def Let_def demo_reads
    package_compiler_def artifact_diags_def tool_output_diags_def demo_names has_prefix_def has_suffix_def target_path_diags_def demo_paths
    reference_diags_def demo_identity)

lemma demo_body: "package_body_diags demo_library here demo_manifest_package = []"
proof -
  have ds: "authored_declarations (default_compiler demo_manifest_package) = [legacy_declaration 0 demo_dependency]"
    by (simp add: authored_declarations_def default_compiler_def demo_manifest_package_def)
  have id: "identified_declaration (legacy_declaration 0 demo_dependency) = legacy_declaration 0 demo_dependency"
    by (simp add: identified_declaration_def legacy_declaration_def source_identity_def demo_dependency_def demo_source_def first_given_def)
  have "declaration_diags there (legacy_declaration 0 demo_dependency) = []" for there
    by (simp add: declaration_diags_def Let_def legacy_declaration_def source_identity_def demo_dependency_def demo_source_def
        first_given_def identity_valid_def demo_visible)
  then have "authoring_diags demo_library here (default_compiler demo_manifest_package) = []"
    by (simp add: authoring_diags_def Let_def ds id demo_effective)
  moreover have "dependency_diags here [demo_dependency] = []"
    by (simp add: dependency_diags_def Let_def demo_identity validateDep_def dependency_kind_def) (simp add: demo_dependency_def demo_source_def)
  ultimately show ?thesis
    by (simp add: package_body_diags_def Let_def demo_reads demo_target_clean tool_diags_def overlap_diags_def target_inputs_def)
      (simp add: demo_target_def)
qed

lemma demo_rest: "package_rest_diags demo_library here demo_manifest_package = []"
  by (simp add: package_rest_diags_def Let_def demo_reads policy_diags_def publish_diags_def test_target_diags_def demo_test_def demo_names
    path_or_glob_def demo_paths test_requirement_diags_def demo_identity)

lemma demo_locations:
  "located_targets [filled_package demo_manifest_package] = [(''a'', ''packages[0].targets[0]'', filled_target demo_q demo_target)]"
  by (simp add: located_targets_def filled_package_reads demo_reads indexed_def nat_string.simps digit_char_def)

lemma demo_target_at: "target_at [filled_package demo_manifest_package] ''a:main'' =
    Some (''a'', ''packages[0].targets[0]'', filled_target demo_q demo_target)"
  by (simp add: target_at_def demo_locations located_identity_def target_identity_def) (simp add: demo_target_def)

lemma demo_reference: "reference_identity ''a'' ''main'' = ''a:main''"
  by (simp add: reference_identity_def ResolveBuildTargetReference_def cut_last_def target_identity_def)

lemma demo_build_checked: "validateBuildTargetDependencies [filled_package demo_manifest_package] = []"
  unfolding build_dependencies_checked known_dependencies_def
  by (simp add: build_dependencies_def demo_locations located_dependencies_def) (simp add: demo_target_def acyclic_def)

lemma demo_fixture_reads: "bfTarget demo_built_fixture = ''main''" "bfArtifacts demo_built_fixture = []"
  by (simp_all add: demo_built_fixture_def)

lemma demo_declared: "declaredTargetArtifacts (filled_target demo_q demo_target) =
    [\<lparr>maName = ''javaScript'', maKind = ''javaScript'', maPath = ''m.js'', maRole = ''runtimeEntry''\<rparr>]"
  by (simp add: declaredTargetArtifacts_def filled_target_def demo_target_def Let_def)

lemma demo_artifact_names: "ArtifactNames demo_built_fixture = [''javaScript'']"
  by (simp add: ArtifactNames_def demo_built_fixture_def)

lemma demo_tests_checked: "validateTestBuildDependencies [filled_package demo_manifest_package] = []"
proof -
  let ?ps = "[filled_package demo_manifest_package]"
  have "testBuildPrerequisiteReachable ?ps [''a:main''] ''a:main''"
    by (simp add: testBuildPrerequisiteReachable_def prerequisite_fuel_def)
  then have "producer_diags ?ps ''a'' [''a:main''] here demo_built_fixture = []" for here
    by (simp add: producer_diags_def Let_def wanted_artifact_diags_def demo_artifact_names demo_fixture_reads demo_reference
        demo_target_at demo_declared)
  moreover have "known_prerequisites ?ps ''a'' [''main''] = [''a:main'']"
    by (simp add: known_prerequisites_def demo_reference demo_target_at)
  moreover have "depends_on_diags ?ps ''a'' here [''main''] = []" for here
    by (simp add: depends_on_diags_def Let_def demo_reference demo_target_at)
  ultimately show ?thesis
    by (simp add: validateTestBuildDependencies_def filled_package_reads demo_reads demo_test_def built_fixture_diags_def)
      (simp add: demo_built_fixture_def demo_names)
qed

lemma demo_accepted: "LoadBytes demo_library ''manifest'' demo_manifest = Inr (validated_manifest demo_library demo_manifest)"
proof -
  have rest: "validateRegistryPolicy demo_library (mfRegistryPolicy demo_manifest) = []" "compat_diags demo_library (mfCompatFiles demo_manifest) = []"
    "capability_ack_diags (mfCapabilities demo_manifest) = []" "category_diags (mfCategories demo_manifest) = []"
    "update_row_diags (mfUpdateRows demo_manifest) = []" "fst (validateWorkflows u n s (mfWorkflows demo_manifest)) = []" for u n s
    by (simp_all add: demo_manifest_def validateRegistryPolicy_def compat_diags_def capability_ack_diags_def category_diags_def
        update_row_diags_def validateWorkflows_def)
  have packages: "mfPackages demo_manifest = [demo_manifest_package]" by (simp add: demo_manifest_def)
  have "manifest_diags demo_library demo_manifest = []"
    by (simp add: manifest_diags_def demo_header rest packages package_checks_def demo_head demo_body demo_rest demo_reads
        validateDevBackend_def validateSkyrimTarget_def skyrim_count_diags_def demo_build_checked demo_tests_checked)
  then show ?thesis by (simp add: LoadBytes_def Validate_manifest_def)
qed

section \<open>A lock file for it\<close>

definition demo_locked_target :: lock_target where
  "demo_locked_target = \<lparr>ltPackage = ''a'', ltName = ''main'', ltExport = ''.'', ltEntry = ''m.ts'', ltRuntime = ''m.js'', ltTypes = ''''\<rparr>"

definition demo_manifest_lock :: lockfile where
  "demo_manifest_lock = empty_lock\<lparr>lfTargets := [demo_locked_target],
     lfEdges := [\<lparr>leFrom = ''a:test:t'', leTo = ''npm:y@1'', leKind = ''test'', leOptional = False, leReference = ''y''\<rparr>]\<rparr>"

end
