(* ===== verification/Patch_Apply.thy ===== *)
theory Patch_Apply
  imports Go_Text
begin

text \<open>
  \<open>internal/patchapply\<close>: parsing a patch in unified form, applying its hunks to the lines of a file,
  and materialising a patched copy of a package tree.  A tree maps slash-separated relative paths to
  what is there; the source tree is the list of its entries in the order of \<open>WalkDir\<close>, and the
  destination is the fresh directory that the caller of \<open>Materialize\<close> makes.  Failures of the
  operating system other than a missing or unreadable entry are left out.
\<close>

section \<open>The patch\<close>

record hunk =
  hkOldStart :: int
  hkOldCount :: int
  hkNewStart :: int
  hkNewCount :: int
  hkLines :: "string list"

record file_patch =
  fpOldPath :: string
  fpNewPath :: string
  fpHunks :: "hunk list"

text \<open>
  The errors are the values their texts are made of.  The last two are run-time panics: the first
  field of a line without fields, and a slice capacity beyond the address space.
\<close>

datatype patch_error =
    UnsupportedRecord nat
  | UnsupportedChange string string
  | UnsupportedMetadata nat
  | NoNewlineMarker
  | InvalidHunkLine nat
  | PatchWithoutHunks string
  | NoFileChanges
  | UnsafePatchPath string
  | TargetMissing string
  | TargetSymlink string
  | TargetUnreadable string
  | HunkOutside string
  | ContextMismatch string nat
  | RemovalMismatch string nat
  | CountMismatch string
  | SymlinkInTree string
  | UnsupportedEntry string
  | PanicIndex
  | PanicMakeslice

definition CanonicalBytes :: "string \<Rightarrow> string" where
  "CanonicalBytes s = replace_all s [CHR 0x0D, CHR 0x0A] [CHR 0x0A]"

definition Digest :: "(string \<Rightarrow> string) \<Rightarrow> string \<Rightarrow> string" where
  "Digest sha256 s = ''sha256:'' @ sha256 (CanonicalBytes s)"

section \<open>Parsing\<close>

text \<open>\<open>strconv.Atoi\<close> of digits, whose error is ignored: a number out of range is the largest one.\<close>

definition patch_number :: "string \<Rightarrow> int" where
  "patch_number s = min (int (read_nat s)) (2 ^ 63 - 1)"

definition patch_count :: "string \<Rightarrow> int" where
  "patch_count s = (if s = '''' then 1 else patch_number s)"

text \<open>
  \<open>hunkHeader\<close>, the expression \<open>^@@ -(\d+)(?:,(\d+))? \+(\d+)(?:,(\d+))? @@\<close>, on a line: what follows a
  run of digits is no digit, so there is one way to match.
\<close>

definition read_digits :: "string \<Rightarrow> (string \<times> string) option" where
  "read_digits s =
     (let d = takeWhile is_digit s in if d = '''' then None else Some (d, dropWhile is_digit s))"

definition read_range :: "string \<Rightarrow> (string \<times> string \<times> string) option" where
  "read_range s =
     (case read_digits s of None \<Rightarrow> None
      | Some (start, rest) \<Rightarrow>
          (case (if has_prefix rest '','' then read_digits (drop 1 rest) else None) of
             None \<Rightarrow> Some (start, '''', rest)
           | Some (n, rest') \<Rightarrow> Some (start, n, rest')))"

definition hunk_header :: "string \<Rightarrow> (string \<times> string \<times> string \<times> string) option" where
  "hunk_header line =
     (if \<not> has_prefix line ''@@ -'' then None
      else
        (case read_range (drop 4 line) of None \<Rightarrow> None
         | Some (a, b, rest) \<Rightarrow>
             if \<not> has_prefix rest '' +'' then None
             else
               (case read_range (drop 2 rest) of None \<Rightarrow> None
                | Some (c, d, rest') \<Rightarrow> if has_prefix rest' '' @@'' then Some (a, b, c, d) else None)))"

text \<open>The lines of a hunk, with the index of the next line and the lines that are left.\<close>

definition no_newline_marker :: string where
  "no_newline_marker = CHR 0x5C # '' No newline at end of file''"

definition hunk_stops :: "string \<Rightarrow> bool" where
  "hunk_stops line \<longleftrightarrow>
     has_prefix line ''@@ '' \<or> has_prefix line ''diff --git '' \<or> has_prefix line ''--- ''"

fun parse_hunk :: "nat \<Rightarrow> string list \<Rightarrow> patch_error + (string list \<times> nat \<times> string list)" where
  "parse_hunk i [] = Inr ([], i, [])"
| "parse_hunk i (line # rest) =
     (if hunk_stops line then Inr ([], i, line # rest)
      else if has_prefix line no_newline_marker then Inl NoNewlineMarker
      else if line = '''' then Inr ([], i, line # rest)
      else if hd line \<noteq> CHR '' '' \<and> hd line \<noteq> CHR ''+'' \<and> hd line \<noteq> CHR ''-'' then Inl (InvalidHunkLine (i + 1))
      else
        (case parse_hunk (i + 1) rest of Inl e \<Rightarrow> Inl e
         | Inr (body, r) \<Rightarrow> Inr (line # body, r)))"

lemma parse_hunk_shrinks: "parse_hunk i ls = Inr (body, j, rest) \<Longrightarrow> length rest \<le> length ls"
  by (induction i ls arbitrary: body rule: parse_hunk.induct) (force split: if_splits sum.splits)+

text \<open>The hunks of a file.\<close>

function parse_hunks :: "nat \<Rightarrow> string list \<Rightarrow> patch_error + (hunk list \<times> nat \<times> string list)" where
  "parse_hunks i [] = Inr ([], i, [])"
| "parse_hunks i (line # rest) =
     (if has_prefix line ''diff --git '' \<or> has_prefix line ''--- '' then Inr ([], i, line # rest)
      else if line = '''' then parse_hunks (i + 1) rest
      else
        (case hunk_header line of None \<Rightarrow> Inl (UnsupportedMetadata (i + 1))
         | Some (a, b, c, d) \<Rightarrow>
             (case parse_hunk (i + 1) rest of Inl e \<Rightarrow> Inl e
              | Inr (body, j, left) \<Rightarrow>
                  (case parse_hunks j left of Inl e \<Rightarrow> Inl e
                   | Inr (hunks, r) \<Rightarrow>
                       Inr (\<lparr>hkOldStart = patch_number a, hkOldCount = patch_count b, hkNewStart = patch_number c,
                             hkNewCount = patch_count d, hkLines = body\<rparr> # hunks, r)))))"
  by pat_completeness auto
termination
  by (relation "measure (\<lambda>(i, ls). length ls)") (auto dest!: parse_hunk_shrinks)

lemma parse_hunks_shrinks: "parse_hunks i ls = Inr (hs, j, rest) \<Longrightarrow> length rest \<le> length ls"
proof (induction i ls arbitrary: hs rule: parse_hunks.induct)
  case (2 i line rest)
  then show ?case
    by (force split: if_splits option.splits sum.splits prod.splits dest!: parse_hunk_shrinks)
qed simp

text \<open>The files of a patch.\<close>

definition is_metadata :: "string \<Rightarrow> bool" where
  "is_metadata line \<longleftrightarrow> has_prefix line ''diff --git '' \<or> has_prefix line ''index '' \<or> line = ''''"

function parse_files :: "nat \<Rightarrow> string list \<Rightarrow> patch_error + file_patch list" where
  "parse_files i ls =
     (case ls of [] \<Rightarrow> Inr []
      | line # rest \<Rightarrow>
          if is_metadata line then parse_files (i + 1) rest
          else
            (case rest of [] \<Rightarrow> Inl (UnsupportedRecord (i + 1))
             | next # body \<Rightarrow>
                 if \<not> has_prefix line ''--- '' \<or> \<not> has_prefix next ''+++ '' then Inl (UnsupportedRecord (i + 1))
                 else
                   (case (string_fields (trim_prefix line ''--- ''), string_fields (trim_prefix next ''+++ '')) of
                      (old # _, new # _) \<Rightarrow>
                        if old = ''/dev/null'' \<or> new = ''/dev/null'' \<or> old \<noteq> ''a/'' @ trim_prefix new ''b/''
                        then Inl (UnsupportedChange old new)
                        else
                          (case parse_hunks (i + 2) body of Inl e \<Rightarrow> Inl e
                           | Inr (hunks, j, left) \<Rightarrow>
                               if hunks = [] then Inl (PatchWithoutHunks (trim_prefix new ''b/''))
                               else
                                 (case parse_files j left of Inl e \<Rightarrow> Inl e
                                  | Inr files \<Rightarrow>
                                      Inr (\<lparr>fpOldPath = trim_prefix old ''a/'', fpNewPath = trim_prefix new ''b/'',
                                            fpHunks = hunks\<rparr> # files)))
                    | _ \<Rightarrow> Inl PanicIndex)))"
  by pat_completeness auto
termination
  by (relation "measure (\<lambda>(i, ls). length ls)") (auto dest!: parse_hunks_shrinks)

declare parse_files.simps [simp del]

definition parse_patch :: "string \<Rightarrow> patch_error + file_patch list" where
  "parse_patch contents =
     (case parse_files 0 (split_on (CHR 0x0A) contents) of Inl e \<Rightarrow> Inl e
      | Inr files \<Rightarrow> if files = [] then Inl NoFileChanges else Inr files)"

section \<open>Applying the hunks\<close>

text \<open>
  The lines of a hunk against the lines of the file from the cursor on: the cursor behind them, the
  replacement, and how many old and new lines were seen.
\<close>

fun apply_hunk_lines ::
  "string \<Rightarrow> string list \<Rightarrow> nat \<Rightarrow> string list \<Rightarrow> patch_error + (nat \<times> string list \<times> int \<times> int)" where
  "apply_hunk_lines path ls cursor [] = Inr (cursor, [], 0, 0)"
| "apply_hunk_lines path ls cursor ([] # rest) = Inl PanicIndex"
| "apply_hunk_lines path ls cursor ((c # value) # rest) =
     (if c = CHR '' '' then
        if length ls \<le> cursor \<or> ls ! cursor \<noteq> value then Inl (ContextMismatch path (cursor + 1))
        else
          (case apply_hunk_lines path ls (cursor + 1) rest of Inl e \<Rightarrow> Inl e
           | Inr (k, new, os, ns) \<Rightarrow> Inr (k, value # new, os + 1, ns + 1))
      else if c = CHR ''-'' then
        if length ls \<le> cursor \<or> ls ! cursor \<noteq> value then Inl (RemovalMismatch path (cursor + 1))
        else
          (case apply_hunk_lines path ls (cursor + 1) rest of Inl e \<Rightarrow> Inl e
           | Inr (k, new, os, ns) \<Rightarrow> Inr (k, new, os + 1, ns))
      else if c = CHR ''+'' then
        (case apply_hunk_lines path ls cursor rest of Inl e \<Rightarrow> Inl e
         | Inr (k, new, os, ns) \<Rightarrow> Inr (k, value # new, os, ns + 1))
      else apply_hunk_lines path ls cursor rest)"

text \<open>
  \<open>make([]string, 0, n)\<close> panics when \<open>n\<close> string headers of 16 bytes exceed the 48-bit address space.
\<close>

definition apply_hunk :: "string \<Rightarrow> string list \<Rightarrow> int \<Rightarrow> hunk \<Rightarrow> patch_error + (string list \<times> int)" where
  "apply_hunk path ls delta h =
     (let position = hkOldStart h - 1 + delta in
      if position < 0 \<or> int (length ls) < position then Inl (HunkOutside path)
      else if 2 ^ 44 < hkNewCount h then Inl PanicMakeslice
      else
        (case apply_hunk_lines path ls (nat position) (hkLines h) of Inl e \<Rightarrow> Inl e
         | Inr (cursor, new, oldSeen, newSeen) \<Rightarrow>
             if oldSeen \<noteq> hkOldCount h \<or> newSeen \<noteq> hkNewCount h then Inl (CountMismatch path)
             else Inr (take (nat position) ls @ new @ drop cursor ls, delta + hkNewCount h - hkOldCount h)))"

fun apply_hunks :: "string \<Rightarrow> string list \<Rightarrow> int \<Rightarrow> hunk list \<Rightarrow> patch_error + string list" where
  "apply_hunks path ls delta [] = Inr ls"
| "apply_hunks path ls delta (h # hs) =
     (case apply_hunk path ls delta h of Inl e \<Rightarrow> Inl e
      | Inr (ls', delta') \<Rightarrow> apply_hunks path ls' delta' hs)"

definition safePath :: "string \<Rightarrow> bool" where
  "safePath value =
     (let clean = path_clean (map (\<lambda>c. if c = CHR 0x5C then CHR ''/'' else c) value);
          hasWindowsVolume = 2 \<le> length clean \<and> clean ! 1 = CHR '':'' in
      clean = value \<and> clean \<noteq> ''.'' \<and> \<not> is_rooted clean \<and> \<not> hasWindowsVolume
        \<and> clean \<noteq> ''..'' \<and> \<not> has_prefix clean ''../'')"

section \<open>Trees\<close>

datatype tree_entry = RegularFile string | Directory | SymbolicLink | OtherEntry

type_synonym tree = "string \<Rightarrow> tree_entry option"

text \<open>\<open>Lstat\<close> of every prefix of the path.\<close>

definition path_prefixes :: "string \<Rightarrow> string list" where
  "path_prefixes p =
     (let parts = split_on (CHR ''/'') p in
      map (\<lambda>k. join_strings (take k parts) ''/'') [1..<length parts + 1])"

fun check_prefixes :: "tree \<Rightarrow> string list \<Rightarrow> patch_error option" where
  "check_prefixes t [] = None"
| "check_prefixes t (p # ps) =
     (case t p of None \<Rightarrow> Some (TargetMissing p)
      | Some e \<Rightarrow> if e = SymbolicLink then Some (TargetSymlink p) else check_prefixes t ps)"

definition rejectSymlinkPath :: "tree \<Rightarrow> string \<Rightarrow> patch_error option" where
  "rejectSymlinkPath t p = check_prefixes t (path_prefixes p)"

definition applyFile :: "tree \<Rightarrow> file_patch \<Rightarrow> patch_error + tree" where
  "applyFile t patch =
     (let path = fpNewPath patch in
      if \<not> safePath path then Inl (UnsafePatchPath path)
      else
        (case rejectSymlinkPath t path of Some e \<Rightarrow> Inl e
         | None \<Rightarrow>
             (case t path of
                Some (RegularFile contents) \<Rightarrow>
                  (case apply_hunks path (split_on (CHR 0x0A) (CanonicalBytes contents)) 0 (fpHunks patch) of
                     Inl e \<Rightarrow> Inl e
                   | Inr ls \<Rightarrow> Inr (t(path \<mapsto> RegularFile (join_strings ls [CHR 0x0A]))))
              | _ \<Rightarrow> Inl (TargetUnreadable path))))"

fun apply_files :: "tree \<Rightarrow> file_patch list \<Rightarrow> patch_error + tree" where
  "apply_files t [] = Inr t"
| "apply_files t (f # fs) = (case applyFile t f of Inl e \<Rightarrow> Inl e | Inr t' \<Rightarrow> apply_files t' fs)"

fun copyTree :: "tree \<Rightarrow> (string \<times> tree_entry) list \<Rightarrow> patch_error + tree" where
  "copyTree t [] = Inr t"
| "copyTree t ((p, e) # es) =
     (case e of SymbolicLink \<Rightarrow> Inl (SymlinkInTree p)
      | OtherEntry \<Rightarrow> Inl (UnsupportedEntry p)
      | _ \<Rightarrow> copyTree (t(p \<mapsto> e)) es)"

definition Materialize :: "(string \<times> tree_entry) list \<Rightarrow> string \<Rightarrow> patch_error + tree" where
  "Materialize source patch =
     (case parse_patch (CanonicalBytes patch) of Inl e \<Rightarrow> Inl e
      | Inr files \<Rightarrow>
          (case copyTree Map.empty source of Inl e \<Rightarrow> Inl e
           | Inr t \<Rightarrow> apply_files t files))"

end
