(* ===== verification/Patch_Props.thy ===== *)
theory Patch_Props
  imports Patch_Apply Path_Util
begin

text \<open>
  What a patch does: applying a hunk replaces one occurrence of its old lines, at the place it names,
  by its new lines and nothing else; a patched tree differs from its source only in files the patch
  names; and a difference that is written out as a patch turns the old file into the new one, its
  reverse the new one into the old one.
\<close>

section \<open>Hunks\<close>

definition old_lines :: "hunk \<Rightarrow> string list" where
  "old_lines h = map tl (filter (\<lambda>l. hd l = CHR '' '' \<or> hd l = CHR ''-'') (hkLines h))"

definition new_lines :: "hunk \<Rightarrow> string list" where
  "new_lines h = map tl (filter (\<lambda>l. hd l = CHR '' '' \<or> hd l = CHR ''+'') (hkLines h))"

definition hunk_line :: "string \<Rightarrow> bool" where
  "hunk_line l \<longleftrightarrow> l \<noteq> '''' \<and> hd l \<in> {CHR '' '', CHR ''+'', CHR ''-''}"

text \<open>The specification: the old lines stand where the hunk says, and are replaced.\<close>

definition replaces :: "hunk \<Rightarrow> int \<Rightarrow> string list \<Rightarrow> string list \<Rightarrow> bool" where
  "replaces h delta ls ls' \<longleftrightarrow>
     (\<exists>pre post. ls = pre @ old_lines h @ post \<and> ls' = pre @ new_lines h @ post
        \<and> int (length pre) = hkOldStart h - 1 + delta)
     \<and> hkOldCount h = int (length (old_lines h)) \<and> hkNewCount h = int (length (new_lines h))
     \<and> hkNewCount h \<le> 2 ^ 44"

lemma apply_hunk_lines_iff:
  assumes "list_all hunk_line body" and "k \<le> length ls"
  shows "apply_hunk_lines path ls k body = Inr (k', new, os, ns) \<longleftrightarrow>
    (let old = map tl (filter (\<lambda>l. hd l = CHR '' '' \<or> hd l = CHR ''-'') body) in
      k' = k + length old \<and> k' \<le> length ls \<and> take (length old) (drop k ls) = old \<and>
      new = map tl (filter (\<lambda>l. hd l = CHR '' '' \<or> hd l = CHR ''+'') body) \<and>
      os = int (length old) \<and> ns = int (length new))"
  using assms
proof (induction body arbitrary: k new os ns)
  case Nil
  then show ?case by (auto simp: Let_def)
next
  case (Cons l body)
  obtain c v where l: "l = c # v" and c: "c \<in> {CHR '' '', CHR ''+'', CHR ''-''}"
    using Cons.prems(1) by (cases l) (auto simp: hunk_line_def)
  have body: "list_all hunk_line body" using Cons.prems(1) by simp
  have nth: "drop k ls = ls ! k # drop (Suc k) ls" if "k < length ls"
    using that by (simp add: Cons_nth_drop_Suc)
  show ?case
  proof (cases "c = CHR ''+''")
    case True
    have "apply_hunk_lines path ls k (l # body) = Inr (k', new, os, ns) \<longleftrightarrow>
      (\<exists>n. apply_hunk_lines path ls k body = Inr (k', n, os, ns - 1) \<and> new = v # n)"
      by (auto simp: l True split: sum.splits prod.splits)
    then show ?thesis
      unfolding Cons.IH [OF body Cons.prems(2)] by (auto simp: l True Let_def)
  next
    case False
    show ?thesis
    proof (cases "k < length ls \<and> ls ! k = v")
      case hit: True
      then have k: "Suc k \<le> length ls" by simp
      show ?thesis
      proof (cases "c = CHR '' ''")
        case True
        have "apply_hunk_lines path ls k (l # body) = Inr (k', new, os, ns) \<longleftrightarrow>
          (\<exists>n. apply_hunk_lines path ls (Suc k) body = Inr (k', n, os - 1, ns - 1) \<and> new = v # n)"
          using hit by (auto simp: l True split: sum.splits prod.splits)
        then show ?thesis
          unfolding Cons.IH [OF body k] using hit nth by (auto simp: l True Let_def)
      next
        case False
        with c \<open>c \<noteq> CHR ''+''\<close> have m: "c = CHR ''-''" by simp
        have "apply_hunk_lines path ls k (l # body) = Inr (k', new, os, ns) \<longleftrightarrow>
          apply_hunk_lines path ls (Suc k) body = Inr (k', new, os - 1, ns)"
          using hit by (auto simp: l m split: sum.splits prod.splits)
        then show ?thesis
          unfolding Cons.IH [OF body k] using hit nth by (auto simp: l m Let_def)
      qed
    next
      case miss: False
      have "apply_hunk_lines path ls k (l # body) \<noteq> Inr (k', new, os, ns)"
        using miss c \<open>c \<noteq> CHR ''+''\<close> by (auto simp: l split: sum.splits prod.splits)
      moreover have "take (Suc m) (drop k ls) \<noteq> v # w" for m w
        using miss nth by (cases "k < length ls") auto
      ultimately show ?thesis
        using c \<open>c \<noteq> CHR ''+''\<close> by (auto simp: l Let_def)
    qed
  qed
qed

lemma apply_hunk_iff:
  assumes "list_all hunk_line (hkLines h)"
  shows "apply_hunk path ls delta h = Inr (ls', delta') \<longleftrightarrow>
    replaces h delta ls ls' \<and> delta' = delta + hkNewCount h - hkOldCount h"
proof (cases "hkOldStart h - 1 + delta < 0 \<or> int (length ls) < hkOldStart h - 1 + delta \<or> 2 ^ 44 < hkNewCount h")
  case True
  then have "\<not> replaces h delta ls ls'" by (auto simp: replaces_def)
  with True show ?thesis by (auto simp: apply_hunk_def Let_def)
next
  case False
  define k where "k = nat (hkOldStart h - 1 + delta)"
  have k: "k \<le> length ls" "int k = hkOldStart h - 1 + delta" using False by (auto simp: k_def)
  note lines = apply_hunk_lines_iff [OF assms k(1), where path = path, folded old_lines_def new_lines_def]
  have "apply_hunk path ls delta h = Inr (ls', delta') \<longleftrightarrow>
    (\<exists>c new os ns. apply_hunk_lines path ls k (hkLines h) = Inr (c, new, os, ns) \<and> os = hkOldCount h \<and>
       ns = hkNewCount h \<and> ls' = take k ls @ new @ drop c ls \<and> delta' = delta + hkNewCount h - hkOldCount h)"
    using False by (auto simp: apply_hunk_def Let_def k_def [symmetric] split: sum.splits prod.splits)
  also have "\<dots> \<longleftrightarrow> k + length (old_lines h) \<le> length ls \<and> take (length (old_lines h)) (drop k ls) = old_lines h \<and>
     hkOldCount h = int (length (old_lines h)) \<and> hkNewCount h = int (length (new_lines h)) \<and>
     ls' = take k ls @ new_lines h @ drop (k + length (old_lines h)) ls \<and> delta' = delta + hkNewCount h - hkOldCount h"
    unfolding lines by (auto simp: Let_def)
  also have "\<dots> \<longleftrightarrow> replaces h delta ls ls' \<and> delta' = delta + hkNewCount h - hkOldCount h"
  proof -
    have "(k + length (old_lines h) \<le> length ls \<and> take (length (old_lines h)) (drop k ls) = old_lines h \<and>
        ls' = take k ls @ new_lines h @ drop (k + length (old_lines h)) ls) \<longleftrightarrow>
      (\<exists>pre post. ls = pre @ old_lines h @ post \<and> ls' = pre @ new_lines h @ post \<and> length pre = k)"
      (is "?a \<longleftrightarrow> ?b")
    proof
      assume ?a
      then have "ls = take k ls @ old_lines h @ drop (k + length (old_lines h)) ls"
        by (metis add.commute append_take_drop_id drop_drop)
      with \<open>?a\<close> k(1) show ?b by (intro exI [of _ "take k ls"] exI [of _ "drop (k + length (old_lines h)) ls"]) simp
    qed auto
    then show ?thesis using k(2) False unfolding replaces_def by auto
  qed
  finally show ?thesis .
qed

text \<open>A list of hunks, each at its place in what the ones before it made.\<close>

fun replaces_all :: "hunk list \<Rightarrow> int \<Rightarrow> string list \<Rightarrow> string list \<Rightarrow> bool" where
  "replaces_all [] delta ls ls' \<longleftrightarrow> ls' = ls"
| "replaces_all (h # hs) delta ls ls' \<longleftrightarrow>
     (\<exists>mid. replaces h delta ls mid \<and> replaces_all hs (delta + hkNewCount h - hkOldCount h) mid ls')"

lemma apply_hunks_iff:
  assumes "\<forall>h \<in> set hs. list_all hunk_line (hkLines h)"
  shows "apply_hunks path ls delta hs = Inr ls' \<longleftrightarrow> replaces_all hs delta ls ls'"
  using assms
proof (induction hs arbitrary: ls delta)
  case (Cons h hs)
  then have "apply_hunks path ls delta (h # hs) = Inr ls' \<longleftrightarrow>
    (\<exists>mid d. apply_hunk path ls delta h = Inr (mid, d) \<and> replaces_all hs d mid ls')"
    by (auto split: sum.splits prod.splits)
  with Cons.prems show ?case by (auto simp: apply_hunk_iff)
qed auto

section \<open>What parsing yields\<close>

lemma parse_hunk_body: "parse_hunk i ls = Inr (body, j, rest) \<Longrightarrow> list_all hunk_line body"
proof (induction i ls arbitrary: body rule: parse_hunk.induct)
  case (2 i line rest)
  then show ?case by (cases "hunk_stops line") (auto simp: hunk_line_def split: if_splits sum.splits)
qed simp

lemma parse_hunks_lines:
  "parse_hunks i ls = Inr (hs, j, rest) \<Longrightarrow> \<forall>h \<in> set hs. list_all hunk_line (hkLines h)"
proof (induction i ls arbitrary: hs rule: parse_hunks.induct)
  case (2 i line more)
  show ?case
  proof (cases "has_prefix line ''diff --git '' \<or> has_prefix line ''--- '' \<or> line = ''''")
    case True
    with 2 show ?thesis by (auto split: if_splits)
  next
    case False
    with 2(3) obtain a b c d body k left hunks where
      h: "hunk_header line = Some (a, b, c, d)" "parse_hunk (i + 1) more = Inr (body, k, left)"
      "parse_hunks k left = Inr (hunks, j, rest)" and
      hs: "hs = \<lparr>hkOldStart = patch_number a, hkOldCount = patch_count b, hkNewStart = patch_number c,
               hkNewCount = patch_count d, hkLines = body\<rparr> # hunks"
      by (auto split: if_splits option.splits sum.splits prod.splits)
    from False have "\<forall>h \<in> set hunks. list_all hunk_line (hkLines h)"
      using 2(2) [OF _ _ h(1) _ _ _ h(2) _ _ h(3)] by auto
    with parse_hunk_body [OF h(2)] show ?thesis by (simp add: hs)
  qed
qed simp

lemma parse_files_lines:
  "parse_files i ls = Inr fs \<Longrightarrow> \<forall>f \<in> set fs. \<forall>h \<in> set (fpHunks f). list_all hunk_line (hkLines h)"
proof (induction i ls arbitrary: fs rule: parse_files.induct)
  case (1 i ls)
  show ?case
  proof (cases ls)
    case Nil
    with 1(3) show ?thesis by (simp add: parse_files.simps)
  next
    case (Cons line rest)
    show ?thesis
    proof (cases "is_metadata line")
      case True
      with 1 Cons show ?thesis by (simp add: parse_files.simps [of i "line # rest"])
    next
      case False
      with 1(3) Cons obtain next' body old os new ns hunks j left files where
        p: "rest = next' # body" "has_prefix line ''--- ''" "has_prefix next' ''+++ ''"
        "string_fields (trim_prefix line ''--- '') = old # os" "string_fields (trim_prefix next' ''+++ '') = new # ns"
        "\<not> (old = ''/dev/null'' \<or> new = ''/dev/null'' \<or> old \<noteq> ''a/'' @ trim_prefix new ''b/'')"
        "parse_hunks (i + 2) body = Inr (hunks, j, left)" "hunks \<noteq> []"
        "parse_files j left = Inr files" and
        fs: "fs = \<lparr>fpOldPath = trim_prefix old ''a/'', fpNewPath = trim_prefix new ''b/'', fpHunks = hunks\<rparr> # files"
        by (auto simp: parse_files.simps [of i "line # rest"] split: if_splits list.splits sum.splits prod.splits)
      have "\<forall>f \<in> set files. \<forall>h \<in> set (fpHunks f). list_all hunk_line (hkLines h)"
        using 1(2) [OF Cons False p(1) _ refl p(4) p(5) p(6) p(7) refl refl p(8) p(9)] p(2,3) by auto
      with parse_hunks_lines [OF p(7)] show ?thesis by (simp add: fs)
    qed
  qed
qed

lemma parse_lines:
  "parse_patch s = Inr fs \<Longrightarrow> f \<in> set fs \<Longrightarrow> h \<in> set (fpHunks f) \<Longrightarrow> list_all hunk_line (hkLines h)"
  using parse_files_lines by (fastforce simp: parse_patch_def split: sum.splits if_splits)

section \<open>Safe paths\<close>

lemma clean_form_head:
  assumes "clean_form False cs" and "cs = [] \<or> hd cs \<noteq> ''..''"
  shows "list_all plain_name cs"
  using assms by (cases cs) auto

lemma safePath_components:
  assumes "safePath p"
  shows "path_clean p = p" and "\<not> is_rooted p" and "path_components p \<noteq> []"
    and "list_all plain_name (path_components p)"
proof -
  let ?m = "map (\<lambda>c. if c = CHR 0x5C then CHR ''/'' else c) p"
  from assms have m: "path_clean ?m = p" by (simp add: safePath_def Let_def)
  from assms have up: "p \<noteq> ''..''" "\<not> has_prefix p ''../''" unfolding safePath_def Let_def m by blast+
  have "path_clean p = p" using m path_clean_idem [of ?m] by simp
  then show c: "path_clean p = p" .
  show r: "\<not> is_rooted p" using assms m by (simp add: safePath_def Let_def)
  show ne: "path_components p \<noteq> []"
    using assms m r path_clean_dot [of p] c by (auto simp: safePath_def Let_def)
  have joined: "p = join_strings (path_components p) ''/''"
    using c r ne by (simp add: path_clean_def path_text_def)
  have head: "hd (path_components p) \<noteq> ''..''"
  proof
    assume h: "hd (path_components p) = ''..''"
    then obtain cs where cs: "path_components p = ''..'' # cs" using ne by (cases "path_components p") auto
    show False
    proof (cases cs)
      case Nil
      with joined cs up(1) show False by simp
    next
      case (Cons d ds)
      then have "p = ''../'' @ join_strings (d # ds) ''/''" using joined cs by simp
      then have "has_prefix p ''../''" using has_prefix_iff by blast
      with up(2) show False by simp
    qed
  qed
  show "list_all plain_name (path_components p)"
    using clean_form_head [OF _ disjI2 [OF head]] path_components_form [of p] r by simp
qed

lemma safePath_below:
  assumes "safePath p" and "base \<noteq> ''''"
  shows "path_components (path_join [base, p]) = path_components base @ path_components p"
    and "is_rooted (path_join [base, p]) = is_rooted base" and "path_components p \<noteq> []"
proof -
  note c = safePath_components [OF assms(1)]
  have up: "''..'' \<notin> set (path_components p)"
    using c(4) by (auto simp: list_all_iff plain_name_def)
  have "p \<noteq> ''''" using c(3) by (auto simp: path_components_def clean_list_def clean_step_def)
  then show "path_components (path_join [base, p]) = path_components base @ path_components p"
    and "is_rooted (path_join [base, p]) = is_rooted base"
    using join_below [OF assms(2) _ c(2) up] by blast+
  show "path_components p \<noteq> []" by (rule c(3))
qed

section \<open>Trees\<close>

definition copied :: "(string \<times> tree_entry) list \<Rightarrow> tree" where
  "copied source = map_of (rev source)"

lemma copyTree_result:
  "copyTree t source = Inr t' \<longleftrightarrow>
     t' = t ++ copied source \<and> (\<forall>(p, e) \<in> set source. e = Directory \<or> (\<exists>c. e = RegularFile c))"
proof (induction source arbitrary: t)
  case (Cons pe source)
  obtain p e where pe: "pe = (p, e)" by (cases pe)
  have "t(p \<mapsto> e) ++ copied source = t ++ copied (pe # source)"
    by (simp add: copied_def pe map_add_def fun_eq_iff split: option.splits)
  with Cons show ?case by (cases e) (auto simp: pe fun_upd_def [symmetric] simp del: fun_upd_apply)
qed (auto simp: copied_def)

text \<open>One patched file: its lines are replaced where the hunks say, everything else stays.\<close>

definition patches_file :: "file_patch \<Rightarrow> tree \<Rightarrow> tree \<Rightarrow> bool" where
  "patches_file f t t' \<longleftrightarrow>
     safePath (fpNewPath f) \<and> rejectSymlinkPath t (fpNewPath f) = None \<and>
     (\<exists>c ls. t (fpNewPath f) = Some (RegularFile c) \<and>
        replaces_all (fpHunks f) 0 (split_on (CHR 0x0A) (CanonicalBytes c)) ls \<and>
        t' = t(fpNewPath f \<mapsto> RegularFile (join_strings ls [CHR 0x0A])))"

lemma applyFile_iff:
  assumes "\<forall>h \<in> set (fpHunks f). list_all hunk_line (hkLines h)"
  shows "applyFile t f = Inr t' \<longleftrightarrow> patches_file f t t'"
  unfolding patches_file_def apply_hunks_iff [OF assms, symmetric, where path = "fpNewPath f"]
  by (auto simp: applyFile_def Let_def split: if_splits option.splits sum.splits tree_entry.splits)

fun patches_files :: "file_patch list \<Rightarrow> tree \<Rightarrow> tree \<Rightarrow> bool" where
  "patches_files [] t t' \<longleftrightarrow> t' = t"
| "patches_files (f # fs) t t' \<longleftrightarrow> (\<exists>mid. patches_file f t mid \<and> patches_files fs mid t')"

lemma apply_files_iff:
  assumes "\<forall>f \<in> set fs. \<forall>h \<in> set (fpHunks f). list_all hunk_line (hkLines h)"
  shows "apply_files t fs = Inr t' \<longleftrightarrow> patches_files fs t t'"
  using assms
proof (induction fs arbitrary: t)
  case (Cons f fs)
  have f: "\<And>mid. applyFile t f = Inr mid \<longleftrightarrow> patches_file f t mid" using applyFile_iff Cons.prems by simp
  have "apply_files t (f # fs) = Inr t' \<longleftrightarrow> (\<exists>mid. applyFile t f = Inr mid \<and> apply_files mid fs = Inr t')"
    by (auto split: sum.splits)
  with Cons f show ?case by simp
qed auto

lemma Materialize_iff:
  "Materialize source patch = Inr t \<longleftrightarrow>
     (\<exists>files. parse_patch (CanonicalBytes patch) = Inr files \<and>
        (\<forall>(p, e) \<in> set source. e = Directory \<or> (\<exists>c. e = RegularFile c)) \<and>
        patches_files files (copied source) t)"
proof (cases "parse_patch (CanonicalBytes patch)")
  case (Inr files)
  have "\<forall>f \<in> set files. \<forall>h \<in> set (fpHunks f). list_all hunk_line (hkLines h)" using parse_lines [OF Inr] by blast
  note applied = apply_files_iff [OF this]
  show ?thesis
  proof (cases "copyTree Map.empty source")
    case (Inl e)
    then have "\<not> (\<forall>(p, e) \<in> set source. e = Directory \<or> (\<exists>c. e = RegularFile c))"
      using copyTree_result [of Map.empty source "copied source"] by auto
    with Inl show ?thesis by (auto simp: Materialize_def Inr)
  next
    case copy: (Inr t')
    then have "t' = copied source" "\<forall>(p, e) \<in> set source. e = Directory \<or> (\<exists>c. e = RegularFile c)"
      using copyTree_result [of Map.empty source t'] by auto
    with copy applied show ?thesis by (simp add: Materialize_def Inr)
  qed
qed (simp add: Materialize_def)

lemma patches_files_frame:
  assumes "patches_files fs t t'" and "t' p \<noteq> t p"
  shows "\<exists>f \<in> set fs. p = fpNewPath f \<and> safePath p \<and> (\<exists>c c'. t p = Some (RegularFile c) \<and> t' p = Some (RegularFile c'))"
  using assms
proof (induction fs arbitrary: t)
  case (Cons f fs)
  then obtain mid where mid: "patches_file f t mid" "patches_files fs mid t'" by auto
  show ?case
  proof (cases "t' p = mid p")
    case True
    with Cons.prems(2) mid(1) show ?thesis by (auto simp: patches_file_def split: if_splits)
  next
    case False
    from Cons.IH [OF mid(2) False] mid(1) show ?thesis
      by (auto simp: patches_file_def split: if_splits)
  qed
qed simp

section \<open>Differences written as patches\<close>

text \<open>
  A difference of two texts: unchanged lines, then a hunk of kept, added and deleted lines, and so on;
  \<open>tail\<close> are the lines behind the last hunk.
\<close>

datatype piece = Keep string | Add_line string | Del_line string

type_synonym change = "string list \<times> piece list"

fun piece_old :: "piece \<Rightarrow> string list" where
  "piece_old (Keep l) = [l]" | "piece_old (Add_line l) = []" | "piece_old (Del_line l) = [l]"

fun piece_new :: "piece \<Rightarrow> string list" where
  "piece_new (Keep l) = [l]" | "piece_new (Add_line l) = [l]" | "piece_new (Del_line l) = []"

fun piece_line :: "piece \<Rightarrow> string" where
  "piece_line (Keep l) = '' '' @ l" | "piece_line (Add_line l) = ''+'' @ l" | "piece_line (Del_line l) = ''-'' @ l"

fun flip_piece :: "piece \<Rightarrow> piece" where
  "flip_piece (Keep l) = Keep l" | "flip_piece (Add_line l) = Del_line l" | "flip_piece (Del_line l) = Add_line l"

definition old_side :: "piece list \<Rightarrow> string list" where
  "old_side ps = concat (map piece_old ps)"

definition new_side :: "piece list \<Rightarrow> string list" where
  "new_side ps = concat (map piece_new ps)"

fun old_text :: "change list \<Rightarrow> string list \<Rightarrow> string list" where
  "old_text [] tail = tail"
| "old_text ((gap, ps) # cs) tail = gap @ old_side ps @ old_text cs tail"

fun new_text :: "change list \<Rightarrow> string list \<Rightarrow> string list" where
  "new_text [] tail = tail"
| "new_text ((gap, ps) # cs) tail = gap @ new_side ps @ new_text cs tail"

definition flip_changes :: "change list \<Rightarrow> change list" where
  "flip_changes cs = map (\<lambda>(gap, ps). (gap, map flip_piece ps)) cs"

text \<open>The hunks, after so many old and new lines.\<close>

fun hunks_of :: "nat \<Rightarrow> nat \<Rightarrow> change list \<Rightarrow> hunk list" where
  "hunks_of m n [] = []"
| "hunks_of m n ((gap, ps) # cs) =
     \<lparr>hkOldStart = int (m + length gap + 1), hkOldCount = int (length (old_side ps)),
      hkNewStart = int (n + length gap + 1), hkNewCount = int (length (new_side ps)),
      hkLines = map piece_line ps\<rparr>
     # hunks_of (m + length gap + length (old_side ps)) (n + length gap + length (new_side ps)) cs"

definition print_range :: "int \<Rightarrow> int \<Rightarrow> string" where
  "print_range start n = nat_string (nat start) @ '','' @ nat_string (nat n)"

definition print_hunk :: "hunk \<Rightarrow> string list" where
  "print_hunk h =
     (''@@ -'' @ print_range (hkOldStart h) (hkOldCount h) @ '' +''
        @ print_range (hkNewStart h) (hkNewCount h) @ '' @@'') # hkLines h"

definition text_of :: "string list \<Rightarrow> string" where
  "text_of ls = join_strings ls [CHR 0x0A]"

definition print_patch :: "string \<Rightarrow> change list \<Rightarrow> string" where
  "print_patch path cs =
     text_of ([''--- a/'' @ path, ''+++ b/'' @ path] @ concat (map print_hunk (hunks_of 0 0 cs)) @ [''''])"

lemma old_side_lines [simp]:
  "map tl (filter (\<lambda>l. hd l = CHR '' '' \<or> hd l = CHR ''-'') (map piece_line ps)) = old_side ps"
proof (induction ps)
  case (Cons p ps)
  then show ?case by (cases p) (auto simp: old_side_def)
qed (simp add: old_side_def)

lemma new_side_lines [simp]:
  "map tl (filter (\<lambda>l. hd l = CHR '' '' \<or> hd l = CHR ''+'') (map piece_line ps)) = new_side ps"
proof (induction ps)
  case (Cons p ps)
  then show ?case by (cases p) (auto simp: new_side_def)
qed (simp add: new_side_def)

lemma piece_hunk_lines [simp]: "list_all hunk_line (map piece_line ps)"
proof (induction ps)
  case (Cons p ps)
  then show ?case by (cases p) (auto simp: hunk_line_def)
qed simp

lemma flip_side [simp]: "old_side (map flip_piece ps) = new_side ps" "new_side (map flip_piece ps) = old_side ps"
proof (induction ps)
  case (Cons p ps)
  { case 1 then show ?case using Cons by (cases p) (auto simp: old_side_def new_side_def) }
  { case 2 then show ?case using Cons by (cases p) (auto simp: old_side_def new_side_def) }
qed (auto simp: old_side_def new_side_def)

lemma flip_text [simp]: "old_text (flip_changes cs) tail = new_text cs tail"
  "new_text (flip_changes cs) tail = old_text cs tail"
  by (induction cs) (auto simp: flip_changes_def)

lemma hunks_of_lines: "\<forall>h \<in> set (hunks_of m n cs). list_all hunk_line (hkLines h)"
  by (induction m n cs rule: hunks_of.induct) auto

text \<open>Behind the lines that are done, the hunks turn the old text into the new one.\<close>

lemma hunks_replace:
  assumes "\<forall>(gap, ps) \<in> set cs. length (new_side ps) \<le> 2 ^ 44"
  shows "replaces_all (hunks_of m (length done) cs) (int (length done) - int m)
    (done @ old_text cs tail) (done @ new_text cs tail)"
  using assms
proof (induction cs arbitrary: m "done")
  case (Cons c cs)
  obtain gap ps where c: "c = (gap, ps)" by (cases c)
  let ?m = "m + length gap + length (old_side ps)"
  have IH: "replaces_all (hunks_of ?m (length (done @ gap @ new_side ps)) cs)
      (int (length (done @ gap @ new_side ps)) - int ?m)
      ((done @ gap @ new_side ps) @ old_text cs tail) ((done @ gap @ new_side ps) @ new_text cs tail)"
    using Cons.prems by (intro Cons.IH) simp
  have few: "int (length (new_side ps)) \<le> 2 ^ 44"
    using Cons.prems by (auto simp: c)
  have "replaces (hd (hunks_of m (length done) (c # cs))) (int (length done) - int m)
      (done @ old_text (c # cs) tail) (done @ gap @ new_side ps @ old_text cs tail)"
    unfolding replaces_def
    by (rule conjI, rule exI [where x = "done @ gap"], rule exI [where x = "old_text cs tail"])
      (use few in \<open>auto simp: c old_lines_def new_lines_def\<close>)
  then show ?case using IH by (auto simp: c algebra_simps)
qed simp

section \<open>Reading a written patch\<close>

lemma nat_string_nonempty [simp]: "nat_string n \<noteq> ''''"
  by (simp add: nat_string.simps [of n])

lemma read_digits_nat_string:
  assumes "\<not> is_digit c"
  shows "read_digits (nat_string n @ c # r) = Some (nat_string n, c # r)"
proof -
  have all: "\<forall>x \<in> set (nat_string n). is_digit x" using nat_string_digits by blast
  have "takeWhile is_digit (nat_string n @ c # r) = nat_string n"
    using all assms by (simp add: takeWhile_append2 [of "nat_string n"])
  moreover have "dropWhile is_digit (nat_string n @ c # r) = c # r"
    using all assms by (simp add: dropWhile_append2 [of "nat_string n"])
  ultimately show ?thesis by (simp add: read_digits_def Let_def)
qed

lemma read_printed_range:
  assumes "\<not> is_digit c"
  shows "read_range (print_range a b @ c # r) = Some (nat_string (nat a), nat_string (nat b), c # r)"
proof -
  have comma: "\<not> is_digit (CHR '','')" by (simp add: is_digit_def)
  show ?thesis
    using read_digits_nat_string [OF comma, of "nat a" "nat_string (nat b) @ c # r"]
      read_digits_nat_string [OF assms, of "nat b" r]
    by (simp add: read_range_def print_range_def has_prefix_def)
qed

lemma hunk_header_printed:
  "hunk_header (hd (print_hunk h)) =
     Some (nat_string (nat (hkOldStart h)), nat_string (nat (hkOldCount h)),
       nat_string (nat (hkNewStart h)), nat_string (nat (hkNewCount h)))"
proof -
  have space: "\<not> is_digit (CHR '' '')" by (simp add: is_digit_def)
  show ?thesis
    using read_printed_range [OF space, of "hkOldStart h" "hkOldCount h" "CHR ''+'' # print_range (hkNewStart h) (hkNewCount h) @ '' @@''"]
      read_printed_range [OF space, of "hkNewStart h" "hkNewCount h" "''@@''"]
    by (simp add: hunk_header_def print_hunk_def has_prefix_def)
qed

lemma number_nat_string: "int n \<le> 2 ^ 63 - 1 \<Longrightarrow> patch_number (nat_string n) = int n"
  by (simp add: patch_number_def read_nat_string)

definition plain_line :: "string \<Rightarrow> bool" where
  "plain_line l \<longleftrightarrow> CHR 0x0A \<notin> set l \<and> CHR 0x0D \<notin> set l"

fun printable_piece :: "piece \<Rightarrow> bool" where
  "printable_piece (Keep l) = plain_line l"
| "printable_piece (Add_line l) = (plain_line l \<and> \<not> has_prefix l ''-- '')"
| "printable_piece (Del_line l) = (plain_line l \<and> \<not> has_prefix l ''-- '')"

text \<open>
  What is written out must be readable: no line ends inside a line, and no deleted line (in either
  direction) that reads as the header of a file once it has its mark.
\<close>

definition printable :: "change list \<Rightarrow> string list \<Rightarrow> bool" where
  "printable cs tail \<longleftrightarrow> cs \<noteq> [] \<and> list_all plain_line tail \<and>
     (\<forall>(gap, ps) \<in> set cs. list_all plain_line gap \<and> list_all printable_piece ps) \<and>
     length (old_text cs tail) \<le> 2 ^ 44 \<and> length (new_text cs tail) \<le> 2 ^ 44"

lemma printable_line:
  assumes "printable_piece p"
  shows "\<not> hunk_stops (piece_line p)" and "\<not> has_prefix (piece_line p) no_newline_marker"
    and "plain_line (piece_line p)"
  using assms
  by (cases p; simp add: hunk_stops_def has_prefix_def no_newline_marker_def plain_line_def)+

lemma parse_printed_hunk:
  assumes "list_all printable_piece ps" and "rest = [] \<or> hunk_stops (hd rest) \<or> hd rest = ''''"
  shows "parse_hunk i (map piece_line ps @ rest) = Inr (map piece_line ps, i + length ps, rest)"
  using assms(1)
proof (induction ps arbitrary: i)
  case Nil
  show ?case using assms(2) 
    by (cases rest) (auto simp: has_prefix_def no_newline_marker_def)
next
  case (Cons p ps)
  then have p: "printable_piece p" by simp
  have "piece_line p \<noteq> ''''" "hd (piece_line p) \<in> {CHR '' '', CHR ''+'', CHR ''-''}" by (cases p; simp)+
  with Cons printable_line [OF p] show ?case by auto
qed

lemma printed_hunk_stops: "hunk_stops (hd (print_hunk h))"
  by (simp add: hunk_stops_def print_hunk_def has_prefix_def)

lemma parse_printed_hunks:
  assumes "\<forall>(gap, ps) \<in> set cs. list_all printable_piece ps"
    and "m + length (old_text cs tail) < 2 ^ 62" and "n + length (new_text cs tail) < 2 ^ 62"
  shows "\<exists>j. parse_hunks i (concat (map print_hunk (hunks_of m n cs)) @ ['''']) = Inr (hunks_of m n cs, j, [])"
  using assms
proof (induction cs arbitrary: i m n)
  case Nil
  show ?case by (simp add: has_prefix_def)
next
  case (Cons c cs)
  obtain gap ps where c: "c = (gap, ps)" by (cases c)
  define h where "h = hd (hunks_of m n (c # cs))"
  define hs where "hs = tl (hunks_of m n (c # cs))"
  define rest where "rest = concat (map print_hunk hs) @ ['''']"
  have hunks: "hunks_of m n (c # cs) = h # hs" by (simp add: h_def hs_def c)
  have body: "hkLines h = map piece_line ps" by (simp add: h_def c)
  have starts: "rest = [] \<or> hunk_stops (hd rest) \<or> hd rest = ''''"
  proof (cases hs)
    case (Cons h' hs')
    then have "hd rest = hd (print_hunk h')" by (simp add: rest_def print_hunk_def)
    then show ?thesis using printed_hunk_stops by simp
  qed (simp add: rest_def)
  have ps: "list_all printable_piece ps" using Cons.prems(1) by (simp add: c)
  have nums: "patch_number (nat_string (nat (hkOldStart h))) = hkOldStart h" "patch_count (nat_string (nat (hkOldCount h))) = hkOldCount h"
    "patch_number (nat_string (nat (hkNewStart h))) = hkNewStart h" "patch_count (nat_string (nat (hkNewCount h))) = hkNewCount h"
    using Cons.prems(2,3) by (simp_all add: patch_count_def number_nat_string h_def c nat_plus_as_int)
  have no_file: "\<not> has_prefix (hd (print_hunk h)) ''diff --git ''" "\<not> has_prefix (hd (print_hunk h)) ''--- ''"
    "hd (print_hunk h) \<noteq> ''''" by (simp_all add: print_hunk_def has_prefix_def)
  obtain j where j: "parse_hunks (i + 1 + length ps) rest = Inr (hs, j, [])"
    using Cons.IH [of "m + length gap + length (old_side ps)" "n + length gap + length (new_side ps)" "i + 1 + length ps"]
      Cons.prems by (auto simp: rest_def hs_def c)
  have "parse_hunks i (hd (print_hunk h) # map piece_line ps @ rest) = Inr (h # hs, j, [])"
    using no_file hunk_header_printed [of h] parse_printed_hunk [OF ps starts, of "i + 1"] j nums
    by (simp add: body [symmetric])
  moreover have "concat (map print_hunk (hunks_of m n (c # cs))) @ [''''] = hd (print_hunk h) # map piece_line ps @ rest"
    by (simp add: hunks rest_def print_hunk_def body)
  ultimately show ?case by (simp add: hunks)
qed

lemma visible_plain: "list_all visible s \<Longrightarrow> plain_line s"
  by (auto simp: plain_line_def list_all_iff visible_def byte_in_def)

lemma plain_nat_string: "plain_line (nat_string n)"
  using nat_string_digits [of _ n] by (auto simp: plain_line_def is_digit_def)

lemma plain_append: "plain_line (a @ b) \<longleftrightarrow> plain_line a \<and> plain_line b"
  by (auto simp: plain_line_def)

lemma plain_print_hunk:
  assumes "list_all plain_line (hkLines h)"
  shows "list_all plain_line (print_hunk h)"
  using assms plain_nat_string by (simp add: print_hunk_def print_range_def) (simp add: plain_line_def)

lemma plain_printed_hunks:
  assumes "\<forall>(gap, ps) \<in> set cs. list_all printable_piece ps"
  shows "list_all plain_line (concat (map print_hunk (hunks_of m n cs)))"
  using assms
proof (induction cs arbitrary: m n)
  case (Cons c cs)
  obtain gap ps where c: "c = (gap, ps)" by (cases c)
  have "list_all plain_line (map piece_line ps)"
    using Cons.prems by (auto simp: c list_all_iff printable_line(3))
  then show ?case using Cons by (simp add: c plain_print_hunk)
qed simp

text \<open>Texts of plain lines are canonical, and split into their lines.\<close>

lemma canonical_text: "list_all plain_line ls \<Longrightarrow> CanonicalBytes (text_of ls) = text_of ls"
proof -
  assume "list_all plain_line ls"
  then have "CHR 0x0D \<notin> set (text_of ls)"
    by (induction ls rule: induct_list012) (auto simp: text_of_def plain_line_def)
  then have "\<not> contains_str (text_of ls) [CHR 0x0D, CHR 0x0A]" by (auto simp: contains_str_iff)
  then show ?thesis by (simp add: CanonicalBytes_def replace_all_plain)
qed

lemma split_text: "list_all plain_line ls \<Longrightarrow> ls \<noteq> [] \<Longrightarrow> split_on (CHR 0x0A) (text_of ls) = ls"
  unfolding text_of_def by (rule split_join) (auto simp: list_all_iff plain_line_def)

lemma parse_print:
  assumes "printable cs tail" and "list_all visible path"
  shows "parse_patch (CanonicalBytes (print_patch path cs)) =
    Inr [\<lparr>fpOldPath = path, fpNewPath = path, fpHunks = hunks_of 0 0 cs\<rparr>]"
proof -
  let ?ls = "[''--- a/'' @ path, ''+++ b/'' @ path] @ concat (map print_hunk (hunks_of 0 0 cs)) @ ['''']"
  have pieces: "\<forall>(gap, ps) \<in> set cs. list_all printable_piece ps" using assms(1) by (auto simp: printable_def)
  have plain: "list_all plain_line ?ls"
    using plain_printed_hunks [OF pieces] visible_plain [OF assms(2)] by (simp add: plain_append) (simp add: plain_line_def)
  obtain j where j: "parse_hunks (Suc (Suc 0)) (concat (map print_hunk (hunks_of 0 0 cs)) @ ['''']) = Inr (hunks_of 0 0 cs, j, [])"
    using parse_printed_hunks [OF pieces, of 0 tail 0 "Suc (Suc 0)"] assms(1) by (auto simp: printable_def)
  have ne: "hunks_of 0 0 cs \<noteq> []" using assms(1) by (cases cs) (auto simp: printable_def)
  have field: "string_fields (''a/'' @ path) = [''a/'' @ path]" "string_fields (''b/'' @ path) = [''b/'' @ path]"
    using assms(2) by (intro visible_fields; simp add: visible_def byte_in_def)+
  have "parse_files 0 ?ls = Inr [\<lparr>fpOldPath = path, fpNewPath = path, fpHunks = hunks_of 0 0 cs\<rparr>]"
    using j ne field
    by (simp add: parse_files.simps [of 0] parse_files.simps [of j] is_metadata_def has_prefix_def trim_prefix_def)
  then show ?thesis
    using canonical_text [OF plain] split_text [OF plain] by (simp add: parse_patch_def print_patch_def)
qed

section \<open>There and back\<close>

lemma printable_text:
  assumes "printable cs tail"
  shows "list_all plain_line (old_text cs tail)" and "list_all plain_line (new_text cs tail)"
proof -
  have side: "list_all plain_line (old_side ps) \<and> list_all plain_line (new_side ps)"
    if "list_all printable_piece ps" for ps
    using that
  proof (induction ps)
    case (Cons p ps)
    then show ?case by (cases p) (auto simp: old_side_def new_side_def)
  qed (auto simp: old_side_def new_side_def)
  have tl: "list_all plain_line tail" and
    cs: "\<forall>(gap, ps) \<in> set cs. list_all plain_line gap \<and> list_all printable_piece ps"
    using assms by (auto simp: printable_def)
  show "list_all plain_line (old_text cs tail)" "list_all plain_line (new_text cs tail)"
    using cs side tl by (induction cs tail rule: old_text.induct) auto
qed

lemma printable_flip: "printable cs tail \<Longrightarrow> printable (flip_changes cs) tail"
proof -
  have flip: "printable_piece (flip_piece p) = printable_piece p" if "printable_piece p" for p
    using that by (cases p) auto
  assume p: "printable cs tail"
  then have "\<forall>(gap, ps) \<in> set (flip_changes cs). list_all plain_line gap \<and> list_all printable_piece ps"
    using flip by (fastforce simp: printable_def flip_changes_def list_all_iff)
  with p show ?thesis by (auto simp: printable_def flip_changes_def [symmetric]) (simp add: flip_changes_def)
qed

lemma new_side_short: "(gap, ps) \<in> set cs \<Longrightarrow> length (new_side ps) \<le> length (new_text cs tail)"
  by (induction cs tail rule: new_text.induct) auto

lemma check_prefixes_update:
  assumes "t p = Some (RegularFile c)"
  shows "check_prefixes (t(p \<mapsto> RegularFile c')) ps = check_prefixes t ps"
  using assms by (induction ps) (auto split: option.splits)

lemma apply_printed:
  assumes "printable cs tail" and "safePath path" and "rejectSymlinkPath t path = None"
    and "t path = Some (RegularFile (text_of (old_text cs tail)))" and "old_text cs tail \<noteq> []"
  shows "apply_files t [\<lparr>fpOldPath = path, fpNewPath = path, fpHunks = hunks_of 0 0 cs\<rparr>] =
    Inr (t(path \<mapsto> RegularFile (text_of (new_text cs tail))))"
proof -
  have short: "\<forall>(gap, ps) \<in> set cs. length (new_side ps) \<le> 2 ^ 44"
    using assms(1) new_side_short [of _ _ cs tail] by (fastforce simp: printable_def)
  have "replaces_all (hunks_of 0 0 cs) 0 (old_text cs tail) (new_text cs tail)"
    using hunks_replace [OF short, of 0 "[]" tail] by simp
  then have "apply_hunks path (old_text cs tail) 0 (hunks_of 0 0 cs) = Inr (new_text cs tail)"
    using apply_hunks_iff [OF hunks_of_lines] by blast
  with assms printable_text(1) [OF assms(1)] show ?thesis
    by (simp add: applyFile_def canonical_text split_text) (simp add: text_of_def)
qed

lemma patch_there_and_back:
  assumes "printable cs tail" and "list_all visible path" and "safePath path"
    and "copyTree Map.empty source = Inr t" and "rejectSymlinkPath t path = None"
    and "t path = Some (RegularFile (text_of (old_text cs tail)))"
    and "old_text cs tail \<noteq> []" and "new_text cs tail \<noteq> []"
  defines "t' \<equiv> t(path \<mapsto> RegularFile (text_of (new_text cs tail)))"
  shows "Materialize source (print_patch path cs) = Inr t'"
    and "\<exists>files. parse_patch (CanonicalBytes (print_patch path (flip_changes cs))) = Inr files \<and> apply_files t' files = Inr t"
proof -
  show "Materialize source (print_patch path cs) = Inr t'"
    using parse_print [OF assms(1,2)] apply_printed [OF assms(1,3,5,6,7)] assms(4)
    by (simp add: Materialize_def t'_def)
  note flipped = printable_flip [OF assms(1)]
  have "rejectSymlinkPath t' path = None"
    using assms(5) check_prefixes_update [of t path, OF assms(6)] by (simp add: rejectSymlinkPath_def t'_def)
  moreover have "t' path = Some (RegularFile (text_of (old_text (flip_changes cs) tail)))" by (simp add: t'_def)
  ultimately have "apply_files t' [\<lparr>fpOldPath = path, fpNewPath = path, fpHunks = hunks_of 0 0 (flip_changes cs)\<rparr>] =
      Inr (t'(path \<mapsto> RegularFile (text_of (new_text (flip_changes cs) tail))))"
    using apply_printed [OF flipped assms(3)] assms(8) by simp
  moreover have "t'(path \<mapsto> RegularFile (text_of (new_text (flip_changes cs) tail))) = t"
    using assms(6) by (auto simp: t'_def)
  ultimately show "\<exists>files. parse_patch (CanonicalBytes (print_patch path (flip_changes cs))) = Inr files \<and> apply_files t' files = Inr t"
    using parse_print [OF flipped assms(2)] by simp
qed

section \<open>Where the code departs from the unified form\<close>

text \<open>
  A hunk without old lines names the line it follows; the code inserts before that line.
\<close>

lemma insertion_without_context:
  "apply_hunks ''f'' [''a'', ''b''] 0
     [\<lparr>hkOldStart = 1, hkOldCount = 0, hkNewStart = 2, hkNewCount = 1, hkLines = [''+new'']\<rparr>]
   = Inr [''new'', ''a'', ''b'']"
  by (simp add: apply_hunk_def)

text \<open>A file header without a name is a run-time panic, and so is a hunk that announces too many lines.\<close>

lemma header_without_name_panics: "parse_patch (text_of [''--- '', ''+++ b/f'']) = Inl PanicIndex"
proof -
  have "string_fields '''' = []" by (simp add: string_fields_def fields_of.simps runes.simps)
  then show ?thesis
    by (simp add: parse_patch_def text_of_def parse_files.simps is_metadata_def has_prefix_def trim_prefix_def)
qed

lemma announced_lines_panic:
  "apply_hunks ''f'' [''a''] 0
     [\<lparr>hkOldStart = 1, hkOldCount = 0, hkNewStart = 1, hkNewCount = 2 ^ 44 + 1, hkLines = []\<rparr>]
   = Inl PanicMakeslice"
  by (simp add: apply_hunk_def)

end
