(* ===== verification/Resolver_Sources.thy ===== *)
theory Resolver_Sources
  imports Lockfile Requirements
begin

text \<open>
  What the resolver is told about registries: the capabilities of a package (\<open>internal/capability\<close>),
  the policy that says which sources may be used and through which endpoints (\<open>source_policy.go\<close>), and
  the controller that chooses how many workers prepare a frontier (\<open>occupancy_controller.go\<close>).  The
  libraries the resolver uses are the fields of \<open>resolver_library\<close>: semantic versions, \<open>net/url\<close>, the
  Unicode case tables, \<open>%q\<close>, digests, base64, archives and JSON.
\<close>

record ('c, 'v, 'u) resolver_library =
  rlLower :: "string \<Rightarrow> string"
  rlUpper :: "string \<Rightarrow> string"
  rlConstraint :: "string \<Rightarrow> 'c option"
  rlVersion :: "string \<Rightarrow> 'v option"
  rlCheck :: "'c \<Rightarrow> 'v \<Rightarrow> bool"
  rlGreater :: "'v \<Rightarrow> 'v \<Rightarrow> bool"
  rlParseURL :: "string \<Rightarrow> 'u option"
  rlScheme :: "'u \<Rightarrow> string"
  rlHost :: "'u \<Rightarrow> string"
  rlHostname :: "'u \<Rightarrow> string"
  rlHasUser :: "'u \<Rightarrow> bool"
  rlQuery :: "'u \<Rightarrow> (string \<times> string list) list"
  rlURLText :: "'u \<Rightarrow> (string \<times> string list) list \<Rightarrow> string"
  rlSHA256 :: "string \<Rightarrow> string"
  rlSHA512 :: "string \<Rightarrow> string"
  rlBase64 :: "string \<Rightarrow> string option"
  rlUntar :: "string \<Rightarrow> (string \<times> string option) list option"
  rlQuote :: "string \<Rightarrow> string"
  rlPackageName :: "string \<Rightarrow> (string \<times> string) option"

section \<open>Capabilities\<close>

definition LifecycleScriptKind :: string where
  "LifecycleScriptKind = ''lifecycleScript''"

definition lifecycleScriptNames :: "string list" where
  "lifecycleScriptNames =
     [''preinstall'', ''install'', ''postinstall'', ''prepack'', ''prepare'', ''postpack'', ''prepublish'',
      ''prepublishOnly'', ''publish'', ''postpublish'']"

definition consumerInstallLifecycleScripts :: "string list" where
  "consumerInstallLifecycleScripts = [''preinstall'', ''install'', ''postinstall'']"

definition maintainerPublishLifecycleScripts :: "string list" where
  "maintainerPublishLifecycleScripts =
     [''prepublishOnly'', ''prepublish'', ''prepare'', ''prepack'', ''postpack'', ''publish'', ''postpublish'']"

record lifecycle_classification =
  lccScriptName :: string
  lccLifecycleCategory :: string
  lccConsumerInstallTime :: bool

definition ClassifyLifecycleScript :: "string \<Rightarrow> lifecycle_classification" where
  "ClassifyLifecycleScript name =
     (if name \<in> set consumerInstallLifecycleScripts
      then \<lparr>lccScriptName = name, lccLifecycleCategory = ''consumer-install'', lccConsumerInstallTime = True\<rparr>
      else if name \<in> set maintainerPublishLifecycleScripts
      then \<lparr>lccScriptName = name, lccLifecycleCategory = ''maintainer-publish'', lccConsumerInstallTime = False\<rparr>
      else \<lparr>lccScriptName = name, lccLifecycleCategory = ''other'', lccConsumerInstallTime = False\<rparr>)"

definition IsSupportedLifecycleScript :: "string \<Rightarrow> bool" where
  "IsSupportedLifecycleScript name \<longleftrightarrow> list_ex (\<lambda>s. name = s) lifecycleScriptNames"

text \<open>The scripts are a map of authored data: an association list with distinct keys.\<close>

definition script_capability :: "(string \<times> string) list \<Rightarrow> string \<Rightarrow> lock_capability list" where
  "script_capability scripts name =
     (case map_of scripts name of None \<Rightarrow> []
      | Some command \<Rightarrow> [\<lparr>lcKind = LifecycleScriptKind, lcScript = name, lcCommand = command, lcDetail = ''''\<rparr>])"

definition FromPackageJSONScripts :: "(string \<times> string) list \<Rightarrow> lock_capability list" where
  "FromPackageJSONScripts scripts =
     sort_key (\<lambda>c. (lcKind c, lcScript c, lcCommand c)) (concat (map (script_capability scripts) lifecycleScriptNames))"

section \<open>The source policy\<close>

record source_endpoint =
  seURL :: string
  seTokenEnv :: string
  seFallbackOnNotFound :: bool
  seAllowedArtifactHosts :: "string list"

record source_policy =
  spOrigin :: string
  spAllowedSources :: "(string \<times> bool) list option"
  spEndpoints :: "(string \<times> source_endpoint list) list"
  spOffline :: bool
  spRequireIntegrity :: bool
  spRequireAuditCoverage :: bool
  spRecordProvenance :: bool

definition plain_endpoint :: "string \<Rightarrow> source_endpoint" where
  "plain_endpoint u = \<lparr>seURL = u, seTokenEnv = '''', seFallbackOnNotFound = False, seAllowedArtifactHosts = []\<rparr>"

definition DefaultSourcePolicy :: source_policy where
  "DefaultSourcePolicy =
     \<lparr>spOrigin = ''TSPack defaults'', spAllowedSources = Some [(''npm'', True), (''jsr'', True)],
      spEndpoints = [(''npm'', [plain_endpoint ''https://registry.npmjs.org'']), (''jsr'', [plain_endpoint ''https://npm.jsr.io''])],
      spOffline = False, spRequireIntegrity = False, spRequireAuditCoverage = False, spRecordProvenance = False\<rparr>"

definition Allows :: "source_policy \<Rightarrow> string \<Rightarrow> bool" where
  "Allows policy source =
     (case spAllowedSources policy of None \<Rightarrow> source = ''npm'' \<or> source = ''jsr''
      | Some m \<Rightarrow> (case map_of m source of None \<Rightarrow> False | Some b \<Rightarrow> b))"

definition endpoints_of :: "source_policy \<Rightarrow> string \<Rightarrow> source_endpoint list" where
  "endpoints_of policy source = (case map_of (spEndpoints policy) source of None \<Rightarrow> [] | Some es \<Rightarrow> es)"

definition EndpointChain :: "source_policy \<Rightarrow> string \<Rightarrow> source_endpoint list" where
  "EndpointChain policy source =
     (if endpoints_of policy source \<noteq> [] then endpoints_of policy source else endpoints_of DefaultSourcePolicy source)"

definition sensitive_key :: "(string \<Rightarrow> string) \<Rightarrow> string \<Rightarrow> bool" where
  "sensitive_key uni key =
     (let lower = go_lower uni key in
      contains_str lower ''token'' \<or> contains_str lower ''secret'' \<or> contains_str lower ''auth'' \<or> contains_str lower ''key'')"

definition URLHasSensitiveQuery :: "('c, 'v, 'u) resolver_library \<Rightarrow> 'u \<Rightarrow> bool" where
  "URLHasSensitiveQuery lib u \<longleftrightarrow> list_ex (\<lambda>(key, values). sensitive_key (rlLower lib) key) (rlQuery lib u)"

definition RedactURL :: "('c, 'v, 'u) resolver_library \<Rightarrow> string \<Rightarrow> string" where
  "RedactURL lib value =
     (case rlParseURL lib value of None \<Rightarrow> ''<redacted-url>''
      | Some u \<Rightarrow>
          rlURLText lib u
            (map (\<lambda>(key, values). if sensitive_key (rlLower lib) key then (key, [''REDACTED'']) else (key, values)) (rlQuery lib u)))"

definition trim_right_slashes :: "string \<Rightarrow> string" where
  "trim_right_slashes s = rev (dropWhile (\<lambda>c. c = CHR ''/'') (rev s))"

datatype policy_error =
    UnsupportedSource string
  | WithoutEndpoint string
  | InvalidEndpoint string string
  | EndpointCredentials string string
  | RepeatedEndpoint string string

fun validate_endpoints ::
  "('c, 'v, 'u) resolver_library \<Rightarrow> string \<Rightarrow> string list \<Rightarrow> source_endpoint list \<Rightarrow> policy_error option" where
  "validate_endpoints lib source seen [] = None"
| "validate_endpoints lib source seen (e # es) =
     (case rlParseURL lib (seURL e) of
        None \<Rightarrow> Some (InvalidEndpoint source (RedactURL lib (seURL e)))
      | Some u \<Rightarrow>
          if (rlScheme lib u \<noteq> ''https'' \<and> rlScheme lib u \<noteq> ''http'') \<or> rlHost lib u = '''' \<or> rlHasUser lib u
          then Some (InvalidEndpoint source (RedactURL lib (seURL e)))
          else if URLHasSensitiveQuery lib u then Some (EndpointCredentials source (RedactURL lib (seURL e)))
          else if trim_right_slashes (seURL e) \<in> set seen then Some (RepeatedEndpoint source (RedactURL lib (seURL e)))
          else validate_endpoints lib source (trim_right_slashes (seURL e) # seen) es)"

fun validate_sources ::
  "('c, 'v, 'u) resolver_library \<Rightarrow> (string \<times> source_endpoint list) list \<Rightarrow> policy_error option" where
  "validate_sources lib [] = None"
| "validate_sources lib ((source, endpoints) # rest) =
     (if source \<noteq> ''npm'' \<and> source \<noteq> ''jsr'' then Some (UnsupportedSource source)
      else if endpoints = [] then Some (WithoutEndpoint source)
      else (case validate_endpoints lib source [] endpoints of Some e \<Rightarrow> Some e | None \<Rightarrow> validate_sources lib rest))"

definition Validate_policy :: "('c, 'v, 'u) resolver_library \<Rightarrow> source_policy \<Rightarrow> policy_error option" where
  "Validate_policy lib policy = validate_sources lib (spEndpoints policy)"

section \<open>The occupancy controller\<close>

record occupancy_controller =
  ocMode :: string
  ocMaxJobs :: int
  ocMinJobs :: int
  ocPerHostJobs :: int

record frontier_input =
  fiFrontierIndex :: int
  fiFrontierWidth :: int
  fiWorkItems :: int
  fiMetadataItems :: int
  fiTarballItems :: int
  fiHosts :: "(string \<times> int) list"

record frontier_decision =
  fdMode :: string
  fdFrontierIndex :: int
  fdFrontierWidth :: int
  fdWorkItems :: int
  fdMetadataItems :: int
  fdTarballItems :: int
  fdMaxJobs :: int
  fdTargetJobs :: int
  fdClampReasons :: "string list"
  fdHosts :: "string list"

definition defaultResolveJobs :: int where
  "defaultResolveJobs = 24"

definition NewResolveOccupancyController :: "string \<Rightarrow> int \<Rightarrow> int \<Rightarrow> occupancy_controller" where
  "NewResolveOccupancyController mode maxJobs perHostJobs =
     (let m = (if mode = '''' then ''fixed'' else mode);
          j = (if maxJobs \<le> 0 then defaultResolveJobs else maxJobs);
          h = (if perHostJobs \<le> 0 then j else perHostJobs)
      in \<lparr>ocMode = m, ocMaxJobs = j, ocMinJobs = 1, ocPerHostJobs = h\<rparr>)"

text \<open>The product that Go computes in 64 bits.\<close>

definition wrap_int :: "int \<Rightarrow> int" where
  "wrap_int x = (x + 2 ^ 63) mod 2 ^ 64 - 2 ^ 63"

definition addClampReason :: "string list \<Rightarrow> string \<Rightarrow> string list" where
  "addClampReason reasons reason = (if list_ex (\<lambda>r. r = reason) reasons then reasons else reasons @ [reason])"

definition Decide :: "occupancy_controller \<Rightarrow> frontier_input \<Rightarrow> frontier_decision" where
  "Decide c input =
     (let decision = \<lparr>fdMode = ocMode c, fdFrontierIndex = fiFrontierIndex input, fdFrontierWidth = fiFrontierWidth input,
            fdWorkItems = fiWorkItems input, fdMetadataItems = fiMetadataItems input, fdTarballItems = fiTarballItems input,
            fdMaxJobs = ocMaxJobs c, fdTargetJobs = 0, fdClampReasons = [], fdHosts = sort_strings (map fst (fiHosts input))\<rparr>
      in
      if fiWorkItems input \<le> 0 then decision\<lparr>fdClampReasons := [''no_work'']\<rparr>
      else if ocMaxJobs c \<le> 1 then decision\<lparr>fdTargetJobs := 1, fdClampReasons := [''serial_forced'']\<rparr>
      else
        (let t1 = fiWorkItems input; r1 = addClampReason [] ''frontier_width'';
             (t2, r2) = (if ocMaxJobs c < t1 then (ocMaxJobs c, addClampReason r1 ''max_jobs'') else (t1, r1));
             hostBudget = wrap_int (int (length (fiHosts input)) * ocPerHostJobs c);
             (t3, r3) = (if ocMode c = ''feedforward'' \<and> 0 < ocPerHostJobs c \<and> fiHosts input \<noteq> [] \<and> hostBudget < t2
                         then (hostBudget, addClampReason r2 ''host_budget'') else (t2, r2));
             t4 = (if t3 < ocMinJobs c then ocMinJobs c else t3);
             t5 = (if fiWorkItems input < t4 then fiWorkItems input else t4);
             r5 = (if r3 = [] \<and> t5 = fiWorkItems input then addClampReason r3 ''frontier_width'' else r3)
         in decision\<lparr>fdTargetJobs := t5, fdClampReasons := r5\<rparr>))"

definition ParseResolveControllerMode :: "(string \<Rightarrow> string) \<Rightarrow> string \<Rightarrow> string option" where
  "ParseResolveControllerMode uni value =
     (let v = trim_space (go_lower uni value) in
      if v = '''' then Some ''fixed'' else if v = ''feedforward'' then Some ''feedforward''
      else if v = ''fixed'' then Some ''fixed'' else None)"

definition ResolveControllerHostMap :: "('c, 'v, 'u) resolver_library \<Rightarrow> string \<Rightarrow> (string \<times> int) list" where
  "ResolveControllerHostMap lib registryURL =
     (let u = trim_space registryURL in
      if u = '''' then []
      else (case rlParseURL lib u of None \<Rightarrow> [] | Some p \<Rightarrow> if rlHost lib p = '''' then [] else [(rlHost lib p, 1)]))"

text \<open>A controller that \<open>New\<close> made chooses between one worker and the smallest of its bounds.\<close>

definition host_target :: "occupancy_controller \<Rightarrow> frontier_input \<Rightarrow> int \<Rightarrow> int" where
  "host_target c input t =
     (if ocMode c = ''feedforward'' \<and> 0 < ocPerHostJobs c \<and> fiHosts input \<noteq> []
        \<and> wrap_int (int (length (fiHosts input)) * ocPerHostJobs c) < t
      then wrap_int (int (length (fiHosts input)) * ocPerHostJobs c) else t)"

lemma host_target_le: "host_target c input t \<le> t"
  by (simp add: host_target_def)

lemma Decide_target:
  "fdTargetJobs (Decide c input) =
     (if fiWorkItems input \<le> 0 then 0 else if ocMaxJobs c \<le> 1 then 1
      else min (fiWorkItems input) (max (ocMinJobs c) (host_target c input (min (fiWorkItems input) (ocMaxJobs c)))))"
proof (cases "fiWorkItems input \<le> 0 \<or> ocMaxJobs c \<le> 1")
  case True
  then show ?thesis by (auto simp: Decide_def Let_def)
next
  case False
  let ?t2 = "if ocMaxJobs c < fiWorkItems input then ocMaxJobs c else fiWorkItems input"
  have "fdTargetJobs (Decide c input) =
     (let t4 = (if host_target c input ?t2 < ocMinJobs c then ocMinJobs c else host_target c input ?t2)
      in if fiWorkItems input < t4 then fiWorkItems input else t4)"
    using False unfolding Decide_def Let_def host_target_def
    by (simp only: if_False if_True de_Morgan_disj frontier_decision.simps split: prod.split) (simp split: if_splits)
  moreover have "?t2 = min (fiWorkItems input) (ocMaxJobs c)" by simp
  ultimately show ?thesis using False by (simp add: Let_def min_def max_def)
qed

lemma Decide_bounds:
  fixes mode maxJobs perHost input
  defines "c \<equiv> NewResolveOccupancyController mode maxJobs perHost"
  shows "0 \<le> fdTargetJobs (Decide c input)" and "fdTargetJobs (Decide c input) \<le> max 0 (fiWorkItems input)"
    and "fdTargetJobs (Decide c input) \<le> ocMaxJobs c" and "0 < fiWorkItems input \<Longrightarrow> 1 \<le> fdTargetJobs (Decide c input)"
proof -
  have c: "1 \<le> ocMaxJobs c" "ocMinJobs c = 1"
    by (simp_all add: c_def NewResolveOccupancyController_def Let_def defaultResolveJobs_def)
  note le = host_target_le [of c input "min (fiWorkItems input) (ocMaxJobs c)"]
  show "0 \<le> fdTargetJobs (Decide c input)" "fdTargetJobs (Decide c input) \<le> max 0 (fiWorkItems input)"
    "fdTargetJobs (Decide c input) \<le> ocMaxJobs c" "0 < fiWorkItems input \<Longrightarrow> 1 \<le> fdTargetJobs (Decide c input)"
    using c le by (auto simp: Decide_target)
qed

end
