(* ===== verification/Resolver_Registry.thy ===== *)
theory Resolver_Registry
  imports Resolver_Sources
begin

text \<open>
  \<open>internal/resolver/registry_backend.go\<close>: one model of a package version for every registry, the two
  adapters that bring npm metadata and the npm view of JSR into it, and the back end that asks a chain
  of endpoints in turn.  What an endpoint answers over the network is an argument, \<open>registry_client\<close>.
  A Go map of the metadata is an association list with distinct keys in the order of its iteration.
\<close>

section \<open>Data\<close>

text \<open>An error of a fetch: the context was cancelled or ran out, or a text.\<close>

datatype fetch_error = Canceled | DeadlineExceeded | FetchError string

fun error_text :: "fetch_error \<Rightarrow> string" where
  "error_text Canceled = ''context canceled''"
| "error_text DeadlineExceeded = ''context deadline exceeded''"
| "error_text (FetchError t) = t"

definition errorsFromCancellation :: "fetch_error \<Rightarrow> bool" where
  "errorsFromCancellation e \<longleftrightarrow> e = Canceled \<or> e = DeadlineExceeded"

record dependency_requirement =
  dqIdentity :: package_identity
  dqReference :: string
  dqConstraint :: string
  dqKind :: string
  dqOptional :: bool

record artifact_descriptor =
  adKind :: string
  adURL :: string
  adIntegrity :: string
  adEndpoint :: string
  adHost :: string
  adPackageName :: string
  adVersion :: string

record registry_version =
  rvIdentity :: package_identity
  rvVersion :: string
  rvDependencies :: "dependency_requirement list"
  rvPeerRequirements :: "dependency_requirement list"
  rvArtifact :: artifact_descriptor
  rvArtifactPackageName :: string
  rvCapabilities :: "lock_capability list"

record registry_metadata =
  rmIdentity :: package_identity
  rmVersions :: "(string \<times> registry_version) list"
  rmEndpoint :: string

text \<open>What the registry serves, \<open>npm.go\<close>; scripts that are no strings are left out when it is decoded.\<close>

record npm_version =
  nvName :: string
  nvVersion :: string
  nvDependencies :: "(string \<times> string) list"
  nvOptionalDependencies :: "(string \<times> string) list"
  nvPeerDependencies :: "(string \<times> string) list"
  nvPeerMeta :: "(string \<times> bool) list"
  nvTarball :: string
  nvIntegrity :: string
  nvScripts :: "(string \<times> string) list"

record npm_metadata =
  nmName :: string
  nmVersions :: "(string \<times> npm_version) list"
  nmDistTags :: "(string \<times> string) list"

record registry_client =
  hcMetadata :: "string \<Rightarrow> fetch_error + npm_metadata"
  hcTarball :: "string \<Rightarrow> fetch_error + string"

text \<open>
  The interface \<open>RegistryBackend\<close>; a back end without provenance answers with an empty endpoint.
\<close>

record registry_backend =
  bkSource :: string
  bkHost :: string
  bkMetadata :: "string \<Rightarrow> fetch_error + registry_metadata"
  bkFetch :: "artifact_descriptor \<Rightarrow> fetch_error + string"
  bkProvenance :: "artifact_descriptor \<Rightarrow> string \<times> string"

definition identity_ID :: "package_identity \<Rightarrow> string \<Rightarrow> string" where
  "identity_ID i version = piSource i @ '':'' @ piName i @ ''@'' @ version"

section \<open>Requirements of an npm package\<close>

text \<open>A fallible function on every element, up to the first error.\<close>

fun traverse :: "('a \<Rightarrow> 'e + 'b) \<Rightarrow> 'a list \<Rightarrow> 'e + 'b list" where
  "traverse f [] = Inr []"
| "traverse f (x # xs) =
     (case f x of Inl e \<Rightarrow> Inl e
      | Inr y \<Rightarrow> (case traverse f xs of Inl e \<Rightarrow> Inl e | Inr ys \<Rightarrow> Inr (y # ys)))"

lemma traverse_Inr: "traverse f xs = Inr ys \<longleftrightarrow> list_all2 (\<lambda>x y. f x = Inr y) xs ys"
proof (induction xs arbitrary: ys)
  case (Cons x xs)
  have "traverse f (x # xs) = Inr ys \<longleftrightarrow> (\<exists>y zs. f x = Inr y \<and> traverse f xs = Inr zs \<and> ys = y # zs)"
    by (auto split: sum.splits)
  with Cons show ?case by (auto simp: list_all2_Cons1)
qed auto

definition sortedDeps :: "(string \<times> string) list \<Rightarrow> (string \<times> string) list" where
  "sortedDeps deps = sort_key fst deps"

text \<open>The text before and after the last occurrence of a byte.\<close>

definition cut_byte_last :: "char \<Rightarrow> string \<Rightarrow> (string \<times> string) option" where
  "cut_byte_last d s =
     (if d \<in> set s
      then Some (rev (drop 1 (dropWhile (\<lambda>c. c \<noteq> d) (rev s))), rev (takeWhile (\<lambda>c. c \<noteq> d) (rev s)))
      else None)"

definition parseNPMAlias :: "('c, 'v, 'u) resolver_library \<Rightarrow> string \<Rightarrow> string + package_identity \<times> string" where
  "parseNPMAlias lib value =
     (let spec = trim_prefix value ''npm:'';
          (name, constraint) =
            (case cut_byte_last (CHR ''@'') spec of
               Some (n, c) \<Rightarrow> if n \<noteq> '''' then (n, c) else (spec, ''*'')
             | None \<Rightarrow> (spec, ''*''))
      in if is_blank name \<or> is_blank constraint then Inl (''invalid npm alias '' @ rlQuote lib value)
         else if has_prefix name ''@'' \<and> CHR ''/'' \<notin> set name then Inl (''invalid scoped npm alias '' @ rlQuote lib value)
         else Inr (\<lparr>piSource = ''npm'', piName = name\<rparr>, constraint))"

definition npm_dependency ::
  "('c, 'v, 'u) resolver_library \<Rightarrow> bool \<Rightarrow> (string \<times> bool) list \<Rightarrow> string \<times> string \<Rightarrow> string + dependency_requirement" where
  "npm_dependency lib optional peerMeta d =
     (let make = (\<lambda>identity constraint.
            \<lparr>dqIdentity = identity, dqReference = fst d, dqConstraint = constraint, dqKind = ''runtime'',
             dqOptional = (optional \<or> map_of peerMeta (fst d) = Some True)\<rparr>)
      in if has_prefix (snd d) ''npm:'' then
           (case parseNPMAlias lib (snd d) of Inl e \<Rightarrow> Inl e | Inr (i, c) \<Rightarrow> Inr (make i c))
         else Inr (make \<lparr>piSource = ''npm'', piName = fst d\<rparr> (snd d)))"

definition normalizeNPMDependencies ::
  "('c, 'v, 'u) resolver_library \<Rightarrow> (string \<times> string) list \<Rightarrow> bool \<Rightarrow> (string \<times> bool) list \<Rightarrow> string + dependency_requirement list" where
  "normalizeNPMDependencies lib deps optional peerMeta = traverse (npm_dependency lib optional peerMeta) (sortedDeps deps)"

definition npmPackageRequirements ::
  "('c, 'v, 'u) resolver_library \<Rightarrow> npm_version \<Rightarrow> string + dependency_requirement list \<times> dependency_requirement list" where
  "npmPackageRequirements lib v =
     (case normalizeNPMDependencies lib (nvDependencies v) False [] of Inl e \<Rightarrow> Inl e
      | Inr dependencies \<Rightarrow>
          (case normalizeNPMDependencies lib (nvOptionalDependencies v) True [] of Inl e \<Rightarrow> Inl e
           | Inr optional \<Rightarrow>
               (case normalizeNPMDependencies lib (nvPeerDependencies v) False (nvPeerMeta v) of Inl e \<Rightarrow> Inl e
                | Inr peers \<Rightarrow> Inr (dependencies @ optional, map (\<lambda>p. p\<lparr>dqKind := ''peer''\<rparr>) peers))))"

section \<open>The npm back end\<close>

definition tarball_of :: "string \<Rightarrow> string \<Rightarrow> npm_version \<Rightarrow> artifact_descriptor" where
  "tarball_of name key v =
     \<lparr>adKind = ''tarball'', adURL = nvTarball v, adIntegrity = nvIntegrity v, adEndpoint = '''', adHost = '''',
      adPackageName = name, adVersion = key\<rparr>"

definition npm_registry_version ::
  "('c, 'v, 'u) resolver_library \<Rightarrow> string \<Rightarrow> string \<times> npm_version \<Rightarrow> fetch_error + string \<times> registry_version" where
  "npm_registry_version lib name kv =
     (case npmPackageRequirements lib (snd kv) of
        Inl e \<Rightarrow> Inl (FetchError (''normalize requirements for npm:'' @ name @ ''@'' @ fst kv @ '': '' @ e))
      | Inr (dependencies, peers) \<Rightarrow>
          Inr (fst kv, \<lparr>rvIdentity = \<lparr>piSource = ''npm'', piName = name\<rparr>, rvVersion = nvVersion (snd kv),
            rvDependencies = dependencies, rvPeerRequirements = peers, rvArtifact = tarball_of name (fst kv) (snd kv),
            rvArtifactPackageName = nvName (snd kv), rvCapabilities = FromPackageJSONScripts (nvScripts (snd kv))\<rparr>))"

definition npm_Metadata ::
  "('c, 'v, 'u) resolver_library \<Rightarrow> registry_client \<Rightarrow> string \<Rightarrow> fetch_error + registry_metadata" where
  "npm_Metadata lib client name =
     (case hcMetadata client name of Inl e \<Rightarrow> Inl e
      | Inr raw \<Rightarrow>
          (case traverse (npm_registry_version lib name) (nmVersions raw) of Inl e \<Rightarrow> Inl e
           | Inr versions \<Rightarrow>
               Inr \<lparr>rmIdentity = \<lparr>piSource = ''npm'', piName = name\<rparr>, rmVersions = versions, rmEndpoint = ''''\<rparr>))"

definition NewNPMBackend :: "('c, 'v, 'u) resolver_library \<Rightarrow> registry_client \<Rightarrow> string \<Rightarrow> registry_backend" where
  "NewNPMBackend lib client host =
     \<lparr>bkSource = ''npm'', bkHost = host, bkMetadata = npm_Metadata lib client,
      bkFetch = (\<lambda>a. hcTarball client (adURL a)), bkProvenance = (\<lambda>a. ('''', ''''))\<rparr>"

section \<open>The JSR back end\<close>

fun identity_error_text :: "(string \<Rightarrow> string) \<Rightarrow> identity_error \<Rightarrow> string" where
  "identity_error_text q NpmNameEmpty = ''npm package name is empty''"
| "identity_error_text q (NoNodeMapping s) = ''package source '' @ q s @ '' has no Node registry compatibility mapping''"
| "identity_error_text q (JSRNotRepresentable n) =
     ''JSR package name '' @ q n @ '' cannot be represented unambiguously by the npm compatibility registry''"
| "identity_error_text q (JSRCompatUnsupported n) = ''unsupported JSR compatibility dependency name '' @ q n"
| "identity_error_text q (JSRCompatAmbiguous n) = ''unsupported or ambiguous JSR compatibility dependency name '' @ q n"
| "identity_error_text q (JSRCompatInvalid n e) =
     ''unsupported JSR compatibility dependency name '' @ q n @ '': '' @ identity_error_text q e"
| "identity_error_text q (JSRForm n) = ''JSR package name '' @ q n @ '' must use @scope/package form''"
| "identity_error_text q (JSRCharacters n) = ''JSR package name '' @ q n @ '' contains unsupported characters''"

definition jsr_dependency ::
  "('c, 'v, 'u) resolver_library \<Rightarrow> string \<times> string \<Rightarrow> string + dependency_requirement" where
  "jsr_dependency lib d =
     (let make = (\<lambda>identity constraint.
            \<lparr>dqIdentity = identity, dqReference = fst d, dqConstraint = constraint, dqKind = ''runtime'', dqOptional = False\<rparr>)
      in if has_prefix (fst d) ''@jsr/'' then
           (case LogicalJSRName (fst d) of Inl e \<Rightarrow> Inl (identity_error_text (rlQuote lib) e)
            | Inr logical \<Rightarrow> Inr (make \<lparr>piSource = ''jsr'', piName = logical\<rparr> (snd d)))
         else if has_prefix (snd d) ''npm:'' then
           (case parseNPMAlias lib (snd d) of Inl e \<Rightarrow> Inl e | Inr (i, c) \<Rightarrow> Inr (make i c))
         else Inr (make \<lparr>piSource = ''npm'', piName = fst d\<rparr> (snd d)))"

definition normalizeJSRDependencies ::
  "('c, 'v, 'u) resolver_library \<Rightarrow> (string \<times> string) list \<Rightarrow> string + dependency_requirement list" where
  "normalizeJSRDependencies lib deps = traverse (jsr_dependency lib) (sortedDeps deps)"

definition jsr_peer :: "npm_version \<Rightarrow> dependency_requirement \<Rightarrow> dependency_requirement" where
  "jsr_peer v p =
     (let q = p\<lparr>dqKind := ''peer''\<rparr> in
      case map_of (nvPeerMeta v) (dqReference q) of None \<Rightarrow> q | Some optional \<Rightarrow> q\<lparr>dqOptional := optional\<rparr>)"

definition jsr_error :: "string \<Rightarrow> string \<Rightarrow> string \<Rightarrow> string \<Rightarrow> fetch_error" where
  "jsr_error what name key e = FetchError (''normalize '' @ what @ '' for jsr:'' @ name @ ''@'' @ key @ '': '' @ e)"

definition jsr_registry_version ::
  "('c, 'v, 'u) resolver_library \<Rightarrow> string \<Rightarrow> string \<times> npm_version \<Rightarrow> fetch_error + string \<times> registry_version" where
  "jsr_registry_version lib name kv =
     (let v = snd kv in
      case normalizeJSRDependencies lib (nvDependencies v) of Inl e \<Rightarrow> Inl (jsr_error ''dependencies'' name (fst kv) e)
      | Inr dependencies \<Rightarrow>
          (case normalizeJSRDependencies lib (nvOptionalDependencies v) of
             Inl e \<Rightarrow> Inl (jsr_error ''optional dependencies'' name (fst kv) e)
           | Inr optional \<Rightarrow>
               (case normalizeJSRDependencies lib (nvPeerDependencies v) of
                  Inl e \<Rightarrow> Inl (jsr_error ''peer dependencies'' name (fst kv) e)
                | Inr peers \<Rightarrow>
                    Inr (fst kv, \<lparr>rvIdentity = \<lparr>piSource = ''jsr'', piName = name\<rparr>, rvVersion = nvVersion v,
                      rvDependencies = dependencies @ map (\<lambda>d. d\<lparr>dqOptional := True\<rparr>) optional,
                      rvPeerRequirements = map (jsr_peer v) peers, rvArtifact = tarball_of name (fst kv) v,
                      rvArtifactPackageName = nvName v, rvCapabilities = []\<rparr>))))"

definition jsr_Metadata ::
  "('c, 'v, 'u) resolver_library \<Rightarrow> registry_client \<Rightarrow> string \<Rightarrow> fetch_error + registry_metadata" where
  "jsr_Metadata lib client name =
     (case JSRCompatibilityName name of Inl e \<Rightarrow> Inl (FetchError (identity_error_text (rlQuote lib) e))
      | Inr compat_name \<Rightarrow>
          (case hcMetadata client compat_name of Inl e \<Rightarrow> Inl e
           | Inr raw \<Rightarrow>
               (case traverse (jsr_registry_version lib name) (nmVersions raw) of Inl e \<Rightarrow> Inl e
                | Inr versions \<Rightarrow>
                    Inr \<lparr>rmIdentity = \<lparr>piSource = ''jsr'', piName = name\<rparr>, rmVersions = versions, rmEndpoint = ''''\<rparr>)))"

definition NewJSRBackend :: "('c, 'v, 'u) resolver_library \<Rightarrow> registry_client \<Rightarrow> string \<Rightarrow> registry_backend" where
  "NewJSRBackend lib client host =
     \<lparr>bkSource = ''jsr'', bkHost = host, bkMetadata = jsr_Metadata lib client,
      bkFetch = (\<lambda>a. hcTarball client (adURL a)), bkProvenance = (\<lambda>a. ('''', ''''))\<rparr>"

section \<open>A chain of endpoints\<close>

type_synonym endpoint_client = "source_endpoint \<times> registry_client"

definition fallbackWorthy :: "('c, 'v, 'u) resolver_library \<Rightarrow> fetch_error \<Rightarrow> bool \<Rightarrow> bool" where
  "fallbackWorthy lib err allowNotFound =
     (let t = go_lower (rlLower lib) (error_text err) in
      if contains_str t ''status=401'' \<or> contains_str t ''status=403'' \<or> contains_str t ''decode failed'' then False
      else if contains_str t ''not found'' \<or> contains_str t ''status=404'' then allowNotFound
      else contains_str t ''status=5'' \<or> contains_str t ''timeout'' \<or> contains_str t ''connection'' \<or> contains_str t ''eof'')"

definition redactError :: "('c, 'v, 'u) resolver_library \<Rightarrow> fetch_error \<Rightarrow> string" where
  "redactError lib err =
     join_strings
       (map (\<lambda>w. if contains_str w ''://'' then RedactURL lib (trim_chars w ''(),;'') else w) (string_fields (error_text err)))
       '' ''"

definition adapted_Metadata ::
  "('c, 'v, 'u) resolver_library \<Rightarrow> string \<Rightarrow> registry_client \<Rightarrow> string \<Rightarrow> fetch_error + registry_metadata" where
  "adapted_Metadata lib source client =
     (if source = ''jsr'' then jsr_Metadata lib client else npm_Metadata lib client)"

definition attempt :: "('c, 'v, 'u) resolver_library \<Rightarrow> nat \<Rightarrow> source_endpoint \<Rightarrow> string \<Rightarrow> string" where
  "attempt lib n endpoint what = nat_string n @ ''. '' @ RedactURL lib (seURL endpoint) @ '': '' @ what"

definition exhausted :: "string list \<Rightarrow> fetch_error" where
  "exhausted attempts = FetchError (''TSPACK_REGISTRY_FALLBACK_EXHAUSTED: '' @ join_strings attempts ''; '')"

definition artifact_host :: "('c, 'v, 'u) resolver_library \<Rightarrow> string \<Rightarrow> string" where
  "artifact_host lib u = (case rlParseURL lib u of None \<Rightarrow> '''' | Some p \<Rightarrow> rlHostname lib p)"

definition place_artifact ::
  "('c, 'v, 'u) resolver_library \<Rightarrow> bool \<Rightarrow> string \<Rightarrow> string \<times> registry_version \<Rightarrow> string \<times> registry_version" where
  "place_artifact lib record_provenance endpoint kv =
     (let v = snd kv; a = (rvArtifact v)\<lparr>adEndpoint := endpoint\<rparr>;
          a' = (if record_provenance
                then (case rlParseURL lib (adURL a) of None \<Rightarrow> a | Some p \<Rightarrow> a\<lparr>adHost := rlHostname lib p\<rparr>) else a)
      in (fst kv, v\<lparr>rvArtifact := a'\<rparr>))"

fun fallback_Metadata ::
  "('c, 'v, 'u) resolver_library \<Rightarrow> string \<Rightarrow> bool \<Rightarrow> string \<Rightarrow> string list \<Rightarrow> endpoint_client list
     \<Rightarrow> fetch_error + registry_metadata" where
  "fallback_Metadata lib source record_provenance name attempts [] = Inl (exhausted attempts)"
| "fallback_Metadata lib source record_provenance name attempts ((endpoint, client) # rest) =
     (case adapted_Metadata lib source client name of
        Inr m \<Rightarrow>
          (let selected = trim_right_slashes (seURL endpoint) in
           Inr (m\<lparr>rmEndpoint := (if record_provenance then selected else rmEndpoint m),
                  rmVersions := map (place_artifact lib record_provenance selected) (rmVersions m)\<rparr>))
      | Inl err \<Rightarrow>
          (let attempts' = attempts @ [attempt lib (length attempts + 1) endpoint (redactError lib err)] in
           if \<not> fallbackWorthy lib err (seFallbackOnNotFound endpoint)
           then Inl (FetchError (''registry endpoint failed closed ('' @ join_strings attempts' ''; '' @ ''): '' @ error_text err))
           else fallback_Metadata lib source record_provenance name attempts' rest))"

text \<open>
  The artifact from a later endpoint, with where it came from: only bytes whose metadata advertises the
  same integrity will do.
\<close>

fun fallback_artifact ::
  "('c, 'v, 'u) resolver_library \<Rightarrow> string \<Rightarrow> artifact_descriptor \<Rightarrow> string list \<Rightarrow> endpoint_client list
     \<Rightarrow> fetch_error + string \<times> string \<times> string" where
  "fallback_artifact lib source a attempts [] = Inl (exhausted attempts)"
| "fallback_artifact lib source a attempts ((endpoint, client) # rest) =
     (case adapted_Metadata lib source client (adPackageName a) of
        Inl err \<Rightarrow>
          (let attempts' = attempts @ [attempt lib (length attempts + 1) endpoint (redactError lib err)] in
           if fallbackWorthy lib err (seFallbackOnNotFound endpoint) then fallback_artifact lib source a attempts' rest
           else Inl (FetchError (''registry artifact fallback failed closed ('' @ join_strings attempts' ''; '' @ ''): ''
             @ error_text err)))
      | Inr m \<Rightarrow>
          (case map_of (rmVersions m) (adVersion a) of
             None \<Rightarrow>
               if seFallbackOnNotFound endpoint
               then fallback_artifact lib source a
                 (attempts @ [attempt lib (length attempts + 1) endpoint (''version '' @ adVersion a @ '' absent'')]) rest
               else Inl (FetchError (''registry artifact fallback failed closed: version '' @ adVersion a @ '' absent at ''
                 @ RedactURL lib (seURL endpoint)))
           | Some v \<Rightarrow>
               if adIntegrity a \<noteq> '''' \<and> adIntegrity (rvArtifact v) \<noteq> adIntegrity a
               then Inl (FetchError (''TSPACK_REGISTRY_TRUST_FAILED: fallback endpoint advertised different integrity for ''
                 @ source @ '':'' @ adPackageName a @ ''@'' @ adVersion a))
               else
                 (case hcTarball client (adURL (rvArtifact v)) of
                    Inr body \<Rightarrow> Inr (body, trim_right_slashes (seURL endpoint), artifact_host lib (adURL (rvArtifact v)))
                  | Inl err \<Rightarrow>
                      (let attempts' = attempts @ [attempt lib (length attempts + 1) endpoint (redactError lib err)] in
                       if \<not> fallbackWorthy lib err False
                       then Inl (FetchError (''registry artifact fallback failed closed ('' @ join_strings attempts' ''; '' @ ''): ''
                         @ error_text err))
                       else fallback_artifact lib source a attempts' rest))))"

definition fallback_Fetch ::
  "('c, 'v, 'u) resolver_library \<Rightarrow> string \<Rightarrow> endpoint_client list \<Rightarrow> artifact_descriptor
     \<Rightarrow> fetch_error + string \<times> string \<times> string" where
  "fallback_Fetch lib source clients a =
     (case dropWhile (\<lambda>(endpoint, client). trim_right_slashes (seURL endpoint) \<noteq> adEndpoint a) clients of
        [] \<Rightarrow> Inl (FetchError ''TSPACK_REGISTRY_ENDPOINT_DENIED: artifact endpoint is not in the declared chain'')
      | (endpoint, client) # rest \<Rightarrow>
          (case hcTarball client (adURL a) of
             Inr body \<Rightarrow> Inr (body, trim_right_slashes (seURL endpoint), artifact_host lib (adURL a))
           | Inl err \<Rightarrow>
               if \<not> fallbackWorthy lib err False then Inl err
               else fallback_artifact lib source a
                 [''1. '' @ RedactURL lib (adEndpoint a) @ '': artifact unavailable''] rest))"

text \<open>
  The provenance of an artifact is what its fetch recorded; the resolver asks for it after the fetch.
\<close>

definition client_base :: "string \<Rightarrow> string" where
  "client_base u = trim_right_slashes (if u = '''' then ''https://registry.npmjs.org'' else u)"

definition NewFallbackRegistryBackend ::
  "('c, 'v, 'u) resolver_library \<Rightarrow> string \<Rightarrow> endpoint_client list \<Rightarrow> bool \<Rightarrow> registry_backend" where
  "NewFallbackRegistryBackend lib source clients record_provenance =
     \<lparr>bkSource = source,
      bkHost = (case clients of [] \<Rightarrow> ''''
                | (endpoint, client) # _ \<Rightarrow> (case rlParseURL lib (client_base (seURL endpoint)) of
                     None \<Rightarrow> '''' | Some u \<Rightarrow> rlHost lib u)),
      bkMetadata = (\<lambda>name. fallback_Metadata lib source record_provenance name [] clients),
      bkFetch = (\<lambda>a. case fallback_Fetch lib source clients a of Inl e \<Rightarrow> Inl e | Inr (body, _, _) \<Rightarrow> Inr body),
      bkProvenance = (\<lambda>a. case fallback_Fetch lib source clients a of Inl e \<Rightarrow> ('''', '''') | Inr (_, e, h) \<Rightarrow> (e, h))\<rparr>"

definition Backends ::
  "('c, 'v, 'u) resolver_library \<Rightarrow> (source_endpoint \<Rightarrow> registry_client) \<Rightarrow> source_policy
     \<Rightarrow> policy_error + (string \<times> registry_backend) list" where
  "Backends lib client_of policy =
     (case Validate_policy lib policy of Some e \<Rightarrow> Inl e
      | None \<Rightarrow>
          Inr (map (\<lambda>source. (source, NewFallbackRegistryBackend lib source
                 (map (\<lambda>e. (e, client_of e)) (EndpointChain policy source)) (spRecordProvenance policy)))
               (filter (Allows policy) [''npm'', ''jsr''])))"

end
