(* ===== verification/Resolver_Prepare.thy ===== *)
theory Resolver_Prepare
  imports Resolver_Registry
begin

text \<open>
  How the resolver prepares one group of requests for the same package and range, \<open>npm.go\<close>: the metadata,
  the choice of a version, the artifact with its integrity, and the package the lock file will hold.  The
  memo tables of the code only save repeated calls of a back end, which is a function here; the context is
  never done, though a back end may report that it was cancelled.
\<close>

section \<open>Requests\<close>

record work_item =
  wiSource :: string
  wiName :: string
  wiRange :: string
  wiFrom :: string
  wiKind :: string
  wiOptional :: bool
  wiReference :: string
  wiSlot :: string

record work_group =
  wgKey :: string
  wgSource :: string
  wgRangeName :: string
  wgRange :: string
  wgHasRequired :: bool

definition resolveWorkItemKey :: "work_item \<Rightarrow> string" where
  "resolveWorkItemKey r =
     wiSource r @ ''|'' @ wiName r @ ''|'' @ wiRange r @ ''|'' @ wiFrom r @ ''|'' @ wiKind r @ ''|'' @ bool_str (wiOptional r)"

definition packageWorkGroupKey :: "string \<Rightarrow> string \<Rightarrow> string \<Rightarrow> string" where
  "packageWorkGroupKey source name rng = source @ ''|'' @ name @ ''|'' @ rng"

definition item_group_key :: "work_item \<Rightarrow> string" where
  "item_group_key r = packageWorkGroupKey (wiSource r) (wiName r) (wiRange r)"

definition normalizeWorkItems :: "work_item list \<Rightarrow> work_item list" where
  "normalizeWorkItems frontier = sort_key resolveWorkItemKey frontier"

text \<open>One group for each key, in the order of the first request.\<close>

definition add_to_group :: "work_group list \<Rightarrow> work_item \<Rightarrow> work_group list" where
  "add_to_group groups r =
     (let groups' =
        (if list_ex (\<lambda>g. wgKey g = item_group_key r) groups then groups
         else groups @ [\<lparr>wgKey = item_group_key r, wgSource = wiSource r, wgRangeName = wiName r, wgRange = wiRange r,
           wgHasRequired = False\<rparr>])
      in if wiOptional r then groups'
         else map (\<lambda>g. if wgKey g = item_group_key r then g\<lparr>wgHasRequired := True\<rparr> else g) groups')"

definition groupWorkItems :: "work_item list \<Rightarrow> work_group list" where
  "groupWorkItems frontier = foldl add_to_group [] frontier"

section \<open>Prepared packages\<close>

record prepared_failure =
  pfCode :: string
  pfMessage :: string
  pfDetails :: "string list"

record prepared_registry_package =
  ppPackageID :: string
  ppPackage :: lock_package
  ppTransitive :: "work_item list"
  ppPeers :: "dependency_requirement list"
  ppFailure :: "prepared_failure option"
  ppCancelled :: bool

definition no_package :: lock_package where
  "no_package =
     \<lparr>lpID = '''', lpName = '''', lpVersion = '''', lpSource = '''', lpIntegrity = '''', lpRepo = '''', lpRev = '''',
      lpTreeHash = '''', lpPath = '''', lpWorkspace = '''', lpHash = '''', lpSourceID = '''', lpSourceHash = '''',
      lpRealizationID = '''', lpRegistryEndpoint = '''', lpMetadataEndpoint = '''', lpArtifactHost = '''',
      lpCapabilities = [], lpPatch = None\<rparr>"

definition nothing_prepared :: prepared_registry_package where
  "nothing_prepared =
     \<lparr>ppPackageID = '''', ppPackage = no_package, ppTransitive = [], ppPeers = [], ppFailure = None, ppCancelled = False\<rparr>"

definition prepare_failed :: "string \<Rightarrow> string \<Rightarrow> string list \<Rightarrow> prepared_registry_package" where
  "prepare_failed code message details =
     nothing_prepared\<lparr>ppFailure := Some \<lparr>pfCode = code, pfMessage = message, pfDetails = details\<rparr>\<rparr>"

definition prepare_cancelled :: prepared_registry_package where
  "prepare_cancelled = nothing_prepared\<lparr>ppCancelled := True\<rparr>"

record resolver_options =
  roPolicy :: source_policy
  roBackends :: "(string \<times> registry_backend) list"
  roNPMClient :: "registry_client \<times> string"
  roJSRClient :: "registry_client \<times> string"
  roMode :: string
  roRootDir :: string
  roResolveJobs :: int
  roControllerMode :: string
  roHostBudget :: int
  roCapture :: "lock_package \<Rightarrow> string \<Rightarrow> string option"

text \<open>The back ends for npm and JSR are there in any case; a client comes with its host.\<close>

definition complete_backends :: "('c, 'v, 'u) resolver_library \<Rightarrow> resolver_options \<Rightarrow> resolver_options" where
  "complete_backends lib opts =
     (let bs = roBackends opts;
          bs1 = (if map_of bs ''npm'' = None then bs @ [(''npm'', NewNPMBackend lib (fst (roNPMClient opts)) (snd (roNPMClient opts)))] else bs);
          bs2 = (if map_of bs1 ''jsr'' = None then bs1 @ [(''jsr'', NewJSRBackend lib (fst (roJSRClient opts)) (snd (roJSRClient opts)))] else bs1)
      in opts\<lparr>roBackends := bs2\<rparr>)"

definition backend_of :: "resolver_options \<Rightarrow> string \<Rightarrow> registry_backend option" where
  "backend_of opts source = map_of (roBackends opts) source"

section \<open>Choosing a version\<close>

text \<open>\<open>sort.SliceStable\<close> with a strict order given as a comparison.\<close>

fun insert_by :: "('a \<Rightarrow> 'a \<Rightarrow> bool) \<Rightarrow> 'a \<Rightarrow> 'a list \<Rightarrow> 'a list" where
  "insert_by lt x [] = [x]"
| "insert_by lt x (y # ys) = (if lt y x then y # insert_by lt x ys else x # y # ys)"

definition stable_sort_by :: "('a \<Rightarrow> 'a \<Rightarrow> bool) \<Rightarrow> 'a list \<Rightarrow> 'a list" where
  "stable_sort_by lt xs = foldr (insert_by lt) xs []"

datatype selection_failure = InvalidRange | NoVersion

text \<open>The versions are read in the order in which Go walks the map of the metadata.\<close>

definition parsed_versions ::
  "('c, 'v, 'u) resolver_library \<Rightarrow> registry_metadata \<Rightarrow> ('v \<times> string \<times> registry_version) list" where
  "parsed_versions lib m =
     concat (map (\<lambda>(key, pv). case rlVersion lib key of None \<Rightarrow> [] | Some v \<Rightarrow> [(v, key, pv)]) (rmVersions m))"

definition selectRegistryVersion ::
  "('c, 'v, 'u) resolver_library \<Rightarrow> registry_metadata \<Rightarrow> string \<Rightarrow> selection_failure + registry_version \<times> string" where
  "selectRegistryVersion lib m rng =
     (case ParseConstraint (rlConstraint lib) (piSource (rmIdentity m)) rng of
        None \<Rightarrow> Inl InvalidRange
      | Some c \<Rightarrow>
          (case find (\<lambda>(v, key, pv). rlCheck lib c v)
              (stable_sort_by (\<lambda>a b. rlGreater lib (fst a) (fst b)) (parsed_versions lib m)) of
             None \<Rightarrow> Inl NoVersion
           | Some (v, key, pv) \<Rightarrow> Inr (pv, key)))"

section \<open>Artifacts\<close>

definition hex_char :: "nat \<Rightarrow> char" where
  "hex_char d = ''0123456789abcdef'' ! (d mod 16)"

definition hex_encode :: "string \<Rightarrow> string" where
  "hex_encode s = concat (map (\<lambda>c. [hex_char (of_char c div 16), hex_char (of_char c)]) s)"

text \<open>None is an unsupported form or algorithm.\<close>

definition verifyIntegrity :: "('c, 'v, 'u) resolver_library \<Rightarrow> string \<Rightarrow> string \<Rightarrow> bool option" where
  "verifyIntegrity lib body integrity =
     (case cut_str integrity ''-'' of None \<Rightarrow> None
      | Some (algorithm, digest) \<Rightarrow>
          (case rlBase64 lib digest of None \<Rightarrow> None
           | Some want \<Rightarrow>
               if algorithm = ''sha512'' then Some (rlSHA512 lib body = want)
               else if algorithm = ''sha256'' then Some (rlSHA256 lib body = want)
               else None))"

definition cleanTarballPackageJSONPath :: "string \<Rightarrow> string option" where
  "cleanTarballPackageJSONPath name =
     (if name = '''' \<or> has_prefix name ''/'' then None
      else if ''..'' \<in> set (split_on (CHR ''/'') name) then None
      else
        (let clean = path_clean name in
         if clean = ''.'' \<or> clean = '''' then None
         else if clean = ''..'' \<or> has_prefix clean ''../'' \<or> contains_str clean ''/../'' then None
         else if clean = ''package.json'' then Some clean
         else if \<not> has_suffix clean ''/package.json'' then None
         else
           (case split_on (CHR ''/'') clean of
              [directory, file] \<Rightarrow> if file \<noteq> ''package.json'' \<or> directory = '''' then None else Some clean
            | _ \<Rightarrow> None)))"

text \<open>
  The entries of the archive: a \<open>package.json\<close> at the root, or in one directory at the top, which wins;
  two of the latter are an error.  An entry whose content cannot be read is None.
\<close>

fun scan_tarball :: "string option \<Rightarrow> string option \<Rightarrow> (string \<times> string option) list \<Rightarrow> string option" where
  "scan_tarball root_file top_file [] = (case top_file of Some t \<Rightarrow> Some t | None \<Rightarrow> root_file)"
| "scan_tarball root_file top_file ((name, content) # rest) =
     (case cleanTarballPackageJSONPath name of
        None \<Rightarrow> scan_tarball root_file top_file rest
      | Some clean \<Rightarrow>
          (case content of None \<Rightarrow> None
           | Some text \<Rightarrow>
               if clean = ''package.json'' then scan_tarball (Some text) top_file rest
               else if top_file \<noteq> None then None
               else scan_tarball root_file (Some text) rest))"

definition parseTarballPackageJSON :: "('c, 'v, 'u) resolver_library \<Rightarrow> string \<Rightarrow> (string \<times> string) option" where
  "parseTarballPackageJSON lib body =
     (case rlUntar lib body of None \<Rightarrow> None
      | Some entries \<Rightarrow>
          (case scan_tarball None None entries of None \<Rightarrow> None | Some text \<Rightarrow> rlPackageName lib text))"

section \<open>Diagnostics\<close>

definition upper_text :: "(string \<Rightarrow> string) \<Rightarrow> string \<Rightarrow> string" where
  "upper_text uni s =
     concat (map (\<lambda>r. case r of
         [c] \<Rightarrow> if of_char c < (128::nat) then [if byte_in 97 122 c then char_of (of_char c - 32 :: nat) else c]
                else utf8 [239, 191, 189]
       | _ \<Rightarrow> uni r) (runes s))"

definition npm_conditions :: "(string \<times> string) list" where
  "npm_conditions =
     [(''METADATA_ERROR'', ''TSPACK_RESOLVE_NPM_METADATA_ERROR''),
      (''PACKAGE_NOT_FOUND'', ''TSPACK_RESOLVE_NPM_PACKAGE_NOT_FOUND''),
      (''VERSION_NOT_FOUND'', ''TSPACK_RESOLVE_NPM_VERSION_NOT_FOUND''),
      (''INVALID_RANGE'', ''TSPACK_RESOLVE_NPM_INVALID_RANGE''),
      (''ARTIFACT_ERROR'', ''TSPACK_RESOLVE_NPM_TARBALL_ERROR''),
      (''UNSUPPORTED_INTEGRITY'', ''TSPACK_RESOLVE_NPM_UNSUPPORTED_INTEGRITY''),
      (''ARTIFACT_INTEGRITY_FAILED'', ''TSPACK_RESOLVE_NPM_INTEGRITY_MISMATCH''),
      (''ARTIFACT_PACKAGE_JSON_MISSING'', ''TSPACK_RESOLVE_NPM_TARBALL_PACKAGE_JSON_MISSING''),
      (''ARTIFACT_METADATA_MISMATCH'', ''TSPACK_RESOLVE_NPM_TARBALL_METADATA_MISMATCH'')]"

definition sourceDiagnosticCode :: "('c, 'v, 'u) resolver_library \<Rightarrow> string \<Rightarrow> string \<Rightarrow> string" where
  "sourceDiagnosticCode lib source condition =
     (case (if source = ''npm'' then map_of npm_conditions condition else None) of
        Some code \<Rightarrow> code
      | None \<Rightarrow> ''TSPACK_'' @ upper_text (rlUpper lib) source @ ''_'' @ condition)"

definition policy_origin :: "source_policy \<Rightarrow> string" where
  "policy_origin policy = (if spOrigin policy = '''' then ''manifest RegistryPolicy'' else spOrigin policy)"

definition policy_details :: "source_policy \<Rightarrow> string \<Rightarrow> string \<Rightarrow> string list" where
  "policy_details policy source name =
     [''source: '' @ source, ''package: '' @ source @ '':'' @ name, ''policy origin: '' @ policy_origin policy,
      ''Allow the source in <RegistryPolicy allowedSources={...}> or remove the dependency.'']"

definition metadata_failure_code ::
  "('c, 'v, 'u) resolver_library \<Rightarrow> string \<Rightarrow> fetch_error \<Rightarrow> string" where
  "metadata_failure_code lib source err =
     (let t = error_text err; l = go_lower (rlLower lib) t in
      if contains_str t ''TSPACK_REGISTRY_FALLBACK_EXHAUSTED'' then ''TSPACK_REGISTRY_FALLBACK_EXHAUSTED''
      else if contains_str t ''TSPACK_REGISTRY_AUTH_FAILED'' \<or> contains_str l ''status=401'' \<or> contains_str l ''status=403''
      then ''TSPACK_REGISTRY_AUTH_FAILED''
      else if contains_str l ''not found'' then sourceDiagnosticCode lib source ''PACKAGE_NOT_FOUND''
      else sourceDiagnosticCode lib source ''METADATA_ERROR'')"

section \<open>Preparing a package\<close>

definition transitive_item :: "string \<Rightarrow> dependency_requirement \<Rightarrow> work_item" where
  "transitive_item pid d =
     \<lparr>wiSource = piSource (dqIdentity d), wiName = piName (dqIdentity d), wiRange = dqConstraint d, wiFrom = pid,
      wiKind = dqKind d, wiOptional = dqOptional d, wiReference = dqReference d, wiSlot = ''''\<rparr>"

definition locked_package ::
  "resolver_options \<Rightarrow> registry_backend \<Rightarrow> string \<Rightarrow> registry_version \<Rightarrow> string \<Rightarrow> lock_package" where
  "locked_package opts b pid pv resolvedHash =
     (let a = rvArtifact pv;
          (endpoint, host) = (if fst (bkProvenance b a) \<noteq> '''' then bkProvenance b a else (adEndpoint a, adHost a));
          recorded = spRecordProvenance (roPolicy opts)
      in no_package\<lparr>lpID := pid, lpName := piName (rvIdentity pv), lpVersion := rvVersion pv,
           lpSource := piSource (rvIdentity pv), lpIntegrity := adIntegrity a, lpHash := resolvedHash,
           lpCapabilities := rvCapabilities pv,
           lpRegistryEndpoint := (if recorded then endpoint else ''''),
           lpMetadataEndpoint := (if recorded then adEndpoint a else ''''),
           lpArtifactHost := (if recorded then host else '''')\<rparr>)"

definition prepareSelectedPackage ::
  "('c, 'v, 'u) resolver_library \<Rightarrow> resolver_options \<Rightarrow> (string \<rightharpoonup> lock_package) \<Rightarrow> string \<Rightarrow> registry_backend \<Rightarrow> registry_version
     \<Rightarrow> prepared_registry_package" where
  "prepareSelectedPackage lib opts existing pid b pv =
     (let source = piSource (rvIdentity pv); a = rvArtifact pv; code = sourceDiagnosticCode lib source in
      case bkFetch b a of
        Inl err \<Rightarrow>
          if errorsFromCancellation err then prepare_cancelled
          else prepare_failed (code ''ARTIFACT_ERROR'') ''failed to fetch registry package artifact'' [pid, error_text err]
      | Inr body \<Rightarrow>
          if spRequireIntegrity (roPolicy opts) \<and> is_blank (adIntegrity a) then
            prepare_failed ''TSPACK_REGISTRY_TRUST_FAILED'' ''source policy requires registry artifact integrity''
              [pid, ''endpoint: '' @ RedactURL lib (adEndpoint a)]
          else if adIntegrity a \<noteq> '''' \<and> verifyIntegrity lib body (adIntegrity a) = None then
            prepare_failed (code ''UNSUPPORTED_INTEGRITY'') ''unsupported registry artifact integrity algorithm'' [pid, adIntegrity a]
          else if adIntegrity a \<noteq> '''' \<and> verifyIntegrity lib body (adIntegrity a) = Some False then
            prepare_failed (code ''ARTIFACT_INTEGRITY_FAILED'') ''registry artifact integrity mismatch'' [pid]
          else
            (case parseTarballPackageJSON lib body of
               None \<Rightarrow> prepare_failed (code ''ARTIFACT_PACKAGE_JSON_MISSING'') ''registry tarball package.json missing'' [pid]
             | Some (name, version) \<Rightarrow>
                 if name \<noteq> rvArtifactPackageName pv \<or> version \<noteq> rvVersion pv then
                   prepare_failed (code ''ARTIFACT_METADATA_MISMATCH'') ''registry artifact package metadata mismatch''
                     [pid, name, rvArtifactPackageName pv]
                 else
                   (let resolvedHash = ''sha256:'' @ hex_encode (rlSHA256 lib body);
                        divergent = (case existing pid of None \<Rightarrow> None
                          | Some p \<Rightarrow> if lpHash p \<noteq> '''' \<and> lpHash p \<noteq> resolvedHash then Some (lpHash p) else None);
                        pkg = locked_package opts b pid pv resolvedHash
                    in case divergent of
                         Some locked \<Rightarrow>
                           prepare_failed ''TSPACK_REGISTRY_TRUST_FAILED''
                             ''registry endpoint returned divergent bytes for an already locked package version''
                             [pid, ''locked hash: '' @ locked, ''resolved hash: '' @ resolvedHash,
                              ''endpoint: '' @ RedactURL lib (adEndpoint a)]
                       | None \<Rightarrow>
                           (case roCapture opts pkg body of
                              Some err \<Rightarrow>
                                prepare_failed ''TSPACK_RESOLVE_ARTIFACT_CAPTURE_FAILED'' ''failed to capture resolved artifact'' [pid, err]
                            | None \<Rightarrow>
                                nothing_prepared\<lparr>ppPackageID := pid, ppPackage := pkg,
                                  ppTransitive := map (transitive_item pid) (rvDependencies pv),
                                  ppPeers := rvPeerRequirements pv\<rparr>))))"

definition prepareGroup ::
  "('c, 'v, 'u) resolver_library \<Rightarrow> resolver_options \<Rightarrow> (string \<rightharpoonup> lock_package) \<Rightarrow> string list \<Rightarrow> work_group \<Rightarrow> prepared_registry_package" where
  "prepareGroup lib opts existing seen g =
     (let source = wgSource g; name = wgRangeName g; qualified = source @ '':'' @ name in
      if \<not> Allows (roPolicy opts) source then
        prepare_failed ''TSPACK_SOURCE_POLICY_DENIED'' ''registry package source is denied by source policy''
          (policy_details (roPolicy opts) source name)
      else
        (case backend_of opts source of
           None \<Rightarrow>
             prepare_failed ''TSPACK_REGISTRY_SOURCE_UNSUPPORTED'' ''registry package source is not supported''
               [source, name, ''Use a configured package source such as npm or jsr.'']
         | Some b \<Rightarrow>
             (case bkMetadata b name of
                Inl err \<Rightarrow>
                  if errorsFromCancellation err then prepare_cancelled
                  else if source = ''npm'' then
                    prepare_failed (metadata_failure_code lib source err) ''failed to fetch npm metadata'' [name, error_text err]
                  else
                    prepare_failed (metadata_failure_code lib source err) ''failed to fetch registry package metadata''
                      [qualified, error_text err, ''Check the source-qualified package name and registry availability.'']
              | Inr m \<Rightarrow>
                  (case selectRegistryVersion lib m (wgRange g) of
                     Inl failure \<Rightarrow>
                       (let code = sourceDiagnosticCode lib source
                              (if failure = InvalidRange then ''INVALID_RANGE'' else ''VERSION_NOT_FOUND'') in
                        if source = ''npm'' then prepare_failed code ''failed to select npm version'' [name, wgRange g]
                        else prepare_failed code ''failed to select registry package version''
                          [qualified, wgRange g, ''Use a valid SemVer constraint matching a published, non-yanked version.''])
                   | Inr (pv, key) \<Rightarrow>
                       (let pid = identity_ID (rvIdentity pv) key in
                        if pid \<in> set seen then nothing_prepared\<lparr>ppPackageID := pid\<rparr>
                        else prepareSelectedPackage lib opts existing pid b pv)))))"

definition lockPackagesByID :: "lockfile option \<Rightarrow> string \<rightharpoonup> lock_package" where
  "lockPackagesByID lf =
     (case lf of None \<Rightarrow> Map.empty
      | Some l \<Rightarrow>
          foldl (\<lambda>m p.
              let m1 = m(lpID p \<mapsto> p) in
              if lpSourceID p \<noteq> '''' \<and> lpSourceHash p \<noteq> ''''
              then m1(lpSourceID p \<mapsto> p\<lparr>lpID := lpSourceID p, lpHash := lpSourceHash p, lpPatch := None, lpRealizationID := ''''\<rparr>)
              else m1)
            Map.empty (lfPackages l))"

end
