(* ===== verification/Resolver_Run.thy ===== *)
theory Resolver_Run
  imports Resolver_Prepare Workspace_Graph
begin

text \<open>
  \<open>ResolveNPM\<close> of \<open>internal/resolver/npm.go\<close>: the requests of the workspace graph, frontier after frontier
  of requests until nothing new is found, peers, the pruning of what became unreachable, and the lock
  file; with the path, workspace and git dependencies of \<open>local_git.go\<close>.

  Groups of a frontier are prepared by concurrent workers.  They read the state and do not change it, and
  after a required group has failed the producer stops handing out groups at a moment of its own choosing:
  \<open>sched\<close> says for each frontier how many groups were handed out, which the code respects up to the first
  required failure and beyond it.  Loops that run until nothing is left take fuel; None is running out.
\<close>

section \<open>State\<close>

record resolver_state =
  rsDiags :: "diagnostic list"
  rsPackages :: "lock_package list"
  rsEdges :: "lock_edge list"
  rsSeen :: "string list"
  rsFrontierSeq :: int
  rsFacts :: "package_requirement list"
  rsOrder :: int
  rsSlots :: "string \<rightharpoonup> string"
  rsPeersBy :: "string list"

definition start_state :: resolver_state where
  "start_state =
     \<lparr>rsDiags = [], rsPackages = [], rsEdges = [], rsSeen = [], rsFrontierSeq = 0, rsFacts = [], rsOrder = 0,
      rsSlots = Map.empty, rsPeersBy = []\<rparr>"

definition warnD :: "string \<Rightarrow> string \<Rightarrow> string list \<Rightarrow> diagnostic" where
  "warnD code message details =
     \<lparr>dgCode = code, dgSeverity = SeverityWarning, dgMessage = message, dgFile = '''', dgDetails = details, dgFixes = []\<rparr>"

definition report_diag :: "resolver_state \<Rightarrow> diagnostic \<Rightarrow> resolver_state" where
  "report_diag st d = st\<lparr>rsDiags := rsDiags st @ [d]\<rparr>"

definition buildResolveDiagnostic :: "bool \<Rightarrow> prepared_failure \<Rightarrow> diagnostic" where
  "buildResolveDiagnostic optional f =
     (if optional then warnD (pfCode f) (pfMessage f) (pfDetails f) else errD (pfCode f) (pfMessage f) (pfDetails f))"

definition resolve_has_errors :: "diagnostic list \<Rightarrow> bool" where
  "resolve_has_errors ds \<longleftrightarrow> list_ex (\<lambda>d. dgSeverity d = SeverityError) ds"

section \<open>A frontier\<close>

definition removeEdgesFrom :: "string \<Rightarrow> resolver_state \<Rightarrow> resolver_state" where
  "removeEdgesFrom from st = st\<lparr>rsEdges := filter (\<lambda>e. leFrom e \<noteq> from) (rsEdges st)\<rparr>"

definition packageVersionFromID :: "string \<Rightarrow> string" where
  "packageVersionFromID i = (case cut_byte_last (CHR ''@'') i of None \<Rightarrow> '''' | Some (_, v) \<Rightarrow> v)"

definition peer_requirement :: "string \<Rightarrow> string \<Rightarrow> int \<Rightarrow> dependency_requirement \<Rightarrow> package_requirement" where
  "peer_requirement pid originSource order peer =
     \<lparr>rqID = ''peer:'' @ pid @ '':'' @ dqReference peer @ '':'' @ pad_int 6 order, rqTarget = dqIdentity peer,
      rqReference = dqReference peer, rqConstraint = dqConstraint peer, rqKind = ''peer'', rqOptional = dqOptional peer,
      rqOrigin = \<lparr>roRequiringPackage = '''', roPackageID = pid, roDependencyKey = dqReference peer, roSource = originSource\<rparr>,
      rqEnvironment = ''workspace'', rqOrder = order\<rparr>"

definition add_fact :: "(int \<Rightarrow> package_requirement) \<Rightarrow> resolver_state \<Rightarrow> resolver_state" where
  "add_fact fact_at st = st\<lparr>rsFacts := rsFacts st @ [fact_at (rsOrder st)], rsOrder := rsOrder st + 1\<rparr>"

definition appendPeerRequirements ::
  "string \<Rightarrow> dependency_requirement list \<Rightarrow> string \<Rightarrow> resolver_state \<Rightarrow> resolver_state" where
  "appendPeerRequirements pid peers originSource st =
     (if pid \<in> set (rsPeersBy st) then st
      else
        (foldl (\<lambda>s peer. add_fact (\<lambda>order. peer_requirement pid originSource order peer) s) st peers)
          \<lparr>rsPeersBy := rsPeersBy st @ [pid]\<rparr>)"

definition host_map :: "(string \<times> registry_backend) list \<Rightarrow> (string \<times> int) list" where
  "host_map backends =
     (let hosts = filter (\<lambda>h. h \<noteq> '''') (map (\<lambda>(s, b). bkHost b) backends) in
      map (\<lambda>h. (h, int (count_list hosts h))) (remdups hosts))"

text \<open>How many groups are prepared, and what comes of them.\<close>

definition required_failure :: "work_group \<times> prepared_registry_package \<Rightarrow> bool" where
  "required_failure gp \<longleftrightarrow> ppFailure (snd gp) \<noteq> None \<and> wgHasRequired (fst gp)"

definition handed_out :: "nat \<Rightarrow> bool list \<Rightarrow> nat" where
  "handed_out wanted failures =
     (if list_ex (\<lambda>b. b) failures then max wanted (length (takeWhile Not failures) + 1) else length failures)"

definition prepareGroups ::
  "('c, 'v, 'u) resolver_library \<Rightarrow> resolver_options \<Rightarrow> (string \<rightharpoonup> lock_package) \<Rightarrow> (int \<Rightarrow> nat) \<Rightarrow> resolver_state
     \<Rightarrow> nat \<Rightarrow> work_group list \<Rightarrow> (string \<times> prepared_registry_package) list" where
  "prepareGroups lib opts existing sched st width groups =
     (let jobs = (if roResolveJobs opts \<le> 0 then defaultResolveJobs else roResolveJobs opts);
          decision = Decide (NewResolveOccupancyController (roControllerMode opts) jobs (roHostBudget opts))
            \<lparr>fiFrontierIndex = rsFrontierSeq st, fiFrontierWidth = int width, fiWorkItems = int (length groups),
             fiMetadataItems = int (length groups), fiTarballItems = 0, fiHosts = host_map (roBackends opts)\<rparr>;
          prepared = map (\<lambda>g. (g, prepareGroup lib opts existing (rsSeen st) g)) groups;
          n = (if fdTargetJobs decision = 1 then length groups
               else handed_out (sched (rsFrontierSeq st)) (map required_failure prepared))
      in map (\<lambda>(g, p). (wgKey g, p)) (take n prepared))"

definition edge_of :: "work_item \<Rightarrow> prepared_registry_package \<Rightarrow> lock_edge" where
  "edge_of r p =
     \<lparr>leFrom = wiFrom r, leTo = ppPackageID p, leKind = wiKind r, leOptional = wiOptional r, leReference = wiReference r\<rparr>"

definition link_request :: "work_item \<Rightarrow> prepared_registry_package \<Rightarrow> resolver_state \<Rightarrow> resolver_state" where
  "link_request r p st =
     (let st1 = (if has_prefix (wiFrom r) ''workspace:peer:'' then removeEdgesFrom (wiFrom r) st else st);
          st2 = st1\<lparr>rsEdges := rsEdges st1 @ [edge_of r p]\<rparr>
      in if wiSlot r = '''' then st2
         else st2\<lparr>rsSlots := (rsSlots st2)(wiSlot r \<mapsto>
           (if lpVersion (ppPackage p) = '''' then packageVersionFromID (ppPackageID p) else lpVersion (ppPackage p)))\<rparr>)"

definition commit_package :: "prepared_registry_package \<Rightarrow> resolver_state \<Rightarrow> resolver_state" where
  "commit_package p st =
     appendPeerRequirements (ppPackageID p) (ppPeers p) ''registry-metadata''
       (st\<lparr>rsPackages := rsPackages st @ [ppPackage p], rsSeen := rsSeen st @ [ppPackageID p]\<rparr>)"

text \<open>One request: the state, the next frontier, and whether a required request failed.\<close>

definition resolve_request ::
  "(string \<times> prepared_registry_package) list \<Rightarrow> resolver_state \<times> work_item list \<times> bool \<Rightarrow> work_item
     \<Rightarrow> resolver_state \<times> work_item list \<times> bool" where
  "resolve_request prepared acc r =
     (let (st, next, fatal) = acc in
      case map_of prepared (item_group_key r) of
        None \<Rightarrow> (st, next, fatal)
      | Some p \<Rightarrow>
          if ppCancelled p then (st, next, fatal)
          else
            (case ppFailure p of
               Some f \<Rightarrow> (report_diag st (buildResolveDiagnostic (wiOptional r) f), next, fatal \<or> \<not> wiOptional r)
             | None \<Rightarrow>
                 (let st1 = link_request r p st in
                  if ppPackageID p \<in> set (rsSeen st1) then (st1, next, fatal)
                  else (commit_package p st1, next @ ppTransitive p, fatal))))"

definition resolveFrontier ::
  "('c, 'v, 'u) resolver_library \<Rightarrow> resolver_options \<Rightarrow> (string \<rightharpoonup> lock_package) \<Rightarrow> (int \<Rightarrow> nat) \<Rightarrow> resolver_state
     \<Rightarrow> work_item list \<Rightarrow> resolver_state \<times> work_item list \<times> bool" where
  "resolveFrontier lib opts existing sched st frontier =
     (let normalized = normalizeWorkItems frontier in
      if normalized = [] then (st, [], False)
      else
        (case find (\<lambda>r. \<not> Allows (roPolicy opts) (wiSource r)) normalized of
           Some r \<Rightarrow>
             (report_diag st (errD ''TSPACK_SOURCE_POLICY_DENIED'' ''registry package source is denied by source policy''
                (policy_details (roPolicy opts) (wiSource r) (wiName r))), [], True)
         | None \<Rightarrow>
             (let groups = groupWorkItems normalized;
                  prepared = prepareGroups lib opts existing sched st (length normalized) groups;
                  st1 = st\<lparr>rsFrontierSeq := rsFrontierSeq st + 1\<rparr>
              in foldl (resolve_request prepared) (st1, [], False) normalized)))"

fun run_frontiers ::
  "('c, 'v, 'u) resolver_library \<Rightarrow> resolver_options \<Rightarrow> (string \<rightharpoonup> lock_package) \<Rightarrow> (int \<Rightarrow> nat) \<Rightarrow> nat
     \<Rightarrow> resolver_state \<Rightarrow> work_item list \<Rightarrow> (resolver_state \<times> bool) option" where
  "run_frontiers lib opts existing sched 0 st frontier = (if frontier = [] then Some (st, False) else None)"
| "run_frontiers lib opts existing sched (Suc fuel) st frontier =
     (if frontier = [] then Some (st, False)
      else
        (let (st1, next, fatal) = resolveFrontier lib opts existing sched st frontier in
         if fatal then Some (st1, True) else run_frontiers lib opts existing sched fuel st1 next))"

section \<open>Peers\<close>

definition selectedVersionSatisfies ::
  "('c, 'v, 'u) resolver_library \<Rightarrow> string \<Rightarrow> string \<Rightarrow> string \<Rightarrow> bool" where
  "selectedVersionSatisfies lib source version constraint =
     (if version = '''' then False
      else
        (case ParseConstraint (rlConstraint lib) source constraint of None \<Rightarrow> False
         | Some c \<Rightarrow> (case rlVersion lib version of None \<Rightarrow> False | Some v \<Rightarrow> rlCheck lib c v)))"

definition peerEnvironmentRoot :: "package_requirement \<Rightarrow> string" where
  "peerEnvironmentRoot r = ''workspace:peer:'' @ piSource (rqTarget r) @ '':'' @ piName (rqTarget r)"

definition peer_items :: "('c, 'v, 'u) resolver_library \<Rightarrow> resolver_state \<Rightarrow> work_item list" where
  "peer_items lib st =
     map (\<lambda>c. \<lparr>wiSource = piSource (rqTarget c), wiName = piName (rqTarget c), wiRange = rqConstraint c,
           wiFrom = peerEnvironmentRoot c, wiKind = ''peer'', wiOptional = rqOptional c, wiReference = rqReference c,
           wiSlot = SlotKey c\<rparr>)
       (filter (\<lambda>c. rqKind c = ''peer'' \<and> \<not> rqOptional c \<and>
             \<not> selectedVersionSatisfies lib (piSource (rqTarget c)) (zget '''' (rsSlots st) (SlotKey c)) (rqConstraint c))
         (Controllers (Build_requirements (rsFacts st))))"

text \<open>The bound of the loop is read again in every round.\<close>

fun resolvePeerRequirements ::
  "('c, 'v, 'u) resolver_library \<Rightarrow> resolver_options \<Rightarrow> (string \<rightharpoonup> lock_package) \<Rightarrow> (int \<Rightarrow> nat) \<Rightarrow> nat \<Rightarrow> nat \<Rightarrow> nat
     \<Rightarrow> resolver_state \<Rightarrow> resolver_state option" where
  "resolvePeerRequirements lib opts existing sched 0 fuel iteration st = None"
| "resolvePeerRequirements lib opts existing sched (Suc rounds) fuel iteration st =
     (if length (rsFacts st) + 1 < iteration then Some st
      else if peer_items lib st = [] then Some st
      else
        (case run_frontiers lib opts existing sched fuel st (peer_items lib st) of
           None \<Rightarrow> None
         | Some (st1, fatal) \<Rightarrow>
             if fatal \<or> length (rsFacts st1) = length (rsFacts st) then Some st1
             else resolvePeerRequirements lib opts existing sched rounds fuel (iteration + 1) st1))"

definition package_with :: "lock_package list \<Rightarrow> string \<Rightarrow> lock_package option" where
  "package_with packages i = find (\<lambda>p. lpID p = i) (rev packages)"

definition environment_slot :: "lock_package \<Rightarrow> string" where
  "environment_slot p = scope_key ''workspace'' @ ''|'' @ lpSource p @ '':'' @ lpName p"

definition controller_at :: "package_requirement list \<Rightarrow> string \<Rightarrow> package_requirement option" where
  "controller_at facts slot = find (\<lambda>c. SlotKey c = slot) (rev (Controllers (Build_requirements facts)))"

definition peer_edge_kept :: "('c, 'v, 'u) resolver_library \<Rightarrow> resolver_state \<Rightarrow> lock_edge \<Rightarrow> bool" where
  "peer_edge_kept lib st e =
     (if \<not> has_prefix (leFrom e) ''workspace:peer:'' then True
      else
        (case package_with (rsPackages st) (leTo e) of None \<Rightarrow> False
         | Some p \<Rightarrow>
             (case controller_at (rsFacts st) (environment_slot p) of None \<Rightarrow> False
              | Some c \<Rightarrow>
                  rqKind c = ''peer'' \<and> selectedVersionSatisfies lib (piSource (rqTarget c)) (lpVersion p) (rqConstraint c))))"

definition reconcilePeerEnvironmentEdges :: "('c, 'v, 'u) resolver_library \<Rightarrow> resolver_state \<Rightarrow> resolver_state" where
  "reconcilePeerEnvironmentEdges lib st = st\<lparr>rsEdges := filter (peer_edge_kept lib st) (rsEdges st)\<rparr>"

section \<open>Pruning\<close>

definition mark_edge :: "(lock_edge \<Rightarrow> bool) \<Rightarrow> string list \<Rightarrow> string list \<times> string list \<Rightarrow> lock_edge \<Rightarrow> string list \<times> string list" where
  "mark_edge wanted ids acc e =
     (let (reachable, frontier) = acc in
      if wanted e \<and> leTo e \<in> set ids \<and> leTo e \<notin> set reachable then (reachable @ [leTo e], frontier @ [leTo e]) else acc)"

fun mark_packages :: "nat \<Rightarrow> string list \<Rightarrow> lock_edge list \<Rightarrow> string list \<times> string list \<Rightarrow> string list option" where
  "mark_packages fuel ids es (reachable, []) = Some reachable"
| "mark_packages 0 ids es (reachable, current # frontier) = None"
| "mark_packages (Suc fuel) ids es (reachable, current # frontier) =
     mark_packages fuel ids es (foldl (mark_edge (\<lambda>e. leFrom e = current) ids) (reachable, frontier) es)"

definition reachable_packages :: "string list \<Rightarrow> lock_edge list \<Rightarrow> string list option" where
  "reachable_packages ids es =
     mark_packages (length ids) ids es
       (foldl (mark_edge (\<lambda>e. leFrom e \<notin> set ids) ids) ([], []) es)"

definition pruneUnreachablePackages :: "resolver_state \<Rightarrow> resolver_state option" where
  "pruneUnreachablePackages st =
     (let ids = map lpID (rsPackages st) in
      case reachable_packages ids (rsEdges st) of None \<Rightarrow> None
      | Some reachable \<Rightarrow>
          Some (st\<lparr>rsPackages := filter (\<lambda>p. lpID p \<in> set reachable) (rsPackages st),
                   rsEdges := filter (\<lambda>e. leTo e \<in> set reachable \<and> \<not> (leFrom e \<in> set ids \<and> leFrom e \<notin> set reachable))
                     (rsEdges st)\<rparr>))"

definition recomputeSelectedSlots :: "resolver_state \<Rightarrow> resolver_state" where
  "recomputeSelectedSlots st =
     (let known = map SlotKey (rsFacts st) in
      st\<lparr>rsSlots := foldl (\<lambda>m e.
          if package_with (rsPackages st) (leFrom e) \<noteq> None then m
          else
            (case package_with (rsPackages st) (leTo e) of None \<Rightarrow> m
             | Some p \<Rightarrow> if environment_slot p \<in> set known then m(environment_slot p \<mapsto> lpVersion p) else m))
        Map.empty (rsEdges st)\<rparr>)"

definition stabilizePeerRequirements ::
  "('c, 'v, 'u) resolver_library \<Rightarrow> resolver_options \<Rightarrow> (string \<rightharpoonup> lock_package) \<Rightarrow> (int \<Rightarrow> nat) \<Rightarrow> nat \<Rightarrow> resolver_state
     \<Rightarrow> resolver_state option" where
  "stabilizePeerRequirements lib opts existing sched fuel st =
     (case resolvePeerRequirements lib opts existing sched fuel fuel 0 st of None \<Rightarrow> None
      | Some st1 \<Rightarrow> map_option recomputeSelectedSlots (pruneUnreachablePackages (reconcilePeerEnvironmentEdges lib st1)))"

end
