(* ===== verification/Resolver_Main.thy ===== *)
theory Resolver_Main
  imports Resolver_Run
begin

text \<open>
  The requests that the workspace graph makes, the local dependencies of \<open>local_git.go\<close>, and
  \<open>ResolveNPM\<close> as a whole.  What the file system and \<open>git\<close> answer is the argument \<open>world\<close>; the TOML
  library, which writes the lock file and reads it back, is taken to read what it wrote.
\<close>

section \<open>Local dependencies\<close>

text \<open>A directory as \<open>WalkDir\<close> sees it; content that cannot be read is None.\<close>

datatype dir_entry =
    DirFile string "string option"
  | DirDirectory string "dir_entry list"
  | DirOther string

record local_world =
  lwAbs :: "string \<Rightarrow> string option"
  lwPackageJSON :: "string \<Rightarrow> (string + npm_version) option"
  lwTree :: "string \<Rightarrow> dir_entry list option"
  lwExists :: "string \<Rightarrow> bool"
  lwGit :: "string \<Rightarrow> string list \<Rightarrow> string + string"

definition shouldSkipLocalArtifactDir :: "string \<Rightarrow> bool" where
  "shouldSkipLocalArtifactDir name \<longleftrightarrow> name \<in> set [''.git'', ''.tspack'', ''node_modules'', ''tspack-artifacts'']"

definition shouldSkipLocalArtifactFile :: "string \<Rightarrow> bool" where
  "shouldSkipLocalArtifactFile name \<longleftrightarrow> name = ''ts-lock.toml''"

definition canonicalLocalFileBytes :: "string \<Rightarrow> string" where
  "canonicalLocalFileBytes s =
     (if CHR 0x00 \<in> set s then s else replace_all s [CHR 0x0D, CHR 0x0A] [CHR 0x0A])"

fun local_files :: "bool \<Rightarrow> string \<Rightarrow> dir_entry \<Rightarrow> (string \<times> string option) list" where
  "local_files skip prefix_path (DirFile name content) =
     (if shouldSkipLocalArtifactFile name then [] else [(prefix_path @ name, content)])"
| "local_files skip prefix_path (DirOther name) = []"
| "local_files skip prefix_path (DirDirectory name entries) =
     (if shouldSkipLocalArtifactDir name \<or> (skip \<and> name = ''dist'') then []
      else concat (map (local_files skip (prefix_path @ name @ ''/'')) entries))"

definition hashed_file :: "string \<times> string option \<Rightarrow> unit + string" where
  "hashed_file f =
     (case snd f of None \<Rightarrow> Inl () | Some c \<Rightarrow> Inr (fst f @ [CHR 0x00] @ canonicalLocalFileBytes c @ [CHR 0x00]))"

definition hashDirectoryWithOptions ::
  "('c, 'v, 'u) resolver_library \<Rightarrow> local_world \<Rightarrow> bool \<Rightarrow> string \<Rightarrow> string option" where
  "hashDirectoryWithOptions lib world skip path =
     (case lwTree world path of None \<Rightarrow> None
      | Some entries \<Rightarrow>
          (case traverse hashed_file (sort_key fst (concat (map (local_files skip '''') entries))) of
             Inl _ \<Rightarrow> None
           | Inr parts \<Rightarrow> Some (hex_encode (rlSHA256 lib (concat parts)))))"

definition addPackageAndEdge ::
  "lock_package \<Rightarrow> string \<Rightarrow> string \<Rightarrow> bool \<Rightarrow> string \<Rightarrow> resolver_state \<Rightarrow> resolver_state" where
  "addPackageAndEdge pkg from kind optional reference st =
     (let st1 = (if lpID pkg \<in> set (rsSeen st) then st
                 else st\<lparr>rsPackages := rsPackages st @ [pkg], rsSeen := rsSeen st @ [lpID pkg]\<rparr>)
      in st1\<lparr>rsEdges := rsEdges st1 @
           [\<lparr>leFrom = from, leTo = lpID pkg, leKind = kind, leOptional = optional, leReference = reference\<rparr>]\<rparr>)"

text \<open>The requests of a local package; those of its peers become facts.\<close>

definition localDependencyRequests ::
  "('c, 'v, 'u) resolver_library \<Rightarrow> npm_version \<Rightarrow> string \<Rightarrow> resolver_state \<Rightarrow> resolver_state \<times> work_item list" where
  "localDependencyRequests lib pkg pid st =
     (case npmPackageRequirements lib pkg of
        Inl e \<Rightarrow>
          (report_diag st (errD ''TSPACK_RESOLVE_LOCAL_REQUIREMENTS_INVALID'' ''invalid local package dependency metadata'' [pid, e]), [])
      | Inr (dependencies, peers) \<Rightarrow>
          (appendPeerRequirements pid peers ''package.json'' st, map (transitive_item pid) dependencies))"

definition plain_version :: "string \<Rightarrow> npm_version" where
  "plain_version name =
     \<lparr>nvName = name, nvVersion = '''', nvDependencies = [], nvOptionalDependencies = [], nvPeerDependencies = [],
      nvPeerMeta = [], nvTarball = '''', nvIntegrity = '''', nvScripts = []\<rparr>"

definition localPackageMetadata ::
  "local_world \<Rightarrow> string \<Rightarrow> string \<Rightarrow> string \<Rightarrow> resolver_state \<Rightarrow> resolver_state \<times> npm_version option" where
  "localPackageMetadata world path fallbackName invalidCode st =
     (case lwPackageJSON world path of
        None \<Rightarrow> (st, Some (plain_version fallbackName))
      | Some (Inl e) \<Rightarrow> (report_diag st (errD invalidCode ''invalid package.json'' [path, e]), None)
      | Some (Inr raw) \<Rightarrow> (st, Some (if nvName raw = '''' then raw\<lparr>nvName := fallbackName\<rparr> else raw)))"

text \<open>Adding a local package, with the requests of its \<open>package.json\<close> when it is new.\<close>

definition add_local ::
  "('c, 'v, 'u) resolver_library \<Rightarrow> lock_package \<Rightarrow> npm_version \<Rightarrow> string \<Rightarrow> string \<Rightarrow> dependency_node \<Rightarrow> resolver_state
     \<Rightarrow> resolver_state \<times> work_item list" where
  "add_local lib pkg version from kind dep st =
     (let seen = lpID pkg \<in> set (rsSeen st);
          st1 = addPackageAndEdge pkg from kind (dnOptional dep) (dnKey dep) st
      in if seen then (st1, []) else localDependencyRequests lib version (lpID pkg) st1)"

definition resolvePathDependency ::
  "('c, 'v, 'u) resolver_library \<Rightarrow> resolver_options \<Rightarrow> local_world \<Rightarrow> string \<Rightarrow> dependency_node \<Rightarrow> string \<Rightarrow> string
     \<Rightarrow> resolver_state \<Rightarrow> resolver_state \<times> work_item list" where
  "resolvePathDependency lib opts world package_root dep from kind st =
     (let path = asPath (dnSource dep);
          fail = (\<lambda>code message details. (report_diag st (errD code message details), [] :: work_item list));
          base = (if package_root = '''' then ''.'' else package_root);
          resolved = path_clean (path_join [base, path])
      in
      if is_rooted path then fail ''TSPACK_RESOLVE_PATH_INVALID'' ''absolute path is not allowed'' [path]
      else if has_prefix resolved ''..'' then
        fail ''TSPACK_RESOLVE_PATH_OUTSIDE_WORKSPACE'' ''resolved path escapes workspace'' [path, dnPackage dep]
      else
        (case lwAbs world (if roRootDir opts = '''' then ''.'' else roRootDir opts) of
           None \<Rightarrow> fail ''TSPACK_RESOLVE_PATH_ROOT_INVALID'' ''workspace root cannot be resolved'' [roRootDir opts]
         | Some workspaceRoot \<Rightarrow>
             (let (absPath, allowedRoot) =
                (if is_rooted base then (path_clean (path_join [base, path]), path_clean base)
                 else (path_clean (path_join [workspaceRoot, resolved]), workspaceRoot))
              in
              if (case path_rel allowedRoot absPath of None \<Rightarrow> True | Some r \<Rightarrow> r = ''..'' \<or> has_prefix r ''../'') then
                fail ''TSPACK_RESOLVE_PATH_OUTSIDE_WORKSPACE'' ''resolved path escapes workspace'' [path, dnPackage dep]
              else
                (case localPackageMetadata world absPath (dnKey dep) ''TSPACK_RESOLVE_PATH_PACKAGE_JSON_INVALID'' st of
                   (st1, None) \<Rightarrow> (st1, [])
                 | (st1, Some pkg) \<Rightarrow>
                     (case hashDirectoryWithOptions lib world False absPath of
                        None \<Rightarrow> (report_diag st1 (errD ''TSPACK_RESOLVE_PATH_NOT_FOUND'' ''path dependency not found'' [path]), [])
                      | Some hash \<Rightarrow>
                          (let rel = path_clean resolved; pid = ''path:'' @ rel @ ''#'' @ hash in
                           add_local lib
                             (no_package\<lparr>lpID := pid, lpName := nvName pkg, lpVersion := nvVersion pkg, lpSource := ''path'',
                               lpPath := rel, lpHash := ''sha256:'' @ hash,
                               lpCapabilities := FromPackageJSONScripts (nvScripts pkg)\<rparr>)
                             pkg from kind dep st1))))))"

definition resolveWorkspaceDependency ::
  "('c, 'v, 'u) resolver_library \<Rightarrow> resolver_options \<Rightarrow> local_world \<Rightarrow> workspace_graph \<Rightarrow> dependency_node \<Rightarrow> string \<Rightarrow> string
     \<Rightarrow> resolver_state \<Rightarrow> resolver_state" where
  "resolveWorkspaceDependency lib opts world g dep from kind st =
     (let name = first_given [asName (dnSource dep), asPackage (dnSource dep), dnKey dep] in
      case graph_package g name of
        None \<Rightarrow> report_diag st (errD ''TSPACK_RESOLVE_WORKSPACE_PACKAGE_NOT_FOUND'' ''workspace package not found'' [name])
      | Some target \<Rightarrow>
          (case hashDirectoryWithOptions lib world True (path_clean (path_join [roRootDir opts, pnRoot target])) of
             None \<Rightarrow>
               report_diag st (errD ''TSPACK_RESOLVE_WORKSPACE_ROOT_INVALID'' ''workspace package root is invalid'' [name, pnRoot target])
           | Some hash \<Rightarrow>
               addPackageAndEdge
                 (no_package\<lparr>lpID := ''workspace:'' @ pnName target @ ''#'' @ hash, lpName := pnName target,
                   lpVersion := pnVersion target, lpSource := ''workspace'', lpWorkspace := pnName target,
                   lpPath := path_clean (pnRoot target), lpHash := ''sha256:'' @ hash\<rparr>)
                 from kind (dnOptional dep) (dnKey dep) st))"

definition git_ref :: "author_source \<Rightarrow> string" where
  "git_ref s = first_given [asRev s, asTag s, asRef s, asBranch s, ''HEAD'']"

definition resolveGitDependency ::
  "('c, 'v, 'u) resolver_library \<Rightarrow> local_world \<Rightarrow> dependency_node \<Rightarrow> string \<Rightarrow> string \<Rightarrow> resolver_state
     \<Rightarrow> resolver_state \<times> work_item list" where
  "resolveGitDependency lib world dep from kind st =
     (let fail = (\<lambda>code message details. (report_diag st (errD code message details), [] :: work_item list));
          repo = trim_prefix (asRepo (dnSource dep)) ''file://''
      in
      if asRepo (dnSource dep) = '''' then fail ''TSPACK_RESOLVE_GIT_REPO_INVALID'' ''git repo is required'' [dnKey dep]
      else if \<not> lwExists world repo then fail ''TSPACK_RESOLVE_GIT_REPO_INVALID'' ''git repo path invalid'' [repo]
      else
        (case lwGit world repo [''rev-parse'', git_ref (dnSource dep)] of
           Inl e \<Rightarrow> fail ''TSPACK_RESOLVE_GIT_REF_NOT_FOUND'' ''git ref not found'' [git_ref (dnSource dep), e]
         | Inr commit \<Rightarrow>
             (case lwGit world repo [''rev-parse'', trim_space commit @ ''^{tree}''] of
                Inl e \<Rightarrow> fail ''TSPACK_RESOLVE_GIT_COMMAND_FAILED'' ''failed to resolve git tree hash'' [e]
              | Inr treeHash \<Rightarrow>
                  (case localPackageMetadata world repo (dnKey dep) ''TSPACK_RESOLVE_GIT_PACKAGE_JSON_INVALID'' st of
                     (st1, None) \<Rightarrow> (st1, [])
                   | (st1, Some pkg) \<Rightarrow>
                       add_local lib
                         (no_package\<lparr>lpID := ''git:'' @ repo @ ''#'' @ trim_space commit, lpName := nvName pkg,
                           lpVersion := nvVersion pkg, lpSource := ''git'', lpRepo := repo, lpRev := trim_space commit,
                           lpTreeHash := trim_space treeHash, lpCapabilities := FromPackageJSONScripts (nvScripts pkg)\<rparr>)
                         pkg from kind dep st1))))"

definition resolveNonNPMDependency ::
  "('c, 'v, 'u) resolver_library \<Rightarrow> resolver_options \<Rightarrow> local_world \<Rightarrow> workspace_graph \<Rightarrow> dependency_node \<Rightarrow> string \<Rightarrow> string
     \<Rightarrow> resolver_state \<Rightarrow> resolver_state \<times> work_item list" where
  "resolveNonNPMDependency lib opts world g dep from kind st =
     (let source = asKind (dnSource dep) in
      if source = ''path'' then
        resolvePathDependency lib opts world
          (case graph_package g (dnPackage dep) of None \<Rightarrow> '''' | Some p \<Rightarrow> pnRoot p) dep from kind st
      else if source = ''workspace'' then (resolveWorkspaceDependency lib opts world g dep from kind st, [])
      else if source = ''git'' then resolveGitDependency lib world dep from kind st
      else
        (report_diag st (errD ''TSPACK_REGISTRY_SOURCE_UNSUPPORTED'' ''dependency source is not supported''
           [source @ '':'' @ dnKey dep,
            ''Use a supported registry source (npm or jsr) or a supported local source (workspace, path, or git).'']), []))"

section \<open>The requests of the workspace\<close>

definition dependencyEdgeKind :: "dependency_node \<Rightarrow> string" where
  "dependencyEdgeKind dep = (if dnKind dep = ''type'' then ''type'' else ''runtime'')"

definition direct_requirement :: "dependency_node \<Rightarrow> string \<Rightarrow> string \<Rightarrow> int \<Rightarrow> package_requirement" where
  "direct_requirement dep from requirementKind order =
     (let s = dnSource dep in
      \<lparr>rqID = ''direct:'' @ from @ '':'' @ dnKey dep @ '':'' @ pad_int 6 order,
       rqTarget = \<lparr>piSource = asKind s, piName = asPackage s\<rparr>, rqReference = dnKey dep, rqConstraint = asRange s,
       rqKind = requirementKind, rqOptional = dnOptional dep,
       rqOrigin = \<lparr>roRequiringPackage = dnPackage dep, roPackageID = '''', roDependencyKey = dnKey dep, roSource = ''manifest''\<rparr>,
       rqEnvironment =
         (if asKind s = ''npm'' \<and> dnKey dep \<noteq> '''' \<and> asPackage s \<noteq> '''' \<and> dnKey dep \<noteq> asPackage s
          then ''workspace:alias:'' @ dnKey dep else ''workspace''),
       rqOrder = order\<rparr>)"

definition enqueueSharedDirectRequest ::
  "('c, 'v, 'u) resolver_library \<Rightarrow> resolver_options \<Rightarrow> local_world \<Rightarrow> workspace_graph \<Rightarrow> resolver_state \<times> work_item list
     \<Rightarrow> dependency_node \<Rightarrow> string \<Rightarrow> string \<Rightarrow> string \<Rightarrow> resolver_state \<times> work_item list" where
  "enqueueSharedDirectRequest lib opts world g acc dep from edgeKind requirementKind =
     (let (st, frontier) = acc in
      case backend_of opts (asKind (dnSource dep)) of
        None \<Rightarrow>
          (let (st1, requests) = resolveNonNPMDependency lib opts world g dep from edgeKind st in (st1, frontier @ requests))
      | Some _ \<Rightarrow>
          (let requirement = direct_requirement dep from requirementKind (rsOrder st) in
           (add_fact (direct_requirement dep from requirementKind) st,
            frontier @ [\<lparr>wiSource = asKind (dnSource dep), wiName = asPackage (dnSource dep), wiRange = asRange (dnSource dep),
              wiFrom = from, wiKind = edgeKind, wiOptional = dnOptional dep, wiReference = dnKey dep,
              wiSlot = SlotKey requirement\<rparr>])))"

text \<open>What is asked for by a package, in the order of the code: the dependency, the asker, the kinds.\<close>

definition package_requests :: "package_node \<Rightarrow> (dependency_node \<times> string \<times> string \<times> string) list" where
  "package_requests p =
     (let selected = concat (map (\<lambda>t. map dnKey (tnRuntimeDeps t)) (pnTargets p)) in
      concat (map (\<lambda>t.
        (let from = pnName p @ '':target:'' @ tnName t in
         map (\<lambda>d. (d, from, dependencyEdgeKind d, ''project-explicit'')) (tnRuntimeDeps t)
         @ map (\<lambda>d. (d, from, ''peer'', ''peer'')) (tnPeerDeps t)
         @ map (\<lambda>d. (d, from, ''tool'', ''project-explicit'')) (tnBuildDeps t))) (pnTargets p))
      @ map (\<lambda>d. (d, pnName p @ '':dependency'', dependencyEdgeKind d, ''project-explicit''))
          (filter (\<lambda>d. dnKey d \<notin> set selected \<and> (dnKind d = ''dep'' \<or> dnKind d = ''runtime'')) (pnDependencies p))
      @ map (\<lambda>d. (d, pnName p @ '':tool'', ''tool'', ''project-explicit'')) (pnTools p)
      @ map (\<lambda>l. (ltoDependency l, ltoFrom l, ''tool'', ''project-explicit'')) (pnLifecycleTools p)
      @ concat (map (\<lambda>t. map (\<lambda>d. (d, pnName p @ '':test:'' @ snName t, ''test'', ''target-explicit'')) (snRequirements t))
          (pnTestTargets p)))"

definition enqueue_workspace ::
  "('c, 'v, 'u) resolver_library \<Rightarrow> resolver_options \<Rightarrow> local_world \<Rightarrow> workspace_graph \<Rightarrow> resolver_state \<times> work_item list" where
  "enqueue_workspace lib opts world g =
     foldl (\<lambda>acc (d, from, edgeKind, requirementKind).
         enqueueSharedDirectRequest lib opts world g acc d from edgeKind requirementKind)
       (start_state, []) (concat (map package_requests (wgPackages g)))"

text \<open>A request for a shared slot asks for what the controller of the slot asks for.\<close>

definition applyRequirementControllers :: "package_requirement list \<Rightarrow> work_item list \<Rightarrow> work_item list" where
  "applyRequirementControllers facts frontier =
     concat (map (\<lambda>r.
         if wiSlot r = '''' then [r]
         else
           (case controller_at facts (wiSlot r) of None \<Rightarrow> []
            | Some c \<Rightarrow>
                [r\<lparr>wiSource := piSource (rqTarget c), wiName := piName (rqTarget c), wiRange := rqConstraint c\<rparr>]))
       frontier)"

section \<open>The result\<close>

fun status_text :: "requirement_status \<Rightarrow> string" where
  "status_text StatusPending = ''pending''"
| "status_text StatusControlling = ''controlling''"
| "status_text StatusSatisfied = ''satisfied''"
| "status_text StatusShadowedCompatible = ''shadowed-compatible''"
| "status_text StatusOverriddenIncompatible = ''overridden-incompatible''"
| "status_text StatusOptionalUnsatisfied = ''optional-unsatisfied''"
| "status_text StatusInvalid = ''invalid''"

definition shadow_id :: "requirement_entry \<Rightarrow> string" where
  "shadow_id e = (case reShadowedBy e of None \<Rightarrow> '''' | Some r \<Rightarrow> refID r)"

definition lock_requirement_of :: "requirement_entry \<Rightarrow> lock_requirement" where
  "lock_requirement_of e =
     (let r = reRequirement e in
      \<lparr>lrID = rqID r, lrScope = scope_key (rqEnvironment r), lrTargetSource = piSource (rqTarget r),
       lrTargetName = piName (rqTarget r), lrReference = rqReference r, lrConstraint = rqConstraint r, lrKind = rqKind r,
       lrRequiringPackage = roRequiringPackage (rqOrigin r), lrPackageID = roPackageID (rqOrigin r),
       lrDependencyKey = roDependencyKey (rqOrigin r), lrOriginSource = roSource (rqOrigin r), lrOrder = rqOrder r,
       lrOptional = rqOptional r, lrControlling = reControlling e, lrShadowedBy = shadow_id e,
       lrStatus = status_text (reStatus e), lrSelectedVersion = reSelectedVersion e\<rparr>)"

definition requirementOriginLabel :: "package_requirement \<Rightarrow> string" where
  "requirementOriginLabel r = first_given [roPackageID (rqOrigin r), roRequiringPackage (rqOrigin r), rqID r]"

definition overridden_peer_diags :: "requirement_entry \<Rightarrow> diagnostic list" where
  "overridden_peer_diags e =
     (let r = reRequirement e; target = identity_key (rqTarget r) in
      flag (reStatus e = StatusOverriddenIncompatible \<and> rqKind r = ''peer'')
        (warnD ''TSPACK_PEER_REQUIREMENT_OVERRIDDEN''
          (requirementOriginLabel r @ '' requests peer '' @ target @ '' '' @ rqConstraint r
             @ '', but the selected environment version is '' @ reSelectedVersion e)
          [''requirement: '' @ rqID r, ''target: '' @ target, ''constraint: '' @ rqConstraint r,
           ''selectedVersion: '' @ reSelectedVersion e, ''controllingRequirement: '' @ shadow_id e]))"

definition finalizeRequirementTape ::
  "('c, 'v, 'u) resolver_library \<Rightarrow> resolver_state \<Rightarrow> lock_requirement list \<times> diagnostic list" where
  "finalizeRequirementTape lib st =
     (let classified = Classify (rlConstraint lib) (rlVersion lib) (rlCheck lib) (rsSlots st) (Build_requirements (rsFacts st))
      in (map lock_requirement_of classified, concat (map overridden_peer_diags classified)))"

definition graph_lock_targets :: "workspace_graph \<Rightarrow> lock_target list" where
  "graph_lock_targets g =
     concat (map (\<lambda>p. map (\<lambda>t. \<lparr>ltPackage = pnName p, ltName = tnName t, ltExport = tnExport t, ltEntry = tnEntry t,
         ltRuntime = tnRuntime t, ltTypes = tnTypes t\<rparr>) (pnTargets p)) (wgPackages g))"

definition resolver_lock :: "workspace_graph \<Rightarrow> resolver_state \<Rightarrow> lock_requirement list \<Rightarrow> lockfile" where
  "resolver_lock g st requirements =
     empty_lock\<lparr>lfPackages := rsPackages st, lfEdges := rsEdges st, lfRequirements := requirements,
       lfTargets := graph_lock_targets g\<rparr>"

text \<open>The state behind the frontiers and the peers, before the tape is written out.\<close>

definition resolve_graph ::
  "('c, 'v, 'u) resolver_library \<Rightarrow> resolver_options \<Rightarrow> local_world \<Rightarrow> lockfile option \<Rightarrow> (int \<Rightarrow> nat) \<Rightarrow> nat \<Rightarrow> workspace_graph
     \<Rightarrow> resolver_state option" where
  "resolve_graph lib opts world existing_lock sched fuel g =
     (let existing = lockPackagesByID existing_lock;
          (st, frontier) = enqueue_workspace lib opts world g
      in
      case run_frontiers lib opts existing sched fuel st (applyRequirementControllers (rsFacts st) frontier) of
        None \<Rightarrow> None
      | Some (st1, _) \<Rightarrow>
          if resolve_has_errors (rsDiags st1) then Some st1
          else stabilizePeerRequirements lib opts existing sched fuel st1)"

definition resolve_refused :: "string \<Rightarrow> string \<Rightarrow> string list \<Rightarrow> (lockfile \<times> diagnostic list) option" where
  "resolve_refused code message details = Some (empty_lock, [errD code message details])"

definition ResolveNPM ::
  "('c, 'v, 'u) resolver_library \<Rightarrow> resolver_options \<Rightarrow> local_world \<Rightarrow> lockfile option \<Rightarrow> (int \<Rightarrow> nat) \<Rightarrow> nat
     \<Rightarrow> workspace_graph option \<Rightarrow> (lockfile \<times> diagnostic list) option" where
  "ResolveNPM lib opts world existing_lock sched fuel graph =
     (if roMode opts = ''sync'' then
        resolve_refused ''TSPACK_RESOLVE_MODE_UNSUPPORTED'' ''sync mode not yet supported in M7'' []
      else
        (case graph of None \<Rightarrow> resolve_refused ''TSPACK_RESOLVE_INTERNAL_ERROR'' ''resolver requires graph'' []
         | Some g \<Rightarrow>
             if spOffline (roPolicy opts) then
               resolve_refused ''TSPACK_REGISTRY_OFFLINE_MISS'' ''update requires registry metadata but source policy is offline-only''
                 [''Use `tspack sync` with a populated lock and store, or disable offline mode for update.'']
             else
               (case resolve_graph lib (complete_backends lib opts) world existing_lock sched fuel g of None \<Rightarrow> None
                | Some st \<Rightarrow>
                    (let (requirements, warnings) = finalizeRequirementTape lib st in
                     Some (normalize_lock (resolver_lock g st requirements), SortDiagnostics (rsDiags st @ warnings))))))"

end
