(* ===== verification/Resolver_Props.thy ===== *)
theory Resolver_Props
  imports Resolver_Main
begin

text \<open>
  What the parts of the resolver guarantee: the version that is chosen, the package that is prepared, and
  the packages and edges that pruning leaves.
\<close>

section \<open>The chosen version\<close>

text \<open>What the comparison of versions must be for a greatest one to make sense: a strict weak order.\<close>

definition version_order :: "('c, 'v, 'u) resolver_library \<Rightarrow> bool" where
  "version_order lib \<longleftrightarrow>
     (\<forall>a b. rlGreater lib a b \<longrightarrow> \<not> rlGreater lib b a) \<and> (\<forall>a b c. rlGreater lib a b \<longrightarrow> rlGreater lib a c \<or> rlGreater lib c b)"

lemma insert_by_set [simp]: "set (insert_by lt x ys) = insert x (set ys)"
  by (induction ys) auto

lemma stable_sort_by_set [simp]: "set (stable_sort_by lt xs) = set xs"
  by (induction xs) (auto simp: stable_sort_by_def)

lemma insert_by_sorted:
  assumes "\<And>a b. lt a b \<Longrightarrow> \<not> lt b a" and "\<And>a b c. lt a b \<Longrightarrow> lt a c \<or> lt c b"
    and "sorted_wrt (\<lambda>a b. \<not> lt b a) ys"
  shows "sorted_wrt (\<lambda>a b. \<not> lt b a) (insert_by lt x ys)"
  using assms(3)
proof (induction ys)
  case (Cons y ys)
  show ?case
  proof (cases "lt y x")
    case True
    then have "\<not> lt x y" by (rule assms(1))
    with Cons True show ?thesis by auto
  next
    case False
    have "\<not> lt z x" if "z \<in> set ys" for z
    proof
      assume "lt z x"
      then have "lt z y \<or> lt y x" by (rule assms(2))
      with False that Cons.prems show False by auto
    qed
    with Cons.prems False show ?thesis by auto
  qed
qed simp

lemma stable_sort_by_sorted:
  assumes "\<And>a b. lt a b \<Longrightarrow> \<not> lt b a" and "\<And>a b c. lt a b \<Longrightarrow> lt a c \<or> lt c b"
  shows "sorted_wrt (\<lambda>a b. \<not> lt b a) (stable_sort_by lt xs)"
proof (induction xs)
  case (Cons x xs)
  have "sorted_wrt (\<lambda>a b. \<not> lt b a) (insert_by lt x (stable_sort_by lt xs))"
    by (rule insert_by_sorted [OF assms Cons.IH])
  then show ?case by (simp add: stable_sort_by_def)
qed (simp add: stable_sort_by_def)

lemma find_first_sorted:
  assumes "sorted_wrt R xs" and "find P xs = Some x" and "y \<in> set xs" and "P y"
  shows "y = x \<or> R x y"
  using assms by (induction xs) (auto split: if_splits)

definition satisfying ::
  "('c, 'v, 'u) resolver_library \<Rightarrow> registry_metadata \<Rightarrow> 'c \<Rightarrow> string \<Rightarrow> registry_version \<Rightarrow> 'v \<Rightarrow> bool" where
  "satisfying lib m c key pv v \<longleftrightarrow> (key, pv) \<in> set (rmVersions m) \<and> rlVersion lib key = Some v \<and> rlCheck lib c v"

lemma parsed_versions_iff:
  "(v, key, pv) \<in> set (parsed_versions lib m) \<longleftrightarrow> (key, pv) \<in> set (rmVersions m) \<and> rlVersion lib key = Some v"
  by (force simp: parsed_versions_def split: option.splits)

lemma selected_greatest:
  assumes "version_order lib" and "selectRegistryVersion lib m rng = Inr (pv, key)"
  shows "\<exists>c v. ParseConstraint (rlConstraint lib) (piSource (rmIdentity m)) rng = Some c \<and> satisfying lib m c key pv v \<and>
    (\<forall>key' pv' v'. satisfying lib m c key' pv' v' \<longrightarrow> \<not> rlGreater lib v' v)"
proof -
  let ?lt = "\<lambda>a b :: 'b \<times> string \<times> registry_version. rlGreater lib (fst a) (fst b)"
  let ?sorted = "stable_sort_by ?lt (parsed_versions lib m)"
  from assms(2) obtain c v where c: "ParseConstraint (rlConstraint lib) (piSource (rmIdentity m)) rng = Some c"
    and f: "find (\<lambda>(v, key, pv). rlCheck lib c v) ?sorted = Some (v, key, pv)"
    by (auto simp: selectRegistryVersion_def split: option.splits)
  have "(v, key, pv) \<in> set ?sorted" "rlCheck lib c v" using find_SomeD [OF f] by auto
  then have "satisfying lib m c key pv v" by (simp add: satisfying_def parsed_versions_iff)
  moreover have "\<not> rlGreater lib v' v" if s: "satisfying lib m c key' pv' v'" for key' pv' v'
  proof -
    have sorted: "sorted_wrt (\<lambda>a b. \<not> ?lt b a) ?sorted"
      using assms(1) by (intro stable_sort_by_sorted) (auto simp: version_order_def)
    have "(v', key', pv') \<in> set ?sorted" "rlCheck lib c v'" using s by (simp_all add: satisfying_def parsed_versions_iff)
    then have "(v', key', pv') = (v, key, pv) \<or> \<not> rlGreater lib v' v"
      using find_first_sorted [OF sorted f, of "(v', key', pv')"] by auto
    with assms(1) show ?thesis by (auto simp: version_order_def)
  qed
  ultimately show ?thesis using c by blast
qed

lemma selected_none:
  assumes "selectRegistryVersion lib m rng = Inl failure"
  shows "case ParseConstraint (rlConstraint lib) (piSource (rmIdentity m)) rng of None \<Rightarrow> failure = InvalidRange
    | Some c \<Rightarrow> failure = NoVersion \<and> (\<forall>key pv v. \<not> satisfying lib m c key pv v)"
proof (cases "ParseConstraint (rlConstraint lib) (piSource (rmIdentity m)) rng")
  case (Some c)
  then have "find (\<lambda>(v, key, pv). rlCheck lib c v)
      (stable_sort_by (\<lambda>a b. rlGreater lib (fst a) (fst b)) (parsed_versions lib m)) = None" and f: "failure = NoVersion"
    using assms by (auto simp: selectRegistryVersion_def split: option.splits)
  then have "\<forall>x \<in> set (parsed_versions lib m). \<not> (\<lambda>(v, key, pv). rlCheck lib c v) x"
    by (auto simp: find_None_iff)
  then have "\<forall>key pv v. \<not> satisfying lib m c key pv v" by (force simp: satisfying_def parsed_versions_iff)
  with f Some show ?thesis by simp
qed (use assms in \<open>simp add: selectRegistryVersion_def\<close>)

section \<open>What a request resolves to\<close>

text \<open>The specification: the version and the identity that a request stands for, by the metadata alone.\<close>

definition resolved_offer ::
  "('c, 'v, 'u) resolver_library \<Rightarrow> resolver_options \<Rightarrow> string \<Rightarrow> string \<Rightarrow> string \<Rightarrow> (registry_version \<times> string) option" where
  "resolved_offer lib opts source name rng =
     (case backend_of opts source of None \<Rightarrow> None
      | Some b \<Rightarrow>
          (case bkMetadata b name of Inl _ \<Rightarrow> None
           | Inr m \<Rightarrow>
               (case selectRegistryVersion lib m rng of Inl _ \<Rightarrow> None
                | Inr (pv, key) \<Rightarrow> Some (pv, identity_ID (rvIdentity pv) key))))"

definition resolves_to ::
  "('c, 'v, 'u) resolver_library \<Rightarrow> resolver_options \<Rightarrow> work_item \<Rightarrow> string \<Rightarrow> bool" where
  "resolves_to lib opts r pid \<longleftrightarrow> (\<exists>pv. resolved_offer lib opts (wiSource r) (wiName r) (wiRange r) = Some (pv, pid))"

lemma prepare_failed_reads [simp]:
  "ppFailure (prepare_failed code message details) \<noteq> None" "ppCancelled prepare_cancelled"
  by (simp_all add: prepare_failed_def prepare_cancelled_def)

lemma locked_reads:
  "lpID (locked_package opts b pid pv h) = pid" "lpHash (locked_package opts b pid pv h) = h"
  "lpIntegrity (locked_package opts b pid pv h) = adIntegrity (rvArtifact pv)"
  "lpVersion (locked_package opts b pid pv h) = rvVersion pv"
  by (simp_all add: locked_package_def Let_def split: prod.splits)

text \<open>The guards of the code, from the outcome.\<close>

lemma prepareSelectedPackage_guards:
  assumes p: "prepareSelectedPackage lib opts existing pid b pv = p" and ok: "ppFailure p = None" and live: "\<not> ppCancelled p"
  shows "\<exists>body. bkFetch b (rvArtifact pv) = Inr body \<and>
    (adIntegrity (rvArtifact pv) \<noteq> '''' \<longrightarrow> verifyIntegrity lib body (adIntegrity (rvArtifact pv)) = Some True) \<and>
    (spRequireIntegrity (roPolicy opts) \<longrightarrow> \<not> is_blank (adIntegrity (rvArtifact pv))) \<and>
    parseTarballPackageJSON lib body = Some (rvArtifactPackageName pv, rvVersion pv) \<and>
    (\<forall>q. existing pid = Some q \<longrightarrow> lpHash q = '''' \<or> lpHash q = ''sha256:'' @ hex_encode (rlSHA256 lib body)) \<and>
    p = nothing_prepared\<lparr>ppPackageID := pid, ppPackage := locked_package opts b pid pv (''sha256:'' @ hex_encode (rlSHA256 lib body)),
      ppTransitive := map (transitive_item pid) (rvDependencies pv), ppPeers := rvPeerRequirements pv\<rparr>"
proof -
  note def = p [unfolded prepareSelectedPackage_def Let_def]
  obtain body where body: "bkFetch b (rvArtifact pv) = Inr body"
    using def ok live by (cases "bkFetch b (rvArtifact pv)") (auto split: if_splits)
  note def = def [unfolded body sum.case]
  have g1: "\<not> (spRequireIntegrity (roPolicy opts) \<and> is_blank (adIntegrity (rvArtifact pv)))"
  proof
    assume c: "spRequireIntegrity (roPolicy opts) \<and> is_blank (adIntegrity (rvArtifact pv))"
    from def [unfolded if_P [OF c]] ok show False by auto
  qed
  note def = def [unfolded if_not_P [OF g1]]
  have g2: "\<not> (adIntegrity (rvArtifact pv) \<noteq> '''' \<and> verifyIntegrity lib body (adIntegrity (rvArtifact pv)) = None)"
  proof
    assume c: "adIntegrity (rvArtifact pv) \<noteq> '''' \<and> verifyIntegrity lib body (adIntegrity (rvArtifact pv)) = None"
    from def [unfolded if_P [OF c]] ok show False by auto
  qed
  note def = def [unfolded if_not_P [OF g2]]
  have g3: "\<not> (adIntegrity (rvArtifact pv) \<noteq> '''' \<and> verifyIntegrity lib body (adIntegrity (rvArtifact pv)) = Some False)"
  proof
    assume c: "adIntegrity (rvArtifact pv) \<noteq> '''' \<and> verifyIntegrity lib body (adIntegrity (rvArtifact pv)) = Some False"
    from def [unfolded if_P [OF c]] ok show False by auto
  qed
  note def = def [unfolded if_not_P [OF g3]]
  obtain name version where json: "parseTarballPackageJSON lib body = Some (name, version)"
    using def ok by (cases "parseTarballPackageJSON lib body") auto
  note def = def [unfolded json option.case prod.case]
  have g4: "\<not> (name \<noteq> rvArtifactPackageName pv \<or> version \<noteq> rvVersion pv)"
  proof
    assume c: "name \<noteq> rvArtifactPackageName pv \<or> version \<noteq> rvVersion pv"
    from def [unfolded if_P [OF c]] ok show False by auto
  qed
  note def = def [unfolded if_not_P [OF g4]]
  have v: "adIntegrity (rvArtifact pv) \<noteq> '''' \<longrightarrow> verifyIntegrity lib body (adIntegrity (rvArtifact pv)) = Some True"
    using g2 g3 by (cases "verifyIntegrity lib body (adIntegrity (rvArtifact pv))") auto
  have "(\<forall>q. existing pid = Some q \<longrightarrow> lpHash q = '''' \<or> lpHash q = ''sha256:'' @ hex_encode (rlSHA256 lib body)) \<and>
    p = nothing_prepared\<lparr>ppPackageID := pid, ppPackage := locked_package opts b pid pv (''sha256:'' @ hex_encode (rlSHA256 lib body)),
      ppTransitive := map (transitive_item pid) (rvDependencies pv), ppPeers := rvPeerRequirements pv\<rparr>"
    using def ok by (auto simp: nothing_prepared_def split: option.splits if_splits)
  with body v g1 g4 json show ?thesis by auto
qed

lemma prepareSelectedPackage_ok:
  assumes "prepareSelectedPackage lib opts existing pid b pv = p" and "ppFailure p = None" and "\<not> ppCancelled p"
  shows "ppPackageID p = pid \<and> lpID (ppPackage p) = pid \<and> ppTransitive p = map (transitive_item pid) (rvDependencies pv) \<and>
    ppPeers p = rvPeerRequirements pv"
  using prepareSelectedPackage_guards [OF assms] by (auto simp: nothing_prepared_def locked_reads)

lemma prepareGroup_ok:
  assumes "prepareGroup lib opts existing seen g = p" and "ppFailure p = None" and "\<not> ppCancelled p"
  shows "\<exists>pv. resolved_offer lib opts (wgSource g) (wgRangeName g) (wgRange g) = Some (pv, ppPackageID p) \<and>
    (ppPackageID p \<notin> set seen \<longrightarrow> lpID (ppPackage p) = ppPackageID p \<and>
       ppTransitive p = map (transitive_item (ppPackageID p)) (rvDependencies pv) \<and> ppPeers p = rvPeerRequirements pv)"
proof -
  from assms obtain b m pv key where b: "backend_of opts (wgSource g) = Some b" "bkMetadata b (wgRangeName g) = Inr m"
    "selectRegistryVersion lib m (wgRange g) = Inr (pv, key)" and
    p: "p = (if identity_ID (rvIdentity pv) key \<in> set seen then nothing_prepared\<lparr>ppPackageID := identity_ID (rvIdentity pv) key\<rparr>
         else prepareSelectedPackage lib opts existing (identity_ID (rvIdentity pv) key) b pv)"
    by (auto simp: prepareGroup_def prepare_failed_def prepare_cancelled_def Let_def
        split: if_splits option.splits sum.splits prod.splits)
  let ?pid = "identity_ID (rvIdentity pv) key"
  have r: "resolved_offer lib opts (wgSource g) (wgRangeName g) (wgRange g) = Some (pv, ?pid)"
    using b by (simp add: resolved_offer_def)
  show ?thesis
  proof (cases "?pid \<in> set seen")
    case True
    with p r show ?thesis by (intro exI [of _ pv]) simp
  next
    case False
    with p have "prepareSelectedPackage lib opts existing ?pid b pv = p" by simp
    from prepareSelectedPackage_ok [OF this assms(2,3)] r show ?thesis by (intro exI [of _ pv]) simp
  qed
qed

section \<open>Pruning\<close>

text \<open>The specification: what edges lead to, from outside the packages.\<close>

inductive_set kept_packages :: "string set \<Rightarrow> lock_edge set \<Rightarrow> string set" for ids es where
  root: "e \<in> es \<Longrightarrow> leFrom e \<notin> ids \<Longrightarrow> leTo e \<in> ids \<Longrightarrow> leTo e \<in> kept_packages ids es"
| step: "x \<in> kept_packages ids es \<Longrightarrow> e \<in> es \<Longrightarrow> leFrom e = x \<Longrightarrow> leTo e \<in> ids \<Longrightarrow> leTo e \<in> kept_packages ids es"

lemma kept_packages_ids: "x \<in> kept_packages ids es \<Longrightarrow> x \<in> ids"
  by (induction rule: kept_packages.induct) auto

lemma mark_edge_fold:
  "\<exists>new. foldl (mark_edge wanted ids) (R, F) es = (R @ new, F @ new) \<and> distinct new \<and>
     set new = {leTo e |e. e \<in> set es \<and> wanted e \<and> leTo e \<in> set ids} - set R"
proof (induction es arbitrary: R F)
  case (Cons e es)
  show ?case
  proof (cases "wanted e \<and> leTo e \<in> set ids \<and> leTo e \<notin> set R")
    case True
    obtain new where "foldl (mark_edge wanted ids) (R @ [leTo e], F @ [leTo e]) es = ((R @ [leTo e]) @ new, (F @ [leTo e]) @ new)"
      "distinct new" "set new = {leTo e |e. e \<in> set es \<and> wanted e \<and> leTo e \<in> set ids} - set (R @ [leTo e])"
      using Cons by blast
    moreover from True have "mark_edge wanted ids (R, F) e = (R @ [leTo e], F @ [leTo e])" by (simp add: mark_edge_def)
    ultimately show ?thesis using True by (intro exI [of _ "leTo e # new"]) auto
  next
    case False
    obtain new where "foldl (mark_edge wanted ids) (R, F) es = (R @ new, F @ new)"
      "distinct new" "set new = {leTo e |e. e \<in> set es \<and> wanted e \<and> leTo e \<in> set ids} - set R"
      using Cons by blast
    moreover from False have "mark_edge wanted ids (R, F) e = (R, F)" by (simp add: mark_edge_def)
    ultimately show ?thesis using False by (intro exI [of _ new]) auto
  qed
qed simp

text \<open>Every package enters the queue once, so the number of packages is fuel enough.\<close>

lemma mark_packages_exact:
  assumes "distinct R" and "set R \<subseteq> set ids" and "set F \<subseteq> set R"
    and "card (set ids) - card (set R) + length F \<le> fuel"
    and "set R \<subseteq> kept_packages (set ids) (set es)"
    and "\<And>e. e \<in> set es \<Longrightarrow> leTo e \<in> set ids \<Longrightarrow> leFrom e \<notin> set ids \<or> leFrom e \<in> set R - set F \<Longrightarrow> leTo e \<in> set R"
  shows "\<exists>R'. mark_packages fuel ids es (R, F) = Some R' \<and> set R' = kept_packages (set ids) (set es)"
  using assms
proof (induction fuel ids es "(R, F)" arbitrary: R F rule: mark_packages.induct)
  case (1 fuel ids es R)
  have "x \<in> set R" if "x \<in> kept_packages (set ids) (set es)" for x
    using that by (induction rule: kept_packages.induct) (use 1 in auto)
  with 1 show ?case by auto
next
  case (2 ids es R x F)
  then show ?case by simp
next
  case (3 fuel ids es R x F)
  obtain new where new: "foldl (mark_edge (\<lambda>e. leFrom e = x) ids) (R, F) es = (R @ new, F @ new)" "distinct new"
    "set new = {leTo e |e. e \<in> set es \<and> leFrom e = x \<and> leTo e \<in> set ids} - set R"
    using mark_edge_fold [of "\<lambda>e. leFrom e = x" ids R F es] by blast
  have x: "x \<in> kept_packages (set ids) (set es)" using 3 by auto
  have sub: "set new \<subseteq> kept_packages (set ids) (set es)"
    using new(3) kept_packages.step [OF x] by auto
  have d: "distinct (R @ new)" using 3 new by auto
  have ids: "set (R @ new) \<subseteq> set ids" using 3 new by auto
  have "card (set (R @ new)) = card (set R) + length new"
    using d by (metis distinct_append distinct_card length_append)
  moreover have "card (set (R @ new)) \<le> card (set ids)" using ids by (intro card_mono) auto
  ultimately have c1: "card (set ids) - card (set (R @ new)) + length (F @ new) \<le> fuel" using 3(5) by simp
  have c2: "set (F @ new) \<subseteq> set (R @ new)" using 3 by auto
  have c3: "set (R @ new) \<subseteq> kept_packages (set ids) (set es)" using 3 sub by auto
  have c4: "leTo e \<in> set (R @ new)"
    if "e \<in> set es" "leTo e \<in> set ids" "leFrom e \<notin> set ids \<or> leFrom e \<in> set (R @ new) - set (F @ new)" for e
  proof (cases "leFrom e = x")
    case True
    with that new(3) show ?thesis by auto
  next
    case False
    with that have "leFrom e \<notin> set ids \<or> leFrom e \<in> set R - set (x # F)" by auto
    with 3(7) that show ?thesis by auto
  qed
  have "\<exists>R'. mark_packages fuel ids es (R @ new, F @ new) = Some R' \<and> set R' = kept_packages (set ids) (set es)"
    by (rule 3(1) [OF new(1) d ids c2 c1 c3]) (rule c4)
  then show ?case by (simp add: new(1))
qed

lemma reachable_packages_exact:
  "\<exists>R. reachable_packages ids es = Some R \<and> set R = kept_packages (set ids) (set es)"
proof -
  obtain new where new: "foldl (mark_edge (\<lambda>e. leFrom e \<notin> set ids) ids) ([], []) es = (new, new)" "distinct new"
    "set new = {leTo e |e. e \<in> set es \<and> leFrom e \<notin> set ids \<and> leTo e \<in> set ids}"
    using mark_edge_fold [of "\<lambda>e. leFrom e \<notin> set ids" ids "[]" "[]" es] by auto
  have "card (set new) \<le> card (set ids)" using new(3) by (intro card_mono) auto
  moreover have "card (set ids) \<le> length ids" by (rule card_length)
  ultimately have fuel: "card (set ids) - card (set new) + length new \<le> length ids"
    using distinct_card [OF new(2)] by simp
  have "\<exists>R'. mark_packages (length ids) ids es (new, new) = Some R' \<and> set R' = kept_packages (set ids) (set es)"
    using new fuel by (intro mark_packages_exact) (auto intro: kept_packages.root)
  then show ?thesis by (simp add: reachable_packages_def new(1))
qed

lemma pruned:
  "\<exists>st'. pruneUnreachablePackages st = Some st' \<and>
     rsPackages st' = filter (\<lambda>p. lpID p \<in> kept_packages (lpID ` set (rsPackages st)) (set (rsEdges st))) (rsPackages st) \<and>
     rsEdges st' = filter (\<lambda>e. leTo e \<in> kept_packages (lpID ` set (rsPackages st)) (set (rsEdges st)) \<and>
       (leFrom e \<in> lpID ` set (rsPackages st) \<longrightarrow> leFrom e \<in> kept_packages (lpID ` set (rsPackages st)) (set (rsEdges st))))
       (rsEdges st) \<and>
     rsDiags st' = rsDiags st \<and> rsFacts st' = rsFacts st \<and> rsSeen st' = rsSeen st"
  using reachable_packages_exact [of "map lpID (rsPackages st)" "rsEdges st"]
  by (auto simp: pruneUnreachablePackages_def Let_def)

end
