(* ===== verification/Resolver_Groups.thy ===== *)
theory Resolver_Groups
  imports Resolver_Props
begin

text \<open>
  The groups of a frontier, and what the workers prepare of them: when no required group fails every
  request finds the package it resolves to, whatever the schedule; when one fails the frontier is fatal
  under every schedule.
\<close>

section \<open>Keys\<close>

text \<open>Sources and names without a bar: the key of a group then says which package and range it stands for.\<close>

definition item_plain :: "work_item \<Rightarrow> bool" where
  "item_plain r \<longleftrightarrow> CHR ''|'' \<notin> set (wiSource r) \<and> CHR ''|'' \<notin> set (wiName r)"

lemma first_bar: "c \<notin> set a \<Longrightarrow> c \<notin> set b \<Longrightarrow> a @ c # x = b @ c # y \<Longrightarrow> a = b \<and> x = y"
  by (simp add: append_eq_append_conv2) (auto simp: append_eq_Cons_conv Cons_eq_append_conv)

lemma group_key_inj:
  assumes "item_plain r" and "item_plain r'" and "item_group_key r = item_group_key r'"
  shows "wiSource r = wiSource r' \<and> wiName r = wiName r' \<and> wiRange r = wiRange r'"
proof -
  have "wiSource r @ CHR ''|'' # wiName r @ CHR ''|'' # wiRange r = wiSource r' @ CHR ''|'' # wiName r' @ CHR ''|'' # wiRange r'"
    using assms(3) by (simp add: item_group_key_def packageWorkGroupKey_def)
  then have 1: "wiSource r = wiSource r'" "wiName r @ CHR ''|'' # wiRange r = wiName r' @ CHR ''|'' # wiRange r'"
    using first_bar [of "CHR ''|''" "wiSource r" "wiSource r'"] assms(1,2) by (auto simp: item_plain_def)
  then show ?thesis
    using first_bar [OF _ _ 1(2)] assms(1,2) by (auto simp: item_plain_def)
qed

section \<open>Groups\<close>

definition group_for :: "work_item \<Rightarrow> work_group \<Rightarrow> bool" where
  "group_for r g \<longleftrightarrow> wgKey g = item_group_key r \<and> wgSource g = wiSource r \<and> wgRangeName g = wiName r \<and> wgRange g = wiRange r"

definition groups_of :: "work_item list \<Rightarrow> work_group list \<Rightarrow> bool" where
  "groups_of rs groups \<longleftrightarrow> distinct (map wgKey groups) \<and>
     (\<forall>g \<in> set groups. \<exists>r \<in> set rs. group_for r g) \<and>
     (\<forall>g \<in> set groups. wgHasRequired g \<longleftrightarrow> (\<exists>r \<in> set rs. item_group_key r = wgKey g \<and> \<not> wiOptional r)) \<and>
     (\<forall>r \<in> set rs. \<exists>g \<in> set groups. wgKey g = item_group_key r)"

lemma groups_of_add:
  assumes "groups_of rs groups"
  shows "groups_of (rs @ [r]) (add_to_group groups r)"
proof -
  define gs where "gs = (if list_ex (\<lambda>g. wgKey g = item_group_key r) groups then groups
    else groups @ [\<lparr>wgKey = item_group_key r, wgSource = wiSource r, wgRangeName = wiName r, wgRange = wiRange r,
           wgHasRequired = False\<rparr>])"
  have add: "add_to_group groups r = (if wiOptional r then gs
    else map (\<lambda>g. if wgKey g = item_group_key r then g\<lparr>wgHasRequired := True\<rparr> else g) gs)"
    by (simp add: add_to_group_def gs_def Let_def)
  have d: "distinct (map wgKey gs)" using assms by (auto simp: gs_def groups_of_def list_ex_iff)
  have keys: "map wgKey (add_to_group groups r) = map wgKey gs"
    by (simp add: add)
  have from_rs: "\<exists>r' \<in> set (rs @ [r]). group_for r' g" if "g \<in> set gs" for g
    using that assms by (auto simp: gs_def groups_of_def group_for_def split: if_splits)
  have req: "wgHasRequired g \<longleftrightarrow> (\<exists>r' \<in> set rs. item_group_key r' = wgKey g \<and> \<not> wiOptional r')" if "g \<in> set gs" for g
    using that assms by (fastforce simp: gs_def groups_of_def list_ex_iff split: if_splits)
  have all: "\<exists>g \<in> set gs. wgKey g = item_group_key r'" if "r' \<in> set (rs @ [r])" for r'
    using that assms by (auto simp: gs_def groups_of_def list_ex_iff)
  show ?thesis
  proof (cases "wiOptional r")
    case True
    then show ?thesis using d from_rs req all unfolding add by (auto simp: groups_of_def)
  next
    case False
    have f1: "\<exists>r' \<in> set (rs @ [r]). group_for r' g" if g: "g \<in> set (add_to_group groups r)" for g
    proof -
      from g False obtain g0 where "g0 \<in> set gs" "g = g0 \<or> g = g0\<lparr>wgHasRequired := True\<rparr>" by (auto simp: add split: if_splits)
      with from_rs [of g0] show ?thesis by (auto simp: group_for_def)
    qed
    have f2: "wgHasRequired g \<longleftrightarrow> (\<exists>r' \<in> set (rs @ [r]). item_group_key r' = wgKey g \<and> \<not> wiOptional r')"
      if g: "g \<in> set (add_to_group groups r)" for g
    proof -
      from g False obtain g0 where g0: "g0 \<in> set gs"
        "g = (if wgKey g0 = item_group_key r then g0\<lparr>wgHasRequired := True\<rparr> else g0)" by (auto simp: add)
      show ?thesis
      proof (cases "wgKey g0 = item_group_key r")
        case True
        with g0(2) False show ?thesis by simp
      next
        case other: False
        with g0(2) have "g = g0" by simp
        with req [OF g0(1)] other show ?thesis by auto
      qed
    qed
    have f3: "\<exists>g \<in> set (add_to_group groups r). wgKey g = item_group_key r'" if "r' \<in> set (rs @ [r])" for r'
      using all [OF that] keys by (metis (no_types) image_iff list.set_map)
    have f4: "distinct (map wgKey (add_to_group groups r))" by (simp only: keys d)
    show ?thesis
      unfolding groups_of_def by (intro conjI ballI; (rule f4 | rule f1 f2 f3, assumption))
  qed
qed

lemma groupWorkItems_groups: "groups_of rs (groupWorkItems rs)"
proof (induction rs rule: rev_induct)
  case Nil
  show ?case by (simp add: groups_of_def groupWorkItems_def)
next
  case (snoc r rs)
  then show ?case using groups_of_add [OF snoc] by (simp add: groupWorkItems_def)
qed

section \<open>What is prepared\<close>

definition never_cancelled :: "resolver_options \<Rightarrow> bool" where
  "never_cancelled opts \<longleftrightarrow>
     (\<forall>(source, b) \<in> set (roBackends opts).
        (\<forall>name e. bkMetadata b name = Inl e \<longrightarrow> \<not> errorsFromCancellation e) \<and>
        (\<forall>a e. bkFetch b a = Inl e \<longrightarrow> \<not> errorsFromCancellation e))"

lemma not_cancelled_reads [simp]: "\<not> ppCancelled (prepare_failed code message details)"
  by (simp add: prepare_failed_def nothing_prepared_def)

lemma prepareGroup_live:
  assumes "never_cancelled opts"
  shows "\<not> ppCancelled (prepareGroup lib opts existing seen g)"
proof (cases "backend_of opts (wgSource g)")
  case None
  then show ?thesis by (simp add: prepareGroup_def Let_def)
next
  case (Some b)
  then have b: "(wgSource g, b) \<in> set (roBackends opts)" by (simp add: backend_of_def map_of_SomeD)
  have fetch: "\<not> ppCancelled (prepareSelectedPackage lib opts existing pid b pv)" for pid pv
  proof (cases "bkFetch b (rvArtifact pv)")
    case (Inl e)
    then have "\<not> errorsFromCancellation e" using assms b by (auto simp: never_cancelled_def)
    with Inl show ?thesis by (simp add: prepareSelectedPackage_def Let_def)
  next
    case (Inr body)
    then show ?thesis
      by (simp add: prepareSelectedPackage_def Let_def nothing_prepared_def split: option.split)
  qed
  have "\<not> errorsFromCancellation e" if "bkMetadata b (wgRangeName g) = Inl e" for e
    using that assms b by (auto simp: never_cancelled_def)
  then show ?thesis
    using fetch by (simp add: prepareGroup_def Let_def Some nothing_prepared_def split: sum.split prod.split)
qed

definition group_fails ::
  "('c, 'v, 'u) resolver_library \<Rightarrow> resolver_options \<Rightarrow> (string \<rightharpoonup> lock_package) \<Rightarrow> string list \<Rightarrow> work_group \<Rightarrow> bool" where
  "group_fails lib opts existing seen g \<longleftrightarrow> wgHasRequired g \<and> ppFailure (prepareGroup lib opts existing seen g) \<noteq> None"

definition all_prepared ::
  "('c, 'v, 'u) resolver_library \<Rightarrow> resolver_options \<Rightarrow> (string \<rightharpoonup> lock_package) \<Rightarrow> string list \<Rightarrow> work_group list
     \<Rightarrow> (string \<times> prepared_registry_package) list" where
  "all_prepared lib opts existing seen groups = map (\<lambda>g. (wgKey g, prepareGroup lib opts existing seen g)) groups"

lemma prepareGroups_prefix:
  "\<exists>n. prepareGroups lib opts existing sched st width groups = take n (all_prepared lib opts existing (rsSeen st) groups) \<and>
     (n = length groups \<or> n = handed_out (sched (rsFrontierSeq st)) (map (group_fails lib opts existing (rsSeen st)) groups))"
proof -
  have m: "map (\<lambda>(g, p). (wgKey g, p)) (take n (map (\<lambda>g. (g, prepareGroup lib opts existing (rsSeen st) g)) groups)) =
      take n (all_prepared lib opts existing (rsSeen st) groups)" for n
    by (simp add: all_prepared_def take_map)
  have f: "map required_failure (map (\<lambda>g. (g, prepareGroup lib opts existing (rsSeen st) g)) groups) =
      map (group_fails lib opts existing (rsSeen st)) groups"
    by (simp add: required_failure_def group_fails_def conj_commute)
  show ?thesis
    unfolding prepareGroups_def Let_def m f by (auto split: if_splits)
qed

lemma prepareGroups_all:
  assumes "\<forall>g \<in> set groups. \<not> group_fails lib opts existing (rsSeen st) g"
  shows "prepareGroups lib opts existing sched st width groups = all_prepared lib opts existing (rsSeen st) groups"
proof -
  have "handed_out n (map (group_fails lib opts existing (rsSeen st)) groups) = length groups" for n
    using assms by (auto simp: handed_out_def list_ex_iff)
  then show ?thesis
    using prepareGroups_prefix [of lib opts existing sched st width groups] by (auto simp: all_prepared_def)
qed

lemma prepareGroups_failure:
  assumes "\<exists>g \<in> set groups. group_fails lib opts existing (rsSeen st) g" and "distinct (map wgKey groups)"
  shows "\<exists>g \<in> set groups. group_fails lib opts existing (rsSeen st) g \<and>
    map_of (prepareGroups lib opts existing sched st width groups) (wgKey g) = Some (prepareGroup lib opts existing (rsSeen st) g)"
proof -
  let ?fails = "map (group_fails lib opts existing (rsSeen st)) groups"
  obtain n where n: "prepareGroups lib opts existing sched st width groups = take n (all_prepared lib opts existing (rsSeen st) groups)"
    "n = length groups \<or> n = handed_out (sched (rsFrontierSeq st)) ?fails"
    using prepareGroups_prefix by blast
  define k where "k = length (takeWhile Not ?fails)"
  have ex: "list_ex (\<lambda>b. b) ?fails" using assms(1) by (auto simp: list_ex_iff)
  have k: "k < length groups" "group_fails lib opts existing (rsSeen st) (groups ! k)"
  proof -
    show lt: "k < length groups"
      using ex unfolding k_def
      by (metis (no_types, lifting) length_map length_takeWhile_le list_ex_iff nat_less_le takeWhile_eq_all_conv takeWhile_eq_take take_all_iff)
    have "\<not> Not (?fails ! k)" unfolding k_def by (rule nth_length_takeWhile) (use lt in \<open>simp add: k_def\<close>)
    with lt show "group_fails lib opts existing (rsSeen st) (groups ! k)" by simp
  qed
  have "k < n" using n(2) k(1) ex by (auto simp: handed_out_def k_def)
  then have "(wgKey (groups ! k), prepareGroup lib opts existing (rsSeen st) (groups ! k)) \<in>
      set (take n (all_prepared lib opts existing (rsSeen st) groups))"
    using k(1) by (auto simp: in_set_conv_nth all_prepared_def intro!: exI [of _ k])
  moreover have "distinct (map fst (take n (all_prepared lib opts existing (rsSeen st) groups)))"
    using assms(2) by (simp add: all_prepared_def take_map [symmetric] distinct_take comp_def)
  ultimately show ?thesis
    using k n(1) by (intro bexI [of _ "groups ! k"]) (simp_all add: map_of_eq_Some_iff)
qed

section \<open>One request after the other\<close>

lemma peers_reads [simp]:
  "rsPackages (appendPeerRequirements pid peers src st) = rsPackages st"
  "rsEdges (appendPeerRequirements pid peers src st) = rsEdges st"
  "rsSeen (appendPeerRequirements pid peers src st) = rsSeen st"
  "rsDiags (appendPeerRequirements pid peers src st) = rsDiags st"
  "rsSlots (appendPeerRequirements pid peers src st) = rsSlots st"
  "rsFrontierSeq (appendPeerRequirements pid peers src st) = rsFrontierSeq st"
proof -
  have "rsPackages (foldl (\<lambda>s peer. add_fact (\<lambda>order. peer_requirement pid src order peer) s) st peers) = rsPackages st \<and>
    rsEdges (foldl (\<lambda>s peer. add_fact (\<lambda>order. peer_requirement pid src order peer) s) st peers) = rsEdges st \<and>
    rsSeen (foldl (\<lambda>s peer. add_fact (\<lambda>order. peer_requirement pid src order peer) s) st peers) = rsSeen st \<and>
    rsDiags (foldl (\<lambda>s peer. add_fact (\<lambda>order. peer_requirement pid src order peer) s) st peers) = rsDiags st \<and>
    rsSlots (foldl (\<lambda>s peer. add_fact (\<lambda>order. peer_requirement pid src order peer) s) st peers) = rsSlots st \<and>
    rsFrontierSeq (foldl (\<lambda>s peer. add_fact (\<lambda>order. peer_requirement pid src order peer) s) st peers) = rsFrontierSeq st"
    by (induction peers arbitrary: st) (auto simp: add_fact_def)
  then show "rsPackages (appendPeerRequirements pid peers src st) = rsPackages st"
    "rsEdges (appendPeerRequirements pid peers src st) = rsEdges st"
    "rsSeen (appendPeerRequirements pid peers src st) = rsSeen st"
    "rsDiags (appendPeerRequirements pid peers src st) = rsDiags st"
    "rsSlots (appendPeerRequirements pid peers src st) = rsSlots st"
    "rsFrontierSeq (appendPeerRequirements pid peers src st) = rsFrontierSeq st"
    by (simp_all add: appendPeerRequirements_def)
qed

lemma link_reads [simp]:
  "rsPackages (link_request r p st) = rsPackages st" "rsSeen (link_request r p st) = rsSeen st"
  "rsDiags (link_request r p st) = rsDiags st" "rsFrontierSeq (link_request r p st) = rsFrontierSeq st"
  by (simp_all add: link_request_def removeEdgesFrom_def Let_def)

lemma link_edges:
  "rsEdges (link_request r p st) =
     (if has_prefix (wiFrom r) ''workspace:peer:'' then filter (\<lambda>e. leFrom e \<noteq> wiFrom r) (rsEdges st) else rsEdges st)
       @ [edge_of r p]"
  by (simp add: link_request_def removeEdgesFrom_def Let_def)

lemma commit_reads [simp]:
  "rsPackages (commit_package p st) = rsPackages st @ [ppPackage p]" "rsSeen (commit_package p st) = rsSeen st @ [ppPackageID p]"
  "rsDiags (commit_package p st) = rsDiags st" "rsEdges (commit_package p st) = rsEdges st"
  "rsFrontierSeq (commit_package p st) = rsFrontierSeq st"
  by (simp_all add: commit_package_def)

text \<open>Errors stay, and so does the verdict.\<close>

lemma errors_append [simp]: "resolve_has_errors (ds @ ds') \<longleftrightarrow> resolve_has_errors ds \<or> resolve_has_errors ds'"
  by (simp add: resolve_has_errors_def)

lemma request_errors_stay:
  assumes "resolve_request prepared (st, next, fatal) r = (st', next', fatal')"
  shows "(resolve_has_errors (rsDiags st) \<longrightarrow> resolve_has_errors (rsDiags st')) \<and> (fatal \<longrightarrow> fatal')"
  using assms by (auto simp: resolve_request_def Let_def report_diag_def split: option.splits if_splits)

lemma requests_errors_stay:
  assumes "foldl (resolve_request prepared) (st, next, fatal) rs = (st', next', fatal')"
  shows "(resolve_has_errors (rsDiags st) \<longrightarrow> resolve_has_errors (rsDiags st')) \<and> (fatal \<longrightarrow> fatal')"
  using assms
proof (induction rs arbitrary: st "next" fatal)
  case (Cons r rs)
  obtain st1 next1 fatal1 where 1: "resolve_request prepared (st, next, fatal) r = (st1, next1, fatal1)"
    by (cases "resolve_request prepared (st, next, fatal) r")
  with Cons.prems have "foldl (resolve_request prepared) (st1, next1, fatal1) rs = (st', next', fatal')" by simp
  from Cons.IH [OF this] request_errors_stay [OF 1] show ?case by blast
qed simp

lemma requests_failure:
  assumes "foldl (resolve_request prepared) (st, next, fatal) rs = (st', next', fatal')"
    and "r \<in> set rs" "\<not> wiOptional r" "map_of prepared (item_group_key r) = Some p" "\<not> ppCancelled p" "ppFailure p = Some f"
  shows "fatal' \<and> resolve_has_errors (rsDiags st')"
  using assms(1,2)
proof (induction rs arbitrary: st "next" fatal)
  case (Cons q rs)
  obtain st1 next1 fatal1 where 1: "resolve_request prepared (st, next, fatal) q = (st1, next1, fatal1)"
    by (cases "resolve_request prepared (st, next, fatal) q")
  with Cons.prems have 2: "foldl (resolve_request prepared) (st1, next1, fatal1) rs = (st', next', fatal')" by simp
  show ?case
  proof (cases "q = r")
    case True
    with 1 assms(3-6) have "fatal1" "resolve_has_errors (rsDiags st1)"
      by (auto simp: resolve_request_def report_diag_def buildResolveDiagnostic_def errD_def resolve_has_errors_def)
    with requests_errors_stay [OF 2] show ?thesis by blast
  next
    case False
    with Cons.prems Cons.IH [OF 2] show ?thesis by simp
  qed
qed simp

end
