(* ===== verification/Resolver_Schedule.thy ===== *)
theory Resolver_Schedule
  imports Resolver_Groups
begin

text \<open>
  The schedule of the workers does not matter: two runs that differ only in it give the same result,
  or both report errors.
\<close>

lemma frontier_schedules:
  assumes "never_cancelled opts"
  shows "(\<forall>sched sched'. resolveFrontier lib opts existing sched st fr = resolveFrontier lib opts existing sched' st fr) \<or>
    (\<forall>sched. case resolveFrontier lib opts existing sched st fr of (st', next, fatal) \<Rightarrow>
       fatal \<and> resolve_has_errors (rsDiags st'))"
proof (cases "normalizeWorkItems fr = [] \<or> find (\<lambda>r. \<not> Allows (roPolicy opts) (wiSource r)) (normalizeWorkItems fr) \<noteq> None")
  case True
  then show ?thesis by (auto simp: resolveFrontier_def Let_def)
next
  case False
  let ?rs = "normalizeWorkItems fr"
  let ?gs = "groupWorkItems ?rs"
  have run: "resolveFrontier lib opts existing sched st fr =
      foldl (resolve_request (prepareGroups lib opts existing sched st (length ?rs) ?gs))
        (st\<lparr>rsFrontierSeq := rsFrontierSeq st + 1\<rparr>, [], False) ?rs" for sched
    using False by (simp add: resolveFrontier_def Let_def)
  have groups: "groups_of ?rs ?gs" by (rule groupWorkItems_groups)
  show ?thesis
  proof (cases "\<exists>g \<in> set ?gs. group_fails lib opts existing (rsSeen st) g")
    case False
    then show ?thesis by (simp add: run prepareGroups_all)
  next
    case True
    have distinct_keys: "distinct (map wgKey ?gs)" using groups by (simp add: groups_of_def)
    have "fatal \<and> resolve_has_errors (rsDiags st')"
      if res: "resolveFrontier lib opts existing sched st fr = (st', next, fatal)" for sched st' "next" fatal
    proof -
      obtain g where g: "g \<in> set ?gs" "group_fails lib opts existing (rsSeen st) g"
        "map_of (prepareGroups lib opts existing sched st (length ?rs) ?gs) (wgKey g) = Some (prepareGroup lib opts existing (rsSeen st) g)"
        using prepareGroups_failure [OF True distinct_keys] by blast
      from g(1,2) groups obtain r where r: "r \<in> set ?rs" "item_group_key r = wgKey g" "\<not> wiOptional r"
        by (auto simp: groups_of_def group_fails_def)
      from g(2) obtain f where f: "ppFailure (prepareGroup lib opts existing (rsSeen st) g) = Some f"
        by (auto simp: group_fails_def)
      show ?thesis
        using requests_failure [OF res [unfolded run] r(1,3) _ prepareGroup_live [OF assms] f] g(3) r(2) by simp
    qed
    then show ?thesis by (auto split: prod.splits)
  qed
qed

lemma frontiers_schedules:
  assumes "never_cancelled opts"
  shows "run_frontiers lib opts existing sched fuel st fr = run_frontiers lib opts existing sched' fuel st fr \<or>
    (\<exists>a b. run_frontiers lib opts existing sched fuel st fr = Some (a, True) \<and> resolve_has_errors (rsDiags a) \<and>
       run_frontiers lib opts existing sched' fuel st fr = Some (b, True) \<and> resolve_has_errors (rsDiags b))"
proof (induction fuel arbitrary: st fr)
  case (Suc fuel)
  show ?case
  proof (cases "fr = []")
    case False
    from frontier_schedules [OF assms, of lib existing st fr] show ?thesis
    proof
      assume same: "\<forall>sched sched'. resolveFrontier lib opts existing sched st fr = resolveFrontier lib opts existing sched' st fr"
      obtain st1 next1 fatal1 where 1: "resolveFrontier lib opts existing sched st fr = (st1, next1, fatal1)"
        by (cases "resolveFrontier lib opts existing sched st fr")
      then have "resolveFrontier lib opts existing sched' st fr = (st1, next1, fatal1)" using same by metis
      with 1 False Suc show ?thesis by simp
    next
      assume bad: "\<forall>sched. case resolveFrontier lib opts existing sched st fr of (st', next, fatal) \<Rightarrow>
        fatal \<and> resolve_has_errors (rsDiags st')"
      have "\<exists>a. run_frontiers lib opts existing s (Suc fuel) st fr = Some (a, True) \<and> resolve_has_errors (rsDiags a)" for s
        using bad [rule_format, of s] False by (auto split: prod.splits)
      then show ?thesis by blast
    qed
  qed simp
qed simp

lemma peers_schedules:
  assumes "never_cancelled opts"
  shows "resolvePeerRequirements lib opts existing sched rounds fuel i st = resolvePeerRequirements lib opts existing sched' rounds fuel i st \<or>
    (\<exists>a b. resolvePeerRequirements lib opts existing sched rounds fuel i st = Some a \<and> resolve_has_errors (rsDiags a) \<and>
       resolvePeerRequirements lib opts existing sched' rounds fuel i st = Some b \<and> resolve_has_errors (rsDiags b))"
proof (induction rounds arbitrary: i st)
  case (Suc rounds)
  show ?case
  proof (cases "length (rsFacts st) + 1 < i \<or> peer_items lib st = []")
    case False
    from frontiers_schedules [OF assms, of lib existing sched fuel st "peer_items lib st" sched'] show ?thesis
    proof
      assume "run_frontiers lib opts existing sched fuel st (peer_items lib st) =
        run_frontiers lib opts existing sched' fuel st (peer_items lib st)"
      with False Suc show ?thesis by (auto split: option.splits prod.splits)
    next
      assume "\<exists>a b. run_frontiers lib opts existing sched fuel st (peer_items lib st) = Some (a, True) \<and> resolve_has_errors (rsDiags a) \<and>
         run_frontiers lib opts existing sched' fuel st (peer_items lib st) = Some (b, True) \<and> resolve_has_errors (rsDiags b)"
      with False show ?thesis by auto
    qed
  qed auto
qed simp

text \<open>The rest of a run keeps its diagnostics.\<close>

lemma settled:
  "\<exists>st'. map_option recomputeSelectedSlots (pruneUnreachablePackages (reconcilePeerEnvironmentEdges lib st)) = Some st' \<and>
     rsDiags st' = rsDiags st"
  using pruned [of "reconcilePeerEnvironmentEdges lib st"]
  by (auto simp: reconcilePeerEnvironmentEdges_def recomputeSelectedSlots_def Let_def)

lemma graph_schedules:
  assumes "never_cancelled opts"
  shows "resolve_graph lib opts world old sched fuel g = resolve_graph lib opts world old sched' fuel g \<or>
    (\<exists>a b. resolve_graph lib opts world old sched fuel g = Some a \<and> resolve_has_errors (rsDiags a) \<and>
       resolve_graph lib opts world old sched' fuel g = Some b \<and> resolve_has_errors (rsDiags b))"
proof -
  let ?ex = "lockPackagesByID old"
  obtain st fr where e: "enqueue_workspace lib opts world g = (st, fr)" by (cases "enqueue_workspace lib opts world g")
  let ?fr = "applyRequirementControllers (rsFacts st) fr"
  define body where "body = (\<lambda>s (r :: (resolver_state \<times> bool) option). case r of None \<Rightarrow> None
      | Some (st1, _) \<Rightarrow> if resolve_has_errors (rsDiags st1) then Some st1 else stabilizePeerRequirements lib opts ?ex s fuel st1)"
  have g: "resolve_graph lib opts world old s fuel g = body s (run_frontiers lib opts ?ex s fuel st ?fr)" for s
    by (simp add: resolve_graph_def Let_def e body_def)
  from frontiers_schedules [OF assms, of lib ?ex sched fuel st ?fr sched'] show ?thesis
  proof
    assume same: "run_frontiers lib opts ?ex sched fuel st ?fr = run_frontiers lib opts ?ex sched' fuel st ?fr"
    show ?thesis
    proof (cases "run_frontiers lib opts ?ex sched fuel st ?fr")
      case None
      then show ?thesis unfolding g same [symmetric] by (simp add: body_def)
    next
      case (Some r)
      obtain st1 f where r: "r = (st1, f)" by (cases r)
      show ?thesis
      proof (cases "resolve_has_errors (rsDiags st1)")
        case True
        then show ?thesis unfolding g same [symmetric] Some r by (simp add: body_def)
      next
        case False
        have "stabilizePeerRequirements lib opts ?ex sched fuel st1 = stabilizePeerRequirements lib opts ?ex sched' fuel st1 \<or>
          (\<exists>a b. stabilizePeerRequirements lib opts ?ex sched fuel st1 = Some a \<and> resolve_has_errors (rsDiags a) \<and>
             stabilizePeerRequirements lib opts ?ex sched' fuel st1 = Some b \<and> resolve_has_errors (rsDiags b))"
          using peers_schedules [OF assms, of lib ?ex sched fuel fuel 0 st1 sched'] settled [of lib]
          unfolding stabilizePeerRequirements_def by (elim disjE exE conjE) (simp, metis option.simps(5))
        with False show ?thesis unfolding g same [symmetric] Some r by (simp add: body_def)
      qed
    qed
  next
    assume "\<exists>a b. run_frontiers lib opts ?ex sched fuel st ?fr = Some (a, True) \<and> resolve_has_errors (rsDiags a) \<and>
       run_frontiers lib opts ?ex sched' fuel st ?fr = Some (b, True) \<and> resolve_has_errors (rsDiags b)"
    then show ?thesis unfolding g by (auto simp: body_def)
  qed
qed

definition resolution_failed :: "lockfile \<times> diagnostic list \<Rightarrow> bool" where
  "resolution_failed r \<longleftrightarrow> resolve_has_errors (snd r)"

lemma errors_sorted [simp]: "resolve_has_errors (SortDiagnostics ds) = resolve_has_errors ds"
  by (simp add: resolve_has_errors_def list_ex_iff)

lemma resolve_schedules:
  assumes "never_cancelled (complete_backends lib opts)"
  shows "ResolveNPM lib opts world old sched fuel graph = ResolveNPM lib opts world old sched' fuel graph \<or>
    (\<exists>a b. ResolveNPM lib opts world old sched fuel graph = Some a \<and> resolution_failed a \<and>
       ResolveNPM lib opts world old sched' fuel graph = Some b \<and> resolution_failed b)"
proof (cases graph)
  case (Some g)
  from graph_schedules [OF assms, of lib world old sched fuel g sched'] Some show ?thesis
    by (elim disjE exE conjE) (auto simp: ResolveNPM_def resolution_failed_def split: prod.splits)
qed (simp add: ResolveNPM_def)

end
