(* ===== verification/Resolver_Ends.thy ===== *)
theory Resolver_Ends
  imports Resolver_Groups
begin

text \<open>
  Resolution ends.  A frontier that asks for anything more has added a package, and so has a round of
  peers that found new requirements; when the registries offer finitely many package versions, one more
  round than there are versions is enough, and more fuel changes nothing.
\<close>

section \<open>Growth\<close>

definition offered :: "('c, 'v, 'u) resolver_library \<Rightarrow> resolver_options \<Rightarrow> string set" where
  "offered lib opts = {pid. \<exists>source name rng pv. resolved_offer lib opts source name rng = Some (pv, pid)}"

text \<open>From one state and list of requests to another: packages on offer are added, or nothing changes.\<close>

definition resolver_grows :: "string set \<Rightarrow> resolver_state \<times> work_item list \<Rightarrow> resolver_state \<times> work_item list \<Rightarrow> bool" where
  "resolver_grows U a b \<longleftrightarrow> set (rsSeen (fst a)) \<subseteq> set (rsSeen (fst b)) \<and> set (rsSeen (fst b)) \<subseteq> set (rsSeen (fst a)) \<union> U \<and>
     (set (rsSeen (fst b)) = set (rsSeen (fst a)) \<longrightarrow> rsFacts (fst b) = rsFacts (fst a) \<and> snd b = snd a)"

definition unseen :: "string set \<Rightarrow> resolver_state \<Rightarrow> nat" where
  "unseen U st = card (U - set (rsSeen st))"

lemma resolver_grows_refl: "resolver_grows U a a"
  by (simp add: resolver_grows_def)

lemma resolver_grows_trans:
  assumes "resolver_grows U a b" and "resolver_grows U b c"
  shows "resolver_grows U a c"
proof -
  have "set (rsSeen (fst a)) \<subseteq> set (rsSeen (fst b))" "set (rsSeen (fst b)) \<subseteq> set (rsSeen (fst c))"
    using assms by (simp_all add: resolver_grows_def)
  then have "set (rsSeen (fst b)) = set (rsSeen (fst a)) \<and> set (rsSeen (fst c)) = set (rsSeen (fst b))"
    if "set (rsSeen (fst c)) = set (rsSeen (fst a))" using that by blast
  moreover have "set (rsSeen (fst c)) \<subseteq> set (rsSeen (fst a)) \<union> U" using assms unfolding resolver_grows_def by blast
  moreover have "set (rsSeen (fst a)) \<subseteq> set (rsSeen (fst c))" using assms unfolding resolver_grows_def by blast
  ultimately show ?thesis using assms by (simp add: resolver_grows_def)
qed

lemma unseen_mono:
  assumes "finite U" and "resolver_grows U a b"
  shows "unseen U (fst b) \<le> unseen U (fst a)"
  using assms by (auto simp: unseen_def resolver_grows_def intro!: card_mono)

lemma unseen_less:
  assumes "finite U" and "resolver_grows U a b" and "set (rsSeen (fst b)) \<noteq> set (rsSeen (fst a))"
  shows "unseen U (fst b) < unseen U (fst a)"
  using assms unfolding unseen_def resolver_grows_def by (intro psubset_card_mono) auto

lemma link_facts [simp]: "rsFacts (link_request r p st) = rsFacts st"
  by (simp add: link_request_def removeEdgesFrom_def Let_def)

lemma request_grows:
  assumes "\<And>k p. map_of prepared k = Some p \<Longrightarrow> ppFailure p = None \<Longrightarrow> \<not> ppCancelled p \<Longrightarrow> ppPackageID p \<in> U"
    and "resolve_request prepared (st, next, fatal) r = (st', next', fatal')"
  shows "resolver_grows U (st, next) (st', next')"
proof (cases "map_of prepared (item_group_key r)")
  case None
  with assms(2) show ?thesis by (simp add: resolve_request_def resolver_grows_refl)
next
  case (Some p)
  show ?thesis
  proof (cases "ppCancelled p \<or> ppFailure p \<noteq> None")
    case True
    with Some assms(2) show ?thesis
      by (auto simp: resolve_request_def report_diag_def resolver_grows_def split: if_splits option.splits)
  next
    case False
    with Some assms(1) [OF Some] assms(2) show ?thesis
      by (auto simp: resolve_request_def Let_def resolver_grows_def split: if_splits)
  qed
qed

lemma requests_grow:
  assumes "\<And>k p. map_of prepared k = Some p \<Longrightarrow> ppFailure p = None \<Longrightarrow> \<not> ppCancelled p \<Longrightarrow> ppPackageID p \<in> U"
    and "foldl (resolve_request prepared) (st, next, fatal) rs = (st', next', fatal')"
  shows "resolver_grows U (st, next) (st', next')"
  using assms(2)
proof (induction rs arbitrary: st "next" fatal)
  case Nil
  then show ?case by (simp add: resolver_grows_refl)
next
  case (Cons r rs)
  obtain st1 next1 fatal1 where 1: "resolve_request prepared (st, next, fatal) r = (st1, next1, fatal1)"
    by (cases "resolve_request prepared (st, next, fatal) r")
  with Cons.prems have 2: "foldl (resolve_request prepared) (st1, next1, fatal1) rs = (st', next', fatal')" by simp
  have "resolver_grows U (st, next) (st1, next1)" by (rule request_grows [OF assms(1) 1])
  then show ?case using Cons.IH [OF 2] by (rule resolver_grows_trans)
qed

lemma prepared_offered:
  assumes "map_of (prepareGroups lib opts existing sched st width groups) k = Some p" and "ppFailure p = None" and "\<not> ppCancelled p"
  shows "ppPackageID p \<in> offered lib opts"
proof -
  obtain n where "prepareGroups lib opts existing sched st width groups = take n (all_prepared lib opts existing (rsSeen st) groups)"
    using prepareGroups_prefix by blast
  with map_of_SomeD [OF assms(1)] have "(k, p) \<in> set (all_prepared lib opts existing (rsSeen st) groups)"
    by (metis in_set_takeD)
  then obtain g where "p = prepareGroup lib opts existing (rsSeen st) g" by (auto simp: all_prepared_def)
  with prepareGroup_ok [of lib opts existing "rsSeen st" g p] assms(2,3) show ?thesis by (auto simp: offered_def)
qed

lemma frontier_grows:
  assumes "resolveFrontier lib opts existing sched st fr = (st', next, fatal)"
  shows "resolver_grows (offered lib opts) (st, []) (st', next)"
proof (cases "normalizeWorkItems fr = [] \<or> find (\<lambda>r. \<not> Allows (roPolicy opts) (wiSource r)) (normalizeWorkItems fr) \<noteq> None")
  case True
  with assms show ?thesis
    by (auto simp: resolveFrontier_def Let_def report_diag_def resolver_grows_def split: if_splits)
next
  case False
  let ?rs = "normalizeWorkItems fr"
  have run: "foldl (resolve_request (prepareGroups lib opts existing sched st (length ?rs) (groupWorkItems ?rs)))
        (st\<lparr>rsFrontierSeq := rsFrontierSeq st + 1\<rparr>, [], False) ?rs = (st', next, fatal)"
    using False assms by (simp add: resolveFrontier_def Let_def)
  have "resolver_grows (offered lib opts) (st\<lparr>rsFrontierSeq := rsFrontierSeq st + 1\<rparr>, []) (st', next)"
    by (rule requests_grow [OF _ run]) (rule prepared_offered)
  then show ?thesis by (simp add: resolver_grows_def)
qed

section \<open>The loops\<close>

lemma no_frontier [simp]: "run_frontiers lib opts existing sched fuel st [] = Some (st, False)"
  by (cases fuel) simp_all

lemma frontiers_end:
  assumes "finite (offered lib opts)" and "unseen (offered lib opts) st < fuel"
  shows "\<exists>st' fatal. run_frontiers lib opts existing sched fuel st fr = Some (st', fatal) \<and>
    resolver_grows (offered lib opts) (st, []) (st', [])"
  using assms(2)
proof (induction fuel arbitrary: st fr)
  case (Suc fuel)
  show ?case
  proof (cases "fr = []")
    case True
    then show ?thesis by (intro exI [of _ st] exI [of _ False]) (simp add: resolver_grows_refl)
  next
    case False
    obtain st1 next1 fatal1 where 1: "resolveFrontier lib opts existing sched st fr = (st1, next1, fatal1)"
      by (cases "resolveFrontier lib opts existing sched st fr")
    note g = frontier_grows [OF 1]
    then have g1: "resolver_grows (offered lib opts) (st, []) (st1, [])" by (auto simp: resolver_grows_def)
    show ?thesis
    proof (cases "fatal1 \<or> next1 = []")
      case True
      with 1 False g1 show ?thesis by (intro exI [of _ st1] exI [of _ fatal1]) auto
    next
      case more: False
      with g have "set (rsSeen st1) \<noteq> set (rsSeen st)" by (auto simp: resolver_grows_def)
      with unseen_less [OF assms(1) g1] Suc.prems have "unseen (offered lib opts) st1 < fuel" by simp
      from Suc.IH [OF this, of next1] obtain st2 f where
        2: "run_frontiers lib opts existing sched fuel st1 next1 = Some (st2, f)" "resolver_grows (offered lib opts) (st1, []) (st2, [])"
        by blast
      from 1 2(1) False more have "run_frontiers lib opts existing sched (Suc fuel) st fr = Some (st2, f)" by simp
      with resolver_grows_trans [OF g1 2(2)] show ?thesis by blast
    qed
  qed
qed simp

lemma peers_end:
  assumes "finite (offered lib opts)" and "unseen (offered lib opts) st < rounds" and "unseen (offered lib opts) st < fuel"
  shows "\<exists>st'. resolvePeerRequirements lib opts existing sched rounds fuel i st = Some st'"
  using assms(2,3)
proof (induction rounds arbitrary: i st)
  case (Suc rounds)
  obtain st1 f where 1: "run_frontiers lib opts existing sched fuel st (peer_items lib st) = Some (st1, f)"
    and g: "resolver_grows (offered lib opts) (st, []) (st1, [])"
    using frontiers_end [OF assms(1) Suc.prems(2), of existing sched "peer_items lib st"] by blast
  show ?case
  proof (cases "rsFacts st1 = rsFacts st")
    case True
    with 1 show ?thesis by simp
  next
    case False
    with g have "set (rsSeen st1) \<noteq> set (rsSeen st)" by (auto simp: resolver_grows_def)
    with unseen_less [OF assms(1) g] Suc.prems have "unseen (offered lib opts) st1 < rounds" "unseen (offered lib opts) st1 < fuel"
      by simp_all
    from Suc.IH [OF this, of "i + 1"] 1 show ?thesis by auto
  qed
qed simp

section \<open>More fuel\<close>

lemma frontiers_more_fuel:
  "run_frontiers lib opts existing sched fuel st fr = Some r \<Longrightarrow> fuel \<le> fuel' \<Longrightarrow>
     run_frontiers lib opts existing sched fuel' st fr = Some r"
proof (induction fuel arbitrary: fuel' st fr)
  case 0
  then show ?case by (cases "fr = []") simp_all
next
  case (Suc fuel)
  then obtain f' where f': "fuel' = Suc f'" "fuel \<le> f'" by (cases fuel') auto
  with Suc show ?case by (auto split: if_splits prod.splits)
qed

lemma peers_more_fuel:
  "resolvePeerRequirements lib opts existing sched rounds fuel i st = Some r \<Longrightarrow> rounds \<le> rounds' \<Longrightarrow> fuel \<le> fuel' \<Longrightarrow>
     resolvePeerRequirements lib opts existing sched rounds' fuel' i st = Some r"
proof (induction rounds arbitrary: rounds' i st)
  case (Suc rounds)
  then obtain n where n: "rounds' = Suc n" "rounds \<le> n" by (cases rounds') auto
  show ?case
  proof (cases "length (rsFacts st) + 1 < i \<or> peer_items lib st = []")
    case True
    with Suc.prems n show ?thesis by (auto split: if_splits)
  next
    case False
    with Suc.prems obtain st1 f where 1: "run_frontiers lib opts existing sched fuel st (peer_items lib st) = Some (st1, f)"
      by (auto split: option.splits)
    note 2 = frontiers_more_fuel [OF 1 Suc.prems(3)]
    show ?thesis
    proof (cases "f \<or> length (rsFacts st1) = length (rsFacts st)")
      case True
      with Suc.prems(1) False 1 2 n show ?thesis by simp
    next
      case more: False
      with Suc.prems(1) False 1 have "resolvePeerRequirements lib opts existing sched rounds fuel (i + 1) st1 = Some r" by simp
      from Suc.IH [OF this n(2) Suc.prems(3)] False more 2 n show ?thesis by simp
    qed
  qed
qed simp

lemma graph_more_fuel:
  assumes "resolve_graph lib opts world old sched fuel g = Some r" and "fuel \<le> fuel'"
  shows "resolve_graph lib opts world old sched fuel' g = Some r"
proof -
  let ?ex = "lockPackagesByID old"
  obtain st fr where e: "enqueue_workspace lib opts world g = (st, fr)" by (cases "enqueue_workspace lib opts world g")
  with assms(1) obtain st1 f where 1: "run_frontiers lib opts ?ex sched fuel st (applyRequirementControllers (rsFacts st) fr) = Some (st1, f)"
    by (auto simp: resolve_graph_def Let_def split: option.splits)
  note 2 = frontiers_more_fuel [OF 1 assms(2)]
  show ?thesis
  proof (cases "resolve_has_errors (rsDiags st1)")
    case True
    with assms(1) 1 2 e show ?thesis by (simp add: resolve_graph_def Let_def)
  next
    case False
    with assms(1) 1 e have s: "stabilizePeerRequirements lib opts ?ex sched fuel st1 = Some r" by (simp add: resolve_graph_def Let_def)
    then obtain st2 where p: "resolvePeerRequirements lib opts ?ex sched fuel fuel 0 st1 = Some st2"
      by (auto simp: stabilizePeerRequirements_def split: option.splits)
    from s p peers_more_fuel [OF p assms(2,2)] have "stabilizePeerRequirements lib opts ?ex sched fuel' st1 = Some r"
      by (simp add: stabilizePeerRequirements_def)
    with False 2 e show ?thesis by (simp add: resolve_graph_def Let_def)
  qed
qed

lemma resolve_more_fuel:
  assumes "ResolveNPM lib opts world old sched fuel graph = Some r" and "fuel \<le> fuel'"
  shows "ResolveNPM lib opts world old sched fuel' graph = Some r"
proof (cases "graph = None \<or> roMode opts = ''sync'' \<or> spOffline (roPolicy opts)")
  case True
  with assms(1) show ?thesis by (auto simp: ResolveNPM_def split: option.splits)
next
  case False
  then obtain g where g: "graph = Some g" by (cases graph) simp_all
  from assms(1) False g obtain st where st: "resolve_graph lib (complete_backends lib opts) world old sched fuel g = Some st"
    by (auto simp: ResolveNPM_def split: option.splits)
  from graph_more_fuel [OF st assms(2)] st assms(1) False g show ?thesis by (simp add: ResolveNPM_def)
qed

section \<open>The end\<close>

lemma graph_ends:
  assumes "finite (offered lib opts)" and "card (offered lib opts) < fuel"
  shows "\<exists>st. resolve_graph lib opts world old sched fuel g = Some st"
proof -
  have few: "unseen (offered lib opts) st < fuel" for st
    using card_mono [OF assms(1), of "offered lib opts - set (rsSeen st)"] assms(2) by (simp add: unseen_def)
  let ?ex = "lockPackagesByID old"
  obtain st fr where e: "enqueue_workspace lib opts world g = (st, fr)" by (cases "enqueue_workspace lib opts world g")
  obtain st1 f where 1: "run_frontiers lib opts ?ex sched fuel st (applyRequirementControllers (rsFacts st) fr) = Some (st1, f)"
    using frontiers_end [OF assms(1) few] by blast
  obtain st2 where 2: "resolvePeerRequirements lib opts ?ex sched fuel fuel 0 st1 = Some st2"
    using peers_end [OF assms(1) few few] by blast
  obtain st3 where "pruneUnreachablePackages (reconcilePeerEnvironmentEdges lib st2) = Some st3"
    using pruned by blast
  with e 1 2 show ?thesis by (simp add: resolve_graph_def stabilizePeerRequirements_def Let_def)
qed

lemma resolve_ends:
  assumes "finite (offered lib (complete_backends lib opts))"
  shows "\<exists>r. \<forall>fuel > card (offered lib (complete_backends lib opts)). ResolveNPM lib opts world old sched fuel graph = Some r"
proof -
  let ?n = "Suc (card (offered lib (complete_backends lib opts)))"
  have "\<exists>r. ResolveNPM lib opts world old sched ?n graph = Some r"
  proof (cases graph)
    case None
    then show ?thesis by (simp add: ResolveNPM_def resolve_refused_def)
  next
    case (Some g)
    obtain st where "resolve_graph lib (complete_backends lib opts) world old sched ?n g = Some st"
      using graph_ends [OF assms] by blast
    with Some show ?thesis by (auto simp: ResolveNPM_def resolve_refused_def split: prod.splits)
  qed
  then obtain r where "ResolveNPM lib opts world old sched ?n graph = Some r" by blast
  then have "ResolveNPM lib opts world old sched fuel graph = Some r" if "?n \<le> fuel" for fuel
    using that by (rule resolve_more_fuel)
  then show ?thesis by (auto simp: Suc_le_eq)
qed

end
