(* ===== verification/Resolver_Local.thy ===== *)
theory Resolver_Local
  imports Resolver_Groups
begin

text \<open>
  The forms of package ids, the shape of the resolver's state, and the state in which the requests of the
  workspace leave it: local packages only, with an edge to each.
\<close>

definition registry_id :: "string \<Rightarrow> bool" where
  "registry_id i \<longleftrightarrow> has_prefix i ''npm:'' \<or> has_prefix i ''jsr:''"

definition package_id :: "string \<Rightarrow> bool" where
  "package_id i \<longleftrightarrow> registry_id i \<or> has_prefix i ''path:'' \<or> has_prefix i ''git:'' \<or> has_prefix i ''workspace:''"

definition state_shape :: "resolver_state \<Rightarrow> bool" where
  "state_shape st \<longleftrightarrow> map lpID (rsPackages st) = rsSeen st \<and> distinct (rsSeen st) \<and>
     (\<forall>e \<in> set (rsEdges st). leTo e \<in> set (rsSeen st)) \<and> (\<forall>i \<in> set (rsSeen st). package_id i)"

definition local_sources :: "string set" where
  "local_sources = set [''path'', ''workspace'', ''git'']"

definition local_inv :: "resolver_state \<Rightarrow> bool" where
  "local_inv st \<longleftrightarrow> state_shape st \<and> (\<forall>i \<in> set (rsSeen st). \<not> registry_id i) \<and>
     (\<forall>p \<in> set (rsPackages st). lpSource p \<in> local_sources)"

lemma local_report [simp]: "local_inv (report_diag st d) = local_inv st"
  by (simp add: local_inv_def state_shape_def report_diag_def)

lemma local_peers [simp]: "local_inv (appendPeerRequirements pid peers src st) = local_inv st"
  by (simp add: local_inv_def state_shape_def)

lemma local_fact [simp]: "local_inv (add_fact h st) = local_inv st"
  by (simp add: local_inv_def state_shape_def add_fact_def)

lemma local_add:
  assumes "local_inv st" and "package_id (lpID pkg)" and "\<not> registry_id (lpID pkg)" and "lpSource pkg \<in> local_sources"
  shows "local_inv (addPackageAndEdge pkg from kind optional reference st)"
  using assms by (auto simp: local_inv_def state_shape_def addPackageAndEdge_def Let_def)

lemma local_requests: "local_inv st \<Longrightarrow> local_inv (fst (localDependencyRequests lib pkg pid st))"
  by (simp add: localDependencyRequests_def split: sum.split prod.split)

lemma local_new:
  assumes "local_inv st" and "package_id (lpID pkg)" and "\<not> registry_id (lpID pkg)" and "lpSource pkg \<in> local_sources"
  shows "local_inv (fst (add_local lib pkg version from kind dep st))"
  by (simp add: add_local_def Let_def local_add [OF assms] local_requests)

lemma local_metadata: "local_inv st \<Longrightarrow> local_inv (fst (localPackageMetadata world path name code st))"
  by (simp add: localPackageMetadata_def split: option.split sum.split)

lemma local_ids:
  "package_id (''path:'' @ x)" "\<not> registry_id (''path:'' @ x)" "package_id (''git:'' @ x)" "\<not> registry_id (''git:'' @ x)"
  "package_id (''workspace:'' @ x)" "\<not> registry_id (''workspace:'' @ x)"
  by (auto simp: package_id_def registry_id_def has_prefix_def)

lemma local_workspace:
  assumes "local_inv st"
  shows "local_inv (resolveWorkspaceDependency lib opts world g dep from kind st)"
proof -
  have "local_inv (addPackageAndEdge pkg from kind optional reference st)" if "lpID pkg = ''workspace:'' @ x" "lpSource pkg = ''workspace''" for pkg optional reference x
    by (rule local_add [OF assms]; unfold that; (rule local_ids | simp add: local_sources_def))
  with assms show ?thesis
    unfolding resolveWorkspaceDependency_def Let_def by (auto split: option.split)
qed

lemma local_git:
  assumes "local_inv st"
  shows "local_inv (fst (resolveGitDependency lib world dep from kind st))"
proof -
  have 1: "local_inv (fst (add_local lib pkg version from kind dep st'))" if "local_inv st'" "lpID pkg = ''git:'' @ x" "lpSource pkg = ''git''" for pkg version st' x
    by (rule local_new [OF that(1)]; unfold that(2,3); (rule local_ids | simp add: local_sources_def))
  have 2: "local_inv st'" if "localPackageMetadata world path name code st = (st', r)" for st' r path name code
    using local_metadata [OF assms, of world path name code] that by simp
  show ?thesis
    unfolding resolveGitDependency_def Let_def
    using assms 1 2 by (auto split: sum.split prod.split option.split)
qed

text \<open>What holds of every branch of a handler.\<close>

lemma local_if:
  "(c \<Longrightarrow> local_inv (fst a)) \<Longrightarrow> (\<not> c \<Longrightarrow> local_inv (fst b)) \<Longrightarrow> local_inv (fst (if c then a else b))"
  by simp

lemma local_option:
  "(x = None \<Longrightarrow> local_inv (fst a)) \<Longrightarrow> (\<And>y. x = Some y \<Longrightarrow> local_inv (fst (h y))) \<Longrightarrow>
     local_inv (fst (case x of None \<Rightarrow> a | Some y \<Rightarrow> h y))"
  by (cases x) simp_all

lemma local_prod:
  "(\<And>a b. x = (a, b) \<Longrightarrow> local_inv (fst (h a b))) \<Longrightarrow> local_inv (fst (case x of (a, b) \<Rightarrow> h a b))"
  by (cases x) simp

lemma local_path:
  assumes "local_inv st"
  shows "local_inv (fst (resolvePathDependency lib opts world package_root dep from kind st))"
proof -
  have 1: "local_inv (fst (add_local lib pkg version from kind dep st'))" if "local_inv st'" "lpID pkg = ''path:'' @ x" "lpSource pkg = ''path''" for pkg version st' x
    by (rule local_new [OF that(1)]; unfold that(2,3); (rule local_ids | simp add: local_sources_def))
  have 2: "local_inv st'" if "localPackageMetadata world path name code st = (st', r)" for st' r path name code
    using local_metadata [OF assms, of world path name code] that by simp
  have 3: "lpID (no_package\<lparr>lpID := i, lpName := n, lpVersion := v, lpSource := s, lpPath := d, lpHash := h, lpCapabilities := c\<rparr>) = i"
    "lpSource (no_package\<lparr>lpID := i, lpName := n, lpVersion := v, lpSource := s, lpPath := d, lpHash := h, lpCapabilities := c\<rparr>) = s"
    for i n v s d h c by simp_all
  show ?thesis
    unfolding resolvePathDependency_def Let_def
    by (intro local_if local_option local_prod; (simp only: fst_conv local_report assms)?; (erule 2)?; rule 1 [OF _ 3]; erule 2)
qed

lemma local_dependency:
  assumes "local_inv st"
  shows "local_inv (fst (resolveNonNPMDependency lib opts world g dep from kind st))"
  using assms local_path local_git local_workspace by (auto simp: resolveNonNPMDependency_def Let_def)

lemma local_enqueue: "local_inv (fst (enqueue_workspace lib opts world g))"
proof -
  have step: "local_inv (fst (enqueueSharedDirectRequest lib opts world g acc d src e k))" if "local_inv (fst acc)" for acc d src e k
    using that local_dependency [of "fst acc" lib opts world g d src e]
    by (auto simp: enqueueSharedDirectRequest_def Let_def split: option.split prod.splits)
  have "local_inv (fst (foldl (\<lambda>acc (d, src, e, k). enqueueSharedDirectRequest lib opts world g acc d src e k) acc qs))"
    if "local_inv (fst acc)" for acc qs
    using that
  proof (induction qs arbitrary: acc)
    case (Cons q qs)
    obtain d src e k where "q = (d, src, e, k)" by (cases q)
    with Cons.IH [OF step [OF Cons.prems, of d src e k]] show ?case by simp
  qed simp
  moreover have "local_inv start_state" by (simp add: local_inv_def state_shape_def start_state_def)
  ultimately show ?thesis by (simp add: enqueue_workspace_def)
qed


end
