(* ===== verification/Resolver_Trust.thy ===== *)
theory Resolver_Trust
  imports Resolver_Local
begin

text \<open>
  What the resolver lets into a lock file: every package that is not local comes from a source the policy
  allows, and the bytes that were fetched for it have the recorded digest and integrity, contain a
  \<open>package.json\<close> with the recorded version, and do not differ from what was locked before.
\<close>

definition verified_package ::
  "('c, 'v, 'u) resolver_library \<Rightarrow> resolver_options \<Rightarrow> (string \<rightharpoonup> lock_package) \<Rightarrow> lock_package \<Rightarrow> bool" where
  "verified_package lib opts existing p \<longleftrightarrow>
     (\<exists>source b (pv :: registry_version) body. Allows (roPolicy opts) source \<and> backend_of opts source = Some b \<and>
        bkFetch b (rvArtifact pv) = Inr body \<and> lpHash p = ''sha256:'' @ hex_encode (rlSHA256 lib body) \<and>
        lpIntegrity p = adIntegrity (rvArtifact pv) \<and>
        (lpIntegrity p \<noteq> '''' \<longrightarrow> verifyIntegrity lib body (lpIntegrity p) = Some True) \<and>
        (spRequireIntegrity (roPolicy opts) \<longrightarrow> \<not> is_blank (lpIntegrity p)) \<and>
        parseTarballPackageJSON lib body = Some (rvArtifactPackageName pv, lpVersion p)) \<and>
     (\<forall>q. existing (lpID p) = Some q \<longrightarrow> lpHash q = '''' \<or> lpHash q = lpHash p)"

definition trusted_package ::
  "('c, 'v, 'u) resolver_library \<Rightarrow> resolver_options \<Rightarrow> (string \<rightharpoonup> lock_package) \<Rightarrow> lock_package \<Rightarrow> bool" where
  "trusted_package lib opts existing p \<longleftrightarrow>
     lpSource p \<in> local_sources \<or> verified_package lib opts existing p"

lemma prepareGroup_verified:
  assumes "prepareGroup lib opts existing seen g = p" and "ppFailure p = None" and "\<not> ppCancelled p"
    and "ppPackageID p \<notin> set seen"
  shows "verified_package lib opts existing (ppPackage p) \<and> lpID (ppPackage p) = ppPackageID p"
proof -
  from assms obtain b m pv key where a: "Allows (roPolicy opts) (wgSource g)" "backend_of opts (wgSource g) = Some b"
    "bkMetadata b (wgRangeName g) = Inr m" "selectRegistryVersion lib m (wgRange g) = Inr (pv, key)" and
    p: "p = (if identity_ID (rvIdentity pv) key \<in> set seen then nothing_prepared\<lparr>ppPackageID := identity_ID (rvIdentity pv) key\<rparr>
         else prepareSelectedPackage lib opts existing (identity_ID (rvIdentity pv) key) b pv)"
    by (auto simp: prepareGroup_def prepare_failed_def prepare_cancelled_def Let_def
        split: if_splits option.splits sum.splits prod.splits)
  with assms(4) have s: "prepareSelectedPackage lib opts existing (identity_ID (rvIdentity pv) key) b pv = p"
    by (auto split: if_splits)
  obtain body where body: "bkFetch b (rvArtifact pv) = Inr body"
    "adIntegrity (rvArtifact pv) \<noteq> '''' \<longrightarrow> verifyIntegrity lib body (adIntegrity (rvArtifact pv)) = Some True"
    "spRequireIntegrity (roPolicy opts) \<longrightarrow> \<not> is_blank (adIntegrity (rvArtifact pv))"
    "parseTarballPackageJSON lib body = Some (rvArtifactPackageName pv, rvVersion pv)"
    "\<forall>q. existing (identity_ID (rvIdentity pv) key) = Some q \<longrightarrow>
       lpHash q = '''' \<or> lpHash q = ''sha256:'' @ hex_encode (rlSHA256 lib body)"
    "ppPackage p = locked_package opts b (identity_ID (rvIdentity pv) key) pv (''sha256:'' @ hex_encode (rlSHA256 lib body))"
    using prepareSelectedPackage_guards [OF s assms(2,3)] by (auto simp: nothing_prepared_def)
  have "verified_package lib opts existing (ppPackage p)"
    unfolding verified_package_def body(6) locked_reads
    by (intro conjI exI [of _ "wgSource g"] exI [of _ b] exI [of _ pv] exI [of _ body]) (use a body in simp_all)
  with prepareSelectedPackage_ok [OF s assms(2,3)] show ?thesis by simp
qed

section \<open>The invariant\<close>

definition trusted :: "('c, 'v, 'u) resolver_library \<Rightarrow> resolver_options \<Rightarrow> (string \<rightharpoonup> lock_package) \<Rightarrow> resolver_state \<Rightarrow> bool" where
  "trusted lib opts existing st \<longleftrightarrow> (\<forall>p \<in> set (rsPackages st). trusted_package lib opts existing p)"

lemma trusted_same: "rsPackages st' = rsPackages st \<Longrightarrow> trusted lib opts existing st \<Longrightarrow> trusted lib opts existing st'"
  by (simp add: trusted_def)

lemma trusted_request:
  assumes p: "\<And>k p. map_of prepared k = Some p \<Longrightarrow> \<exists>g. prepareGroup lib opts existing seen0 g = p"
    and "trusted lib opts existing st" and seen: "set seen0 \<subseteq> set (rsSeen st)"
    and step: "resolve_request prepared (st, next, fatal) r = (st', next', fatal')"
  shows "trusted lib opts existing st' \<and> set seen0 \<subseteq> set (rsSeen st')"
proof (cases "map_of prepared (item_group_key r)")
  case None
  with assms show ?thesis by (simp add: resolve_request_def)
next
  case (Some q)
  with p obtain g where g: "prepareGroup lib opts existing seen0 g = q" by blast
  show ?thesis
  proof (cases "ppCancelled q \<or> ppFailure q \<noteq> None")
    case True
    with Some assms show ?thesis by (auto simp: resolve_request_def report_diag_def trusted_def split: option.splits if_splits)
  next
    case live: False
    show ?thesis
    proof (cases "ppPackageID q \<in> set (rsSeen st)")
      case True
      with Some live assms show ?thesis by (auto simp: resolve_request_def trusted_def Let_def)
    next
      case False
      with seen have "ppPackageID q \<notin> set seen0" by blast
      with prepareGroup_verified [OF g] live have "verified_package lib opts existing (ppPackage q)" by simp
      with Some live False assms show ?thesis
        by (auto simp: resolve_request_def trusted_def trusted_package_def Let_def)
    qed
  qed
qed

lemma trusted_requests:
  assumes p: "\<And>k p. map_of prepared k = Some p \<Longrightarrow> \<exists>g. prepareGroup lib opts existing seen0 g = p"
    and "trusted lib opts existing st" and "set seen0 \<subseteq> set (rsSeen st)"
    and "foldl (resolve_request prepared) (st, next, fatal) rs = (st', next', fatal')"
  shows "trusted lib opts existing st'"
  using assms(2-4)
proof (induction rs arbitrary: st "next" fatal)
  case (Cons r rs)
  obtain st1 next1 fatal1 where 1: "resolve_request prepared (st, next, fatal) r = (st1, next1, fatal1)"
    by (cases "resolve_request prepared (st, next, fatal) r")
  from trusted_request [OF p Cons.prems(1,2) 1] Cons.IH [of st1 next1 fatal1] Cons.prems(3) 1 show ?case by auto
qed simp

lemma trusted_frontier:
  assumes "trusted lib opts existing st" and run: "resolveFrontier lib opts existing sched st fr = (st', next, fatal)"
  shows "trusted lib opts existing st'"
proof (cases "normalizeWorkItems fr = [] \<or> find (\<lambda>r. \<not> Allows (roPolicy opts) (wiSource r)) (normalizeWorkItems fr) \<noteq> None")
  case True
  with assms show ?thesis by (auto simp: resolveFrontier_def Let_def report_diag_def trusted_def split: if_splits)
next
  case False
  let ?rs = "normalizeWorkItems fr" and ?st = "st\<lparr>rsFrontierSeq := rsFrontierSeq st + 1\<rparr>"
  let ?prepared = "prepareGroups lib opts existing sched st (length ?rs) (groupWorkItems ?rs)"
  have fold: "foldl (resolve_request ?prepared) (?st, [], False) ?rs = (st', next, fatal)"
    using False run by (simp add: resolveFrontier_def Let_def)
  have p: "\<exists>g. prepareGroup lib opts existing (rsSeen st) g = p" if "map_of ?prepared k = Some p" for k p
  proof -
    obtain n where "?prepared = take n (all_prepared lib opts existing (rsSeen st) (groupWorkItems ?rs))"
      using prepareGroups_prefix by blast
    with map_of_SomeD [OF that] have "(k, p) \<in> set (all_prepared lib opts existing (rsSeen st) (groupWorkItems ?rs))"
      by (metis in_set_takeD)
    then show ?thesis by (auto simp: all_prepared_def)
  qed
  have start: "trusted lib opts existing ?st" using assms(1) by (simp add: trusted_def)
  show ?thesis by (rule trusted_requests [OF p start _ fold]) simp_all
qed

lemma trusted_frontiers:
  "trusted lib opts existing st \<Longrightarrow> run_frontiers lib opts existing sched fuel st fr = Some (st', fatal) \<Longrightarrow> trusted lib opts existing st'"
proof (induction fuel arbitrary: st fr)
  case (Suc fuel)
  obtain st1 next1 fatal1 where 1: "resolveFrontier lib opts existing sched st fr = (st1, next1, fatal1)"
    by (cases "resolveFrontier lib opts existing sched st fr")
  from trusted_frontier [OF Suc.prems(1) 1] Suc 1 show ?case by (auto split: if_splits)
qed (simp split: if_splits)

lemma trusted_peers:
  "trusted lib opts existing st \<Longrightarrow> resolvePeerRequirements lib opts existing sched rounds fuel i st = Some st' \<Longrightarrow>
     trusted lib opts existing st'"
proof (induction rounds arbitrary: i st)
  case (Suc rounds)
  show ?case
  proof (cases "length (rsFacts st) + 1 < i \<or> peer_items lib st = []")
    case True
    with Suc.prems show ?thesis by (auto split: if_splits)
  next
    case False
    with Suc.prems(2) obtain st1 f where 1: "run_frontiers lib opts existing sched fuel st (peer_items lib st) = Some (st1, f)"
      and rest: "(if f \<or> length (rsFacts st1) = length (rsFacts st) then Some st1
             else resolvePeerRequirements lib opts existing sched rounds fuel (i + 1) st1) = Some st'"
      by (auto split: option.splits)
    from trusted_frontiers [OF Suc.prems(1) 1] rest Suc.IH show ?thesis by (auto split: if_splits)
  qed
qed simp

section \<open>The lock file\<close>

lemma trusted_graph:
  assumes run: "resolve_graph lib opts world old sched fuel g = Some st"
  shows "trusted lib opts (lockPackagesByID old) st"
proof -
  let ?ex = "lockPackagesByID old"
  obtain st0 fr where e: "enqueue_workspace lib opts world g = (st0, fr)" by (cases "enqueue_workspace lib opts world g")
  have 0: "trusted lib opts ?ex st0"
    using local_enqueue [of lib opts world g] by (auto simp: e local_inv_def trusted_def trusted_package_def)
  from run obtain st1 f where 1: "run_frontiers lib opts ?ex sched fuel st0 (applyRequirementControllers (rsFacts st0) fr) = Some (st1, f)"
    and rest: "(if resolve_has_errors (rsDiags st1) then Some st1 else stabilizePeerRequirements lib opts ?ex sched fuel st1) = Some st"
    by (auto simp: resolve_graph_def Let_def e split: option.splits)
  note t1 = trusted_frontiers [OF 0 1]
  show ?thesis
  proof (cases "resolve_has_errors (rsDiags st1)")
    case True
    with rest t1 show ?thesis by simp
  next
    case False
    with rest obtain st2 where 2: "resolvePeerRequirements lib opts ?ex sched fuel fuel 0 st1 = Some st2"
      and "map_option recomputeSelectedSlots (pruneUnreachablePackages (reconcilePeerEnvironmentEdges lib st2)) = Some st"
      by (auto simp: stabilizePeerRequirements_def split: option.splits)
    then obtain st4 where 4: "pruneUnreachablePackages (reconcilePeerEnvironmentEdges lib st2) = Some st4" "st = recomputeSelectedSlots st4"
      by auto
    have "set (rsPackages st) \<subseteq> set (rsPackages st2)"
      using pruned [of "reconcilePeerEnvironmentEdges lib st2"] 4
      by (auto simp: reconcilePeerEnvironmentEdges_def recomputeSelectedSlots_def Let_def)
    with trusted_peers [OF t1 2] show ?thesis by (auto simp: trusted_def)
  qed
qed

lemma trusted_normal: "trusted_package lib opts existing (normalize_package p) = trusted_package lib opts existing p"
  by (simp add: trusted_package_def verified_package_def normalize_package_def)

lemma resolve_trusted:
  assumes "ResolveNPM lib opts world old sched fuel graph = Some (lf, ds)"
  shows "\<forall>p \<in> set (lfPackages lf). trusted_package lib (complete_backends lib opts) (lockPackagesByID old) p"
proof (cases "graph = None \<or> roMode opts = ''sync'' \<or> spOffline (roPolicy opts)")
  case True
  with assms have "lf = empty_lock" by (auto simp: ResolveNPM_def resolve_refused_def split: option.splits if_splits)
  then show ?thesis by (simp add: empty_lock_def)
next
  case False
  then obtain g where g: "graph = Some g" by (cases graph) simp_all
  from assms False g obtain st where st: "resolve_graph lib (complete_backends lib opts) world old sched fuel g = Some st"
    by (auto simp: ResolveNPM_def split: option.splits)
  obtain requirements warnings where t: "finalizeRequirementTape lib st = (requirements, warnings)"
    by (cases "finalizeRequirementTape lib st")
  from assms False g st t have "lf = normalize_lock (resolver_lock g st requirements)" by (simp add: ResolveNPM_def)
  then have "lfPackages lf = sort_key lpID (map normalize_package (rsPackages st))"
    by (simp add: normalize_lock_def resolver_lock_def empty_lock_def)
  then have "set (lfPackages lf) = normalize_package ` set (rsPackages st)" by simp
  with trusted_graph [OF st] show ?thesis by (auto simp: trusted_def trusted_normal)
qed

end
