(* ===== verification/Resolver_Complete.thy ===== *)
theory Resolver_Complete
  imports Resolver_Local
begin

text \<open>
  A resolution without errors is complete: every edge of the lock file leads to one of its packages,
  every package is needed by the workspace, and every required dependency of a registry package, and
  every required request of the workspace, has an edge to the package it resolves to.
\<close>

section \<open>The specification\<close>

definition satisfied ::
  "('c, 'v, 'u) resolver_library \<Rightarrow> resolver_options \<Rightarrow> lock_edge list \<Rightarrow> work_item \<Rightarrow> bool" where
  "satisfied lib opts es r \<longleftrightarrow>
     (\<exists>e \<in> set es. leFrom e = wiFrom r \<and> leKind e = wiKind r \<and> leOptional e = wiOptional r \<and>
        leReference e = wiReference r \<and> resolves_to lib opts r (leTo e))"

definition offers :: "('c, 'v, 'u) resolver_library \<Rightarrow> resolver_options \<Rightarrow> string \<Rightarrow> registry_version \<Rightarrow> bool" where
  "offers lib opts i pv \<longleftrightarrow> (\<exists>source name rng. resolved_offer lib opts source name rng = Some (pv, i))"

definition peer_root :: "string \<Rightarrow> bool" where
  "peer_root from \<longleftrightarrow> has_prefix from ''workspace:peer:''"

text \<open>What is taken of the registries: names without a bar, and identities of npm and JSR.\<close>

definition plain_identity :: "package_identity \<Rightarrow> bool" where
  "plain_identity i \<longleftrightarrow> CHR ''|'' \<notin> set (piSource i) \<and> CHR ''|'' \<notin> set (piName i)"

definition plain_version_offer :: "registry_version \<Rightarrow> bool" where
  "plain_version_offer pv \<longleftrightarrow> piSource (rvIdentity pv) \<in> {''npm'', ''jsr''} \<and>
     (\<forall>d \<in> set (rvDependencies pv) \<union> set (rvPeerRequirements pv). plain_identity (dqIdentity d))"

definition plain_registry :: "('c, 'v, 'u) resolver_library \<Rightarrow> resolver_options \<Rightarrow> bool" where
  "plain_registry lib opts \<longleftrightarrow> (\<forall>i pv. offers lib opts i pv \<longrightarrow> plain_version_offer pv)"

definition plain_requests ::
  "('c, 'v, 'u) resolver_library \<Rightarrow> resolver_options \<Rightarrow> local_world \<Rightarrow> workspace_graph \<Rightarrow> bool" where
  "plain_requests lib opts world g \<longleftrightarrow>
     (case enqueue_workspace lib opts world g of (st, fr) \<Rightarrow>
        (\<forall>f \<in> set (rsFacts st). plain_identity (rqTarget f)) \<and> (\<forall>r \<in> set fr. item_plain r))"

definition workspace_requests ::
  "('c, 'v, 'u) resolver_library \<Rightarrow> resolver_options \<Rightarrow> local_world \<Rightarrow> workspace_graph \<Rightarrow> work_item list" where
  "workspace_requests lib opts world g =
     (case enqueue_workspace lib opts world g of (st, fr) \<Rightarrow> applyRequirementControllers (rsFacts st) fr)"

definition complete_lock ::
  "('c, 'v, 'u) resolver_library \<Rightarrow> resolver_options \<Rightarrow> work_item list \<Rightarrow> lockfile \<Rightarrow> bool" where
  "complete_lock lib opts requests lf \<longleftrightarrow>
     (let ids = lpID ` set (lfPackages lf) in
      distinct (map lpID (lfPackages lf)) \<and> (\<forall>e \<in> set (lfEdges lf). leTo e \<in> ids) \<and>
      ids \<subseteq> kept_packages ids (set (lfEdges lf)) \<and>
      (\<forall>i \<in> ids. registry_id i \<longrightarrow> (\<exists>pv. offers lib opts i pv \<and>
         (\<forall>d \<in> set (rvDependencies pv). \<not> dqOptional d \<longrightarrow> satisfied lib opts (lfEdges lf) (transitive_item i d)))) \<and>
      (\<forall>r \<in> set requests. \<not> wiOptional r \<longrightarrow> \<not> peer_root (wiFrom r) \<longrightarrow> \<not> package_id (wiFrom r) \<or> wiFrom r \<in> ids \<longrightarrow>
         satisfied lib opts (lfEdges lf) r))"

section \<open>The invariant\<close>

text \<open>
  What must be met, \<open>M\<close>, with \<open>W\<close> the requests of the workspace: a request is met when it has its edge, or
  is still among the requests \<open>fr\<close> that have not been looked at.
\<close>

definition obligations ::
  "('c, 'v, 'u) resolver_library \<Rightarrow> resolver_options \<Rightarrow> work_item set \<Rightarrow> string set \<Rightarrow> (work_item \<Rightarrow> bool) \<Rightarrow> bool" where
  "obligations lib opts W ids M \<longleftrightarrow>
     (\<forall>r \<in> W. \<not> wiOptional r \<longrightarrow> \<not> peer_root (wiFrom r) \<longrightarrow> M r) \<and>
     (\<forall>i \<in> ids. registry_id i \<longrightarrow> (\<exists>pv. offers lib opts i pv \<and>
        (\<forall>d \<in> set (rvDependencies pv). \<not> dqOptional d \<longrightarrow> M (transitive_item i d))))"

definition request_met :: "('c, 'v, 'u) resolver_library \<Rightarrow> resolver_options \<Rightarrow> resolver_state \<Rightarrow> work_item set \<Rightarrow> work_item \<Rightarrow> bool" where
  "request_met lib opts st fr r \<longleftrightarrow> r \<in> fr \<or> satisfied lib opts (rsEdges st) r"

definition plain_facts :: "resolver_state \<Rightarrow> bool" where
  "plain_facts st \<longleftrightarrow> (\<forall>f \<in> set (rsFacts st). plain_identity (rqTarget f))"

definition resolver_inv ::
  "('c, 'v, 'u) resolver_library \<Rightarrow> resolver_options \<Rightarrow> work_item set \<Rightarrow> resolver_state \<Rightarrow> work_item set \<Rightarrow> bool" where
  "resolver_inv lib opts W st fr \<longleftrightarrow>
     state_shape st \<and> plain_facts st \<and> (\<forall>r \<in> fr. item_plain r) \<and> obligations lib opts W (set (rsSeen st)) (request_met lib opts st fr)"

lemma transitive_reads [simp]:
  "wiFrom (transitive_item i d) = i" "wiOptional (transitive_item i d) = dqOptional d"
  "wiSource (transitive_item i d) = piSource (dqIdentity d)" "wiName (transitive_item i d) = piName (dqIdentity d)"
  by (simp_all add: transitive_item_def)

lemma registry_no_peer: "registry_id i \<Longrightarrow> \<not> peer_root i"
  by (auto simp: registry_id_def peer_root_def has_prefix_iff)

lemma obligations_mono:
  assumes "obligations lib opts W ids M"
    and "\<And>r. \<not> wiOptional r \<Longrightarrow> \<not> peer_root (wiFrom r) \<Longrightarrow> M r \<Longrightarrow> M' r"
  shows "obligations lib opts W ids M'"
  unfolding obligations_def
proof (intro conjI ballI impI)
  fix i assume i: "i \<in> ids" "registry_id i"
  with assms(1) obtain pv where pv: "offers lib opts i pv"
    "\<forall>d \<in> set (rvDependencies pv). \<not> dqOptional d \<longrightarrow> M (transitive_item i d)" unfolding obligations_def by blast
  have "M' (transitive_item i d)" if "d \<in> set (rvDependencies pv)" "\<not> dqOptional d" for d
    using assms(2) [of "transitive_item i d"] pv(2) that registry_no_peer [OF i(2)] by simp
  with pv(1) show "\<exists>pv. offers lib opts i pv \<and> (\<forall>d \<in> set (rvDependencies pv). \<not> dqOptional d \<longrightarrow> M' (transitive_item i d))" by blast
qed (use assms in \<open>auto simp: obligations_def\<close>)

lemma inv_mono:
  assumes "resolver_inv lib opts W st fr" and "fr \<subseteq> fr'" and "\<And>r. r \<in> fr' \<Longrightarrow> item_plain r"
  shows "resolver_inv lib opts W st fr'"
  using assms obligations_mono [of lib opts W "set (rsSeen st)" "request_met lib opts st fr" "request_met lib opts st fr'"]
  by (auto simp: resolver_inv_def request_met_def)

lemma inv_optional:
  assumes "resolver_inv lib opts W st (insert r fr)" and "wiOptional r"
  shows "resolver_inv lib opts W st fr"
  using assms obligations_mono [of lib opts W "set (rsSeen st)" "request_met lib opts st (insert r fr)" "request_met lib opts st fr"]
  by (auto simp: resolver_inv_def request_met_def)

text \<open>Steps that keep packages and edges.\<close>

lemma inv_same:
  assumes "resolver_inv lib opts W st fr"
    and "rsPackages st' = rsPackages st" "rsSeen st' = rsSeen st" "rsEdges st' = rsEdges st" "rsFacts st' = rsFacts st"
  shows "resolver_inv lib opts W st' fr"
  using assms by (simp add: resolver_inv_def request_met_def [abs_def] state_shape_def plain_facts_def)

section \<open>A request that is met\<close>

lemma link_keeps:
  assumes "satisfied lib opts (rsEdges st) q" and "\<not> peer_root (wiFrom q)"
  shows "satisfied lib opts (rsEdges (link_request r p st)) q"
proof -
  obtain e where e: "e \<in> set (rsEdges st)" "leFrom e = wiFrom q" "leKind e = wiKind q" "leOptional e = wiOptional q"
    "leReference e = wiReference q" "resolves_to lib opts q (leTo e)"
    using assms(1) by (auto simp: satisfied_def)
  with assms(2) have "e \<in> set (rsEdges (link_request r p st))" by (auto simp: link_edges peer_root_def)
  with e show ?thesis by (auto simp: satisfied_def)
qed

lemma link_meets:
  assumes "resolves_to lib opts r (ppPackageID p)"
  shows "satisfied lib opts (rsEdges (link_request r p st)) r"
  using assms unfolding satisfied_def by (intro bexI [of _ "edge_of r p"]) (auto simp: link_edges edge_of_def)

lemma link_obligations:
  assumes "obligations lib opts W ids (request_met lib opts st (insert r fr))" and "resolves_to lib opts r (ppPackageID p)"
  shows "obligations lib opts W ids (request_met lib opts (link_request r p st) fr)"
  using assms(1)
proof (rule obligations_mono)
  fix q assume "\<not> peer_root (wiFrom q)" "request_met lib opts st (insert r fr) q"
  then show "request_met lib opts (link_request r p st) fr q"
    using link_keeps [of lib opts st q r p] link_meets [OF assms(2), of st] by (auto simp: request_met_def)
qed

lemma link_facts_same [simp]: "rsFacts (link_request r p st) = rsFacts st"
  by (simp add: link_request_def removeEdgesFrom_def Let_def)

lemma inv_link:
  assumes "resolver_inv lib opts W st (insert r fr)" and "resolves_to lib opts r (ppPackageID p)"
    and "ppPackageID p \<in> set (rsSeen st)"
  shows "resolver_inv lib opts W (link_request r p st) fr"
proof -
  have "state_shape (link_request r p st)"
    using assms(1,3) by (auto simp: resolver_inv_def state_shape_def link_edges edge_of_def)
  then show ?thesis
    using assms(1) link_obligations [OF _ assms(2), of W "set (rsSeen st)" st fr] by (simp add: resolver_inv_def plain_facts_def)
qed

lemma peers_facts:
  assumes "f \<in> set (rsFacts (appendPeerRequirements pid peers src st))"
  shows "f \<in> set (rsFacts st) \<or> (\<exists>d \<in> set peers. rqTarget f = dqIdentity d)"
proof -
  have "f \<in> set (rsFacts (foldl (\<lambda>s peer. add_fact (\<lambda>order. peer_requirement pid src order peer) s) st peers)) \<Longrightarrow>
     f \<in> set (rsFacts st) \<or> (\<exists>d \<in> set peers. rqTarget f = dqIdentity d)"
    by (induction peers arbitrary: st) (fastforce simp: add_fact_def peer_requirement_def)+
  with assms show ?thesis by (auto simp: appendPeerRequirements_def split: if_splits)
qed

lemma resolution_id:
  assumes "resolved_offer lib opts source name rng = Some (pv, i)"
  shows "\<exists>key. i = identity_ID (rvIdentity pv) key"
  using assms unfolding resolved_offer_def by (simp split: option.splits sum.splits prod.splits) blast

lemma offers_package_id:
  assumes "plain_registry lib opts" and "offers lib opts i pv"
  shows "package_id i"
proof -
  have "piSource (rvIdentity pv) \<in> {''npm'', ''jsr''}" using assms by (auto simp: plain_registry_def plain_version_offer_def)
  moreover obtain key where "i = identity_ID (rvIdentity pv) key"
    using assms(2) resolution_id by (force simp: offers_def)
  ultimately show ?thesis by (auto simp: package_id_def registry_id_def identity_ID_def has_prefix_iff)
qed

lemma inv_commit:
  assumes inv: "resolver_inv lib opts W st (insert r fr)" and plain: "plain_registry lib opts"
    and r: "resolved_offer lib opts (wiSource r) (wiName r) (wiRange r) = Some (pv, ppPackageID p)"
    and p: "lpID (ppPackage p) = ppPackageID p" "ppTransitive p = map (transitive_item (ppPackageID p)) (rvDependencies pv)"
      "ppPeers p = rvPeerRequirements pv"
    and fresh: "ppPackageID p \<notin> set (rsSeen st)"
  shows "resolver_inv lib opts W (commit_package p (link_request r p st)) (fr \<union> set (ppTransitive p))"
proof -
  let ?st = "commit_package p (link_request r p st)" and ?fr = "fr \<union> set (ppTransitive p)"
  have o: "offers lib opts (ppPackageID p) pv" using r by (auto simp: offers_def)
  with plain have v: "plain_version_offer pv" by (simp add: plain_registry_def)
  have "state_shape ?st"
    using inv fresh p(1) offers_package_id [OF plain o]
    by (auto simp: resolver_inv_def state_shape_def link_edges edge_of_def)
  moreover have "plain_facts ?st"
    unfolding plain_facts_def
  proof
    fix f assume "f \<in> set (rsFacts ?st)"
    then have "f \<in> set (rsFacts st) \<or> (\<exists>d \<in> set (ppPeers p). rqTarget f = dqIdentity d)"
      unfolding commit_package_def by (auto dest: peers_facts)
    with inv v p(3) show "plain_identity (rqTarget f)" by (auto simp: resolver_inv_def plain_facts_def plain_version_offer_def)
  qed
  moreover have "\<forall>q \<in> ?fr. item_plain q"
    using inv v p(2) by (auto simp: resolver_inv_def plain_version_offer_def plain_identity_def item_plain_def)
  moreover have "obligations lib opts W (set (rsSeen ?st)) (request_met lib opts ?st ?fr)"
  proof -
    have "obligations lib opts W (set (rsSeen st)) (request_met lib opts (link_request r p st) fr)"
      using inv link_obligations [of lib opts W "set (rsSeen st)" st r fr p] r by (auto simp: resolver_inv_def resolves_to_def)
    then have "obligations lib opts W (set (rsSeen st)) (request_met lib opts ?st ?fr)"
      by (rule obligations_mono) (auto simp: request_met_def)
    moreover have "\<forall>d \<in> set (rvDependencies pv). request_met lib opts ?st ?fr (transitive_item (ppPackageID p) d)"
      by (simp add: request_met_def p(2))
    ultimately show ?thesis using o by (auto simp: obligations_def)
  qed
  ultimately show ?thesis by (simp add: resolver_inv_def)
qed

section \<open>A frontier\<close>

lemma frontier_prepared:
  assumes "groups_of rs gs" and "\<forall>q \<in> set rs. item_plain q" and "r \<in> set rs"
  shows "\<exists>g \<in> set gs. map_of (all_prepared lib opts existing seen gs) (item_group_key r) = Some (prepareGroup lib opts existing seen g) \<and>
    wgSource g = wiSource r \<and> wgRangeName g = wiName r \<and> wgRange g = wiRange r"
proof -
  from assms(1,3) obtain g where g: "g \<in> set gs" "wgKey g = item_group_key r" by (auto simp: groups_of_def)
  with assms(1) obtain q where q: "q \<in> set rs" "group_for q g" by (auto simp: groups_of_def)
  have "wiSource q = wiSource r \<and> wiName q = wiName r \<and> wiRange q = wiRange r"
    using assms(2,3) q g(2) by (intro group_key_inj) (auto simp: group_for_def)
  moreover have "map_of (all_prepared lib opts existing seen gs) (wgKey g) = Some (prepareGroup lib opts existing seen g)"
    using assms(1) g(1) by (intro map_of_is_SomeI) (auto simp: all_prepared_def groups_of_def comp_def)
  ultimately show ?thesis using g q(2) by (auto simp: group_for_def)
qed

text \<open>One request of a frontier whose groups are all prepared.\<close>

lemma inv_request:
  assumes inv: "resolver_inv lib opts W st (insert r fr)" and plain: "plain_registry lib opts"
    and p: "map_of prepared (item_group_key r) = Some (prepareGroup lib opts existing seen0 g)"
      "wgSource g = wiSource r" "wgRangeName g = wiName r" "wgRange g = wiRange r"
    and live: "\<not> ppCancelled (prepareGroup lib opts existing seen0 g)" and seen: "set seen0 \<subseteq> set (rsSeen st)"
    and step: "resolve_request prepared (st, next, fatal) r = (st', next', False)"
  shows "\<exists>more_items. next' = next @ more_items \<and> resolver_inv lib opts W st' (fr \<union> set more_items) \<and> set seen0 \<subseteq> set (rsSeen st')"
proof -
  let ?p = "prepareGroup lib opts existing seen0 g"
  show ?thesis
  proof (cases "ppFailure ?p")
    case (Some f)
    with step p(1) live have s: "st' = report_diag st (buildResolveDiagnostic (wiOptional r) f)" "next' = next" "wiOptional r"
      by (auto simp: resolve_request_def)
    have "resolver_inv lib opts W st' fr" using inv_same [OF inv_optional [OF inv s(3)], of st'] by (simp add: s(1) report_diag_def)
    with s seen show ?thesis by (simp add: report_diag_def)
  next
    case None
    obtain pv where pv: "resolved_offer lib opts (wiSource r) (wiName r) (wiRange r) = Some (pv, ppPackageID ?p)"
      "ppPackageID ?p \<notin> set seen0 \<Longrightarrow> lpID (ppPackage ?p) = ppPackageID ?p \<and>
         ppTransitive ?p = map (transitive_item (ppPackageID ?p)) (rvDependencies pv) \<and> ppPeers ?p = rvPeerRequirements pv"
      using prepareGroup_ok [OF refl None live] p(2-4) by auto
    show ?thesis
    proof (cases "ppPackageID ?p \<in> set (rsSeen st)")
      case True
      with step p(1) live None have s: "st' = link_request r ?p st" "next' = next" by (auto simp: resolve_request_def Let_def)
      from inv_link [OF inv _ True] pv(1) s seen show ?thesis by (auto simp: resolves_to_def)
    next
      case False
      with step p(1) live None have s: "st' = commit_package ?p (link_request r ?p st)" "next' = next @ ppTransitive ?p"
        by (auto simp: resolve_request_def Let_def)
      from False seen have "ppPackageID ?p \<notin> set seen0" by blast
      from pv(2) [OF this] inv_commit [OF inv plain pv(1) _ _ _ False] s seen show ?thesis by auto
    qed
  qed
qed

lemma inv_requests:
  assumes plain: "plain_registry lib opts" and live: "never_cancelled opts"
    and p: "\<And>r. r \<in> set rs \<Longrightarrow> \<exists>g. map_of prepared (item_group_key r) = Some (prepareGroup lib opts existing seen0 g) \<and>
      wgSource g = wiSource r \<and> wgRangeName g = wiName r \<and> wgRange g = wiRange r"
    and inv: "resolver_inv lib opts W st (set rs \<union> set next)" and seen: "set seen0 \<subseteq> set (rsSeen st)"
    and run: "foldl (resolve_request prepared) (st, next, fatal) rs = (st', next', False)"
  shows "resolver_inv lib opts W st' (set next')"
  using p inv seen run
proof (induction rs arbitrary: st "next" fatal)
  case (Cons r rs)
  obtain st1 next1 fatal1 where 1: "resolve_request prepared (st, next, fatal) r = (st1, next1, fatal1)"
    by (cases "resolve_request prepared (st, next, fatal) r")
  with Cons.prems(4) have 2: "foldl (resolve_request prepared) (st1, next1, fatal1) rs = (st', next', False)" by simp
  with requests_errors_stay [OF 2] have f: "fatal1 = False" by blast
  obtain g where g: "map_of prepared (item_group_key r) = Some (prepareGroup lib opts existing seen0 g)"
    "wgSource g = wiSource r" "wgRangeName g = wiName r" "wgRange g = wiRange r" using Cons.prems(1) [of r] by auto
  have i: "resolver_inv lib opts W st (insert r (set rs \<union> set next))" using Cons.prems(2) by simp
  obtain m where m: "next1 = next @ m" "resolver_inv lib opts W st1 (set rs \<union> set next \<union> set m)" "set seen0 \<subseteq> set (rsSeen st1)"
    using inv_request [OF i plain g prepareGroup_live [OF live] Cons.prems(3) 1 [unfolded f]] by blast
  show ?case
    by (rule Cons.IH [OF _ _ m(3) 2]) (use Cons.prems(1) m(1,2) in \<open>auto simp: Un_assoc\<close>)
qed simp

lemma inv_frontier:
  assumes plain: "plain_registry lib opts" and live: "never_cancelled opts"
    and inv: "resolver_inv lib opts W st (set fr)"
    and run: "resolveFrontier lib opts existing sched st fr = (st', next, False)"
  shows "resolver_inv lib opts W st' (set next)"
proof (cases "normalizeWorkItems fr = []")
  case True
  then have "fr = []" unfolding normalizeWorkItems_def by (metis set_empty set_sort)
  with run inv True show ?thesis by (auto simp: resolveFrontier_def)
next
  case False
  let ?rs = "normalizeWorkItems fr" and ?st = "st\<lparr>rsFrontierSeq := rsFrontierSeq st + 1\<rparr>"
  let ?gs = "groupWorkItems ?rs"
  let ?prepared = "prepareGroups lib opts existing sched st (length ?rs) ?gs"
  have same: "set ?rs = set fr" by (simp add: normalizeWorkItems_def)
  from run False have fold: "foldl (resolve_request ?prepared) (?st, [], False) ?rs = (st', next, False)"
    by (auto simp: resolveFrontier_def Let_def split: option.splits)
  have groups: "groups_of ?rs ?gs" by (rule groupWorkItems_groups)
  have none: "\<forall>g \<in> set ?gs. \<not> group_fails lib opts existing (rsSeen st) g"
  proof (rule ccontr)
    assume "\<not> ?thesis"
    then have bad: "\<exists>g \<in> set ?gs. group_fails lib opts existing (rsSeen st) g" by blast
    have "distinct (map wgKey ?gs)" using groups by (simp add: groups_of_def)
    from prepareGroups_failure [OF bad this] obtain g where g: "g \<in> set ?gs" "group_fails lib opts existing (rsSeen st) g"
      "map_of ?prepared (wgKey g) = Some (prepareGroup lib opts existing (rsSeen st) g)" by blast
    from g(1,2) groups obtain r where r: "r \<in> set ?rs" "item_group_key r = wgKey g" "\<not> wiOptional r"
      by (auto simp: groups_of_def group_fails_def)
    from g(2) obtain f where f: "ppFailure (prepareGroup lib opts existing (rsSeen st) g) = Some f" by (auto simp: group_fails_def)
    from requests_failure [OF fold r(1,3) _ prepareGroup_live [OF live] f] g(3) r(2) show False by simp
  qed
  have all: "?prepared = all_prepared lib opts existing (rsSeen st) ?gs" by (rule prepareGroups_all [OF none])
  have plain_fr: "\<forall>q \<in> set ?rs. item_plain q" using inv same by (simp add: resolver_inv_def)
  show ?thesis
  proof (rule inv_requests [OF plain live _ _ _ fold])
    show "\<exists>g. map_of ?prepared (item_group_key r) = Some (prepareGroup lib opts existing (rsSeen st) g) \<and>
        wgSource g = wiSource r \<and> wgRangeName g = wiName r \<and> wgRange g = wiRange r" if "r \<in> set ?rs" for r
      unfolding all using frontier_prepared [OF groups plain_fr that] by blast
    show "resolver_inv lib opts W ?st (set ?rs \<union> set [])" using inv_same [OF inv] by (simp add: same)
  qed simp
qed

section \<open>Errors of a fatal frontier\<close>

lemma request_fatal:
  assumes "resolve_request prepared (st, next, fatal) r = (st', next', fatal')" and "fatal \<longrightarrow> resolve_has_errors (rsDiags st)" and fatal'
  shows "resolve_has_errors (rsDiags st')"
  using assms
  by (auto simp: resolve_request_def report_diag_def buildResolveDiagnostic_def errD_def resolve_has_errors_def Let_def
      split: option.splits if_splits)

lemma requests_fatal:
  assumes "foldl (resolve_request prepared) (st, next, fatal) rs = (st', next', True)" and "fatal \<longrightarrow> resolve_has_errors (rsDiags st)"
  shows "resolve_has_errors (rsDiags st')"
  using assms
proof (induction rs arbitrary: st "next" fatal)
  case (Cons r rs)
  obtain st1 next1 fatal1 where 1: "resolve_request prepared (st, next, fatal) r = (st1, next1, fatal1)"
    by (cases "resolve_request prepared (st, next, fatal) r")
  from request_fatal [OF 1 Cons.prems(2)] have "fatal1 \<longrightarrow> resolve_has_errors (rsDiags st1)" by blast
  from Cons.IH [OF _ this] Cons.prems(1) 1 show ?case by simp
qed simp

lemma frontier_fatal:
  assumes "resolveFrontier lib opts existing sched st fr = (st', next, True)"
  shows "resolve_has_errors (rsDiags st')"
proof (cases "find (\<lambda>r. \<not> Allows (roPolicy opts) (wiSource r)) (normalizeWorkItems fr)")
  case None
  with assms have "foldl (resolve_request (prepareGroups lib opts existing sched st (length (normalizeWorkItems fr))
      (groupWorkItems (normalizeWorkItems fr)))) (st\<lparr>rsFrontierSeq := rsFrontierSeq st + 1\<rparr>, [], False) (normalizeWorkItems fr) = (st', next, True)"
    by (auto simp: resolveFrontier_def Let_def split: if_splits)
  then show ?thesis by (rule requests_fatal) simp
next
  case (Some r)
  with assms show ?thesis
    by (auto simp: resolveFrontier_def Let_def report_diag_def errD_def resolve_has_errors_def split: if_splits)
qed

lemma frontiers_fatal:
  assumes "run_frontiers lib opts existing sched fuel st fr = Some (st', True)"
  shows "resolve_has_errors (rsDiags st')"
  using assms
proof (induction fuel arbitrary: st fr)
  case (Suc fuel)
  then show ?case by (auto split: if_splits prod.splits dest: frontier_fatal)
qed (simp split: if_splits)

section \<open>The loops\<close>

lemma inv_frontiers:
  assumes plain: "plain_registry lib opts" and live: "never_cancelled opts"
    and inv: "resolver_inv lib opts W st (set fr)"
    and run: "run_frontiers lib opts existing sched fuel st fr = Some (st', False)"
  shows "resolver_inv lib opts W st' {}"
  using inv run
proof (induction fuel arbitrary: st fr)
  case 0
  then show ?case by (simp split: if_splits)
next
  case (Suc fuel)
  show ?case
  proof (cases "fr = []")
    case True
    with Suc.prems show ?thesis by simp
  next
    case False
    obtain st1 next1 fatal1 where 1: "resolveFrontier lib opts existing sched st fr = (st1, next1, fatal1)"
      by (cases "resolveFrontier lib opts existing sched st fr")
    with Suc.prems(2) False have f: "fatal1 = False" "run_frontiers lib opts existing sched fuel st1 next1 = Some (st', False)"
      by (auto split: if_splits)
    from Suc.IH [OF inv_frontier [OF plain live Suc.prems(1) 1 [unfolded f(1)]] f(2)] show ?thesis .
  qed
qed

lemma controllers_targets:
  assumes "c \<in> set (Controllers (Build_requirements facts))"
  shows "rqTarget c \<in> rqTarget ` set facts"
proof -
  have n: "rqTarget (normalize_requirement i r) = rqTarget r" for i r by (simp add: normalize_requirement_def Let_def)
  have "c \<in> set (ordered_requirements facts)" using assms survivors_subset [of SlotKey "ordered_requirements facts"] by (auto simp: Controllers_survivors)
  then show ?thesis by (auto simp: ordered_requirements_def n in_set_enumerate_eq)
qed

lemma inv_peers:
  assumes plain: "plain_registry lib opts" and live: "never_cancelled opts"
    and inv: "resolver_inv lib opts W st {}"
    and run: "resolvePeerRequirements lib opts existing sched rounds fuel i st = Some st'" and ok: "\<not> resolve_has_errors (rsDiags st')"
  shows "resolver_inv lib opts W st' {}"
  using inv run
proof (induction rounds arbitrary: i st)
  case (Suc rounds)
  show ?case
  proof (cases "length (rsFacts st) + 1 < i \<or> peer_items lib st = []")
    case True
    with Suc.prems show ?thesis by (auto split: if_splits)
  next
    case False
    with Suc.prems(2) obtain st1 f where 1: "run_frontiers lib opts existing sched fuel st (peer_items lib st) = Some (st1, f)"
      and rest: "(if f \<or> length (rsFacts st1) = length (rsFacts st) then Some st1
             else resolvePeerRequirements lib opts existing sched rounds fuel (i + 1) st1) = Some st'"
      by (auto split: option.splits)
    have f: "f = False" using rest ok 1 frontiers_fatal [of lib opts existing sched fuel st "peer_items lib st" st1] by (cases f) auto
    have items: "item_plain r" if "r \<in> set (peer_items lib st)" for r
      using that Suc.prems(1) controllers_targets
      by (force simp: peer_items_def item_plain_def resolver_inv_def plain_facts_def plain_identity_def)
    have "resolver_inv lib opts W st1 {}"
      by (rule inv_frontiers [OF plain live inv_mono [OF Suc.prems(1)] 1 [unfolded f]]) (use items in auto)
    with rest Suc.IH show ?thesis by (auto simp: f split: if_splits)
  qed
qed simp

section \<open>The start\<close>

lemma inv_start:
  assumes e: "enqueue_workspace lib opts world g = (st, fr)" and plain: "plain_requests lib opts world g"
  shows "resolver_inv lib opts (set (workspace_requests lib opts world g)) st (set (applyRequirementControllers (rsFacts st) fr))"
proof -
  have l: "local_inv st" using local_enqueue [of lib opts world g] by (simp add: e)
  have facts: "\<forall>f \<in> set (rsFacts st). plain_identity (rqTarget f)" and fr: "\<forall>r \<in> set fr. item_plain r"
    using plain by (simp_all add: plain_requests_def e)
  have "plain_identity (rqTarget c)" if "controller_at (rsFacts st) slot = Some c" for c slot
  proof -
    have "c \<in> set (Controllers (Build_requirements (rsFacts st)))"
      using find_SomeD [OF that [unfolded controller_at_def]] by simp
    from controllers_targets [OF this] facts show ?thesis by auto
  qed
  then have "item_plain r" if "r \<in> set (applyRequirementControllers (rsFacts st) fr)" for r
    using that fr by (auto simp: applyRequirementControllers_def item_plain_def plain_identity_def split: if_splits option.splits)
  then show ?thesis
    using l facts by (auto simp: resolver_inv_def local_inv_def plain_facts_def obligations_def request_met_def workspace_requests_def e)
qed

section \<open>The end\<close>

lemma find_registry_edge: "satisfied lib opts es r \<Longrightarrow> (\<And>e. e \<in> set es \<Longrightarrow> leFrom e = wiFrom r \<Longrightarrow> e \<in> set es') \<Longrightarrow> satisfied lib opts es' r"
  unfolding satisfied_def by blast

lemma inv_reconciled:
  assumes "resolver_inv lib opts W st {}"
  shows "resolver_inv lib opts W (reconcilePeerEnvironmentEdges lib st) {}"
proof -
  have keep: "satisfied lib opts (rsEdges (reconcilePeerEnvironmentEdges lib st)) r"
    if "satisfied lib opts (rsEdges st) r" "\<not> peer_root (wiFrom r)" for r
    using that(1) by (rule find_registry_edge) (use that(2) in \<open>simp add: reconcilePeerEnvironmentEdges_def peer_edge_kept_def peer_root_def\<close>)
  have "obligations lib opts W (set (rsSeen st)) (request_met lib opts (reconcilePeerEnvironmentEdges lib st) {})"
    using assms unfolding resolver_inv_def by (elim conjE, elim obligations_mono) (use keep in \<open>auto simp: request_met_def\<close>)
  then show ?thesis
    using assms by (simp add: resolver_inv_def state_shape_def plain_facts_def reconcilePeerEnvironmentEdges_def)
qed

lemma complete_pruned:
  assumes inv: "resolver_inv lib opts W st {}" and W: "W = set requests" and st': "pruneUnreachablePackages st = Some st'"
    and lf: "lfPackages lf = rsPackages st'" "lfEdges lf = rsEdges st'"
  shows "complete_lock lib opts requests lf"
proof -
  let ?ids = "lpID ` set (rsPackages st)" and ?es = "set (rsEdges st)"
  let ?K = "kept_packages ?ids ?es"
  have shape: "state_shape st" and ob: "obligations lib opts W (set (rsSeen st)) (request_met lib opts st {})"
    using inv by (simp_all add: resolver_inv_def)
  have seen: "set (rsSeen st) = ?ids" using shape by (metis list.set_map state_shape_def)
  have to: "leTo e \<in> ?ids" if "e \<in> ?es" for e using shape that by (simp add: state_shape_def seen)
  have p: "rsPackages st' = filter (\<lambda>p. lpID p \<in> ?K) (rsPackages st)"
    "rsEdges st' = filter (\<lambda>e. leTo e \<in> ?K \<and> (leFrom e \<in> ?ids \<longrightarrow> leFrom e \<in> ?K)) (rsEdges st)"
    using pruned [of st] st' by auto
  have K: "?K \<subseteq> ?ids" using kept_packages_ids by blast
  then have ids': "lpID ` set (rsPackages st') = ?K" by (auto simp: p(1))
  have kept: "e \<in> set (rsEdges st')" if "e \<in> ?es" "leFrom e \<notin> ?ids \<or> leFrom e \<in> ?K" for e
  proof -
    have "leTo e \<in> ?K" using that(2)
    proof
      assume "leFrom e \<notin> ?ids"
      then show ?thesis by (rule kept_packages.root [OF that(1) _ to [OF that(1)]])
    next
      assume "leFrom e \<in> ?K"
      then show ?thesis by (rule kept_packages.step [OF _ that(1) refl to [OF that(1)]])
    qed
    with that show ?thesis by (auto simp: p(2))
  qed
  have reach: "x \<in> kept_packages ?K (set (rsEdges st'))" if "x \<in> ?K" for x
    using that
  proof (induction rule: kept_packages.induct)
    case (root e)
    then have "leTo e \<in> ?K" by (intro kept_packages.root)
    moreover have "leFrom e \<notin> ?K" using root(2) K by blast
    ultimately show ?case using root by (intro kept_packages.root kept) auto
  next
    case (step x e)
    then have "leTo e \<in> ?K" by (intro kept_packages.step [OF step(1)])
    with step show ?case by (intro kept_packages.step [OF step.IH] kept) auto
  qed
  have sat: "satisfied lib opts (rsEdges st') r" if "satisfied lib opts (rsEdges st) r" "wiFrom r \<notin> ?ids \<or> wiFrom r \<in> ?K" for r
    using that(1) by (rule find_registry_edge) (use kept that(2) in auto)
  have reg: "\<exists>pv. offers lib opts i pv \<and> (\<forall>d \<in> set (rvDependencies pv). \<not> dqOptional d \<longrightarrow> satisfied lib opts (rsEdges st') (transitive_item i d))"
    if i: "i \<in> ?K" "registry_id i" for i
  proof -
    from i K ob obtain pv where "offers lib opts i pv"
      "\<forall>d \<in> set (rvDependencies pv). \<not> dqOptional d \<longrightarrow> satisfied lib opts (rsEdges st) (transitive_item i d)"
      unfolding obligations_def request_met_def seen by blast
    with sat i(1) show ?thesis by auto
  qed
  have req: "satisfied lib opts (rsEdges st') r"
    if "r \<in> W" "\<not> wiOptional r" "\<not> peer_root (wiFrom r)" "\<not> package_id (wiFrom r) \<or> wiFrom r \<in> ?K" for r
  proof (rule sat)
    show "satisfied lib opts (rsEdges st) r" using ob that by (simp add: obligations_def request_met_def)
    show "wiFrom r \<notin> ?ids \<or> wiFrom r \<in> ?K" using that(4) shape by (auto simp: state_shape_def seen [symmetric])
  qed
  have "distinct (map lpID (rsPackages st'))" using shape by (simp add: state_shape_def p(1) distinct_map_filter)
  moreover have "\<forall>e \<in> set (rsEdges st'). leTo e \<in> ?K" by (simp add: p(2))
  moreover have "?K \<subseteq> kept_packages ?K (set (rsEdges st'))" using reach by blast
  ultimately show ?thesis
    using reg req W unfolding complete_lock_def Let_def lf ids' by simp
qed

lemma complete_normal:
  assumes "complete_lock lib opts requests lf"
  shows "complete_lock lib opts requests (normalize_lock lf)"
proof -
  have n: "lpID (normalize_package p) = lpID p" for p by (simp add: normalize_package_def)
  have ids: "lpID ` set (lfPackages (normalize_lock lf)) = lpID ` set (lfPackages lf)"
    by (simp add: normalize_lock_def image_image n)
  have es: "set (lfEdges (normalize_lock lf)) = set (lfEdges lf)" by (simp add: normalize_lock_def)
  have "mset (map lpID (lfPackages (normalize_lock lf))) = mset (map lpID (lfPackages lf))"
    by (simp add: normalize_lock_def image_mset.compositionality comp_def n)
  then have d: "distinct (map lpID (lfPackages (normalize_lock lf))) = distinct (map lpID (lfPackages lf))"
    by (rule mset_eq_imp_distinct_iff)
  have s: "satisfied lib opts (lfEdges (normalize_lock lf)) = satisfied lib opts (lfEdges lf)"
    by (simp add: satisfied_def [abs_def] es)
  show ?thesis using assms unfolding complete_lock_def Let_def ids d s es .
qed

lemma graph_complete:
  assumes run: "resolve_graph lib opts world old sched fuel g = Some st" and ok: "\<not> resolve_has_errors (rsDiags st)"
    and live: "never_cancelled opts" and plain: "plain_registry lib opts" "plain_requests lib opts world g"
  shows "complete_lock lib opts (workspace_requests lib opts world g) (resolver_lock g st requirements)"
proof -
  let ?W = "set (workspace_requests lib opts world g)" and ?ex = "lockPackagesByID old"
  obtain st0 fr where e: "enqueue_workspace lib opts world g = (st0, fr)" by (cases "enqueue_workspace lib opts world g")
  from run obtain st1 f where 1: "run_frontiers lib opts ?ex sched fuel st0 (applyRequirementControllers (rsFacts st0) fr) = Some (st1, f)"
    and rest: "(if resolve_has_errors (rsDiags st1) then Some st1 else stabilizePeerRequirements lib opts ?ex sched fuel st1) = Some st"
    by (auto simp: resolve_graph_def Let_def e split: option.splits)
  have no: "\<not> resolve_has_errors (rsDiags st1)" using rest ok by (auto split: if_splits)
  then have f: "f = False" using 1 frontiers_fatal [of lib opts ?ex sched fuel st0 _ st1] by (cases f) auto
  have i1: "resolver_inv lib opts ?W st1 {}"
    by (rule inv_frontiers [OF plain(1) live inv_start [OF e plain(2)] 1 [unfolded f]])
  from rest no obtain st2 where 2: "resolvePeerRequirements lib opts ?ex sched fuel fuel 0 st1 = Some st2"
    and "map_option recomputeSelectedSlots (pruneUnreachablePackages (reconcilePeerEnvironmentEdges lib st2)) = Some st"
    by (auto simp: stabilizePeerRequirements_def split: option.splits)
  then obtain st4 where 4: "pruneUnreachablePackages (reconcilePeerEnvironmentEdges lib st2) = Some st4" "st = recomputeSelectedSlots st4"
    by auto
  have "rsDiags st4 = rsDiags st2"
    using pruned [of "reconcilePeerEnvironmentEdges lib st2"] 4(1) by (auto simp: reconcilePeerEnvironmentEdges_def)
  then have "\<not> resolve_has_errors (rsDiags st2)" using ok by (simp add: 4(2) recomputeSelectedSlots_def Let_def)
  from inv_reconciled [OF inv_peers [OF plain(1) live i1 2 this]]
  have i3: "resolver_inv lib opts ?W (reconcilePeerEnvironmentEdges lib st2) {}" .
  show ?thesis
    by (rule complete_pruned [OF i3 refl 4(1)]) (simp_all add: resolver_lock_def 4(2) recomputeSelectedSlots_def Let_def empty_lock_def)
qed

lemma resolve_complete:
  fixes lib opts
  defines "all_opts \<equiv> complete_backends lib opts"
  assumes run: "ResolveNPM lib opts world old sched fuel (Some g) = Some (lf, ds)" and ok: "\<not> resolve_has_errors ds"
    and live: "never_cancelled all_opts" and plain: "plain_registry lib all_opts" "plain_requests lib all_opts world g"
  shows "complete_lock lib all_opts (workspace_requests lib all_opts world g) lf"
proof -
  have m: "roMode opts \<noteq> ''sync''" "\<not> spOffline (roPolicy opts)"
    using run ok by (auto simp: ResolveNPM_def resolve_refused_def resolve_has_errors_def errD_def split: if_splits)
  from run m obtain st where st: "resolve_graph lib all_opts world old sched fuel g = Some st"
    by (auto simp: ResolveNPM_def all_opts_def split: option.splits)
  obtain requirements warnings where t: "finalizeRequirementTape lib st = (requirements, warnings)"
    by (cases "finalizeRequirementTape lib st")
  from run m st t have lf: "lf = normalize_lock (resolver_lock g st requirements)" "ds = SortDiagnostics (rsDiags st @ warnings)"
    by (simp_all add: ResolveNPM_def all_opts_def)
  have "\<not> resolve_has_errors (rsDiags st)"
    using ok by (auto simp: lf(2) resolve_has_errors_def list_ex_iff)
  from complete_normal [OF graph_complete [OF st this live plain]] show ?thesis by (simp add: lf(1))
qed

end
