(* ===== verification/Spec2Isabelle.thy ===== *)
theory Spec2Isabelle
  imports Routing_Safe Exec_Props Count_Correct Manifest_Accept Runner_Props Package_Identity Authoring_Edit Concept_Props Lockfile_Props Instance_Props Manifest_Demo
    Patch_Props Resolver_Schedule Resolver_Ends Resolver_Trust Resolver_Complete
begin

text \<open>
  A verification development for tspack, a workspace and build tool for TypeScript written in Go.

  The program.  A workspace is described by one manifest (\<open>internal/manifest\<close>), which a frontend
  decodes from \<open>manifest.tsx\<close>.  \<open>Validate\<close> checks it and fills in defaults; \<open>internal/graph\<close> builds
  the workspace graph of packages, targets and dependencies from it.  Dependencies are authored in
  layers (\<open>internal/authoring\<close>, \<open>internal/concepts\<close>) and become requirements on shared environments
  (\<open>internal/requirements\<close>); packages have identities (\<open>internal/packageidentity\<close>), and the outcome of
  resolution is kept in a lock file (\<open>internal/lockfile\<close>), which is compared with the graph before it
  is used.  Workflows of the manifest are compiled (\<open>internal/workflow\<close>: \<open>plan.go\<close>, \<open>flow.go\<close>) into a
  program of nodes and transitions, which a pure state machine (\<open>machine.go\<close>) runs and an executor
  (\<open>flow_executor.go\<close>, \<open>executor.go\<close>) drives, starting effects and reporting their results.

  The theories, by the part of the program they model (all paths under \<open>src/internal\<close>).

    \<^item> Go itself: \<open>Go_Prelude\<close> (strings, decimal texts, sorting, maps with zero values), \<open>Go_Text\<close>
      (trimming and splitting), \<open>Go_Paths\<close> (\<open>path\<close> and \<open>path/filepath\<close>), \<open>Path_Util\<close>
      (\<open>pathutil/pathutil.go\<close>), \<open>Diagnostics\<close> (\<open>diag/diag.go\<close>).
    \<^item> Searches: \<open>Graph_Search\<close>, \<open>Cycle_Search\<close>, \<open>Target_Search\<close>: depth-first and breadth-first
      searches as the code writes them, with the locale \<open>finite_graph\<close> that proves them exact; it is
      interpreted where a component searches (jobs, flow nodes, build targets).
    \<^item> The manifest: \<open>Manifest_IR\<close> and \<open>Manifest_Records\<close> (every struct of \<open>manifest/ir.go\<close>),
      \<open>Manifest_Checks\<close>, \<open>Manifest_Packages\<close>, \<open>Manifest_Runs\<close>, \<open>Manifest_Targets\<close>,
      \<open>Manifest_Validate\<close> (\<open>Validate\<close> and all its passes, in the order of the code) and
      \<open>Manifest_Workflow\<close> (\<open>manifest/workflow_validation.go\<close>); \<open>Manifest_Accept\<close> and \<open>Target_Props\<close>
      say what acceptance means; \<open>Manifest_Demo\<close> is an accepted manifest for the witnesses.
    \<^item> The workspace graph: \<open>Workspace_Graph\<close> (\<open>graph/graph.go\<close>) and \<open>Graph_Props\<close>.
    \<^item> Workflows: \<open>Flow_IR\<close> (the data of \<open>flow.go\<close> and \<open>plan.go\<close>), \<open>Workflow_Plan\<close>,
      \<open>Workflow_Build\<close>, \<open>Workflow_Compile\<close>, \<open>Workflow_Validate\<close> (\<open>ValidateFlow\<close>),
      \<open>Workflow_Machine\<close>, \<open>Machine_Settle\<close>, \<open>Machine_Step\<close> (\<open>machine.go\<close>), \<open>Workflow_Exec\<close>
      (\<open>RunFlow\<close>) and \<open>Effect_Runner\<close> (\<open>executor.go\<close>).  \<open>Build_Props\<close>, \<open>Compile_Props\<close>,
      \<open>Build_Correct\<close> and \<open>Plan_Correct\<close> carry the invariant \<open>built\<close> of the builder through every
      compile function; \<open>Validate_Props\<close> says what a flow without diagnostics guarantees;
      \<open>Machine_Props\<close> and \<open>Machine_Runs\<close> what every event sequence guarantees; \<open>Routing_Safe\<close>
      puts compiler and machine together; \<open>Count_Correct\<close> is the expansion budget; \<open>Exec_Props\<close> and
      \<open>Runner_Props\<close> are the executor.
    \<^item> Dependencies: \<open>Tape\<close> (the loop that \<open>requirements\<close> and \<open>authoring\<close> share, with its locale),
      \<open>Requirements\<close>, \<open>Authoring\<close> and \<open>Authoring_Edit\<close>, \<open>Concepts\<close>, \<open>Concept_Merge\<close> and
      \<open>Concept_Props\<close>, \<open>Package_Identity\<close>.
    \<^item> The lock file: \<open>Lockfile\<close> and \<open>Lockfile_Check\<close> (\<open>lockfile/lockfile.go\<close>),
      \<open>Module_Instances\<close> (\<open>lockfile/module_instances.go\<close>), \<open>Lock_Consistency\<close>
      (\<open>CheckGraphConsistency\<close>), with \<open>Lockfile_Props\<close>, \<open>Instance_Props\<close> and
      \<open>Lock_Graph_Props\<close>.
    \<^item> Patches: \<open>Patch_Apply\<close> (\<open>patchapply/patchapply.go\<close>: the parser of unified diffs, their application,
      the guards on paths) and \<open>Patch_Props\<close> (which trees come out, and that printing and parsing a
      patch, and applying it backwards, lead back).
    \<^item> The resolver: \<open>Resolver_Sources\<close> (\<open>capability\<close>, \<open>resolver/source_policy.go\<close>,
      \<open>occupancy_controller.go\<close>), \<open>Resolver_Registry\<close> (\<open>registry_backend.go\<close>), \<open>Resolver_Prepare\<close> (one
      group of requests: metadata, version, artifact), \<open>Resolver_Run\<close> (frontiers, peers, pruning) and
      \<open>Resolver_Main\<close> (\<open>local_git.go\<close>, the requests of the workspace, \<open>ResolveNPM\<close>).  \<open>Resolver_Props\<close> has the
      choice of a version and the guards of an artifact, \<open>Resolver_Groups\<close> what the workers of a frontier
      prepare, \<open>Resolver_Local\<close> the state before the first frontier; on them rest \<open>Resolver_Schedule\<close>
      (the schedule does not matter), \<open>Resolver_Ends\<close> (resolution ends), \<open>Resolver_Trust\<close> (what may enter
      a lock file) and \<open>Resolver_Complete\<close> (nothing required is missing).
  How the code is written down.  A Go struct is a record or a datatype, a pointer that may be nil an
  option, an error a value of a sum (left is the error).  A Go string is a list of bytes.  A Go
  \<open>int\<close> that only counts or orders is an \<open>int\<close> without bounds; where the code guards against
  overflow (the expansion budget, a \<open>uint64\<close>) the width is written out.  A Go map that is only read is
  a function or an association list; where the code iterates over a map the order is an argument, and
  the theorems hold for every order.  Goroutines of the executor are rounds of completions that arrive
  in an arbitrary order.

  Loops and fuel.  \<open>settleControl\<close> loops until a pass changes nothing; it is a total function, since
  every pass that changes something lowers a measure.  \<open>RunFlow\<close> takes one record per round from its
  environment; one round per node plus one is shown to be enough.  The graph searches take fuel above
  the number of nodes, which \<open>finite_graph\<close> proves enough.  \<open>instantiate\<close> of the module instances takes
  \<open>instance_budget\<close>, a bound computed from the lock file, which \<open>Instance_Props\<close> proves enough.
  The frontiers and the rounds of peers of the resolver take fuel; \<open>Resolver_Ends\<close> proves that one more
  than the number of package versions on offer is enough and that more changes nothing.  Workers of
  the resolver are an argument \<open>sched\<close>, which says how many groups were handed out before a failure
  stopped the producer.
  Library arguments.  What the code takes from libraries that are not part of the repository or of
  Go's plain core is an argument: SHA-256 and its hexadecimal text, the semantic-version library,
  \<open>net/url\<close> and JSON syntax, the Unicode case tables, \<open>%v\<close> of numbers and \<open>%q\<close> of texts, the effects
  that a workflow starts.  Theorems assume nothing of them unless their statement says so.
  For the resolver these are the fields of \<open>resolver_library\<close>, a registry is a \<open>registry_client\<close>, and the
  file system and \<open>git\<close> are \<open>local_world\<close>; its context is never done, though a registry may report that a
  request was cancelled.
  Not modelled, and why.
    \<^item> Input and output: process control (\<open>workflow/process_*.go\<close>), artifact transport, \<open>store\<close>,
      \<open>materialize\<close>, \<open>pack\<close>, \<open>templates\<close>, \<open>adoption\<close>, reading and writing of TOML and JSON; they move bytes
      between files and processes.
    \<^item> The command line (\<open>cli\<close>, \<open>project\<close>): argument parsing, terminal output, and calls to the parts
      above in sequence.
    \<^item> Drivers of external tools: \<open>compiler\<close>, \<open>nodecmd\<close>, \<open>bridge\<close>, \<open>integrations\<close>, \<open>testcmd\<close>, \<open>audit\<close>.
    \<^item> \<open>runEffectWave\<close> of \<open>flow_executor.go\<close>, which nothing calls; \<open>cloneSnapshot\<close>, since values of the
      logic are never shared.
\<close>

section \<open>The machine\<close>

text \<open>
  C1.  A compiled workflow never loses its way.  Take any declaration that \<open>BuildFlow\<close> accepts,
  authored as a flow or as jobs, any step and trace limit, and any sequence of events, accepted
  or not.  Then a further event is never rejected because a node has no transition, or more than
  one, for what happened, because an effect or a predicate is missing, or because a match has no
  arm for the outcome.
\<close>

theorem built_flows_never_misroute:
  "case BuildFlow num d of Inl _ \<Rightarrow> True
   | Inr f \<Rightarrow>
       (case Step f (fst (replay f (NewSnapshot f l t) es)) e of
          Inl (err, _) \<Rightarrow> \<not> routing_error err
        | Inr _ \<Rightarrow> True)"
  using BuildFlow_routes [of num d] Step_error [OF _ replay_named_outcomes]
  by (auto split: sum.splits)

text \<open>
  C2.  Whatever events are fed to the machine, each effect is started at most once and finished
  at most once, in that order; its state is running exactly between the two (unless the whole
  run is cancelled) and after the result it is for good the state of that result.
\<close>

theorem effects_run_at_most_once:
  "case filter (concerns i) (map trEvent (snd (replay f (NewSnapshot f l t) es))) of
     [] \<Rightarrow> state_of (fst (replay f (NewSnapshot f l t) es)) i \<noteq> StateRunning
   | [a] \<Rightarrow> started i a \<and> state_of (fst (replay f (NewSnapshot f l t) es)) i
       \<in> {StateRunning, StateSucceeded, StateFailed, StateTimedOut, StateCancelled}
   | [a, b] \<Rightarrow> started i a \<and> finished i b \<and>
       state_of (fst (replay f (NewSnapshot f l t) es)) i = result_state (evKind b) StateRunning
   | _ \<Rightarrow> False"
  using replay_effect_life [of i f l t es] by (simp add: effect_life_def)

text \<open>
  C3.  The compiler emits well-formed programs: of an authored flow, \<open>ValidateFlow\<close> finds no
  fault in the header, the entry, the regions, the transitions or the references, and the only
  fault it finds in a node is a join of no branches, which is what the author wrote.
\<close>

theorem compiled_flows_are_well_formed:
  "case compile_flow d node of Inl _ \<Rightarrow> True
   | Inr b \<Rightarrow>
       header_diags (bFlow b) = [] \<and> entry_diags (bFlow b) = [] \<and>
       regions_diags {} (flowRegions (bFlow b)) = [] \<and>
       transitions_diags (bFlow b) {} {} (flowTransitions (bFlow b)) = [] \<and>
       concat (map (references_diags (bFlow b)) (flowNodes (bFlow b))) = [] \<and>
       nodes_diags {} (flowNodes (bFlow b)) =
         map (\<lambda>n. diag_text ''TSPACK_WORKFLOW_JOIN_INVALID'' (nodeIdentity n @ '' has no branches to join''))
           (filter (\<lambda>n. nodeKind n = NodeJoin \<and> nodeWaitFor n = []) (flowNodes (bFlow b)))"
  using compiled_structure [of d node] by (auto split: sum.splits)

text \<open>
  C4.  The outcomes, values and cleanup failures of a run are exactly what the accepted events
  reported, in order: nothing else writes them.
\<close>

theorem results_are_what_was_reported:
  "(snOutcomes (fst (replay f (NewSnapshot f l t) es)), snValues (fst (replay f (NewSnapshot f l t) es)),
      snCleanupFailures (fst (replay f (NewSnapshot f l t) es))) =
     foldl (post_result f) (Map.empty, Map.empty, [])
       (map trEvent (snd (replay f (NewSnapshot f l t) es)))"
  using replay_ledger [of f l t es] by (simp add: ledger_def)

text \<open>
  C5.  The step budget is never exceeded and the trace is a sliding window: the snapshot counts
  the accepted events, at most the step limit, holds the last ones, at most the trace limit, and
  counts the records that were dropped.
\<close>

theorem steps_and_trace_are_bounded:
  "snStepCount (fst (replay f (NewSnapshot f l t) es)) = int (length (snd (replay f (NewSnapshot f l t) es))) \<and>
   int (length (snd (replay f (NewSnapshot f l t) es))) \<le> positive_or DefaultStepLimit l \<and>
   snTrace (fst (replay f (NewSnapshot f l t) es)) =
     drop (length (snd (replay f (NewSnapshot f l t) es)) - nat (positive_or DefaultTraceLimit t))
       (snd (replay f (NewSnapshot f l t) es)) \<and>
   snDroppedTrace (fst (replay f (NewSnapshot f l t) es)) =
     int (length (snd (replay f (NewSnapshot f l t) es)) - nat (positive_or DefaultTraceLimit t))"
  using replay_budget [of l t f es] by (simp add: within_budget_def)

text \<open>
  C6.  A history replays: the events that were accepted, fed to a new machine, are all accepted
  and lead to the same snapshot and the same records; rejected events leave nothing behind.
\<close>

theorem histories_replay:
  "replay f (NewSnapshot f l t) (map trEvent (snd (replay f (NewSnapshot f l t) es)))
     = replay f (NewSnapshot f l t) es"
  by (rule replay_history_replays)

text \<open>
  C7.  The trace is a chain: records are numbered from one without gaps, and the active nodes a
  record ends with are those the next one starts from, from none to the present ones.
\<close>

theorem traces_are_chains:
  "map trStep (snd (replay f (NewSnapshot f l t) es))
     = [1 .. int (length (snd (replay f (NewSnapshot f l t) es)))] \<and>
   map trStateBefore (snd (replay f (NewSnapshot f l t) es))
     @ [snActive (fst (replay f (NewSnapshot f l t) es))]
     = [] # map trStateAfter (snd (replay f (NewSnapshot f l t) es))"
  by (rule replay_trace_linked)

text \<open>
  C8.  After an accepted event the machine is at rest: no waiting node has all its dependencies,
  no control node is ready, the active nodes are sorted.  Only effects are left to do.
\<close>

theorem accepted_events_settle:
  "case Step f s e of Inl _ \<Rightarrow> True | Inr (s', _) \<Rightarrow> quiescent f s' \<and> sorted (snActive s')"
  using Step_quiescent [of f s e] by (auto split: sum.splits)

text \<open>
  C9.  Node states follow their life cycle: over any events a node moves only along the
  permitted changes, so a node that has finished, failed, timed out, been blocked or been
  cancelled stays so.
\<close>

theorem node_states_follow_the_life_cycle:
  "lifecycle\<^sup>*\<^sup>* (state_of s i) (state_of (fst (replay f s es)) i)"
  by (rule replay_lifecycle)

text \<open>
  C10.  The control loop terminates because each pass over the nodes either makes progress, and
  then moves down a well-founded order on snapshots, or changes nothing and ends the loop; this
  holds on every flow, cyclic ones included.
\<close>

theorem settle_passes_decrease:
  "wf (settle_order f) \<and>
   (case settle_pass f (flowNodes f) (s, False) of Inl _ \<Rightarrow> True
    | Inr (s', progress) \<Rightarrow> if progress then (s', s) \<in> settle_order f else s' = s)"
proof
  show "wf (settle_order f)" by (simp add: settle_order_def)
  show "case settle_pass f (flowNodes f) (s, False) of Inl _ \<Rightarrow> True
      | Inr (s', progress) \<Rightarrow> if progress then (s', s) \<in> settle_order f else s' = s"
    using settle_pass_order [of f "flowNodes f" s False] by (auto split: sum.splits)
qed

section \<open>The validator and the planner\<close>

text \<open>
  C11.  The graph searches of the validator decide what they mean to on every flow: marking
  finds exactly the nodes reachable from the entry, the depth-first visit finds a cycle exactly
  when a reachable node lies on one, and the breadth-first search decides reachability.
\<close>

theorem graph_searches_are_exact:
  "reachable f = Some {i. (flowEntry f, i) \<in> (edges (adjacency f))\<^sup>*} \<and>
   (has_cycle f \<longleftrightarrow>
     (\<exists>i. (flowEntry f, i) \<in> (edges (adjacency f))\<^sup>* \<and> (i, i) \<in> (edges (adjacency f))\<^sup>+)) \<and>
   (flowNodeReaches f a b \<longleftrightarrow> (a, b) \<in> (edges (adjacency f))\<^sup>*)"
  using reachable_exact has_cycle_exact flowNodeReaches_exact by blast

text \<open>
  C12.  A matrix expands to every combination of one value per axis, axes in the order of their
  names, and to as many as the product of the axes' sizes; and when the values of each axis are
  written differently in JSON, no two of these instances of a job share an identity, whatever the
  values contain.
\<close>

theorem matrix_expands_to_all_combinations:
  "set (expandMatrix m) = {c. list_all2 (\<lambda>kv axis. fst kv = fst axis \<and> snd kv \<in> set (snd axis)) c (sort_key fst m)} \<and>
   length (expandMatrix m) = prod_list (map (length \<circ> snd) m) \<and>
   (list_all (\<lambda>axis. distinct (map (json_marshal num) (snd axis))) m \<longrightarrow>
     distinct (map (matrixIdentity num job) (expandMatrix m)))"
  using expandMatrix_set [of m] length_expandMatrix [of m] matrix_identities_distinct [of m num job]
  by (simp add: takes_one_def list_all_iff)

theorem matrix_expands_to_all_combinations_witness:
  "distinct (map (matrixIdentity (\<lambda>_. ''0'') ''j'')
     (expandMatrix [(''os'', [JString ''a,b'', JBool True]), (''k'', [JString ''x'', JString ''y''])]))"
proof -
  have "list_all (\<lambda>axis. distinct (map (json_marshal (\<lambda>_. ''0'')) (snd axis)))
      [(''os'', [JString ''a,b'', JBool True]), (''k'', [JString ''x'', JString ''y''])]" by code_simp
  then show ?thesis using matrix_expands_to_all_combinations by blast
qed

text \<open>
  C13.  The needs of a planned job are complete and sound: they are sorted, and they are exactly
  the identities of the planned instances of the jobs its declaration needs.
\<close>

theorem needs_name_exactly_the_needed_instances:
  "list_all (\<lambda>j. sorted (pjNeeds j) \<and>
       set (pjNeeds j) = {pjIdentity k |k. k \<in> set (plJobs (BuildPlan num d)) \<and>
         pjJobIdentity k \<in> set (wjNeeds (wlJobs d ! pjDeclarationOrd j))})
     (plJobs (BuildPlan num d))"
  unfolding list_all_iff using plan_needs by blast

text \<open>
  C14.  The expansion budget is exact: although the total is kept in 64 bits, a flow is rejected
  exactly when the items of all its \<open>forEach\<close> nodes together, at every depth, exceed the limit,
  and otherwise the number recorded in the program is that total.
\<close>

theorem expansion_budget_is_exact:
  assumes "slices_fit n"
  shows "case plannedIterationCount n DefaultExpansionBudget of
      Inl _ \<Rightarrow> DefaultExpansionBudget < int (total_iterations n)
    | Inr k \<Rightarrow> k = int (total_iterations n) \<and> k \<le> DefaultExpansionBudget"
  using plannedIterationCount_exact [OF assms, of DefaultExpansionBudget]
  by (cases "int (total_iterations n) \<le> DefaultExpansionBudget")
    (auto simp: DefaultExpansionBudget_def split: sum.splits)

definition demo_items :: workflow_flow_node where
  "demo_items = WorkflowFlowNode ''forEach'' ''each'' [] None None [] None None
     [WorkflowForEachItem 0 \<lparr>wivKind = ''string'', wivString = ''a'', wivNumber = None, wivBoolean = None,
        wivSource = None\<rparr> (effect_node ''sync'' '''')]
     '''' 0 '''' None None None None '''' []"

theorem expansion_budget_is_exact_witness:
  "case plannedIterationCount demo_items DefaultExpansionBudget of
      Inl _ \<Rightarrow> DefaultExpansionBudget < int (total_iterations demo_items)
    | Inr k \<Rightarrow> k = int (total_iterations demo_items) \<and> k \<le> DefaultExpansionBudget"
  by (rule expansion_budget_is_exact)
    (simp add: demo_items_def effect_node_def slices_fit.simps nested_nodes_def option_list_def)

section \<open>The executor\<close>

text \<open>
  C15.  \<open>RunFlow\<close> returns: if every time it waits at least one of the effects it has started
  completes, it ends after at most one round per node of the flow, and one more.
\<close>

theorem RunFlow_returns:
  assumes "legal_run f rounds" and "length (flowNodes f) < length rounds"
  shows "\<exists>res events. RunFlow f rounds = Some (res, events)"
  using RunFlow_ends [OF assms] by auto

definition demo_step :: plan_step where
  "demo_step = plan_step_of ''j'' 0 (empty_step\<lparr>wsOperation := ''sync''\<rparr>)"

definition demo_effect :: flow_node where
  "demo_effect = (new_node ''x'' NodeEffect)\<lparr>nodeEffect := Some demo_step\<rparr>"

definition demo_edge :: "string \<Rightarrow> string \<Rightarrow> machine_event_kind \<Rightarrow> string \<Rightarrow> transition" where
  "demo_edge i from event to = \<lparr>tIdentity = i, tFrom = from, tEvent = event, tGuard = event_string event, tTo = to\<rparr>"

definition demo_flow :: flow where
  "demo_flow = \<lparr>flowSchemaVersion = 4, flowIdentity = ''d'', flowTriggers = [], flowEntry = ''e'',
     flowTerminals = \<lparr>ftSucceeded = ''s'', ftFailed = ''f'', ftCancelled = ''c'', ftTimedOut = ''t''\<rparr>,
     flowRegions = [], flowValues = [], flowAggregates = [],
     flowExpansion = \<lparr>emPlannedIterations = 0, emLimit = 4096, emMaxConcurrency = 32\<rparr>,
     flowNodes = [new_node ''e'' NodeEntry, demo_effect,
       (new_node ''s'' NodeTerminal)\<lparr>nodeTerminal := TerminalSucceeded\<rparr>,
       (new_node ''f'' NodeTerminal)\<lparr>nodeTerminal := TerminalFailed\<rparr>,
       (new_node ''c'' NodeTerminal)\<lparr>nodeTerminal := TerminalCancelled\<rparr>,
       (new_node ''t'' NodeTerminal)\<lparr>nodeTerminal := TerminalTimedOut\<rparr>],
     flowTransitions =
       [demo_edge ''1'' ''e'' MachineContinue ''x'', demo_edge ''2'' ''x'' MachineEffectSucceeded ''s'',
        demo_edge ''3'' ''x'' MachineEffectFailed ''f'', demo_edge ''4'' ''x'' MachineCancelRequested ''c'',
        demo_edge ''5'' ''x'' MachineTimeout ''t'']\<rparr>"

definition demo_round :: round where
  "demo_round = \<lparr>rdErr = None, rdLaunch = (\<lambda>_. False),
     rdBatch = [\<lparr>cpNode = demo_effect, cpResult = None, cpErr = None, cpDuration = 1\<rparr>], rdGone = (\<lambda>_. False)\<rparr>"

theorem RunFlow_returns_witness:
  "ValidateFlow demo_flow = [] \<and> (\<exists>res events. RunFlow demo_flow (replicate 7 demo_round) = Some (res, events))"
proof
  show "ValidateFlow demo_flow = []" by code_simp
  have "legal_run demo_flow (replicate 7 demo_round)" by code_simp
  then show "\<exists>res events. RunFlow demo_flow (replicate 7 demo_round) = Some (res, events)"
    by (rule RunFlow_returns) (simp add: demo_flow_def)
qed

text \<open>
  C16.  Dependencies come first: whatever the environment does, in the snapshot a run ends with
  no node is active, running or finished before all the nodes it depends on have finished.
\<close>

theorem RunFlow_respects_dependencies:
  "case RunFlow f rounds of None \<Rightarrow> True
   | Some (res, events) \<Rightarrow> (case rrSnapshot res of None \<Rightarrow> True | Some s \<Rightarrow> deps_first f s)"
  using RunFlow_deps [of f rounds] by (auto split: option.splits)

text \<open>
  C17.  The result accounts for every effect exactly once: the steps of the jobs are, as a
  multiset, the effects of the flow; a job has failed exactly when one of its steps has failed or
  timed out, and has succeeded exactly when none has failed, timed out, been blocked or been
  cancelled.
\<close>

theorem results_account_for_every_effect:
  "mset (concat (map jrSteps (rrJobs (machineResult f s st)))) =
     mset (map (effect_result s) (filter (\<lambda>n. nodeKind n = NodeEffect) (flowNodes f))) \<and>
   list_all (\<lambda>j. (jrState j = StateFailed \<longleftrightarrow>
         (\<exists>r \<in> set (jrSteps j). srState r = StateFailed \<or> srState r = StateTimedOut)) \<and>
       (jrState j = StateSucceeded \<longleftrightarrow>
         srState ` set (jrSteps j) \<inter> {StateFailed, StateTimedOut, StateBlocked, StateCancelled} = {}))
     (rrJobs (machineResult f s st))"
  using job_steps_mset [of f s st]
  by (auto simp: machineResult_def list_all_iff job_group_def Let_def job_state_fold job_state_fold_succeeded image_iff)

section \<open>The manifest checks\<close>



text \<open>
  C19.  Jobs the manifest checks accept form a finite acyclic graph: there is at least one, their
  names are distinct identifiers, each has a step, needs only other declared jobs, each once, and
  no chain of needs comes back to its start.
\<close>

theorem accepted_jobs_form_a_dag:
  assumes "validateWorkflowJobs uni num packages path w = []"
  shows "wlJobs w \<noteq> [] \<and> distinct (map wjIdentity (wlJobs w)) \<and>
    list_all (\<lambda>j. workflow_identity (wjIdentity j) \<and> wjSteps j \<noteq> [] \<and> distinct (wjNeeds j) \<and>
      set (wjNeeds j) \<subseteq> set (map wjIdentity (wlJobs w)) - {wjIdentity j}) (wlJobs w) \<and>
    acyclic (edges (job_needs (wlJobs w)))"
  using accepted_jobs [OF assms] by (auto simp: list_all_iff)

definition demo_job :: "string \<Rightarrow> string list \<Rightarrow> workflow_job" where
  "demo_job i needs = \<lparr>wjIdentity = i, wjNeeds = needs, wjRunsOn = '''', wjMatrix = [], wjEnv = [],
     wjSteps = [empty_step\<lparr>wsOperation := ''sync''\<rparr>]\<rparr>"

definition demo_jobs :: workflow where
  "demo_jobs = \<lparr>wlIdentity = ''w'', wlTriggers = [], wlJobs = [demo_job ''a'' [], demo_job ''b'' [''a'']],
     wlFlow = None\<rparr>"

theorem accepted_jobs_form_a_dag_witness:
  "wlJobs demo_jobs \<noteq> [] \<and> distinct (map wjIdentity (wlJobs demo_jobs)) \<and>
    list_all (\<lambda>j. workflow_identity (wjIdentity j) \<and> wjSteps j \<noteq> [] \<and> distinct (wjNeeds j) \<and>
      set (wjNeeds j) \<subseteq> set (map wjIdentity (wlJobs demo_jobs)) - {wjIdentity j}) (wlJobs demo_jobs) \<and>
    acyclic (edges (job_needs (wlJobs demo_jobs)))"
  by (rule accepted_jobs_form_a_dag [where uni = "\<lambda>r. r" and num = "\<lambda>_. ''0''" and packages = "{}" and path = "''w''"])
    code_simp

text \<open>
  C20.  The search for a dependency cycle among jobs is exact, on any list of jobs: it reports
  nothing exactly when the needs are acyclic, and what it reports is a closed walk along them.
\<close>

theorem dependency_cycles_are_exact:
  "(case workflowDependencyCycle jobs of
      [] \<Rightarrow> acyclic (edges (job_needs jobs))
    | c # cs \<Rightarrow> closed_walk (job_needs jobs) (c # cs) \<and> \<not> acyclic (edges (job_needs jobs)))"
  using workflowDependencyCycle_acyclic [of jobs] workflowDependencyCycle_exact(2) [of jobs]
    closed_walk_cycle [of "job_needs jobs" "workflowDependencyCycle jobs"]
  by (auto simp: acyclic_def split: list.splits)

text \<open>
  C21.  Safe file paths: a path passes exactly when it is not blank, has no backslash and no two dots
  in a row, is relative and names something, so the further tests on the cleaned path change
  nothing; and a path that passes stays below any root it is joined to, since the components of the
  joined path are those of the root followed by at least one more, none of which climbs.
\<close>

theorem safe_file_paths_stay_below:
  "(IsSafePackageFilePath p \<longleftrightarrow>
     \<not> is_blank p \<and> \<not> contains_str p [CHR 0x5C] \<and> \<not> contains_str p ''..'' \<and>
     \<not> is_rooted p \<and> path_components p \<noteq> []) \<and>
   (IsSafePackageFilePath p \<longrightarrow> base \<noteq> '''' \<longrightarrow>
     (\<exists>below. below \<noteq> [] \<and> list_all plain_name below \<and>
        path_components (path_join [base, p]) = path_components base @ below \<and>
        is_rooted (path_join [base, p]) = is_rooted base))"
  using safe_file_path_below [of p base] by (simp add: safe_file_path_iff)

theorem safe_file_paths_stay_below_witness:
  "\<exists>below. below \<noteq> [] \<and> list_all plain_name below \<and>
    path_components (path_join [''/w/x'', ''src/./a.ts'']) = path_components ''/w/x'' @ below \<and>
    is_rooted (path_join [''/w/x'', ''src/./a.ts'']) = is_rooted ''/w/x''"
proof -
  have "IsSafePackageFilePath ''src/./a.ts''" by code_simp
  moreover have "''/w/x'' \<noteq> ''''" by simp
  ultimately show ?thesis using safe_file_paths_stay_below [of "''src/./a.ts''" "''/w/x''"] by blast
qed

section \<open>Running an effect\<close>

text \<open>
  C22.  A process never runs outside the workspace: whatever the declared package roots, the
  directory chosen for a step is the workspace root or lies below it.
\<close>

theorem working_directories_stay_inside:
  "case resolveCwd base packages req of Inl _ \<Rightarrow> True | Inr d \<Rightarrow> path_under base d"
  using resolveCwd_under [of base packages req] by (auto split: sum.splits)







section \<open>Package requirements\<close>

text \<open>
  C26.  The controllers of a requirement tape: exactly one for each slot that is required at all,
  and no requirement of its slot has a higher precedence.  The tape does not depend on the order in
  which the requirements were discovered, as long as they have identities of their own.
\<close>

theorem one_controller_per_slot:
  "distinct (map SlotKey (Controllers (Build_requirements input))) \<and>
   SlotKey ` set (Controllers (Build_requirements input)) = SlotKey ` set (normalized_requirements input) \<and>
   list_all (\<lambda>c. list_all (\<lambda>r. requirement_key r \<le> requirement_key c)
       (filter (\<lambda>r. SlotKey r = SlotKey c) (normalized_requirements input))) (Controllers (Build_requirements input)) \<and>
   (mset input = mset input' \<longrightarrow> distinct (map rqID input) \<longrightarrow> '''' \<notin> set (map rqID input) \<longrightarrow>
     Build_requirements input = Build_requirements input')"
proof -
  have "Build_requirements input = Build_requirements input'"
    if "mset input = mset input'" "distinct (map rqID input)" "'''' \<notin> set (map rqID input)"
    by (simp only: Build_requirements_def ordered_by_identity [OF that])
  then show ?thesis
    using controller_slots [of input] controller_precedence [of _ input]
    by (simp add: Controllers_survivors survivors_distinct list_all_iff)
qed

definition demo_requirement :: "string \<Rightarrow> string \<Rightarrow> package_requirement" where
  "demo_requirement i kind =
     \<lparr>rqID = i, rqTarget = \<lparr>piSource = ''npm'', piName = ''react''\<rparr>, rqReference = '''', rqConstraint = ''^18'',
      rqKind = kind, rqOptional = False,
      rqOrigin = \<lparr>roRequiringPackage = '''', roPackageID = '''', roDependencyKey = '''', roSource = ''''\<rparr>,
      rqEnvironment = '''', rqOrder = 0\<rparr>"

theorem one_controller_per_slot_witness:
  "Build_requirements [demo_requirement ''a'' ''peer'', demo_requirement ''b'' ''override''] =
     Build_requirements [demo_requirement ''b'' ''override'', demo_requirement ''a'' ''peer'']"
proof -
  let ?x = "[demo_requirement ''a'' ''peer'', demo_requirement ''b'' ''override'']"
  have "mset ?x = mset (rev ?x)" "distinct (map rqID ?x)" "'''' \<notin> set (map rqID ?x)"
    by (simp_all add: demo_requirement_def)
  then have "Build_requirements ?x = Build_requirements (rev ?x)" using one_controller_per_slot by blast
  then show ?thesis by simp
qed

text \<open>
  C27.  Classification: an entry is reported as controlling or as shadowed and compatible exactly
  when the version selected for its slot meets its constraint, and a tape without complaints is one
  whose every requirement, shadowed ones included, is met.
\<close>

theorem classification_reports_unmet_requirements:
  "list_all (\<lambda>e. (reStatus e = StatusControlling \<longleftrightarrow>
        reControlling e \<and> met parse version satisfies selected (reRequirement e)) \<and>
      (reStatus e = StatusShadowedCompatible \<longleftrightarrow>
        \<not> reControlling e \<and> met parse version satisfies selected (reRequirement e)))
     (Classify parse version satisfies selected (Build_requirements input)) \<and>
   (list_all (\<lambda>e. reStatus e \<in> {StatusControlling, StatusShadowedCompatible})
     (Classify parse version satisfies selected (Build_requirements input)) \<longleftrightarrow>
   list_all (met parse version satisfies selected) (normalized_requirements input))"
  unfolding list_all_iff all_met [symmetric] by (auto simp: Classify_def classified_reads status_met)


section \<open>Package identity\<close>

text \<open>
  C28.  JSR names and names of the npm compatibility registry: a compatibility name that is read
  back gives the name it was made from, always; a JSR name that has a compatibility name is found
  again from it exactly when its scope does not end in an underscore.
\<close>

theorem jsr_names_round_trip:
  "(case LogicalJSRName c of Inl _ \<Rightarrow> True | Inr n \<Rightarrow> JSRCompatibilityName n = Inr c) \<and>
   (case splitJSRName m of Inl _ \<Rightarrow> True
    | Inr (scope, pkg) \<Rightarrow>
        (case JSRCompatibilityName m of
           Inl _ \<Rightarrow> contains_str scope ''__'' \<or> contains_str pkg ''__''
         | Inr spelled \<Rightarrow> LogicalJSRName spelled = Inr m \<longleftrightarrow> \<not> has_suffix scope ''_''))"
proof -
  have "(case splitJSRName m of Inl _ \<Rightarrow> True
    | Inr (scope, pkg) \<Rightarrow>
        (case JSRCompatibilityName m of
           Inl _ \<Rightarrow> contains_str scope ''__'' \<or> contains_str pkg ''__''
         | Inr spelled \<Rightarrow> LogicalJSRName spelled = Inr m \<longleftrightarrow> \<not> has_suffix scope ''_''))"
  proof (cases "splitJSRName m")
    case (Inr p)
    obtain scope pkg where p: "p = (scope, pkg)" by (cases p)
    show ?thesis
    proof (cases "JSRCompatibilityName m")
      case (Inl err)
      then show ?thesis using Inr by (auto simp: p JSRCompatibilityName_def split: if_splits)
    next
      case spelled: (Inr c)
      show ?thesis using JSRCompatibilityName_back [OF Inr [unfolded p] spelled]
        by (simp add: Inr p spelled ends_with_iff)
    qed
  qed simp
  then show ?thesis using LogicalJSRName_back [of c] by (auto split: sum.splits)
qed

text \<open>
  C29.  The identity of a module instance stands for its peer environment.  As long as the fields of
  the peer bindings hold neither separator of the hashed text, that text is the same for two lists
  of bindings exactly when they have the same canonical bindings, each as often and in any order;
  and then the two instances have the same identity and the same peer context.
\<close>

theorem peer_environments_identify_instances:
  assumes "list_all plain_binding bs" and "list_all plain_binding bs'"
  shows "(peer_context_text (pcBindings (idiPeerContext (NewModuleInstance sha r bs))) =
      peer_context_text (pcBindings (idiPeerContext (NewModuleInstance sha r bs'))) \<longleftrightarrow>
      mset (map canonical_binding bs) = mset (map canonical_binding bs')) \<and>
    (mset (map canonical_binding bs) = mset (map canonical_binding bs') \<longrightarrow>
      NewModuleInstance sha r bs = NewModuleInstance sha r bs')"
proof -
  have ctx: "pcBindings (idiPeerContext (NewModuleInstance sha r xs)) = CanonicalPeerBindings xs" for xs
    by (simp add: NewModuleInstance_def Let_def)
  have "CanonicalPeerBindings bs = CanonicalPeerBindings bs'" if "mset (map canonical_binding bs) = mset (map canonical_binding bs')"
    using that assms by (intro peer_context_text_inj canonical_all_plain) (simp_all add: peer_context_text_exact)
  then show ?thesis using peer_context_text_exact [OF assms] by (simp add: ctx) (simp add: NewModuleInstance_def)
qed

definition demo_binding :: "string \<Rightarrow> peer_binding" where
  "demo_binding n = \<lparr>pbReference = n, pbSource = ''npm'', pbName = n, pbRealizationID = n, pbInstanceID = '''',
     pbOptional = False, pbState = ''''\<rparr>"

theorem peer_environments_identify_instances_witness:
  "NewModuleInstance rev ''p'' [demo_binding ''a'', demo_binding ''b''] =
     NewModuleInstance rev ''p'' [demo_binding ''b'', demo_binding ''a'']"
proof -
  have "list_all plain_binding [demo_binding ''a'', demo_binding ''b'']" by code_simp
  moreover have "list_all plain_binding [demo_binding ''b'', demo_binding ''a'']" by code_simp
  moreover have "mset (map canonical_binding [demo_binding ''a'', demo_binding ''b'']) =
      mset (map canonical_binding [demo_binding ''b'', demo_binding ''a''])" by simp
  ultimately show ?thesis using peer_environments_identify_instances by blast
qed


section \<open>Authoring\<close>

text \<open>
  C30.  Conflicts of an authoring tape: it has a fatal conflict exactly when two declarations with the
  same effective key name different packages, and without a fatal conflict the effective
  dependencies have distinct keys, so that nothing the resolver receives is named twice.
\<close>

theorem fatal_conflicts_are_key_collisions:
  "(HasFatalConflicts (Build_authoring ds) \<longleftrightarrow>
     list_ex (\<lambda>a. list_ex (\<lambda>b. effective_key a = effective_key b \<and> ddIdentity a \<noteq> ddIdentity b)
       (normalized_declarations ds)) (normalized_declarations ds)) \<and>
   (HasFatalConflicts (Build_authoring ds) \<or>
     distinct (map EffectiveIdentity (trEffective (Build_authoring ds))))"
proof -
  have "HasFatalConflicts (Build_authoring ds) \<or>
     distinct (map EffectiveIdentity (trEffective (Build_authoring ds)))"
    using effective_keys_distinct [of "ordered_declarations ds"] fatal_conflicts_exact [of ds]
      same_key_set [OF ordered_declarations_set, of ds]
    by (auto simp: Build_authoring_effective effective_key_def [abs_def] comp_def)
  then show ?thesis by (auto simp: fatal_conflicts_exact same_key_same_identity_def list_ex_iff)
qed

text \<open>
  C31.  Adding and removing a dependency.  A declaration added in the explicit layer, not below an
  explicit one of a higher layer order, is effective: it shadows the one of its slot if there is one
  and leaves every other effective declaration as it was.  And removing undoes adding: an added
  declaration whose identity is its own is found by it, and after its removal the tape is the one
  from before the addition.
\<close>

theorem removing_undoes_adding:
  "(ddLayer d \<in> {'''', ''explicit''} \<and>
      list_all (\<lambda>e. ddLayerOrder e \<le> ddLayerOrder d) (filter (\<lambda>e. ddLayer e = ''explicit'') ds) \<longrightarrow>
    effective_declarations (erAfter (Add slot_order ds d)) =
      filter (\<lambda>e. declarationSlotKey e \<noteq> declarationSlotKey (added_declaration ds d))
        (effective_declarations (erBefore (Add slot_order ds d))) @ [added_declaration ds d]) \<and>
   (ddID (added_declaration ds d) \<notin> set (map ddID (normalized_declarations ds)) \<longrightarrow>
    (case Remove slot_order (ds @ [added_declaration ds d]) (by_ID (ddID (added_declaration ds d))) of
       Inl _ \<Rightarrow> False
     | Inr r \<Rightarrow> erBefore r = erAfter (Add slot_order ds d) \<and> erAfter r = erBefore (Add slot_order ds d)))"
  using added_is_effective [of d ds slot_order] Remove_added [of ds d slot_order]
  by (auto simp: list_all_iff)

definition demo_declaration :: "string \<Rightarrow> dependency_declaration" where
  "demo_declaration n =
     \<lparr>ddID = '''', ddKey = '''', ddIdentity = \<lparr>aiSource = '''', aiName = ''''\<rparr>,
      ddSource = \<lparr>asKind = ''npm'', asPackage = n, asRange = ''^1'', asRef = '''', asRepo = '''', asTag = '''', asRev = '''',
        asBranch = '''', asPath = '''', asName = ''''\<rparr>,
      ddConstraint = '''', ddKind = ''dep'', ddOptional = False,
      ddOrigin = \<lparr>doKind = '''', doName = '''', doSourcePath = '''', doRef = ''''\<rparr>, ddLayer = '''', ddLayerOrder = 0,
      ddOrder = 0, ddAuthority = '''', ddEditability = '''', ddPatch = None\<rparr>"

theorem removing_undoes_adding_witness:
  "effective_declarations (erAfter (Add id [demo_declaration ''a''] (demo_declaration ''a''))) =
     filter (\<lambda>e. declarationSlotKey e \<noteq> declarationSlotKey (added_declaration [demo_declaration ''a''] (demo_declaration ''a'')))
       (effective_declarations (erBefore (Add id [demo_declaration ''a''] (demo_declaration ''a'')))) @
     [added_declaration [demo_declaration ''a''] (demo_declaration ''a'')] \<and>
   (case Remove id ([demo_declaration ''a''] @ [added_declaration [demo_declaration ''a''] (demo_declaration ''a'')])
       (by_ID (ddID (added_declaration [demo_declaration ''a''] (demo_declaration ''a'')))) of
      Inl _ \<Rightarrow> False
    | Inr r \<Rightarrow> erBefore r = erAfter (Add id [demo_declaration ''a''] (demo_declaration ''a'')) \<and>
        erAfter r = erBefore (Add id [demo_declaration ''a''] (demo_declaration ''a'')))"
proof -
  have "ddLayer (demo_declaration ''a'') \<in> {'''', ''explicit''} \<and>
      list_all (\<lambda>e. ddLayerOrder e \<le> ddLayerOrder (demo_declaration ''a''))
        (filter (\<lambda>e. ddLayer e = ''explicit'') [demo_declaration ''a''])" by (simp add: demo_declaration_def)
  moreover have "ddID (added_declaration [demo_declaration ''a''] (demo_declaration ''a''))
      \<notin> set (map ddID (normalized_declarations [demo_declaration ''a'']))" by code_simp
  ultimately show ?thesis
    using removing_undoes_adding [of "demo_declaration ''a''" "[demo_declaration ''a'']" id] by blast
qed

section \<open>Concepts\<close>

text \<open>
  C32.  Merging concepts loses nothing that has a key: when \<open>BuildConceptIR\<close> succeeds, every
  requested concept is known, fits the kind, has what it requires listed and nothing it conflicts
  with; every variable, dependency, target, variable of the environment, service, policy and file it
  contributes is in the result; and no key occurs twice there, no package under two kinds.
\<close>

theorem merged_concepts_are_complete:
  "case BuildConceptIR registry requested kind of Inl _ \<Rightarrow> True
   | Inr ir \<Rightarrow> merged_keys_distinct ir \<and>
       list_all (\<lambda>n. case registry n of None \<Rightarrow> False
         | Some f \<Rightarrow> admissible requested kind f \<and> covers f ir) requested"
proof (cases "BuildConceptIR registry requested kind")
  case (Inr ir)
  have "case registry n of None \<Rightarrow> False | Some f \<Rightarrow> admissible requested kind f \<and> covers f ir"
    if "n \<in> set requested" for n
    using BuildConceptIR_Inr(2) [OF Inr that] by auto
  then show ?thesis using BuildConceptIR_Inr(1) [OF Inr] by (simp add: Inr list_all_iff)
qed simp

text \<open>
  C33.  The two ways in which concepts declare dependencies agree: the declarations that a successful
  merge hands to authoring have no fatal conflict, and, when no source has a colon in its name, the
  dependencies effective there are exactly the merged ones.
\<close>

theorem merged_dependencies_are_effective:
  assumes "Merge fs = Inr ir"
    and "list_all (\<lambda>k. list_all (\<lambda>c. CHR '':'' \<notin> set (dcSource c)) (contributed fs k)) dep_kinds"
  shows "\<not> HasFatalConflicts (Build_authoring (mgAuthoring ir)) \<and>
    set (trEffective (Build_authoring (mgAuthoring ir))) = set (merged_dependencies ir)"
  using merge_authoring [OF assms(1)] assms(2) by (auto simp: list_all_iff)

definition demo_fragment :: "string \<Rightarrow> string \<Rightarrow> concept_fragment" where
  "demo_fragment n tool =
     \<lparr>frName = n, frDescription = '''', frProvides = [n], frRequires = [], frRequiresAnyOf = [], frOptional = [],
      frConflicts = [], frCompatibleKinds = [], frVariables = [],
      frManifest = empty_manifest\<lparr>mcTools := [\<lparr>dcName = tool, dcRange = ''^5'', dcSource = ''npm'', dcDeclaredBy = '''',
        dcDeclarationOrder = 0\<rparr>]\<rparr>,
      frFiles = [], frProjections = [], frSlots = [], frWarnings = []\<rparr>"

definition demo_merged :: merged_concepts where
  "demo_merged = (case Merge [demo_fragment ''a'' ''ts'', demo_fragment ''b'' ''ts''] of Inl _ \<Rightarrow> undefined | Inr ir \<Rightarrow> ir)"

theorem merged_dependencies_are_effective_witness:
  "\<not> HasFatalConflicts (Build_authoring (mgAuthoring demo_merged)) \<and>
    set (trEffective (Build_authoring (mgAuthoring demo_merged))) = set (merged_dependencies demo_merged)"
proof (rule merged_dependencies_are_effective)
  let ?fs = "[demo_fragment ''a'' ''ts'', demo_fragment ''b'' ''ts'']"
  have "\<not> isl (Merge ?fs)" by code_simp
  then show "Merge ?fs = Inr demo_merged" by (cases "Merge ?fs") (simp_all add: demo_merged_def)
  show "list_all (\<lambda>k. list_all (\<lambda>c. CHR '':'' \<notin> set (dcSource c)) (contributed ?fs k)) dep_kinds" by code_simp
qed

section \<open>The lock file\<close>

text \<open>
  C34.  The module instances of a lock file can always be rebuilt, whatever cycles its dependencies
  have: the walk returns, and the depth of its recursion stays within a bound read off the lock
  file.  In the result every locked package has an instance; every instance has one dependency for
  each dependency edge of its package, in order, and every peer that is present is linked; all these
  links, and those of the roots, lead to instances of the file.
\<close>

theorem module_instances_are_rebuilt:
  assumes "lock_ready lf" and "instance_budget lf < fuel" and "\<And>t. length (sha t) = 64"
    and "\<And>xs. mset (map_order xs) = mset xs"
  shows "case RebuildModuleInstances sha map_order fuel lf of None \<Rightarrow> False
    | Some lf' \<Rightarrow>
        lpID ` set (lfPackages lf) \<subseteq> liPackageID ` set (lfInstances lf') \<and>
        list_all (\<lambda>x. instance_closed (liID ` set (lfInstances lf')) x \<and>
          instance_complete (packages_by_id (lfPackages lf)) (ibEdges (instance_start lf)) x) (lfInstances lf') \<and>
        map root_reading (lfRootInstances lf') =
          map (root_edge_reading (packages_by_id (lfPackages lf)))
            (moduleRootEdges (lfEdges lf) (packages_by_id (lfPackages lf))) \<and>
        list_all (\<lambda>r. riInstanceID r \<in> liID ` set (lfInstances lf')) (lfRootInstances lf')"
proof (rule rebuild_sound [where sha = sha and map_order = map_order, OF assms])
  fix lf'
  assume "RebuildModuleInstances sha map_order fuel lf = Some lf'"
    and "\<forall>x\<in>set (lfInstances lf'). instance_closed (liID ` set (lfInstances lf')) x \<and>
      instance_complete (packages_by_id (lfPackages lf)) (packageEdgesByFrom (lfEdges lf) (packages_by_id (lfPackages lf))) x"
    and "lpID ` set (lfPackages lf) \<subseteq> liPackageID ` set (lfInstances lf')"
    and "map root_reading (lfRootInstances lf') =
      map (root_edge_reading (packages_by_id (lfPackages lf))) (moduleRootEdges (lfEdges lf) (packages_by_id (lfPackages lf)))"
    and "riInstanceID ` set (lfRootInstances lf') \<subseteq> liID ` set (lfInstances lf')"
  then show ?thesis
    by (simp add: list_all_iff start_reads image_subset_iff)
qed

definition demo_package :: "string \<Rightarrow> lock_package" where
  "demo_package n = zero_package\<lparr>lpID := ''npm:'' @ n @ ''@1'', lpName := n, lpVersion := ''1'', lpSource := ''npm'', lpHash := ''h''\<rparr>"

definition demo_lock_edge :: "string \<Rightarrow> string \<Rightarrow> lock_edge" where
  "demo_lock_edge a b = \<lparr>leFrom = a, leTo = ''npm:'' @ b @ ''@1'', leKind = ''runtime'', leOptional = False, leReference = b\<rparr>"

definition demo_peer :: lock_requirement where
  "demo_peer = \<lparr>lrID = ''r'', lrScope = ''workspace'', lrTargetSource = ''npm'', lrTargetName = ''a'', lrReference = ''a'',
     lrConstraint = ''1'', lrKind = ''peer'', lrRequiringPackage = '''', lrPackageID = ''npm:b@1'', lrDependencyKey = '''',
     lrOriginSource = '''', lrOrder = 0, lrOptional = False, lrControlling = True, lrShadowedBy = '''', lrStatus = ''controlling'',
     lrSelectedVersion = ''1''\<rparr>"

text \<open>Two packages that depend on each other, one of them as a peer of the other as well.\<close>

definition demo_lock :: lockfile where
  "demo_lock = empty_lock\<lparr>lfPackages := [demo_package ''a'', demo_package ''b''],
     lfEdges := [demo_lock_edge ''app:dependency'' ''a'', demo_lock_edge ''npm:a@1'' ''b'', demo_lock_edge ''npm:b@1'' ''a''],
     lfRequirements := [demo_peer]\<rparr>"

definition demo_sha :: "string \<Rightarrow> string" where
  "demo_sha t = replicate 64 (CHR ''0'')"

lemma demo_trims:
  "trim_space ''npm:a@1'' = ''npm:a@1''" "trim_space ''npm:b@1'' = ''npm:b@1''"
  "trim_space ''a'' = ''a''" "trim_space ''npm'' = ''npm''"
  by (simp_all add: visible_trim visible_def byte_in_def)

lemma demo_lock_ready: "lock_ready demo_lock"
  by (simp add: lock_ready_def demo_lock_def demo_package_def zero_package_def package_complete_def requirement_named_def demo_peer_def demo_trims empty_lock_def)
lemma demo_budget: "instance_budget demo_lock < 5"
  by (simp add: instance_budget_def peerRequirementsByPackage_def demo_lock_def demo_package_def demo_peer_def)

lemma demo_sha_length: "length (demo_sha t) = 64"
  by (simp add: demo_sha_def)

theorem module_instances_are_rebuilt_witness:
  "case RebuildModuleInstances demo_sha id 5 demo_lock of None \<Rightarrow> False
    | Some lf' \<Rightarrow>
        lpID ` set (lfPackages demo_lock) \<subseteq> liPackageID ` set (lfInstances lf') \<and>
        list_all (\<lambda>x. instance_closed (liID ` set (lfInstances lf')) x \<and>
          instance_complete (packages_by_id (lfPackages demo_lock)) (ibEdges (instance_start demo_lock)) x) (lfInstances lf') \<and>
        map root_reading (lfRootInstances lf') =
          map (root_edge_reading (packages_by_id (lfPackages demo_lock)))
            (moduleRootEdges (lfEdges demo_lock) (packages_by_id (lfPackages demo_lock))) \<and>
        list_all (\<lambda>r. riInstanceID r \<in> liID ` set (lfInstances lf')) (lfRootInstances lf')"
  by (rule module_instances_are_rebuilt [where sha = demo_sha, OF demo_lock_ready demo_budget demo_sha_length]) simp




section \<open>The manifest and the workspace graph\<close>

text \<open>
  C37.  A manifest that loading accepts can be built into a graph: every package has its node, with
  exactly its dependencies, targets, tools and tests, each target and test as declared.  The one
  complaint the graph may still have is the one the manifest checks do not make, of a target that
  names as a peer a dependency of another kind, and it makes it exactly of those.
\<close>

theorem accepted_manifests_build_graphs:
  assumes "LoadBytes lib file ir = Inr ir'"
  shows "case Build_graph (Some ir') of (g, complaints) \<Rightarrow>
    map pnName (wgPackages g) = sort (map mpName (mfPackages ir')) \<and>
    distinct (map mpName (mfPackages ir')) \<and>
    matched package_in_graph (mfPackages ir') (wgPackages g) \<and>
    complaints = SortDiagnostics (concat (map misplaced_in_package (mfPackages ir')))"
  by (rule graph_sound [OF accepted_sound [OF assms]]) (use accepted_sound [OF assms] in \<open>simp add: sound_manifest_def\<close>)

theorem accepted_manifests_build_graphs_witness:
  "case Build_graph (Some (validated_manifest demo_library demo_manifest)) of (g, complaints) \<Rightarrow>
    map pnName (wgPackages g) = sort (map mpName (mfPackages (validated_manifest demo_library demo_manifest))) \<and>
    distinct (map mpName (mfPackages (validated_manifest demo_library demo_manifest))) \<and>
    matched package_in_graph (mfPackages (validated_manifest demo_library demo_manifest)) (wgPackages g) \<and>
    complaints = SortDiagnostics (concat (map misplaced_in_package (mfPackages (validated_manifest demo_library demo_manifest))))"
  by (rule accepted_manifests_build_graphs [OF demo_accepted])

text \<open>
  C38.  The pass over the build targets of a workspace is silent exactly when every target that one
  depends on is declared and the dependencies have no cycle, whatever identities are declared more
  than once; its search never runs out.
\<close>

theorem build_dependencies_are_decided:
  "validateBuildTargetDependencies ps = [] \<longleftrightarrow>
     list_all (\<lambda>d. snd d \<in> set (target_names ps)) (concat (map located_dependencies (located_targets ps))) \<and>
     acyclic (set (concat (map located_dependencies (located_targets ps))))"
  using build_dependencies_checked [of ps]
  by (auto simp: known_dependencies_def build_dependencies_def list_all_iff image_subset_iff)

text \<open>
  C39.  In an accepted manifest every built fixture of a test is supplied: the test depends, directly
  or through other build targets, on the target the fixture names, and that target declares every
  artifact the fixture wants, at least one and none twice.
\<close>

theorem built_fixtures_are_supplied:
  assumes "LoadBytes lib file ir = Inr ir'"
  shows "list_all (\<lambda>p. list_all (\<lambda>t. list_all (fixture_supplied (mfPackages ir') (mpName p) t) (ttBuiltFixtures t))
    (mpTestTargets p)) (mfPackages ir')"
  unfolding list_all_iff
  using built_fixtures_supplied [OF accepted_packages(4) [OF assms] accepted_plain_targets [OF assms]] by blast

theorem built_fixtures_are_supplied_witness:
  "fixture_supplied [filled_package demo_manifest_package] ''a'' demo_test demo_built_fixture"
  using built_fixtures_are_supplied [OF demo_accepted]
  by (simp add: validated_manifest_def demo_manifest_def filled_package_reads demo_reads)
    (simp add: demo_test_def)

text \<open>
  C40.  Manifest, graph and lock file agree: of the graph of an accepted manifest, the consistency
  check of a lock file is silent exactly when the lock file has every declared target with its export,
  entry, runtime and types, has no other target, and locks for every test what the test requires.
\<close>

theorem consistent_locks_describe_the_manifest:
  assumes "LoadBytes lib file ir = Inr ir'" and "\<And>xs. set (map_order xs) = set xs"
  shows "CheckGraphConsistency map_order (Some (fst (Build_graph (Some ir')))) (Some lf) = [] \<longleftrightarrow> lock_describes ir' lf"
  by (rule consistency_decided [OF accepted_sound [OF assms(1)] assms(2)])

theorem consistent_locks_describe_the_manifest_witness:
  "CheckGraphConsistency rev (Some (fst (Build_graph (Some (validated_manifest demo_library demo_manifest))))) (Some demo_manifest_lock) = []"
proof -
  have "lock_describes (validated_manifest demo_library demo_manifest) demo_manifest_lock"
    by (simp add: lock_describes_def validated_manifest_def demo_manifest_def filled_package_reads demo_reads demo_manifest_lock_def
        declared_target_def demo_locked_target_def locked_as_def lock_target_at_def target_key_def requirements_locked_def
        locked_requirements_def)
      (simp add: demo_target_def filled_target_def Let_def demo_test_def)
  then show ?thesis using consistent_locks_describe_the_manifest [OF demo_accepted, of rev] by simp
qed

end
